(* ===== verification/Prelude.thy ===== *)
theory Prelude
  imports Main "HOL-Library.AList" "HOL-Library.Char_ord" "HOL-Library.List_Lexorder"
    "HOL-Library.Multiset"
begin

text \<open>
  Shared notions of the development: text as the Python runtime sees it, dictionaries with
  insertion order, results of computations that may raise, and the generic list lemmas the
  components use.

  Text is a \<^typ>\<open>string\<close>; one \<^typ>\<open>char\<close> stands for one Unicode code point below 256.  Code
  points above 255 are outside the model.  Within that range the string methods the code uses
  (\<open>strip\<close>, \<open>lower\<close>, \<open>casefold\<close>, \<open>split\<close>, \<open>isspace\<close>, \<open>encode("utf-8")\<close>) are the ones of
  the Python standard library.
\<close>

named_theorems text_simps \<open>evaluation of the text operations\<close>
named_theorems raise_simps \<open>computations that may raise\<close>

section \<open>Exceptions\<close>

text \<open>
  The class hierarchy of \<open>core/errors.py\<close> and the builtin classes the code raises or catches.
  \<open>Subclass n b\<close> is a class named \<open>n\<close> derived from \<open>b\<close> outside the modelled code (a driver or
  a destination sink may define any).  \<open>CancelledError\<close> derives from \<open>BaseException\<close> only, as
  in \<open>asyncio\<close>, so \<open>except Exception\<close> does not catch it.
\<close>

datatype exn_class =
    BaseException | PyException | NatsSinksError | ConfigurationError | SinkError
  | TemporarySinkError | PermanentSinkError | SerializationError | ValidationError
  | PolicyViolationError | SizePolicyViolationError | DestinationUnavailableError
  | RetryExhaustedError | DeadLetterError | AckError
  | ValueError | TypeError | AttributeError | OSError | FileExistsError | PyTimeoutError
  | RuntimeError | FanoutAckGateError | FanoutRequiredSinkError
  | CancelledError | Subclass string exn_class

primrec ancestors :: "exn_class \<Rightarrow> exn_class list" where
  "ancestors BaseException = [BaseException]"
| "ancestors PyException = [PyException, BaseException]"
| "ancestors NatsSinksError = [NatsSinksError, PyException, BaseException]"
| "ancestors ConfigurationError = [ConfigurationError, NatsSinksError, PyException, BaseException]"
| "ancestors SinkError = [SinkError, NatsSinksError, PyException, BaseException]"
| "ancestors TemporarySinkError =
     [TemporarySinkError, SinkError, NatsSinksError, PyException, BaseException]"
| "ancestors PermanentSinkError =
     [PermanentSinkError, SinkError, NatsSinksError, PyException, BaseException]"
| "ancestors SerializationError =
     [SerializationError, PermanentSinkError, SinkError, NatsSinksError, PyException, BaseException]"
| "ancestors ValidationError =
     [ValidationError, PermanentSinkError, SinkError, NatsSinksError, PyException, BaseException]"
| "ancestors PolicyViolationError =
     [PolicyViolationError, ValidationError, PermanentSinkError, SinkError, NatsSinksError,
      PyException, BaseException]"
| "ancestors SizePolicyViolationError =
     [SizePolicyViolationError, ValidationError, PermanentSinkError, SinkError, NatsSinksError,
      PyException, BaseException]"
| "ancestors DestinationUnavailableError =
     [DestinationUnavailableError, TemporarySinkError, SinkError, NatsSinksError, PyException,
      BaseException]"
| "ancestors RetryExhaustedError = [RetryExhaustedError, NatsSinksError, PyException, BaseException]"
| "ancestors DeadLetterError = [DeadLetterError, NatsSinksError, PyException, BaseException]"
| "ancestors AckError = [AckError, NatsSinksError, PyException, BaseException]"
| "ancestors ValueError = [ValueError, PyException, BaseException]"
| "ancestors TypeError = [TypeError, PyException, BaseException]"
| "ancestors AttributeError = [AttributeError, PyException, BaseException]"
| "ancestors OSError = [OSError, PyException, BaseException]"
| "ancestors FileExistsError = [FileExistsError, OSError, PyException, BaseException]"
| "ancestors PyTimeoutError = [PyTimeoutError, OSError, PyException, BaseException]"
| "ancestors RuntimeError = [RuntimeError, PyException, BaseException]"
| "ancestors FanoutAckGateError = [FanoutAckGateError, RuntimeError, PyException, BaseException]"
| "ancestors FanoutRequiredSinkError =
     [FanoutRequiredSinkError, FanoutAckGateError, RuntimeError, PyException, BaseException]"
| "ancestors CancelledError = [CancelledError, BaseException]"
| "ancestors (Subclass n b) = Subclass n b # ancestors b"

primrec class_name :: "exn_class \<Rightarrow> string" where
  "class_name BaseException = ''BaseException''"
| "class_name PyException = ''Exception''"
| "class_name NatsSinksError = ''NatsSinksError''"
| "class_name ConfigurationError = ''ConfigurationError''"
| "class_name SinkError = ''SinkError''"
| "class_name TemporarySinkError = ''TemporarySinkError''"
| "class_name PermanentSinkError = ''PermanentSinkError''"
| "class_name SerializationError = ''SerializationError''"
| "class_name ValidationError = ''ValidationError''"
| "class_name PolicyViolationError = ''PolicyViolationError''"
| "class_name SizePolicyViolationError = ''SizePolicyViolationError''"
| "class_name DestinationUnavailableError = ''DestinationUnavailableError''"
| "class_name RetryExhaustedError = ''RetryExhaustedError''"
| "class_name DeadLetterError = ''DeadLetterError''"
| "class_name AckError = ''AckError''"
| "class_name ValueError = ''ValueError''"
| "class_name TypeError = ''TypeError''"
| "class_name AttributeError = ''AttributeError''"
| "class_name OSError = ''OSError''"
| "class_name FileExistsError = ''FileExistsError''"
| "class_name PyTimeoutError = ''TimeoutError''"
| "class_name RuntimeError = ''RuntimeError''"
| "class_name FanoutAckGateError = ''FanoutAckGateError''"
| "class_name FanoutRequiredSinkError = ''FanoutRequiredSinkError''"
| "class_name CancelledError = ''CancelledError''"
| "class_name (Subclass n b) = n"

text \<open>
  An exception value carries its class and its rendered message.  Messages keep the fixed text
  of the source; operands interpolated into a message are left out unless a component says
  otherwise, since no control flow reads them.
\<close>

datatype exn = Exn (exn_cls: exn_class) (exn_msg: string)

definition isinstance :: "exn \<Rightarrow> exn_class \<Rightarrow> bool" where
  "isinstance e c \<longleftrightarrow> c \<in> set (ancestors (exn_cls e))"

lemma isinstance_Exn [simp]: "isinstance (Exn c m) d \<longleftrightarrow> d \<in> set (ancestors c)"
  by (simp add: isinstance_def)

text \<open>The framework classes are ordinary exceptions: \<open>except Exception\<close> catches them.\<close>

lemma ancestors_closed:
  assumes "d \<in> set (ancestors c)"
  shows "set (ancestors d) \<subseteq> set (ancestors c)"
  using assms by (induction c) (auto split: if_splits)

lemma framework_error_is_exception:
  assumes "isinstance e NatsSinksError"
  shows "isinstance e PyException"
proof -
  from assms have "set (ancestors NatsSinksError) \<subseteq> set (ancestors (exn_cls e))"
    unfolding isinstance_def by (rule ancestors_closed)
  then show ?thesis by (simp add: isinstance_def)
qed

lemma permanent_is_exception:
  assumes "isinstance e PermanentSinkError"
  shows "isinstance e PyException"
proof -
  from assms have "set (ancestors PermanentSinkError) \<subseteq> set (ancestors (exn_cls e))"
    unfolding isinstance_def by (rule ancestors_closed)
  then show ?thesis by (simp add: isinstance_def)
qed

section \<open>Computations that may raise\<close>

type_synonym 'a res = "exn + 'a"

definition raise :: "exn_class \<Rightarrow> string \<Rightarrow> 'a res" where
  "raise c m = Inl (Exn c m)"

definition rbind :: "'a res \<Rightarrow> ('a \<Rightarrow> 'b res) \<Rightarrow> 'b res" where
  "rbind r f = (case r of Inl e \<Rightarrow> Inl e | Inr x \<Rightarrow> f x)"

definition rmap :: "('a \<Rightarrow> 'b) \<Rightarrow> 'a res \<Rightarrow> 'b res" where
  "rmap f r = (case r of Inl e \<Rightarrow> Inl e | Inr x \<Rightarrow> Inr (f x))"

lemma rbind_simps [simp, raise_simps]:
  "rbind (Inl e) f = Inl e"
  "rbind (Inr x) f = f x"
  by (simp_all add: rbind_def)

lemma rmap_simps [simp, raise_simps]:
  "rmap g (Inl e) = Inl e"
  "rmap g (Inr x) = Inr (g x)"
  by (simp_all add: rmap_def)

lemma rbind_Inr_iff [raise_simps]: "rbind r f = Inr y \<longleftrightarrow> (\<exists>x. r = Inr x \<and> f x = Inr y)"
  by (cases r) simp_all

lemma rbindE:
  assumes "rbind r f = Inr y" obtains x where "r = Inr x" "f x = Inr y"
  using assms by (auto simp: rbind_Inr_iff)

lemma rmap_Inr_iff [raise_simps]: "rmap g r = Inr y \<longleftrightarrow> (\<exists>x. r = Inr x \<and> y = g x)"
  by (cases r) auto

lemma rbind_Inl_iff: "rbind r f = Inl e \<longleftrightarrow> r = Inl e \<or> (\<exists>x. r = Inr x \<and> f x = Inl e)"
  by (cases r) simp_all

text \<open>A list comprehension whose element expression may raise: the first error wins.\<close>

fun rmapM :: "('a \<Rightarrow> 'b res) \<Rightarrow> 'a list \<Rightarrow> 'b list res" where
  "rmapM f [] = Inr []"
| "rmapM f (x # xs) = rbind (f x) (\<lambda>y. rmap (Cons y) (rmapM f xs))"

lemma rmapM_Inr_iff: "rmapM f xs = Inr ys \<longleftrightarrow> list_all2 (\<lambda>x y. f x = Inr y) xs ys"
proof (induction xs arbitrary: ys)
  case Nil
  then show ?case by auto
next
  case (Cons x xs)
  then show ?case
    by (cases ys) (auto simp: rbind_Inr_iff rmap_Inr_iff)
qed

lemma rmapM_length: "rmapM f xs = Inr ys \<Longrightarrow> length ys = length xs"
  by (auto simp: rmapM_Inr_iff dest: list_all2_lengthD)

lemma rmapM_ex: "(\<And>x. x \<in> set xs \<Longrightarrow> \<exists>y. f x = Inr y) \<Longrightarrow> \<exists>ys. rmapM f xs = Inr ys"
proof (induction xs)
  case (Cons x xs)
  then obtain y ys where "f x = Inr y" "rmapM f xs = Inr ys"
    by (meson list.set_intros)
  then show ?case by simp
qed simp

lemma rmapM_elem: "rmapM f xs = Inr ys \<Longrightarrow> x \<in> set xs \<Longrightarrow> \<exists>y. f x = Inr y"
  by (auto simp: rmapM_Inr_iff list_all2_conv_all_nth in_set_conv_nth)

lemma rmapM_all:
  assumes "rmapM f xs = Inr ys" "\<And>x y. x \<in> set xs \<Longrightarrow> f x = Inr y \<Longrightarrow> P y"
  shows "list_all P ys"
proof -
  have "list_all2 (\<lambda>x y. f x = Inr y) xs ys" using assms(1) by (simp add: rmapM_Inr_iff)
  then show ?thesis using assms(2) by induction auto
qed

lemma rmapM_fixed:
  assumes "rmapM f xs = Inr ys" "\<And>y x. x \<in> set xs \<Longrightarrow> f x = Inr y \<Longrightarrow> y = x"
  shows "ys = xs"
proof -
  have "list_all2 (\<lambda>x y. f x = Inr y) xs ys" using assms(1) by (simp add: rmapM_Inr_iff)
  then show ?thesis using assms(2) by induction auto
qed

lemma rmapM_Inl: "rmapM f xs = Inl e \<Longrightarrow> \<exists>x\<in>set xs. f x = Inl e"
proof (induction xs)
  case (Cons x xs)
  then show ?case by (cases "f x"; cases "rmapM f xs") auto
qed simp

lemma rmapM_cong [fundef_cong]:
  "xs = ys \<Longrightarrow> (\<And>x. x \<in> set ys \<Longrightarrow> f x = g x) \<Longrightarrow> rmapM f xs = rmapM g ys"
  by (induction ys arbitrary: xs) auto

section \<open>Text\<close>

definition is_py_space :: "char \<Rightarrow> bool" where
  "is_py_space c = (let n = of_char c :: nat in
     (9 \<le> n \<and> n \<le> 13) \<or> (28 \<le> n \<and> n \<le> 32) \<or> n = 133 \<or> n = 160)"

definition lstrip :: "string \<Rightarrow> string" where
  "lstrip s = dropWhile is_py_space s"

definition strip :: "string \<Rightarrow> string" where
  "strip s = rev (dropWhile is_py_space (rev (dropWhile is_py_space s)))"

text \<open>\<open>str.lower\<close>: \<open>A\<close> to \<open>Z\<close> and the Latin-1 capitals (192 to 222, but not 215).\<close>

definition lower_char :: "char \<Rightarrow> char" where
  "lower_char c = (let n = of_char c :: nat in
     if (65 \<le> n \<and> n \<le> 90) \<or> (192 \<le> n \<and> n \<le> 222 \<and> n \<noteq> 215) then char_of (n + 32) else c)"

definition lower :: "string \<Rightarrow> string" where
  "lower s = map lower_char s"

text \<open>
  \<open>str.casefold\<close> folds like \<open>lower\<close> and expands the sharp s (223) to \<open>ss\<close>.  The micro sign
  (181) folds to U+03BC, which is outside the range of the model; no other code point below 256
  folds to it, so it stands for itself here.
\<close>

definition casefold :: "string \<Rightarrow> string" where
  "casefold s = concat (map (\<lambda>c. if of_char c = (223::nat) then ''ss'' else [lower_char c]) s)"

definition startswith :: "string \<Rightarrow> string \<Rightarrow> bool" where
  "startswith s p \<longleftrightarrow> take (length p) s = p"

text \<open>\<open>text.split(d)\<close> for a one-character separator, and \<open>d.join(parts)\<close>.\<close>

fun split_on :: "char \<Rightarrow> string \<Rightarrow> string list" where
  "split_on d [] = [[]]"
| "split_on d (c # cs) =
     (if c = d then [] # split_on d cs
      else (case split_on d cs of [] \<Rightarrow> [[c]] | t # ts \<Rightarrow> (c # t) # ts))"

fun join_with :: "string \<Rightarrow> string list \<Rightarrow> string" where
  "join_with d [] = []"
| "join_with d [t] = t"
| "join_with d (t # u # ts) = t @ d @ join_with d (u # ts)"

text \<open>Length of the UTF-8 encoding: one byte below 128, two bytes from 128 to 255.\<close>

definition utf8_len :: "string \<Rightarrow> nat" where
  "utf8_len s = sum_list (map (\<lambda>c. if of_char c < (128::nat) then 1 else 2) s)"

text \<open>Control characters: code points up to 31, and 127.\<close>

definition has_control_char :: "string \<Rightarrow> bool" where
  "has_control_char s \<longleftrightarrow> (\<exists>c\<in>set s. of_char c \<le> (31::nat) \<or> of_char c = (127::nat))"

subsection \<open>Splitting and joining\<close>

lemma split_on_nonempty [simp]: "split_on d s \<noteq> []"
  by (induction s) (auto split: list.splits)

lemma split_on_no_sep: "t \<in> set (split_on d s) \<Longrightarrow> d \<notin> set t"
  by (induction s arbitrary: t) (auto split: if_splits list.splits)

lemma join_split: "join_with [d] (split_on d s) = s"
proof (induction s)
  case (Cons c cs)
  then show ?case
    by (cases "split_on d cs"; cases "tl (split_on d cs)") auto
qed simp

lemma split_on_append_sep: "d \<notin> set t \<Longrightarrow> split_on d (t @ d # s) = t # split_on d s"
  by (induction t) auto

lemma split_on_single: "d \<notin> set t \<Longrightarrow> split_on d t = [t]"
  by (induction t) auto

lemma split_join:
  assumes "ts \<noteq> []" "\<forall>t\<in>set ts. d \<notin> set t"
  shows "split_on d (join_with [d] ts) = ts"
  using assms
proof (induction "[d]" ts rule: join_with.induct)
  case (3 t u ts)
  then show ?case by (simp add: split_on_append_sep)
qed (simp_all add: split_on_single)

subsection \<open>Stripping and folding\<close>

lemma dropWhile_idem: "dropWhile P (dropWhile P xs) = dropWhile P xs"
  by (induction xs) auto

lemma rev_dropWhile_hd:
  assumes "xs \<noteq> []" "\<not> P (hd xs)"
  shows "dropWhile P (rev (dropWhile P (rev xs))) = rev (dropWhile P (rev xs))"
proof -
  obtain x ys where xs: "xs = x # ys" using assms(1) by (cases xs) auto
  with assms(2) have "\<not> P x" by simp
  then have "dropWhile P (rev xs) = dropWhile P (rev ys) @ [x]"
    by (simp add: xs dropWhile_append3)
  then show ?thesis using \<open>\<not> P x\<close> by simp
qed

lemma strip_strip [simp]: "strip (strip s) = strip s"
proof (cases "dropWhile is_py_space s = []")
  case True
  then have "strip s = []" unfolding strip_def by (simp only: dropWhile.simps rev.simps)
  then show ?thesis by (simp add: strip_def [of "[]"])
next
  case False
  let ?t = "dropWhile is_py_space s"
  have "\<not> is_py_space (hd ?t)" using False by (rule hd_dropWhile)
  with False have "dropWhile is_py_space (strip s) = strip s"
    unfolding strip_def by (rule rev_dropWhile_hd)
  then show ?thesis by (simp add: strip_def [of "strip s"]) (simp add: strip_def dropWhile_idem)
qed

lemma strip_Nil [simp]: "strip [] = []"
  by (simp add: strip_def)

lemma lower_length [simp]: "length (lower s) = length s"
  by (simp add: lower_def)

end
