(* ===== verification/Batching.thy ===== *)
theory Batching
  imports Prelude
begin

text \<open>
  Batch partitioning (\<open>core/batching.py\<close>).  \<open>chunked\<close> slices a sequence at multiples of the
  batch size; \<open>iter_chunked\<close> accumulates a running batch and yields it when it is full.
\<close>

definition chunked :: "'a list \<Rightarrow> int \<Rightarrow> 'a list list res" where
  "chunked items batch_size =
     (if batch_size < 1 then raise ConfigurationError ''batch_size must be at least 1''
      else Inr (let n = nat batch_size in
        map (\<lambda>k. take n (drop (k * n) items)) [0 ..< (length items + n - 1) div n]))"

fun iter_chunked_loop :: "'a list \<Rightarrow> nat \<Rightarrow> 'a list \<Rightarrow> 'a list list" where
  "iter_chunked_loop batch n [] = (if batch = [] then [] else [batch])"
| "iter_chunked_loop batch n (item # items) =
     (let batch' = batch @ [item] in
      if n \<le> length batch' then batch' # iter_chunked_loop [] n items
      else iter_chunked_loop batch' n items)"

definition iter_chunked :: "'a list \<Rightarrow> int \<Rightarrow> 'a list list res" where
  "iter_chunked items batch_size =
     (if batch_size < 1 then raise ConfigurationError ''batch_size must be at least 1''
      else Inr (iter_chunked_loop [] (nat batch_size) items))"

fun chunks :: "nat \<Rightarrow> 'a list \<Rightarrow> 'a list list" where
  "chunks n xs = (if xs = [] \<or> n = 0 then [] else take n xs # chunks n (drop n xs))"

declare chunks.simps [simp del]

lemma chunks_Nil [simp]: "chunks n [] = []"
  by (subst chunks.simps) simp

lemma ceil_div_step:
  assumes "0 < n" "xs \<noteq> []"
  shows "(length xs + n - 1) div n = Suc ((length (drop n xs) + n - 1) div n)"
proof (cases "length xs \<le> n")
  case True
  have len: "0 < length xs" using assms(2) by simp
  then have "length xs + n - 1 = (length xs - 1) + n" by arith
  moreover have "length xs - 1 < n" using len True by arith
  ultimately have "(length xs + n - 1) div n = 1"
    using assms(1) by (simp only: div_add_self2) simp
  with True assms(1) show ?thesis by simp
next
  case False
  then have "length xs + n - 1 = (length (drop n xs) + n - 1) + n" by simp
  moreover have "((length (drop n xs) + n - 1) + n) div n = (length (drop n xs) + n - 1) div n + 1"
    using assms(1) by (simp only: div_add_self2)
  ultimately show ?thesis by simp
qed

lemma chunked_slices:
  "0 < n \<Longrightarrow> map (\<lambda>k. take n (drop (k * n) xs)) [0 ..< (length xs + n - 1) div n] = chunks n xs"
proof (induction n xs rule: chunks.induct)
  case (1 n xs)
  show ?case
  proof (cases "xs = []")
    case True
    then show ?thesis using 1 by simp
  next
    case False
    let ?m = "(length (drop n xs) + n - 1) div n"
    have "map (\<lambda>k. take n (drop (k * n) xs)) [0 ..< Suc ?m]
        = take n xs # map (\<lambda>k. take n (drop (k * n) (drop n xs))) [0 ..< ?m]"
      by (simp add: upt_conv_Cons map_Suc_upt [symmetric] del: upt_Suc) (simp add: add.commute)
    then show ?thesis
      using 1 False ceil_div_step [of n xs] by (simp add: chunks.simps [of n xs])
  qed
qed

lemma iter_chunked_loop_chunks:
  "length batch < n \<Longrightarrow> iter_chunked_loop batch n items = chunks n (batch @ items)"
proof (induction items arbitrary: batch)
  case Nil
  then show ?case by (simp add: chunks.simps [of n batch])
next
  case (Cons item items)
  show ?case
  proof (cases "Suc (length batch) = n")
    case True
    then have "chunks n (batch @ item # items) = (batch @ [item]) # chunks n items"
      by (subst chunks.simps) auto
    moreover have "iter_chunked_loop [] n items = chunks n items"
      using Cons.IH [of "[]"] True by simp
    ultimately show ?thesis using True by simp
  next
    case False
    with Cons.prems have "length (batch @ [item]) < n" by simp
    with Cons.IH [of "batch @ [item]"] show ?thesis by simp
  qed
qed

lemma chunks_step: "0 < n \<Longrightarrow> xs \<noteq> [] \<Longrightarrow> chunks n xs = take n xs # chunks n (drop n xs)"
  by (subst chunks.simps) simp

lemma chunks_eq_Nil [simp]: "0 < n \<Longrightarrow> chunks n xs = [] \<longleftrightarrow> xs = []"
  by (subst chunks.simps) simp

lemma concat_chunks: "0 < n \<Longrightarrow> concat (chunks n xs) = xs"
proof (induction n xs rule: chunks.induct)
  case (1 n xs)
  then show ?case by (cases "xs = []") (simp_all add: chunks_step)
qed

lemma chunks_bounds: "0 < n \<Longrightarrow> b \<in> set (chunks n xs) \<Longrightarrow> b \<noteq> [] \<and> length b \<le> n"
proof (induction n xs rule: chunks.induct)
  case (1 n xs)
  then show ?case by (cases "xs = []") (auto simp: chunks_step)
qed

lemma chunks_full: "0 < n \<Longrightarrow> b \<in> set (butlast (chunks n xs)) \<Longrightarrow> length b = n"
proof (induction n xs rule: chunks.induct)
  case (1 n xs)
  show ?case
  proof (cases "xs = [] \<or> drop n xs = []")
    case True
    then have "butlast (chunks n xs) = []"
      by (auto simp: chunks.simps [of n xs])
    with "1.prems" show ?thesis by simp
  next
    case False
    with "1.prems" have "b = take n xs \<or> b \<in> set (butlast (chunks n (drop n xs)))"
      by (auto simp: chunks_step)
    with False 1 show ?thesis by auto
  qed
qed

text \<open>Both batching helpers raise exactly when the batch size is below one, and otherwise
  compute the same partition: its batches concatenate to the input in order, none is empty or
  above the batch size, and every batch but the last is full.\<close>

theorem batching_partition:
  "if k < 1 then chunked xs k = raise ConfigurationError ''batch_size must be at least 1''
       \<and> iter_chunked xs k = chunked xs k
   else \<exists>bs. chunked xs k = Inr bs \<and> iter_chunked xs k = Inr bs \<and> concat bs = xs
       \<and> list_all (\<lambda>b. b \<noteq> [] \<and> int (length b) \<le> k) bs
       \<and> list_all (\<lambda>b. int (length b) = k) (butlast bs)"
proof (cases "k < 1")
  case True
  then show ?thesis by (simp add: chunked_def iter_chunked_def)
next
  case False
  then have n: "0 < nat k" by simp
  have "chunked xs k = Inr (chunks (nat k) xs)"
    using False chunked_slices [OF n] by (simp add: chunked_def Let_def)
  moreover have "iter_chunked xs k = Inr (chunks (nat k) xs)"
    using False n by (simp add: iter_chunked_def iter_chunked_loop_chunks)
  ultimately show ?thesis
    using False concat_chunks [OF n, of xs] chunks_bounds [OF n] chunks_full [OF n]
    by (fastforce simp: list_all_iff)
qed

end
