(* ===== verification/PyValues.thy ===== *)
theory PyValues
  imports Prelude Complex_Main "HOL-Library.Word"
begin

text \<open>
  Dynamically typed values at the boundaries of the program: attributes of client objects,
  header values, JSON documents.  \<open>PDict\<close> is a mutable \<open>dict\<close> and \<open>PProxy\<close> a read-only
  \<open>MappingProxyType\<close>, both in insertion order; \<open>PSet\<close> is a set in its iteration order;
  \<open>PObj\<close> is any other object, known by a number.

  \<open>str(value)\<close> of floats, containers and foreign objects is not part of the program: it is the
  parameter \<open>st\<close> of the definitions that use it, \<open>None\<close> where \<open>__str__\<close> raises.
\<close>

type_synonym byte = "8 word"
type_synonym bytes = "byte list"

datatype pyfloat = FFin rat | FPosInf | FNegInf | FNaN

datatype pyval =
    PNone
  | PBool bool
  | PInt int
  | PFloat pyfloat
  | PStr string
  | PBytes bytes
  | PList "pyval list"
  | PTuple "pyval list"
  | PSet "pyval list"
  | PDict "(pyval \<times> pyval) list"
  | PProxy "(pyval \<times> pyval) list"
  | PObj nat

type_synonym render = "pyval \<Rightarrow> string option"

section \<open>Integers as text\<close>

definition digit_char :: "nat \<Rightarrow> char" where
  "digit_char d = char_of (48 + d)"

fun render_nat :: "nat \<Rightarrow> string" where
  "render_nat n = (if n < 10 then [digit_char n] else render_nat (n div 10) @ [digit_char (n mod 10)])"

declare render_nat.simps [simp del]

definition render_int :: "int \<Rightarrow> string" where
  "render_int i = (if i < 0 then CHR ''-'' # render_nat (nat (- i)) else render_nat (nat i))"

definition digit_value :: "char \<Rightarrow> nat option" where
  "digit_value c = (let n = of_char c :: nat in if 48 \<le> n \<and> n \<le> 57 then Some (n - 48) else None)"

text \<open>
  \<open>int(text)\<close>: surrounding whitespace, an optional sign, then digits with single underscores
  between digits.  More than 4300 digits raise \<open>ValueError\<close>, as in the interpreter's default
  limit; \<open>None\<close> stands for \<open>ValueError\<close>.
\<close>

fun parse_digits :: "nat \<Rightarrow> string \<Rightarrow> nat option" where
  "parse_digits acc [] = Some acc"
| "parse_digits acc (c # cs) =
     (case digit_value c of
        Some d \<Rightarrow> parse_digits (10 * acc + d) cs
      | None \<Rightarrow>
          (if c = CHR ''_'' \<and> cs \<noteq> [] \<and> digit_value (hd cs) \<noteq> None then parse_digits acc cs else None))"

definition parse_unsigned :: "string \<Rightarrow> nat option" where
  "parse_unsigned s =
     (case s of
        [] \<Rightarrow> None
      | c # cs \<Rightarrow>
          (case digit_value c of
             None \<Rightarrow> None
           | Some d \<Rightarrow>
               (if 4300 < length (filter (\<lambda>c. digit_value c \<noteq> None) s) then None
                else parse_digits d cs)))"

definition parse_int :: "string \<Rightarrow> int option" where
  "parse_int text = (let s = strip text in
     case s of
       [] \<Rightarrow> None
     | c # cs \<Rightarrow>
         (if c = CHR ''-'' then map_option (\<lambda>n. - int n) (parse_unsigned cs)
          else if c = CHR ''+'' then map_option int (parse_unsigned cs)
          else map_option int (parse_unsigned s)))"

section \<open>Rendering and inspecting values\<close>

text \<open>\<open>str(value)\<close>: \<open>None\<close> where it raises.\<close>

fun py_str :: "render \<Rightarrow> pyval \<Rightarrow> string option" where
  "py_str st PNone = Some ''None''"
| "py_str st (PBool b) = Some (if b then ''True'' else ''False'')"
| "py_str st (PInt i) = Some (render_int i)"
| "py_str st (PStr s) = Some s"
| "py_str st v = st v"

fun is_mapping :: "pyval \<Rightarrow> bool" where
  "is_mapping (PDict kvs) = True"
| "is_mapping (PProxy kvs) = True"
| "is_mapping v = False"

fun is_str :: "pyval \<Rightarrow> bool" where
  "is_str (PStr s) = True"
| "is_str v = False"

lemma is_str_iff: "is_str v \<longleftrightarrow> (\<exists>s. v = PStr s)"
  by (cases v) simp_all

fun mapping_items :: "pyval \<Rightarrow> (pyval \<times> pyval) list" where
  "mapping_items (PDict kvs) = kvs"
| "mapping_items (PProxy kvs) = kvs"
| "mapping_items v = []"

text \<open>\<open>mapping.get(name)\<close> for a string key; a missing key gives \<open>None\<close>.\<close>

definition py_get :: "pyval \<Rightarrow> string \<Rightarrow> pyval" where
  "py_get m k = (case map_of (mapping_items m) (PStr k) of None \<Rightarrow> PNone | Some v \<Rightarrow> v)"

definition opt_str :: "string option \<Rightarrow> pyval" where
  "opt_str x = (case x of None \<Rightarrow> PNone | Some s \<Rightarrow> PStr s)"

definition opt_int :: "int option \<Rightarrow> pyval" where
  "opt_int x = (case x of None \<Rightarrow> PNone | Some i \<Rightarrow> PInt i)"

definition opt_bool :: "bool option \<Rightarrow> pyval" where
  "opt_bool x = (case x of None \<Rightarrow> PNone | Some b \<Rightarrow> PBool b)"

lemma opt_inject [simp]:
  "opt_str x = opt_str y \<longleftrightarrow> x = y" "opt_int i = opt_int j \<longleftrightarrow> i = j" "opt_bool b = opt_bool c \<longleftrightarrow> b = c"
  by (auto simp: opt_str_def opt_int_def opt_bool_def split: option.splits)

text \<open>A dictionary display or comprehension: later pairs overwrite, the first position stays.\<close>

definition dict_of_pairs :: "('k \<times> 'v) list \<Rightarrow> ('k \<times> 'v) list" where
  "dict_of_pairs ps = foldl (\<lambda>d (k, v). AList.update k v d) [] ps"

lemma update_new: "k \<notin> fst ` set al \<Longrightarrow> AList.update k v al = al @ [(k, v)]"
  by (induction al) auto

lemma foldl_update_distinct:
  "distinct (map fst (al @ ps)) \<Longrightarrow> foldl (\<lambda>d (k, v). AList.update k v d) al ps = al @ ps"
  by (induction ps arbitrary: al) (auto simp: update_new)

lemma dict_of_pairs_distinct: "distinct (map fst ps) \<Longrightarrow> dict_of_pairs ps = ps"
  by (simp add: dict_of_pairs_def foldl_update_distinct)

lemma distinct_dict_of_pairs: "distinct (map fst (dict_of_pairs ps))"
proof -
  have "distinct (map fst al) \<Longrightarrow> distinct (map fst (foldl (\<lambda>d (k, v). AList.update k v d) al ps))"
    for al :: "('a \<times> 'b) list"
    by (induction ps arbitrary: al) (auto intro: distinct_update)
  then show ?thesis by (simp add: dict_of_pairs_def)
qed

lemma set_update_subset: "set (AList.update k v al) \<subseteq> insert (k, v) (set al)"
  by (induction al) auto

lemma set_dict_of_pairs: "set (dict_of_pairs ps) \<subseteq> set ps"
proof -
  have "set (foldl (\<lambda>d (k, v). AList.update k v d) al ps) \<subseteq> set al \<union> set ps" for al :: "('a \<times> 'b) list"
  proof (induction ps arbitrary: al)
    case (Cons p ps)
    obtain k v where p: "p = (k, v)" by (cases p)
    show ?case
      using Cons.IH [of "AList.update k v al"] set_update_subset [of k v al] by (auto simp: p)
  qed simp
  from this [of "[]"] show ?thesis by (simp add: dict_of_pairs_def)
qed

lemma length_update_le: "length (AList.update k v al) \<le> Suc (length al)"
  by (induction al) auto

lemma length_dict_of_pairs: "length (dict_of_pairs ps) \<le> length ps"
proof -
  have "length (foldl (\<lambda>d (k, v). AList.update k v d) al ps) \<le> length al + length ps"
    for al :: "('a \<times> 'b) list"
  proof (induction ps arbitrary: al)
    case (Cons p ps)
    obtain k v where p: "p = (k, v)" by (cases p)
    show ?case
      using Cons.IH [of "AList.update k v al"] length_update_le [of k v al] by (simp add: p)
  qed simp
  from this [of "[]"] show ?thesis by (simp add: dict_of_pairs_def)
qed

section \<open>Facts about integer text\<close>

lemma digit_value_digit_char [simp]: "d < 10 \<Longrightarrow> digit_value (digit_char d) = Some d"
  by (simp add: digit_value_def digit_char_def)

lemma digit_value_bound: "digit_value c = Some d \<Longrightarrow> d < 10 \<and> c = digit_char d"
  by (auto simp: digit_value_def digit_char_def Let_def split: if_splits)

lemma render_nat_nonempty [simp]: "render_nat n \<noteq> []"
  by (subst render_nat.simps) simp

lemma render_nat_digits: "c \<in> set (render_nat n) \<Longrightarrow> \<exists>d<10. c = digit_char d"
proof (induction n rule: render_nat.induct)
  case (1 n)
  have m: "n mod 10 < 10" by simp
  show ?case
  proof (cases "n < 10")
    case True
    with "1.prems" have "c = digit_char n" by (simp add: render_nat.simps [of n])
    with True show ?thesis by blast
  next
    case False
    with "1.prems" have "c \<in> set (render_nat (n div 10)) \<or> c = digit_char (n mod 10)"
      by (auto simp: render_nat.simps [of n])
    with "1.IH" [OF False] m show ?thesis by blast
  qed
qed

lemma parse_digits_append:
  "parse_digits acc (ds @ [digit_char d]) =
     (case parse_digits acc ds of None \<Rightarrow> None | Some n \<Rightarrow> Some (10 * n + d))"
  if "d < 10" "\<forall>c\<in>set ds. digit_value c \<noteq> None"
  using that by (induction ds arbitrary: acc) (auto split: option.splits)

lemma render_nat_split:
  "\<exists>d ds. d < 10 \<and> render_nat n = digit_char d # ds \<and> parse_digits d ds = Some n
     \<and> (\<forall>c\<in>set ds. digit_value c \<noteq> None)"
proof (induction n rule: render_nat.induct)
  case (1 n)
  show ?case
  proof (cases "n < 10")
    case True
    then show ?thesis by (subst render_nat.simps) auto
  next
    case False
    then obtain d ds where IH: "d < 10" "render_nat (n div 10) = digit_char d # ds"
      "parse_digits d ds = Some (n div 10)" "\<forall>c\<in>set ds. digit_value c \<noteq> None"
      using 1 by blast
    have "render_nat n = digit_char d # (ds @ [digit_char (n mod 10)])"
      using False IH(2) by (subst render_nat.simps) simp
    moreover have "parse_digits d (ds @ [digit_char (n mod 10)]) = Some n"
      using IH(3,4) by (simp add: parse_digits_append)
    ultimately show ?thesis using IH(1,4) by auto
  qed
qed

lemma render_nat_inject [simp]: "render_nat m = render_nat n \<longleftrightarrow> m = n"
proof
  assume eq: "render_nat m = render_nat n"
  obtain d ds where "d < 10" "render_nat m = digit_char d # ds" "parse_digits d ds = Some m"
    using render_nat_split [of m] by blast
  moreover obtain e es where "e < 10" "render_nat n = digit_char e # es" "parse_digits e es = Some n"
    using render_nat_split [of n] by blast
  moreover have "d = e"
    using eq calculation digit_value_digit_char by (metis list.inject option.inject)
  ultimately show "m = n" using eq by simp
qed simp

lemma digit_char_neq: "d < 10 \<Longrightarrow> digit_char d \<noteq> CHR '':'' \<and> digit_char d \<noteq> CHR ''-''"
proof -
  assume "d < 10"
  then have "of_char (digit_char d) = 48 + d" by (simp add: digit_char_def)
  moreover have "of_char (CHR '':'') = (58::nat)" "of_char (CHR ''-'') = (45::nat)" by simp_all
  ultimately show ?thesis using \<open>d < 10\<close> by auto
qed

lemma render_nat_no: "CHR '':'' \<notin> set (render_nat n)" "CHR ''-'' \<notin> set (render_nat n)"
  using render_nat_digits digit_char_neq by metis+

lemma render_int_inject [simp]: "render_int i = render_int j \<longleftrightarrow> i = j"
proof
  assume eq: "render_int i = render_int j"
  have "hd (render_nat n) \<noteq> CHR ''-''" for n
    using render_nat_no(2) [of n] by (metis hd_in_set render_nat_nonempty)
  with eq show "i = j"
    by (auto simp: render_int_def split: if_splits) (metis list.sel(1))+
qed simp

lemma render_int_no_colon: "CHR '':'' \<notin> set (render_int i)"
  by (simp add: render_int_def render_nat_no)

end
