(* ===== verification/JsonValues.thy ===== *)
theory JsonValues
  imports PyValues
begin

text \<open>
  JSON documents as dynamic values: freezing and thawing of metadata containers
  (\<open>core/mission_metadata.py\<close>, \<open>core/security_labels.py\<close> and \<open>core/custody.py\<close> hold three
  textually identical copies), the decoding hooks that refuse duplicate keys and the
  non-standard constants, and the canonical text whose UTF-8 length the size limits use.

  Tokenising JSON text is the library's part: the parameter \<open>scan\<close> gives the document before
  any hook ran (objects as pair lists in text order, \<open>NaN\<close> and the infinities as floats), or
  \<open>None\<close> on a syntax error.  The text of a finite float is the parameter \<open>float_text\<close>.
\<close>

type_synonym json_scan = "string \<Rightarrow> pyval option"
type_synonym float_text = "rat \<Rightarrow> string"

text \<open>\<open>str(x)\<close> where the exception of a failing \<open>__str__\<close> propagates.\<close>

definition str_or_raise :: "render \<Rightarrow> pyval \<Rightarrow> string res" where
  "str_or_raise st v =
     (case py_str st v of None \<Rightarrow> raise (Subclass ''StrError'' PyException) ''__str__ failed''
                        | Some s \<Rightarrow> Inr s)"

lemma str_or_raise_PStr [simp]: "str_or_raise st (PStr s) = Inr s"
  by (simp add: str_or_raise_def)

section \<open>Freezing and thawing\<close>

fun freeze_json_value :: "render \<Rightarrow> pyval \<Rightarrow> pyval res" where
  "freeze_json_value st (PDict kvs) =
     rmap (\<lambda>ps. PProxy (dict_of_pairs ps))
       (rmapM (\<lambda>(k, v). rbind (str_or_raise st k) (\<lambda>k'. rmap (Pair (PStr k')) (freeze_json_value st v))) kvs)"
| "freeze_json_value st (PProxy kvs) =
     rmap (\<lambda>ps. PProxy (dict_of_pairs ps))
       (rmapM (\<lambda>(k, v). rbind (str_or_raise st k) (\<lambda>k'. rmap (Pair (PStr k')) (freeze_json_value st v))) kvs)"
| "freeze_json_value st (PList xs) = rmap PTuple (rmapM (freeze_json_value st) xs)"
| "freeze_json_value st (PTuple xs) = rmap PTuple (rmapM (freeze_json_value st) xs)"
| "freeze_json_value st v = Inr v"

fun thaw_json_value :: "render \<Rightarrow> pyval \<Rightarrow> pyval res" where
  "thaw_json_value st (PDict kvs) =
     rmap (\<lambda>ps. PDict (dict_of_pairs ps))
       (rmapM (\<lambda>(k, v). rbind (str_or_raise st k) (\<lambda>k'. rmap (Pair (PStr k')) (thaw_json_value st v))) kvs)"
| "thaw_json_value st (PProxy kvs) =
     rmap (\<lambda>ps. PDict (dict_of_pairs ps))
       (rmapM (\<lambda>(k, v). rbind (str_or_raise st k) (\<lambda>k'. rmap (Pair (PStr k')) (thaw_json_value st v))) kvs)"
| "thaw_json_value st (PTuple xs) = rmap PList (rmapM (thaw_json_value st) xs)"
| "thaw_json_value st (PList xs) = rmap PList (rmapM (thaw_json_value st) xs)"
| "thaw_json_value st v = Inr v"

definition freeze_metadata :: "render \<Rightarrow> pyval \<Rightarrow> pyval res" where
  "freeze_metadata st value = (if value = PNone then Inr PNone else freeze_json_value st value)"

definition thaw_metadata :: "render \<Rightarrow> pyval \<Rightarrow> pyval res" where
  "thaw_metadata st value = (if value = PNone then Inr PNone else thaw_json_value st value)"

text \<open>
  JSON values in the form the code keeps them: string keys, no key twice.  \<open>thawed\<close> values use
  \<open>dict\<close> and \<open>list\<close>; \<open>frozen\<close> ones the read-only mapping and \<open>tuple\<close>.
\<close>

fun thawed :: "pyval \<Rightarrow> bool" where
  "thawed (PDict kvs) \<longleftrightarrow> distinct (map fst kvs) \<and> list_all (\<lambda>(k, v). (\<exists>s. k = PStr s) \<and> thawed v) kvs"
| "thawed (PList xs) \<longleftrightarrow> list_all thawed xs"
| "thawed (PProxy kvs) \<longleftrightarrow> False"
| "thawed (PTuple xs) \<longleftrightarrow> False"
| "thawed (PSet xs) \<longleftrightarrow> False"
| "thawed v \<longleftrightarrow> True"

fun frozen_of :: "pyval \<Rightarrow> pyval" where
  "frozen_of (PDict kvs) = PProxy (map (\<lambda>(k, v). (k, frozen_of v)) kvs)"
| "frozen_of (PList xs) = PTuple (map frozen_of xs)"
| "frozen_of v = v"

lemma rmapM_pairs:
  assumes "list_all (\<lambda>(k, v). (\<exists>s. k = PStr s) \<and> f v = Inr (g v)) kvs"
  shows "rmapM (\<lambda>(k, v). rbind (str_or_raise st k) (\<lambda>k'. rmap (Pair (PStr k')) (f v))) kvs
    = Inr (map (\<lambda>(k, v). (k, g v)) kvs)"
  using assms by (induction kvs) auto

lemma rmapM_total: "list_all (\<lambda>x. f x = Inr (g x)) xs \<Longrightarrow> rmapM f xs = Inr (map g xs)"
  by (induction xs) auto

lemma map_fst_pairs [simp]: "map fst (map (\<lambda>(k, v). (k, g v)) kvs) = map fst kvs"
  by (simp add: case_prod_beta)

lemma dict_of_pairs_map:
  "distinct (map fst kvs) \<Longrightarrow> dict_of_pairs (map (\<lambda>(k, v). (k, g v)) kvs) = map (\<lambda>(k, v). (k, g v)) kvs"
  by (rule dict_of_pairs_distinct) (simp only: map_fst_pairs)

lemma freeze_thawed: "thawed v \<Longrightarrow> freeze_json_value st v = Inr (frozen_of v)"
proof (induction v)
  case (PDict kvs)
  then have "list_all (\<lambda>(k, v). (\<exists>s. k = PStr s) \<and> freeze_json_value st v = Inr (frozen_of v)) kvs"
    by (fastforce simp: list_all_iff)
  with PDict.prems show ?case by (simp add: rmapM_pairs dict_of_pairs_map)
next
  case (PList xs)
  then have "list_all (\<lambda>x. freeze_json_value st x = Inr (frozen_of x)) xs"
    by (auto simp: list_all_iff)
  then show ?case by (simp add: rmapM_total)
qed simp_all

lemma thaw_frozen_of: "thawed v \<Longrightarrow> thaw_json_value st (frozen_of v) = Inr v"
proof (induction v)
  case (PDict kvs)
  let ?fs = "map (\<lambda>(k, v). (k, frozen_of v)) kvs"
  have "rmapM (\<lambda>(k, v). rbind (str_or_raise st k) (\<lambda>k'. rmap (Pair (PStr k')) (thaw_json_value st v))) ?fs
      = Inr kvs"
    using PDict by (induction kvs) fastforce+
  with PDict.prems show ?case by (simp add: dict_of_pairs_distinct)
next
  case (PList xs)
  then have "rmapM (thaw_json_value st) (map frozen_of xs) = Inr xs"
    by (induction xs) auto
  then show ?case by simp
qed simp_all

lemma freeze_frozen_of: "thawed v \<Longrightarrow> freeze_json_value st (frozen_of v) = Inr (frozen_of v)"
proof (induction v)
  case (PDict kvs)
  let ?fs = "map (\<lambda>(k, v). (k, frozen_of v)) kvs"
  have "rmapM (\<lambda>(k, v). rbind (str_or_raise st k) (\<lambda>k'. rmap (Pair (PStr k')) (freeze_json_value st v))) ?fs
      = Inr ?fs"
    using PDict by (induction kvs) fastforce+
  with PDict.prems show ?case by (simp add: dict_of_pairs_map)
next
  case (PList xs)
  then have "rmapM (freeze_json_value st) (map frozen_of xs) = Inr (map frozen_of xs)"
    by (induction xs) auto
  then show ?case by simp
qed simp_all

text \<open>Whatever \<open>freeze\<close> returns is a fixed point of it.\<close>

fun frozen :: "pyval \<Rightarrow> bool" where
  "frozen (PProxy kvs) \<longleftrightarrow> distinct (map fst kvs) \<and> list_all (\<lambda>(k, v). (\<exists>s. k = PStr s) \<and> frozen v) kvs"
| "frozen (PTuple xs) \<longleftrightarrow> list_all frozen xs"
| "frozen (PDict kvs) \<longleftrightarrow> False"
| "frozen (PList xs) \<longleftrightarrow> False"
| "frozen v \<longleftrightarrow> True"

lemma frozen_pairs:
  assumes "rmapM (\<lambda>(k, v). rbind (str_or_raise st k) (\<lambda>k'. rmap (Pair (PStr k')) (f v))) kvs = Inr ps"
    and "\<And>k v w. (k, v) \<in> set kvs \<Longrightarrow> f v = Inr w \<Longrightarrow> frozen w"
  shows "frozen (PProxy (dict_of_pairs ps))"
proof -
  have "list_all (\<lambda>(k, v). (\<exists>s. k = PStr s) \<and> frozen v) ps"
  proof (rule rmapM_all [OF assms(1)])
    fix x y
    assume xy: "x \<in> set kvs"
      "(case x of (k, v) \<Rightarrow> rbind (str_or_raise st k) (\<lambda>k'. rmap (Pair (PStr k')) (f v))) = Inr y"
    obtain k v where x: "x = (k, v)" by (cases x)
    with xy assms(2) [of k v] show "case y of (k, v) \<Rightarrow> (\<exists>s. k = PStr s) \<and> frozen v"
      by (auto simp: rbind_Inr_iff rmap_Inr_iff)
  qed
  then show ?thesis
    using set_dict_of_pairs [of ps] distinct_dict_of_pairs [of ps] by (auto simp: list_all_iff)
qed

lemma freeze_frozen: "freeze_json_value st v = Inr w \<Longrightarrow> frozen w"
proof (induction v arbitrary: w)
  case (PDict kvs)
  then obtain ps where "w = PProxy (dict_of_pairs ps)"
    "rmapM (\<lambda>(k, v). rbind (str_or_raise st k) (\<lambda>k'. rmap (Pair (PStr k')) (freeze_json_value st v))) kvs
      = Inr ps"
    by (auto simp: rmap_Inr_iff)
  with frozen_pairs [OF this(2)] PDict.IH show ?case by fastforce
next
  case (PProxy kvs)
  then obtain ps where "w = PProxy (dict_of_pairs ps)"
    "rmapM (\<lambda>(k, v). rbind (str_or_raise st k) (\<lambda>k'. rmap (Pair (PStr k')) (freeze_json_value st v))) kvs
      = Inr ps"
    by (auto simp: rmap_Inr_iff)
  with frozen_pairs [OF this(2)] PProxy.IH show ?case by fastforce
next
  case (PList xs)
  then obtain ys where ys: "w = PTuple ys" "rmapM (freeze_json_value st) xs = Inr ys"
    by (auto simp: rmap_Inr_iff)
  have "list_all frozen ys" using ys(2) by (rule rmapM_all) (rule PList.IH)
  with ys show ?case by simp
next
  case (PTuple xs)
  then obtain ys where ys: "w = PTuple ys" "rmapM (freeze_json_value st) xs = Inr ys"
    by (auto simp: rmap_Inr_iff)
  have "list_all frozen ys" using ys(2) by (rule rmapM_all) (rule PTuple.IH)
  with ys show ?case by simp
qed auto

lemma freeze_of_frozen: "frozen w \<Longrightarrow> freeze_json_value st w = Inr w"
proof (induction w)
  case (PProxy kvs)
  have "rmapM (\<lambda>(k, v). rbind (str_or_raise st k) (\<lambda>k'. rmap (Pair (PStr k')) (freeze_json_value st v))) kvs
      = Inr kvs"
    using PProxy by (induction kvs) fastforce+
  with PProxy.prems show ?case by (simp add: dict_of_pairs_distinct)
next
  case (PTuple xs)
  then have "rmapM (freeze_json_value st) xs = Inr xs" by (induction xs) auto
  then show ?case by simp
qed simp_all

lemma freeze_metadata_idem: "freeze_metadata st v = Inr w \<Longrightarrow> freeze_metadata st w = Inr w"
  using freeze_frozen freeze_of_frozen by (auto simp: freeze_metadata_def split: if_splits)

section \<open>Decoding hooks\<close>

text \<open>
  \<open>object_pairs_hook\<close>: refuse a key that was already read, otherwise build the dictionary.
  The hooks run on every object of the document, inner objects first; \<open>parse_constant\<close> refuses
  \<open>NaN\<close> and the infinities.
\<close>

fun duplicate_key_guard :: "(pyval \<times> pyval) list \<Rightarrow> (pyval \<times> pyval) list \<Rightarrow> (pyval \<times> pyval) list res" where
  "duplicate_key_guard result [] = Inr result"
| "duplicate_key_guard result ((key, value) # pairs) =
     (if key \<in> fst ` set result then raise ValueError ''duplicate JSON key''
      else duplicate_key_guard (AList.update key value result) pairs)"

fun apply_hooks :: "pyval \<Rightarrow> pyval res" where
  "apply_hooks (PDict kvs) =
     rbind (rmapM (\<lambda>(k, v). rmap (Pair k) (apply_hooks v)) kvs) (\<lambda>ps. rmap PDict (duplicate_key_guard [] ps))"
| "apply_hooks (PList xs) = rmap PList (rmapM apply_hooks xs)"
| "apply_hooks (PFloat FPosInf) = raise ValueError ''non-standard JSON constant is not allowed''"
| "apply_hooks (PFloat FNegInf) = raise ValueError ''non-standard JSON constant is not allowed''"
| "apply_hooks (PFloat FNaN) = raise ValueError ''non-standard JSON constant is not allowed''"
| "apply_hooks v = Inr v"

text \<open>\<open>json.loads\<close> with both hooks; \<open>JSONDecodeError\<close> is a \<open>ValueError\<close>.\<close>

definition load_standard_json :: "json_scan \<Rightarrow> string \<Rightarrow> pyval res" where
  "load_standard_json scan text =
     (case scan text of
        None \<Rightarrow> raise (Subclass ''JSONDecodeError'' ValueError) ''invalid JSON''
      | Some v \<Rightarrow> apply_hooks v)"

lemma duplicate_key_guard_ok:
  "duplicate_key_guard acc ps = Inr qs \<Longrightarrow> distinct (map fst acc) \<Longrightarrow>
   qs = acc @ ps \<and> distinct (map fst (acc @ ps))"
proof (induction ps arbitrary: acc)
  case (Cons p ps)
  obtain k v where p: "p = (k, v)" by (cases p)
  with Cons.prems have new: "k \<notin> fst ` set acc" and
    rest: "duplicate_key_guard (acc @ [(k, v)]) ps = Inr qs"
    by (auto simp: raise_def update_new split: if_splits)
  from Cons.IH [OF rest] Cons.prems(2) new show ?case by (simp add: p)
qed simp

section \<open>Canonical text\<close>

text \<open>
  \<open>json.dumps(value, ensure_ascii=False, sort_keys=True, separators=(",", ":"), allow_nan=False)\<close>
  on values with string keys.  Other keys, and values JSON has no form for, raise \<open>TypeError\<close>.
\<close>

definition hex_digit :: "nat \<Rightarrow> char" where
  "hex_digit n = (if n < 10 then char_of (48 + n) else char_of (87 + n))"

definition escape_char :: "char \<Rightarrow> string" where
  "escape_char c = (let n = of_char c :: nat in
     if n = 34 then [char_of (92::nat), char_of (34::nat)]
     else if n = 92 then [char_of (92::nat), char_of (92::nat)]
     else if n = 10 then char_of (92::nat) # ''n''
     else if n = 13 then char_of (92::nat) # ''r''
     else if n = 9 then char_of (92::nat) # ''t''
     else if n = 12 then char_of (92::nat) # ''f''
     else if n = 8 then char_of (92::nat) # ''b''
     else if n < 32 then char_of (92::nat) # ''u00'' @ [hex_digit (n div 16), hex_digit (n mod 16)]
     else [c])"

definition json_string :: "string \<Rightarrow> string" where
  "json_string s = [char_of (34::nat)] @ concat (map escape_char s) @ [char_of (34::nat)]"

definition text_key :: "pyval \<Rightarrow> string res" where
  "text_key k = (case k of PStr s \<Rightarrow> Inr s | _ \<Rightarrow> raise TypeError ''keys must be strings'')"

text \<open>
  With \<open>ensure_ascii=True\<close>, the default of \<open>json.dumps\<close>, everything outside the printable ASCII
  range is escaped as well.
\<close>

definition escape_char_ascii :: "char \<Rightarrow> string" where
  "escape_char_ascii c = (let n = of_char c :: nat in
     if n < 127 then escape_char c
     else char_of (92::nat) # ''u00'' @ [hex_digit (n div 16), hex_digit (n mod 16)])"

definition json_string_ascii :: "string \<Rightarrow> string" where
  "json_string_ascii s = [char_of (34::nat)] @ concat (map escape_char_ascii s) @ [char_of (34::nat)]"

fun json_render :: "(string \<Rightarrow> string) \<Rightarrow> float_text \<Rightarrow> pyval \<Rightarrow> string res" where
  "json_render q ft PNone = Inr ''null''"
| "json_render q ft (PBool b) = Inr (if b then ''true'' else ''false'')"
| "json_render q ft (PInt i) = Inr (render_int i)"
| "json_render q ft (PStr s) = Inr (q s)"
| "json_render q ft (PFloat f) =
     (case f of FFin r \<Rightarrow> Inr (ft r) | _ \<Rightarrow> raise ValueError ''Out of range float values are not JSON compliant'')"
| "json_render q ft (PList xs) =
     rmap (\<lambda>ts. ''['' @ join_with '','' ts @ '']'') (rmapM (json_render q ft) xs)"
| "json_render q ft (PTuple xs) =
     rmap (\<lambda>ts. ''['' @ join_with '','' ts @ '']'') (rmapM (json_render q ft) xs)"
| "json_render q ft (PDict kvs) =
     rmap (\<lambda>ps. ''{'' @ join_with '','' (map (\<lambda>(k, t). q k @ '':'' @ t) (sort_key fst ps)) @ ''}'')
       (rmapM (\<lambda>(k, v). rbind (text_key k) (\<lambda>k'. rmap (Pair k') (json_render q ft v))) kvs)"
| "json_render q ft _ = raise TypeError ''object is not JSON serializable''"

definition json_dumps :: "float_text \<Rightarrow> pyval \<Rightarrow> string res" where
  "json_dumps ft v = json_render json_string ft v"

definition json_dumps_ascii :: "float_text \<Rightarrow> pyval \<Rightarrow> string res" where
  "json_dumps_ascii ft v = json_render json_string_ascii ft v"

text \<open>\<open>str.encode("utf-8")\<close>: code points from 128 to 255 take two bytes.\<close>

definition utf8_encode_char :: "char \<Rightarrow> bytes" where
  "utf8_encode_char c = (let n = of_char c :: nat in
     if n < 128 then [of_nat n] else [of_nat (192 + n div 64), of_nat (128 + n mod 64)])"

definition utf8_encode :: "string \<Rightarrow> bytes" where
  "utf8_encode s = concat (map utf8_encode_char s)"

lemma length_utf8_encode: "length (utf8_encode s) = utf8_len s"
  by (induction s) (simp_all add: utf8_encode_def utf8_len_def utf8_encode_char_def Let_def)

text \<open>Every dictionary of a value, with its pairs sorted by key: what a reader of the text gets back.\<close>

fun sort_keys :: "pyval \<Rightarrow> pyval" where
  "sort_keys (PDict kvs) =
     PDict (sort_key (\<lambda>(k, v). case k of PStr s \<Rightarrow> s | _ \<Rightarrow> []) (map (\<lambda>(k, v). (k, sort_keys v)) kvs))"
| "sort_keys (PList xs) = PList (map sort_keys xs)"
| "sort_keys (PTuple xs) = PList (map sort_keys xs)"
| "sort_keys v = v"

end
