(* ===== verification/Payload.thy ===== *)
theory Payload
  imports JsonValues
begin

text \<open>
  Payload normalisation for JSON storage (\<open>core/payload.py\<close>).  Base64 is written out; the UTF-8
  decoder and the SHA-256 digest are parameters (\<open>decode\<close> gives \<open>None\<close> where
  \<open>bytes.decode("utf-8")\<close> raises, \<open>sha\<close> gives the hexadecimal digest).
\<close>

type_synonym decoder = "bytes \<Rightarrow> string option"
type_synonym digest = "bytes \<Rightarrow> string"

section \<open>Base64\<close>

definition b64_char :: "nat \<Rightarrow> char" where
  "b64_char n = (if n < 26 then char_of (65 + n) else if n < 52 then char_of (71 + n)
     else if n < 62 then char_of (n - 4) else if n = 62 then CHR ''+'' else CHR ''/'')"

definition b64_value :: "char \<Rightarrow> nat option" where
  "b64_value c = (let n = of_char c :: nat in
     if 65 \<le> n \<and> n \<le> 90 then Some (n - 65)
     else if 97 \<le> n \<and> n \<le> 122 then Some (n - 71)
     else if 48 \<le> n \<and> n \<le> 57 then Some (n + 4)
     else if c = CHR ''+'' then Some 62
     else if c = CHR ''/'' then Some 63 else None)"

text \<open>\<open>base64.b64encode\<close> and \<open>base64.b64decode(..., validate=True)\<close>; \<open>None\<close> stands for \<open>binascii.Error\<close>.\<close>

fun b64encode :: "bytes \<Rightarrow> string" where
  "b64encode [] = []"
| "b64encode [a] =
     [b64_char (unat a div 4), b64_char (unat a mod 4 * 16), CHR ''='', CHR ''='']"
| "b64encode [a, b] =
     [b64_char (unat a div 4), b64_char (unat a mod 4 * 16 + unat b div 16),
      b64_char (unat b mod 16 * 4), CHR ''='']"
| "b64encode (a # b # c # rest) =
     b64_char (unat a div 4) # b64_char (unat a mod 4 * 16 + unat b div 16)
       # b64_char (unat b mod 16 * 4 + unat c div 64) # b64_char (unat c mod 64) # b64encode rest"

definition b64_byte :: "nat \<Rightarrow> byte" where
  "b64_byte n = of_nat n"

fun b64decode :: "string \<Rightarrow> bytes option" where
  "b64decode [] = Some []"
| "b64decode (p # q # r # s # rest) =
     (case (b64_value p, b64_value q) of
        (Some x, Some y) \<Rightarrow>
          (if r = CHR ''='' \<and> s = CHR ''='' \<and> rest = [] then Some [b64_byte (x * 4 + y div 16)]
           else (case b64_value r of
               None \<Rightarrow> None
             | Some z \<Rightarrow>
                 (if s = CHR ''='' \<and> rest = []
                  then Some [b64_byte (x * 4 + y div 16), b64_byte (y mod 16 * 16 + z div 4)]
                  else (case b64_value s of
                      None \<Rightarrow> None
                    | Some w \<Rightarrow> map_option (\<lambda>bs. b64_byte (x * 4 + y div 16)
                        # b64_byte (y mod 16 * 16 + z div 4) # b64_byte (z mod 4 * 64 + w) # bs)
                        (b64decode rest)))))
      | _ \<Rightarrow> None)"
| "b64decode _ = None"

lemma b64_value_char [simp]: "n < 64 \<Longrightarrow> b64_value (b64_char n) = Some n"
  by (auto simp: b64_value_def b64_char_def Let_def)

lemma b64_value_pad [simp]: "b64_value (CHR ''='') = None"
  by (simp add: b64_value_def)

lemma b64_char_not_pad: "n < 64 \<Longrightarrow> b64_char n \<noteq> CHR ''=''"
  using b64_value_char [of n] b64_value_pad by force

lemma byte_less [simp]: "unat (a :: byte) < 256"
  using unsigned_less [of a] by simp

lemma b64_byte_unat [simp]: "b64_byte (unat a) = a"
  by (simp add: b64_byte_def)

lemma div_less_nat: "x < 256 \<Longrightarrow> x div 4 < 64" "x < 256 \<Longrightarrow> x div 16 < 16" "x < 256 \<Longrightarrow> x div 64 < (4::nat)"
  by auto

lemma b64_sextets:
  "unat (a :: byte) div 4 < 64" "unat (a :: byte) mod 4 * 16 < 64"
  "unat (a :: byte) mod 4 * 16 + unat (b :: byte) div 16 < 64" "unat (b :: byte) mod 16 * 4 < 64"
  "unat (b :: byte) mod 16 * 4 + unat (c :: byte) div 64 < 64" "unat (c :: byte) mod 64 < 64"
proof -
  have "unat a mod 4 < 4" "unat b mod 16 < 16" by simp_all
  with div_less_nat(2) [OF byte_less [of b]] div_less_nat(3) [OF byte_less [of c]]
  show "unat a mod 4 * 16 + unat b div 16 < 64" "unat b mod 16 * 4 + unat c div 64 < 64"
    "unat a mod 4 * 16 < 64" "unat b mod 16 * 4 < 64"
    by linarith+
qed (simp_all add: div_less_nat)

lemma byte_digits [simp]:
  "unat (b :: byte) div 16 div 16 = 0" "unat (b :: byte) div 16 mod 16 = unat b div 16"
  "unat (b :: byte) div 64 div 4 = 0" "unat (b :: byte) div 64 mod 4 = unat b div 64"
  using div_less_nat(2,3) [OF byte_less [of b]] by (simp_all only: div_less mod_less)

lemma b64_roundtrip: "b64decode (b64encode bs) = Some bs"
proof (induction bs rule: b64encode.induct)
  case (2 a)
  then show ?case by (simp add: b64_sextets)
next
  case (3 a b)
  then show ?case by (simp add: b64_sextets b64_char_not_pad)
next
  case (4 a b c rest)
  then show ?case by (simp add: b64_sextets b64_char_not_pad)
qed simp

section \<open>Normalised payloads\<close>

datatype storage_mode = Json_or_envelope | Json_only | Text_envelope | Bytes_envelope
datatype original_format = Format_json | Format_text | Format_bytes

record normalized_payload =
  np_value :: pyval
  np_original_format :: original_format
  np_wrapped :: bool
  np_sha256 :: string
  np_size_bytes :: nat

definition PAYLOAD_ENVELOPE_KEY :: string where "PAYLOAD_ENVELOPE_KEY = ''_nats_sinks''"
definition PAYLOAD_VALUE_KEY :: string where "PAYLOAD_VALUE_KEY = ''payload''"
definition PAYLOAD_ENVELOPE_VERSION :: int where "PAYLOAD_ENVELOPE_VERSION = 1"

definition payload_envelope :: "string \<Rightarrow> string \<Rightarrow> string \<Rightarrow> string \<Rightarrow> nat \<Rightarrow> pyval" where
  "payload_envelope payload payload_format payload_encoding sha256 size_bytes =
     PDict
       [(PStr PAYLOAD_ENVELOPE_KEY,
         PDict [(PStr ''payload_envelope_version'', PInt PAYLOAD_ENVELOPE_VERSION),
                (PStr ''payload_format'', PStr payload_format),
                (PStr ''payload_encoding'', PStr payload_encoding),
                (PStr ''sha256'', PStr sha256),
                (PStr ''size_bytes'', PInt (int size_bytes))]),
        (PStr PAYLOAD_VALUE_KEY, PStr payload)]"

definition text_payload :: "decoder \<Rightarrow> bytes \<Rightarrow> string \<Rightarrow> normalized_payload res" where
  "text_payload decode data sha256 =
     (case decode data of
        None \<Rightarrow> raise SerializationError ''message payload is not valid UTF-8 text''
      | Some text \<Rightarrow> Inr \<lparr>np_value = payload_envelope text ''text'' ''utf-8'' sha256 (length data),
          np_original_format = Format_text, np_wrapped = True, np_sha256 = sha256,
          np_size_bytes = length data\<rparr>)"

definition bytes_payload :: "bytes \<Rightarrow> string \<Rightarrow> normalized_payload" where
  "bytes_payload data sha256 =
     \<lparr>np_value = payload_envelope (b64encode data) ''bytes'' ''base64'' sha256 (length data),
      np_original_format = Format_bytes, np_wrapped = True, np_sha256 = sha256,
      np_size_bytes = length data\<rparr>"

definition normalize_payload_for_json_storage ::
  "json_scan \<Rightarrow> decoder \<Rightarrow> digest \<Rightarrow> bytes \<Rightarrow> storage_mode \<Rightarrow> normalized_payload res" where
  "normalize_payload_for_json_storage scan decode sha data mode =
     (let sha256 = sha data in
      if mode = Bytes_envelope then Inr (bytes_payload data sha256)
      else (case decode data of
          None \<Rightarrow>
            if mode = Json_or_envelope then Inr (bytes_payload data sha256)
            else raise SerializationError ''message payload is not valid UTF-8''
        | Some text \<Rightarrow>
            if mode = Text_envelope then text_payload decode data sha256
            else (case load_standard_json scan text of
                Inl e \<Rightarrow>
                  if isinstance e ValueError then
                    (if mode = Json_only then raise SerializationError ''message payload is not valid JSON''
                     else text_payload decode data sha256)
                  else Inl e
              | Inr payload \<Rightarrow>
                  Inr \<lparr>np_value = payload, np_original_format = Format_json, np_wrapped = False,
                    np_sha256 = sha256, np_size_bytes = length data\<rparr>)))"

text \<open>What a reader of the stored value recovers: the text of a wrapped payload.\<close>

definition stored_text :: "normalized_payload \<Rightarrow> string option" where
  "stored_text np = (case py_get (np_value np) PAYLOAD_VALUE_KEY of PStr s \<Rightarrow> Some s | _ \<Rightarrow> None)"

lemma duplicate_key_guard_Inl: "duplicate_key_guard acc ps = Inl e \<Longrightarrow> isinstance e ValueError"
  by (induction ps arbitrary: acc) (auto simp: raise_def split: if_splits)

lemma apply_hooks_Inl: "apply_hooks v = Inl e \<Longrightarrow> isinstance e ValueError"
proof (induction v arbitrary: e)
  case (PDict kvs)
  show ?case
  proof (cases "rmapM (\<lambda>(k, v). rmap (Pair k) (apply_hooks v)) kvs")
    case (Inl e')
    with PDict.prems have "e = e'" by simp
    with rmapM_Inl [OF Inl] obtain k v where kv: "(k, v) \<in> set kvs" "rmap (Pair k) (apply_hooks v) = Inl e"
      by auto
    then have "apply_hooks v = Inl e" by (cases "apply_hooks v") auto
    with kv(1) show ?thesis using PDict.IH [of "(k, v)" v] by simp
  next
    case (Inr ps)
    with PDict.prems show ?thesis
      using duplicate_key_guard_Inl [of "[]" ps e] by (cases "duplicate_key_guard [] ps") auto
  qed
next
  case (PList xs)
  then have "rmapM apply_hooks xs = Inl e" by (cases "rmapM apply_hooks xs") auto
  then show ?case using rmapM_Inl PList.IH by blast
next
  case (PFloat f)
  then show ?case by (cases f) (auto simp: raise_def)
qed simp_all

lemma load_standard_json_Inl: "load_standard_json scan t = Inl e \<Longrightarrow> isinstance e ValueError"
  by (auto simp: load_standard_json_def raise_def dest: apply_hooks_Inl split: option.splits)


end
