(* ===== verification/PyLib.thy ===== *)
theory PyLib
  imports Payload
begin

text \<open>
  The interpreter, its standard library and the client objects, as far as the program only calls
  them: one record of functions, an argument of every definition that needs it.

  \<^item> \<open>l_str\<close>: \<open>str(value)\<close> of foreign objects; \<open>l_getattr\<close>: attribute access on client objects,
    whose properties may raise; \<open>l_dict_of\<close>, \<open>l_bytes_of\<close>: \<open>dict(value)\<close> and \<open>bytes(value)\<close> of
    other types, \<open>None\<close> where they raise; \<open>l_as_datetime\<close>: the value as a \<open>datetime\<close>, if it is one.
  \<^item> \<open>l_scan\<close>, \<open>l_float_text\<close>, \<open>l_decode\<close>, \<open>l_isoformat\<close>, \<open>l_fromisoformat\<close>: JSON tokens, float
    text, UTF-8 decoding and ISO timestamps.
  \<^item> \<open>l_sha256\<close>, \<open>l_digest\<close>, \<open>l_hmac_sha256\<close>, \<open>l_ed25519_verify\<close>, \<open>l_aesccm_init\<close>,
    \<open>l_aead_encrypt\<close>, \<open>l_aead_decrypt\<close>: \<open>hashlib\<close>, \<open>hmac\<close> and the optional \<open>cryptography\<close> package.
  \<^item> \<open>l_local_offset\<close>: UTC offset of the host's zone, which \<open>astimezone\<close> assumes for naive times.
\<close>

text \<open>
  A \<open>datetime\<close> is its wall clock in microseconds since 1970-01-01T00:00, and for an aware value
  the offset of its zone.
\<close>

datatype datetime = Naive int | Aware int int

datatype attr = Has pyval | Missing | AttrRaises exn

record pylib =
  l_str :: render
  l_getattr :: "pyval \<Rightarrow> string \<Rightarrow> attr"
  l_dict_of :: "pyval \<Rightarrow> (pyval \<times> pyval) list option"
  l_bytes_of :: "pyval \<Rightarrow> bytes option"
  l_as_datetime :: "pyval \<Rightarrow> datetime option"
  l_scan :: json_scan
  l_float_text :: float_text
  l_decode :: decoder
  l_isoformat :: "datetime \<Rightarrow> string"
  l_fromisoformat :: "string \<Rightarrow> datetime option"
  l_local_offset :: int
  l_sha256 :: digest
  l_digest :: "string \<Rightarrow> digest"
  l_hmac_sha256 :: "bytes \<Rightarrow> bytes \<Rightarrow> bytes"
  l_ed25519_verify :: "bytes \<Rightarrow> bytes \<Rightarrow> bytes \<Rightarrow> bool res"
  l_aesccm_init :: "int \<Rightarrow> unit res"
  l_aead_encrypt :: "string \<Rightarrow> int \<Rightarrow> bytes \<Rightarrow> bytes \<Rightarrow> bytes \<Rightarrow> bytes res"
  l_aead_decrypt :: "string \<Rightarrow> int \<Rightarrow> bytes \<Rightarrow> bytes \<Rightarrow> bytes \<Rightarrow> bytes res"

text \<open>Truth value of an object; foreign objects define no \<open>__bool__\<close> or \<open>__len__\<close>.\<close>

fun py_truthy :: "pyval \<Rightarrow> bool" where
  "py_truthy PNone = False"
| "py_truthy (PBool b) = b"
| "py_truthy (PInt i) = (i \<noteq> 0)"
| "py_truthy (PFloat f) = (f \<noteq> FFin 0)"
| "py_truthy (PStr s) = (s \<noteq> [])"
| "py_truthy (PBytes b) = (b \<noteq> [])"
| "py_truthy (PList xs) = (xs \<noteq> [])"
| "py_truthy (PTuple xs) = (xs \<noteq> [])"
| "py_truthy (PSet xs) = (xs \<noteq> [])"
| "py_truthy (PDict kvs) = (kvs \<noteq> [])"
| "py_truthy (PProxy kvs) = (kvs \<noteq> [])"
| "py_truthy (PObj n) = True"

text \<open>A library instance for concrete evaluation: no text, no attributes, identity-like crypto.\<close>

definition plain_lib :: pylib where
  "plain_lib =
     \<lparr>l_str = (\<lambda>_. None), l_getattr = (\<lambda>_ _. Missing), l_dict_of = (\<lambda>_. None), l_bytes_of = (\<lambda>_. None),
      l_as_datetime = (\<lambda>_. None), l_scan = (\<lambda>_. None), l_float_text = (\<lambda>_. ''0.5''),
      l_decode = (\<lambda>bs. Some (map (\<lambda>b. char_of (unat b)) bs)), l_isoformat = (\<lambda>_. ''1970-01-01T00:00:00+00:00''),
      l_fromisoformat = (\<lambda>_. None), l_local_offset = 0, l_sha256 = (\<lambda>bs. render_nat (length bs)),
      l_digest = (\<lambda>_ bs. render_nat (length bs)), l_hmac_sha256 = (\<lambda>k d. k),
      l_ed25519_verify = (\<lambda>_ _ _. Inr False), l_aesccm_init = (\<lambda>_. Inr ()), l_aead_encrypt = (\<lambda>_ _ _ _ p. Inr p),
      l_aead_decrypt = (\<lambda>_ _ _ _ c. Inr c)\<rparr>"

end
