(* ===== verification/MessageMetadata.thy ===== *)
theory MessageMetadata
  imports PyValues
begin

text \<open>
  Normalisation of the application metadata fields (\<open>core/message_metadata.py\<close>): the scalar
  fields priority and classification, the label list, and header lookup.  Headers are an
  insertion-ordered list of pairs, as the mapping the code iterates over.
\<close>

type_synonym headers = "(string \<times> string) list"

definition DEFAULT_PRIORITY_HEADER :: string where
  "DEFAULT_PRIORITY_HEADER = ''Nats-Sinks-Priority''"

definition DEFAULT_CLASSIFICATION_HEADER :: string where
  "DEFAULT_CLASSIFICATION_HEADER = ''Nats-Sinks-Classification''"

definition DEFAULT_LABELS_HEADER :: string where
  "DEFAULT_LABELS_HEADER = ''Nats-Sinks-Labels''"

definition LABEL_SEPARATOR :: char where
  "LABEL_SEPARATOR = CHR '';''"

definition contains_ascii_control_characters :: "string \<Rightarrow> bool" where
  "contains_ascii_control_characters value = has_control_char value"

definition normalise_metadata_value :: "render \<Rightarrow> pyval \<Rightarrow> string option" where
  "normalise_metadata_value st value =
     (if value = PNone then None
      else (case py_str st value of
              None \<Rightarrow> None
            | Some text \<Rightarrow> (let rendered = strip text in if rendered = [] then None else Some rendered)))"

fun label_items :: "pyval \<Rightarrow> pyval list" where
  "label_items (PStr s) = map PStr (split_on LABEL_SEPARATOR s)"
| "label_items (PList xs) = xs"
| "label_items (PTuple xs) = xs"
| "label_items (PSet xs) = xs"
| "label_items v = [v]"

fun collect_labels :: "render \<Rightarrow> string list \<Rightarrow> pyval list \<Rightarrow> string list" where
  "collect_labels st labels [] = labels"
| "collect_labels st labels (item # items) =
     (case normalise_metadata_value st item of
        None \<Rightarrow> collect_labels st labels items
      | Some rendered \<Rightarrow>
          if rendered \<in> set labels then collect_labels st labels items
          else collect_labels st (labels @ [rendered]) items)"

definition normalise_labels_value :: "render \<Rightarrow> pyval \<Rightarrow> string list" where
  "normalise_labels_value st value =
     (if value = PNone then [] else collect_labels st [] (label_items value))"

definition labels_to_storage_string :: "render \<Rightarrow> pyval \<Rightarrow> string option" where
  "labels_to_storage_string st labels =
     (let normalized = normalise_labels_value st labels in
      if normalized = [] then None else Some (join_with [LABEL_SEPARATOR] normalized))"

fun case_insensitive_header :: "headers \<Rightarrow> string \<Rightarrow> string option" where
  "case_insensitive_header [] name = None"
| "case_insensitive_header ((key, value) # hs) name =
     (if lower key = lower name then Some value else case_insensitive_header hs name)"

definition resolve_metadata_field :: "render \<Rightarrow> headers \<Rightarrow> string \<Rightarrow> string option \<Rightarrow> string option" where
  "resolve_metadata_field st headers header_name fallback =
     (case case_insensitive_header headers header_name of
        Some v \<Rightarrow> normalise_metadata_value st (PStr v)
      | None \<Rightarrow> normalise_metadata_value st (opt_str fallback))"

definition resolve_metadata_labels :: "render \<Rightarrow> headers \<Rightarrow> string \<Rightarrow> pyval \<Rightarrow> string list" where
  "resolve_metadata_labels st headers header_name fallback =
     (case case_insensitive_header headers header_name of
        Some v \<Rightarrow> normalise_labels_value st (PStr v)
      | None \<Rightarrow> normalise_labels_value st fallback)"

section \<open>Normal forms\<close>

definition clean :: "string \<Rightarrow> bool" where
  "clean s \<longleftrightarrow> s \<noteq> [] \<and> strip s = s"

lemma normalise_metadata_value_clean: "normalise_metadata_value st v = Some s \<Longrightarrow> clean s"
  by (auto simp: normalise_metadata_value_def clean_def Let_def split: if_splits option.splits)

lemma normalise_metadata_value_id: "clean s \<Longrightarrow> normalise_metadata_value st (PStr s) = Some s"
  by (simp add: normalise_metadata_value_def clean_def)

lemma normalise_metadata_value_None [simp]: "normalise_metadata_value st PNone = None"
  by (simp add: normalise_metadata_value_def)

lemma normalise_metadata_value_idem [simp]:
  "normalise_metadata_value st (opt_str (normalise_metadata_value st v)) = normalise_metadata_value st v"
  by (cases "normalise_metadata_value st v")
    (auto simp: opt_str_def dest: normalise_metadata_value_clean intro: normalise_metadata_value_id)

text \<open>What the loop does: it appends, in order, the new labels it meets.\<close>

lemma collect_labels_props:
  "distinct acc \<Longrightarrow> (\<forall>l\<in>set acc. clean l) \<Longrightarrow>
   distinct (collect_labels st acc items) \<and> (\<forall>l\<in>set (collect_labels st acc items). clean l)"
proof (induction items arbitrary: acc)
  case (Cons item items)
  show ?case
  proof (cases "normalise_metadata_value st item")
    case None
    with Cons show ?thesis by simp
  next
    case (Some l)
    with Cons.prems normalise_metadata_value_clean [OF Some] Cons.IH [of acc] Cons.IH [of "acc @ [l]"]
    show ?thesis by simp
  qed
qed simp

lemma collect_labels_clean:
  "distinct (acc @ ls) \<Longrightarrow> (\<forall>l\<in>set ls. clean l) \<Longrightarrow> collect_labels st acc (map PStr ls) = acc @ ls"
  by (induction ls arbitrary: acc) (auto simp: normalise_metadata_value_id)

lemma set_collect_labels:
  "set (collect_labels st acc items) =
     set acc \<union> {l. \<exists>v\<in>set items. normalise_metadata_value st v = Some l}"
  by (induction items arbitrary: acc) (auto split: option.splits)

lemma normalise_labels_props:
  "distinct (normalise_labels_value st v)" "\<forall>l\<in>set (normalise_labels_value st v). clean l"
  using collect_labels_props [of "[]" st "label_items v"]
  by (simp_all add: normalise_labels_value_def)

lemma normalise_labels_fixed:
  "distinct ls \<Longrightarrow> \<forall>l\<in>set ls. clean l \<Longrightarrow> normalise_labels_value st (PTuple (map PStr ls)) = ls"
  using collect_labels_clean [of "[]" ls st] by (simp add: normalise_labels_value_def)

lemma normalise_labels_tuple_id [simp]:
  "normalise_labels_value st (PTuple (map PStr (normalise_labels_value st v)))
     = normalise_labels_value st v"
  by (rule normalise_labels_fixed) (rule normalise_labels_props)+

lemma dropWhile_set: "x \<in> set (dropWhile P xs) \<Longrightarrow> x \<in> set xs"
  by (simp add: set_dropWhileD)

lemma strip_subset: "c \<in> set (strip s) \<Longrightarrow> c \<in> set s"
  unfolding strip_def by (auto dest!: dropWhile_set)

lemma header_labels_no_separator:
  assumes "l \<in> set (normalise_labels_value st (PStr s))"
  shows "LABEL_SEPARATOR \<notin> set l"
proof -
  from assms obtain t where t: "t \<in> set (split_on LABEL_SEPARATOR s)" "strip t = l"
    by (auto simp: normalise_labels_value_def set_collect_labels normalise_metadata_value_def Let_def
        split: if_splits)
  then have "LABEL_SEPARATOR \<notin> set t" by (auto dest: split_on_no_sep)
  with t(2) show ?thesis by (auto dest: strip_subset)
qed

text \<open>Labels taken from a header survive storage.  Normalising a header value gives distinct,
  non-empty, stripped labels, and rendering them as the semicolon separated storage text and
  reading that text back gives the same labels in the same order.\<close>

theorem labels_storage_roundtrip:
  "distinct (normalise_labels_value st (PStr s))
   \<and> list_all clean (normalise_labels_value st (PStr s))
   \<and> (case labels_to_storage_string st (PTuple (map PStr (normalise_labels_value st (PStr s)))) of
        None \<Rightarrow> normalise_labels_value st (PStr s) = []
      | Some text \<Rightarrow> normalise_labels_value st (PStr text) = normalise_labels_value st (PStr s))"
proof -
  let ?ls = "normalise_labels_value st (PStr s)"
  note props = normalise_labels_props [of st "PStr s"]
  have again: "normalise_labels_value st (PStr (join_with [LABEL_SEPARATOR] ?ls)) = ?ls" if "?ls \<noteq> []"
  proof -
    have "split_on LABEL_SEPARATOR (join_with [LABEL_SEPARATOR] ?ls) = ?ls"
      using that header_labels_no_separator by (intro split_join) blast+
    then show ?thesis
      using collect_labels_clean [of "[]" ?ls st] props by (simp add: normalise_labels_value_def)
  qed
  show ?thesis
    using props again by (auto simp: labels_to_storage_string_def Let_def list_all_iff)
qed

end
