(* ===== verification/Envelope.thy ===== *)
theory Envelope
  imports PyLib MessageMetadata
begin

text \<open>
  The message envelope handed to sinks (\<open>core/envelope.py\<close>): construction with all its
  normalisation, copies by \<open>dataclasses.replace\<close>, and the idempotency key.
\<close>

section \<open>Headers\<close>

definition rendered_header_value :: "render \<Rightarrow> pyval \<Rightarrow> string option" where
  "rendered_header_value st value =
     (case value of
        PList xs \<Rightarrow> Some (join_with '','' (List.map_filter (py_str st) xs))
      | PTuple xs \<Rightarrow> Some (join_with '','' (List.map_filter (py_str st) xs))
      | _ \<Rightarrow> py_str st value)"

fun normalise_headers_loop :: "render \<Rightarrow> headers \<Rightarrow> (pyval \<times> pyval) list \<Rightarrow> headers" where
  "normalise_headers_loop st normalised [] = normalised"
| "normalise_headers_loop st normalised ((key, value) # items) =
     (if value = PNone then normalise_headers_loop st normalised items
      else (case py_str st key of
          None \<Rightarrow> normalise_headers_loop st normalised items
        | Some text \<Rightarrow>
            (let rendered_key = strip text in
             if rendered_key = [] \<or> contains_ascii_control_characters rendered_key
             then normalise_headers_loop st normalised items
             else (case rendered_header_value st value of
                 None \<Rightarrow> normalise_headers_loop st normalised items
               | Some rendered \<Rightarrow>
                   normalise_headers_loop st (AList.update rendered_key rendered normalised) items))))"

definition normalise_headers :: "render \<Rightarrow> (pyval \<times> pyval) list \<Rightarrow> headers" where
  "normalise_headers st items = normalise_headers_loop st [] items"

definition header_items :: "headers \<Rightarrow> (pyval \<times> pyval) list" where
  "header_items hs = map (\<lambda>(k, v). (PStr k, PStr v)) hs"

fun casefold_header :: "headers \<Rightarrow> string \<Rightarrow> string option" where
  "casefold_header [] name = None"
| "casefold_header ((key, value) # hs) name =
     (if casefold key = casefold name then Some value else casefold_header hs name)"

definition parse_nats_msg_size :: "string option \<Rightarrow> int option \<times> bool" where
  "parse_nats_msg_size value =
     (case value of
        None \<Rightarrow> (None, False)
      | Some v \<Rightarrow>
          (case parse_int (strip v) of
             None \<Rightarrow> (None, True)
           | Some n \<Rightarrow> if n < 0 then (None, True) else (Some n, False)))"

section \<open>The envelope\<close>

record nats_envelope =
  env_subject :: string
  env_data :: bytes
  env_headers :: headers
  env_stream :: "string option"
  env_consumer :: "string option"
  env_stream_sequence :: "int option"
  env_consumer_sequence :: "int option"
  env_timestamp :: "datetime option"
  env_message_id :: "string option"
  env_redelivered :: "bool option"
  env_pending :: "int option"
  env_priority :: "string option"
  env_classification :: "string option"
  env_labels :: "string list"
  env_mission_metadata :: pyval
  env_security_labels :: pyval
  env_custody :: pyval
  env_reply :: "string option"
  env_domain :: "string option"
  env_payload_present :: bool
  env_payload_omitted :: bool
  env_payload_omitted_reason :: "string option"
  env_original_payload_size_bytes :: "int option"
  env_payload_size_header_malformed :: bool
  env_received_at :: datetime
  env_raw_metadata :: pyval

text \<open>\<open>a or b\<close> on optional text.\<close>

definition str_or :: "string option \<Rightarrow> string option \<Rightarrow> string option" where
  "str_or a b = (if a = None \<or> a = Some [] then b else a)"

text \<open>
  \<open>_normalize_payload_presence\<close>; the result lists the five assigned fields: present, omitted,
  reason, original size, malformed.  \<open>presence_fields\<close> is its body once the size header is looked
  up (\<open>found\<close>), parsed (\<open>parsed_size\<close>, \<open>malformed\<close>) and the reason normalised.
\<close>

definition presence_fields ::
  "bool \<Rightarrow> int option \<Rightarrow> bool \<Rightarrow> int \<Rightarrow> bool \<Rightarrow> bool \<Rightarrow> string option \<Rightarrow> int option \<Rightarrow> bool
   \<Rightarrow> bool \<times> bool \<times> string option \<times> int option \<times> bool" where
  "presence_fields found parsed_size malformed data_size present omitted reason original size_malformed =
     (let negative = (case original of None \<Rightarrow> False | Some n \<Rightarrow> n < 0);
          original0 = (if negative then None else original);
          size_header_malformed = (size_malformed \<or> malformed \<or> negative);
          headers_only = (found \<and> \<not> malformed \<and> data_size = 0);
          present1 = (present \<and> \<not> headers_only);
          omitted1 = (omitted \<or> headers_only);
          reason1 = (if headers_only then str_or reason (Some ''headers_only'') else reason);
          original1 =
            (if headers_only then parsed_size
             else if original0 = None then (if parsed_size \<noteq> None then parsed_size else Some data_size)
             else original0)
      in (if omitted1 then (False, True, str_or reason1 (Some ''headers_only''), original1, size_header_malformed)
          else if present1 then (True, False, None, original1, size_header_malformed)
          else (False, False, reason1, original1, size_header_malformed)))"

definition payload_presence ::
  "render \<Rightarrow> headers \<Rightarrow> nats_envelope \<Rightarrow> bool \<times> bool \<times> string option \<times> int option \<times> bool" where
  "payload_presence st headers e =
     (let size_header = casefold_header headers ''Nats-Msg-Size'' in
      case parse_nats_msg_size size_header of (parsed_size, malformed) \<Rightarrow>
        presence_fields (size_header \<noteq> None) parsed_size malformed (int (length (env_data e)))
          (env_payload_present e) (env_payload_omitted e)
          (normalise_metadata_value st (opt_str (env_payload_omitted_reason e)))
          (env_original_payload_size_bytes e) (env_payload_size_header_malformed e))"

definition resolved_message_id :: "headers \<Rightarrow> string option \<Rightarrow> string option" where
  "resolved_message_id headers message_id =
     (case message_id of
        Some m \<Rightarrow> Some m
      | None \<Rightarrow>
          str_or (case_insensitive_header headers ''Nats-Msg-Id'')
            (str_or (case_insensitive_header headers ''Nats-Message-Id'')
              (case_insensitive_header headers ''message-id'')))"

text \<open>
  Construction: \<open>__init__\<close> stores the arguments, \<open>__post_init__\<close> normalises them.  The raw header
  mapping comes as its items; the header field of \<open>e\<close> is not read.
\<close>

definition post_init :: "render \<Rightarrow> (pyval \<times> pyval) list \<Rightarrow> nats_envelope \<Rightarrow> nats_envelope res" where
  "post_init st items e =
     (let headers = normalise_headers st items in
      case payload_presence st headers e of (present, omitted, reason, original, malformed) \<Rightarrow>
      rbind (freeze_metadata st (env_mission_metadata e)) (\<lambda>mission.
      rbind (freeze_metadata st (env_security_labels e)) (\<lambda>security.
      rbind (freeze_metadata st (env_custody e)) (\<lambda>custody.
      Inr (e\<lparr>env_headers := headers,
        env_payload_present := present, env_payload_omitted := omitted,
        env_payload_omitted_reason := reason, env_original_payload_size_bytes := original,
        env_payload_size_header_malformed := malformed,
        env_message_id := resolved_message_id headers (env_message_id e),
        env_priority := normalise_metadata_value st (opt_str (env_priority e)),
        env_classification := normalise_metadata_value st (opt_str (env_classification e)),
        env_labels := normalise_labels_value st (PTuple (map PStr (env_labels e))),
        env_mission_metadata := mission, env_security_labels := security, env_custody := custody\<rparr>)))))"

text \<open>\<open>dataclasses.replace\<close> builds a new object, so \<open>__post_init__\<close> runs again.\<close>

definition replace_envelope :: "render \<Rightarrow> nats_envelope \<Rightarrow> nats_envelope res" where
  "replace_envelope st e = post_init st (header_items (env_headers e)) e"

definition idempotency_key :: "digest \<Rightarrow> nats_envelope \<Rightarrow> string res" where
  "idempotency_key sha e =
     (case (env_stream e, env_stream_sequence e) of
        (Some (c # cs), Some n) \<Rightarrow> Inr (''stream-sequence:'' @ (c # cs) @ '':'' @ render_int n)
      | _ \<Rightarrow>
          (case env_message_id e of
             Some (c # cs) \<Rightarrow> Inr (''message-id:'' @ c # cs)
           | _ \<Rightarrow>
               if env_payload_omitted e
               then raise ValidationError ''payload-sha256 idempotency fallback is unavailable''
               else Inr (''payload-sha256:'' @ env_subject e @ '':'' @ sha (env_data e))))"

definition payload_as_text :: "pylib \<Rightarrow> nats_envelope \<Rightarrow> string res" where
  "payload_as_text L e =
     (case l_decode L (env_data e) of
        Some text \<Rightarrow> Inr text
      | None \<Rightarrow> raise SerializationError ''message payload is not valid utf-8'')"

definition payload_as_json :: "pylib \<Rightarrow> nats_envelope \<Rightarrow> pyval res" where
  "payload_as_json L e =
     (case rbind (payload_as_text L e) (load_standard_json (l_scan L)) of
        Inr v \<Rightarrow> Inr v
      | Inl err \<Rightarrow>
          if isinstance err ValueError \<or> isinstance err TypeError
          then raise SerializationError ''message payload is not valid JSON'' else Inl err)"

definition payload_for_json_storage :: "pylib \<Rightarrow> nats_envelope \<Rightarrow> storage_mode \<Rightarrow> normalized_payload res" where
  "payload_for_json_storage L e mode =
     normalize_payload_for_json_storage (l_scan L) (l_decode L) (l_sha256 L) (env_data e) mode"

section \<open>Normal forms\<close>

definition headers_normal :: "headers \<Rightarrow> bool" where
  "headers_normal hs \<longleftrightarrow> distinct (map fst hs)
     \<and> (\<forall>(k, v)\<in>set hs. clean k \<and> \<not> contains_ascii_control_characters k)"

lemma set_update_cases: "p \<in> set (AList.update k v al) \<Longrightarrow> p = (k, v) \<or> p \<in> set al"
  using set_update_subset [of k v al] by blast

lemma headers_normal_update:
  assumes "headers_normal hs" "clean k" "\<not> contains_ascii_control_characters k"
  shows "headers_normal (AList.update k v hs)"
  using assms by (auto simp: headers_normal_def distinct_update dest!: set_update_cases)

lemma headers_normal_loop: "headers_normal acc \<Longrightarrow> headers_normal (normalise_headers_loop st acc items)"
proof (induction items arbitrary: acc)
  case (Cons p items)
  obtain k v where p: "p = (k, v)" by (cases p)
  show ?case
    using Cons.prems
    by (auto simp: p Let_def clean_def intro!: Cons.IH headers_normal_update split: option.splits)
qed simp

lemma normalise_headers_normal: "headers_normal (normalise_headers st items)"
  unfolding normalise_headers_def by (rule headers_normal_loop) (simp add: headers_normal_def)

lemma normalise_headers_loop_fixed:
  "headers_normal (acc @ hs) \<Longrightarrow> normalise_headers_loop st acc (header_items hs) = acc @ hs"
proof (induction hs arbitrary: acc)
  case (Cons p hs)
  obtain k v where p: "p = (k, v)" by (cases p)
  with Cons.prems have "k \<notin> fst ` set acc" "clean k" "\<not> contains_ascii_control_characters k"
    by (auto simp: headers_normal_def)
  with Cons.IH [of "acc @ [(k, v)]"] Cons.prems show ?case
    by (simp add: p header_items_def clean_def update_new rendered_header_value_def)
qed (simp add: header_items_def)

lemma normalise_headers_fixed: "headers_normal hs \<Longrightarrow> normalise_headers st (header_items hs) = hs"
  using normalise_headers_loop_fixed [of "[]" hs st] by (simp add: normalise_headers_def)

lemma str_or_simps [simp]:
  "str_or (Some (c # cs)) b = Some (c # cs)" "str_or None b = b" "str_or (Some []) b = b"
  by (simp_all add: str_or_def)

lemma normalise_opt_str_cases:
  obtains "normalise_metadata_value st v = None"
  | c cs where "normalise_metadata_value st v = Some (c # cs)"
    "normalise_metadata_value st (PStr (c # cs)) = Some (c # cs)"
proof (cases "normalise_metadata_value st v")
  case (Some s)
  then have "clean s" by (rule normalise_metadata_value_clean)
  with Some that(2) show thesis
    by (cases s) (auto simp: normalise_metadata_value_id clean_def)
qed (rule that(1))

lemma parse_nats_msg_size_props:
  assumes "parse_nats_msg_size v = (x, b)"
  shows "x = Some n \<Longrightarrow> 0 \<le> n" "v \<noteq> None \<Longrightarrow> \<not> b \<Longrightarrow> x \<noteq> None"
proof -
  consider "v = None" | a where "v = Some a" "parse_int (strip a) = None"
    | a k where "v = Some a" "parse_int (strip a) = Some k"
    by (cases v; cases "parse_int (strip (the v))") auto
  then have "(x = Some n \<longrightarrow> 0 \<le> n) \<and> (v \<noteq> None \<longrightarrow> \<not> b \<longrightarrow> x \<noteq> None)"
    using assms by cases (auto simp: parse_nats_msg_size_def split: if_splits, metis)
  then show "x = Some n \<Longrightarrow> 0 \<le> n" "v \<noteq> None \<Longrightarrow> \<not> b \<Longrightarrow> x \<noteq> None" by blast+
qed

lemma headers_only_clean [simp]:
  "normalise_metadata_value st (PStr ''headers_only'') = Some ''headers_only''"
  by (rule normalise_metadata_value_id) code_simp

definition reason_normal :: "render \<Rightarrow> string option \<Rightarrow> bool" where
  "reason_normal st r \<longleftrightarrow> r \<noteq> Some [] \<and> normalise_metadata_value st (opt_str r) = r"

lemma normalise_reason_normal: "reason_normal st (normalise_metadata_value st v)"
  by (auto simp: reason_normal_def clean_def dest: normalise_metadata_value_clean)

lemma presence_fields_idem:
  assumes "presence_fields found x b d p om r orig m = (p', om', r', orig', m')"
    and "0 \<le> d" "\<And>n. x = Some n \<Longrightarrow> 0 \<le> n" "found \<Longrightarrow> \<not> b \<Longrightarrow> x \<noteq> None" "reason_normal st r"
  shows "presence_fields found x b d p' om' r' orig' m' = (p', om', r', orig', m')" "reason_normal st r'"
proof -
  have "reason_normal st None" "reason_normal st (Some ''headers_only'')"
    by (simp_all add: reason_normal_def opt_str_def)
  with assms show "reason_normal st r'"
    by (auto simp: presence_fields_def Let_def str_or_def split: if_splits)
  show "presence_fields found x b d p' om' r' orig' m' = (p', om', r', orig', m')"
    using assms by (auto simp: presence_fields_def Let_def str_or_def reason_normal_def
        split: if_splits option.splits)
qed

lemma payload_presence_idem:
  assumes "payload_presence st hs e = (p, om, r, orig, m)" "env_data e' = env_data e"
    "env_payload_present e' = p" "env_payload_omitted e' = om" "env_payload_omitted_reason e' = r"
    "env_original_payload_size_bytes e' = orig" "env_payload_size_header_malformed e' = m"
  shows "payload_presence st hs e' = (p, om, r, orig, m)"
proof -
  obtain x b where xb: "parse_nats_msg_size (casefold_header hs ''Nats-Msg-Size'') = (x, b)"
    by (cases "parse_nats_msg_size (casefold_header hs ''Nats-Msg-Size'')")
  note props = parse_nats_msg_size_props [OF xb]
  from assms(1) have "presence_fields (casefold_header hs ''Nats-Msg-Size'' \<noteq> None) x b (int (length (env_data e)))
      (env_payload_present e) (env_payload_omitted e)
      (normalise_metadata_value st (opt_str (env_payload_omitted_reason e)))
      (env_original_payload_size_bytes e) (env_payload_size_header_malformed e) = (p, om, r, orig, m)"
    by (simp add: payload_presence_def xb)
  from presence_fields_idem [OF this _ props(1) props(2) normalise_reason_normal]
  show ?thesis using assms(2-) by (simp add: payload_presence_def xb reason_normal_def)
qed

lemma resolved_message_id_idem [simp]:
  "resolved_message_id hs (resolved_message_id hs m) = resolved_message_id hs m"
  by (auto simp: resolved_message_id_def split: option.splits)

lemma post_init_fixed:
  assumes "post_init st items e = Inr e'"
  shows "replace_envelope st e' = Inr e'"
proof -
  let ?hs = "normalise_headers st items"
  obtain p om r orig m where pp: "payload_presence st ?hs e = (p, om, r, orig, m)"
    by (cases "payload_presence st ?hs e")
  from assms pp obtain mission security custody where
    frozen: "freeze_metadata st (env_mission_metadata e) = Inr mission"
      "freeze_metadata st (env_security_labels e) = Inr security"
      "freeze_metadata st (env_custody e) = Inr custody"
    and e': "e' = e\<lparr>env_headers := ?hs, env_payload_present := p, env_payload_omitted := om,
        env_payload_omitted_reason := r, env_original_payload_size_bytes := orig,
        env_payload_size_header_malformed := m,
        env_message_id := resolved_message_id ?hs (env_message_id e),
        env_priority := normalise_metadata_value st (opt_str (env_priority e)),
        env_classification := normalise_metadata_value st (opt_str (env_classification e)),
        env_labels := normalise_labels_value st (PTuple (map PStr (env_labels e))),
        env_mission_metadata := mission, env_security_labels := security, env_custody := custody\<rparr>"
    by (auto simp: post_init_def Let_def elim!: rbindE)
  note again = frozen [THEN freeze_metadata_idem]
  have hs: "normalise_headers st (header_items ?hs) = ?hs"
    using normalise_headers_normal by (rule normalise_headers_fixed)
  have "payload_presence st ?hs e' = (p, om, r, orig, m)"
    using pp by (rule payload_presence_idem) (simp_all add: e')
  then show ?thesis
    by (simp add: replace_envelope_def post_init_def hs Let_def e' again)
qed

text \<open>C21: envelopes are closed under copying.  Whatever the constructor accepts, building the
  envelope again from its own fields, as \<open>dataclasses.replace\<close> does after encryption and custody
  hashing, gives the same envelope: headers, payload-presence flags, message id, labels and the
  frozen metadata do not drift.\<close>

theorem envelope_construction_idempotent:
  assumes "post_init st items e = Inr e'"
  shows "replace_envelope st e' = Inr e' \<and> headers_normal (env_headers e')
    \<and> env_subject e' = env_subject e \<and> env_data e' = env_data e
    \<and> env_stream e' = env_stream e \<and> env_stream_sequence e' = env_stream_sequence e"
  using post_init_fixed [OF assms] assms normalise_headers_normal [of st items]
  by (auto simp: post_init_def Let_def elim!: rbindE split: prod.splits)

text \<open>
  Replacing the custody field, or the payload together with it, of an envelope that is already in
  normal form.
\<close>

definition normal_envelope :: "render \<Rightarrow> nats_envelope \<Rightarrow> bool" where
  "normal_envelope st e \<longleftrightarrow> replace_envelope st e = Inr e"

text \<open>The delivery coordinates: which message of which stream and consumer an envelope stands for.\<close>

type_synonym delivery = "string \<times> string option \<times> string option \<times> int option \<times> int option"

definition delivery :: "nats_envelope \<Rightarrow> delivery" where
  "delivery e = (env_subject e, env_stream e, env_consumer e, env_stream_sequence e, env_consumer_sequence e)"

lemma post_init_delivery: "post_init st items e = Inr e' \<Longrightarrow> delivery e' = delivery e \<and> env_data e' = env_data e"
  by (auto simp: post_init_def Let_def delivery_def elim!: rbindE split: prod.splits)

lemma replace_delivery: "replace_envelope st e = Inr e' \<Longrightarrow> delivery e' = delivery e \<and> env_data e' = env_data e"
  unfolding replace_envelope_def by (rule post_init_delivery)

definition presence_of :: "nats_envelope \<Rightarrow> bool \<times> bool \<times> string option \<times> int option \<times> bool" where
  "presence_of e = (env_payload_present e, env_payload_omitted e, env_payload_omitted_reason e,
     env_original_payload_size_bytes e, env_payload_size_header_malformed e)"

lemma normal_envelopeD:
  assumes "normal_envelope st e"
  shows "normalise_headers st (header_items (env_headers e)) = env_headers e"
    "payload_presence st (env_headers e) e = presence_of e"
    "resolved_message_id (env_headers e) (env_message_id e) = env_message_id e"
    "normalise_metadata_value st (opt_str (env_priority e)) = env_priority e"
    "normalise_metadata_value st (opt_str (env_classification e)) = env_classification e"
    "normalise_labels_value st (PTuple (map PStr (env_labels e))) = env_labels e"
    "freeze_metadata st (env_mission_metadata e) = Inr (env_mission_metadata e)"
    "freeze_metadata st (env_security_labels e) = Inr (env_security_labels e)"
    "freeze_metadata st (env_custody e) = Inr (env_custody e)"
proof -
  let ?hs = "normalise_headers st (header_items (env_headers e))"
  obtain p om r orig m where pp: "payload_presence st ?hs e = (p, om, r, orig, m)"
    by (cases "payload_presence st ?hs e")
  obtain mission security custody where
    f: "freeze_metadata st (env_mission_metadata e) = Inr mission"
      "freeze_metadata st (env_security_labels e) = Inr security"
      "freeze_metadata st (env_custody e) = Inr custody"
    and e: "e\<lparr>env_headers := ?hs, env_payload_present := p, env_payload_omitted := om,
        env_payload_omitted_reason := r, env_original_payload_size_bytes := orig,
        env_payload_size_header_malformed := m,
        env_message_id := resolved_message_id ?hs (env_message_id e),
        env_priority := normalise_metadata_value st (opt_str (env_priority e)),
        env_classification := normalise_metadata_value st (opt_str (env_classification e)),
        env_labels := normalise_labels_value st (PTuple (map PStr (env_labels e))),
        env_mission_metadata := mission, env_security_labels := security, env_custody := custody\<rparr> = e"
    using assms pp unfolding normal_envelope_def replace_envelope_def post_init_def Let_def
    by (auto elim!: rbindE)
  note field = arg_cong [OF e]
  show hs: "?hs = env_headers e" using field [of env_headers] by simp
  show "payload_presence st (env_headers e) e = presence_of e"
    using field [of presence_of] pp hs by (simp add: presence_of_def)
  show "resolved_message_id (env_headers e) (env_message_id e) = env_message_id e"
    using field [of env_message_id] hs by simp
  show "normalise_metadata_value st (opt_str (env_priority e)) = env_priority e"
    using field [of env_priority] by simp
  show "normalise_metadata_value st (opt_str (env_classification e)) = env_classification e"
    using field [of env_classification] by simp
  show "normalise_labels_value st (PTuple (map PStr (env_labels e))) = env_labels e"
    using field [of env_labels] by simp
  show "freeze_metadata st (env_mission_metadata e) = Inr (env_mission_metadata e)"
    using field [of env_mission_metadata] f by simp
  show "freeze_metadata st (env_security_labels e) = Inr (env_security_labels e)"
    using field [of env_security_labels] f by simp
  show "freeze_metadata st (env_custody e) = Inr (env_custody e)"
    using field [of env_custody] f by simp
qed

lemma replace_custody:
  assumes "normal_envelope st e"
  shows "replace_envelope st (e\<lparr>env_custody := c\<rparr>) = rmap (\<lambda>c'. e\<lparr>env_custody := c'\<rparr>) (freeze_metadata st c)"
proof -
  note n = normal_envelopeD [OF assms]
  have "payload_presence st (env_headers e) (e\<lparr>env_custody := c\<rparr>) = presence_of e"
    using n(2) by (simp add: payload_presence_def)
  with n show ?thesis
    by (cases "freeze_metadata st c") (simp_all add: replace_envelope_def post_init_def presence_of_def)
qed

text \<open>A plain delivered message, for concrete evaluations.\<close>

definition sample_envelope :: "string \<Rightarrow> int \<Rightarrow> bytes \<Rightarrow> nats_envelope" where
  "sample_envelope subj n body =
     \<lparr>env_subject = subj, env_data = body, env_headers = [], env_stream = Some ''ORDERS'', env_consumer = Some ''c1'',
      env_stream_sequence = Some n, env_consumer_sequence = Some n, env_timestamp = None, env_message_id = None,
      env_redelivered = Some False, env_pending = Some 0, env_priority = None, env_classification = None,
      env_labels = [], env_mission_metadata = PNone, env_security_labels = PNone, env_custody = PNone,
      env_reply = None, env_domain = None, env_payload_present = True, env_payload_omitted = False,
      env_payload_omitted_reason = None, env_original_payload_size_bytes = None,
      env_payload_size_header_malformed = False, env_received_at = Aware 0 0, env_raw_metadata = PNone\<rparr>"

lemma envelope_construction_idempotent_witness:
  "\<exists>e'. post_init (\<lambda>_. None) [(PStr '' nats-msg-size '', PStr ''17''), (PStr ''Nats-Msg-Id'', PStr ''m1'')]
      (sample_envelope ''orders.new'' 7 []) = Inr e'
    \<and> env_payload_omitted e' \<and> env_original_payload_size_bytes e' = Some 17 \<and> env_message_id e' = Some ''m1''
    \<and> replace_envelope (\<lambda>_. None) e' = Inr e'"
  (is "\<exists>e'. ?f = Inr e' \<and> ?P e' \<and> ?Q e' \<and> ?R e' \<and> _ e'")
proof -
  have "case ?f of Inl e \<Rightarrow> False | Inr e' \<Rightarrow> ?P e' \<and> ?Q e' \<and> ?R e'"
    by code_simp
  then obtain e' where "?f = Inr e'" "?P e' \<and> ?Q e' \<and> ?R e'" by (cases ?f) auto
  with envelope_construction_idempotent [OF this(1)] show ?thesis by blast
qed

section \<open>Idempotency keys\<close>

text \<open>The source of a key: what identifies the message, in the order of preference.\<close>

datatype key_source =
    By_sequence string int
  | By_message_id string
  | By_payload string string

definition key_source_of :: "digest \<Rightarrow> nats_envelope \<Rightarrow> key_source option" where
  "key_source_of sha e =
     (case (env_stream e, env_stream_sequence e) of
        (Some (c # cs), Some n) \<Rightarrow> Some (By_sequence (c # cs) n)
      | _ \<Rightarrow> (case env_message_id e of
          Some (c # cs) \<Rightarrow> Some (By_message_id (c # cs))
        | _ \<Rightarrow> if env_payload_omitted e then None else Some (By_payload (env_subject e) (sha (env_data e)))))"

primrec key_text :: "key_source \<Rightarrow> string" where
  "key_text (By_sequence s n) = ''stream-sequence:'' @ s @ '':'' @ render_int n"
| "key_text (By_message_id m) = ''message-id:'' @ m"
| "key_text (By_payload s d) = ''payload-sha256:'' @ s @ '':'' @ d"

lemma idempotency_key_source:
  "idempotency_key sha e =
     (case key_source_of sha e of None \<Rightarrow> raise ValidationError ''payload-sha256 idempotency fallback is unavailable''
      | Some k \<Rightarrow> Inr (key_text k))"
  by (auto simp: idempotency_key_def key_source_of_def split: option.splits list.splits)

lemma append_sep_inject:
  assumes "d \<notin> set s" "d \<notin> set t" "a @ d # s = b @ d # t"
  shows "a = b \<and> s = t"
proof -
  have eq: "rev s @ d # rev a = rev t @ d # rev b"
    using arg_cong [OF assms(3), of rev] by simp
  have "takeWhile (\<lambda>x. x \<noteq> d) (rev u @ d # rev c) = rev u" if "d \<notin> set u" for u c
    using that by (subst takeWhile_append2) auto
  with arg_cong [OF eq, of "takeWhile (\<lambda>x. x \<noteq> d)"] assms(1,2) have "rev s = rev t" by simp
  with eq show ?thesis by simp
qed

lemma key_text_inject:
  assumes "key_text j = key_text k"
    and "\<forall>s d. j = By_payload s d \<longrightarrow> CHR '':'' \<notin> set d" "\<forall>s d. k = By_payload s d \<longrightarrow> CHR '':'' \<notin> set d"
  shows "j = k"
  using assms
  by (cases j; cases k)
    (auto dest!: append_sep_inject [OF render_int_no_colon render_int_no_colon] intro: append_sep_inject [THEN conjunct1]
      append_sep_inject [THEN conjunct2])

text \<open>C22: idempotency keys separate messages.  Two envelopes get the same key only when the same
  source identifies them: the same stream and sequence, else the same message id, else the same
  subject and payload digest; in particular a message id can never collide with a stream
  sequence, and no separator inside a stream name, subject or id confuses two keys.\<close>

theorem idempotency_key_separates:
  assumes "\<And>bs. CHR '':'' \<notin> set (sha bs)"
    and "idempotency_key sha e = Inr k" "idempotency_key sha e' = Inr k"
  shows "key_source_of sha e = key_source_of sha e' \<and> key_source_of sha e \<noteq> None"
proof -
  from assms(2,3) obtain i j where ij: "key_source_of sha e = Some i" "key_source_of sha e' = Some j"
    "key_text i = key_text j"
    by (auto simp: idempotency_key_source raise_def split: option.splits)
  have "\<forall>s d. i = By_payload s d \<longrightarrow> CHR '':'' \<notin> set d" "\<forall>s d. j = By_payload s d \<longrightarrow> CHR '':'' \<notin> set d"
    using ij(1,2) assms(1) by (auto simp: key_source_of_def split: option.splits list.splits if_splits)
  with ij show ?thesis using key_text_inject [OF ij(3)] by simp
qed

lemma idempotency_key_separates_witness:
  "key_source_of (\<lambda>bs. ''00'') (sample_envelope ''a'' 7 [1]) = Some (By_sequence ''ORDERS'' 7)
    \<and> key_source_of (\<lambda>bs. ''00'') (sample_envelope ''a'' 7 [1]) = key_source_of (\<lambda>bs. ''00'') (sample_envelope ''b'' 7 [2])"
proof -
  have "idempotency_key (\<lambda>bs. ''00'') (sample_envelope ''a'' 7 [1]) = Inr ''stream-sequence:ORDERS:7''"
    "idempotency_key (\<lambda>bs. ''00'') (sample_envelope ''b'' 7 [2]) = Inr ''stream-sequence:ORDERS:7''"
    by code_simp+
  from idempotency_key_separates [OF _ this] show ?thesis
    by (simp add: key_source_of_def sample_envelope_def)
qed

end
