(* ===== verification/Actions.thy ===== *)
theory Actions
  imports Envelope
begin

text \<open>
  Effects of the runtime as actions on a trace.  Every call that leaves the program (a sink write,
  a publish, an acknowledgement, a metric update) appends one event with its outcome; the outcome
  is chosen by the environment, which may look at the whole trace.  An action returns a value or
  the exception it raised, together with the extended trace.

  Metric recorders may raise: the JSON file recorder of \<open>core/metrics.py\<close> writes a file on every
  update.
\<close>

datatype metric_call = Increment string int | Observe string rat | Set_value string rat

datatype event =
    Metric metric_call "exn option"
  | Sink_write "nats_envelope list" "exn option"
  | Publish string bytes headers "exn option"
  | Ack pyval "exn option"
  | Ack_sync pyval rat "exn option"
  | Term pyval "exn option"
  | Nak pyval "rat option" "exn option"
  | In_progress pyval "exn option"

type_synonym trace = "event list"
type_synonym 'a act = "trace \<Rightarrow> 'a res \<times> trace"

text \<open>
  The environment: outcomes of the calls, the clock (the i-th reading since the last event), timers, the jitter draw, fresh
  nonces (the i-th of a batch).  The progress heartbeat runs beside a sink write; how the two
  interleave is the environment's choice: \<open>en_heartbeats\<close> rounds of the heartbeat come due and
  finish before the write returns, \<open>en_late_heartbeats\<close> calls of one more round are still to be
  made when it returns, and \<open>en_heartbeat_cut\<close> of these are made before the shutdown timeout
  cancels the task (\<open>None\<close>: it finishes in time).
\<close>

record env =
  en_metric :: "trace \<Rightarrow> metric_call \<Rightarrow> exn option"
  en_write :: "trace \<Rightarrow> nats_envelope list \<Rightarrow> exn option"
  en_publish :: "trace \<Rightarrow> string \<Rightarrow> bytes \<Rightarrow> headers \<Rightarrow> exn option"
  en_ack :: "trace \<Rightarrow> pyval \<Rightarrow> exn option"
  en_ack_sync :: "trace \<Rightarrow> pyval \<Rightarrow> exn option"
  en_term :: "trace \<Rightarrow> pyval \<Rightarrow> exn option"
  en_nak :: "trace \<Rightarrow> pyval \<Rightarrow> exn option"
  en_in_progress :: "trace \<Rightarrow> pyval \<Rightarrow> exn option"
  en_now :: "trace \<Rightarrow> nat \<Rightarrow> datetime"
  en_elapsed :: "trace \<Rightarrow> rat"
  en_jitter :: "trace \<Rightarrow> pyfloat"
  en_nonce :: "trace \<Rightarrow> nat \<Rightarrow> bytes"
  en_heartbeats :: "trace \<Rightarrow> nat"
  en_late_heartbeats :: "trace \<Rightarrow> nat"
  en_heartbeat_cut :: "trace \<Rightarrow> nat option"

section \<open>Combinators\<close>

definition ret :: "'a \<Rightarrow> 'a act" where
  "ret x t = (Inr x, t)"

definition throw :: "exn \<Rightarrow> 'a act" where
  "throw e t = (Inl e, t)"

definition bind_act :: "'a act \<Rightarrow> ('a \<Rightarrow> 'b act) \<Rightarrow> 'b act" where
  "bind_act m f t = (case m t of (Inl e, t') \<Rightarrow> (Inl e, t') | (Inr x, t') \<Rightarrow> f x t')"

definition then_act :: "'a act \<Rightarrow> 'b act \<Rightarrow> 'b act" where
  "then_act m n = bind_act m (\<lambda>_. n)"

text \<open>\<open>try\<close> with handlers: the handler sees the exception and may raise it again.\<close>

definition catch :: "'a act \<Rightarrow> (exn \<Rightarrow> 'a act) \<Rightarrow> 'a act" where
  "catch m h t = (case m t of (Inl e, t') \<Rightarrow> h e t' | (Inr x, t') \<Rightarrow> (Inr x, t'))"

text \<open>The outcome of an action as a value, for code that looks at it later.\<close>

definition attempt_act :: "'a act \<Rightarrow> 'a res act" where
  "attempt_act m t = (case m t of (r, t') \<Rightarrow> (Inr r, t'))"

text \<open>\<open>except Exception\<close>: \<open>BaseException\<close>s such as a cancellation pass through.\<close>

definition catch_exception :: "'a act \<Rightarrow> (exn \<Rightarrow> 'a act) \<Rightarrow> 'a act" where
  "catch_exception m h = catch m (\<lambda>e. if isinstance e PyException then h e else throw e)"

definition lift_res :: "'a res \<Rightarrow> 'a act" where
  "lift_res r t = (r, t)"

text \<open>One external call: its outcome is recorded, and raised if it is an exception.\<close>

definition perform :: "(trace \<Rightarrow> exn option) \<Rightarrow> (exn option \<Rightarrow> event) \<Rightarrow> unit act" where
  "perform out ev t = (case out t of None \<Rightarrow> (Inr (), t @ [ev None]) | Some e \<Rightarrow> (Inl e, t @ [ev (Some e)]))"

text \<open>A reading of the environment that makes no call.\<close>

definition read_env :: "(trace \<Rightarrow> 'a) \<Rightarrow> ('a \<Rightarrow> 'b act) \<Rightarrow> 'b act" where
  "read_env g f t = f (g t) t"

primrec for_each :: "('a \<Rightarrow> unit act) \<Rightarrow> 'a list \<Rightarrow> unit act" where
  "for_each f [] = ret ()"
| "for_each f (x # xs) = then_act (f x) (for_each f xs)"

section \<open>Metric updates\<close>

text \<open>\<open>LEGACY_METRIC_ALIASES\<close>.\<close>

definition legacy_aliases :: "string \<Rightarrow> string list" where
  "legacy_aliases name =
     (if name = ''messages_prepared_total'' then [''messages_received_total'']
      else if name = ''sink_batches_written_total'' then [''batches_written_total'']
      else if name = ''sink_batch_write_seconds'' then [''batch_write_seconds'']
      else if name = ''last_sink_success_epoch_seconds'' then [''last_success_timestamp'']
      else if name = ''current_batch_messages'' then [''current_batch_size'']
      else [])"

definition metric :: "env \<Rightarrow> metric_call \<Rightarrow> unit act" where
  "metric E c = perform (\<lambda>t. en_metric E t c) (Metric c)"

definition increment_metric :: "env \<Rightarrow> string \<Rightarrow> nat \<Rightarrow> unit act" where
  "increment_metric E name n =
     then_act (metric E (Increment name (int n)))
       (for_each (\<lambda>alias. metric E (Increment alias (int n))) (legacy_aliases name))"

definition observe_metric :: "env \<Rightarrow> string \<Rightarrow> rat \<Rightarrow> unit act" where
  "observe_metric E name x =
     then_act (metric E (Observe name x)) (for_each (\<lambda>alias. metric E (Observe alias x)) (legacy_aliases name))"

definition set_metric_value :: "env \<Rightarrow> string \<Rightarrow> rat \<Rightarrow> unit act" where
  "set_metric_value E name x =
     then_act (metric E (Set_value name x)) (for_each (\<lambda>alias. metric E (Set_value alias x)) (legacy_aliases name))"

text \<open>An observation of the time elapsed since a start point.\<close>

definition observe_elapsed :: "env \<Rightarrow> string \<Rightarrow> unit act" where
  "observe_elapsed E name = read_env (en_elapsed E) (observe_metric E name)"

section \<open>Reasoning about actions\<close>

text \<open>
  \<open>hoare P m Q R\<close>: started on a trace with \<open>P\<close>, a value \<open>x\<close> is returned with \<open>Q x\<close> on the final
  trace, and an exception leaves a trace with \<open>R\<close>.
\<close>

definition hoare :: "(trace \<Rightarrow> bool) \<Rightarrow> 'a act \<Rightarrow> ('a \<Rightarrow> trace \<Rightarrow> bool) \<Rightarrow> (exn \<Rightarrow> trace \<Rightarrow> bool) \<Rightarrow> bool" where
  "hoare P m Q R \<longleftrightarrow> (\<forall>t. P t \<longrightarrow> (case m t of (Inr x, t') \<Rightarrow> Q x t' | (Inl e, t') \<Rightarrow> R e t'))"

named_theorems hoare_rules \<open>one rule per combinator\<close>

lemma hoareI:
  "(\<And>t x t'. P t \<Longrightarrow> m t = (Inr x, t') \<Longrightarrow> Q x t') \<Longrightarrow> (\<And>t e t'. P t \<Longrightarrow> m t = (Inl e, t') \<Longrightarrow> R e t') \<Longrightarrow> hoare P m Q R"
  by (auto simp: hoare_def split: prod.splits sum.splits)

lemma hoareD:
  assumes "hoare P m Q R" "P t"
  shows "m t = (Inr x, t') \<Longrightarrow> Q x t'" "m t = (Inl e, t') \<Longrightarrow> R e t'"
  using assms by (force simp: hoare_def)+

lemma hoare_ret [hoare_rules]: "(\<And>t. P t \<Longrightarrow> Q x t) \<Longrightarrow> hoare P (ret x) Q R"
  by (simp add: hoare_def ret_def)

lemma hoare_throw [hoare_rules]: "(\<And>t. P t \<Longrightarrow> R e t) \<Longrightarrow> hoare P (throw e) Q R"
  by (simp add: hoare_def throw_def)

lemma hoare_lift_res: 
  "(\<And>t x. P t \<Longrightarrow> r = Inr x \<Longrightarrow> Q x t) \<Longrightarrow> (\<And>t e. P t \<Longrightarrow> r = Inl e \<Longrightarrow> R e t) \<Longrightarrow> hoare P (lift_res r) Q R"
  by (auto simp: hoare_def lift_res_def split: sum.splits)

lemma hoare_bind [hoare_rules]:
  assumes "hoare P m M R" "\<And>x. hoare (M x) (f x) Q R"
  shows "hoare P (bind_act m f) Q R"
  using assms unfolding hoare_def bind_act_def
  by (fastforce split: prod.splits sum.splits)

lemma hoare_then [hoare_rules]:
  assumes "hoare P m (\<lambda>_. M) R" "hoare M n Q R"
  shows "hoare P (then_act m n) Q R"
  unfolding then_act_def using assms by (rule hoare_bind)

lemma hoare_catch:
  assumes "hoare P m Q H" "\<And>e. hoare (H e) (h e) Q R"
  shows "hoare P (catch m h) Q R"
  using assms unfolding hoare_def catch_def
  by (fastforce split: prod.splits sum.splits)

lemma hoare_catch_exception:
  assumes "hoare P m Q H" "\<And>e. hoare (H e) (h e) Q R" "\<And>e t. H e t \<Longrightarrow> R e t"
  shows "hoare P (catch_exception m h) Q R"
  unfolding catch_exception_def
  using assms by (intro hoare_catch [where H = H]) (auto intro!: hoare_throw)

lemma hoare_weaken:
  assumes "hoare P m Q R" "\<And>t. P' t \<Longrightarrow> P t" "\<And>x t. Q x t \<Longrightarrow> Q' x t" "\<And>e t. R e t \<Longrightarrow> R' e t"
  shows "hoare P' m Q' R'"
  using assms by (intro hoareI) (blast dest: hoareD)+

lemma hoare_perform:
  assumes "\<And>t. P t \<Longrightarrow> Q () (t @ [ev None])" "\<And>t e. P t \<Longrightarrow> R e (t @ [ev (Some e)])"
  shows "hoare P (perform out ev) Q R"
  using assms by (auto simp: hoare_def perform_def split: option.splits)

lemma hoare_for_each:
  assumes "\<And>x. x \<in> set xs \<Longrightarrow> hoare I (f x) (\<lambda>_. I) R"
  shows "hoare I (for_each f xs) (\<lambda>_. I) R"
  using assms by (induction xs) (auto intro!: hoare_ret hoare_then)

text \<open>An invariant that holds however the action ends.\<close>

definition keeps :: "(trace \<Rightarrow> bool) \<Rightarrow> 'a act \<Rightarrow> bool" where
  "keeps I m \<longleftrightarrow> hoare I m (\<lambda>_. I) (\<lambda>_. I)"

named_theorems keeps_rules \<open>invariants through the combinators\<close>

lemma keeps_iff: "keeps I m \<longleftrightarrow> (\<forall>t. I t \<longrightarrow> I (snd (m t)))"
proof -
  have "(case p of (Inr x, t') \<Rightarrow> I t' | (Inl e, t') \<Rightarrow> I t') = I (snd p)" for p :: "'a res \<times> trace"
    by (cases p; cases "fst p") auto
  then show ?thesis by (simp add: keeps_def hoare_def)
qed

lemma keeps_ret [keeps_rules, simp]: "keeps I (ret x)"
  by (simp add: keeps_iff ret_def)

lemma keeps_throw [keeps_rules, simp]: "keeps I (throw e)"
  by (simp add: keeps_iff throw_def)

lemma keeps_lift_res [keeps_rules, simp]: "keeps I (lift_res r)"
  by (simp add: keeps_iff lift_res_def)

lemma keeps_bind [keeps_rules]: "keeps I m \<Longrightarrow> (\<And>x. keeps I (f x)) \<Longrightarrow> keeps I (bind_act m f)"
  unfolding keeps_def by (rule hoare_bind)

lemma keeps_then [keeps_rules]: "keeps I m \<Longrightarrow> keeps I n \<Longrightarrow> keeps I (then_act m n)"
  unfolding keeps_def by (rule hoare_then)

lemma keeps_catch [keeps_rules]: "keeps I m \<Longrightarrow> (\<And>e. keeps I (h e)) \<Longrightarrow> keeps I (catch m h)"
  unfolding keeps_def by (rule hoare_catch)

lemma keeps_catch_exception [keeps_rules]:
  "keeps I m \<Longrightarrow> (\<And>e. keeps I (h e)) \<Longrightarrow> keeps I (catch_exception m h)"
  unfolding catch_exception_def by (intro keeps_catch) auto

lemma keeps_attempt [keeps_rules]: "keeps I m \<Longrightarrow> keeps I (attempt_act m)"
  by (auto simp: keeps_iff attempt_act_def split: prod.splits)

lemma keeps_read_env [keeps_rules]: "(\<And>x. keeps I (f x)) \<Longrightarrow> keeps I (read_env g f)"
  by (simp add: keeps_iff read_env_def)

lemma hoare_read_env [hoare_rules]: "(\<And>x. hoare P (f x) Q R) \<Longrightarrow> hoare P (read_env g f) Q R"
  by (simp add: hoare_def read_env_def)

lemma keeps_perform: "(\<And>t o'. I t \<Longrightarrow> I (t @ [ev o'])) \<Longrightarrow> keeps I (perform out ev)"
  unfolding keeps_def by (rule hoare_perform)

lemma keeps_for_each [keeps_rules]: "(\<And>x. x \<in> set xs \<Longrightarrow> keeps I (f x)) \<Longrightarrow> keeps I (for_each f xs)"
  unfolding keeps_def by (rule hoare_for_each)

lemma keeps_if [keeps_rules]: "(b \<Longrightarrow> keeps I m) \<Longrightarrow> (\<not> b \<Longrightarrow> keeps I n) \<Longrightarrow> keeps I (if b then m else n)"
  by simp

text \<open>Metric updates only add metric events.\<close>

definition metric_closed :: "(trace \<Rightarrow> bool) \<Rightarrow> bool" where
  "metric_closed I \<longleftrightarrow> (\<forall>t c o'. I t \<longrightarrow> I (t @ [Metric c o']))"

lemma keeps_metric: "metric_closed I \<Longrightarrow> keeps I (metric E c)"
  unfolding metric_def by (rule keeps_perform) (simp add: metric_closed_def)

lemma keeps_metrics [keeps_rules]:
  assumes "metric_closed I"
  shows "keeps I (increment_metric E name n)" "keeps I (observe_metric E name x)"
    "keeps I (set_metric_value E name x)" "keeps I (observe_elapsed E name)"
proof -
  have "keeps I (observe_metric E name x)" for x
    unfolding observe_metric_def by (intro keeps_rules keeps_metric assms)
  then show "keeps I (observe_metric E name x)" "keeps I (observe_elapsed E name)"
    by (simp_all add: keeps_iff observe_elapsed_def read_env_def)
qed (unfold increment_metric_def set_metric_value_def, (intro keeps_rules keeps_metric assms)+)

lemma hoare_keeps: "keeps I m \<Longrightarrow> hoare I m (\<lambda>_. I) (\<lambda>_. I)"
  by (simp add: keeps_def)

end
