(* ===== verification/JsonText.thy ===== *)
theory JsonText
  imports JsonValues
begin

text \<open>
  Facts about the canonical JSON text: string escaping, UTF-8 encoding and the rendering of a flat
  object are unambiguous, so equal bytes come from equal values.  The hashing and signing
  components use them.
\<close>

definition prefix_free :: "('a \<Rightarrow> 'b list) \<Rightarrow> bool" where
  "prefix_free f \<longleftrightarrow> (\<forall>a b u v. f a @ u = f b @ v \<longrightarrow> a = b \<and> u = v)"

lemma prefix_freeI:
  assumes "\<And>a u. d (f a @ u) = Some (a, u)"
  shows "prefix_free f"
  unfolding prefix_free_def
proof (intro allI impI)
  fix a b u v assume "f a @ u = f b @ v"
  then have "d (f a @ u) = d (f b @ v)" by simp
  then show "a = b \<and> u = v" by (simp add: assms)
qed

lemma prefix_free_concat:
  assumes "prefix_free f" "\<And>a. f a \<noteq> []"
  shows "concat (map f s) = concat (map f t) \<Longrightarrow> s = t"
proof (induction s arbitrary: t)
  case Nil
  then show ?case using assms(2) by (cases t) auto
next
  case (Cons a s)
  then obtain b t' where t: "t = b # t'" using assms(2) by (cases t) auto
  with Cons.prems have "f a @ concat (map f s) = f b @ concat (map f t')" by simp
  with assms(1) have "a = b" "concat (map f s) = concat (map f t')" by (auto simp: prefix_free_def)
  with Cons.IH t show ?case by simp
qed

lemma prefix_free_terminated:
  assumes "prefix_free f" "\<And>a. f a \<noteq> [] \<and> hd (f a) \<noteq> q"
  shows "concat (map f s) @ q # x = concat (map f t) @ q # y \<Longrightarrow> s = t \<and> x = y"
proof (induction s arbitrary: t)
  case Nil
  then show ?case using assms(2) by (cases t) (auto, metis append_is_Nil_conv hd_append2 list.sel(1))
next
  case (Cons a s)
  then obtain b t' where t: "t = b # t'"
    using assms(2) [of a] by (cases t) (auto, metis append_is_Nil_conv hd_append2 list.sel(1))
  with Cons.prems have "f a @ (concat (map f s) @ q # x) = f b @ (concat (map f t') @ q # y)" by simp
  with assms(1) have "a = b" "concat (map f s) @ q # x = concat (map f t') @ q # y"
    unfolding prefix_free_def by blast+
  with Cons.IH t show ?case by simp
qed

section \<open>UTF-8\<close>

definition utf8_read :: "bytes \<Rightarrow> (char \<times> bytes) option" where
  "utf8_read bs =
     (case bs of
        [] \<Rightarrow> None
      | a # rest \<Rightarrow>
          if unat a < 128 then Some (char_of (unat a), rest)
          else (case rest of [] \<Rightarrow> None
            | b # rest' \<Rightarrow> Some (char_of ((unat a - 192) * 64 + (unat b - 128)), rest')))"

lemma unat_byte: "n < 256 \<Longrightarrow> unat (of_nat n :: byte) = n"
  by (simp add: unat_of_nat)

lemma utf8_read_encode: "utf8_read (utf8_encode_char c @ u) = Some (c, u)"
proof -
  have n: "of_char c < (256::nat)" by simp
  have "of_char c div 64 < (4::nat)" using n by linarith
  moreover have "of_char c mod 64 < (64::nat)" by simp
  ultimately have two: "unat (of_nat (192 + of_char c div 64) :: byte) = 192 + of_char c div 64"
    "unat (of_nat (128 + of_char c mod 64) :: byte) = 128 + of_char c mod 64"
    by (intro unat_byte; linarith)+
  show ?thesis
    using n two by (simp add: utf8_encode_char_def utf8_read_def Let_def unat_byte div_mult_mod_eq)
qed

lemma utf8_encode_char_nonempty: "utf8_encode_char c \<noteq> []"
  by (simp add: utf8_encode_char_def Let_def)

lemma utf8_encode_inject [simp]: "utf8_encode s = utf8_encode t \<longleftrightarrow> s = t"
proof -
  have "prefix_free utf8_encode_char" using utf8_read_encode by (rule prefix_freeI)
  then show ?thesis
    unfolding utf8_encode_def
    by (auto dest!: prefix_free_concat [rotated 2] simp: utf8_encode_char_nonempty)
qed

section \<open>Strings\<close>

definition hex_value :: "char \<Rightarrow> nat" where
  "hex_value c = (let n = of_char c :: nat in if n < 58 then n - 48 else n - 87)"

lemma hex_value_digit: "n < 16 \<Longrightarrow> hex_value (hex_digit n) = n"
  by (simp add: hex_value_def hex_digit_def)

definition unescape :: "string \<Rightarrow> (char \<times> string) option" where
  "unescape s =
     (case s of
        [] \<Rightarrow> None
      | c # rest \<Rightarrow>
          if of_char c \<noteq> (92::nat) then Some (c, rest)
          else (case rest of
              [] \<Rightarrow> None
            | e # rest' \<Rightarrow>
                if e = CHR ''n'' then Some (char_of (10::nat), rest')
                else if e = CHR ''r'' then Some (char_of (13::nat), rest')
                else if e = CHR ''t'' then Some (char_of (9::nat), rest')
                else if e = CHR ''f'' then Some (char_of (12::nat), rest')
                else if e = CHR ''b'' then Some (char_of (8::nat), rest')
                else if e = CHR ''u''
                then Some (char_of (16 * hex_value (rest' ! 2) + hex_value (rest' ! 3)), drop 4 rest')
                else Some (e, rest')))"

lemma quote_chars: "char_of (34::nat) = CHR 0x22" "char_of (92::nat) = CHR 0x5C"
  by code_simp+

lemma unescape_escape: "unescape (escape_char c @ u) = Some (c, u)"
proof -
  define n where "n = (of_char c :: nat)"
  have c: "c = char_of n" by (simp add: n_def)
  have less: "n < 256" unfolding n_def by simp
  have n: "of_char c = n" by (simp add: n_def)
  consider "n = 34" | "n = 92" | "n = 10" | "n = 13" | "n = 9" | "n = 12" | "n = 8"
    | "n \<notin> {34, 92, 10, 13, 9, 12, 8}" "n < 32" | "n \<notin> {34, 92, 10, 13, 9, 12, 8}" "32 \<le> n"
    by force
  then show ?thesis
  proof cases
    case 8
    have "n div 16 < 16" "n mod 16 < 16" using less by auto
    then have "char_of (16 * hex_value (hex_digit (n div 16)) + hex_value (hex_digit (n mod 16))) = c"
      by (simp add: hex_value_digit c)
    with 8 show ?thesis
      by (simp add: escape_char_def unescape_def n Let_def)
  next
    case 9
    then show ?thesis by (simp add: escape_char_def unescape_def n Let_def)
  qed (simp_all add: escape_char_def unescape_def n Let_def c quote_chars)
qed

lemma prefix_free_escape: "prefix_free escape_char"
  using unescape_escape by (rule prefix_freeI)

lemma escape_char_hd: "escape_char c \<noteq> [] \<and> hd (escape_char c) \<noteq> char_of (34::nat)"
proof (cases "of_char c = (34::nat)")
  case True
  then show ?thesis by (simp add: escape_char_def Let_def)
next
  case False
  then have "c \<noteq> char_of (34::nat)" by auto
  then show ?thesis by (auto simp: escape_char_def Let_def)
qed

lemma json_string_prefix: "json_string s @ x = json_string t @ y \<Longrightarrow> s = t \<and> x = y"
  using prefix_free_terminated [OF prefix_free_escape escape_char_hd, of s x t y]
  by (simp add: json_string_def)

section \<open>Scalars and flat objects\<close>

text \<open>The texts of \<open>null\<close>, booleans, integers and strings.\<close>

fun scalar :: "pyval \<Rightarrow> bool" where
  "scalar PNone = True"
| "scalar (PBool b) = True"
| "scalar (PInt i) = True"
| "scalar (PStr s) = True"
| "scalar v = False"

definition scalar_text :: "pyval \<Rightarrow> string" where
  "scalar_text v = (case v of
       PBool b \<Rightarrow> (if b then ''true'' else ''false'')
     | PInt i \<Rightarrow> render_int i
     | PStr s \<Rightarrow> json_string s
     | _ \<Rightarrow> ''null'')"

lemma json_render_scalar: "scalar v \<Longrightarrow> json_render json_string ft v = Inr (scalar_text v)"
  by (cases v) (auto simp: scalar_text_def)

definition int_char :: "char \<Rightarrow> bool" where
  "int_char c \<longleftrightarrow> (let n = of_char c :: nat in n = 45 \<or> (48 \<le> n \<and> n \<le> 57))"

lemma render_int_chars: "c \<in> set (render_int i) \<Longrightarrow> int_char c"
  by (auto simp: render_int_def int_char_def digit_char_def split: if_splits dest!: render_nat_digits)

lemma render_int_nonempty [simp]: "render_int i \<noteq> []"
  by (simp add: render_int_def)

lemma render_int_prefix:
  assumes "render_int i @ x = render_int j @ y" "x = [] \<or> \<not> int_char (hd x)" "y = [] \<or> \<not> int_char (hd y)"
  shows "i = j \<and> x = y"
proof -
  have "takeWhile int_char (render_int k @ z) = render_int k" if "z = [] \<or> \<not> int_char (hd z)" for k z
    using that render_int_chars [of _ k] by (cases z) (auto simp: takeWhile_append2)
  with assms have "render_int i = render_int j" by metis
  with assms(1) show ?thesis by simp
qed

definition closes :: "string \<Rightarrow> bool" where
  "closes x \<longleftrightarrow> x \<noteq> [] \<and> (hd x = CHR '','' \<or> hd x = CHR ''}'')"

fun scalar_kind :: "pyval \<Rightarrow> nat" where
  "scalar_kind (PBool b) = (if b then 1 else 2)"
| "scalar_kind (PInt i) = 3"
| "scalar_kind (PStr s) = 4"
| "scalar_kind v = 0"

lemma scalar_text_hd:
  "scalar_text v \<noteq> []"
  "hd (scalar_text v) = (case v of PBool b \<Rightarrow> (if b then CHR ''t'' else CHR ''f'')
     | PInt i \<Rightarrow> hd (render_int i) | PStr s \<Rightarrow> char_of (34::nat) | _ \<Rightarrow> CHR ''n'')"
  by (auto simp: scalar_text_def json_string_def split: pyval.splits)

lemma hd_render_int: "int_char (hd (render_int i))"
  using render_int_chars [of "hd (render_int i)" i] by simp

lemma scalar_text_prefix:
  assumes "scalar v" "scalar w" "scalar_text v @ x = scalar_text w @ y" "closes x" "closes y"
  shows "v = w \<and> x = y"
proof -
  have nc: "\<not> int_char (hd x)" "\<not> int_char (hd y)"
    using assms(4,5) by (auto simp: closes_def int_char_def)
  have hd: "hd (scalar_text v) = hd (scalar_text w)"
    using assms(3) scalar_text_hd(1) by (metis hd_append2)
  have heads: "hd (render_int i) \<noteq> CHR ''n''" "hd (render_int i) \<noteq> CHR ''t''" "hd (render_int i) \<noteq> CHR ''f''"
    "hd (render_int i) \<noteq> CHR 0x22" for i
    using hd_render_int [of i] by (auto simp: int_char_def)
  have kind: "scalar_kind v = scalar_kind w"
    using hd assms(1,2) heads heads [symmetric]
    by (cases v; cases w) (auto simp: scalar_text_hd quote_chars split: if_splits)
  show ?thesis
  proof (cases v)
    case (PInt i)
    with kind assms(1,2) obtain j where w: "w = PInt j" by (cases w) (auto split: if_splits)
    have "i = j \<and> x = y"
      using assms(3) nc by (intro render_int_prefix) (simp_all add: PInt w scalar_text_def)
    then show ?thesis by (simp add: PInt w)
  next
    case (PStr s)
    with kind assms(1,2) obtain u where w: "w = PStr u" by (cases w) (auto split: if_splits)
    have "s = u \<and> x = y"
      using assms(3) by (intro json_string_prefix) (simp add: PStr w scalar_text_def)
    then show ?thesis by (simp add: PStr w)
  next
    case (PBool b)
    with kind assms(1-3) show ?thesis by (cases w) (auto simp: scalar_text_def split: if_splits)
  qed (use kind assms in \<open>cases w; auto simp: scalar_text_def split: if_splits\<close>)+
qed

text \<open>The members of an object, in order: equal texts over the same keys have equal values.\<close>

definition member_text :: "string \<times> string \<Rightarrow> string" where
  "member_text = (\<lambda>(k, t). json_string k @ '':'' @ t)"

lemma members_inject:
  assumes "map fst ps = map fst qs" "\<forall>(k, v)\<in>set ps. scalar v" "\<forall>(k, v)\<in>set qs. scalar v"
    "join_with '','' (map (\<lambda>(k, v). member_text (k, scalar_text v)) ps) @ ''}''
      = join_with '','' (map (\<lambda>(k, v). member_text (k, scalar_text v)) qs) @ ''}''"
  shows "ps = qs"
  using assms
proof (induction ps arbitrary: qs)
  case (Cons p ps)
  obtain k v where p: "p = (k, v)" by (cases p)
  from Cons.prems(1) p obtain w qs' where qs: "qs = (k, w) # qs'" and fst: "map fst ps = map fst qs'"
    by (cases qs) auto
  let ?tail = "\<lambda>rs. (if rs = [] then [] else CHR '','' # join_with '','' (map (\<lambda>(k, v). member_text (k, scalar_text v)) rs))
    @ ''}''"
  have tail: "join_with '','' (map (\<lambda>(k, v). member_text (k, scalar_text v)) (r # rs)) @ ''}''
      = (case r of (k, v) \<Rightarrow> json_string k @ '':'' @ scalar_text v) @ ?tail rs" for r rs
    by (cases rs) (auto simp: member_text_def)
  have "closes (?tail rs)" for rs by (simp add: closes_def)
  moreover have "scalar_text v @ ?tail ps = scalar_text w @ ?tail qs'"
    using Cons.prems(4) by (simp only: p qs tail prod.case append_assoc same_append_eq)
  ultimately have vw: "v = w" "?tail ps = ?tail qs'"
    using scalar_text_prefix [of v w "?tail ps" "?tail qs'"] Cons.prems(2,3) by (auto simp: p qs)
  then have "join_with '','' (map (\<lambda>(k, v). member_text (k, scalar_text v)) ps) @ ''}''
      = join_with '','' (map (\<lambda>(k, v). member_text (k, scalar_text v)) qs') @ ''}''"
    using fst by (auto split: if_splits)
  with Cons.IH [OF fst] Cons.prems(2,3) vw(1) show ?case by (simp add: p qs)
qed simp

section \<open>ASCII\<close>

definition ascii_text :: "string \<Rightarrow> bool" where
  "ascii_text s \<longleftrightarrow> list_all (\<lambda>c. of_char c < (128::nat)) s"

lemma ascii_text_append [simp]: "ascii_text (s @ t) \<longleftrightarrow> ascii_text s \<and> ascii_text t"
  by (simp add: ascii_text_def)

lemma ascii_text_simps [simp]:
  "ascii_text []" "ascii_text (c # s) \<longleftrightarrow> of_char c < (128::nat) \<and> ascii_text s"
  by (simp_all add: ascii_text_def)

lemma hex_digit_ascii: "n < 16 \<Longrightarrow> of_char (hex_digit n) < (128::nat)"
  by (simp add: hex_digit_def)

lemma ascii_escape: "ascii_text (escape_char_ascii c)"
proof -
  have "(of_char c :: nat) div 16 < 16" using nat_of_char_less_256 [of c] by linarith
  then show ?thesis
    by (auto simp: ascii_text_def escape_char_ascii_def escape_char_def hex_digit_ascii Let_def)
qed

lemma ascii_json_string: "ascii_text (json_string_ascii s)"
proof -
  have "ascii_text (concat (map escape_char_ascii s))"
    using ascii_escape by (induction s) (auto simp: ascii_text_def)
  then show ?thesis by (simp add: json_string_ascii_def)
qed

lemma ascii_render_int: "ascii_text (render_int i)"
  by (auto simp: ascii_text_def list_all_iff int_char_def Let_def dest!: render_int_chars)

lemma utf8_decode_ascii: "ascii_text s \<Longrightarrow> map (\<lambda>b. char_of (unat b)) (utf8_encode s) = s"
  by (induction s) (simp_all add: ascii_text_def utf8_encode_def utf8_encode_char_def unat_byte)

section \<open>Totality\<close>

text \<open>Values with text keys and finite floats always render.\<close>

fun renderable :: "pyval \<Rightarrow> bool" where
  "renderable (PDict kvs) \<longleftrightarrow> list_all (\<lambda>(k, v). is_str k \<and> renderable v) kvs"
| "renderable (PList xs) \<longleftrightarrow> list_all renderable xs"
| "renderable (PTuple xs) \<longleftrightarrow> list_all renderable xs"
| "renderable (PFloat f) \<longleftrightarrow> (\<exists>q. f = FFin q)"
| "renderable v \<longleftrightarrow> scalar v"

lemma renderable_text: "renderable v \<Longrightarrow> \<exists>t. json_render q ft v = Inr t"
proof (induction v)
  case (PDict kvs)
  have "\<exists>ps. rmapM (\<lambda>(k, v). rbind (text_key k) (\<lambda>k'. rmap (Pair k') (json_render q ft v))) kvs = Inr ps"
    by (rule rmapM_ex) (use PDict in \<open>fastforce simp: list_all_iff is_str_iff text_key_def\<close>)
  then show ?case by auto
next
  case (PList xs)
  then have "\<exists>ts. rmapM (json_render q ft) xs = Inr ts" by (intro rmapM_ex) (auto simp: list_all_iff)
  then show ?case by auto
next
  case (PTuple xs)
  then have "\<exists>ts. rmapM (json_render q ft) xs = Inr ts" by (intro rmapM_ex) (auto simp: list_all_iff)
  then show ?case by auto
qed auto

end
