(* ===== verification/Metadata.thy ===== *)
theory Metadata
  imports Actions JsonText
begin

text \<open>
  The standard metadata snapshot (\<open>core/metadata.py\<close>) and the freshness observations
  (\<open>core/freshness.py\<close>).  Seconds computed by float division are exact rationals here.
\<close>

section \<open>Timestamps\<close>

text \<open>The wall clocks a \<open>datetime\<close> can hold, in microseconds since 1970: years 1 to 9999.\<close>

definition datetime_min_us :: int where "datetime_min_us = -62135596800000000"
definition datetime_max_us :: int where "datetime_max_us = 253402300799999999"

definition overflow_error :: exn where
  "overflow_error = Exn (Subclass ''OverflowError'' (Subclass ''ArithmeticError'' PyException)) ''date value out of range''"

text \<open>
  \<open>value.astimezone(UTC)\<close> of an aware value; \<open>value.replace(tzinfo=UTC)\<close> of a naive one.  Both give
  the wall clock in UTC; the shift raises \<open>OverflowError\<close> outside the supported years.
\<close>

definition in_utc :: "datetime \<Rightarrow> int res" where
  "in_utc d =
     (case d of
        Naive wall \<Rightarrow> Inr wall
      | Aware wall offset \<Rightarrow>
          (let utc = wall - offset in
           if utc < datetime_min_us \<or> datetime_max_us < utc then Inl overflow_error else Inr utc))"

text \<open>
  \<open>delta.days\<close>, \<open>delta.seconds\<close> and \<open>delta.microseconds\<close> of the distance to the epoch, recombined.
\<close>

definition datetime_to_epoch_ns :: "datetime option \<Rightarrow> int option res" where
  "datetime_to_epoch_ns value =
     (case value of
        None \<Rightarrow> Inr None
      | Some d \<Rightarrow>
          rmap (\<lambda>delta.
              let days = delta div 86400000000;
                  seconds = (delta mod 86400000000) div 1000000;
                  microseconds = delta mod 1000000
              in Some ((days * 86400 + seconds) * 1000000000 + microseconds * 1000))
            (in_utc d))"

definition replace_z :: "string \<Rightarrow> string" where
  "replace_z s = concat (map (\<lambda>c. if c = CHR ''Z'' then ''+00:00'' else [c]) s)"

definition parse_rfc3339_to_epoch_ns :: "pylib \<Rightarrow> string option \<Rightarrow> int option res" where
  "parse_rfc3339_to_epoch_ns L value =
     (case value of
        None \<Rightarrow> Inr None
      | Some text \<Rightarrow>
          if text = [] then Inr None
          else (case l_fromisoformat L (replace_z text) of
              None \<Rightarrow> Inr None
            | Some d \<Rightarrow> datetime_to_epoch_ns (Some d)))"

section \<open>Headers\<close>

definition NATS_RESERVED_HEADER_NAMES :: "string list" where
  "NATS_RESERVED_HEADER_NAMES =
     [''Nats-Msg-Id'', ''Nats-Expected-Stream'', ''Nats-Expected-Last-Msg-Id'',
      ''Nats-Expected-Last-Sequence'', ''Nats-Expected-Last-Subject-Sequence'',
      ''Nats-Expected-Last-Subject-Sequence-Subject'', ''Nats-Rollup'', ''Nats-TTL'', ''Nats-Stream'',
      ''Nats-Subject'', ''Nats-Sequence'', ''Nats-Last-Sequence'', ''Nats-Time-Stamp'',
      ''Nats-Num-Pending'', ''Nats-UpTo-Sequence'', ''Nats-Stream-Source'', ''Nats-Trace-Dest'',
      ''Nats-Trace-Only'', ''Nats-Trace-Hop'', ''Nats-Trace-Origin-Account'', ''Nats-Schedule'',
      ''Nats-Schedule-TTL'', ''Nats-Schedule-Target'', ''Nats-Schedule-Time-Zone'']"

definition NON_NATS_STANDARD_HEADER_NAMES :: "string list" where
  "NON_NATS_STANDARD_HEADER_NAMES = [''traceparent'', ''Accept-Encoding'']"

fun case_insensitive_lookup :: "headers \<Rightarrow> string \<Rightarrow> string option" where
  "case_insensitive_lookup [] name = None"
| "case_insensitive_lookup ((key, value) # hs) name =
     (if lower key = lower name then Some value else case_insensitive_lookup hs name)"

fun named_headers :: "headers \<Rightarrow> headers \<Rightarrow> string list \<Rightarrow> headers" where
  "named_headers hs standard [] = standard"
| "named_headers hs standard (name # names) =
     (case case_insensitive_lookup hs name of
        None \<Rightarrow> named_headers hs standard names
      | Some value \<Rightarrow> named_headers hs (AList.update name value standard) names)"

fun prefixed_headers :: "headers \<Rightarrow> headers \<Rightarrow> headers" where
  "prefixed_headers standard [] = standard"
| "prefixed_headers standard ((key, value) # hs) =
     (if startswith (lower key) ''nats-'' \<and> key \<notin> fst ` set standard
      then prefixed_headers (AList.update key value standard) hs
      else prefixed_headers standard hs)"

definition standard_headers :: "headers \<Rightarrow> headers" where
  "standard_headers hs =
     prefixed_headers (named_headers hs [] (NATS_RESERVED_HEADER_NAMES @ NON_NATS_STANDARD_HEADER_NAMES)) hs"

section \<open>Creation time\<close>

datatype created_source = Nats_time_stamp | Jetstream_timestamp | Source_missing

record created_timestamp =
  ct_epoch_ns :: "int option"
  ct_source :: created_source
  ct_raw_header :: "string option"
  ct_malformed_header :: bool

primrec source_text :: "created_source \<Rightarrow> string" where
  "source_text Nats_time_stamp = ''nats_time_stamp''"
| "source_text Jetstream_timestamp = ''jetstream_timestamp''"
| "source_text Source_missing = ''missing''"

definition resolve_message_created_timestamp :: "pylib \<Rightarrow> nats_envelope \<Rightarrow> created_timestamp res" where
  "resolve_message_created_timestamp L e =
     (case case_insensitive_lookup (env_headers e) ''Nats-Time-Stamp'' of
        Some raw \<Rightarrow>
          rbind (parse_rfc3339_to_epoch_ns L (Some raw)) (\<lambda>header_ns.
            case header_ns of
              Some ns \<Rightarrow> Inr \<lparr>ct_epoch_ns = Some ns, ct_source = Nats_time_stamp, ct_raw_header = Some raw,
                  ct_malformed_header = False\<rparr>
            | None \<Rightarrow>
                rmap (\<lambda>fallback. \<lparr>ct_epoch_ns = fallback,
                    ct_source = (if fallback \<noteq> None then Jetstream_timestamp else Source_missing),
                    ct_raw_header = Some raw, ct_malformed_header = True\<rparr>)
                  (datetime_to_epoch_ns (env_timestamp e)))
      | None \<Rightarrow>
          rmap (\<lambda>fallback. \<lparr>ct_epoch_ns = fallback,
              ct_source = (if fallback \<noteq> None then Jetstream_timestamp else Source_missing),
              ct_raw_header = None, ct_malformed_header = False\<rparr>)
            (datetime_to_epoch_ns (env_timestamp e)))"

definition age_seconds :: "int option \<Rightarrow> int option \<Rightarrow> rat option" where
  "age_seconds later earlier =
     (case (later, earlier) of
        (Some l, Some e) \<Rightarrow> Some (max 0 (rat_of_int (l - e) / 1000000000))
      | _ \<Rightarrow> None)"

definition future_skew_seconds :: "int option \<Rightarrow> int option \<Rightarrow> rat option" where
  "future_skew_seconds created observed =
     (case (created, observed) of
        (Some c, Some ob) \<Rightarrow> Some (max 0 (rat_of_int (c - ob) / 1000000000))
      | _ \<Rightarrow> None)"

section \<open>The snapshot\<close>

definition opt_float :: "rat option \<Rightarrow> pyval" where
  "opt_float x = (case x of None \<Rightarrow> PNone | Some q \<Rightarrow> PFloat (FFin q))"

definition str_dict :: "headers \<Rightarrow> pyval" where
  "str_dict hs = PDict (header_items hs)"

abbreviation K :: "string \<Rightarrow> pyval \<Rightarrow> pyval \<times> pyval" where
  "K k v \<equiv> (PStr k, v)"

definition payload_section :: "nats_envelope \<Rightarrow> pyval" where
  "payload_section e =
     PDict [K ''present'' (PBool (env_payload_present e)),
       K ''omitted'' (PBool (env_payload_omitted e)),
       K ''omitted_reason'' (opt_str (env_payload_omitted_reason e)),
       K ''original_size_bytes'' (opt_int (env_original_payload_size_bytes e)),
       K ''delivered_size_bytes'' (PInt (int (length (env_data e)))),
       K ''nats_msg_size_header'' (opt_str (case_insensitive_lookup (env_headers e) ''Nats-Msg-Size'')),
       K ''nats_msg_size_header_malformed'' (PBool (env_payload_size_header_malformed e))]"

definition jetstream_section :: "pylib \<Rightarrow> nats_envelope \<Rightarrow> int option \<Rightarrow> pyval" where
  "jetstream_section L e timestamp_ns =
     PDict [K ''stream'' (opt_str (env_stream e)),
       K ''consumer'' (opt_str (env_consumer e)),
       K ''domain'' (opt_str (env_domain e)),
       K ''stream_sequence'' (opt_int (env_stream_sequence e)),
       K ''consumer_sequence'' (opt_int (env_consumer_sequence e)),
       K ''redelivered'' (opt_bool (env_redelivered e)),
       K ''pending'' (opt_int (env_pending e)),
       K ''timestamp'' (opt_str (map_option (l_isoformat L) (env_timestamp e))),
       K ''timestamp_epoch_ns'' (opt_int timestamp_ns)]"

definition freshness_section :: "created_timestamp \<Rightarrow> int option \<Rightarrow> int option \<Rightarrow> pyval" where
  "freshness_section ct received_ns stored_ns =
     PDict [K ''event_age_at_receive_seconds'' (opt_float (age_seconds received_ns (ct_epoch_ns ct))),
       K ''event_age_at_store_seconds'' (opt_float (age_seconds stored_ns (ct_epoch_ns ct))),
       K ''source_clock_skew_seconds'' (opt_float (future_skew_seconds (ct_epoch_ns ct) received_ns)),
       K ''message_created_at_source'' (PStr (source_text (ct_source ct))),
       K ''message_created_at_missing'' (PBool (ct_epoch_ns ct = None)),
       K ''message_created_at_header_malformed'' (PBool (ct_malformed_header ct))]"

definition build_nats_metadata_snapshot :: "pylib \<Rightarrow> nats_envelope \<Rightarrow> datetime \<Rightarrow> pyval res" where
  "build_nats_metadata_snapshot L e stored_at =
     rbind (resolve_message_created_timestamp L e) (\<lambda>ct.
     rbind (datetime_to_epoch_ns (Some (env_received_at e))) (\<lambda>received_ns.
     rbind (datetime_to_epoch_ns (Some stored_at)) (\<lambda>stored_ns.
     rbind (thaw_metadata (l_str L) (env_mission_metadata e)) (\<lambda>mission.
     rbind (thaw_metadata (l_str L) (env_security_labels e)) (\<lambda>security.
     rbind (datetime_to_epoch_ns (env_timestamp e)) (\<lambda>timestamp_ns.
       let reserved = standard_headers (env_headers e) in
       Inr (PDict
         [K ''metadata_version'' (PInt 1),
          K ''subject'' (PStr (env_subject e)),
          K ''reply'' (opt_str (env_reply e)),
          K ''message_id'' (opt_str (env_message_id e)),
          K ''message_metadata''
            (PDict [K ''priority'' (opt_str (env_priority e)),
              K ''classification'' (opt_str (env_classification e)),
              K ''labels'' (PList (map PStr (env_labels e)))]),
          K ''mission_metadata'' mission,
          K ''security_labels'' security,
          K ''headers'' (str_dict (env_headers e)),
          K ''payload'' (payload_section e),
          K ''nats''
            (PDict [K ''reserved_headers'' (str_dict reserved),
              K ''reserved_headers_present'' (PList (map PStr (sort (map fst reserved))))]),
          K ''jetstream'' (jetstream_section L e timestamp_ns),
          K ''timestamps''
            (PDict [K ''message_created_at_epoch_ns'' (opt_int (ct_epoch_ns ct)),
              K ''message_created_at_source'' (PStr (source_text (ct_source ct))),
              K ''message_created_at_header_malformed'' (PBool (ct_malformed_header ct)),
              K ''nats_time_stamp'' (opt_str (ct_raw_header ct)),
              K ''jetstream_timestamp_epoch_ns'' (opt_int timestamp_ns),
              K ''received_at'' (PStr (l_isoformat L (env_received_at e))),
              K ''received_at_epoch_ns'' (opt_int received_ns),
              K ''stored_at'' (PStr (l_isoformat L stored_at)),
              K ''stored_at_epoch_ns'' (opt_int stored_ns)]),
          K ''freshness'' (freshness_section ct received_ns stored_ns)])))))))"

section \<open>Freshness metrics\<close>

definition freshness_ages ::
  "env \<Rightarrow> rat option \<Rightarrow> int \<Rightarrow> int \<Rightarrow> int \<Rightarrow> unit act" where
  "freshness_ages E stale_after stored_ns received_ns created_ns =
     (let receive_age = max 0 (rat_of_int (received_ns - created_ns) / 1000000000);
          store_age = max 0 (rat_of_int (stored_ns - created_ns) / 1000000000)
      in then_act (observe_metric E ''event_age_at_receive_seconds'' receive_age)
        (then_act (observe_metric E ''event_age_at_store_seconds'' store_age)
        (case stale_after of
           None \<Rightarrow> ret ()
         | Some limit \<Rightarrow>
             then_act (if limit \<le> receive_age then increment_metric E ''events_stale_at_receive_total'' 1 else ret ())
               (if limit \<le> store_age then increment_metric E ''events_stale_at_store_total'' 1 else ret ()))))"

definition freshness_of_envelope ::
  "pylib \<Rightarrow> env \<Rightarrow> rat option \<Rightarrow> rat \<Rightarrow> int \<Rightarrow> nats_envelope \<Rightarrow> unit act" where
  "freshness_of_envelope L E stale_after tolerance stored_ns e =
     bind_act (lift_res (resolve_message_created_timestamp L e)) (\<lambda>created.
     bind_act (lift_res (datetime_to_epoch_ns (Some (env_received_at e)))) (\<lambda>received.
     then_act (if ct_malformed_header created
               then increment_metric E ''event_creation_timestamp_malformed_total'' 1 else ret ())
       (case (ct_epoch_ns created, received) of
          (Some created_ns, Some received_ns) \<Rightarrow>
            (let skew = max 0 (rat_of_int (created_ns - received_ns) / 1000000000) in
             then_act
               (if 0 < skew then then_act (observe_metric E ''event_source_clock_skew_seconds'' skew)
                  (if tolerance < skew then increment_metric E ''event_creation_timestamp_future_total'' 1 else ret ())
                else ret ())
               (freshness_ages E stale_after stored_ns received_ns created_ns))
        | _ \<Rightarrow> increment_metric E ''event_creation_timestamp_missing_total'' 1)))"

definition record_event_freshness_metrics ::
  "pylib \<Rightarrow> env \<Rightarrow> nats_envelope list \<Rightarrow> datetime \<Rightarrow> bool \<Rightarrow> rat option \<Rightarrow> rat \<Rightarrow> unit act" where
  "record_event_freshness_metrics L E envelopes stored_at enabled stale_after tolerance =
     (if \<not> enabled then ret ()
      else catch_exception
        (bind_act (lift_res (datetime_to_epoch_ns (Some stored_at))) (\<lambda>stored.
           case stored of
             None \<Rightarrow> ret ()
           | Some stored_ns \<Rightarrow>
               for_each (freshness_of_envelope L E stale_after tolerance stored_ns) envelopes))
        (\<lambda>_. ret ()))"

section \<open>Facts\<close>

lemma split_us: "((d div 86400000000) * 86400 + (d mod 86400000000) div 1000000) * 1000000000 + d mod 1000000 * 1000
  = d * (1000::int)"
proof -
  define q s m where "q = d div 86400000000" and "s = d mod 86400000000 div 1000000" and "m = d mod 1000000"
  have "d mod 86400000000 mod 1000000 = m"
    unfolding m_def by (rule mod_mod_cancel) simp
  then have "d mod 86400000000 = s * 1000000 + m"
    unfolding s_def by (metis div_mult_mod_eq)
  then have "d = q * 86400000000 + (s * 1000000 + m)"
    unfolding q_def by (metis div_mult_mod_eq)
  then have "(q * 86400 + s) * 1000000000 + m * 1000 = d * 1000" by simp
  then show ?thesis unfolding q_def s_def m_def .
qed

text \<open>A timestamp in nanoseconds is a thousand times its UTC microseconds, whatever its zone.\<close>

lemma datetime_to_epoch_ns_eq:
  "datetime_to_epoch_ns (Some d) = rmap (\<lambda>us. Some (us * 1000)) (in_utc d)"
  by (simp only: datetime_to_epoch_ns_def option.case Let_def split_us)

lemma in_utc_Inl: "in_utc d = Inl e \<Longrightarrow> e = overflow_error"
  by (auto simp: in_utc_def Let_def split: datetime.splits if_splits)

lemma datetime_to_epoch_ns_Inl: "datetime_to_epoch_ns v = Inl e \<Longrightarrow> e = overflow_error"
  by (cases v; cases "in_utc (the v)")
    (auto simp: datetime_to_epoch_ns_def dest: in_utc_Inl)

lemma keeps_freshness [keeps_rules]:
  assumes "metric_closed I"
  shows "keeps I (record_event_freshness_metrics L E es stored_at enabled stale tolerance)"
proof -
  have ages: "keeps I (freshness_ages E stale s r c)" for s r c
    unfolding freshness_ages_def Let_def
    by (auto intro!: keeps_rules assms split: option.splits)
  have one: "keeps I (freshness_of_envelope L E stale tolerance s e)" for s e
    unfolding freshness_of_envelope_def Let_def
    by (auto intro!: keeps_rules ages assms split: option.splits)
  show ?thesis
    unfolding record_event_freshness_metrics_def
    by (auto intro!: keeps_rules one split: option.splits)
qed

text \<open>Resolving a message's creation time.  A valid \<open>Nats-Time-Stamp\<close> header wins and is reported
  as the source; a malformed one is flagged and the JetStream timestamp used instead; with neither
  the time is missing.  The nanoseconds are those of the instant, whatever zone it was written in.
  The only possible error is an overflow of the year range.\<close>

theorem created_timestamp_resolution:
  "case resolve_message_created_timestamp L e of
     Inl err \<Rightarrow> err = overflow_error
   | Inr ct \<Rightarrow>
       ct_raw_header ct = case_insensitive_lookup (env_headers e) ''Nats-Time-Stamp''
       \<and> (ct_source ct = Source_missing) = (ct_epoch_ns ct = None)
       \<and> (case ct_source ct of
            Nats_time_stamp \<Rightarrow> \<not> ct_malformed_header ct \<and>
              (\<exists>raw d us. ct_raw_header ct = Some raw \<and> l_fromisoformat L (replace_z raw) = Some d
                 \<and> in_utc d = Inr us \<and> ct_epoch_ns ct = Some (us * 1000))
          | Jetstream_timestamp \<Rightarrow> ct_malformed_header ct = (ct_raw_header ct \<noteq> None) \<and>
              (\<exists>d us. env_timestamp e = Some d \<and> in_utc d = Inr us \<and> ct_epoch_ns ct = Some (us * 1000))
          | Source_missing \<Rightarrow> ct_malformed_header ct = (ct_raw_header ct \<noteq> None) \<and> env_timestamp e = None)"
proof -
  have none: "datetime_to_epoch_ns None = Inr None" by (simp add: datetime_to_epoch_ns_def)
  have jetstream: "rmap f (datetime_to_epoch_ns (env_timestamp e)) = Inl overflow_error
      \<or> (env_timestamp e = None \<and> rmap f (datetime_to_epoch_ns (env_timestamp e)) = Inr (f None))
      \<or> (\<exists>d us. env_timestamp e = Some d \<and> in_utc d = Inr us
           \<and> rmap f (datetime_to_epoch_ns (env_timestamp e)) = Inr (f (Some (us * 1000))))" for f :: "int option \<Rightarrow> created_timestamp"
    by (cases "env_timestamp e"; cases "in_utc (the (env_timestamp e))")
      (auto simp: none datetime_to_epoch_ns_eq dest: in_utc_Inl)
  show ?thesis
  proof (cases "case_insensitive_lookup (env_headers e) ''Nats-Time-Stamp''")
    case None
    with jetstream [of "\<lambda>fallback. \<lparr>ct_epoch_ns = fallback,
              ct_source = (if fallback \<noteq> None then Jetstream_timestamp else Source_missing),
              ct_raw_header = None, ct_malformed_header = False\<rparr>"]
    show ?thesis by (auto simp: resolve_message_created_timestamp_def)
  next
    case (Some raw)
    have "parse_rfc3339_to_epoch_ns L (Some raw) = Inl overflow_error
      \<or> parse_rfc3339_to_epoch_ns L (Some raw) = Inr None
      \<or> (\<exists>d us. l_fromisoformat L (replace_z raw) = Some d \<and> in_utc d = Inr us
          \<and> parse_rfc3339_to_epoch_ns L (Some raw) = Inr (Some (us * 1000)))"
      by (cases "raw = []"; cases "l_fromisoformat L (replace_z raw)";
          cases "in_utc (the (l_fromisoformat L (replace_z raw)))")
        (auto simp: parse_rfc3339_to_epoch_ns_def datetime_to_epoch_ns_eq dest: in_utc_Inl)
    then consider "parse_rfc3339_to_epoch_ns L (Some raw) = Inl overflow_error"
      | "parse_rfc3339_to_epoch_ns L (Some raw) = Inr None"
      | d us where "l_fromisoformat L (replace_z raw) = Some d" "in_utc d = Inr us"
          "parse_rfc3339_to_epoch_ns L (Some raw) = Inr (Some (us * 1000))"
      by blast
    then show ?thesis
    proof cases
      case 2
      with Some jetstream [of "\<lambda>fallback. \<lparr>ct_epoch_ns = fallback,
                    ct_source = (if fallback \<noteq> None then Jetstream_timestamp else Source_missing),
                    ct_raw_header = Some raw, ct_malformed_header = True\<rparr>"]
      show ?thesis by (auto simp: resolve_message_created_timestamp_def)
    qed (use Some in \<open>auto simp: resolve_message_created_timestamp_def\<close>)
  qed
qed

text \<open>A publisher can make every snapshot of a message fail.  A \<open>Nats-Time-Stamp\<close> header that
  parses, but whose UTC instant lies outside the years 1 to 9999, raises \<open>OverflowError\<close> from the
  metadata snapshot instead of being reported as malformed.\<close>

theorem timestamp_header_overflow:
  assumes "case_insensitive_lookup (env_headers e) ''Nats-Time-Stamp'' = Some raw" "raw \<noteq> []"
    and "l_fromisoformat L (replace_z raw) = Some (Aware wall offset)"
    and "wall - offset < datetime_min_us \<or> datetime_max_us < wall - offset"
  shows "build_nats_metadata_snapshot L e stored_at = Inl overflow_error"
  using assms
  by (simp add: build_nats_metadata_snapshot_def resolve_message_created_timestamp_def
      parse_rfc3339_to_epoch_ns_def datetime_to_epoch_ns_eq in_utc_def Let_def)

lemma timestamp_header_overflow_witness:
  "build_nats_metadata_snapshot
     (plain_lib\<lparr>l_fromisoformat := (\<lambda>text. if text = ''0001-01-01T00:00:00+01:00''
        then Some (Aware (-62135596800000000) 3600000000) else None)\<rparr>)
     ((sample_envelope ''a'' 1 [])\<lparr>env_headers := [(''Nats-Time-Stamp'', ''0001-01-01T00:00:00+01:00'')]\<rparr>)
     (Aware 0 0) = Inl overflow_error"
  by (rule timestamp_header_overflow [where raw = "''0001-01-01T00:00:00+01:00''"
        and wall = "-62135596800000000" and offset = 3600000000])
    (code_simp, simp, code_simp, code_simp)

lemma catch_all_total: "fst (catch_exception m (\<lambda>_. ret ()) t) = Inl e \<Longrightarrow> \<not> isinstance e PyException"
  by (auto simp: catch_exception_def catch_def ret_def throw_def split: prod.splits sum.splits if_splits)

lemma renderable_opts [simp]:
  "renderable (opt_str x)" "renderable (opt_int i)" "renderable (opt_bool b)" "renderable (opt_float r)"
  by (auto simp: opt_str_def opt_int_def opt_bool_def opt_float_def split: option.splits)

lemma renderable_str_dict [simp]: "renderable (str_dict hs)"
  by (auto simp: str_dict_def header_items_def list_all_iff)

end
