(* ===== verification/Dlq.thy ===== *)
theory Dlq
  imports Metadata
begin

text \<open>
  Dead-letter records (\<open>core/dlq.py\<close>): the JSON document published for a message that cannot be
  delivered.
\<close>

definition safe_idempotency_key :: "digest \<Rightarrow> nats_envelope \<Rightarrow> (string option \<times> string option) res" where
  "safe_idempotency_key sha e =
     (case idempotency_key sha e of
        Inr k \<Rightarrow> Inr (Some k, None)
      | Inl err \<Rightarrow> if isinstance err ValidationError then Inr (None, Some ''payload_omitted'') else Inl err)"

record dead_letter_options =
  dlo_include_payload :: bool
  dlo_include_headers :: bool
  dlo_include_error :: bool

text \<open>
  \<open>timestamp.astimezone(UTC).isoformat()\<close>: a naive time is taken in the host's zone, unlike in the
  metadata snapshot.
\<close>

definition dead_letter_timestamp :: "pylib \<Rightarrow> datetime \<Rightarrow> string res" where
  "dead_letter_timestamp L d =
     rmap (\<lambda>us. l_isoformat L (Aware us 0))
       (in_utc (case d of Naive wall \<Rightarrow> Aware wall (l_local_offset L) | Aware wall offset \<Rightarrow> Aware wall offset))"

definition dead_letter_payload_section :: "nats_envelope \<Rightarrow> pyval" where
  "dead_letter_payload_section e =
     PDict [K ''present'' (PBool (env_payload_present e)),
       K ''omitted'' (PBool (env_payload_omitted e)),
       K ''omitted_reason'' (opt_str (env_payload_omitted_reason e)),
       K ''original_size_bytes'' (opt_int (env_original_payload_size_bytes e)),
       K ''delivered_size_bytes'' (PInt (int (length (env_data e)))),
       K ''nats_msg_size_header'' (opt_str (casefold_header (env_headers e) ''nats-msg-size'')),
       K ''nats_msg_size_header_malformed'' (PBool (env_payload_size_header_malformed e))]"

definition dead_letter_payload_item :: "dead_letter_options \<Rightarrow> nats_envelope \<Rightarrow> (pyval \<times> pyval) list" where
  "dead_letter_payload_item c e =
     (if dlo_include_payload c \<and> env_payload_present e
      then [K ''payload_base64'' (PStr (b64encode (env_data e)))]
      else if dlo_include_payload c \<and> env_payload_omitted e
      then [K ''payload_unavailable_reason''
              (PStr (case env_payload_omitted_reason e of Some (r # rs) \<Rightarrow> r # rs | _ \<Rightarrow> ''payload_omitted''))]
      else [])"

definition dead_letter_body :: "pylib \<Rightarrow> nats_envelope \<Rightarrow> exn \<Rightarrow> dead_letter_options \<Rightarrow> pyval res" where
  "dead_letter_body L e err c =
     rbind (safe_idempotency_key (l_sha256 L) e) (\<lambda>(key, unavailable).
     rbind (case env_timestamp e of None \<Rightarrow> Inr [] | Some d \<Rightarrow> rmap (\<lambda>s. [K ''timestamp'' (PStr s)]) (dead_letter_timestamp L d))
       (\<lambda>timestamp.
     Inr (PDict
       ([K ''subject'' (PStr (env_subject e)),
         K ''stream'' (opt_str (env_stream e)),
         K ''consumer'' (opt_str (env_consumer e)),
         K ''stream_sequence'' (opt_int (env_stream_sequence e)),
         K ''consumer_sequence'' (opt_int (env_consumer_sequence e)),
         K ''message_id'' (opt_str (env_message_id e)),
         K ''priority'' (opt_str (env_priority e)),
         K ''classification'' (opt_str (env_classification e)),
         K ''labels'' (PList (map PStr (env_labels e))),
         K ''redelivered'' (opt_bool (env_redelivered e)),
         K ''pending'' (opt_int (env_pending e)),
         K ''idempotency_key'' (opt_str key),
         K ''idempotency_key_unavailable_reason'' (opt_str unavailable),
         K ''payload'' (dead_letter_payload_section e)]
        @ (if dlo_include_error c
           then [K ''error_type'' (PStr (class_name (exn_cls err))), K ''error'' (PStr (exn_msg err))] else [])
        @ timestamp
        @ (if dlo_include_headers c then [K ''headers'' (str_dict (env_headers e))] else [])
        @ dead_letter_payload_item c e))))"

definition build_dead_letter_payload ::
  "pylib \<Rightarrow> nats_envelope \<Rightarrow> exn \<Rightarrow> dead_letter_options \<Rightarrow> bytes res" where
  "build_dead_letter_payload L e err c =
     rmap utf8_encode (rbind (dead_letter_body L e err c) (json_dumps_ascii (l_float_text L)))"

section \<open>What a dead letter keeps\<close>

lemma safe_idempotency_key_total: "\<exists>k u. safe_idempotency_key sha e = Inr (k, u)"
  by (auto simp: safe_idempotency_key_def idempotency_key_source raise_def split: option.splits sum.splits)

lemma dead_letter_timestamp_Inl: "dead_letter_timestamp L d = Inl err \<Longrightarrow> err = overflow_error"
  by (cases "in_utc (case d of Naive wall \<Rightarrow> Aware wall (l_local_offset L) | Aware wall offset \<Rightarrow> Aware wall offset)")
    (auto simp: dead_letter_timestamp_def dest: in_utc_Inl)

lemma dead_letter_body_text:
  assumes "dead_letter_body L e err c = Inr body"
  shows "\<exists>s. json_dumps_ascii ft body = Inr s"
proof -
  have "renderable body"
    using assms unfolding dead_letter_body_def
    by (auto simp: dead_letter_payload_section_def dead_letter_payload_item_def list_all_iff rmap_Inr_iff
        split: prod.splits option.splits
        elim!: rbindE)
  then show ?thesis by (simp add: json_dumps_ascii_def renderable_text)
qed

text \<open>A dead letter is built for every message and loses no payload.  Building fails only when the
  message's timestamp cannot be moved to UTC; otherwise the published bytes are the canonical text
  of a document that names subject, stream and sequences of the message, and that carries the
  payload, recoverable by base64 decoding, exactly when payloads are included and one is present.\<close>

theorem dead_letter_faithful:
  "case build_dead_letter_payload L e err c of
     Inl x \<Rightarrow> x = overflow_error \<and> (\<exists>d. env_timestamp e = Some d \<and> dead_letter_timestamp L d = Inl overflow_error)
   | Inr bs \<Rightarrow> \<exists>body rendered. json_dumps_ascii (l_float_text L) body = Inr rendered \<and> bs = utf8_encode rendered
       \<and> py_get body ''subject'' = PStr (env_subject e) \<and> py_get body ''stream'' = opt_str (env_stream e)
       \<and> py_get body ''stream_sequence'' = opt_int (env_stream_sequence e)
       \<and> py_get body ''consumer_sequence'' = opt_int (env_consumer_sequence e)
       \<and> (if dlo_include_payload c \<and> env_payload_present e
          then \<exists>s. py_get body ''payload_base64'' = PStr s \<and> b64decode s = Some (env_data e)
          else py_get body ''payload_base64'' = PNone)"
proof -
  obtain k u where k: "safe_idempotency_key (l_sha256 L) e = Inr (k, u)" using safe_idempotency_key_total by blast
  consider d where "env_timestamp e = Some d" "dead_letter_timestamp L d = Inl overflow_error"
    | ts where "(case env_timestamp e of None \<Rightarrow> Inr [] | Some d \<Rightarrow> rmap (\<lambda>s. [K ''timestamp'' (PStr s)]) (dead_letter_timestamp L d)) = Inr ts"
      "ts = [] \<or> (\<exists>s. ts = [K ''timestamp'' (PStr s)])"
  proof (cases "env_timestamp e")
    case (Some d)
    with that dead_letter_timestamp_Inl [of L d] show thesis by (cases "dead_letter_timestamp L d") auto
  qed (use that in auto)
  then show ?thesis
  proof cases
    case (1 d)
    then show ?thesis by (simp add: build_dead_letter_payload_def dead_letter_body_def k)
  next
    case (2 ts)
    then obtain body where body: "dead_letter_body L e err c = Inr body" by (simp add: dead_letter_body_def k)
    obtain rendered where r: "json_dumps_ascii (l_float_text L) body = Inr rendered"
      using dead_letter_body_text [OF body] by blast
    have "py_get body ''subject'' = PStr (env_subject e)" "py_get body ''stream'' = opt_str (env_stream e)"
      "py_get body ''stream_sequence'' = opt_int (env_stream_sequence e)"
      "py_get body ''consumer_sequence'' = opt_int (env_consumer_sequence e)"
      using body 2 by (auto simp: dead_letter_body_def k py_get_def)
    moreover have "if dlo_include_payload c \<and> env_payload_present e
        then \<exists>s. py_get body ''payload_base64'' = PStr s \<and> b64decode s = Some (env_data e)
        else py_get body ''payload_base64'' = PNone"
      using body 2 by (auto simp: dead_letter_body_def k py_get_def dead_letter_payload_item_def b64_roundtrip
          map_add_def split: option.splits)
    moreover have "build_dead_letter_payload L e err c = Inr (utf8_encode rendered)"
      using body r by (simp add: build_dead_letter_payload_def)
    ultimately show ?thesis using r by (simp only: sum.case) blast
  qed
qed

end
