(* ===== verification/BatchStages.thy ===== *)
theory BatchStages
  imports Envelope
begin

text \<open>
  The interfaces the runner relies on between its stages.  A gate splits a batch into accepted and
  rejected positions; a transformer replaces every envelope by one with the same delivery
  coordinates; a stage may also reorder the batch.
\<close>

section \<open>Gates\<close>

text \<open>The result every gate returns; the three evaluation classes of the code have these fields.\<close>

record 'v evaluation =
  ev_accepted :: "nat list"
  ev_rejected :: "nat list"
  ev_violations :: "'v list"

definition has_rejections :: "'v evaluation \<Rightarrow> bool" where
  "has_rejections ev \<longleftrightarrow> ev_rejected ev \<noteq> []"

text \<open>
  The loop the gates share: position by position, a message without violations is accepted, the
  others are rejected.
\<close>

fun evaluate_from ::
  "(nat \<Rightarrow> nats_envelope \<Rightarrow> 'v list res) \<Rightarrow> nat \<Rightarrow> nats_envelope list \<Rightarrow> 'v evaluation res" where
  "evaluate_from f i [] = Inr \<lparr>ev_accepted = [], ev_rejected = [], ev_violations = []\<rparr>"
| "evaluate_from f i (e # es) =
     rbind (f i e) (\<lambda>vs.
       rmap (\<lambda>ev. if vs = [] then ev\<lparr>ev_accepted := i # ev_accepted ev\<rparr>
                  else ev\<lparr>ev_rejected := i # ev_rejected ev, ev_violations := vs @ ev_violations ev\<rparr>)
         (evaluate_from f (Suc i) es))"

definition accept_all :: "nats_envelope list \<Rightarrow> 'v evaluation" where
  "accept_all es = \<lparr>ev_accepted = [0..<length es], ev_rejected = [], ev_violations = []\<rparr>"

definition partition_of :: "nat \<Rightarrow> nat \<Rightarrow> 'v evaluation \<Rightarrow> bool" where
  "partition_of i n ev \<longleftrightarrow>
     sorted_wrt (<) (ev_accepted ev) \<and> sorted_wrt (<) (ev_rejected ev)
     \<and> set (ev_accepted ev) \<inter> set (ev_rejected ev) = {}
     \<and> set (ev_accepted ev) \<union> set (ev_rejected ev) = {i..<n}"

lemma partition_accept_all: "partition_of 0 (length es) (accept_all es)"
  by (auto simp: partition_of_def accept_all_def)

lemma partition_evaluate_from:
  "evaluate_from f i es = Inr ev \<Longrightarrow> partition_of i (i + length es) ev"
proof (induction es arbitrary: i ev)
  case Nil
  then show ?case by (auto simp: partition_of_def)
next
  case (Cons e es)
  then obtain vs ev' where f: "f i e = Inr vs" "evaluate_from f (Suc i) es = Inr ev'"
    and ev: "ev = (if vs = [] then ev'\<lparr>ev_accepted := i # ev_accepted ev'\<rparr>
      else ev'\<lparr>ev_rejected := i # ev_rejected ev', ev_violations := vs @ ev_violations ev'\<rparr>)"
    by (auto simp: rbind_Inr_iff rmap_Inr_iff)
  have part: "partition_of (Suc i) (Suc i + length es) ev'" using Cons.IH [OF f(2)] .
  have "{i..<i + length (e # es)} = insert i {Suc i..<Suc i + length es}" by auto
  moreover have "i < j" if "j \<in> set (ev_accepted ev') \<or> j \<in> set (ev_rejected ev')" for j
    using part that by (auto simp: partition_of_def set_eq_iff)
  ultimately show ?case
    using part unfolding ev partition_of_def by (auto simp: Un_commute)
qed

lemma evaluate_from_accepted:
  "evaluate_from f i es = Inr ev \<Longrightarrow> j \<in> set (ev_accepted ev) \<longleftrightarrow> (i \<le> j \<and> j < i + length es \<and> f j (es ! (j - i)) = Inr [])"
proof (induction es arbitrary: i ev)
  case (Cons e es)
  then obtain vs ev' where f: "f i e = Inr vs" "evaluate_from f (Suc i) es = Inr ev'"
    and ev: "ev = (if vs = [] then ev'\<lparr>ev_accepted := i # ev_accepted ev'\<rparr>
      else ev'\<lparr>ev_rejected := i # ev_rejected ev', ev_violations := vs @ ev_violations ev'\<rparr>)"
    by (auto simp: rbind_Inr_iff rmap_Inr_iff)
  have "j \<in> set (ev_accepted ev) \<longleftrightarrow> (j = i \<and> vs = []) \<or> j \<in> set (ev_accepted ev')"
    by (auto simp: ev)
  also have "\<dots> \<longleftrightarrow> (j = i \<and> vs = []) \<or>
      (Suc i \<le> j \<and> j < Suc i + length es \<and> f j (es ! (j - Suc i)) = Inr [])"
    using Cons.IH [OF f(2)] by simp
  also have "\<dots> \<longleftrightarrow> (i \<le> j \<and> j < i + length (e # es) \<and> f j ((e # es) ! (j - i)) = Inr [])"
    by (cases "j = i") (use f(1) in \<open>auto simp: nth_Cons' Suc_diff_Suc\<close>)
  finally show ?case .
qed simp

text \<open>Positions picked out of a list.\<close>

definition pick :: "'a list \<Rightarrow> nat list \<Rightarrow> 'a list" where
  "pick xs is = map ((!) xs) is"

locale batch_gate =
  fixes evaluate :: "nats_envelope list \<Rightarrow> 'v evaluation res"
  assumes partition: "evaluate es = Inr ev \<Longrightarrow> partition_of 0 (length es) ev"
begin

lemma positions:
  assumes "evaluate es = Inr ev"
  shows "i \<in> set (ev_accepted ev) \<Longrightarrow> i < length es" "i \<in> set (ev_rejected ev) \<Longrightarrow> i < length es"
  using partition [OF assms] by (auto simp: partition_of_def set_eq_iff)

lemma distinct_positions:
  assumes "evaluate es = Inr ev"
  shows "distinct (ev_accepted ev @ ev_rejected ev)"
  using partition [OF assms] by (auto simp: partition_of_def strict_sorted_iff)

text \<open>No message is lost or duplicated by the split.\<close>

lemma split_mset:
  assumes "evaluate es = Inr ev" "length xs = length es"
  shows "mset (pick xs (ev_accepted ev) @ pick xs (ev_rejected ev)) = mset xs"
proof -
  have "mset (ev_accepted ev @ ev_rejected ev) = mset [0..<length xs]"
    using distinct_positions [OF assms(1)] partition [OF assms(1)] assms(2)
    by (subst set_eq_iff_mset_eq_distinct [symmetric]) (auto simp: partition_of_def)
  then have "mset (map ((!) xs) (ev_accepted ev @ ev_rejected ev)) = mset (map ((!) xs) [0..<length xs])"
    by (metis mset_map)
  then show ?thesis by (simp add: pick_def map_nth)
qed

text \<open>Two lists that belong together position by position stay together.\<close>

lemma pick_list_all2:
  assumes "evaluate es = Inr ev" "list_all2 P xs es" 
  shows "list_all2 P (pick xs (ev_accepted ev)) (pick es (ev_accepted ev))"
    "list_all2 P (pick xs (ev_rejected ev)) (pick es (ev_rejected ev))"
  using assms positions [OF assms(1)]
  by (auto simp: pick_def list_all2_conv_all_nth)

lemma no_rejection_keeps_all:
  assumes "evaluate es = Inr ev" "\<not> has_rejections ev"
  shows "ev_accepted ev = [0..<length es]"
proof -
  have "set (ev_accepted ev) = set [0..<length es]" "sorted (ev_accepted ev)" "distinct (ev_accepted ev)"
    using partition [OF assms(1)] assms(2) by (auto simp: partition_of_def has_rejections_def strict_sorted_iff)
  then show ?thesis by (simp add: sorted_distinct_set_unique)
qed

end

text \<open>Every gate built from the shared loop is a gate.\<close>

definition loop_gate :: "bool \<Rightarrow> (nats_envelope list \<Rightarrow> nat \<Rightarrow> nats_envelope \<Rightarrow> 'v list res)
    \<Rightarrow> nats_envelope list \<Rightarrow> 'v evaluation res" where
  "loop_gate enabled f es = (if \<not> enabled then Inr (accept_all es) else evaluate_from (f es) 0 es)"

lemma loop_gate_partition: "loop_gate enabled f es = Inr ev \<Longrightarrow> partition_of 0 (length es) ev"
  using partition_evaluate_from [of "f es" 0 es ev]
  by (auto simp: loop_gate_def partition_accept_all split: if_splits)

section \<open>Transformers and stages\<close>

locale batch_stage =
  fixes stage :: "nats_envelope list \<Rightarrow> nats_envelope list res"
  assumes stage_mset: "stage es = Inr es' \<Longrightarrow> mset (map delivery es') = mset (map delivery es)"
begin

lemma stage_length: "stage es = Inr es' \<Longrightarrow> length es' = length es"
  using stage_mset mset_eq_length by fastforce

lemma stage_covers: "stage es = Inr es' \<Longrightarrow> delivery ` set es' = delivery ` set es"
  using stage_mset [of es es'] by (metis list.set_map mset_eq_setD)

end

locale batch_transformer =
  fixes transform :: "nats_envelope list \<Rightarrow> nats_envelope list res"
  assumes keeps_delivery: "transform es = Inr es' \<Longrightarrow> map delivery es' = map delivery es"
begin

lemma positionwise: "transform es = Inr es' \<Longrightarrow> list_all2 (\<lambda>e e'. delivery e' = delivery e) es es'"
  using keeps_delivery [of es es'] by (auto simp: list_all2_conv_all_nth map_equality_iff)

lemma transfers:
  assumes "transform es = Inr es'" "list_all2 (\<lambda>r e. delivery e = d r) rs es"
  shows "list_all2 (\<lambda>r e. delivery e = d r) rs es'"
  using positionwise [OF assms(1)] assms(2) by (auto simp: list_all2_conv_all_nth)

end

sublocale batch_transformer \<subseteq> batch_stage transform
  using keeps_delivery by unfold_locales metis

text \<open>A transformer that works envelope by envelope.\<close>

lemma rmapM_keeps_delivery:
  assumes "\<And>e e'. f e = Inr e' \<Longrightarrow> delivery e' = delivery e" "rmapM f es = Inr es'"
  shows "map delivery es' = map delivery es"
proof -
  have "list_all2 (\<lambda>e e'. f e = Inr e') es es'" using assms(2) by (simp add: rmapM_Inr_iff)
  then show ?thesis by induction (simp_all add: assms(1))
qed

end
