(* ===== verification/Subjects.thy ===== *)
theory Subjects
  imports PyValues
begin

text \<open>
  NATS subject patterns (\<open>core/subjects.py\<close>): matching a concrete subject, validating a
  pattern, and the containment check used at configuration boundaries.  The index loops of the
  source walk two token lists in lockstep; they are recursions on the remaining tokens.
\<close>

definition SINGLE_TOKEN_WILDCARD :: string where
  "SINGLE_TOKEN_WILDCARD = [char_of (42::nat)]"

definition TAIL_WILDCARD :: string where
  "TAIL_WILDCARD = [char_of (62::nat)]"

lemma wildcards_differ [simp]:
  "SINGLE_TOKEN_WILDCARD \<noteq> TAIL_WILDCARD" "TAIL_WILDCARD \<noteq> SINGLE_TOKEN_WILDCARD"
  "SINGLE_TOKEN_WILDCARD \<noteq> []" "TAIL_WILDCARD \<noteq> []"
  by (simp_all add: SINGLE_TOKEN_WILDCARD_def TAIL_WILDCARD_def)

section \<open>Matching\<close>

fun match_tokens :: "string list \<Rightarrow> string list \<Rightarrow> bool" where
  "match_tokens [] ss = (ss = [])"
| "match_tokens (p # ps) ss =
     (if p = TAIL_WILDCARD then ps = [] \<and> ss \<noteq> []
      else (case ss of
              [] \<Rightarrow> False
            | s # ss' \<Rightarrow>
                if p \<noteq> SINGLE_TOKEN_WILDCARD \<and> p \<noteq> s then False else match_tokens ps ss'))"

definition matches_text :: "string \<Rightarrow> string \<Rightarrow> bool" where
  "matches_text pattern subject =
     match_tokens (split_on (CHR ''.'') pattern) (split_on (CHR ''.'') subject)"

definition matches_subject :: "pyval \<Rightarrow> pyval \<Rightarrow> bool" where
  "matches_subject pattern subject =
     (case (pattern, subject) of (PStr p, PStr s) \<Rightarrow> matches_text p s | _ \<Rightarrow> False)"

section \<open>Validation\<close>

abbreviation invalid_pattern :: "'a res" where
  "invalid_pattern \<equiv> raise ConfigurationError ''invalid NATS subject pattern''"

fun check_pattern_tokens :: "string list \<Rightarrow> unit res" where
  "check_pattern_tokens [] = Inr ()"
| "check_pattern_tokens (t # ts) =
     (if t = TAIL_WILDCARD \<and> ts \<noteq> []
      then raise ConfigurationError ''NATS '>' wildcard is only valid as the final token''
      else if CHR ''>'' \<in> set t \<and> t \<noteq> TAIL_WILDCARD then invalid_pattern
      else if CHR ''*'' \<in> set t \<and> t \<noteq> SINGLE_TOKEN_WILDCARD then invalid_pattern
      else if \<exists>c\<in>set t. is_py_space c then invalid_pattern
      else check_pattern_tokens ts)"

definition validate_subject_pattern :: "pyval \<Rightarrow> string res" where
  "validate_subject_pattern pattern =
     (case pattern of
        PStr p \<Rightarrow>
          if p = [] \<or> strip p \<noteq> p then invalid_pattern
          else (let tokens = split_on (CHR ''.'') p in
            if \<exists>t\<in>set tokens. t = [] then invalid_pattern
            else rbind (check_pattern_tokens tokens) (\<lambda>_. Inr p))
      | _ \<Rightarrow> invalid_pattern)"

section \<open>Containment\<close>

text \<open>
  The loop of \<open>subject_pattern_is_subset\<close>: \<open>break\<close> ends the recursion with the value of the
  final \<open>return\<close> expression at that point.
\<close>

fun subset_tokens :: "string list \<Rightarrow> string list \<Rightarrow> bool" where
  "subset_tokens [] as = (as = [])"
| "subset_tokens (c # cs) [] = False"
| "subset_tokens (c # cs) (a # as) =
     (if a = TAIL_WILDCARD then True
      else if c = TAIL_WILDCARD then a = TAIL_WILDCARD \<and> length cs = length as
      else if a = SINGLE_TOKEN_WILDCARD then subset_tokens cs as
      else if c = SINGLE_TOKEN_WILDCARD then False
      else if c \<noteq> a then False
      else subset_tokens cs as)"

definition subject_pattern_is_subset :: "pyval \<Rightarrow> pyval \<Rightarrow> bool" where
  "subject_pattern_is_subset candidate allowed =
     (case (validate_subject_pattern candidate, validate_subject_pattern allowed) of
        (Inr c, Inr a) \<Rightarrow>
          subset_tokens (split_on (CHR ''.'') c) (split_on (CHR ''.'') a)
      | _ \<Rightarrow> False)"

section \<open>What a valid pattern is\<close>

fun tokens_ok :: "string list \<Rightarrow> bool" where
  "tokens_ok [] = True"
| "tokens_ok (t # ts) =
     ((t = TAIL_WILDCARD \<longrightarrow> ts = []) \<and>
      (CHR ''>'' \<in> set t \<longrightarrow> t = TAIL_WILDCARD) \<and>
      (CHR ''*'' \<in> set t \<longrightarrow> t = SINGLE_TOKEN_WILDCARD) \<and> tokens_ok ts)"

lemma check_pattern_tokens_ok: "check_pattern_tokens ts = Inr () \<Longrightarrow> tokens_ok ts"
  by (induction ts) (auto simp: raise_def split: if_splits)

lemma validate_subject_pattern_cases:
  assumes "validate_subject_pattern v = Inr p"
  shows "v = PStr p" "tokens_ok (split_on (CHR ''.'') p)"
  using assms
  by (auto simp: validate_subject_pattern_def raise_def Let_def rbind_Inr_iff
      dest: check_pattern_tokens_ok split: pyval.splits if_splits)

lemma tail_final: "tokens_ok (TAIL_WILDCARD # ts) \<Longrightarrow> ts = []"
  by simp

section \<open>Containment is exact\<close>

lemma subset_tokens_sound:
  "subset_tokens cs as \<Longrightarrow> tokens_ok as \<Longrightarrow> match_tokens cs ss \<Longrightarrow> match_tokens as ss"
proof (induction cs as arbitrary: ss rule: subset_tokens.induct)
  case (3 c cs a as)
  show ?case
  proof (cases "a = TAIL_WILDCARD")
    case True
    with "3.prems" have "as = []" "ss \<noteq> []" by (auto split: if_splits list.splits)
    with True show ?thesis by simp
  next
    case False
    with "3.prems"(1) have c: "c \<noteq> TAIL_WILDCARD" by auto
    with "3.prems"(3) obtain s ss' where ss: "ss = s # ss'" "match_tokens cs ss'"
      and cs: "c \<noteq> SINGLE_TOKEN_WILDCARD \<longrightarrow> c = s"
      by (auto split: if_splits list.splits)
    from "3.prems"(1) False c have sub: "subset_tokens cs as"
      and a: "a = SINGLE_TOKEN_WILDCARD \<or> (c \<noteq> SINGLE_TOKEN_WILDCARD \<and> c = a)"
      by (simp_all split: if_splits)
    have "match_tokens as ss'"
      using "3.IH" False c sub a ss(2) "3.prems"(2) by fastforce
    with False a cs ss(1) show ?thesis by auto
  qed
qed auto

text \<open>A concrete token sequence matched by a pattern: wildcards become the token \<open>x\<close>.\<close>

definition instance_of :: "string list \<Rightarrow> string list" where
  "instance_of ps =
     map (\<lambda>p. if p = TAIL_WILDCARD \<or> p = SINGLE_TOKEN_WILDCARD then ''x'' else p) ps"

definition dot_free :: "string list \<Rightarrow> bool" where
  "dot_free ss \<longleftrightarrow> (\<forall>s\<in>set ss. CHR ''.'' \<notin> set s)"

lemma match_instance_of: "tokens_ok ps \<Longrightarrow> match_tokens ps (instance_of ps)"
  by (induction ps) (auto simp: instance_of_def)

lemma dot_free_instance_of: "dot_free ps \<Longrightarrow> dot_free (instance_of ps)"
  by (auto simp: instance_of_def dot_free_def)

lemma dot_free_Cons [simp]: "dot_free (s # ss) \<longleftrightarrow> CHR ''.'' \<notin> set s \<and> dot_free ss"
  by (auto simp: dot_free_def)

lemma dot_free_Nil [simp]: "dot_free []"
  by (simp add: dot_free_def)

lemma dot_free_append_x: "CHR ''.'' \<notin> set t \<Longrightarrow> CHR ''.'' \<notin> set (t @ ''x'')"
  by simp

lemma subset_tokens_complete:
  "\<not> subset_tokens cs as \<Longrightarrow> tokens_ok cs \<Longrightarrow> tokens_ok as \<Longrightarrow> dot_free cs \<Longrightarrow> dot_free as
   \<Longrightarrow> \<exists>ss. match_tokens cs ss \<and> \<not> match_tokens as ss \<and> dot_free ss"
proof (induction cs as rule: subset_tokens.induct)
  case (1 as)
  then show ?case by (intro exI [of _ "[]"]) (cases as, auto)
next
  case (2 c cs)
  have "instance_of (c # cs) \<noteq> []" by (simp add: instance_of_def)
  then have "\<not> match_tokens [] (instance_of (c # cs))" by simp
  with 2 show ?case
    by (blast intro: match_instance_of dot_free_instance_of)
next
  case (3 c cs a as)
  from "3.prems"(1) have a: "a \<noteq> TAIL_WILDCARD" by auto
  have inst: "match_tokens cs (instance_of cs)" "dot_free (instance_of cs)"
    using "3.prems"(2,4) by (auto intro: match_instance_of dot_free_instance_of)
  have free: "CHR ''.'' \<notin> set c" "CHR ''.'' \<notin> set a"
    using "3.prems"(4,5) by auto
  consider (tail) "c = TAIL_WILDCARD" | (step) "c \<noteq> TAIL_WILDCARD" "\<not> subset_tokens cs as"
      "a = SINGLE_TOKEN_WILDCARD \<or> (c \<noteq> SINGLE_TOKEN_WILDCARD \<and> c = a)"
    | (lit) "c \<noteq> TAIL_WILDCARD" "a \<noteq> SINGLE_TOKEN_WILDCARD" "c \<noteq> a"
    using "3.prems"(1) a by (metis subset_tokens.simps(3))
  then show ?case
  proof cases
    case tail
    with "3.prems"(2) have cs: "cs = []" by simp
    let ?one = "[a @ ''x'']" and ?two = "[a @ ''x'', ''x'']"
    have "match_tokens (c # cs) ?one" "match_tokens (c # cs) ?two" "dot_free ?one" "dot_free ?two"
      using tail cs free by auto
    moreover have "\<not> match_tokens (a # as) ?one \<or> \<not> match_tokens (a # as) ?two"
      using a by (cases as) auto
    ultimately show ?thesis by blast
  next
    case step
    have "\<exists>ss. match_tokens cs ss \<and> \<not> match_tokens as ss \<and> dot_free ss"
      using "3.IH" step a "3.prems"(2-5) by fastforce
    then obtain ss where ss: "match_tokens cs ss" "\<not> match_tokens as ss" "dot_free ss"
      by blast
    let ?s = "if c = SINGLE_TOKEN_WILDCARD then ''x'' else c"
    have "match_tokens (c # cs) (?s # ss)"
      using step(1) ss(1) by simp
    moreover have "\<not> match_tokens (a # as) (?s # ss)"
      using step(3) a ss(2) by auto
    moreover have "dot_free (?s # ss)"
      using free ss(3) by simp
    ultimately show ?thesis by blast
  next
    case lit
    let ?s = "if c = SINGLE_TOKEN_WILDCARD then a @ ''x'' else c"
    have "match_tokens (c # cs) (?s # instance_of cs)"
      using lit(1) inst(1) by simp
    moreover have "\<not> match_tokens (a # as) (?s # instance_of cs)"
      using lit(2,3) a by simp
    moreover have "dot_free (?s # instance_of cs)"
      using free inst(2) by simp
    ultimately show ?thesis by blast
  qed
qed

lemma dot_free_split: "dot_free (split_on (CHR ''.'') s)"
  by (auto simp: dot_free_def dest: split_on_no_sep)

lemma match_tokens_nonempty: "match_tokens ps ss \<Longrightarrow> ps \<noteq> [] \<Longrightarrow> ss \<noteq> []"
  by (cases ps) (auto split: if_splits list.splits)

lemma matches_text_join:
  "ss \<noteq> [] \<Longrightarrow> dot_free ss \<Longrightarrow>
   matches_text p (join_with ''.'' ss) = match_tokens (split_on (CHR ''.'') p) ss"
  by (simp add: matches_text_def split_join dot_free_def)

lemma subset_of_valid:
  assumes "validate_subject_pattern c = Inr p" "validate_subject_pattern a = Inr q"
  shows "subject_pattern_is_subset c a \<longleftrightarrow>
    subset_tokens (split_on (CHR ''.'') p) (split_on (CHR ''.'') q)"
  using assms by (simp add: subject_pattern_is_subset_def)

text \<open>C20: for two valid patterns, the containment check is exact.  It accepts a candidate filter
  exactly when every subject the candidate matches is matched by the allowed pattern, so no
  accepted filter widens a subscription and no contained filter is refused.\<close>

theorem subject_subset_exact:
  assumes "validate_subject_pattern c = Inr p" "validate_subject_pattern a = Inr q"
  shows "subject_pattern_is_subset c a \<longleftrightarrow>
    (\<forall>s. matches_subject c (PStr s) \<longrightarrow> matches_subject a (PStr s))"
proof -
  let ?p = "split_on (CHR ''.'') p" and ?q = "split_on (CHR ''.'') q"
  note vp = validate_subject_pattern_cases [OF assms(1)]
  note vq = validate_subject_pattern_cases [OF assms(2)]
  have m: "matches_subject c (PStr s) = matches_text p s"
    "matches_subject a (PStr s) = matches_text q s" for s
    by (simp_all add: vp(1) vq(1) matches_subject_def)
  have "\<exists>s. matches_text p s \<and> \<not> matches_text q s" if no: "\<not> subset_tokens ?p ?q"
  proof -
    obtain ss where ss: "match_tokens ?p ss" "\<not> match_tokens ?q ss" "dot_free ss"
      using subset_tokens_complete [OF no vp(2) vq(2) dot_free_split dot_free_split] by blast
    have "ss \<noteq> []" using match_tokens_nonempty [OF ss(1)] by simp
    with ss have "matches_text p (join_with ''.'' ss)" "\<not> matches_text q (join_with ''.'' ss)"
      by (simp_all add: matches_text_join)
    then show ?thesis by blast
  qed
  moreover have "matches_text q s" if "subset_tokens ?p ?q" "matches_text p s" for s
    using subset_tokens_sound [OF that(1) vq(2)] that(2) by (simp add: matches_text_def)
  ultimately show ?thesis
    unfolding subset_of_valid [OF assms] m by blast
qed

lemma subject_subset_exact_witness:
  "validate_subject_pattern (PStr ''orders.eu.*'') = Inr ''orders.eu.*''
   \<and> validate_subject_pattern (PStr ''orders.>'') = Inr ''orders.>''
   \<and> subject_pattern_is_subset (PStr ''orders.eu.*'') (PStr ''orders.>'')
   \<and> matches_subject (PStr ''orders.eu.*'') (PStr ''orders.eu.de'')
   \<and> matches_subject (PStr ''orders.>'') (PStr ''orders.eu.de'')"
proof -
  have v: "validate_subject_pattern (PStr ''orders.eu.*'') = Inr ''orders.eu.*''"
    "validate_subject_pattern (PStr ''orders.>'') = Inr ''orders.>''"
    by code_simp+
  have s: "subject_pattern_is_subset (PStr ''orders.eu.*'') (PStr ''orders.>'')"
    by code_simp
  have m: "matches_subject (PStr ''orders.eu.*'') (PStr ''orders.eu.de'')"
    by code_simp
  show ?thesis using v s m subject_subset_exact [OF v] by blast
qed

end
