(* ===== verification/MissionMetadata.thy ===== *)
theory MissionMetadata
  imports JsonValues MessageMetadata Subjects
begin

text \<open>
  Mission metadata (\<open>core/mission_metadata.py\<close>): validation of the JSON object with bounded
  depth, sizes, key syntax and key names, and its resolution from a header, a subject rule or
  the global default.
\<close>

definition MAX_MISSION_METADATA_DEPTH :: int where "MAX_MISSION_METADATA_DEPTH = 8"
definition MAX_MISSION_METADATA_OBJECT_FIELDS :: nat where "MAX_MISSION_METADATA_OBJECT_FIELDS = 128"
definition MAX_MISSION_METADATA_ARRAY_ITEMS :: nat where "MAX_MISSION_METADATA_ARRAY_ITEMS = 256"
definition MAX_MISSION_METADATA_KEY_LENGTH :: nat where "MAX_MISSION_METADATA_KEY_LENGTH = 128"
definition MAX_MISSION_METADATA_STRING_LENGTH :: nat where "MAX_MISSION_METADATA_STRING_LENGTH = 4096"
definition MAX_MISSION_METADATA_INTEGER_ABS :: int where
  "MAX_MISSION_METADATA_INTEGER_ABS = 9007199254740991"

definition MISSION_METADATA_SECRET_KEY_PARTS :: "string list" where
  "MISSION_METADATA_SECRET_KEY_PARTS =
     [''password'', ''passwd'', ''pwd'', ''token'', ''secret'', ''private_key'', ''credential'',
      ''api_key'', ''key_material'']"

section \<open>Keys and strings\<close>

definition is_alpha :: "char \<Rightarrow> bool" where
  "is_alpha c = (let n = of_char c :: nat in (65 \<le> n \<and> n \<le> 90) \<or> (97 \<le> n \<and> n \<le> 122))"

definition is_key_char :: "char \<Rightarrow> bool" where
  "is_key_char c = (let n = of_char c :: nat in
     is_alpha c \<or> (48 \<le> n \<and> n \<le> 57) \<or> c \<in> {CHR ''_'', CHR ''.'', CHR '':'', CHR ''-''})"

text \<open>\<open>^[A-Za-z][A-Za-z0-9_.:-]{0,127}$\<close> with \<open>fullmatch\<close>.\<close>

definition key_re_matches :: "string \<Rightarrow> bool" where
  "key_re_matches key \<longleftrightarrow>
     (case key of [] \<Rightarrow> False | c # cs \<Rightarrow> is_alpha c \<and> length cs \<le> 127 \<and> list_all is_key_char cs)"

fun contains_text :: "string \<Rightarrow> string \<Rightarrow> bool" where
  "contains_text part [] = (part = [])"
| "contains_text part (c # cs) = (startswith (c # cs) part \<or> contains_text part cs)"

definition validate_key :: "pyval \<Rightarrow> string res" where
  "validate_key key =
     (case key of
        PStr k \<Rightarrow>
          if k \<noteq> strip k then raise ValidationError ''contains a key with leading or trailing whitespace''
          else if k = [] then raise ValidationError ''contains an empty key''
          else if MAX_MISSION_METADATA_KEY_LENGTH < length k
            then raise ValidationError ''key exceeds the length limit''
          else if has_control_char k then raise ValidationError ''key contains control characters''
          else if \<not> key_re_matches k
            then raise ValidationError ''key must start with a letter and contain only safe characters''
          else if \<exists>part\<in>set MISSION_METADATA_SECRET_KEY_PARTS. contains_text part (lower k)
            then raise ValidationError ''key looks secret-like and is not allowed''
          else Inr k
      | _ \<Rightarrow> raise ValidationError ''contains a non-string key'')"

definition validate_string :: "string \<Rightarrow> string res" where
  "validate_string value =
     (if MAX_MISSION_METADATA_STRING_LENGTH < length value
      then raise ValidationError ''string value exceeds the length limit''
      else if has_control_char value then raise ValidationError ''string value contains control characters''
      else Inr value)"

section \<open>Values\<close>

fun validate_json_value :: "int \<Rightarrow> pyval \<Rightarrow> pyval res" where
  "validate_json_value depth (PDict kvs) =
     (if MAX_MISSION_METADATA_DEPTH < depth then raise ValidationError ''exceeds nesting depth''
      else if MAX_MISSION_METADATA_OBJECT_FIELDS < length kvs
        then raise ValidationError ''object exceeds the field limit''
      else rmap (\<lambda>ps. PDict (dict_of_pairs ps))
        (rmapM (\<lambda>(k, v). rbind (validate_key k) (\<lambda>k'. rmap (Pair (PStr k')) (validate_json_value (depth + 1) v))) kvs))"
| "validate_json_value depth (PProxy kvs) =
     (if MAX_MISSION_METADATA_DEPTH < depth then raise ValidationError ''exceeds nesting depth''
      else if MAX_MISSION_METADATA_OBJECT_FIELDS < length kvs
        then raise ValidationError ''object exceeds the field limit''
      else rmap (\<lambda>ps. PDict (dict_of_pairs ps))
        (rmapM (\<lambda>(k, v). rbind (validate_key k) (\<lambda>k'. rmap (Pair (PStr k')) (validate_json_value (depth + 1) v))) kvs))"
| "validate_json_value depth (PList xs) =
     (if MAX_MISSION_METADATA_DEPTH < depth then raise ValidationError ''exceeds nesting depth''
      else if MAX_MISSION_METADATA_ARRAY_ITEMS < length xs
        then raise ValidationError ''array exceeds the item limit''
      else rmap PList (rmapM (validate_json_value (depth + 1)) xs))"
| "validate_json_value depth (PTuple xs) =
     (if MAX_MISSION_METADATA_DEPTH < depth then raise ValidationError ''exceeds nesting depth''
      else if MAX_MISSION_METADATA_ARRAY_ITEMS < length xs
        then raise ValidationError ''array exceeds the item limit''
      else rmap PList (rmapM (validate_json_value (depth + 1)) xs))"
| "validate_json_value depth v =
     (if MAX_MISSION_METADATA_DEPTH < depth then raise ValidationError ''exceeds nesting depth''
      else (case v of
          PNone \<Rightarrow> Inr PNone
        | PBool b \<Rightarrow> Inr (PBool b)
        | PStr s \<Rightarrow> rmap PStr (validate_string s)
        | PInt i \<Rightarrow>
            if MAX_MISSION_METADATA_INTEGER_ABS < \<bar>i\<bar>
            then raise ValidationError ''integer value exceeds the limit'' else Inr (PInt i)
        | PFloat f \<Rightarrow>
            (case f of FFin q \<Rightarrow> Inr (PFloat (FFin q))
                     | _ \<Rightarrow> raise ValidationError ''float value must be finite'')
        | _ \<Rightarrow> raise ValidationError ''contains unsupported value type''))"

definition serialized_size :: "float_text \<Rightarrow> pyval \<Rightarrow> nat res" where
  "serialized_size ft value =
     (case json_dumps ft value of
        Inr text \<Rightarrow> Inr (utf8_len text)
      | Inl e \<Rightarrow>
          if isinstance e TypeError \<or> isinstance e ValueError
          then raise ValidationError ''mission metadata could not be serialized as JSON''
          else Inl e)"

definition normalize_mission_metadata_object ::
  "float_text \<Rightarrow> pyval \<Rightarrow> int \<Rightarrow> string list \<Rightarrow> pyval res" where
  "normalize_mission_metadata_object ft value max_bytes allowed_profiles =
     (if \<not> is_mapping value then raise ValidationError ''must be a JSON object''
      else rbind (validate_json_value 0 value) (\<lambda>normalized.
        if allowed_profiles \<noteq> []
             \<and> (case py_get normalized ''profile'' of PStr p \<Rightarrow> p \<notin> set allowed_profiles | _ \<Rightarrow> True)
        then raise ValidationError ''profile must be one of the configured values''
        else rbind (serialized_size ft normalized) (\<lambda>size.
          if max_bytes < int size then raise ValidationError ''exceeds the configured byte limit''
          else Inr normalized)))"

definition parse_mission_metadata_header ::
  "json_scan \<Rightarrow> float_text \<Rightarrow> string \<Rightarrow> int \<Rightarrow> string list \<Rightarrow> pyval res" where
  "parse_mission_metadata_header scan ft value max_bytes allowed_profiles =
     (if max_bytes < int (utf8_len value)
      then raise ValidationError ''mission metadata header exceeds the configured byte limit''
      else (case load_standard_json scan value of
          Inl e \<Rightarrow>
            if isinstance e ValueError then raise ValidationError ''mission metadata header is not valid JSON''
            else Inl e
        | Inr parsed \<Rightarrow> normalize_mission_metadata_object ft parsed max_bytes allowed_profiles))"

section \<open>Resolution\<close>

record mission_rule =
  mr_subject :: string
  mr_metadata :: pyval

record mission_config =
  mm_enabled :: bool
  mm_header :: string
  mm_default :: pyval
  mm_rules :: "mission_rule list"
  mm_max_bytes :: int
  mm_allowed_profiles :: "string list"

definition resolve_mission_metadata ::
  "render \<Rightarrow> json_scan \<Rightarrow> float_text \<Rightarrow> headers \<Rightarrow> string \<Rightarrow> mission_config \<Rightarrow> pyval res" where
  "resolve_mission_metadata st scan ft headers subject config =
     (if \<not> mm_enabled config then Inr PNone
      else (case case_insensitive_header headers (mm_header config) of
          Some value \<Rightarrow>
            if strip value = [] then Inr PNone
            else rbind (parse_mission_metadata_header scan ft value (mm_max_bytes config)
                   (mm_allowed_profiles config)) (freeze_metadata st)
        | None \<Rightarrow>
            (case find (\<lambda>rule. matches_subject (PStr (mr_subject rule)) (PStr subject)) (mm_rules config) of
               Some rule \<Rightarrow> freeze_metadata st (mr_metadata rule)
             | None \<Rightarrow> freeze_metadata st (mm_default config))))"

section \<open>What an accepted object looks like\<close>

definition key_ok :: "string \<Rightarrow> bool" where
  "key_ok k \<longleftrightarrow> validate_key (PStr k) = Inr k"

text \<open>The bounds an accepted value satisfies, by structure.\<close>

fun mission_ok :: "int \<Rightarrow> pyval \<Rightarrow> bool" where
  "mission_ok d (PDict kvs) \<longleftrightarrow> d \<le> 8 \<and> length kvs \<le> 128 \<and> distinct (map fst kvs)
     \<and> list_all (\<lambda>(k, v). (\<exists>s. k = PStr s \<and> key_ok s) \<and> mission_ok (d + 1) v) kvs"
| "mission_ok d (PList xs) \<longleftrightarrow> d \<le> 8 \<and> length xs \<le> 256 \<and> list_all (mission_ok (d + 1)) xs"
| "mission_ok d (PStr s) \<longleftrightarrow> d \<le> 8 \<and> length s \<le> 4096 \<and> \<not> has_control_char s"
| "mission_ok d (PInt i) \<longleftrightarrow> d \<le> 8 \<and> \<bar>i\<bar> \<le> 9007199254740991"
| "mission_ok d (PFloat f) \<longleftrightarrow> d \<le> 8 \<and> (\<exists>q. f = FFin q)"
| "mission_ok d PNone \<longleftrightarrow> d \<le> 8"
| "mission_ok d (PBool b) \<longleftrightarrow> d \<le> 8"
| "mission_ok d v \<longleftrightarrow> False"

lemmas mission_limits =
  MAX_MISSION_METADATA_DEPTH_def MAX_MISSION_METADATA_OBJECT_FIELDS_def
  MAX_MISSION_METADATA_ARRAY_ITEMS_def MAX_MISSION_METADATA_STRING_LENGTH_def
  MAX_MISSION_METADATA_INTEGER_ABS_def

lemma validate_key_Inr: "validate_key k = Inr s \<Longrightarrow> k = PStr s \<and> key_ok s"
  by (auto simp: key_ok_def validate_key_def raise_def split: pyval.splits if_splits)

lemma validate_string_Inr:
  "validate_string s = Inr t \<longleftrightarrow> t = s \<and> length s \<le> 4096 \<and> \<not> has_control_char s"
  by (auto simp: validate_string_def raise_def mission_limits)

lemma validated_pairs_ok:
  assumes "rmapM (\<lambda>(k, v). rbind (validate_key k) (\<lambda>k'. rmap (Pair (PStr k')) (f v))) kvs = Inr ps"
    and "\<And>k v w. (k, v) \<in> set kvs \<Longrightarrow> f v = Inr w \<Longrightarrow> P w"
  shows "length ps = length kvs \<and> (\<forall>(k, w)\<in>set ps. (\<exists>s. k = PStr s \<and> key_ok s) \<and> P w)"
  using assms
proof (induction kvs arbitrary: ps)
  case (Cons p kvs)
  obtain k v where p: "p = (k, v)" by (cases p)
  from Cons.prems(1) obtain s w qs where
    q: "validate_key k = Inr s" "f v = Inr w" "ps = (PStr s, w) # qs"
    and rest: "rmapM (\<lambda>(k, v). rbind (validate_key k) (\<lambda>k'. rmap (Pair (PStr k')) (f v))) kvs = Inr qs"
    by (auto simp: p rbind_Inr_iff rmap_Inr_iff)
  have "P w" using Cons.prems(2) [of k v w] q(2) p by simp
  moreover have "key_ok s" using validate_key_Inr [OF q(1)] by simp
  moreover have "length qs = length kvs \<and> (\<forall>(k, w)\<in>set qs. (\<exists>s. k = PStr s \<and> key_ok s) \<and> P w)"
    using rest by (rule Cons.IH) (metis Cons.prems(2) list.set_intros(2))
  ultimately show ?case using q(3) by auto
qed simp

lemma mission_ok_dictI:
  assumes "d \<le> 8" "length ps \<le> 128" "\<forall>(k, w)\<in>set ps. (\<exists>s. k = PStr s \<and> key_ok s) \<and> mission_ok (d + 1) w"
  shows "mission_ok d (PDict (dict_of_pairs ps))"
proof -
  have "length (dict_of_pairs ps) \<le> 128"
    using length_dict_of_pairs [of ps] assms(2) by linarith
  then show ?thesis
    using assms(1,3) set_dict_of_pairs [of ps] distinct_dict_of_pairs [of ps]
    by (auto simp: list_all_iff)
qed

lemma validated_mapping_ok:
  assumes "rmap (\<lambda>ps. PDict (dict_of_pairs ps))
      (rmapM (\<lambda>(k, v). rbind (validate_key k) (\<lambda>k'. rmap (Pair (PStr k')) (f v))) kvs) = Inr w"
    and "\<And>k v w. (k, v) \<in> set kvs \<Longrightarrow> f v = Inr w \<Longrightarrow> mission_ok (d + 1) w"
    and "d \<le> 8" "length kvs \<le> 128"
  shows "mission_ok d w"
proof -
  obtain ps where w: "w = PDict (dict_of_pairs ps)"
    and ps: "rmapM (\<lambda>(k, v). rbind (validate_key k) (\<lambda>k'. rmap (Pair (PStr k')) (f v))) kvs = Inr ps"
    using assms(1) by (auto simp: rmap_Inr_iff)
  have "length ps = length kvs \<and> (\<forall>(k, w)\<in>set ps. (\<exists>s. k = PStr s \<and> key_ok s) \<and> mission_ok (d + 1) w)"
    using ps assms(2) by (rule validated_pairs_ok)
  then show ?thesis unfolding w using assms(3,4) by (intro mission_ok_dictI) auto
qed

lemma validate_json_value_ok: "validate_json_value d v = Inr w \<Longrightarrow> mission_ok d w"
proof (induction v arbitrary: d w)
  case (PDict kvs)
  have IH: "mission_ok (d + 1) w" if "(k, v) \<in> set kvs" "validate_json_value (d + 1) v = Inr w" for k v w
    using PDict.IH [OF that(1) _ that(2)] by simp
  from PDict.prems show ?case
    by (intro validated_mapping_ok [OF _ IH]) (auto simp: raise_def mission_limits split: if_splits)
next
  case (PProxy kvs)
  have IH: "mission_ok (d + 1) w" if "(k, v) \<in> set kvs" "validate_json_value (d + 1) v = Inr w" for k v w
    using PProxy.IH [OF that(1) _ that(2)] by simp
  from PProxy.prems show ?case
    by (intro validated_mapping_ok [OF _ IH]) (auto simp: raise_def mission_limits split: if_splits)
next
  case (PList xs)
  then obtain ys where ys: "w = PList ys" "d \<le> 8" "length xs \<le> 256"
    "rmapM (validate_json_value (d + 1)) xs = Inr ys"
    by (auto simp: raise_def rmap_Inr_iff mission_limits split: if_splits)
  have "list_all (mission_ok (d + 1)) ys"
    using ys(4) by (rule rmapM_all) (rule PList.IH)
  with ys show ?case using rmapM_length [OF ys(4)] by simp
next
  case (PTuple xs)
  then obtain ys where ys: "w = PList ys" "d \<le> 8" "length xs \<le> 256"
    "rmapM (validate_json_value (d + 1)) xs = Inr ys"
    by (auto simp: raise_def rmap_Inr_iff mission_limits split: if_splits)
  have "list_all (mission_ok (d + 1)) ys"
    using ys(4) by (rule rmapM_all) (rule PTuple.IH)
  with ys show ?case using rmapM_length [OF ys(4)] by simp
qed (auto simp: raise_def rmap_Inr_iff mission_limits validate_string_Inr split: if_splits pyfloat.splits)

lemma validate_mission_ok: "mission_ok d w \<Longrightarrow> validate_json_value d w = Inr w"
proof (induction w arbitrary: d)
  case (PDict kvs)
  have "rmapM (\<lambda>(k, v). rbind (validate_key k) (\<lambda>k'. rmap (Pair (PStr k')) (validate_json_value (d + 1) v))) kvs
      = Inr kvs"
    using PDict by (induction kvs) (fastforce simp: key_ok_def)+
  with PDict.prems show ?case by (simp add: dict_of_pairs_distinct mission_limits)
next
  case (PList xs)
  have "rmapM (validate_json_value (d + 1)) xs = Inr xs"
    using PList by (induction xs) auto
  with PList.prems show ?case by (simp add: mission_limits)
next
  case (PStr s)
  then have "validate_string s = Inr s" by (simp add: validate_string_Inr)
  with PStr show ?case by (simp add: mission_limits)
qed (auto simp: mission_limits)

lemma mission_ok_thawed: "mission_ok d w \<Longrightarrow> thawed w"
proof (induction w arbitrary: d)
  case (PDict kvs)
  then show ?case by (fastforce simp: list_all_iff)
next
  case (PList xs)
  then show ?case by (auto simp: list_all_iff)
qed simp_all

lemma normalize_mission_Inr:
  assumes "normalize_mission_metadata_object ft v n ps = Inr w"
  shows "mission_ok 0 w" "is_mapping w"
    "\<exists>size. serialized_size ft w = Inr size \<and> int size \<le> n"
    "ps \<noteq> [] \<Longrightarrow> \<exists>p\<in>set ps. py_get w ''profile'' = PStr p"
proof -
  from assms have v: "is_mapping v" "validate_json_value 0 v = Inr w"
    and "\<exists>size. serialized_size ft w = Inr size \<and> int size \<le> n"
    and "ps \<noteq> [] \<Longrightarrow> \<exists>p\<in>set ps. py_get w ''profile'' = PStr p"
    by (auto simp: normalize_mission_metadata_object_def raise_def rbind_Inr_iff
        split: if_splits pyval.splits)
  then show "mission_ok 0 w" "\<exists>size. serialized_size ft w = Inr size \<and> int size \<le> n"
    "ps \<noteq> [] \<Longrightarrow> \<exists>p\<in>set ps. py_get w ''profile'' = PStr p"
    by (auto dest: validate_json_value_ok)
  from v show "is_mapping w"
    by (cases v) (auto simp: raise_def rmap_Inr_iff split: if_splits)
qed

lemma validate_thawed_id: "thawed v \<Longrightarrow> validate_json_value d v = Inr w \<Longrightarrow> w = v"
proof (induction v arbitrary: d w)
  case (PDict kvs)
  then obtain ps where w: "w = PDict (dict_of_pairs ps)"
    and ps: "rmapM (\<lambda>(k, v). rbind (validate_key k) (\<lambda>k'. rmap (Pair (PStr k')) (validate_json_value (d + 1) v))) kvs
      = Inr ps"
    by (auto simp: raise_def rmap_Inr_iff split: if_splits)
  have elem: "q = r" if "r \<in> set kvs"
    "(case r of (k, v) \<Rightarrow> rbind (validate_key k) (\<lambda>k'. rmap (Pair (PStr k')) (validate_json_value (d + 1) v))) = Inr q"
    for q r
  proof -
    obtain k x where r: "r = (k, x)" by (cases r)
    then have "thawed x" using that(1) PDict.prems(1) by (auto simp: list_all_iff)
    then have "y = x" if "validate_json_value (d + 1) x = Inr y" for y
      using PDict.IH [of r x "d + 1" y] \<open>r \<in> set kvs\<close> that by (simp add: r)
    with that(2) show ?thesis
      by (auto simp: r rbind_Inr_iff rmap_Inr_iff dest: validate_key_Inr)
  qed
  have "ps = kvs" using rmapM_fixed [OF ps elem] .
  with w PDict.prems(1) show ?case by (simp add: dict_of_pairs_distinct)
next
  case (PList xs)
  then obtain ys where ys: "w = PList ys" "rmapM (validate_json_value (d + 1)) xs = Inr ys"
    by (auto simp: raise_def rmap_Inr_iff split: if_splits)
  have "y = x" if "x \<in> set xs" "validate_json_value (d + 1) x = Inr y" for x y
    using that PList by (auto simp: list_all_iff)
  with ys show ?case using rmapM_fixed [OF ys(2)] by blast
qed (auto simp: raise_def rmap_Inr_iff validate_string_Inr split: if_splits pyfloat.splits)

lemma normalize_mission_idem:
  assumes "normalize_mission_metadata_object ft v n ps = Inr w"
  shows "normalize_mission_metadata_object ft w n ps = Inr w"
proof -
  note w = normalize_mission_Inr [OF assms]
  then show ?thesis
    using validate_mission_ok [OF w(1)] by (auto simp: normalize_mission_metadata_object_def)
qed



end
