(* ===== verification/SecurityLabels.thy ===== *)
theory SecurityLabels
  imports MissionMetadata
begin

text \<open>
  The data-centric security label profile (\<open>core/security_labels.py\<close>): normalisation of one
  profile object against allow lists, and its resolution from a header, a subject rule or the
  configured default.
\<close>

definition SECURITY_LABEL_PROFILE_NAME :: string where
  "SECURITY_LABEL_PROFILE_NAME = ''nats-sinks.security-label.v1''"

definition MAX_SECURITY_LABEL_LIST_ITEMS :: nat where "MAX_SECURITY_LABEL_LIST_ITEMS = 128"
definition MAX_SECURITY_LABEL_STRING_LENGTH :: nat where "MAX_SECURITY_LABEL_STRING_LENGTH = 512"

definition ALLOWED_FIELDS :: "string list" where
  "ALLOWED_FIELDS =
     [''profile'', ''priority'', ''classification'', ''owner'', ''originator'', ''policy_id'',
      ''retention_category'', ''labels'', ''releasability'', ''handling_caveats'', ''extensions'']"

text \<open>The vocabulary limits and the fallback values of one call.\<close>

record label_limits =
  sl_max_bytes :: int
  sl_priorities :: "string list"
  sl_classifications :: "string list"
  sl_releasability :: "string list"
  sl_handling_caveats :: "string list"
  sl_retention_categories :: "string list"

record label_fallback =
  fb_priority :: "string option"
  fb_classification :: "string option"
  fb_labels :: "string list"

abbreviation no_str :: render where
  "no_str \<equiv> (\<lambda>_. None)"

definition normalize_scalar :: "pyval \<Rightarrow> string option res" where
  "normalize_scalar value =
     (if value \<noteq> PNone \<and> \<not> is_str value
      then raise ValidationError ''security label field must be a string''
      else (case normalise_metadata_value no_str value of
          None \<Rightarrow> Inr None
        | Some s \<Rightarrow>
            if MAX_SECURITY_LABEL_STRING_LENGTH < length s
            then raise ValidationError ''security label field exceeds the length limit''
            else if contains_ascii_control_characters s
            then raise ValidationError ''security label field contains control characters''
            else Inr (Some s)))"

fun raw_label_items :: "pyval list \<Rightarrow> string list res" where
  "raw_label_items [] = Inr []"
| "raw_label_items (item # items) =
     (case item of
        PStr s \<Rightarrow>
          (case normalise_metadata_value no_str (PStr s) of
             None \<Rightarrow> raw_label_items items
           | Some r \<Rightarrow>
               if LABEL_SEPARATOR \<in> set r
               then raise ValidationError ''list items must not contain the semicolon separator''
               else rmap (Cons r) (raw_label_items items))
      | _ \<Rightarrow> raise ValidationError ''security label field must contain only strings'')"

definition check_label_list :: "string list \<Rightarrow> string list res" where
  "check_label_list labels =
     (if MAX_SECURITY_LABEL_LIST_ITEMS < length labels
      then raise ValidationError ''security label field exceeds the item limit''
      else (case find (\<lambda>l. MAX_SECURITY_LABEL_STRING_LENGTH < length l
                         \<or> contains_ascii_control_characters l) labels of
          Some l \<Rightarrow> raise ValidationError ''security label field contains an unsafe item''
        | None \<Rightarrow> Inr labels))"

definition normalize_list :: "pyval \<Rightarrow> string list res" where
  "normalize_list value =
     rbind (case value of
        PNone \<Rightarrow> Inr []
      | PStr s \<Rightarrow> Inr (normalise_labels_value no_str (PStr s))
      | PList xs \<Rightarrow> rmap (\<lambda>raw. normalise_labels_value no_str (PList (map PStr raw))) (raw_label_items xs)
      | PTuple xs \<Rightarrow> rmap (\<lambda>raw. normalise_labels_value no_str (PList (map PStr raw))) (raw_label_items xs)
      | _ \<Rightarrow> raise ValidationError ''security label field must be a string or list of strings'')
     check_label_list"

definition require_allowed_value :: "string option \<Rightarrow> string list \<Rightarrow> unit res" where
  "require_allowed_value value allowed =
     (case value of
        None \<Rightarrow> Inr ()
      | Some v \<Rightarrow>
          if allowed = [] \<or> v \<in> set allowed then Inr ()
          else raise ValidationError ''security label field must be one of the configured values'')"

definition require_allowed_list_values :: "string list \<Rightarrow> string list \<Rightarrow> unit res" where
  "require_allowed_list_values values allowed =
     (if allowed = [] then Inr ()
      else if filter (\<lambda>v. v \<notin> set allowed) values \<noteq> []
      then raise ValidationError ''security label field contains values outside the allow list''
      else Inr ())"

definition validate_allowed_fields :: "pyval \<Rightarrow> unit res" where
  "validate_allowed_fields value =
     (if \<exists>(k, v)\<in>set (mapping_items value). k \<notin> PStr ` set ALLOWED_FIELDS
      then raise ValidationError ''contains unsupported security label fields''
      else Inr ())"

text \<open>\<open>mapping.get(name, default)\<close>: the default is used only when the key is absent.\<close>

definition py_get_or :: "pyval \<Rightarrow> string \<Rightarrow> pyval \<Rightarrow> pyval" where
  "py_get_or m k dflt = (case map_of (mapping_items m) (PStr k) of None \<Rightarrow> dflt | Some v \<Rightarrow> v)"

definition profile_object ::
  "string option \<Rightarrow> string option \<Rightarrow> string list \<Rightarrow> string list \<Rightarrow> string list \<Rightarrow> string option
   \<Rightarrow> string option \<Rightarrow> string option \<Rightarrow> string option \<Rightarrow> (pyval \<times> pyval) list" where
  "profile_object priority classification labels rel caveats owner originator policy retention =
     [(PStr ''profile'', PStr SECURITY_LABEL_PROFILE_NAME),
      (PStr ''priority'', opt_str priority),
      (PStr ''classification'', opt_str classification),
      (PStr ''labels'', PList (map PStr labels)),
      (PStr ''releasability'', PList (map PStr rel)),
      (PStr ''handling_caveats'', PList (map PStr caveats)),
      (PStr ''owner'', opt_str owner),
      (PStr ''originator'', opt_str originator),
      (PStr ''policy_id'', opt_str policy),
      (PStr ''retention_category'', opt_str retention)]"

definition add_extensions ::
  "float_text \<Rightarrow> label_limits \<Rightarrow> pyval \<Rightarrow> (pyval \<times> pyval) list \<Rightarrow> (pyval \<times> pyval) list res" where
  "add_extensions ft lm extensions result =
     (if extensions = PNone then Inr result
      else if \<not> is_mapping extensions then raise ValidationError ''extensions must be a JSON object''
      else rmap (\<lambda>x. result @ [(PStr ''extensions'', x)])
             (normalize_mission_metadata_object ft extensions (sl_max_bytes lm) []))"

definition normalize_security_label_profile ::
  "float_text \<Rightarrow> label_limits \<Rightarrow> label_fallback \<Rightarrow> pyval \<Rightarrow> pyval res" where
  "normalize_security_label_profile ft lm fb value =
     (if \<not> is_mapping value then raise ValidationError ''must be a JSON object'' else
      rbind (normalize_mission_metadata_object ft value (sl_max_bytes lm) []) (\<lambda>g.
      rbind (validate_allowed_fields g) (\<lambda>_.
      rbind (normalize_scalar (py_get_or g ''profile'' (PStr SECURITY_LABEL_PROFILE_NAME))) (\<lambda>name.
      if name \<noteq> Some SECURITY_LABEL_PROFILE_NAME then raise ValidationError ''unsupported profile'' else
      rbind (normalize_scalar (py_get_or g ''priority'' (opt_str (fb_priority fb)))) (\<lambda>priority.
      rbind (normalize_scalar (py_get_or g ''classification'' (opt_str (fb_classification fb)))) (\<lambda>classification.
      rbind (normalize_scalar (py_get g ''owner'')) (\<lambda>owner.
      rbind (normalize_scalar (py_get g ''originator'')) (\<lambda>originator.
      rbind (normalize_scalar (py_get g ''policy_id'')) (\<lambda>policy.
      rbind (normalize_scalar (py_get g ''retention_category'')) (\<lambda>retention.
      rbind (normalize_list (py_get_or g ''labels'' (PTuple (map PStr (fb_labels fb))))) (\<lambda>labels.
      rbind (normalize_list (py_get_or g ''releasability'' (PTuple []))) (\<lambda>rel.
      rbind (normalize_list (py_get_or g ''handling_caveats'' (PTuple []))) (\<lambda>caveats.
      rbind (require_allowed_value priority (sl_priorities lm)) (\<lambda>_.
      rbind (require_allowed_value classification (sl_classifications lm)) (\<lambda>_.
      rbind (require_allowed_value retention (sl_retention_categories lm)) (\<lambda>_.
      rbind (require_allowed_list_values rel (sl_releasability lm)) (\<lambda>_.
      rbind (require_allowed_list_values caveats (sl_handling_caveats lm)) (\<lambda>_.
      rbind (add_extensions ft lm (py_get g ''extensions'')
          (profile_object priority classification labels rel caveats owner originator policy retention)) (\<lambda>kvs.
      normalize_mission_metadata_object ft (PDict kvs) (sl_max_bytes lm) [])))))))))))))))))))"

definition parse_security_label_header ::
  "json_scan \<Rightarrow> float_text \<Rightarrow> label_limits \<Rightarrow> label_fallback \<Rightarrow> string \<Rightarrow> pyval res" where
  "parse_security_label_header scan ft lm fb value =
     (if sl_max_bytes lm < int (utf8_len value)
      then raise ValidationError ''security label header exceeds the configured byte limit''
      else (case load_standard_json scan value of
          Inl e \<Rightarrow>
            if isinstance e ValueError then raise ValidationError ''security label header is not valid JSON''
            else Inl e
        | Inr parsed \<Rightarrow> normalize_security_label_profile ft lm fb parsed))"

record label_rule =
  lr_subject :: string
  lr_profile :: pyval

record label_config =
  slc_enabled :: bool
  slc_header :: string
  slc_default :: pyval
  slc_rules :: "label_rule list"
  slc_limits :: label_limits

definition resolve_security_label_profile ::
  "render \<Rightarrow> json_scan \<Rightarrow> float_text \<Rightarrow> headers \<Rightarrow> string \<Rightarrow> label_fallback \<Rightarrow> label_config \<Rightarrow> pyval res" where
  "resolve_security_label_profile st scan ft headers subject fb config =
     (if \<not> slc_enabled config then Inr PNone
      else (case case_insensitive_header headers (slc_header config) of
          Some value \<Rightarrow>
            if strip value = [] then Inr PNone
            else rbind (parse_security_label_header scan ft (slc_limits config) fb value) (freeze_metadata st)
        | None \<Rightarrow>
            (case find (\<lambda>rule. matches_subject (PStr (lr_subject rule)) (PStr subject)) (slc_rules config) of
               Some rule \<Rightarrow>
                 if lr_profile rule = PNone then Inr PNone
                 else rbind (normalize_security_label_profile ft (slc_limits config) fb (lr_profile rule))
                        (freeze_metadata st)
             | None \<Rightarrow>
                 if slc_default config = PNone then Inr PNone
                 else rbind (normalize_security_label_profile ft (slc_limits config) fb (slc_default config))
                        (freeze_metadata st))))"

section \<open>The normal form of a profile\<close>

definition scalar_ok :: "string option \<Rightarrow> bool" where
  "scalar_ok x \<longleftrightarrow> normalize_scalar (opt_str x) = Inr x"

definition label_list_ok :: "string list \<Rightarrow> bool" where
  "label_list_ok ls \<longleftrightarrow> normalize_list (PList (map PStr ls)) = Inr ls"

lemma normalize_scalar_ok: "normalize_scalar v = Inr x \<Longrightarrow> scalar_ok x"
  by (cases x)
    (auto simp: scalar_ok_def normalize_scalar_def raise_def opt_str_def
      normalise_metadata_value_id [OF normalise_metadata_value_clean] split: if_splits option.splits)

lemma check_label_list_Inr: "check_label_list ls = Inr ms \<Longrightarrow> ms = ls \<and> check_label_list ls = Inr ls"
  by (auto simp: check_label_list_def raise_def split: if_splits option.splits)

lemma raw_label_items_clean:
  "\<forall>l\<in>set ls. clean l \<and> LABEL_SEPARATOR \<notin> set l \<Longrightarrow> raw_label_items (map PStr ls) = Inr ls"
  by (induction ls) (auto simp: normalise_metadata_value_id)

lemma raw_label_items_props:
  "raw_label_items xs = Inr ls \<Longrightarrow> l \<in> set ls \<Longrightarrow> LABEL_SEPARATOR \<notin> set l"
proof (induction xs arbitrary: ls)
  case (Cons x xs)
  then show ?case
    by (cases x) (auto simp: raise_def rmap_Inr_iff split: if_splits option.splits)
qed simp

lemma normalise_labels_list_subset:
  "l \<in> set (normalise_labels_value st (PList (map PStr ls))) \<Longrightarrow> \<exists>m\<in>set ls. strip m = l"
  by (auto simp: normalise_labels_value_def set_collect_labels normalise_metadata_value_def Let_def
      split: if_splits)

lemma normalise_labels_list_no_separator:
  assumes "raw_label_items xs = Inr raw" "l \<in> set (normalise_labels_value no_str (PList (map PStr raw)))"
  shows "LABEL_SEPARATOR \<notin> set l"
proof -
  obtain m where "m \<in> set raw" "strip m = l"
    using normalise_labels_list_subset [OF assms(2)] by blast
  with raw_label_items_props [OF assms(1)] show ?thesis by (auto dest: strip_subset)
qed

lemma normalize_list_cases:
  assumes "normalize_list v = Inr ls"
  shows "check_label_list ls = Inr ls" "distinct ls" "\<forall>l\<in>set ls. clean l \<and> LABEL_SEPARATOR \<notin> set l"
proof -
  obtain ms where ms: "check_label_list ms = Inr ls"
    and v: "(case v of
        PNone \<Rightarrow> Inr []
      | PStr s \<Rightarrow> Inr (normalise_labels_value no_str (PStr s))
      | PList xs \<Rightarrow> rmap (\<lambda>raw. normalise_labels_value no_str (PList (map PStr raw))) (raw_label_items xs)
      | PTuple xs \<Rightarrow> rmap (\<lambda>raw. normalise_labels_value no_str (PList (map PStr raw))) (raw_label_items xs)
      | _ \<Rightarrow> raise ValidationError ''security label field must be a string or list of strings'') = Inr ms"
    using assms by (auto simp: normalize_list_def rbind_Inr_iff)
  have ls: "ls = ms" and "check_label_list ms = Inr ms"
    using check_label_list_Inr [OF ms] by simp_all
  then show "check_label_list ls = Inr ls" by simp
  show "distinct ls" "\<forall>l\<in>set ls. clean l \<and> LABEL_SEPARATOR \<notin> set l"
    using v normalise_labels_props header_labels_no_separator normalise_labels_list_no_separator
    by (auto simp: ls raise_def rmap_Inr_iff split: pyval.splits)
qed

lemma normalize_list_ok: "normalize_list v = Inr ls \<Longrightarrow> label_list_ok ls"
proof -
  assume "normalize_list v = Inr ls"
  note ls = normalize_list_cases [OF this]
  have "raw_label_items (map PStr ls) = Inr ls" using ls(3) by (rule raw_label_items_clean)
  moreover have "normalise_labels_value no_str (PList (map PStr ls)) = ls"
    using collect_labels_clean [of "[]" ls no_str] ls(2,3) by (simp add: normalise_labels_value_def)
  ultimately show ?thesis using ls(1) by (simp add: label_list_ok_def normalize_list_def)
qed

text \<open>The values stored in a profile, as a normalised object holds them.\<close>

record profile_values =
  pv_priority :: "string option"
  pv_classification :: "string option"
  pv_labels :: "string list"
  pv_rel :: "string list"
  pv_caveats :: "string list"
  pv_owner :: "string option"
  pv_originator :: "string option"
  pv_policy :: "string option"
  pv_retention :: "string option"
  pv_extensions :: "pyval option"

definition profile_pairs :: "profile_values \<Rightarrow> (pyval \<times> pyval) list" where
  "profile_pairs p =
     profile_object (pv_priority p) (pv_classification p) (pv_labels p) (pv_rel p) (pv_caveats p)
       (pv_owner p) (pv_originator p) (pv_policy p) (pv_retention p)
     @ (case pv_extensions p of None \<Rightarrow> [] | Some x \<Rightarrow> [(PStr ''extensions'', x)])"

definition profile_values_ok :: "float_text \<Rightarrow> label_limits \<Rightarrow> profile_values \<Rightarrow> bool" where
  "profile_values_ok ft lm p \<longleftrightarrow>
     scalar_ok (pv_priority p) \<and> scalar_ok (pv_classification p) \<and> scalar_ok (pv_owner p)
     \<and> scalar_ok (pv_originator p) \<and> scalar_ok (pv_policy p) \<and> scalar_ok (pv_retention p)
     \<and> label_list_ok (pv_labels p) \<and> label_list_ok (pv_rel p) \<and> label_list_ok (pv_caveats p)
     \<and> require_allowed_value (pv_priority p) (sl_priorities lm) = Inr ()
     \<and> require_allowed_value (pv_classification p) (sl_classifications lm) = Inr ()
     \<and> require_allowed_value (pv_retention p) (sl_retention_categories lm) = Inr ()
     \<and> require_allowed_list_values (pv_rel p) (sl_releasability lm) = Inr ()
     \<and> require_allowed_list_values (pv_caveats p) (sl_handling_caveats lm) = Inr ()
     \<and> (\<forall>x. pv_extensions p = Some x \<longrightarrow> x \<noteq> PNone \<and> is_mapping x \<and> thawed x
          \<and> normalize_mission_metadata_object ft x (sl_max_bytes lm) [] = Inr x)"

lemma profile_pairs_thawed:
  assumes "profile_values_ok ft lm p"
  shows "thawed (PDict (profile_pairs p))"
  using assms
  by (auto simp: profile_values_ok_def profile_pairs_def profile_object_def opt_str_def list_all_iff
      split: option.splits)

lemma normalize_profile_pairs:
  assumes "normalize_security_label_profile ft lm fb v = Inr w"
  obtains p where "profile_values_ok ft lm p"
    "normalize_mission_metadata_object ft (PDict (profile_pairs p)) (sl_max_bytes lm) [] = Inr w"
proof -
  from assms obtain g priority classification owner originator policy retention labels rel caveats kvs
    where vals: "normalize_scalar (py_get_or g ''priority'' (opt_str (fb_priority fb))) = Inr priority"
      "normalize_scalar (py_get_or g ''classification'' (opt_str (fb_classification fb))) = Inr classification"
      "normalize_scalar (py_get g ''owner'') = Inr owner"
      "normalize_scalar (py_get g ''originator'') = Inr originator"
      "normalize_scalar (py_get g ''policy_id'') = Inr policy"
      "normalize_scalar (py_get g ''retention_category'') = Inr retention"
      "normalize_list (py_get_or g ''labels'' (PTuple (map PStr (fb_labels fb)))) = Inr labels"
      "normalize_list (py_get_or g ''releasability'' (PTuple [])) = Inr rel"
      "normalize_list (py_get_or g ''handling_caveats'' (PTuple [])) = Inr caveats"
    and allowed: "require_allowed_value priority (sl_priorities lm) = Inr ()"
      "require_allowed_value classification (sl_classifications lm) = Inr ()"
      "require_allowed_value retention (sl_retention_categories lm) = Inr ()"
      "require_allowed_list_values rel (sl_releasability lm) = Inr ()"
      "require_allowed_list_values caveats (sl_handling_caveats lm) = Inr ()"
    and ext: "add_extensions ft lm (py_get g ''extensions'')
        (profile_object priority classification labels rel caveats owner originator policy retention) = Inr kvs"
    and w: "normalize_mission_metadata_object ft (PDict kvs) (sl_max_bytes lm) [] = Inr w"
    unfolding normalize_security_label_profile_def
    by (auto simp: raise_def split: if_splits elim!: rbindE)
  note scalars = vals(1-6) [THEN normalize_scalar_ok]
  note lists = vals(7-9) [THEN normalize_list_ok]
  define p where "p = \<lparr>pv_priority = priority, pv_classification = classification, pv_labels = labels,
      pv_rel = rel, pv_caveats = caveats, pv_owner = owner, pv_originator = originator, pv_policy = policy,
      pv_retention = retention,
      pv_extensions = (if py_get g ''extensions'' = PNone then None else Some (snd (last kvs)))\<rparr>"
  have kvs: "kvs = profile_pairs p"
    using ext by (auto simp: p_def profile_pairs_def add_extensions_def rmap_Inr_iff raise_def split: if_splits)
  have "profile_values_ok ft lm p"
    using scalars lists allowed ext
    by (auto simp: profile_values_ok_def p_def add_extensions_def rmap_Inr_iff raise_def normalize_mission_idem
        dest: normalize_mission_Inr(2) normalize_mission_Inr(1) [THEN mission_ok_thawed] split: if_splits)
  with w kvs that show thesis by blast
qed

lemma validate_profile_pairs:
  assumes "profile_values_ok ft lm p"
    and "normalize_mission_metadata_object ft (PDict (profile_pairs p)) (sl_max_bytes lm) [] = Inr w"
  shows "w = PDict (profile_pairs p)"
proof -
  have "validate_json_value 0 (PDict (profile_pairs p)) = Inr w"
    using assms(2) by (auto simp: normalize_mission_metadata_object_def raise_def rbind_Inr_iff split: if_splits)
  then show ?thesis
    using validate_thawed_id [OF profile_pairs_thawed [OF assms(1)]] by blast
qed

lemma profile_pairs_normal:
  assumes ok: "profile_values_ok ft lm p"
    and w: "normalize_mission_metadata_object ft (PDict (profile_pairs p)) (sl_max_bytes lm) []
      = Inr (PDict (profile_pairs p))"
  shows "normalize_security_label_profile ft lm fb (PDict (profile_pairs p)) = Inr (PDict (profile_pairs p))"
proof -
  let ?g = "PDict (profile_pairs p)"
  have get: "py_get_or ?g ''profile'' d = PStr SECURITY_LABEL_PROFILE_NAME"
    "py_get_or ?g ''priority'' d = opt_str (pv_priority p)"
    "py_get_or ?g ''classification'' d = opt_str (pv_classification p)"
    "py_get ?g ''owner'' = opt_str (pv_owner p)" "py_get ?g ''originator'' = opt_str (pv_originator p)"
    "py_get ?g ''policy_id'' = opt_str (pv_policy p)"
    "py_get ?g ''retention_category'' = opt_str (pv_retention p)"
    "py_get_or ?g ''labels'' d = PList (map PStr (pv_labels p))"
    "py_get_or ?g ''releasability'' d = PList (map PStr (pv_rel p))"
    "py_get_or ?g ''handling_caveats'' d = PList (map PStr (pv_caveats p))"
    "py_get ?g ''extensions'' = (case pv_extensions p of None \<Rightarrow> PNone | Some x \<Rightarrow> x)" for d
    by (simp_all add: py_get_or_def py_get_def profile_pairs_def profile_object_def split: option.splits)
  have fields: "validate_allowed_fields ?g = Inr ()"
    by (auto simp: validate_allowed_fields_def profile_pairs_def profile_object_def ALLOWED_FIELDS_def
        split: option.splits)
  have name: "normalize_scalar (PStr SECURITY_LABEL_PROFILE_NAME) = Inr (Some SECURITY_LABEL_PROFILE_NAME)"
    by code_simp
  have ext: "add_extensions ft lm (case pv_extensions p of None \<Rightarrow> PNone | Some x \<Rightarrow> x)
      (profile_object (pv_priority p) (pv_classification p) (pv_labels p) (pv_rel p) (pv_caveats p)
        (pv_owner p) (pv_originator p) (pv_policy p) (pv_retention p)) = Inr (profile_pairs p)"
    using ok by (cases "pv_extensions p")
      (auto simp: add_extensions_def profile_pairs_def profile_values_ok_def)
  show ?thesis
    using ok w
    by (simp add: normalize_security_label_profile_def get fields name ext profile_values_ok_def
        scalar_ok_def label_list_ok_def)
qed

text \<open>C24: a normalised security label profile is a fixed point.  Normalising it again under the same
  limits gives the same object whatever the fallback values are; in particular the scalar
  metadata of a message never fills in a configured default or rule profile, since configuration
  loading has already normalised it.\<close>

theorem security_label_profile_fixed_point:
  assumes "normalize_security_label_profile ft lm fb v = Inr w"
  shows "normalize_security_label_profile ft lm fb' w = Inr w"
proof -
  obtain p where p: "profile_values_ok ft lm p"
    "normalize_mission_metadata_object ft (PDict (profile_pairs p)) (sl_max_bytes lm) [] = Inr w"
    using normalize_profile_pairs [OF assms] .
  have "w = PDict (profile_pairs p)" using p by (rule validate_profile_pairs)
  with p show ?thesis by (simp add: profile_pairs_normal)
qed

lemma security_label_profile_fixed_point_witness:
  "\<exists>w. normalize_security_label_profile (\<lambda>q. ''0.5'')
        \<lparr>sl_max_bytes = 4096, sl_priorities = [], sl_classifications = [''SECRET''], sl_releasability = [],
          sl_handling_caveats = [], sl_retention_categories = []\<rparr>
        \<lparr>fb_priority = None, fb_classification = Some ''SECRET'', fb_labels = []\<rparr>
        (PDict [(PStr ''owner'', PStr '' ops '')]) = Inr w
    \<and> py_get w ''classification'' = PStr ''SECRET''
    \<and> normalize_security_label_profile (\<lambda>q. ''0.5'')
        \<lparr>sl_max_bytes = 4096, sl_priorities = [], sl_classifications = [''SECRET''], sl_releasability = [],
          sl_handling_caveats = [], sl_retention_categories = []\<rparr>
        \<lparr>fb_priority = Some ''HIGH'', fb_classification = None, fb_labels = [''a'']\<rparr> w = Inr w"
  (is "\<exists>w. ?f ?lm ?fb ?v = Inr w \<and> _ w \<and> ?f ?lm ?fb' w = Inr w")
proof -
  have "case ?f ?lm ?fb ?v of Inl e \<Rightarrow> False | Inr w \<Rightarrow> py_get w ''classification'' = PStr ''SECRET''"
    by code_simp
  then obtain w where w: "?f ?lm ?fb ?v = Inr w" "py_get w ''classification'' = PStr ''SECRET''"
    by (cases "?f ?lm ?fb ?v") auto
  with security_label_profile_fixed_point [OF w(1), of ?fb'] show ?thesis by blast
qed

end
