(* ===== verification/Consumer.thy ===== *)
theory Consumer
  imports Envelope SecurityLabels
begin

text \<open>
  From client messages to envelopes (\<open>core/consumer.py\<close>, with the message-metadata section of
  \<open>core/config.py\<close>).  A raw message is an object whose attributes may be missing, have any value or
  raise; the adapter survives every ordinary exception.
\<close>

section \<open>Reading untrusted objects\<close>

definition safe_getattr :: "pylib \<Rightarrow> pyval \<Rightarrow> string \<Rightarrow> pyval \<Rightarrow> pyval res" where
  "safe_getattr L value name dflt =
     (case l_getattr L value name of
        Has v \<Rightarrow> Inr v
      | Missing \<Rightarrow> Inr dflt
      | AttrRaises err \<Rightarrow> if isinstance err PyException then Inr dflt else Inl err)"

fun get_nested :: "pylib \<Rightarrow> pyval \<Rightarrow> string list \<Rightarrow> pyval res" where
  "get_nested L current [] = Inr current"
| "get_nested L current (name # names) =
     (case l_getattr L current name of
        Has v \<Rightarrow> if v = PNone then Inr PNone else get_nested L v names
      | Missing \<Rightarrow> Inr PNone
      | AttrRaises err \<Rightarrow> if isinstance err PyException then Inr PNone else Inl err)"

text \<open>
  \<open>int(value)\<close> of text and bytes; bytes are digits and whitespace in ASCII, so the four separator
  characters that count as spaces in text do not count there.
\<close>

definition as_int :: "pyval \<Rightarrow> int option" where
  "as_int value =
     (case (case value of
        PStr s \<Rightarrow> parse_int s
      | PBytes b \<Rightarrow>
          if list_all (\<lambda>x. unat x < 128 \<and> \<not> (28 \<le> unat x \<and> unat x \<le> 31)) b
          then parse_int (map (\<lambda>x. char_of (unat x)) b) else None
      | PInt i \<Rightarrow> Some i
      | _ \<Rightarrow> None) of
        None \<Rightarrow> None
      | Some n \<Rightarrow> if n < 0 then None else Some n)"

definition safe_text :: "render \<Rightarrow> pyval \<Rightarrow> string \<Rightarrow> string" where
  "safe_text st value dflt = (case py_str st value of None \<Rightarrow> dflt | Some s \<Rightarrow> s)"

definition safe_optional_text :: "render \<Rightarrow> pyval \<Rightarrow> string option" where
  "safe_optional_text st value =
     (if value = PNone then None
      else (let rendered = safe_text st value [] in if rendered = [] then None else Some rendered))"

text \<open>\<open>bytes(value)\<close>: a count gives zero bytes, a sequence gives its small integers.\<close>

definition byte_of :: "pyval \<Rightarrow> byte option" where
  "byte_of v =
     (case v of PInt i \<Rightarrow> if 0 \<le> i \<and> i < 256 then Some (of_int i) else None
      | PBool b \<Rightarrow> Some (if b then 1 else 0) | _ \<Rightarrow> None)"

definition bytes_constructor :: "pylib \<Rightarrow> pyval \<Rightarrow> bytes option" where
  "bytes_constructor L value =
     (case value of
        PInt n \<Rightarrow> if n < 0 then None else Some (replicate (nat n) 0)
      | PBool b \<Rightarrow> Some (if b then [0] else [])
      | PList xs \<Rightarrow> those (map byte_of xs)
      | PTuple xs \<Rightarrow> those (map byte_of xs)
      | PSet xs \<Rightarrow> those (map byte_of xs)
      | PDict kvs \<Rightarrow> those (map (byte_of \<circ> fst) kvs)
      | PProxy kvs \<Rightarrow> those (map (byte_of \<circ> fst) kvs)
      | PFloat f \<Rightarrow> None
      | _ \<Rightarrow> l_bytes_of L value)"

definition safe_bytes :: "pylib \<Rightarrow> pyval \<Rightarrow> bytes" where
  "safe_bytes L value =
     (case value of
        PNone \<Rightarrow> []
      | PBytes b \<Rightarrow> b
      | PStr s \<Rightarrow> utf8_encode s
      | _ \<Rightarrow> (case bytes_constructor L value of None \<Rightarrow> [] | Some b \<Rightarrow> b))"

text \<open>\<open>dict(value)\<close> of a sequence: every element is a pair, with a key that can be hashed.\<close>

fun pair_item :: "pyval \<Rightarrow> (pyval \<times> pyval) option" where
  "pair_item (PList [k, v]) = Some (k, v)"
| "pair_item (PTuple [k, v]) = Some (k, v)"
| "pair_item (PStr [k, v]) = Some (PStr [k], PStr [v])"
| "pair_item (PBytes [k, v]) = Some (PInt (uint k), PInt (uint v))"
| "pair_item v = None"

fun hashable :: "pyval \<Rightarrow> bool" where
  "hashable (PList xs) = False"
| "hashable (PSet xs) = False"
| "hashable (PDict kvs) = False"
| "hashable (PProxy kvs) = False"
| "hashable (PTuple xs) = list_all hashable xs"
| "hashable v = True"

definition dict_constructor :: "pylib \<Rightarrow> pyval \<Rightarrow> (pyval \<times> pyval) list option" where
  "dict_constructor L value =
     (case value of
        PList xs \<Rightarrow> (case those (map pair_item xs) of None \<Rightarrow> None
          | Some ps \<Rightarrow> if list_all (hashable \<circ> fst) ps then Some (dict_of_pairs ps) else None)
      | PTuple xs \<Rightarrow> (case those (map pair_item xs) of None \<Rightarrow> None
          | Some ps \<Rightarrow> if list_all (hashable \<circ> fst) ps then Some (dict_of_pairs ps) else None)
      | PStr s \<Rightarrow> if s = [] then Some [] else None
      | PBytes b \<Rightarrow> if b = [] then Some [] else None
      | PBool b \<Rightarrow> None
      | PInt i \<Rightarrow> None
      | PFloat f \<Rightarrow> None
      | _ \<Rightarrow> l_dict_of L value)"

definition iter_header_items :: "pylib \<Rightarrow> pyval \<Rightarrow> (pyval \<times> pyval) list" where
  "iter_header_items L headers =
     (if is_mapping headers then mapping_items headers
      else (case dict_constructor L headers of None \<Rightarrow> [] | Some items \<Rightarrow> items))"

fun collect_headers :: "render \<Rightarrow> headers \<Rightarrow> (pyval \<times> pyval) list \<Rightarrow> headers" where
  "collect_headers st normalised [] = normalised"
| "collect_headers st normalised ((key, value) # items) =
     (if value = PNone then collect_headers st normalised items
      else (let rendered_key = safe_text st key [] in
        if rendered_key = [] then collect_headers st normalised items
        else collect_headers st (AList.update rendered_key (safe_text st value []) normalised) items))"

definition raw_headers :: "pylib \<Rightarrow> pyval \<Rightarrow> headers res" where
  "raw_headers L raw =
     rmap (\<lambda>headers. if headers = PNone then [] else collect_headers (l_str L) [] (iter_header_items L headers))
       (safe_getattr L raw ''headers'' PNone)"

section \<open>Message-metadata configuration\<close>

text \<open>
  A rule sets a default when the field is given, even as null; \<open>None\<close> stands for a field that is
  not given (\<open>model_fields_set\<close>).
\<close>

record metadata_rule =
  me_subject :: string
  me_priority :: "string option option"
  me_classification :: "string option option"
  me_labels :: "string list option"

record metadata_config =
  mc_priority_header :: string
  mc_priority_default :: "string option"
  mc_classification_header :: string
  mc_classification_default :: "string option"
  mc_labels_header :: string
  mc_labels_default :: "string list"
  mc_rules :: "metadata_rule list"

definition validate_metadata_header_name :: "string \<Rightarrow> string res" where
  "validate_metadata_header_name value =
     (let rendered = strip value in
      if rendered = [] then raise ValueError ''header name must not be empty''
      else if contains_ascii_control_characters rendered
      then raise ValueError ''header name must not contain control characters''
      else Inr rendered)"

definition normalize_metadata_default :: "render \<Rightarrow> pyval \<Rightarrow> string option res" where
  "normalize_metadata_default st value =
     (case normalise_metadata_value st value of
        None \<Rightarrow> Inr None
      | Some normalized \<Rightarrow>
          if contains_ascii_control_characters normalized
          then raise ValueError ''metadata default must not contain control characters''
          else Inr (Some normalized))"

definition sequence_items :: "pyval \<Rightarrow> pyval list" where
  "sequence_items v = (case v of PList xs \<Rightarrow> xs | PTuple xs \<Rightarrow> xs | PSet xs \<Rightarrow> xs | _ \<Rightarrow> [])"

definition normalize_configured_labels :: "render \<Rightarrow> pyval \<Rightarrow> string list res" where
  "normalize_configured_labels st value =
     (if \<exists>item\<in>set (sequence_items value). \<exists>r. normalise_metadata_value st item = Some r \<and> LABEL_SEPARATOR \<in> set r
      then raise ValueError ''list items must not contain the semicolon separator''
      else (let labels = normalise_labels_value st value in
        if \<exists>l\<in>set labels. contains_ascii_control_characters l
        then raise ValueError ''labels must not contain control characters'' else Inr labels))"

definition make_metadata_rule ::
  "render \<Rightarrow> pyval \<Rightarrow> pyval option \<Rightarrow> pyval option \<Rightarrow> pyval option \<Rightarrow> metadata_rule res" where
  "make_metadata_rule st subject priority classification labels =
     rbind (validate_subject_pattern subject) (\<lambda>s.
     rbind (case priority of None \<Rightarrow> Inr None | Some v \<Rightarrow> rmap Some (normalize_metadata_default st v)) (\<lambda>p.
     rbind (case classification of None \<Rightarrow> Inr None | Some v \<Rightarrow> rmap Some (normalize_metadata_default st v)) (\<lambda>c.
     rbind (case labels of None \<Rightarrow> Inr None | Some v \<Rightarrow> rmap Some (normalize_configured_labels st v)) (\<lambda>l.
       if p = None \<and> c = None \<and> l = None
       then raise ValueError ''message metadata subject rule must set a default''
       else Inr \<lparr>me_subject = s, me_priority = p, me_classification = c, me_labels = l\<rparr>))))"

definition priority_default_for_subject :: "metadata_config \<Rightarrow> string \<Rightarrow> string option" where
  "priority_default_for_subject c subject =
     (case find (\<lambda>rule. me_priority rule \<noteq> None \<and> matches_subject (PStr (me_subject rule)) (PStr subject)) (mc_rules c) of
        Some rule \<Rightarrow> the (me_priority rule)
      | None \<Rightarrow> mc_priority_default c)"

definition classification_default_for_subject :: "metadata_config \<Rightarrow> string \<Rightarrow> string option" where
  "classification_default_for_subject c subject =
     (case find (\<lambda>rule. me_classification rule \<noteq> None \<and> matches_subject (PStr (me_subject rule)) (PStr subject)) (mc_rules c) of
        Some rule \<Rightarrow> the (me_classification rule)
      | None \<Rightarrow> mc_classification_default c)"

definition labels_default_for_subject :: "metadata_config \<Rightarrow> string \<Rightarrow> string list" where
  "labels_default_for_subject c subject =
     (case find (\<lambda>rule. me_labels rule \<noteq> None \<and> matches_subject (PStr (me_subject rule)) (PStr subject)) (mc_rules c) of
        Some rule \<Rightarrow> the (me_labels rule)
      | None \<Rightarrow> mc_labels_default c)"

section \<open>The adapter\<close>

text \<open>\<open>a or b\<close>, where \<open>b\<close> may fail.\<close>

definition or_else :: "pyval res \<Rightarrow> pyval res \<Rightarrow> pyval res" where
  "or_else a b = rbind a (\<lambda>v. if py_truthy v then Inr v else b)"

definition envelope_from_nats_message ::
  "pylib \<Rightarrow> datetime \<Rightarrow> metadata_config \<Rightarrow> mission_config \<Rightarrow> label_config \<Rightarrow> pyval \<Rightarrow> nats_envelope res" where
  "envelope_from_nats_message L now mc mission security raw =
     rbind (safe_getattr L raw ''metadata'' PNone) (\<lambda>metadata.
     rbind (raw_headers L raw) (\<lambda>headers.
     rbind (or_else (get_nested L metadata [''sequence'', ''stream'']) (safe_getattr L metadata ''stream_sequence'' PNone))
       (\<lambda>stream_sequence.
     rbind (or_else (get_nested L metadata [''sequence'', ''consumer'']) (safe_getattr L metadata ''consumer_sequence'' PNone))
       (\<lambda>consumer_sequence.
     rbind (rmap as_int (safe_getattr L metadata ''num_delivered'' PNone)) (\<lambda>delivered.
     rbind (safe_getattr L metadata ''timestamp'' PNone) (\<lambda>timestamp.
     rbind (rmap (\<lambda>v. safe_text (l_str L) v []) (safe_getattr L raw ''subject'' (PStr []))) (\<lambda>subject.
     let priority = resolve_metadata_field (l_str L) headers (mc_priority_header mc)
           (priority_default_for_subject mc subject);
         classification = resolve_metadata_field (l_str L) headers (mc_classification_header mc)
           (classification_default_for_subject mc subject);
         labels = resolve_metadata_labels (l_str L) headers (mc_labels_header mc)
           (PTuple (map PStr (labels_default_for_subject mc subject)))
     in
     rbind (safe_getattr L raw ''data'' (PBytes [])) (\<lambda>data.
     rbind (safe_getattr L metadata ''stream'' PNone) (\<lambda>stream.
     rbind (safe_getattr L metadata ''consumer'' PNone) (\<lambda>consumer.
     rbind (safe_getattr L metadata ''num_pending'' PNone) (\<lambda>pending.
     rbind (resolve_mission_metadata (l_str L) (l_scan L) (l_float_text L) headers subject mission) (\<lambda>mission_metadata.
     rbind (resolve_security_label_profile (l_str L) (l_scan L) (l_float_text L) headers subject
         \<lparr>fb_priority = priority, fb_classification = classification, fb_labels = labels\<rparr> security) (\<lambda>security_labels.
     rbind (safe_getattr L raw ''reply'' PNone) (\<lambda>reply.
     rbind (safe_getattr L metadata ''domain'' PNone) (\<lambda>domain.
       post_init (l_str L) (header_items headers)
         \<lparr>env_subject = subject, env_data = safe_bytes L data, env_headers = headers,
          env_stream = safe_optional_text (l_str L) stream, env_consumer = safe_optional_text (l_str L) consumer,
          env_stream_sequence = as_int stream_sequence, env_consumer_sequence = as_int consumer_sequence,
          env_timestamp = (if timestamp = PNone then None else l_as_datetime L timestamp),
          env_message_id = None,
          env_redelivered = (case delivered of None \<Rightarrow> None | Some n \<Rightarrow> if n \<le> 0 then None else Some (1 < n)),
          env_pending = as_int pending, env_priority = priority, env_classification = classification,
          env_labels = labels, env_mission_metadata = mission_metadata, env_security_labels = security_labels,
          env_custody = PNone, env_reply = safe_optional_text (l_str L) reply,
          env_domain = safe_optional_text (l_str L) domain, env_payload_present = True,
          env_payload_omitted = False, env_payload_omitted_reason = None,
          env_original_payload_size_bytes = None, env_payload_size_header_malformed = False,
          env_received_at = now, env_raw_metadata = metadata\<rparr>)))))))))))))))"

section \<open>Totality\<close>

definition tolerable :: "pylib \<Rightarrow> bool" where
  "tolerable L \<longleftrightarrow> (\<forall>obj name err. l_getattr L obj name = AttrRaises err \<longrightarrow> isinstance err PyException)"

lemma safe_getattr_total: "tolerable L \<Longrightarrow> \<exists>v. safe_getattr L obj name dflt = Inr v"
  by (auto simp: safe_getattr_def tolerable_def split: attr.splits)

lemma get_nested_total: "tolerable L \<Longrightarrow> \<exists>v. get_nested L obj names = Inr v"
  by (induction L obj names rule: get_nested.induct) (auto simp: tolerable_def split: attr.splits)

lemma or_else_total: "(\<exists>v. a = Inr v) \<Longrightarrow> (\<exists>v. b = Inr v) \<Longrightarrow> \<exists>v. or_else a b = Inr v"
  by (auto simp: or_else_def)

lemma raw_headers_total: "tolerable L \<Longrightarrow> \<exists>hs. raw_headers L raw = Inr hs"
  using safe_getattr_total [of L raw "''headers''" PNone] by (auto simp: raw_headers_def)

lemma post_init_plain:
  assumes "env_mission_metadata e = PNone" "env_security_labels e = PNone" "env_custody e = PNone"
  shows "\<exists>e'. post_init st items e = Inr e'"
  using assms by (simp add: post_init_def Let_def freeze_metadata_def split: prod.splits)

lemma rbind_ex: "\<exists>x. r = Inr x \<Longrightarrow> (\<And>x. r = Inr x \<Longrightarrow> \<exists>y. f x = Inr y) \<Longrightarrow> \<exists>y. rbind r f = Inr y"
  by auto

lemma rmap_ex: "\<exists>x. r = Inr x \<Longrightarrow> \<exists>y. rmap g r = Inr y"
  by auto

lemma as_int_nonneg: "as_int v = Some n \<Longrightarrow> 0 \<le> n"
  by (auto simp: as_int_def split: option.splits if_splits)

text \<open>The delivery coordinates of a raw message, read the way the adapter reads them.\<close>

definition raw_delivery :: "pylib \<Rightarrow> pyval \<Rightarrow> delivery res" where
  "raw_delivery L raw =
     rbind (safe_getattr L raw ''metadata'' PNone) (\<lambda>metadata.
     rbind (or_else (get_nested L metadata [''sequence'', ''stream'']) (safe_getattr L metadata ''stream_sequence'' PNone))
       (\<lambda>stream_sequence.
     rbind (or_else (get_nested L metadata [''sequence'', ''consumer'']) (safe_getattr L metadata ''consumer_sequence'' PNone))
       (\<lambda>consumer_sequence.
     rbind (rmap (\<lambda>v. safe_text (l_str L) v []) (safe_getattr L raw ''subject'' (PStr []))) (\<lambda>subject.
     rbind (safe_getattr L metadata ''stream'' PNone) (\<lambda>stream.
     rbind (safe_getattr L metadata ''consumer'' PNone) (\<lambda>consumer.
       Inr (subject, safe_optional_text (l_str L) stream, safe_optional_text (l_str L) consumer,
         as_int stream_sequence, as_int consumer_sequence)))))))"

lemma envelope_delivery:
  assumes "envelope_from_nats_message L now mc mission security raw = Inr e"
  shows "raw_delivery L raw = Inr (delivery e)"
  using assms unfolding envelope_from_nats_message_def raw_delivery_def Let_def
  by (auto elim!: rbindE dest!: post_init_delivery simp: delivery_def)

lemma adapter_returns:
  assumes "tolerable L" "\<not> mm_enabled mission" "\<not> slc_enabled security"
  shows "\<exists>e. envelope_from_nats_message L now mc mission security raw = Inr e
    \<and> normal_envelope (l_str L) e
    \<and> (\<forall>n. Some n \<in> {env_stream_sequence e, env_consumer_sequence e, env_pending e} \<longrightarrow> 0 \<le> n)"
proof -
  note g = safe_getattr_total [OF assms(1)]
  obtain md hs where md: "safe_getattr L raw ''metadata'' PNone = Inr md" and hs: "raw_headers L raw = Inr hs"
    using g raw_headers_total [OF assms(1)] by metis
  obtain ss cs where ss: "or_else (get_nested L md [''sequence'', ''stream'']) (safe_getattr L md ''stream_sequence'' PNone) = Inr ss"
    and cs: "or_else (get_nested L md [''sequence'', ''consumer'']) (safe_getattr L md ''consumer_sequence'' PNone) = Inr cs"
    using or_else_total [OF get_nested_total [OF assms(1)] g] by metis
  obtain nd ts su da st co pe re do where attrs:
    "safe_getattr L md ''num_delivered'' PNone = Inr nd" "safe_getattr L md ''timestamp'' PNone = Inr ts"
    "safe_getattr L raw ''subject'' (PStr []) = Inr su" "safe_getattr L raw ''data'' (PBytes []) = Inr da"
    "safe_getattr L md ''stream'' PNone = Inr st" "safe_getattr L md ''consumer'' PNone = Inr co"
    "safe_getattr L md ''num_pending'' PNone = Inr pe" "safe_getattr L raw ''reply'' PNone = Inr re"
    "safe_getattr L md ''domain'' PNone = Inr do"
    using g by metis
  obtain x where x: "envelope_from_nats_message L now mc mission security raw = post_init (l_str L) (header_items hs) x"
    "env_mission_metadata x = PNone" "env_security_labels x = PNone" "env_custody x = PNone"
    "env_stream_sequence x = as_int ss" "env_consumer_sequence x = as_int cs" "env_pending x = as_int pe"
    using assms(2,3)
    by (simp add: envelope_from_nats_message_def md hs ss cs attrs resolve_mission_metadata_def
        resolve_security_label_profile_def Let_def del: get_nested.simps)
  obtain e where e: "post_init (l_str L) (header_items hs) x = Inr e"
    using post_init_plain [OF x(2-4)] by metis
  then have "normal_envelope (l_str L) e" by (simp add: normal_envelope_def post_init_fixed)
  moreover have "env_stream_sequence e = as_int ss" "env_consumer_sequence e = as_int cs" "env_pending e = as_int pe"
    using e x(5-) by (auto simp: post_init_def Let_def elim!: rbindE split: prod.splits)
  moreover have "envelope_from_nats_message L now mc mission security raw = Inr e" by (simp only: x(1) e)
  ultimately show ?thesis
    using as_int_nonneg [of ss] as_int_nonneg [of cs] as_int_nonneg [of pe] by (metis insertE singletonD)
qed


text \<open>A client object whose payload and reply attributes raise, for concrete evaluations.\<close>

definition client_lib :: pylib where
  "client_lib = plain_lib\<lparr>l_getattr := (\<lambda>obj name.
     if obj = PObj 0 then
       (if name = ''metadata'' then Has (PObj 1) else if name = ''subject'' then Has (PStr ''orders.new'')
        else if name = ''headers'' then Has (PDict [(PStr ''x-prio'', PStr '' high ''), (PInt 7, PNone)])
        else if name = ''data'' \<or> name = ''reply'' then AttrRaises (Exn (Subclass ''Error'' PyException) ''gone'') else Missing)
     else if obj = PObj 1 then
       (if name = ''stream'' then Has (PStr ''ORDERS'') else if name = ''stream_sequence'' then Has (PStr '' 42 '')
        else if name = ''num_pending'' then Has (PInt (- 3)) else Missing)
     else Missing)\<rparr>"

definition plain_metadata_config :: metadata_config where
  "plain_metadata_config =
     \<lparr>mc_priority_header = ''X-Prio'', mc_priority_default = Some ''low'', mc_classification_header = ''X-Class'',
      mc_classification_default = Some ''open'', mc_labels_header = ''X-Labels'', mc_labels_default = [],
      mc_rules = [\<lparr>me_subject = ''orders.>'', me_priority = None, me_classification = Some (Some ''secret''), me_labels = None\<rparr>]\<rparr>"

definition no_mission :: mission_config where
  "no_mission = \<lparr>mm_enabled = False, mm_header = ''M'', mm_default = PNone, mm_rules = [], mm_max_bytes = 10, mm_allowed_profiles = []\<rparr>"

definition no_profile :: label_config where
  "no_profile = \<lparr>slc_enabled = False, slc_header = ''L'', slc_default = PNone, slc_rules = [],
     slc_limits = \<lparr>sl_max_bytes = 10, sl_priorities = [], sl_classifications = [], sl_releasability = [],
       sl_handling_caveats = [], sl_retention_categories = []\<rparr>\<rparr>"

lemma client_lib_tolerable: "tolerable client_lib"
  by (simp add: tolerable_def client_lib_def plain_lib_def)


section \<open>Where metadata comes from\<close>

text \<open>The rule order: the first rule that sets the field and matches the subject, else the global default.\<close>

definition first_setting :: "('r \<Rightarrow> 'v option) \<Rightarrow> ('r \<Rightarrow> bool) \<Rightarrow> 'r list \<Rightarrow> 'v \<Rightarrow> 'v \<Rightarrow> bool" where
  "first_setting f m rules dflt v \<longleftrightarrow>
     (\<exists>i<length rules. f (rules ! i) = Some v \<and> m (rules ! i) \<and> (\<forall>j<i. f (rules ! j) = None \<or> \<not> m (rules ! j)))
     \<or> (v = dflt \<and> (\<forall>r\<in>set rules. f r = None \<or> \<not> m r))"

lemma find_first_setting:
  "first_setting f m rules dflt (case find (\<lambda>r. f r \<noteq> None \<and> m r) rules of Some r \<Rightarrow> the (f r) | None \<Rightarrow> dflt)"
proof (cases "find (\<lambda>r. f r \<noteq> None \<and> m r) rules")
  case None
  then have "\<forall>r\<in>set rules. f r = None \<or> \<not> m r" unfolding find_None_iff by blast
  then show ?thesis unfolding None first_setting_def by simp
next
  case (Some r)
  then obtain i where "i < length rules" "f r \<noteq> None" "m r" "r = rules ! i"
    "\<forall>j<i. \<not> (f (rules ! j) \<noteq> None \<and> m (rules ! j))"
    by (auto simp: find_Some_iff)
  then show ?thesis unfolding first_setting_def Some by (intro disjI1 exI [where x = i]) auto
qed

definition rule_matches :: "string \<Rightarrow> metadata_rule \<Rightarrow> bool" where
  "rule_matches subject rule \<longleftrightarrow> matches_subject (PStr (me_subject rule)) (PStr subject)"

text \<open>Message metadata follows the documented precedence.  A configured header that is present wins,
  even when it is blank (the field is then null); otherwise the first subject rule that sets the
  field decides, a null included; otherwise the global default.\<close>

theorem message_metadata_precedence:
  assumes "envelope_from_nats_message L now mc mission security raw = Inr e" "raw_headers L raw = Inr hs"
  shows "\<exists>p c l. first_setting me_priority (rule_matches (env_subject e)) (mc_rules mc) (mc_priority_default mc) p
    \<and> first_setting me_classification (rule_matches (env_subject e)) (mc_rules mc) (mc_classification_default mc) c
    \<and> first_setting me_labels (rule_matches (env_subject e)) (mc_rules mc) (mc_labels_default mc) l
    \<and> env_priority e = (case case_insensitive_header hs (mc_priority_header mc) of
         Some v \<Rightarrow> normalise_metadata_value (l_str L) (PStr v) | None \<Rightarrow> normalise_metadata_value (l_str L) (opt_str p))
    \<and> env_classification e = (case case_insensitive_header hs (mc_classification_header mc) of
         Some v \<Rightarrow> normalise_metadata_value (l_str L) (PStr v) | None \<Rightarrow> normalise_metadata_value (l_str L) (opt_str c))
    \<and> env_labels e = (case case_insensitive_header hs (mc_labels_header mc) of
         Some v \<Rightarrow> normalise_labels_value (l_str L) (PStr v)
       | None \<Rightarrow> normalise_labels_value (l_str L) (PTuple (map PStr l)))"
proof -
  let ?s = "env_subject e"
  obtain x items where x: "post_init (l_str L) items x = Inr e" "env_subject x = ?s"
    "env_priority x = resolve_metadata_field (l_str L) hs (mc_priority_header mc) (priority_default_for_subject mc ?s)"
    "env_classification x = resolve_metadata_field (l_str L) hs (mc_classification_header mc)
       (classification_default_for_subject mc ?s)"
    "env_labels x = resolve_metadata_labels (l_str L) hs (mc_labels_header mc)
       (PTuple (map PStr (labels_default_for_subject mc ?s)))"
    using assms unfolding envelope_from_nats_message_def Let_def
    by (elim rbindE) (rule that, assumption, auto dest: post_init_delivery simp: delivery_def)
  from x(1) have same: "env_priority e = normalise_metadata_value (l_str L) (opt_str (env_priority x))"
    "env_classification e = normalise_metadata_value (l_str L) (opt_str (env_classification x))"
    "env_labels e = normalise_labels_value (l_str L) (PTuple (map PStr (env_labels x)))"
    by (auto simp: post_init_def Let_def elim!: rbindE split: prod.splits)
  have idem: "normalise_metadata_value st (opt_str (normalise_metadata_value st v)) = normalise_metadata_value st v" for st v
    by (cases "normalise_metadata_value st v")
      (auto simp: opt_str_def normalise_metadata_value_id [OF normalise_metadata_value_clean])
  show ?thesis
  proof (intro exI conjI)
    show "first_setting me_priority (rule_matches ?s) (mc_rules mc) (mc_priority_default mc) (priority_default_for_subject mc ?s)"
      unfolding priority_default_for_subject_def rule_matches_def [symmetric] by (rule find_first_setting)
    show "first_setting me_classification (rule_matches ?s) (mc_rules mc) (mc_classification_default mc)
        (classification_default_for_subject mc ?s)"
      unfolding classification_default_for_subject_def rule_matches_def [symmetric] by (rule find_first_setting)
    show "first_setting me_labels (rule_matches ?s) (mc_rules mc) (mc_labels_default mc) (labels_default_for_subject mc ?s)"
      unfolding labels_default_for_subject_def rule_matches_def [symmetric] by (rule find_first_setting)
  qed (simp_all add: same x(3-5) resolve_metadata_field_def resolve_metadata_labels_def idem split: option.split)
qed

lemma message_metadata_precedence_witness:
  "\<exists>e. envelope_from_nats_message client_lib (Aware 0 0) plain_metadata_config no_mission no_profile (PObj 0) = Inr e
    \<and> env_priority e = Some ''high'' \<and> env_classification e = Some ''secret''"
proof -
  let ?r = "envelope_from_nats_message client_lib (Aware 0 0) plain_metadata_config no_mission no_profile (PObj 0)"
  have "\<not> mm_enabled no_mission" "\<not> slc_enabled no_profile" by (simp_all add: no_mission_def no_profile_def)
  then obtain e where e: "?r = Inr e"
    using adapter_returns [OF client_lib_tolerable] by blast
  have "raw_delivery client_lib (PObj 0) = Inr (''orders.new'', Some ''ORDERS'', None, Some 42, None)"
    by code_simp
  with envelope_delivery [OF e] have s: "env_subject e = ''orders.new''" by (simp add: delivery_def)
  have hs: "raw_headers client_lib (PObj 0) = Inr [(''x-prio'', '' high '')]" by code_simp
  have look: "case_insensitive_header [(''x-prio'', '' high '')] (mc_priority_header plain_metadata_config) = Some '' high ''"
    "case_insensitive_header [(''x-prio'', '' high '')] (mc_classification_header plain_metadata_config) = None"
    "normalise_metadata_value (l_str client_lib) (PStr '' high '') = Some ''high''"
    "normalise_metadata_value (l_str client_lib) (opt_str (Some ''secret'')) = Some ''secret''"
    "matches_subject (PStr ''orders.>'') (PStr ''orders.new'')"
    by code_simp+
  have "c = Some ''secret''"
    if "first_setting me_classification (rule_matches ''orders.new'') (mc_rules plain_metadata_config)
        (mc_classification_default plain_metadata_config) c" for c
    using that look(5) by (simp add: first_setting_def plain_metadata_config_def rule_matches_def)
  with message_metadata_precedence [OF e hs, unfolded s look(1,2) option.case look(3)] look(4) e
  show ?thesis by metis
qed

end
