(* ===== verification/Priority.thy ===== *)
theory Priority
  imports Actions BatchStages Consumer
begin

text \<open>
  Priority lanes (\<open>core/priority.py\<close> and the lane section of \<open>core/config.py\<close>): every message of a
  fetched batch goes to one lane, and the lanes are drained by weighted round-robin.
\<close>

section \<open>Lane configuration\<close>

record priority_lane =
  pl_name :: string
  pl_priorities :: "string list"
  pl_weight :: nat

record priority_lanes_config =
  pc_enabled :: bool
  pc_default_lane :: string
  pc_reject_unknown :: bool
  pc_max_length :: nat
  pc_lanes :: "priority_lane list"

definition lane_name_re_matches :: "string \<Rightarrow> bool" where
  "lane_name_re_matches s =
     (case s of [] \<Rightarrow> False
      | c # cs \<Rightarrow> (97::nat) \<le> of_char c \<and> of_char c \<le> (122::nat) \<and> length cs \<le> 63
          \<and> list_all (\<lambda>d. ((97::nat) \<le> of_char d \<and> of_char d \<le> (122::nat))
              \<or> ((48::nat) \<le> of_char d \<and> of_char d \<le> (57::nat)) \<or> d = CHR ''_'' \<or> d = CHR ''-'') cs)"

definition validate_lane_name :: "string \<Rightarrow> string res" where
  "validate_lane_name value =
     (let rendered = lower (strip value) in
      if lane_name_re_matches rendered then Inr rendered else raise ValueError ''invalid priority lane name'')"

fun collect_priorities :: "render \<Rightarrow> string list \<Rightarrow> pyval list \<Rightarrow> string list res" where
  "collect_priorities st priorities [] = Inr priorities"
| "collect_priorities st priorities (item # items) =
     (case normalise_metadata_value st item of
        None \<Rightarrow> raise ValueError ''priority lane priorities must not contain empty values''
      | Some rendered \<Rightarrow>
          (let normalized = casefold rendered in
           if has_control_char normalized
           then raise ValueError ''priority lane priorities must not contain control characters''
           else if normalized \<in> set priorities then collect_priorities st priorities items
           else collect_priorities st (priorities @ [normalized]) items))"

definition normalize_priorities :: "render \<Rightarrow> pyval \<Rightarrow> string list res" where
  "normalize_priorities st value =
     (case value of
        PNone \<Rightarrow> Inr []
      | PStr s \<Rightarrow> collect_priorities st [] [PStr s]
      | PList xs \<Rightarrow> collect_priorities st [] xs
      | PTuple xs \<Rightarrow> collect_priorities st [] xs
      | PSet xs \<Rightarrow> collect_priorities st [] xs
      | _ \<Rightarrow> raise ValueError ''priority lane priorities must be a string or list of strings'')"

definition make_priority_lane :: "render \<Rightarrow> string \<Rightarrow> pyval \<Rightarrow> int \<Rightarrow> priority_lane res" where
  "make_priority_lane st name priorities weight =
     rbind (validate_lane_name name) (\<lambda>n.
     rbind (normalize_priorities st priorities) (\<lambda>ps.
       if 1 \<le> weight \<and> weight \<le> 100
       then Inr \<lparr>pl_name = n, pl_priorities = ps, pl_weight = nat weight\<rparr>
       else raise ValueError ''priority lane weight is out of range''))"

text \<open>The model validator: lane names and priority values are claimed once, the default lane exists.\<close>

fun claim_priorities :: "nat \<Rightarrow> string list \<Rightarrow> string list \<Rightarrow> string list res" where
  "claim_priorities max_length claimed [] = Inr claimed"
| "claim_priorities max_length claimed (priority # priorities) =
     (if max_length < length priority
      then raise ValueError ''priority lane priority values must not exceed the length limit''
      else if priority \<in> set claimed then raise ValueError ''priority value is assigned to two lanes''
      else claim_priorities max_length (claimed @ [priority]) priorities)"

fun check_lanes :: "nat \<Rightarrow> string list \<Rightarrow> string list \<Rightarrow> priority_lane list \<Rightarrow> string list res" where
  "check_lanes max_length names claimed [] = Inr names"
| "check_lanes max_length names claimed (lane # lanes) =
     (if pl_name lane \<in> set names then raise ValueError ''duplicate priority lane name''
      else rbind (claim_priorities max_length claimed (pl_priorities lane)) (\<lambda>claimed'.
        check_lanes max_length (names @ [pl_name lane]) claimed' lanes))"

definition validate_lane_policy :: "priority_lanes_config \<Rightarrow> priority_lanes_config res" where
  "validate_lane_policy c =
     rbind (check_lanes (pc_max_length c) [] [] (pc_lanes c)) (\<lambda>lane_names.
       if pc_default_lane c \<notin> set lane_names
       then raise ValueError ''default_lane must match one configured lane'' else Inr c)"

section \<open>Assignment\<close>

text \<open>\<open>M\<close> is the environment of the metrics recorder, or \<open>None\<close> when no recorder is given.\<close>

definition when_metrics :: "env option \<Rightarrow> (env \<Rightarrow> unit act) \<Rightarrow> unit act" where
  "when_metrics M f = (case M of None \<Rightarrow> ret () | Some E \<Rightarrow> f E)"

definition record_defaulted :: "env option \<Rightarrow> unit act" where
  "record_defaulted M = when_metrics M (\<lambda>E. increment_metric E ''priority_lane_defaulted_total'' 1)"

definition record_rejected :: "env option \<Rightarrow> unit act" where
  "record_rejected M = when_metrics M (\<lambda>E. increment_metric E ''priority_lane_rejected_total'' 1)"

definition validated_priority_value :: "render \<Rightarrow> string option \<Rightarrow> priority_lanes_config \<Rightarrow> string option res" where
  "validated_priority_value st priority c =
     (case normalise_metadata_value st (opt_str priority) of
        None \<Rightarrow> Inr None
      | Some rendered \<Rightarrow>
          if pc_max_length c < length rendered then raise ValidationError ''message priority exceeds length limit''
          else if has_control_char rendered then raise ValidationError ''message priority contains control characters''
          else Inr (Some (casefold rendered)))"

definition priority_lane_name :: "string \<Rightarrow> priority_lanes_config \<Rightarrow> string option" where
  "priority_lane_name priority c = map_option pl_name (find (\<lambda>lane. priority \<in> set (pl_priorities lane)) (pc_lanes c))"

record lane_assignment =
  la_envelope :: nats_envelope
  la_lane :: string
  la_defaulted :: bool

definition assign_priority_lane ::
  "env option \<Rightarrow> render \<Rightarrow> nats_envelope \<Rightarrow> priority_lanes_config \<Rightarrow> lane_assignment act" where
  "assign_priority_lane M st message c =
     bind_act (lift_res (validated_priority_value st (env_priority message) c)) (\<lambda>priority.
       case priority of
         None \<Rightarrow>
           then_act (record_defaulted M)
             (ret \<lparr>la_envelope = message, la_lane = pc_default_lane c, la_defaulted = True\<rparr>)
       | Some p \<Rightarrow>
           (case priority_lane_name p c of
              Some lane \<Rightarrow> ret \<lparr>la_envelope = message, la_lane = lane, la_defaulted = False\<rparr>
            | None \<Rightarrow>
                if pc_reject_unknown c
                then then_act (record_rejected M) (throw (Exn ValidationError ''message priority is not allowed''))
                else then_act (record_defaulted M)
                  (ret \<lparr>la_envelope = message, la_lane = pc_default_lane c, la_defaulted = True\<rparr>)))"

fun assign_all :: "env option \<Rightarrow> render \<Rightarrow> priority_lanes_config \<Rightarrow> nats_envelope list \<Rightarrow> lane_assignment list act" where
  "assign_all M st c [] = ret []"
| "assign_all M st c (e # es) =
     bind_act (assign_priority_lane M st e c) (\<lambda>a. bind_act (assign_all M st c es) (\<lambda>as. ret (a # as)))"

section \<open>Draining the lanes\<close>

type_synonym buckets = "(string \<times> lane_assignment list) list"

fun fill_buckets :: "buckets \<Rightarrow> lane_assignment list \<Rightarrow> buckets res" where
  "fill_buckets buckets [] = Inr buckets"
| "fill_buckets buckets (a # as) =
     (case map_of buckets (la_lane a) of
        None \<Rightarrow> raise ValidationError ''priority lane assignment referenced an unknown lane''
      | Some bucket \<Rightarrow> fill_buckets (AList.update (la_lane a) (bucket @ [a]) buckets) as)"

definition assignment_buckets :: "lane_assignment list \<Rightarrow> priority_lane list \<Rightarrow> buckets res" where
  "assignment_buckets as lanes = fill_buckets (dict_of_pairs (map (\<lambda>lane. (pl_name lane, [])) lanes)) as"

text \<open>One lane's turn: up to \<open>weight\<close> messages, stopping at an empty bucket.\<close>

fun drain_lane :: "nat \<Rightarrow> 'a list \<Rightarrow> 'a list \<Rightarrow> nat \<Rightarrow> bool \<Rightarrow> 'a list \<times> 'a list \<times> nat \<times> bool" where
  "drain_lane 0 bucket ordered remaining progressed = (bucket, ordered, remaining, progressed)"
| "drain_lane (Suc n) [] ordered remaining progressed = ([], ordered, remaining, progressed)"
| "drain_lane (Suc n) (x # bucket) ordered remaining progressed =
     drain_lane n bucket (ordered @ [x]) (remaining - 1) True"

fun drain_pass :: "priority_lane list \<Rightarrow> buckets \<Rightarrow> lane_assignment list \<Rightarrow> nat \<Rightarrow> bool
    \<Rightarrow> (buckets \<times> lane_assignment list \<times> nat \<times> bool) res" where
  "drain_pass [] buckets ordered remaining progressed = Inr (buckets, ordered, remaining, progressed)"
| "drain_pass (lane # lanes) buckets ordered remaining progressed =
     (case map_of buckets (pl_name lane) of
        None \<Rightarrow> raise (Subclass ''KeyError'' PyException) ''lane''
      | Some bucket \<Rightarrow>
          (case drain_lane (pl_weight lane) bucket ordered remaining progressed of
             (bucket', ordered', remaining', progressed') \<Rightarrow>
               drain_pass lanes (AList.update (pl_name lane) bucket' buckets) ordered' remaining' progressed'))"

lemma drain_lane_progress:
  "drain_lane n b out r p = (b', out', r', p') \<Longrightarrow> r' \<le> r \<and> (p' \<longrightarrow> p \<or> r' < r \<or> r = 0)"
proof (induction n b out r p rule: drain_lane.induct)
  case (3 n x b out r p)
  then have "r' \<le> r - 1" by simp
  then show ?case by (cases "r = 0") auto
qed auto

lemma drain_pass_progress:
  "drain_pass lanes bs out r p = Inr (bs', out', r', p') \<Longrightarrow> r' \<le> r \<and> (p' \<longrightarrow> p \<or> r' < r \<or> r = 0)"
proof (induction lanes bs out r p rule: drain_pass.induct)
  case (2 lane lanes bs out r p)
  then obtain b where b: "map_of bs (pl_name lane) = Some b" by (auto simp: raise_def split: option.splits)
  obtain b1 out1 r1 p1 where d: "drain_lane (pl_weight lane) b out r p = (b1, out1, r1, p1)"
    by (cases "drain_lane (pl_weight lane) b out r p") auto
  from "2.IH" [OF b d [symmetric] refl refl] "2.prems" b d have "r' \<le> r1 \<and> (p' \<longrightarrow> p1 \<or> r' < r1 \<or> r1 = 0)"
    by simp
  with drain_lane_progress [OF d] show ?case by auto
qed simp

function drain_loop :: "priority_lane list \<Rightarrow> buckets \<Rightarrow> lane_assignment list \<Rightarrow> nat \<Rightarrow> lane_assignment list res" where
  "drain_loop lanes buckets ordered remaining =
     (if remaining = 0 then Inr ordered
      else (case drain_pass lanes buckets ordered remaining False of
          Inl err \<Rightarrow> Inl err
        | Inr (buckets', ordered', remaining', progressed) \<Rightarrow>
            if \<not> progressed then Inr ordered' else drain_loop lanes buckets' ordered' remaining'))"
  by pat_completeness auto
termination
  by (relation "measure (\<lambda>(lanes, buckets, ordered, remaining). remaining)") (auto dest!: drain_pass_progress)

declare drain_loop.simps [simp del]

definition weighted_round_robin :: "priority_lane list \<Rightarrow> buckets \<Rightarrow> lane_assignment list res" where
  "weighted_round_robin lanes buckets =
     drain_loop lanes buckets [] (sum_list (map (\<lambda>(n, bucket). length bucket) buckets))"

definition order_by_priority_lanes ::
  "env option \<Rightarrow> render \<Rightarrow> nats_envelope list \<Rightarrow> priority_lanes_config \<Rightarrow> nats_envelope list act" where
  "order_by_priority_lanes M st messages c =
     (if messages = [] then ret []
      else if \<not> pc_enabled c then ret messages
      else bind_act (assign_all M st c messages) (\<lambda>as.
        then_act (when_metrics M (\<lambda>E.
            then_act (increment_metric E ''priority_lane_batches_total'' 1)
            (then_act (increment_metric E ''priority_lane_messages_total'' (length as))
              (set_metric_value E ''current_priority_lanes_active''
                (of_nat (length (remdups (map la_lane as))))))))
        (bind_act (lift_res (assignment_buckets as (pc_lanes c))) (\<lambda>buckets.
          bind_act (lift_res (weighted_round_robin (pc_lanes c) buckets)) (\<lambda>ordered.
            ret (map la_envelope ordered))))))"

section \<open>Reference schedule\<close>

text \<open>
  The schedule as a closed form: round \<open>k\<close> takes from every lane its next \<open>weight\<close> messages.  \<open>B\<close> gives
  the messages of a lane in arrival order.
\<close>

definition round_of :: "(priority_lane \<Rightarrow> 'a list) \<Rightarrow> priority_lane list \<Rightarrow> nat \<Rightarrow> 'a list" where
  "round_of B lanes k = concat (map (\<lambda>l. take (pl_weight l) (drop (k * pl_weight l) (B l))) lanes)"

definition rounds :: "(priority_lane \<Rightarrow> 'a list) \<Rightarrow> priority_lane list \<Rightarrow> nat \<Rightarrow> 'a list" where
  "rounds B lanes n = concat (map (round_of B lanes) [0..<n])"

lemma drain_lane_eq:
  "drain_lane n b out r p = (drop n b, out @ take n b, r - min n (length b), p \<or> (0 < n \<and> b \<noteq> []))"
  by (induction n b out r p rule: drain_lane.induct) auto

definition bucket_of :: "buckets \<Rightarrow> priority_lane \<Rightarrow> lane_assignment list" where
  "bucket_of bs l = (case map_of bs (pl_name l) of None \<Rightarrow> [] | Some b \<Rightarrow> b)"

lemma drain_pass_eq:
  assumes "distinct (map pl_name lanes)" "\<forall>l\<in>set lanes. map_of bs (pl_name l) \<noteq> None"
  shows "\<exists>bs'. drain_pass lanes bs out r p =
      Inr (bs', out @ concat (map (\<lambda>l. take (pl_weight l) (bucket_of bs l)) lanes),
        r - sum_list (map (\<lambda>l. min (pl_weight l) (length (bucket_of bs l))) lanes),
        p \<or> (\<exists>l\<in>set lanes. 0 < pl_weight l \<and> bucket_of bs l \<noteq> []))
    \<and> (\<forall>l\<in>set lanes. map_of bs' (pl_name l) = Some (drop (pl_weight l) (bucket_of bs l)))
    \<and> (\<forall>n. n \<notin> pl_name ` set lanes \<longrightarrow> map_of bs' n = map_of bs n)"
  using assms
proof (induction lanes arbitrary: bs out r p)
  case (Cons l lanes)
  then obtain b where b: "map_of bs (pl_name l) = Some b" by auto
  let ?bs = "AList.update (pl_name l) (drop (pl_weight l) b) bs"
  have others: "map_of ?bs n = map_of bs n" if "n \<noteq> pl_name l" for n
    using that by (simp add: update_conv')
  have neq: "pl_name m \<noteq> pl_name l" if "m \<in> set lanes" for m
    using Cons.prems(1) imageI [OF that, of pl_name] by (metis distinct.simps(2) list.set_map list.simps(9))
  then have same: "bucket_of ?bs m = bucket_of bs m" if "m \<in> set lanes" for m
    using that others by (simp add: bucket_of_def)
  have bl: "bucket_of bs l = b" by (simp add: bucket_of_def b)
  have "\<forall>m\<in>set lanes. map_of ?bs (pl_name m) \<noteq> None" using Cons.prems(2) others neq by simp
  from Cons.IH [OF _ this, of "out @ take (pl_weight l) b" "r - min (pl_weight l) (length b)" "p \<or> (0 < pl_weight l \<and> b \<noteq> [])"]
  obtain bs' where bs': "drain_pass lanes ?bs (out @ take (pl_weight l) b) (r - min (pl_weight l) (length b)) (p \<or> (0 < pl_weight l \<and> b \<noteq> []))
      = Inr (bs', (out @ take (pl_weight l) b) @ concat (map (\<lambda>l. take (pl_weight l) (bucket_of ?bs l)) lanes),
        r - min (pl_weight l) (length b) - sum_list (map (\<lambda>l. min (pl_weight l) (length (bucket_of ?bs l))) lanes),
        (p \<or> (0 < pl_weight l \<and> b \<noteq> [])) \<or> (\<exists>l\<in>set lanes. 0 < pl_weight l \<and> bucket_of ?bs l \<noteq> []))"
    and rest: "\<forall>m\<in>set lanes. map_of bs' (pl_name m) = Some (drop (pl_weight m) (bucket_of ?bs m))"
      "\<forall>n. n \<notin> pl_name ` set lanes \<longrightarrow> map_of bs' n = map_of ?bs n"
    using Cons.prems(1) by auto
  have c: "concat (map (\<lambda>l. take (pl_weight l) (bucket_of ?bs l)) lanes) = concat (map (\<lambda>l. take (pl_weight l) (bucket_of bs l)) lanes)"
    "map (\<lambda>l. min (pl_weight l) (length (bucket_of ?bs l))) lanes = map (\<lambda>l. min (pl_weight l) (length (bucket_of bs l))) lanes"
    "(\<exists>l\<in>set lanes. 0 < pl_weight l \<and> bucket_of ?bs l \<noteq> []) = (\<exists>l\<in>set lanes. 0 < pl_weight l \<and> bucket_of bs l \<noteq> [])"
    using same by (auto cong: map_cong bex_cong intro!: arg_cong [where f = concat])
  have "map_of bs' (pl_name l) = Some (drop (pl_weight l) b)"
    using rest(2) Cons.prems(1) by (auto simp: update_conv')
  with rest same others have "\<forall>m\<in>set (l # lanes). map_of bs' (pl_name m) = Some (drop (pl_weight m) (bucket_of bs m))"
    "\<forall>n. n \<notin> pl_name ` set (l # lanes) \<longrightarrow> map_of bs' n = map_of bs n"
    by (auto simp: bl)
  moreover have "drain_pass (l # lanes) bs out r p =
      Inr (bs', out @ concat (map (\<lambda>l. take (pl_weight l) (bucket_of bs l)) (l # lanes)),
        r - sum_list (map (\<lambda>l. min (pl_weight l) (length (bucket_of bs l))) (l # lanes)),
        p \<or> (\<exists>m\<in>set (l # lanes). 0 < pl_weight m \<and> bucket_of bs m \<noteq> []))"
    using bs' by (simp add: b drain_lane_eq c bl)
  ultimately show ?case by blast
qed simp

lemma sum_drop:
  "sum_list (map (\<lambda>l. length (drop (w l) (f l))) ls)
     = sum_list (map (\<lambda>l. length (f l)) ls) - sum_list (map (\<lambda>l. min (w l) (length (f l :: 'b list)) :: nat) ls)"
proof -
  have "sum_list (map (\<lambda>l. length (f l)) ls)
      = sum_list (map (\<lambda>l. length (drop (w l) (f l))) ls) + sum_list (map (\<lambda>l. min (w l) (length (f l))) ls)"
    by (induction ls) auto
  then show ?thesis by simp
qed

lemma drain_loop_rounds:
  assumes "distinct (map pl_name lanes)" "\<forall>l\<in>set lanes. 1 \<le> pl_weight l"
    and "\<forall>l\<in>set lanes. map_of bs (pl_name l) = Some (drop (k * pl_weight l) (B l))"
    and "r = sum_list (map (\<lambda>l. length (drop (k * pl_weight l) (B l))) lanes)"
  shows "\<exists>n. drain_loop lanes bs (rounds B lanes k) r = Inr (rounds B lanes n)
    \<and> (\<forall>l\<in>set lanes. length (B l) \<le> n * pl_weight l)"
  using assms(3,4)
proof (induction r arbitrary: bs k rule: less_induct)
  case (less r)
  show ?case
  proof (cases "r = 0")
    case True
    then have "\<forall>l\<in>set lanes. length (B l) \<le> k * pl_weight l" using less.prems(2) by (auto simp: sum_list_eq_0_iff)
    with True show ?thesis by (auto simp: drain_loop.simps)
  next
    case False
    have bk: "bucket_of bs l = drop (k * pl_weight l) (B l)" if "l \<in> set lanes" for l
      using less.prems(1) that by (simp add: bucket_of_def)
    have "\<forall>l\<in>set lanes. map_of bs (pl_name l) \<noteq> None" using less.prems(1) by simp
    from drain_pass_eq [OF assms(1) this, of "rounds B lanes k" r False] obtain bs' where
      pass: "drain_pass lanes bs (rounds B lanes k) r False =
        Inr (bs', rounds B lanes k @ concat (map (\<lambda>l. take (pl_weight l) (bucket_of bs l)) lanes),
          r - sum_list (map (\<lambda>l. min (pl_weight l) (length (bucket_of bs l))) lanes),
          False \<or> (\<exists>l\<in>set lanes. 0 < pl_weight l \<and> bucket_of bs l \<noteq> []))"
      and bs': "\<forall>l\<in>set lanes. map_of bs' (pl_name l) = Some (drop (pl_weight l) (bucket_of bs l))"
      by blast
    have out: "rounds B lanes k @ concat (map (\<lambda>l. take (pl_weight l) (bucket_of bs l)) lanes) = rounds B lanes (Suc k)"
      using bk by (simp add: rounds_def round_of_def cong: map_cong)
    let ?r = "r - sum_list (map (\<lambda>l. min (pl_weight l) (length (bucket_of bs l))) lanes)"
    have r': "?r = sum_list (map (\<lambda>l. length (drop (Suc k * pl_weight l) (B l))) lanes)"
      using sum_drop [of pl_weight "\<lambda>l. drop (k * pl_weight l) (B l)" lanes] bk
      by (simp add: less.prems(2) add.commute cong: map_cong)
    from False less.prems(2) obtain l where "l \<in> set lanes" "drop (k * pl_weight l) (B l) \<noteq> []"
      by (auto simp: sum_list_eq_0_iff)
    with bk assms(2) have progressed: "\<exists>l\<in>set lanes. 0 < pl_weight l \<and> bucket_of bs l \<noteq> []"
      by (intro bexI [of _ l]) auto
    then have "?r < r" using drain_pass_progress [OF pass] False by simp
    moreover have "\<forall>l\<in>set lanes. map_of bs' (pl_name l) = Some (drop (Suc k * pl_weight l) (B l))"
      using bs' bk by (simp add: add.commute)
    ultimately obtain n where "drain_loop lanes bs' (rounds B lanes (Suc k)) ?r = Inr (rounds B lanes n)"
      "\<forall>l\<in>set lanes. length (B l) \<le> n * pl_weight l"
      using less.IH [of ?r bs' "Suc k"] r' by blast
    then show ?thesis using False pass progressed out by (subst drain_loop.simps) auto
  qed
qed

text \<open>A closed-form schedule keeps every lane in order and serves it in every round.\<close>

lemma concat_take_drop: "concat (map (\<lambda>k. take w (drop (k * w) xs)) [0..<n]) = take (n * w) xs"
proof (induction n)
  case (Suc n)
  have "take (n * w + w) xs = take (n * w) xs @ take w (drop (n * w) xs)" by (rule take_add)
  with Suc show ?case by (simp add: add.commute)
qed simp

lemma filter_round:
  assumes "distinct (map pl_name lanes)" "l \<in> set lanes" "\<And>m x. m \<in> set lanes \<Longrightarrow> x \<in> set (B m) \<Longrightarrow> f x = pl_name m"
  shows "filter (\<lambda>x. f x = pl_name l) (round_of B lanes k) = take (pl_weight l) (drop (k * pl_weight l) (B l))"
  using assms
proof (induction lanes)
  case (Cons m lanes)
  have elem: "f x = pl_name m" if "x \<in> set (take (pl_weight m) (drop (k * pl_weight m) (B m)))" for x
    using Cons.prems(3) that by (meson in_set_dropD in_set_takeD list.set_intros(1))
  show ?case
  proof (cases "l = m")
    case True
    have "filter (\<lambda>x. f x = pl_name l) (round_of B lanes k) = []"
    proof -
      have "f x \<noteq> pl_name l" if x: "x \<in> set (round_of B lanes k)" for x
      proof -
        from x obtain m' where m': "m' \<in> set lanes" "x \<in> set (B m')"
          by (auto simp: round_of_def dest!: in_set_takeD in_set_dropD)
        then have "f x = pl_name m'" using Cons.prems(3) by simp
        with m'(1) Cons.prems(1) True show ?thesis by (metis distinct.simps(2) imageI list.set_map list.simps(9))
      qed
      then show ?thesis by (simp add: filter_empty_conv)
    qed
    with True elem show ?thesis by (simp add: round_of_def filter_id_conv)
  next
    case False
    then have l: "l \<in> set lanes" using Cons.prems(2) by simp
    then have "pl_name m \<noteq> pl_name l" using Cons.prems(1) by (metis distinct.simps(2) imageI list.set_map list.simps(9))
    then have "filter (\<lambda>x. f x = pl_name l) (take (pl_weight m) (drop (k * pl_weight m) (B m))) = []"
      using elem by (auto simp: filter_empty_conv)
    moreover have "filter (\<lambda>x. f x = pl_name l) (round_of B lanes k) = take (pl_weight l) (drop (k * pl_weight l) (B l))"
      using Cons.IH l Cons.prems(1,3) by simp
    ultimately show ?thesis by (simp add: round_of_def)
  qed
qed simp

lemma filter_rounds:
  assumes "distinct (map pl_name lanes)" "l \<in> set lanes" "\<And>m x. m \<in> set lanes \<Longrightarrow> x \<in> set (B m) \<Longrightarrow> f x = pl_name m"
  shows "filter (\<lambda>x. f x = pl_name l) (rounds B lanes n) = take (n * pl_weight l) (B l)"
proof -
  have "filter (\<lambda>x. f x = pl_name l) (round_of B lanes k) = take (pl_weight l) (drop (k * pl_weight l) (B l))" for k
    by (rule filter_round [OF assms]) auto
  then show ?thesis by (simp add: rounds_def filter_concat comp_def concat_take_drop)
qed

lemma set_rounds: "x \<in> set (rounds B lanes n) \<Longrightarrow> \<exists>l\<in>set lanes. x \<in> set (B l)"
  by (auto simp: rounds_def round_of_def dest!: in_set_takeD in_set_dropD)

lemma length_rounds: "length (rounds B lanes n) \<le> n * sum_list (map pl_weight lanes)"
proof -
  have "length (round_of B lanes k) \<le> sum_list (map pl_weight lanes)" for k
    by (induction lanes) (auto simp: round_of_def)
  then show ?thesis by (induction n) (auto simp: rounds_def add.commute intro: add_mono)
qed

lemma rounds_prefix: "n \<le> m \<Longrightarrow> \<exists>ys. rounds B lanes m = rounds B lanes n @ ys"
proof -
  assume "n \<le> m"
  then have "[0..<m] = [0..<n] @ [n..<m]" by (metis le0 upt_add_eq_append le_add_diff_inverse)
  then show ?thesis by (simp add: rounds_def)
qed

lemma served_in_prefix:
  assumes "distinct (map pl_name lanes)" "l \<in> set lanes" "\<And>m x. m \<in> set lanes \<Longrightarrow> x \<in> set (B m) \<Longrightarrow> f x = pl_name m"
    and full: "length (B l) \<le> m * pl_weight l"
  shows "min (n * pl_weight l) (length (B l))
    \<le> length (filter (\<lambda>x. f x = pl_name l) (take (n * sum_list (map pl_weight lanes)) (rounds B lanes m)))"
proof (cases "n \<le> m")
  case True
  then obtain ys where ys: "rounds B lanes m = rounds B lanes n @ ys" using rounds_prefix by blast
  then obtain zs where "take (n * sum_list (map pl_weight lanes)) (rounds B lanes m) = rounds B lanes n @ zs"
    using length_rounds [of B lanes n] by (simp add: take_append)
  then show ?thesis using filter_rounds [of lanes l B f n, OF assms(1-3)] by auto
next
  case False
  then have "m * sum_list (map pl_weight lanes) \<le> n * sum_list (map pl_weight lanes)" by simp
  with length_rounds [of B lanes m] have "length (rounds B lanes m) \<le> n * sum_list (map pl_weight lanes)"
    by (rule order_trans)
  then have "take (n * sum_list (map pl_weight lanes)) (rounds B lanes m) = rounds B lanes m"
    by simp
  then show ?thesis using filter_rounds [of lanes l B f m, OF assms(1-3)] full by auto
qed

lemma mset_by_class:
  assumes "\<forall>x\<in>set xs \<union> set ys. f x \<in> C" "\<forall>c\<in>C. filter (\<lambda>x. f x = c) xs = filter (\<lambda>x. f x = c) ys"
  shows "mset xs = mset ys"
proof (rule multiset_eqI)
  fix a
  have *: "count (mset zs) a = count (mset (filter (\<lambda>x. f x = f a) zs)) a" for zs
    by (induction zs) auto
  show "count (mset xs) a = count (mset ys) a"
  proof (cases "f a \<in> C")
    case True
    with assms(2) show ?thesis by (subst (1 2) *) simp
  next
    case False
    with assms(1) have "a \<notin># mset xs" "a \<notin># mset ys" by auto
    then show ?thesis by (simp only: not_in_iff)
  qed
qed

section \<open>Buckets\<close>

lemma fill_buckets_keys: "fill_buckets bs as = Inr bs' \<Longrightarrow> map fst bs' = map fst bs"
proof (induction as arbitrary: bs)
  case (Cons a as)
  then obtain b where b: "map_of bs (la_lane a) = Some b"
    "fill_buckets (AList.update (la_lane a) (b @ [a]) bs) as = Inr bs'"
    by (auto simp: raise_def split: option.splits)
  then have "la_lane a \<in> fst ` set bs" by (metis domI dom_map_of_conv_image_fst)
  with Cons.IH [OF b(2)] show ?case by (simp add: update_keys)
qed simp

lemma fill_buckets_filter:
  assumes "fill_buckets bs as = Inr bs'" "map_of bs n = Some b"
  shows "map_of bs' n = Some (b @ filter (\<lambda>a. la_lane a = n) as)"
  using assms
proof (induction as arbitrary: bs b)
  case (Cons a as)
  then obtain c where c: "map_of bs (la_lane a) = Some c"
    "fill_buckets (AList.update (la_lane a) (c @ [a]) bs) as = Inr bs'"
    by (auto simp: raise_def split: option.splits)
  show ?case
    using Cons.IH [OF c(2), of "if la_lane a = n then c @ [a] else b"] Cons.prems(2) c(1) by (auto simp: update_conv')
qed simp

lemma fill_buckets_total:
  "\<forall>a\<in>set as. la_lane a \<in> fst ` set bs \<Longrightarrow> \<exists>bs'. fill_buckets bs as = Inr bs'"
proof (induction as arbitrary: bs)
  case (Cons a as)
  then obtain b where "map_of bs (la_lane a) = Some b" by (auto simp: domD dom_map_of_conv_image_fst [symmetric])
  with Cons show ?case by (simp add: update_keys dom_update)
qed simp

lemma weighted_round_robin_rounds:
  assumes "distinct (map pl_name lanes)" "\<forall>l\<in>set lanes. 1 \<le> pl_weight l" "\<forall>a\<in>set as. la_lane a \<in> pl_name ` set lanes"
  shows "\<exists>bs n. assignment_buckets as lanes = Inr bs
    \<and> weighted_round_robin lanes bs = Inr (rounds (\<lambda>l. filter (\<lambda>a. la_lane a = pl_name l) as) lanes n)
    \<and> (\<forall>l\<in>set lanes. length (filter (\<lambda>a. la_lane a = pl_name l) as) \<le> n * pl_weight l)"
proof -
  let ?B = "\<lambda>l. filter (\<lambda>a. la_lane a = pl_name l) as"
  let ?e = "map (\<lambda>lane. (pl_name lane, [] :: lane_assignment list)) lanes"
  have e: "dict_of_pairs ?e = ?e" using assms(1) by (intro dict_of_pairs_distinct) (simp add: comp_def)
  obtain bs where bs: "fill_buckets ?e as = Inr bs"
    using fill_buckets_total [of as ?e] assms(3) by (auto simp: image_image)
  have empty: "map_of ?e (pl_name l) = Some []" if "l \<in> set lanes" for l
    using that by (induction lanes) auto
  have bl: "\<forall>l\<in>set lanes. map_of bs (pl_name l) = Some (?B l)"
    using fill_buckets_filter [OF bs empty] by simp
  have keys: "map fst bs = map pl_name lanes" using fill_buckets_keys [OF bs] by (simp add: comp_def)
  have "map (\<lambda>(n, b). length b) bs = map (\<lambda>n. length (the (map_of bs n))) (map fst bs)"
  proof -
    have "distinct (map fst bs)" using assms(1) keys by simp
    then have "length b = length (the (map_of bs n))" if "(n, b) \<in> set bs" for n b
      using that by simp
    then show ?thesis by auto
  qed
  also have "\<dots> = map (\<lambda>l. length (?B l)) lanes"
    using bl by (simp add: keys comp_def cong: map_cong)
  finally have total: "sum_list (map (\<lambda>(n, b). length b) bs) = sum_list (map (\<lambda>l. length (drop (0 * pl_weight l) (?B l))) lanes)"
    by simp
  have "\<forall>l\<in>set lanes. map_of bs (pl_name l) = Some (drop (0 * pl_weight l) (?B l))" using bl by simp
  from drain_loop_rounds [OF assms(1,2) this total] obtain n where
    "drain_loop lanes bs (rounds ?B lanes 0) (sum_list (map (\<lambda>(n, b). length b) bs)) = Inr (rounds ?B lanes n)"
    "\<forall>l\<in>set lanes. length (?B l) \<le> n * pl_weight l"
    by blast
  then show ?thesis using bs e by (auto simp: assignment_buckets_def weighted_round_robin_def rounds_def)
qed

section \<open>Configured lanes\<close>

definition lanes_valid :: "priority_lanes_config \<Rightarrow> bool" where
  "lanes_valid c \<longleftrightarrow> validate_lane_policy c = Inr c \<and> (\<forall>l\<in>set (pc_lanes c). 1 \<le> pl_weight l \<and> pl_weight l \<le> 100)"

lemma check_lanes_names:
  "check_lanes m names claimed lanes = Inr ns \<Longrightarrow> distinct names \<Longrightarrow>
   ns = names @ map pl_name lanes \<and> distinct (names @ map pl_name lanes)"
proof (induction lanes arbitrary: names claimed)
  case (Cons l lanes)
  then obtain claimed' where "pl_name l \<notin> set names" "check_lanes m (names @ [pl_name l]) claimed' lanes = Inr ns"
    by (auto simp: raise_def split: if_splits elim!: rbindE)
  with Cons.IH [of "names @ [pl_name l]" claimed'] Cons.prems(2) show ?case by simp
qed simp

lemma lanes_validD:
  assumes "lanes_valid c"
  shows "distinct (map pl_name (pc_lanes c))" "pc_default_lane c \<in> pl_name ` set (pc_lanes c)"
    "\<forall>l\<in>set (pc_lanes c). 1 \<le> pl_weight l"
proof -
  obtain ns where "check_lanes (pc_max_length c) [] [] (pc_lanes c) = Inr ns" "pc_default_lane c \<in> set ns"
    using assms by (auto simp: lanes_valid_def validate_lane_policy_def raise_def split: if_splits elim!: rbindE)
  with check_lanes_names [of "pc_max_length c" "[]" "[]" "pc_lanes c" ns]
  show "distinct (map pl_name (pc_lanes c))" "pc_default_lane c \<in> pl_name ` set (pc_lanes c)" by auto
  show "\<forall>l\<in>set (pc_lanes c). 1 \<le> pl_weight l" using assms by (simp add: lanes_valid_def)
qed

text \<open>The lane of a message, without the metric updates.\<close>

definition lane_choice :: "render \<Rightarrow> priority_lanes_config \<Rightarrow> nats_envelope \<Rightarrow> string option" where
  "lane_choice st c e =
     (case validated_priority_value st (env_priority e) c of
        Inl err \<Rightarrow> None
      | Inr None \<Rightarrow> Some (pc_default_lane c)
      | Inr (Some p) \<Rightarrow> (case priority_lane_name p c of Some lane \<Rightarrow> Some lane
          | None \<Rightarrow> if pc_reject_unknown c then None else Some (pc_default_lane c)))"

lemma act_Inr [simp]:
  "bind_act m f t = (Inr y, t') \<longleftrightarrow> (\<exists>x u. m t = (Inr x, u) \<and> f x u = (Inr y, t'))"
  "then_act m n t = (Inr y, t') \<longleftrightarrow> (\<exists>x u. m t = (Inr x, u) \<and> n u = (Inr y, t'))"
  "ret x t = (Inr y, t') \<longleftrightarrow> x = y \<and> t = t'"
  "lift_res r t = (Inr y, t') \<longleftrightarrow> r = Inr y \<and> t = t'"
  "throw err t = (Inr y, t') \<longleftrightarrow> False"
  by (auto simp: bind_act_def then_act_def ret_def lift_res_def throw_def split: prod.splits sum.splits)

lemma assign_priority_lane_Inr:
  "assign_priority_lane M st e c t = (Inr a, t') \<Longrightarrow> la_envelope a = e \<and> lane_choice st c e = Some (la_lane a)"
proof -
  assume "assign_priority_lane M st e c t = (Inr a, t')"
  then obtain p where p: "validated_priority_value st (env_priority e) c = Inr p" and
    rest: "(case p of None \<Rightarrow> then_act (record_defaulted M)
             (ret \<lparr>la_envelope = e, la_lane = pc_default_lane c, la_defaulted = True\<rparr>)
       | Some p \<Rightarrow> (case priority_lane_name p c of
              Some lane \<Rightarrow> ret \<lparr>la_envelope = e, la_lane = lane, la_defaulted = False\<rparr>
            | None \<Rightarrow> if pc_reject_unknown c
                then then_act (record_rejected M) (throw (Exn ValidationError ''message priority is not allowed''))
                else then_act (record_defaulted M)
                  (ret \<lparr>la_envelope = e, la_lane = pc_default_lane c, la_defaulted = True\<rparr>))) t = (Inr a, t')"
    by (auto simp: assign_priority_lane_def)
  show ?thesis
  proof (cases p)
    case None
    with rest p show ?thesis by (auto simp: lane_choice_def)
  next
    case (Some q)
    with rest p show ?thesis by (cases "priority_lane_name q c") (auto simp: lane_choice_def split: if_splits)
  qed
qed

lemma assign_all_Inr:
  "assign_all M st c es t = (Inr as, t') \<Longrightarrow>
   map la_envelope as = es \<and> (\<forall>a\<in>set as. lane_choice st c (la_envelope a) = Some (la_lane a))"
  by (induction es arbitrary: t as) (auto dest!: assign_priority_lane_Inr)

lemma lane_choice_known:
  "lanes_valid c \<Longrightarrow> lane_choice st c e = Some n \<Longrightarrow> n \<in> pl_name ` set (pc_lanes c)"
  by (auto simp: lane_choice_def priority_lane_name_def find_Some_iff lanes_validD(2)
      split: sum.splits option.splits if_splits)

definition in_lane :: "render \<Rightarrow> priority_lanes_config \<Rightarrow> priority_lane \<Rightarrow> nats_envelope \<Rightarrow> bool" where
  "in_lane st c l e \<longleftrightarrow> lane_choice st c e = Some (pl_name l)"

lemma order_Inr:
  assumes "order_by_priority_lanes M st messages c t = (Inr out, t')" "lanes_valid c" "pc_enabled c" "messages \<noteq> []"
  obtains as :: "lane_assignment list" and n where "map la_envelope as = messages" "\<forall>a\<in>set as. lane_choice st c (la_envelope a) = Some (la_lane a)"
    "out = map la_envelope (rounds (\<lambda>l. filter (\<lambda>a. la_lane a = pl_name l) as) (pc_lanes c) n)"
    "\<forall>l\<in>set (pc_lanes c). length (filter (\<lambda>a. la_lane a = pl_name l) as) \<le> n * pl_weight l"
proof -
  from assms obtain as bs ordered u where as: "assign_all M st c messages t = (Inr as, u)"
    and b: "assignment_buckets as (pc_lanes c) = Inr bs" "weighted_round_robin (pc_lanes c) bs = Inr ordered"
    and out: "out = map la_envelope ordered"
    by (auto simp: order_by_priority_lanes_def)
  note a = assign_all_Inr [OF as]
  then have "\<forall>a\<in>set as. la_lane a \<in> pl_name ` set (pc_lanes c)"
    using lane_choice_known [OF assms(2)] by blast
  from weighted_round_robin_rounds [OF lanes_validD(1,3) [OF assms(2)] this] b obtain n where
    "ordered = rounds (\<lambda>l. filter (\<lambda>a. la_lane a = pl_name l) as) (pc_lanes c) n"
    "\<forall>l\<in>set (pc_lanes c). length (filter (\<lambda>a. la_lane a = pl_name l) as) \<le> n * pl_weight l"
    by auto
  then show thesis using that [of as n] a by (simp add: out)
qed

lemma order_schedule:
  assumes "order_by_priority_lanes M st messages c t = (Inr out, t')" "lanes_valid c" "pc_enabled c"
  shows "mset out = mset messages
    \<and> (\<forall>l\<in>set (pc_lanes c). filter (in_lane st c l) out = filter (in_lane st c l) messages
        \<and> (\<forall>n. min (n * pl_weight l) (length (filter (in_lane st c l) messages))
             \<le> length (filter (in_lane st c l) (take (n * sum_list (map pl_weight (pc_lanes c))) out))))"
proof (cases "messages = []")
  case True
  with assms(1) show ?thesis by (auto simp: order_by_priority_lanes_def)
next
  case False
  let ?lanes = "pc_lanes c"
  obtain as :: "lane_assignment list" and m where as: "map la_envelope as = messages" "\<forall>a\<in>set as. lane_choice st c (la_envelope a) = Some (la_lane a)"
    and out: "out = map la_envelope (rounds (\<lambda>l. filter (\<lambda>a. la_lane a = pl_name l) as) ?lanes m)"
    and full: "\<forall>l\<in>set ?lanes. length (filter (\<lambda>a. la_lane a = pl_name l) as) \<le> m * pl_weight l"
    by (rule order_Inr [OF assms False])
  let ?B = "\<lambda>l. filter (\<lambda>a. la_lane a = pl_name l) as"
  let ?R = "rounds ?B ?lanes m"
  have B: "la_lane x = pl_name l" if "x \<in> set (?B l)" for l x using that by simp
  note dist = lanes_validD(1) [OF assms(2)]
  have sub: "set ?R \<subseteq> set as" by (auto dest: set_rounds)
  have lane: "filter (in_lane st c l) (map la_envelope xs) = map la_envelope (filter (\<lambda>a. la_lane a = pl_name l) xs)"
    if "set xs \<subseteq> set as" for xs l
    using that as(2) by (induction xs) (auto simp: in_lane_def)
  have known: "la_lane a \<in> pl_name ` set ?lanes" if "a \<in> set as" for a
    using lane_choice_known [OF assms(2)] as(2) that by blast
  have all: "filter (\<lambda>a. la_lane a = pl_name l) ?R = ?B l" if "l \<in> set ?lanes" for l
    using filter_rounds [OF dist that, of ?B la_lane m] B full that by simp
  have msgs: "filter (in_lane st c l) messages = map la_envelope (?B l)" for l
    using lane [OF order_refl] by (simp only: as(1) [symmetric])
  have "mset ?R = mset as"
    by (rule mset_by_class [where f = "\<lambda>a :: lane_assignment. la_lane a" and C = "pl_name ` set ?lanes"]) (use sub known all in auto)
  then have "mset out = mset messages" by (simp only: out as(1) [symmetric] mset_map)
  moreover have "filter (in_lane st c l) out = filter (in_lane st c l) messages" if "l \<in> set ?lanes" for l
    by (simp only: out msgs lane [OF sub] all [OF that])
  moreover have "min (n * pl_weight l) (length (filter (in_lane st c l) messages))
      \<le> length (filter (in_lane st c l) (take (n * sum_list (map pl_weight ?lanes)) out))" if l: "l \<in> set ?lanes" for l n
  proof -
    have part: "set (take k ?R) \<subseteq> set as" for k using sub set_take_subset by (rule subset_trans [rotated])
    have full': "length (?B l) \<le> m * pl_weight l" using full l by (rule bspec)
    from served_in_prefix [of ?lanes l ?B la_lane m n, OF dist l B full'] show ?thesis
      by (simp only: out msgs take_map lane [OF part] length_map)
  qed
  ultimately show ?thesis by blast
qed

text \<open>C14: the lane scheduler reorders but loses nothing and starves nobody.  With a validated lane policy
  the scheduled batch is a permutation of the input; inside every lane the arrival order is kept;
  and after n full rounds, that is after at most n times the total weight of messages, every lane
  has had its weight in messages n times over, or is empty.\<close>

theorem priority_schedule_fair:
  assumes "order_by_priority_lanes M st messages c t = (Inr out, t')" "lanes_valid c" "pc_enabled c"
  shows "mset out = mset messages
    \<and> (\<forall>l\<in>set (pc_lanes c). filter (in_lane st c l) out = filter (in_lane st c l) messages
        \<and> (\<forall>n. min (n * pl_weight l) (length (filter (in_lane st c l) messages))
             \<le> length (filter (in_lane st c l) (take (n * sum_list (map pl_weight (pc_lanes c))) out))))"
  using assms by (rule order_schedule)

definition two_lanes :: priority_lanes_config where
  "two_lanes =
     \<lparr>pc_enabled = True, pc_default_lane = ''bulk'', pc_reject_unknown = False, pc_max_length = 64,
      pc_lanes = [\<lparr>pl_name = ''fast'', pl_priorities = [''urgent''], pl_weight = 2\<rparr>,
                  \<lparr>pl_name = ''bulk'', pl_priorities = [], pl_weight = 1\<rparr>]\<rparr>"

definition prioritised :: "int \<Rightarrow> string option \<Rightarrow> nats_envelope" where
  "prioritised n p = (sample_envelope ''a'' n [])\<lparr>env_priority := p\<rparr>"

lemma two_lanes_valid: "lanes_valid two_lanes"
  by (simp add: lanes_valid_def two_lanes_def validate_lane_policy_def)

lemma priority_schedule_fair_witness:
  "\<exists>t. order_by_priority_lanes None (\<lambda>_. None)
      [prioritised 1 None, prioritised 2 (Some ''Urgent''), prioritised 3 (Some ''URGENT''), prioritised 4 (Some ''urgent'')] two_lanes []
      = (Inr [prioritised 2 (Some ''Urgent''), prioritised 3 (Some ''URGENT''), prioritised 1 None, prioritised 4 (Some ''urgent'')], t)
    \<and> mset [prioritised 2 (Some ''Urgent''), prioritised 3 (Some ''URGENT''), prioritised 1 None, prioritised 4 (Some ''urgent'')]
      = mset [prioritised 1 None, prioritised 2 (Some ''Urgent''), prioritised 3 (Some ''URGENT''), prioritised 4 (Some ''urgent'')]"
proof -
  have run: "order_by_priority_lanes None (\<lambda>_. None)
      [prioritised 1 None, prioritised 2 (Some ''Urgent''), prioritised 3 (Some ''URGENT''), prioritised 4 (Some ''urgent'')] two_lanes []
      = (Inr [prioritised 2 (Some ''Urgent''), prioritised 3 (Some ''URGENT''), prioritised 1 None, prioritised 4 (Some ''urgent'')], [])"
    by code_simp
  have "pc_enabled two_lanes" by (simp add: two_lanes_def)
  from priority_schedule_fair [OF run two_lanes_valid this] run show ?thesis by auto
qed

text \<open>A lane policy object that exists has passed the validators.\<close>

typedef lane_policy = "{c. lanes_valid c}"
  using two_lanes_valid by blast

setup_lifting type_definition_lane_policy

lift_definition lane_config :: "lane_policy \<Rightarrow> priority_lanes_config" is "\<lambda>c. c" .

lemma lane_config_valid: "lanes_valid (lane_config p)"
  by transfer

text \<open>The scheduler as a stage of the pipeline: it covers exactly the messages it was given.\<close>

definition priority_stage :: "env option \<Rightarrow> render \<Rightarrow> lane_policy \<Rightarrow> nats_envelope list \<Rightarrow> nats_envelope list act" where
  "priority_stage M st p es = order_by_priority_lanes M st es (lane_config p)"

interpretation priority: batch_stage "\<lambda>es. fst (priority_stage M st p es t)"
proof
  fix es es' assume "fst (priority_stage M st p es t) = Inr es'"
  then obtain t' where run: "order_by_priority_lanes M st es (lane_config p) t = (Inr es', t')"
    by (cases "priority_stage M st p es t") (auto simp: priority_stage_def)
  have "mset es' = mset es"
  proof (cases "pc_enabled (lane_config p)")
    case True
    then show ?thesis using order_schedule [OF run lane_config_valid] by blast
  next
    case False
    with run show ?thesis by (auto simp: order_by_priority_lanes_def split: if_splits)
  qed
  then show "mset (map delivery es') = mset (map delivery es)" by simp
qed

end
