(* ===== verification/Retry.thy ===== *)
theory Retry
  imports PyValues
begin

text \<open>
  The retry policy (\<open>core/retry.py\<close>).  Delays are exact rationals: the rounding of binary floats
  is not modelled, but the overflow to infinity of the exponential mode is, with the bound
  \<open>float_max\<close> of a binary64 number.  The random source is an argument: the number it returns on
  this call, which may be any float, infinities and NaN included.
\<close>

datatype backoff_mode = Fixed | Linear | Exponential | OtherMode string
datatype jitter_mode = NoJitter | FullJitter | EqualJitter | OtherJitter string

record retry_policy =
  max_retries :: int
  backoff_ms :: int
  max_backoff_ms :: int
  backoff_mode :: backoff_mode
  backoff_multiplier :: pyfloat
  jitter :: jitter_mode

definition float_max :: rat where
  "float_max = (2 ^ 53 - 1) * 2 ^ 971"

fun finite_value :: "pyfloat \<Rightarrow> rat option" where
  "finite_value (FFin q) = Some q"
| "finite_value _ = None"

text \<open>
  \<open>__post_init__\<close>: the three integer fields arrive untyped, since a \<open>bool\<close> is an \<open>int\<close> in
  Python and is refused; the result is the validated policy.
\<close>

definition non_negative_int :: "pyval \<Rightarrow> string \<Rightarrow> int res" where
  "non_negative_int v msg =
     (case v of
        PInt i \<Rightarrow> if i < 0 then raise ValueError msg else Inr i
      | PBool b \<Rightarrow> raise ValueError msg
      | _ \<Rightarrow> raise TypeError ''not an integer'')"

definition make_retry_policy ::
  "pyval \<Rightarrow> pyval \<Rightarrow> pyval \<Rightarrow> backoff_mode \<Rightarrow> pyfloat \<Rightarrow> jitter_mode \<Rightarrow> retry_policy res" where
  "make_retry_policy retries ms cap mode multiplier jit =
     rbind (non_negative_int retries ''max_retries must be greater than or equal to zero'') (\<lambda>r.
     rbind (non_negative_int ms ''backoff_ms must be greater than or equal to zero'') (\<lambda>b.
     rbind (non_negative_int cap ''max_backoff_ms must be greater than or equal to zero'') (\<lambda>m.
       if m < b then raise ValueError ''max_backoff_ms must be greater than or equal to backoff_ms''
       else if mode \<notin> {Fixed, Linear, Exponential}
         then raise ValueError ''backoff_mode must be fixed, linear, or exponential''
       else if jit \<notin> {NoJitter, FullJitter, EqualJitter}
         then raise ValueError ''jitter must be none, full, or equal''
       else (case multiplier of
           FFin q \<Rightarrow>
             if q < 1 then raise ValueError ''backoff_multiplier must be finite and greater than or equal to 1.0''
             else Inr \<lparr>max_retries = r, backoff_ms = b, max_backoff_ms = m, backoff_mode = mode,
                       backoff_multiplier = multiplier, jitter = jit\<rparr>
         | _ \<Rightarrow> raise ValueError ''backoff_multiplier must be finite and greater than or equal to 1.0''))))"

definition should_retry :: "retry_policy \<Rightarrow> int \<Rightarrow> bool" where
  "should_retry p attempt \<longleftrightarrow> max attempt 1 \<le> max_retries p"

text \<open>
  \<open>backoff_multiplier ** (n - 1)\<close> raises \<open>OverflowError\<close> above \<open>float_max\<close>; a product above it is
  infinite.  Both lead to the configured cap.
\<close>

definition exponential_delay_ms :: "retry_policy \<Rightarrow> rat \<Rightarrow> nat \<Rightarrow> rat" where
  "exponential_delay_ms p q n =
     (let factor = q ^ (n - 1); delay = of_int (backoff_ms p) * factor in
      if float_max < factor then of_int (max_backoff_ms p)
      else if float_max < delay then of_int (max_backoff_ms p)
      else delay)"

definition raw_backoff_seconds :: "retry_policy \<Rightarrow> int \<Rightarrow> rat" where
  "raw_backoff_seconds p attempt =
     (let one_based = nat (max attempt 1);
          delay_ms = (case backoff_mode p of
              Fixed \<Rightarrow> of_int (backoff_ms p)
            | Linear \<Rightarrow> of_int (backoff_ms p * int one_based)
            | _ \<Rightarrow> (case finite_value (backoff_multiplier p) of
                     Some q \<Rightarrow> exponential_delay_ms p q one_based
                   | None \<Rightarrow> of_int (max_backoff_ms p)))
      in min delay_ms (of_int (max_backoff_ms p)) / 1000)"

definition backoff_seconds :: "retry_policy \<Rightarrow> pyfloat \<Rightarrow> int \<Rightarrow> rat" where
  "backoff_seconds p candidate attempt =
     (let delay = raw_backoff_seconds p attempt in
      if delay \<le> 0 \<or> jitter p = NoJitter then delay
      else (let fraction = (case finite_value candidate of Some q \<Rightarrow> q | None \<Rightarrow> 0);
                fraction = min (max fraction 0) 1
            in if jitter p = EqualJitter then delay / 2 + (delay / 2) * fraction
               else delay * fraction))"

section \<open>Bounds\<close>

definition policy_ok :: "retry_policy \<Rightarrow> bool" where
  "policy_ok p \<longleftrightarrow> 0 \<le> max_retries p \<and> 0 \<le> backoff_ms p \<and> backoff_ms p \<le> max_backoff_ms p
     \<and> (\<exists>q. backoff_multiplier p = FFin q \<and> 1 \<le> q)
     \<and> backoff_mode p \<in> {Fixed, Linear, Exponential} \<and> jitter p \<in> {NoJitter, FullJitter, EqualJitter}"

lemma non_negative_int_Inr: "non_negative_int v msg = Inr i \<Longrightarrow> v = PInt i \<and> 0 \<le> i"
  by (auto simp: non_negative_int_def raise_def split: pyval.splits if_splits)

lemma make_retry_policy_ok: "make_retry_policy r b m mode q j = Inr p \<Longrightarrow> policy_ok p"
  by (auto simp: make_retry_policy_def rbind_Inr_iff raise_def policy_ok_def
      dest!: non_negative_int_Inr split: if_splits pyfloat.splits)

lemma exponential_delay_nonneg:
  assumes "policy_ok p" "1 \<le> q"
  shows "0 \<le> exponential_delay_ms p q n"
  using assms by (simp add: exponential_delay_ms_def policy_ok_def Let_def)

lemma raw_backoff_bounds:
  assumes "policy_ok p"
  shows "0 \<le> raw_backoff_seconds p n \<and> raw_backoff_seconds p n \<le> of_int (max_backoff_ms p) / 1000"
proof -
  from assms obtain q where q: "backoff_multiplier p = FFin q" "1 \<le> q"
    by (auto simp: policy_ok_def)
  have cap: "(0::rat) \<le> of_int (max_backoff_ms p)" "(0::rat) \<le> of_int (backoff_ms p)"
    using assms by (simp_all add: policy_ok_def)
  show ?thesis
    using cap exponential_delay_nonneg [OF assms q(2)] q(1)
    by (auto simp: raw_backoff_seconds_def Let_def divide_right_mono min_def
        split: backoff_mode.splits)
qed

lemma fraction_bounds:
  assumes "fraction = min (max f 0) (1::rat)" "0 \<le> d"
  shows "0 \<le> d * fraction" "d * fraction \<le> d"
  using assms by (auto intro: mult_left_le)

lemma exponential_delay_mono:
  assumes "policy_ok p" "1 \<le> q" "m \<le> n"
  shows "min (exponential_delay_ms p q m) (of_int (max_backoff_ms p))
    \<le> min (exponential_delay_ms p q n) (of_int (max_backoff_ms p))"
proof -
  have pow: "q ^ (m - 1) \<le> q ^ (n - 1)"
    using assms(2,3) by (intro power_increasing) simp_all
  then have prod: "of_int (backoff_ms p) * q ^ (m - 1) \<le> of_int (backoff_ms p) * q ^ (n - 1)"
    using assms(1) by (intro mult_left_mono) (simp_all add: policy_ok_def)
  show ?thesis
    using pow prod by (simp add: exponential_delay_ms_def Let_def min_def)
qed

lemma capped_mono: "a \<le> b \<Longrightarrow> min a c / 1000 \<le> min b c / (1000::rat)"
  by (intro divide_right_mono min.mono) simp_all

lemma raw_backoff_mono:
  assumes "policy_ok p" "m \<le> n"
  shows "raw_backoff_seconds p m \<le> raw_backoff_seconds p n"
proof -
  from assms(1) obtain q where q: "backoff_multiplier p = FFin q" "1 \<le> q"
    by (auto simp: policy_ok_def)
  have le: "nat (max m 1) \<le> nat (max n 1)" using assms(2) by simp
  have "0 \<le> backoff_ms p" using assms(1) by (simp add: policy_ok_def)
  moreover have "int (nat (max m 1)) \<le> int (nat (max n 1))" using le by (simp only: of_nat_le_iff)
  ultimately have lin: "backoff_ms p * int (nat (max m 1)) \<le> backoff_ms p * int (nat (max n 1))"
    by (rule mult_left_mono [rotated])
  then have lin': "(of_int (backoff_ms p * int (nat (max m 1))) :: rat)
      \<le> of_int (backoff_ms p * int (nat (max n 1)))"
    by (simp only: of_int_le_iff)
  note exp = exponential_delay_mono [OF assms(1) q(2) le]
  consider "backoff_mode p = Fixed" | "backoff_mode p = Linear" | "backoff_mode p = Exponential"
    using assms(1) by (auto simp: policy_ok_def)
  then show ?thesis
  proof cases
    case 1
    then show ?thesis by (simp add: raw_backoff_seconds_def)
  next
    case 2
    have "min (of_int (backoff_ms p * int (nat (max m 1)))) (of_int (max_backoff_ms p)) / (1000::rat)
        \<le> min (of_int (backoff_ms p * int (nat (max n 1)))) (of_int (max_backoff_ms p)) / 1000"
      using lin' by (rule capped_mono)
    with 2 show ?thesis
      by (simp only: raw_backoff_seconds_def Let_def backoff_mode.case)
  next
    case 3
    with q(1) exp show ?thesis
      by (simp add: raw_backoff_seconds_def Let_def divide_right_mono)
  qed
qed



text \<open>Within a validated policy later attempts never wait less before jitter, and once an
  attempt is past the retry budget every later attempt is too.\<close>

theorem backoff_monotone:
  assumes "make_retry_policy r b m mode q j = Inr p" "k \<le> n"
  shows "raw_backoff_seconds p k \<le> raw_backoff_seconds p n \<and> (should_retry p n \<longrightarrow> should_retry p k)"
  using raw_backoff_mono [OF make_retry_policy_ok [OF assms(1)] assms(2)] assms(2)
  by (auto simp: should_retry_def)

theorem backoff_monotone_witness:
  "\<exists>p. make_retry_policy (PInt 5) (PInt 10) (PInt 60000) Exponential (FFin 2) FullJitter = Inr p
     \<and> raw_backoff_seconds p 2 \<le> raw_backoff_seconds p 4 \<and> should_retry p 4 \<and> should_retry p 2"
proof -
  obtain p where p:
    "make_retry_policy (PInt 5) (PInt 10) (PInt 60000) Exponential (FFin 2) FullJitter = Inr p"
    "max_retries p = 5"
    by (simp add: make_retry_policy_def non_negative_int_def)
  then show ?thesis
    using backoff_monotone [OF p(1), of 2 4] by (auto simp: should_retry_def)
qed

end
