(* ===== verification/Settlement.thy ===== *)
theory Settlement
  imports Dlq Priority Retry
begin

text \<open>
  How the runner settles messages (\<open>core/runner.py\<close>, the private methods below the batch
  pipeline): acknowledgement, terminal acknowledgement, negative acknowledgement, dead-letter
  publication, the failure handlers and the progress heartbeat that runs beside a sink write.
\<close>

section \<open>Configuration\<close>

record in_progress_config =
  ip_enabled :: bool
  ip_interval_ms :: int
  ip_max_heartbeats :: nat
  ip_shutdown_timeout_ms :: int

record ack_confirmation_config =
  akc_enabled :: bool
  akc_timeout_ms :: int
  akc_standard_ack :: bool

record delivery_config =
  dl_batch_size :: nat
  dl_batch_timeout_ms :: int
  dl_retry :: retry_policy
  dl_nak :: bool
  dl_lanes :: lane_policy
  dl_in_progress :: in_progress_config
  dl_ack :: ack_confirmation_config

record dead_letter_config =
  dlc_enabled :: bool
  dlc_subject :: "string option"
  dlc_options :: dead_letter_options
  dlc_ack_term :: bool

section \<open>Client objects\<close>

text \<open>\<open>getattr(obj, name, None)\<close> swallows \<open>AttributeError\<close> only.\<close>

definition getattr_default :: "pylib \<Rightarrow> pyval \<Rightarrow> string \<Rightarrow> pyval res" where
  "getattr_default L obj name =
     (case l_getattr L obj name of
        Has v \<Rightarrow> Inr v
      | Missing \<Rightarrow> Inr PNone
      | AttrRaises err \<Rightarrow> if isinstance err AttributeError then Inr PNone else Inl err)"

text \<open>\<open>obj.name(...)\<close>: the lookup may fail before the call is made.\<close>

definition call_method :: "pylib \<Rightarrow> pyval \<Rightarrow> string \<Rightarrow> unit act \<Rightarrow> unit act" where
  "call_method L obj name call =
     (case l_getattr L obj name of
        Has v \<Rightarrow> if v = PNone then throw (Exn TypeError ''object is not callable'') else call
      | Missing \<Rightarrow> throw (Exn AttributeError ''object has no such attribute'')
      | AttrRaises err \<Rightarrow> throw err)"

text \<open>\<open>int(value)\<close>; foreign objects define no \<open>__int__\<close>.\<close>

definition int_constructor :: "pyval \<Rightarrow> int option" where
  "int_constructor v =
     (case v of
        PInt i \<Rightarrow> Some i
      | PBool b \<Rightarrow> Some (if b then 1 else 0)
      | PFloat (FFin q) \<Rightarrow> Some (if q < 0 then - \<lfloor>- q\<rfloor> else \<lfloor>q\<rfloor>)
      | PStr s \<Rightarrow> parse_int s
      | PBytes b \<Rightarrow>
          if list_all (\<lambda>x. unat x < 128 \<and> \<not> (28 \<le> unat x \<and> unat x \<le> 31)) b
          then parse_int (map (\<lambda>x. char_of (unat x)) b) else None
      | _ \<Rightarrow> None)"

section \<open>Acknowledgement\<close>

definition standard_ack :: "pylib \<Rightarrow> env \<Rightarrow> pyval \<Rightarrow> unit act" where
  "standard_ack L E raw = call_method L raw ''ack'' (perform (\<lambda>t. en_ack E t raw) (Ack raw))"

definition confirmed_ack :: "env \<Rightarrow> ack_confirmation_config \<Rightarrow> pyval \<Rightarrow> unit act" where
  "confirmed_ack E c raw =
     then_act (increment_metric E ''ack_confirmation_attempts_total'' 1)
     (then_act
       (catch (perform (\<lambda>t. en_ack_sync E t raw) (Ack_sync raw (of_int (akc_timeout_ms c) / 1000)))
         (\<lambda>err.
            if isinstance err PyTimeoutError
            then then_act (observe_elapsed E ''ack_confirmation_seconds'')
                   (then_act (increment_metric E ''ack_confirmation_timeouts_total'' 1) (throw err))
            else if isinstance err PyException
            then then_act (observe_elapsed E ''ack_confirmation_seconds'')
                   (then_act (increment_metric E ''ack_confirmation_failures_total'' 1) (throw err))
            else throw err))
       (then_act (observe_elapsed E ''ack_confirmation_seconds'')
         (increment_metric E ''ack_confirmation_successes_total'' 1)))"

definition ack_one :: "pylib \<Rightarrow> env \<Rightarrow> ack_confirmation_config \<Rightarrow> pyval \<Rightarrow> unit act" where
  "ack_one L E c raw =
     (if \<not> akc_enabled c then standard_ack L E raw
      else bind_act (lift_res (getattr_default L raw ''ack_sync'')) (\<lambda>ack_sync.
        if ack_sync = PNone
        then then_act (increment_metric E ''ack_confirmation_unsupported_total'' 1)
          (if akc_standard_ack c then standard_ack L E raw
           else throw (Exn AckError ''JetStream message does not expose ack_sync for confirmed ACK''))
        else confirmed_ack E c raw))"

text \<open>
  A loop that counts the elements it has finished: \<open>f x\<close>, then the counter, then \<open>g x\<close>.  It stops at
  the first ordinary exception and reports it with the count.
\<close>

fun counted_loop :: "('a \<Rightarrow> unit act) \<Rightarrow> ('a \<Rightarrow> unit act) \<Rightarrow> nat \<Rightarrow> 'a list \<Rightarrow> (nat \<times> exn option) act" where
  "counted_loop f g n [] = ret (n, None)"
| "counted_loop f g n (x # xs) =
     bind_act (attempt_act (f x)) (\<lambda>r.
       case r of
         Inl err \<Rightarrow> if isinstance err PyException then ret (n, Some err) else throw err
       | Inr _ \<Rightarrow>
           bind_act (attempt_act (g x)) (\<lambda>r.
             case r of
               Inl err \<Rightarrow> if isinstance err PyException then ret (Suc n, Some err) else throw err
             | Inr _ \<Rightarrow> counted_loop f g (Suc n) xs))"

definition ack_all :: "pylib \<Rightarrow> env \<Rightarrow> ack_confirmation_config \<Rightarrow> pyval list \<Rightarrow> unit act" where
  "ack_all L E c raws =
     bind_act (counted_loop (ack_one L E c) (\<lambda>_. ret ()) 0 raws) (\<lambda>(acknowledged, failure).
       case failure of
         None \<Rightarrow> ret ()
       | Some _ \<Rightarrow>
           then_act (increment_metric E ''ack_errors_total'' (max (length raws - acknowledged) 1))
             (throw (Exn AckError ''failed to ACK JetStream message'')))"

definition term_one :: "pylib \<Rightarrow> env \<Rightarrow> pyval \<Rightarrow> unit act" where
  "term_one L E raw =
     bind_act (lift_res (getattr_default L raw ''term'')) (\<lambda>term.
       if term = PNone then throw (Exn AttributeError ''raw JetStream message does not expose term()'')
       else perform (\<lambda>t. en_term E t raw) (Term raw))"

definition term_all :: "pylib \<Rightarrow> env \<Rightarrow> ack_confirmation_config \<Rightarrow> pyval list \<Rightarrow> unit act" where
  "term_all L E c raws =
     then_act (if akc_enabled c then increment_metric E ''ack_confirmation_unsupported_total'' (length raws) else ret ())
     (bind_act (counted_loop (term_one L E) (\<lambda>_. increment_metric E ''messages_terminated_total'' 1) 0 raws)
       (\<lambda>(terminated, failure).
         case failure of
           None \<Rightarrow> ret ()
         | Some _ \<Rightarrow>
             then_act (increment_metric E ''term_errors_total'' (max (length raws - terminated) 1))
               (throw (Exn AckError ''failed to AckTerm JetStream message after successful DLQ publication''))))"

definition nak_one :: "pylib \<Rightarrow> env \<Rightarrow> rat \<Rightarrow> pyval \<Rightarrow> unit act" where
  "nak_one L E delay raw =
     bind_act (lift_res (getattr_default L raw ''nak'')) (\<lambda>nak.
       if nak = PNone then ret ()
       else catch_exception
         (then_act
           (catch (perform (\<lambda>t. en_nak E t raw) (Nak raw (Some delay)))
             (\<lambda>err. if isinstance err TypeError then perform (\<lambda>t. en_nak E t raw) (Nak raw None) else throw err))
           (increment_metric E ''messages_nacked_total'' 1))
         (\<lambda>_. ret ()))"

definition nak_all :: "pylib \<Rightarrow> env \<Rightarrow> pyval list \<Rightarrow> rat \<Rightarrow> unit act" where
  "nak_all L E raws delay = for_each (nak_one L E delay) raws"

section \<open>Failure handling\<close>

definition delivery_attempt_for_message :: "pylib \<Rightarrow> pyval \<Rightarrow> int res" where
  "delivery_attempt_for_message L raw =
     (case rbind (getattr_default L raw ''metadata'') (\<lambda>metadata. getattr_default L metadata ''num_delivered'') of
        Inl err \<Rightarrow> if isinstance err PyException then Inr 1 else Inl err
      | Inr delivered \<Rightarrow>
          if delivered = PNone then Inr 1
          else (case int_constructor delivered of None \<Rightarrow> Inr 1 | Some attempt \<Rightarrow> Inr (max attempt 1)))"

definition delivery_attempt_for_batch :: "pylib \<Rightarrow> pyval list \<Rightarrow> int res" where
  "delivery_attempt_for_batch L raws =
     rmap (\<lambda>attempts. if attempts = [] then 1 else Max (set attempts)) (rmapM (delivery_attempt_for_message L) raws)"

definition handle_temporary_failure ::
  "pylib \<Rightarrow> env \<Rightarrow> delivery_config \<Rightarrow> pyval list \<Rightarrow> string option \<Rightarrow> unit act" where
  "handle_temporary_failure L E dl raws error_metric =
     bind_act (lift_res (delivery_attempt_for_batch L raws)) (\<lambda>attempt.
     then_act (increment_metric E ''messages_failed_total'' (length raws))
     (then_act (case error_metric of None \<Rightarrow> ret () | Some m \<Rightarrow> increment_metric E m (length raws))
       (if \<not> should_retry (dl_retry dl) attempt then ret ()
        else read_env (\<lambda>t. backoff_seconds (dl_retry dl) (en_jitter E t) attempt) (\<lambda>retry_delay.
          then_act (observe_metric E ''retry_backoff_delay_seconds'' retry_delay)
            (if dl_nak dl then nak_all L E raws retry_delay else ret ())))))"

definition publish_one ::
  "pylib \<Rightarrow> env \<Rightarrow> dead_letter_config \<Rightarrow> string \<Rightarrow> exn \<Rightarrow> nats_envelope \<Rightarrow> unit act" where
  "publish_one L E dlc subject err e =
     bind_act (lift_res (build_dead_letter_payload L e err (dlc_options dlc))) (\<lambda>payload.
       let headers = [(''Nats-Sinks-Error-Type'', class_name (exn_cls err)),
                      (''Nats-Sinks-Original-Subject'', env_subject e)]
       in perform (\<lambda>t. en_publish E t subject payload headers) (Publish subject payload headers))"

definition publish_dlq ::
  "pylib \<Rightarrow> env \<Rightarrow> bool \<Rightarrow> dead_letter_config \<Rightarrow> nats_envelope list \<Rightarrow> exn \<Rightarrow> unit act" where
  "publish_dlq L E jetstream dlc es err =
     (if \<not> jetstream then throw (Exn DeadLetterError ''cannot publish DLQ message without a JetStream context'')
      else (case dlc_subject dlc of
          None \<Rightarrow> throw (Exn DeadLetterError ''dead_letter.subject is not configured'')
        | Some subject \<Rightarrow>
            catch_exception (for_each (publish_one L E dlc subject err) es)
              (\<lambda>_. then_act (increment_metric E ''dlq_publish_errors_total'' (length es))
                 (throw (Exn DeadLetterError ''failed to publish permanent failure to DLQ; original message was not ACKed'')))))"

text \<open>What follows a complete dead-letter publication: terminal or plain acknowledgement.\<close>

definition settle_dead_lettered :: "pylib \<Rightarrow> env \<Rightarrow> delivery_config \<Rightarrow> dead_letter_config \<Rightarrow> pyval list \<Rightarrow> unit act" where
  "settle_dead_lettered L E dl dlc raws =
     (if dlc_ack_term dlc
      then then_act (term_all L E (dl_ack dl) raws) (observe_elapsed E ''message_term_seconds'')
      else then_act (ack_all L E (dl_ack dl) raws)
        (then_act (observe_elapsed E ''message_ack_seconds'')
          (increment_metric E ''messages_acked_total'' (length raws))))"

definition handle_permanent_failure ::
  "pylib \<Rightarrow> env \<Rightarrow> bool \<Rightarrow> delivery_config \<Rightarrow> dead_letter_config \<Rightarrow> pyval list \<Rightarrow> nats_envelope list \<Rightarrow> exn \<Rightarrow> unit act" where
  "handle_permanent_failure L E jetstream dl dlc raws es err =
     then_act (increment_metric E ''messages_failed_total'' (length raws))
     (then_act (increment_metric E ''sink_write_errors_total'' (length raws))
       (if \<not> dlc_enabled dlc then ret ()
        else then_act (publish_dlq L E jetstream dlc es err)
          (then_act (increment_metric E ''messages_dlq_total'' (length es))
            (settle_dead_lettered L E dl dlc raws))))"

definition handle_policy_rejections ::
  "pylib \<Rightarrow> env \<Rightarrow> bool \<Rightarrow> delivery_config \<Rightarrow> dead_letter_config \<Rightarrow> pyval list \<Rightarrow> nats_envelope list \<Rightarrow> exn \<Rightarrow> unit act" where
  "handle_policy_rejections L E jetstream dl dlc raws es err =
     then_act (increment_metric E ''messages_failed_total'' (length raws))
       (if \<not> dlc_enabled dlc then ret ()
        else then_act (publish_dlq L E jetstream dlc es err)
          (then_act (increment_metric E ''messages_dlq_total'' (length es))
            (settle_dead_lettered L E dl dlc raws)))"

section \<open>Progress heartbeat\<close>

fun send_each :: "pylib \<Rightarrow> env \<Rightarrow> pyval list \<Rightarrow> nat \<Rightarrow> nat \<Rightarrow> (nat \<times> nat) act" where
  "send_each L E [] successes failures = ret (successes, failures)"
| "send_each L E (raw # raws) successes failures =
     then_act (increment_metric E ''in_progress_attempts_total'' 1)
     (bind_act (lift_res (getattr_default L raw ''in_progress'')) (\<lambda>in_progress.
       if in_progress = PNone then send_each L E raws successes (Suc failures)
       else bind_act (attempt_act (perform (\<lambda>t. en_in_progress E t raw) (In_progress raw))) (\<lambda>r.
         case r of
           Inr _ \<Rightarrow> send_each L E raws (Suc successes) failures
         | Inl err \<Rightarrow> if isinstance err PyException then send_each L E raws successes (Suc failures) else throw err)))"

definition finish_round :: "env \<Rightarrow> nat \<times> nat \<Rightarrow> bool act" where
  "finish_round E counts =
     (case counts of (successes, failures) \<Rightarrow>
       then_act (observe_elapsed E ''in_progress_heartbeat_seconds'')
       (then_act (if 0 < successes then increment_metric E ''in_progress_successes_total'' successes else ret ())
         (if 0 < failures
          then then_act (increment_metric E ''in_progress_failures_total'' failures) (ret False)
          else ret True)))"

definition send_in_progress_once :: "pylib \<Rightarrow> env \<Rightarrow> pyval list \<Rightarrow> bool act" where
  "send_in_progress_once L E raws = bind_act (send_each L E raws 0 0) (finish_round E)"

text \<open>
  The heartbeat task as it stands when the sink write returns: over, waiting for its next interval,
  or inside a round with the messages \<open>rest\<close> still to go.
\<close>

datatype heartbeat_state = Hb_over | Hb_waiting | Hb_round nat nat "pyval list"

text \<open>
  The loop, for \<open>due\<close> intervals that elapse before the write returns; \<open>late\<close> is the number of
  messages of one more round that are still to go then (none: the task is waiting).
\<close>

fun heartbeat_rounds ::
  "pylib \<Rightarrow> env \<Rightarrow> nat \<Rightarrow> pyval list \<Rightarrow> nat \<Rightarrow> nat \<Rightarrow> nat \<Rightarrow> heartbeat_state act" where
  "heartbeat_rounds L E max_heartbeats raws late due sent =
     (if max_heartbeats \<le> sent
      then then_act (increment_metric E ''in_progress_max_heartbeats_reached_total'' 1) (ret Hb_over)
      else (case due of
          0 \<Rightarrow>
            if late = 0 then ret Hb_waiting
            else bind_act (send_each L E (take (length raws - late) raws) 0 0) (\<lambda>(successes, failures).
              ret (Hb_round successes failures (drop (length raws - late) raws)))
        | Suc due' \<Rightarrow>
            bind_act (send_in_progress_once L E raws) (\<lambda>ok.
              if ok then heartbeat_rounds L E max_heartbeats raws late due' (Suc sent) else ret Hb_over)))"

declare heartbeat_rounds.simps [simp del]

definition clear_active :: "env \<Rightarrow> unit act" where
  "clear_active E = set_metric_value E ''current_in_progress_batches_active'' 0"

text \<open>The task up to the return of the write; its \<open>finally\<close> clause runs when it ends, also by an error.\<close>

definition heartbeat_before :: "pylib \<Rightarrow> env \<Rightarrow> in_progress_config \<Rightarrow> pyval list \<Rightarrow> heartbeat_state act" where
  "heartbeat_before L E c raws =
     then_act (set_metric_value E ''current_in_progress_batches_active'' 1)
     (bind_act
       (attempt_act
         (read_env (en_late_heartbeats E) (\<lambda>late. read_env (en_heartbeats E) (\<lambda>due.
           heartbeat_rounds L E (ip_max_heartbeats c) raws late due 0))))
       (\<lambda>r. case r of
          Inl err \<Rightarrow> then_act (clear_active E) (throw err)
        | Inr Hb_over \<Rightarrow> then_act (clear_active E) (ret Hb_over)
        | Inr st \<Rightarrow> ret st))"

text \<open>
  The rest of the task after \<open>stop_event.set()\<close>.  A round that is cut off by the shutdown timeout
  ends without its summary metrics; the cancellation itself is suppressed.
\<close>

definition heartbeat_after :: "pylib \<Rightarrow> env \<Rightarrow> heartbeat_state \<Rightarrow> unit act" where
  "heartbeat_after L E st =
     (case st of
        Hb_over \<Rightarrow> ret ()
      | Hb_waiting \<Rightarrow> clear_active E
      | Hb_round successes failures rest \<Rightarrow>
          bind_act
            (attempt_act (read_env (en_heartbeat_cut E) (\<lambda>cut.
               case cut of
                 None \<Rightarrow> then_act (bind_act (send_each L E rest successes failures) (finish_round E)) (ret ())
               | Some m \<Rightarrow> then_act (send_each L E (take m rest) successes failures) (ret ()))))
            (\<lambda>r. then_act (clear_active E) (lift_res r)))"

definition sink_write :: "env \<Rightarrow> nats_envelope list \<Rightarrow> unit act" where
  "sink_write E es = perform (\<lambda>t. en_write E t es) (Sink_write es)"

text \<open>
  The sink write with its heartbeat.  The value is the ordinary exception the write ended with, if
  any; an error of the heartbeat task surfaces when the task is awaited.
\<close>

definition write_with_heartbeat ::
  "pylib \<Rightarrow> env \<Rightarrow> in_progress_config \<Rightarrow> pyval list \<Rightarrow> nats_envelope list \<Rightarrow> exn option act" where
  "write_with_heartbeat L E c raws es =
     (let outcome = (\<lambda>w. case w of Inr _ \<Rightarrow> ret None
        | Inl err \<Rightarrow> if isinstance err PyException then ret (Some err) else throw err) in
      if \<not> ip_enabled c then bind_act (attempt_act (sink_write E es)) outcome
      else bind_act (attempt_act (heartbeat_before L E c raws)) (\<lambda>h.
        bind_act (attempt_act (sink_write E es)) (\<lambda>w.
          then_act
            (case h of
               Inr st \<Rightarrow> heartbeat_after L E st
             | Inl err \<Rightarrow> if ip_shutdown_timeout_ms c = 0 \<and> isinstance err CancelledError then ret () else throw err)
            (outcome w))))"

end
