(* ===== verification/Encryption.thy ===== *)
theory Encryption
  imports BatchStages JsonText Subjects
begin

text \<open>
  Payload encryption (\<open>core/encryption.py\<close>, with the key resolution and rule inheritance of
  \<open>EncryptionConfig\<close> in \<open>core/config.py\<close>).  The AEAD ciphers are parameters of the library record;
  \<open>getenv\<close> is the process environment; each message uses the nonce it is given.
\<close>

section \<open>Configuration\<close>

record encryption_rule =
  er_subject :: string
  er_enabled :: bool
  er_algorithm :: "string option"
  er_key_id :: "string option"
  er_key_b64 :: "string option"
  er_key_b64_env :: "string option"
  er_nonce_size_bytes :: "nat option"
  er_tag_length :: "int option"

record encryption_config =
  ec_enabled :: bool
  ec_algorithm :: string
  ec_key_id :: string
  ec_key_b64 :: "string option"
  ec_key_b64_env :: "string option"
  ec_nonce_size_bytes :: nat
  ec_tag_length :: int
  ec_rules :: "encryption_rule list"

type_synonym getenv = "string \<Rightarrow> string option"

text \<open>\<open>value.encode("ascii")\<close> followed by strict base64 decoding.\<close>

definition ascii_b64decode :: "string \<Rightarrow> bytes option" where
  "ascii_b64decode s = (if list_all (\<lambda>c. of_char c < (128::nat)) s then b64decode s else None)"

definition decode_aes_256_key :: "string \<Rightarrow> bytes res" where
  "decode_aes_256_key value =
     (case ascii_b64decode value of
        None \<Rightarrow> raise ConfigurationError ''key must be base64 encoded''
      | Some decoded \<Rightarrow>
          if length decoded \<noteq> 32 then raise ConfigurationError ''key must decode to exactly 32 bytes for AES-256''
          else Inr decoded)"

definition rule_needs_key :: "encryption_rule \<Rightarrow> bool" where
  "rule_needs_key rule \<longleftrightarrow> er_key_b64 rule = None \<and> er_key_b64_env rule = None"

text \<open>Model validation; pydantic turns every \<open>ValueError\<close> into a \<open>ValidationError\<close> of its own.\<close>

definition validate_key_sources :: "encryption_config \<Rightarrow> unit res" where
  "validate_key_sources c =
     (if ec_key_b64 c \<noteq> None \<and> ec_key_b64_env c \<noteq> None
      then raise ValueError ''configure either encryption.key_b64 or encryption.key_b64_env''
      else if ec_enabled c \<and> ec_key_b64 c = None \<and> ec_key_b64_env c = None
      then raise ValueError ''encryption.key_b64_env or encryption.key_b64 is required''
      else rbind (case ec_key_b64 c of None \<Rightarrow> Inr () | Some k \<Rightarrow> rmap (\<lambda>_. ()) (decode_aes_256_key k)) (\<lambda>_.
        if (case ec_key_b64_env c of None \<Rightarrow> False | Some v \<Rightarrow> strip v = [])
        then raise ValueError ''encryption.key_b64_env must not be empty''
        else if \<exists>rule\<in>set (ec_rules c). er_enabled rule \<and> rule_needs_key rule
                  \<and> ec_key_b64 c = None \<and> ec_key_b64_env c = None
        then raise ValueError ''encryption.rules key_b64_env or key_b64 is required''
        else Inr ()))"

definition resolve_key :: "getenv \<Rightarrow> encryption_config \<Rightarrow> bytes res" where
  "resolve_key getenv c =
     (case ec_key_b64 c of
        Some k \<Rightarrow> decode_aes_256_key k
      | None \<Rightarrow>
          (case ec_key_b64_env c of
             None \<Rightarrow> raise ConfigurationError ''encryption key material is not configured''
           | Some name \<Rightarrow>
               (case getenv name of
                  None \<Rightarrow> raise ConfigurationError ''environment variable is not set''
                | Some v \<Rightarrow> decode_aes_256_key v)))"

definition effective_rule_config :: "encryption_config \<Rightarrow> encryption_rule \<Rightarrow> encryption_config res" where
  "effective_rule_config c rule =
     (let eff = \<lparr>ec_enabled = er_enabled rule,
        ec_algorithm = (case er_algorithm rule of Some (a # as) \<Rightarrow> a # as | _ \<Rightarrow> ec_algorithm c),
        ec_key_id = (case er_key_id rule of Some (k # ks) \<Rightarrow> k # ks | _ \<Rightarrow> ec_key_id c),
        ec_key_b64 = (if er_key_b64 rule \<noteq> None then er_key_b64 rule else ec_key_b64 c),
        ec_key_b64_env = (if er_key_b64_env rule \<noteq> None then er_key_b64_env rule else ec_key_b64_env c),
        ec_nonce_size_bytes =
          (case er_nonce_size_bytes rule of Some n \<Rightarrow> if n \<noteq> 0 then n else ec_nonce_size_bytes c
             | None \<Rightarrow> ec_nonce_size_bytes c),
        ec_tag_length = (case er_tag_length rule of Some n \<Rightarrow> if n \<noteq> 0 then n else ec_tag_length c
             | None \<Rightarrow> ec_tag_length c),
        ec_rules = []\<rparr>
      in rmap (\<lambda>_. eff) (validate_key_sources eff))"

section \<open>The encryption envelope\<close>

definition ENCRYPTED_PAYLOAD_KEY :: string where "ENCRYPTED_PAYLOAD_KEY = ''_nats_sinks_encryption''"
definition ENCRYPTED_PAYLOAD_SCHEMA :: string where
  "ENCRYPTED_PAYLOAD_SCHEMA = ''nats_sinks.encrypted_payload.v1''"
definition ENCRYPTED_PAYLOAD_VERSION :: int where "ENCRYPTED_PAYLOAD_VERSION = 1"

definition encrypted_field :: "pyval \<Rightarrow> bytes res" where
  "encrypted_field value =
     (case value of
        PStr s \<Rightarrow>
          (case ascii_b64decode s of
             Some bs \<Rightarrow> Inr bs
           | None \<Rightarrow> raise SerializationError ''encrypted payload field is not valid base64'')
      | _ \<Rightarrow> raise SerializationError ''encrypted payload field must be a base64 string'')"

text \<open>Python compares \<open>True\<close> and \<open>1.0\<close> equal to \<open>1\<close>.\<close>

definition equals_int :: "pyval \<Rightarrow> int \<Rightarrow> bool" where
  "equals_int v n =
     (case v of PInt i \<Rightarrow> i = n | PBool b \<Rightarrow> (if b then 1 else 0) = n
        | PFloat (FFin q) \<Rightarrow> q = of_int n | _ \<Rightarrow> False)"

definition load_encrypted_payload :: "pylib \<Rightarrow> pyval \<Rightarrow> pyval res" where
  "load_encrypted_payload L value =
     rbind
       (if is_mapping value then Inr value
        else (case (case value of PBytes bs \<Rightarrow> l_decode L bs | PStr s \<Rightarrow> Some s | _ \<Rightarrow> None) of
            None \<Rightarrow> raise SerializationError ''encrypted payload is not a valid JSON envelope''
          | Some text \<Rightarrow>
              (case load_standard_json (l_scan L) text of
                 Inl e \<Rightarrow>
                   if isinstance e ValueError
                   then raise SerializationError ''encrypted payload is not a valid JSON envelope'' else Inl e
               | Inr loaded \<Rightarrow>
                   if \<not> is_mapping loaded
                   then raise SerializationError ''encrypted payload root must be a JSON object''
                   else Inr loaded)))
       (\<lambda>payload.
          if is_mapping (py_get payload ENCRYPTED_PAYLOAD_KEY) then Inr (py_get payload ENCRYPTED_PAYLOAD_KEY)
          else raise SerializationError ''payload does not contain a nats-sinks encryption envelope'')"

definition is_encrypted_payload_envelope :: "pylib \<Rightarrow> pyval \<Rightarrow> bool res" where
  "is_encrypted_payload_envelope L value =
     (case load_encrypted_payload L value of
        Inl e \<Rightarrow> if isinstance e SerializationError then Inr False else Inl e
      | Inr envelope \<Rightarrow>
          Inr (py_get envelope ''schema'' = PStr ENCRYPTED_PAYLOAD_SCHEMA
            \<and> equals_int (py_get envelope ''version'') ENCRYPTED_PAYLOAD_VERSION
            \<and> is_str (py_get envelope ''algorithm'') \<and> is_str (py_get envelope ''key_id'')
            \<and> is_str (py_get envelope ''ciphertext'')))"

record payload_encryptor =
  pe_config :: encryption_config
  pe_key :: bytes

definition make_payload_encryptor :: "getenv \<Rightarrow> encryption_config \<Rightarrow> payload_encryptor res" where
  "make_payload_encryptor getenv c = rmap (\<lambda>k. \<lparr>pe_config = c, pe_key = k\<rparr>) (resolve_key getenv c)"

definition encrypted_document :: "encryption_config \<Rightarrow> bytes \<Rightarrow> bytes \<Rightarrow> int \<Rightarrow> string \<Rightarrow> nat \<Rightarrow> pyval" where
  "encrypted_document c nonce ciphertext tag_length sha256 size_bytes =
     PDict [(PStr ENCRYPTED_PAYLOAD_KEY, PDict
       [(PStr ''schema'', PStr ENCRYPTED_PAYLOAD_SCHEMA),
        (PStr ''version'', PInt ENCRYPTED_PAYLOAD_VERSION),
        (PStr ''algorithm'', PStr (ec_algorithm c)),
        (PStr ''key_id'', PStr (ec_key_id c)),
        (PStr ''nonce'', PStr (b64encode nonce)),
        (PStr ''nonce_size_bytes'', PInt (int (length nonce))),
        (PStr ''ciphertext'', PStr (b64encode ciphertext)),
        (PStr ''ciphertext_encoding'', PStr ''base64''),
        (PStr ''tag_length'', PInt tag_length),
        (PStr ''plaintext_sha256'', PStr sha256),
        (PStr ''plaintext_size_bytes'', PInt (int size_bytes))])]"

definition encrypt_raw :: "pylib \<Rightarrow> payload_encryptor \<Rightarrow> bytes \<Rightarrow> bytes \<Rightarrow> (bytes \<times> int) res" where
  "encrypt_raw L pe nonce plaintext =
     (if ec_algorithm (pe_config pe) = ''aes-256-gcm''
      then rmap (\<lambda>c. (c, 16)) (l_aead_encrypt L ''aes-256-gcm'' 16 (pe_key pe) nonce plaintext)
      else rbind (l_aesccm_init L (ec_tag_length (pe_config pe))) (\<lambda>_.
        rmap (\<lambda>c. (c, ec_tag_length (pe_config pe)))
          (l_aead_encrypt L ''aes-256-ccm'' (ec_tag_length (pe_config pe)) (pe_key pe) nonce plaintext)))"

definition encrypt_bytes :: "pylib \<Rightarrow> payload_encryptor \<Rightarrow> bytes \<Rightarrow> bytes \<Rightarrow> bytes res" where
  "encrypt_bytes L pe nonce plaintext =
     rbind (encrypt_raw L pe nonce plaintext) (\<lambda>(ciphertext, tag_length).
       rmap utf8_encode (json_dumps_ascii (l_float_text L)
         (encrypted_document (pe_config pe) nonce ciphertext tag_length (l_sha256 L plaintext) (length plaintext))))"

definition decrypt_raw :: "pylib \<Rightarrow> payload_encryptor \<Rightarrow> pyval \<Rightarrow> bytes \<Rightarrow> bytes \<Rightarrow> bytes res" where
  "decrypt_raw L pe tag nonce ciphertext =
     rbind
       (if ec_algorithm (pe_config pe) = ''aes-256-gcm'' then Inr (''aes-256-gcm'', 16)
        else (case tag of
            PInt n \<Rightarrow> rmap (\<lambda>_. (''aes-256-ccm'', n)) (l_aesccm_init L n)
          | PBool b \<Rightarrow> rmap (\<lambda>_. (''aes-256-ccm'', if b then 1 else 0)) (l_aesccm_init L (if b then 1 else 0))
          | _ \<Rightarrow> raise SerializationError ''encrypted payload tag_length must be an integer''))
       (\<lambda>(name, n).
          case l_aead_decrypt L name n (pe_key pe) nonce ciphertext of
            Inr plaintext \<Rightarrow> Inr plaintext
          | Inl e \<Rightarrow>
              if isinstance e PyException
              then raise SerializationError ''encrypted payload could not be decrypted'' else Inl e)"

definition decrypt_payload :: "pylib \<Rightarrow> payload_encryptor \<Rightarrow> pyval \<Rightarrow> bytes res" where
  "decrypt_payload L pe value =
     rbind (load_encrypted_payload L value) (\<lambda>encrypted.
     if py_get encrypted ''algorithm'' \<noteq> PStr (ec_algorithm (pe_config pe))
     then raise SerializationError ''encrypted payload algorithm does not match configuration''
     else if py_get encrypted ''key_id'' \<noteq> PStr (ec_key_id (pe_config pe))
     then raise SerializationError ''encrypted payload key_id does not match configuration''
     else if py_get encrypted ''schema'' \<noteq> PStr ENCRYPTED_PAYLOAD_SCHEMA
     then raise SerializationError ''encrypted payload schema is not supported''
     else if \<not> equals_int (py_get encrypted ''version'') ENCRYPTED_PAYLOAD_VERSION
     then raise SerializationError ''encrypted payload version is not supported''
     else rbind (encrypted_field (py_get encrypted ''nonce'')) (\<lambda>nonce.
       rbind (encrypted_field (py_get encrypted ''ciphertext'')) (\<lambda>ciphertext.
       rbind (decrypt_raw L pe (py_get encrypted ''tag_length'') nonce ciphertext) (\<lambda>plaintext.
       if py_get encrypted ''plaintext_size_bytes'' \<noteq> PNone
          \<and> \<not> equals_int (py_get encrypted ''plaintext_size_bytes'') (int (length plaintext))
       then raise SerializationError ''encrypted payload plaintext size check failed''
       else if py_get encrypted ''plaintext_sha256'' \<noteq> PNone
          \<and> py_get encrypted ''plaintext_sha256'' \<noteq> PStr (l_sha256 L plaintext)
       then raise SerializationError ''encrypted payload plaintext digest check failed''
       else Inr plaintext))))"

section \<open>Transformers\<close>

text \<open>\<open>PayloadEncryptor\<close> for one policy, \<open>SubjectPayloadEncryptor\<close> for ordered subject rules.\<close>

datatype payload_transformer =
    One_policy payload_encryptor
  | Subject_policies "payload_encryptor option" "(string \<times> payload_encryptor option) list"

definition make_subject_encryptor :: "getenv \<Rightarrow> encryption_config \<Rightarrow> payload_transformer res" where
  "make_subject_encryptor getenv c =
     rbind (if ec_enabled c then rmap Some (make_payload_encryptor getenv c) else Inr None) (\<lambda>dflt.
       rmap (Subject_policies dflt)
         (rmapM (\<lambda>rule.
             rmap (Pair (er_subject rule))
               (if er_enabled rule
                then rbind (effective_rule_config c rule) (\<lambda>eff. rmap Some (make_payload_encryptor getenv eff))
                else Inr None))
           (ec_rules c)))"

definition transformer_from_config :: "getenv \<Rightarrow> encryption_config \<Rightarrow> payload_transformer option res" where
  "transformer_from_config getenv c =
     (if ec_rules c \<noteq> []
      then (if ec_enabled c \<or> (\<exists>rule\<in>set (ec_rules c). er_enabled rule)
            then rmap Some (make_subject_encryptor getenv c) else Inr None)
      else if \<not> ec_enabled c then Inr None
      else rmap (\<lambda>pe. Some (One_policy pe)) (make_payload_encryptor getenv c))"

definition encryptor_for_subject :: "payload_transformer \<Rightarrow> string \<Rightarrow> payload_encryptor option" where
  "encryptor_for_subject tr subject =
     (case tr of
        One_policy pe \<Rightarrow> Some pe
      | Subject_policies dflt rules \<Rightarrow>
          (case find (\<lambda>(pattern, pe). matches_subject (PStr pattern) (PStr subject)) rules of
             Some (pattern, pe) \<Rightarrow> pe
           | None \<Rightarrow> dflt))"

definition encrypt_envelope :: "pylib \<Rightarrow> payload_transformer \<Rightarrow> bytes \<times> nats_envelope \<Rightarrow> nats_envelope res" where
  "encrypt_envelope L tr = (\<lambda>(nonce, e).
     case encryptor_for_subject tr (env_subject e) of
       None \<Rightarrow> Inr e
     | Some pe \<Rightarrow>
         rbind (encrypt_bytes L pe nonce (env_data e)) (\<lambda>encrypted.
           replace_envelope (l_str L) (e\<lparr>env_data := encrypted\<rparr>)))"

text \<open>The i-th message uses the i-th nonce drawn.\<close>

definition encrypt_batch ::
  "pylib \<Rightarrow> (nat \<Rightarrow> bytes) \<Rightarrow> payload_transformer \<Rightarrow> nats_envelope list \<Rightarrow> nats_envelope list res" where
  "encrypt_batch L nonces tr es =
     rmapM (encrypt_envelope L tr) (zip (map nonces [0..<length es]) es)"

section \<open>Facts\<close>

lemma encrypt_envelope_delivery: "encrypt_envelope L tr (n, e) = Inr e' \<Longrightarrow> delivery e' = delivery e"
  by (auto simp: encrypt_envelope_def delivery_def split: option.splits elim!: rbindE dest!: replace_delivery)

lemma encrypt_batch_delivery:
  assumes "encrypt_batch L nonces tr es = Inr es'"
  shows "map delivery es' = map delivery es"
proof -
  have "list_all2 (\<lambda>p e'. encrypt_envelope L tr p = Inr e') (zip (map nonces [0..<length es]) es) es'"
    using assms by (simp add: encrypt_batch_def rmapM_Inr_iff)
  then have "map delivery es' = map (delivery \<circ> snd) (zip (map nonces [0..<length es]) es)"
    by induction (auto simp: encrypt_envelope_delivery)
  then show ?thesis by (simp add: map_map [symmetric] del: map_map)
qed

interpretation encryption: batch_transformer "encrypt_batch L nonces tr"
  by unfold_locales (rule encrypt_batch_delivery)

lemma b64_ascii: "n < 64 \<Longrightarrow> of_char (b64_char n) < (128::nat)"
  by (auto simp: b64_char_def)

lemma b64encode_ascii: "list_all (\<lambda>c. of_char c < (128::nat)) (b64encode bs)"
  by (induction bs rule: b64encode.induct) (simp_all add: b64_ascii b64_sextets)

lemma encrypted_field_b64encode [simp]: "encrypted_field (PStr (b64encode bs)) = Inr bs"
  by (simp add: encrypted_field_def ascii_b64decode_def b64encode_ascii b64_roundtrip)

definition encrypted_members :: "encryption_config \<Rightarrow> bytes \<Rightarrow> bytes \<Rightarrow> int \<Rightarrow> string \<Rightarrow> nat \<Rightarrow> (pyval \<times> pyval) list" where
  "encrypted_members c nonce ciphertext tag_length sha256 size_bytes =
     [(PStr ''algorithm'', PStr (ec_algorithm c)),
      (PStr ''ciphertext'', PStr (b64encode ciphertext)),
      (PStr ''ciphertext_encoding'', PStr ''base64''),
      (PStr ''key_id'', PStr (ec_key_id c)),
      (PStr ''nonce'', PStr (b64encode nonce)),
      (PStr ''nonce_size_bytes'', PInt (int (length nonce))),
      (PStr ''plaintext_sha256'', PStr sha256),
      (PStr ''plaintext_size_bytes'', PInt (int size_bytes)),
      (PStr ''schema'', PStr ENCRYPTED_PAYLOAD_SCHEMA),
      (PStr ''tag_length'', PInt tag_length),
      (PStr ''version'', PInt ENCRYPTED_PAYLOAD_VERSION)]"

lemma sort_encrypted:
  "sort_key (\<lambda>(k, v). case k of PStr s \<Rightarrow> s | _ \<Rightarrow> [])
     [(PStr ''schema'', t1), (PStr ''version'', t2), (PStr ''algorithm'', t3), (PStr ''key_id'', t4),
      (PStr ''nonce'', t5), (PStr ''nonce_size_bytes'', t6), (PStr ''ciphertext'', t7),
      (PStr ''ciphertext_encoding'', t8), (PStr ''tag_length'', t9), (PStr ''plaintext_sha256'', t10),
      (PStr ''plaintext_size_bytes'', t11)]
   = [(PStr ''algorithm'', t3), (PStr ''ciphertext'', t7), (PStr ''ciphertext_encoding'', t8),
      (PStr ''key_id'', t4), (PStr ''nonce'', t5), (PStr ''nonce_size_bytes'', t6),
      (PStr ''plaintext_sha256'', t10), (PStr ''plaintext_size_bytes'', t11), (PStr ''schema'', t1),
      (PStr ''tag_length'', t9), (PStr ''version'', t2 :: pyval)]"
  by code_simp

lemma sort_keys_encrypted:
  "sort_keys (encrypted_document c nonce ciphertext tag sha n)
     = PDict [(PStr ENCRYPTED_PAYLOAD_KEY, PDict (encrypted_members c nonce ciphertext tag sha n))]"
  by (simp add: encrypted_document_def encrypted_members_def sort_encrypted)

lemma apply_hooks_encrypted:
  "apply_hooks (PDict [(PStr ENCRYPTED_PAYLOAD_KEY, PDict (encrypted_members c nonce ciphertext tag sha n))])
     = Inr (PDict [(PStr ENCRYPTED_PAYLOAD_KEY, PDict (encrypted_members c nonce ciphertext tag sha n))])"
  by (simp add: encrypted_members_def)

text \<open>The cipher inverts itself on this message, under this key.\<close>

definition aead_inverts :: "pylib \<Rightarrow> payload_encryptor \<Rightarrow> bytes \<Rightarrow> bytes \<Rightarrow> bool" where
  "aead_inverts L pe nonce plaintext \<longleftrightarrow> (\<forall>name tag c. l_aead_encrypt L name tag (pe_key pe) nonce plaintext = Inr c
     \<longrightarrow> l_aead_decrypt L name tag (pe_key pe) nonce c = Inr plaintext)"

lemma decrypt_members:
  assumes "load_encrypted_payload L v
      = Inr (PDict (encrypted_members (pe_config pe) nonce c tag (l_sha256 L plaintext) (length plaintext)))"
    and "encrypt_raw L pe nonce plaintext = Inr (c, tag)" "aead_inverts L pe nonce plaintext"
  shows "decrypt_payload L pe v = Inr plaintext"
proof -
  have "decrypt_raw L pe (PInt tag) nonce c = Inr plaintext"
    using assms(2,3)
    by (auto simp: encrypt_raw_def decrypt_raw_def aead_inverts_def rmap_Inr_iff split: if_splits elim!: rbindE)
  then show ?thesis
    by (simp add: decrypt_payload_def assms(1) encrypted_members_def py_get_def equals_int_def)
qed

text \<open>C15: encryption is reversible and recognised.  What the encryptor writes is a
  nats-sinks encryption envelope, and decrypting those bytes with the same policy and key gives
  back exactly the plaintext.  The cipher is assumed to invert itself on this message, and the
  JSON reader to read back the text that was written.\<close>

theorem encrypt_decrypt_roundtrip:
  assumes "encrypt_bytes L pe nonce plaintext = Inr data"
    and aead: "\<And>name tag c. l_aead_encrypt L name tag (pe_key pe) nonce plaintext = Inr c
      \<Longrightarrow> l_aead_decrypt L name tag (pe_key pe) nonce c = Inr plaintext"
    and reader: "\<And>c tag written. encrypt_raw L pe nonce plaintext = Inr (c, tag) \<Longrightarrow> json_dumps_ascii (l_float_text L)
        (encrypted_document (pe_config pe) nonce c tag (l_sha256 L plaintext) (length plaintext)) = Inr written
      \<Longrightarrow> l_decode L (utf8_encode written) = Some written
        \<and> l_scan L written = Some (sort_keys
            (encrypted_document (pe_config pe) nonce c tag (l_sha256 L plaintext) (length plaintext)))"
  shows "decrypt_payload L pe (PBytes data) = Inr plaintext
    \<and> is_encrypted_payload_envelope L (PBytes data) = Inr True"
proof -
  obtain c tag written where c: "encrypt_raw L pe nonce plaintext = Inr (c, tag)"
    and written: "json_dumps_ascii (l_float_text L)
        (encrypted_document (pe_config pe) nonce c tag (l_sha256 L plaintext) (length plaintext)) = Inr written"
    and data: "data = utf8_encode written"
    using assms(1) by (auto simp: encrypt_bytes_def rmap_Inr_iff elim!: rbindE)
  let ?members = "encrypted_members (pe_config pe) nonce c tag (l_sha256 L plaintext) (length plaintext)"
  have "load_standard_json (l_scan L) written = Inr (PDict [(PStr ENCRYPTED_PAYLOAD_KEY, PDict ?members)])"
    using reader [OF c written]
    by (simp only: load_standard_json_def sort_keys_encrypted option.case apply_hooks_encrypted)
  then have load: "load_encrypted_payload L (PBytes data) = Inr (PDict ?members)"
    using reader [OF c written] by (simp add: load_encrypted_payload_def data py_get_def)
  have "aead_inverts L pe nonce plaintext" using aead unfolding aead_inverts_def by blast
  from decrypt_members [OF load c this] show ?thesis
    by (simp add: is_encrypted_payload_envelope_def load encrypted_members_def py_get_def equals_int_def)
qed

text \<open>Encrypting a batch touches payloads only.  Length, order and delivery coordinates are
  kept, and a message whose subject matches a disabled rule, or no rule of a disabled policy,
  is passed through untouched.\<close>

theorem encrypt_batch_coordinates:
  assumes "encrypt_batch L nonces tr es = Inr es'"
  shows "length es' = length es \<and> map delivery es' = map delivery es
    \<and> (\<forall>i<length es. encryptor_for_subject tr (env_subject (es ! i)) = None \<longrightarrow> es' ! i = es ! i)"
proof -
  have "list_all2 (\<lambda>p e'. encrypt_envelope L tr p = Inr e') (zip (map nonces [0..<length es]) es) es'"
    using assms by (simp add: encrypt_batch_def rmapM_Inr_iff)
  then have "\<forall>i<length es. encrypt_envelope L tr (nonces i, es ! i) = Inr (es' ! i)"
    by (auto simp: list_all2_conv_all_nth)
  then show ?thesis
    using encryption.stage_length [OF assms] encryption.keeps_delivery [OF assms]
    by (auto simp: encrypt_envelope_def)
qed

text \<open>A rule cannot bring its own key source of the other kind.  When the top level names a key
  directly and an enabled rule names an environment variable (or the other way round), the
  inherited and the own source are both set in the rule's effective configuration, which its
  validation refuses: the subject encryptor cannot be built, although the configuration itself is
  accepted.\<close>

theorem rule_key_source_conflict:
  assumes "rule \<in> set (ec_rules c)" "er_enabled rule" "ec_rules c \<noteq> []"
    and "ec_key_b64 c \<noteq> None \<and> er_key_b64 rule = None \<and> er_key_b64_env rule \<noteq> None
      \<or> ec_key_b64_env c \<noteq> None \<and> er_key_b64_env rule = None \<and> er_key_b64 rule \<noteq> None"
  shows "\<exists>e. transformer_from_config getenv c = Inl e"
proof -
  have "effective_rule_config c rule = raise ValueError ''configure either encryption.key_b64 or encryption.key_b64_env''"
    using assms(4) by (auto simp: effective_rule_config_def validate_key_sources_def raise_def)
  then have bad: "\<nexists>y. rmap (Pair (er_subject rule))
      (if er_enabled rule
       then rbind (effective_rule_config c rule) (\<lambda>eff. rmap Some (make_payload_encryptor getenv eff))
       else Inr None) = Inr y"
    using assms(2) by (simp add: raise_def)
  have "\<nexists>ys. rmapM (\<lambda>rule. rmap (Pair (er_subject rule))
      (if er_enabled rule
       then rbind (effective_rule_config c rule) (\<lambda>eff. rmap Some (make_payload_encryptor getenv eff))
       else Inr None)) (ec_rules c) = Inr ys"
    using bad rmapM_elem [OF _ assms(1)] by blast
  then have "\<nexists>y. transformer_from_config getenv c = Inr y"
    using assms(1-3) by (auto simp: transformer_from_config_def make_subject_encryptor_def rmap_Inr_iff rbind_Inr_iff)
  then show ?thesis by (cases "transformer_from_config getenv c") auto
qed

definition rule_with_env :: encryption_rule where
  "rule_with_env = \<lparr>er_subject = ''a.>'', er_enabled = True, er_algorithm = None, er_key_id = None,
     er_key_b64 = None, er_key_b64_env = Some ''KEY'', er_nonce_size_bytes = None, er_tag_length = None\<rparr>"

definition gcm_config :: encryption_config where
  "gcm_config = \<lparr>ec_enabled = True, ec_algorithm = ''aes-256-gcm'', ec_key_id = ''k'',
     ec_key_b64 = Some (b64encode (replicate 32 7)), ec_key_b64_env = None, ec_nonce_size_bytes = 12,
     ec_tag_length = 16, ec_rules = [rule_with_env]\<rparr>"

lemma rule_key_source_conflict_witness:
  "validate_key_sources gcm_config = Inr ()
    \<and> (\<exists>e. transformer_from_config (\<lambda>_. Some (b64encode (replicate 32 9))) gcm_config = Inl e)"
proof
  show "validate_key_sources gcm_config = Inr ()"
    by (simp add: validate_key_sources_def gcm_config_def decode_aes_256_key_def ascii_b64decode_def
        b64encode_ascii b64_roundtrip rule_needs_key_def rule_with_env_def)
  show "\<exists>e. transformer_from_config (\<lambda>_. Some (b64encode (replicate 32 9))) gcm_config = Inl e"
    by (rule rule_key_source_conflict [of rule_with_env]) (simp_all add: gcm_config_def rule_with_env_def)
qed

definition sample_encryptor :: payload_encryptor where
  "sample_encryptor = \<lparr>pe_config = gcm_config, pe_key = replicate 32 7\<rparr>"

text \<open>A library whose cipher is the identity and whose JSON reader knows one document.\<close>

definition one_document_lib :: pylib where
  "one_document_lib = plain_lib\<lparr>l_scan := (\<lambda>_. Some (sort_keys
     (encrypted_document gcm_config [1, 2] [104, 105] 16 (render_nat 2) 2))),
     l_aead_encrypt := (\<lambda>_ n _ _ p. if n = 16 then Inr p else raise ValueError ''tag'')\<rparr>"

lemma encrypt_sample: "encrypt_raw one_document_lib sample_encryptor [1, 2] [104, 105] = Inr ([104, 105], 16)"
  by code_simp

lemma dumps_sample:
  "\<exists>written. json_dumps_ascii ft (encrypted_document gcm_config [1, 2] [104, 105] 16 (render_nat 2) 2) = Inr written
     \<and> ascii_text written"
  by (simp add: json_dumps_ascii_def encrypted_document_def text_key_def ascii_json_string ascii_render_int)

lemma encrypt_decrypt_roundtrip_witness:
  "\<exists>data. encrypt_bytes one_document_lib sample_encryptor [1, 2] [104, 105] = Inr data
    \<and> decrypt_payload one_document_lib sample_encryptor (PBytes data) = Inr [104, 105]"
proof -
  have fields: "pe_config sample_encryptor = gcm_config"
    "l_decode one_document_lib = (\<lambda>bs. Some (map (\<lambda>b. char_of (unat b)) bs))"
    "l_scan one_document_lib = (\<lambda>_. Some (sort_keys (encrypted_document gcm_config [1, 2] [104, 105] 16 (render_nat 2) 2)))"
    "l_sha256 one_document_lib = (\<lambda>bs. render_nat (length bs))"
    by (simp_all add: sample_encryptor_def one_document_lib_def plain_lib_def)
  obtain written where written: "json_dumps_ascii (l_float_text one_document_lib)
      (encrypted_document gcm_config [1, 2] [104, 105] 16 (render_nat 2) 2) = Inr written" "ascii_text written"
    using dumps_sample by blast
  have enc: "encrypt_bytes one_document_lib sample_encryptor [1, 2] [104, 105] = Inr (utf8_encode written)"
    using written(1) by (simp add: encrypt_bytes_def encrypt_sample fields numeral_2_eq_2)
  have "decrypt_payload one_document_lib sample_encryptor (PBytes (utf8_encode written)) = Inr [104, 105]
    \<and> is_encrypted_payload_envelope one_document_lib (PBytes (utf8_encode written)) = Inr True"
  proof (rule encrypt_decrypt_roundtrip [OF enc])
    fix c tag written'
    assume "encrypt_raw one_document_lib sample_encryptor [1, 2] [104, 105] = Inr (c, tag)"
      "json_dumps_ascii (l_float_text one_document_lib) (encrypted_document (pe_config sample_encryptor) [1, 2] c tag
        (l_sha256 one_document_lib [104, 105]) (length [104, 105 :: byte])) = Inr written'"
    then have "c = [104, 105]" "tag = 16" "written' = written"
      using written(1) by (auto simp: encrypt_sample fields numeral_2_eq_2)
    with written(2) show "l_decode one_document_lib (utf8_encode written') = Some written' \<and>
        l_scan one_document_lib written' = Some (sort_keys (encrypted_document (pe_config sample_encryptor) [1, 2] c tag
          (l_sha256 one_document_lib [104, 105]) (length [104, 105 :: byte])))"
      by (simp add: fields numeral_2_eq_2 utf8_decode_ascii)
  next
    fix name tag c
    assume "l_aead_encrypt one_document_lib name tag (pe_key sample_encryptor) [1, 2] [104, 105] = Inr c"
    then show "l_aead_decrypt one_document_lib name tag (pe_key sample_encryptor) [1, 2] c = Inr [104, 105]"
      by (auto simp: one_document_lib_def plain_lib_def raise_def split: if_splits)
  qed
  with enc show ?thesis by blast
qed

lemma encrypt_batch_coordinates_witness:
  "\<exists>es'. encrypt_batch one_document_lib (\<lambda>i. [1, 2]) (Subject_policies None [(''a.>'', Some sample_encryptor)])
      [sample_envelope ''b'' 1 [65]] = Inr es'
    \<and> es' ! 0 = sample_envelope ''b'' 1 [65]"
proof -
  have none: "encryptor_for_subject (Subject_policies None [(''a.>'', Some sample_encryptor)]) ''b'' = None"
    by code_simp
  then have "encrypt_batch one_document_lib (\<lambda>i. [1, 2]) (Subject_policies None [(''a.>'', Some sample_encryptor)])
      [sample_envelope ''b'' 1 [65]] = Inr [sample_envelope ''b'' 1 [65]]"
    by (simp add: encrypt_batch_def encrypt_envelope_def sample_envelope_def)
  with encrypt_batch_coordinates [OF this] none show ?thesis by (simp add: sample_envelope_def)
qed

end
