(* ===== verification/Authenticity.thy ===== *)
theory Authenticity
  imports BatchStages Encryption
begin

text \<open>
  Message authenticity (\<open>core/authenticity.py\<close>): the canonical signed document, signature headers,
  and the gate that rejects a message whose signature does not verify.  HMAC-SHA256 and Ed25519
  verification are parameters of the library record.
\<close>

record authenticity_rule =
  ar_subject :: string
  ar_enabled :: bool
  ar_algorithm :: string
  ar_key_id :: "string option"
  ar_key_b64 :: "string option"
  ar_key_b64_env :: "string option"
  ar_signed_fields :: "string list"

record authenticity_config =
  ac_enabled :: bool
  ac_reject_unmatched :: bool
  ac_signature_header :: string
  ac_algorithm_header :: string
  ac_key_id_header :: string
  ac_rules :: "authenticity_rule list"

record prepared_rule =
  pa_config :: authenticity_rule
  pa_key :: "bytes option"

record authenticity_violation =
  av_index :: nat
  av_subject :: string
  av_rule_subject :: string
  av_reason :: string

definition MAX_SIGNATURE_BYTES :: nat where "MAX_SIGNATURE_BYTES = 1024"
definition MAX_SIGNATURE_BASE64_CHARS :: nat where
  "MAX_SIGNATURE_BASE64_CHARS = 4 * ((MAX_SIGNATURE_BYTES + 2) div 3)"

section \<open>Keys\<close>

definition decode_authenticity_key :: "string \<Rightarrow> string \<Rightarrow> bytes res" where
  "decode_authenticity_key algorithm value =
     (case ascii_b64decode value of
        None \<Rightarrow> raise ConfigurationError ''key must be base64 encoded''
      | Some decoded \<Rightarrow>
          if algorithm = ''hmac-sha256''
          then (if 32 \<le> length decoded \<and> length decoded \<le> 1024 then Inr decoded
                else raise ConfigurationError ''key must decode to a bounded size for HMAC-SHA256'')
          else if algorithm = ''ed25519''
          then (if length decoded = 32 then Inr decoded
                else raise ConfigurationError ''key must decode to exactly 32 bytes for Ed25519 public keys'')
          else raise ConfigurationError ''message_authenticity algorithm is not supported'')"

definition resolve_authenticity_key :: "getenv \<Rightarrow> authenticity_rule \<Rightarrow> bytes res" where
  "resolve_authenticity_key getenv rule =
     (case ar_key_b64 rule of
        Some k \<Rightarrow> decode_authenticity_key (ar_algorithm rule) k
      | None \<Rightarrow>
          (case ar_key_b64_env rule of
             None \<Rightarrow> raise ConfigurationError ''message_authenticity verification key is not configured''
           | Some name \<Rightarrow>
               (case getenv name of
                  None \<Rightarrow> raise ConfigurationError ''environment variable is not set''
                | Some v \<Rightarrow> decode_authenticity_key (ar_algorithm rule) v)))"

text \<open>\<open>public_key_ok\<close> stands for loading the Ed25519 public key, which raises a configuration error.\<close>

definition prepare_rule :: "getenv \<Rightarrow> (bytes \<Rightarrow> unit res) \<Rightarrow> authenticity_rule \<Rightarrow> prepared_rule res" where
  "prepare_rule getenv public_key_ok rule =
     (if \<not> ar_enabled rule then Inr \<lparr>pa_config = rule, pa_key = None\<rparr>
      else rbind (resolve_authenticity_key getenv rule) (\<lambda>key.
        rmap (\<lambda>_. \<lparr>pa_config = rule, pa_key = Some key\<rparr>)
          (if ar_algorithm rule = ''ed25519'' then public_key_ok key else Inr ())))"

definition make_authenticator ::
  "getenv \<Rightarrow> (bytes \<Rightarrow> unit res) \<Rightarrow> authenticity_config \<Rightarrow> prepared_rule list option res" where
  "make_authenticator getenv public_key_ok c =
     (if \<not> ac_enabled c then Inr None else rmap Some (rmapM (prepare_rule getenv public_key_ok) (ac_rules c)))"

section \<open>The signed document\<close>

fun selected_metadata :: "render \<Rightarrow> nats_envelope \<Rightarrow> (pyval \<times> pyval) list \<Rightarrow> string list \<Rightarrow> (pyval \<times> pyval) list res" where
  "selected_metadata st e metadata [] = Inr metadata"
| "selected_metadata st e metadata (name # names) =
     rbind
       (if name = ''subject'' then Inr (PStr (env_subject e))
        else if name = ''message_id'' then Inr (opt_str (env_message_id e))
        else if name = ''priority'' then Inr (opt_str (env_priority e))
        else if name = ''classification'' then Inr (opt_str (env_classification e))
        else if name = ''labels'' then Inr (PList (map PStr (env_labels e)))
        else if name = ''mission_metadata'' then thaw_metadata st (env_mission_metadata e)
        else if name = ''security_labels'' then thaw_metadata st (env_security_labels e)
        else raise PolicyViolationError ''message authenticity signed field is not supported'')
       (\<lambda>v. selected_metadata st e (AList.update (PStr name) v metadata) names)"

definition canonical_message_authenticity_document ::
  "pylib \<Rightarrow> nats_envelope \<Rightarrow> string \<Rightarrow> string \<Rightarrow> string list \<Rightarrow> pyval res" where
  "canonical_message_authenticity_document L e algorithm key_id signed_fields =
     rmap (\<lambda>metadata. PDict
       [(PStr ''schema'', PStr ''nats_sinks.message_authenticity.v1''),
        (PStr ''version'', PInt 1),
        (PStr ''algorithm'', PStr algorithm),
        (PStr ''key_id'', PStr key_id),
        (PStr ''payload_sha256'', PStr (l_sha256 L (env_data e))),
        (PStr ''metadata'', PDict metadata)])
       (selected_metadata (l_str L) e [] signed_fields)"

definition canonical_message_authenticity_bytes ::
  "pylib \<Rightarrow> nats_envelope \<Rightarrow> string \<Rightarrow> string \<Rightarrow> string list \<Rightarrow> bytes res" where
  "canonical_message_authenticity_bytes L e algorithm key_id signed_fields =
     (case rbind (canonical_message_authenticity_document L e algorithm key_id signed_fields)
             (json_dumps (l_float_text L)) of
        Inr rendered \<Rightarrow> Inr (utf8_encode rendered)
      | Inl err \<Rightarrow>
          if isinstance err TypeError \<or> isinstance err ValueError
          then raise PolicyViolationError ''message authenticity canonical content is invalid'' else Inl err)"

definition hmac_sha256_signature_b64 :: "pylib \<Rightarrow> nats_envelope \<Rightarrow> bytes \<Rightarrow> string \<Rightarrow> string list \<Rightarrow> string res" where
  "hmac_sha256_signature_b64 L e key key_id signed_fields =
     rmap (\<lambda>material. b64encode (l_hmac_sha256 L key material))
       (canonical_message_authenticity_bytes L e ''hmac-sha256'' key_id signed_fields)"

section \<open>Verification\<close>

definition normalized_header :: "headers \<Rightarrow> string \<Rightarrow> bool \<Rightarrow> string option" where
  "normalized_header headers name normalize_algorithm =
     (case case_insensitive_header headers name of
        None \<Rightarrow> None
      | Some v \<Rightarrow>
          (let rendered = strip v in
           if rendered = [] then None
           else if normalize_algorithm
           then Some (map (\<lambda>c. if c = CHR ''_'' then CHR ''-'' else c) (lower rendered))
           else Some rendered))"

definition signature_bytes :: "headers \<Rightarrow> string \<Rightarrow> bytes option" where
  "signature_bytes headers name =
     (case case_insensitive_header headers name of
        None \<Rightarrow> None
      | Some v \<Rightarrow>
          (let rendered = strip v in
           if rendered = [] then None
           else if MAX_SIGNATURE_BASE64_CHARS < length rendered then Some []
           else (case ascii_b64decode rendered of
               None \<Rightarrow> Some []
             | Some decoded \<Rightarrow> if MAX_SIGNATURE_BYTES < length decoded then Some [] else Some decoded)))"

definition verify_signature :: "pylib \<Rightarrow> string \<Rightarrow> bytes \<Rightarrow> bytes \<Rightarrow> bytes \<Rightarrow> bool res" where
  "verify_signature L algorithm key signature signed_material =
     (if algorithm = ''hmac-sha256'' then Inr (signature = l_hmac_sha256 L key signed_material)
      else if algorithm = ''ed25519'' then l_ed25519_verify L key signature signed_material
      else raise ConfigurationError ''message_authenticity algorithm is not supported'')"

definition authenticity_failure_reason ::
  "pylib \<Rightarrow> authenticity_config \<Rightarrow> authenticity_rule \<Rightarrow> bytes \<Rightarrow> nats_envelope \<Rightarrow> string option res" where
  "authenticity_failure_reason L c rule key e =
     (case normalized_header (env_headers e) (ac_algorithm_header c) True of
        None \<Rightarrow> Inr (Some ''algorithm_header_missing'')
      | Some algorithm \<Rightarrow>
          if algorithm \<noteq> ar_algorithm rule then Inr (Some ''algorithm_mismatch'')
          else (case normalized_header (env_headers e) (ac_key_id_header c) False of
              None \<Rightarrow> Inr (Some ''key_id_header_missing'')
            | Some key_id \<Rightarrow>
                if Some key_id \<noteq> ar_key_id rule then Inr (Some ''key_id_mismatch'')
                else (case signature_bytes (env_headers e) (ac_signature_header c) of
                    None \<Rightarrow> Inr (Some ''signature_header_missing'')
                  | Some signature \<Rightarrow>
                      rbind (canonical_message_authenticity_bytes L e (ar_algorithm rule) key_id (ar_signed_fields rule))
                        (\<lambda>material. rmap (\<lambda>valid. if valid then None else Some ''signature_invalid'')
                          (verify_signature L (ar_algorithm rule) key signature material)))))"

definition authenticity_violation :: "nat \<Rightarrow> nats_envelope \<Rightarrow> string \<Rightarrow> string \<Rightarrow> authenticity_violation" where
  "authenticity_violation i e rule_subject reason =
     \<lparr>av_index = i, av_subject = env_subject e, av_rule_subject = rule_subject, av_reason = reason\<rparr>"

definition authenticity_check ::
  "pylib \<Rightarrow> authenticity_config \<Rightarrow> prepared_rule list \<Rightarrow> nat \<Rightarrow> nats_envelope \<Rightarrow> authenticity_violation list res" where
  "authenticity_check L c rules i e =
     (case find (\<lambda>rule. matches_subject (PStr (ar_subject (pa_config rule))) (PStr (env_subject e))) rules of
        None \<Rightarrow>
          Inr (if ac_reject_unmatched c
               then [authenticity_violation i e ''<unmatched>'' ''subject_not_covered_by_authenticity_policy''] else [])
      | Some prepared \<Rightarrow>
          if \<not> ar_enabled (pa_config prepared) then Inr []
          else (case pa_key prepared of
              None \<Rightarrow> raise ConfigurationError ''message_authenticity enabled rule has no verification key''
            | Some key \<Rightarrow>
                if ar_key_id (pa_config prepared) = None
                then raise ConfigurationError ''message_authenticity enabled rule has no key identifier''
                else rmap (\<lambda>reason. case reason of None \<Rightarrow> []
                    | Some r \<Rightarrow> [authenticity_violation i e (ar_subject (pa_config prepared)) r])
                  (authenticity_failure_reason L c (pa_config prepared) key e)))"

definition evaluate_authenticity ::
  "pylib \<Rightarrow> authenticity_config \<Rightarrow> prepared_rule list \<Rightarrow> nats_envelope list \<Rightarrow> authenticity_violation evaluation res" where
  "evaluate_authenticity L c rules es = evaluate_from (authenticity_check L c rules) 0 es"

definition message_authenticity_violation_error :: "authenticity_violation list \<Rightarrow> exn" where
  "message_authenticity_violation_error violations =
     (if violations = [] then Exn PolicyViolationError ''message authenticity verification failed''
      else Exn PolicyViolationError
        (''message authenticity verification rejected '' @ render_nat (card (set (map av_index violations)))
          @ '' message(s); first reason='' @ av_reason (hd violations)))"

interpretation authenticity_gate: batch_gate "evaluate_authenticity L c rules"
  by unfold_locales (use partition_evaluate_from [where i = 0] in \<open>simp add: evaluate_authenticity_def\<close>)

section \<open>What an accepted message has proved\<close>

text \<open>C17: only verified messages pass the authenticity gate.  An accepted message either matches a
  rule that is switched off, or no rule while unmatched subjects are allowed, or it carries the
  rule's algorithm and key id and a signature that verifies, with that rule's key, over the
  canonical bytes of this very message: its payload digest and the signed metadata fields.\<close>

theorem authenticity_gate_sound:
  assumes "evaluate_authenticity L c rules es = Inr ev" "i \<in> set (ev_accepted ev)"
  shows "i < length es \<and>
    (case find (\<lambda>rule. matches_subject (PStr (ar_subject (pa_config rule))) (PStr (env_subject (es ! i)))) rules of
       None \<Rightarrow> \<not> ac_reject_unmatched c
     | Some prepared \<Rightarrow>
         \<not> ar_enabled (pa_config prepared)
         \<or> (\<exists>key key_id signature material.
              pa_key prepared = Some key \<and> ar_key_id (pa_config prepared) = Some key_id
              \<and> normalized_header (env_headers (es ! i)) (ac_algorithm_header c) True = Some (ar_algorithm (pa_config prepared))
              \<and> normalized_header (env_headers (es ! i)) (ac_key_id_header c) False = Some key_id
              \<and> signature_bytes (env_headers (es ! i)) (ac_signature_header c) = Some signature
              \<and> canonical_message_authenticity_bytes L (es ! i) (ar_algorithm (pa_config prepared)) key_id
                  (ar_signed_fields (pa_config prepared)) = Inr material
              \<and> verify_signature L (ar_algorithm (pa_config prepared)) key signature material = Inr True))"
proof -
  have i: "i < length es" "authenticity_check L c rules i (es ! i) = Inr []"
    using assms evaluate_from_accepted [of "authenticity_check L c rules" 0 es ev i]
    by (auto simp: evaluate_authenticity_def)
  show ?thesis
  proof (cases "find (\<lambda>rule. matches_subject (PStr (ar_subject (pa_config rule))) (PStr (env_subject (es ! i)))) rules")
    case None
    with i show ?thesis by (auto simp: authenticity_check_def split: if_splits)
  next
    case (Some prepared)
    show ?thesis
    proof (cases "ar_enabled (pa_config prepared)")
      case True
      with i(2) Some obtain key where key: "pa_key prepared = Some key"
        "authenticity_failure_reason L c (pa_config prepared) key (es ! i) = Inr None"
        by (auto simp: authenticity_check_def raise_def rmap_Inr_iff split: option.splits if_splits)
      from key(2) show ?thesis
        by (auto simp: i(1) Some key(1) authenticity_failure_reason_def rmap_Inr_iff
            split: option.splits if_splits elim!: rbindE)
    qed (simp add: i(1) Some)
  qed
qed

definition sample_authenticity :: "authenticity_config" where
  "sample_authenticity =
     \<lparr>ac_enabled = True, ac_reject_unmatched = True, ac_signature_header = ''Sig'', ac_algorithm_header = ''Alg'',
      ac_key_id_header = ''Kid'', ac_rules = []\<rparr>"

definition sample_rule :: prepared_rule where
  "sample_rule =
     \<lparr>pa_config = \<lparr>ar_subject = ''orders.*'', ar_enabled = True, ar_algorithm = ''hmac-sha256'', ar_key_id = Some ''k1'',
        ar_key_b64 = None, ar_key_b64_env = None, ar_signed_fields = [''subject'']\<rparr>, pa_key = Some [7]\<rparr>"

definition signed_sample :: nats_envelope where
  "signed_sample = (sample_envelope ''orders.new'' 1 [5])\<lparr>env_headers := [(''alg'', ''HMAC_SHA256''), (''kid'', ''k1''), (''sig'', ''Bw=='')]\<rparr>"

lemma sample_lookups:
  "find (\<lambda>rule. matches_subject (PStr (ar_subject (pa_config rule))) (PStr (env_subject signed_sample))) [sample_rule] = Some sample_rule"
  "normalized_header (env_headers signed_sample) ''Alg'' True = Some ''hmac-sha256''"
  "normalized_header (env_headers signed_sample) ''Kid'' False = Some ''k1''"
  "signature_bytes (env_headers signed_sample) ''Sig'' = Some [7]"
  by code_simp+

lemma authenticity_gate_sound_witness:
  "\<exists>ev. evaluate_authenticity plain_lib sample_authenticity [sample_rule] [signed_sample] = Inr ev \<and> ev_accepted ev = [0]
    \<and> (\<exists>key_id. ar_key_id (pa_config sample_rule) = Some key_id
        \<and> normalized_header (env_headers signed_sample) ''Kid'' False = Some key_id)"
proof -
  obtain m where "canonical_message_authenticity_bytes plain_lib signed_sample ''hmac-sha256'' ''k1'' [''subject''] = Inr m"
    by (simp add: canonical_message_authenticity_bytes_def canonical_message_authenticity_document_def json_dumps_def
        text_key_def signed_sample_def sample_envelope_def)
  then have "authenticity_failure_reason plain_lib sample_authenticity (pa_config sample_rule) [7] signed_sample = Inr None"
    using sample_lookups
    by (simp add: authenticity_failure_reason_def sample_authenticity_def sample_rule_def verify_signature_def plain_lib_def)
  then have "authenticity_check plain_lib sample_authenticity [sample_rule] 0 signed_sample = Inr []"
    unfolding authenticity_check_def sample_lookups(1) by (simp add: sample_rule_def)
  then have ev: "evaluate_authenticity plain_lib sample_authenticity [sample_rule] [signed_sample]
      = Inr \<lparr>ev_accepted = [0], ev_rejected = [], ev_violations = []\<rparr>"
    by (simp add: evaluate_authenticity_def)
  have "0 \<in> set (ev_accepted \<lparr>ev_accepted = [0], ev_rejected = [], ev_violations = []\<rparr>)" by simp
  from authenticity_gate_sound [OF ev this] have "ar_enabled (pa_config sample_rule) \<longrightarrow>
      (\<exists>key_id. ar_key_id (pa_config sample_rule) = Some key_id
        \<and> normalized_header (env_headers signed_sample) (ac_key_id_header sample_authenticity) False = Some key_id)"
    unfolding nth_Cons_0 sample_lookups(1) by auto
  with ev show ?thesis by (simp add: sample_rule_def sample_authenticity_def)
qed

end
