(* ===== verification/SizePolicy.thy ===== *)
theory SizePolicy
  imports BatchStages Metadata JsonText
begin

text \<open>
  The size policy gate (\<open>core/size_policy.py\<close>).  \<open>now i\<close> is the clock reading taken while message
  \<open>i\<close> is measured; it becomes the storage time of the measured metadata snapshot.
\<close>

record size_config =
  sz_enabled :: bool
  sz_max_batch_messages :: int
  sz_max_payload_bytes :: int
  sz_max_header_count :: int
  sz_max_header_name_bytes :: int
  sz_max_header_value_bytes :: int
  sz_max_headers_bytes :: int
  sz_max_label_count :: int
  sz_max_label_bytes :: int
  sz_max_labels_bytes :: int
  sz_max_mission_metadata_bytes :: int
  sz_max_standard_metadata_bytes :: int
  sz_max_normalized_record_bytes :: int

record size_violation =
  sv_index :: nat
  sv_subject :: string
  sv_reason :: string
  sv_actual :: int
  sv_limit :: int

definition size_policy_violation_error :: "size_violation list \<Rightarrow> exn" where
  "size_policy_violation_error violations =
     (if violations = [] then Exn SizePolicyViolationError ''size policy rejected message''
      else Exn SizePolicyViolationError
        (''size policy rejected '' @ render_nat (card (set (map sv_index violations))) @ '' message(s); first reason=''
          @ sv_reason (hd violations) @ '' actual='' @ render_int (sv_actual (hd violations))
          @ '' limit='' @ render_int (sv_limit (hd violations))))"

definition size_violation :: "nat \<Rightarrow> nats_envelope \<Rightarrow> string \<Rightarrow> int \<Rightarrow> int \<Rightarrow> size_violation" where
  "size_violation i e reason actual limit =
     \<lparr>sv_index = i, sv_subject = env_subject e, sv_reason = reason, sv_actual = actual, sv_limit = limit\<rparr>"

definition append_if_over :: "nat \<Rightarrow> nats_envelope \<Rightarrow> string \<Rightarrow> int \<Rightarrow> int \<Rightarrow> size_violation list" where
  "append_if_over i e reason actual limit =
     (if limit < actual then [size_violation i e reason actual limit] else [])"

fun header_sizes :: "headers \<Rightarrow> nat \<Rightarrow> nat \<Rightarrow> nat \<Rightarrow> nat \<times> nat \<times> nat" where
  "header_sizes [] max_name max_value acc = (max_name, max_value, acc)"
| "header_sizes ((name, value) # hs) max_name max_value acc =
     (let name_size = utf8_len name; value_size = utf8_len value in
      header_sizes hs (max max_name name_size) (max max_value value_size) (acc + (name_size + value_size)))"

definition json_size :: "float_text \<Rightarrow> pyval \<Rightarrow> nat res" where
  "json_size ft value =
     (if value = PNone then Inr 0 else rmap (\<lambda>text. length (utf8_encode text)) (json_dumps ft value))"

definition max_label :: "string list \<Rightarrow> nat" where
  "max_label labels = foldr (\<lambda>l m. max (utf8_len l) m) labels 0"

definition size_violations_for_envelope ::
  "pylib \<Rightarrow> (nat \<Rightarrow> datetime) \<Rightarrow> size_config \<Rightarrow> nat \<Rightarrow> nats_envelope \<Rightarrow> size_violation list res" where
  "size_violations_for_envelope L now c i e =
     (case header_sizes (env_headers e) 0 0 0 of (name_bytes, value_bytes, total_bytes) \<Rightarrow>
      rbind (rbind (thaw_metadata (l_str L) (env_mission_metadata e)) (json_size (l_float_text L))) (\<lambda>mission_size.
      rbind (rbind (build_nats_metadata_snapshot L e (now i)) (json_size (l_float_text L))) (\<lambda>standard_size.
      Inr
       (append_if_over i e ''payload_too_large'' (int (length (env_data e))) (sz_max_payload_bytes c)
        @ append_if_over i e ''header_count_too_large'' (int (length (env_headers e))) (sz_max_header_count c)
        @ append_if_over i e ''header_name_too_large'' (int name_bytes) (sz_max_header_name_bytes c)
        @ append_if_over i e ''header_value_too_large'' (int value_bytes) (sz_max_header_value_bytes c)
        @ append_if_over i e ''headers_too_large'' (int total_bytes) (sz_max_headers_bytes c)
        @ append_if_over i e ''label_count_too_large'' (int (length (env_labels e))) (sz_max_label_count c)
        @ append_if_over i e ''label_too_large'' (int (max_label (env_labels e))) (sz_max_label_bytes c)
        @ append_if_over i e ''labels_too_large'' (int (sum_list (map utf8_len (env_labels e)))) (sz_max_labels_bytes c)
        @ append_if_over i e ''mission_metadata_too_large'' (int mission_size) (sz_max_mission_metadata_bytes c)
        @ append_if_over i e ''standard_metadata_too_large'' (int standard_size) (sz_max_standard_metadata_bytes c)
        @ append_if_over i e ''normalized_record_too_large'' (int (length (env_data e)) + int standard_size)
            (sz_max_normalized_record_bytes c)))))"

definition size_check ::
  "pylib \<Rightarrow> (nat \<Rightarrow> datetime) \<Rightarrow> size_config \<Rightarrow> nats_envelope list \<Rightarrow> nat \<Rightarrow> nats_envelope \<Rightarrow> size_violation list res" where
  "size_check L now c es i e =
     rmap (\<lambda>vs. (if sz_max_batch_messages c < int (length es)
                 then [size_violation i e ''batch_message_count_too_large'' (int (length es)) (sz_max_batch_messages c)]
                 else []) @ vs)
       (size_violations_for_envelope L now c i e)"

definition evaluate_size_policy ::
  "pylib \<Rightarrow> (nat \<Rightarrow> datetime) \<Rightarrow> size_config \<Rightarrow> nats_envelope list \<Rightarrow> size_violation evaluation res" where
  "evaluate_size_policy L now c es = loop_gate (sz_enabled c) (size_check L now c) es"

interpretation size_gate: batch_gate "evaluate_size_policy L now c"
  by unfold_locales (simp add: evaluate_size_policy_def loop_gate_partition)

section \<open>What the policy promises\<close>

text \<open>The limits as a predicate on one message, with the sizes said directly.\<close>

definition within_limits :: "pylib \<Rightarrow> datetime \<Rightarrow> size_config \<Rightarrow> nats_envelope \<Rightarrow> bool" where
  "within_limits L now c e \<longleftrightarrow>
     int (length (env_data e)) \<le> sz_max_payload_bytes c
     \<and> int (length (env_headers e)) \<le> sz_max_header_count c
     \<and> (\<forall>(k, v)\<in>set (env_headers e). int (utf8_len k) \<le> sz_max_header_name_bytes c
          \<and> int (utf8_len v) \<le> sz_max_header_value_bytes c)
     \<and> int (\<Sum>(k, v)\<leftarrow>env_headers e. utf8_len k + utf8_len v) \<le> sz_max_headers_bytes c
     \<and> int (length (env_labels e)) \<le> sz_max_label_count c
     \<and> (\<forall>l\<in>set (env_labels e). int (utf8_len l) \<le> sz_max_label_bytes c)
     \<and> int (\<Sum>l\<leftarrow>env_labels e. utf8_len l) \<le> sz_max_labels_bytes c
     \<and> (\<exists>m. rbind (thaw_metadata (l_str L) (env_mission_metadata e)) (json_size (l_float_text L)) = Inr m
          \<and> int m \<le> sz_max_mission_metadata_bytes c)
     \<and> (\<exists>s. rbind (build_nats_metadata_snapshot L e now) (json_size (l_float_text L)) = Inr s
          \<and> int s \<le> sz_max_standard_metadata_bytes c
          \<and> int (length (env_data e)) + int s \<le> sz_max_normalized_record_bytes c)"

lemma header_sizes_le:
  "header_sizes hs a b t = (x, y, z) \<Longrightarrow>
     (int x \<le> n \<longleftrightarrow> int a \<le> n \<and> (\<forall>(k, v)\<in>set hs. int (utf8_len k) \<le> n))
     \<and> (int y \<le> m \<longleftrightarrow> int b \<le> m \<and> (\<forall>(k, v)\<in>set hs. int (utf8_len v) \<le> m))
     \<and> z = t + (\<Sum>(k, v)\<leftarrow>hs. utf8_len k + utf8_len v)"
proof (induction hs arbitrary: a b t)
  case (Cons p hs)
  obtain k v where p: "p = (k, v)" by (cases p)
  have "header_sizes hs (max a (utf8_len k)) (max b (utf8_len v)) (t + (utf8_len k + utf8_len v)) = (x, y, z)"
    using Cons.prems by (simp add: p Let_def)
  from Cons.IH [OF this] show ?case by (auto simp: p)
qed auto

lemma max_label_le: "0 \<le> n \<Longrightarrow> int (max_label ls) \<le> n \<longleftrightarrow> (\<forall>l\<in>set ls. int (utf8_len l) \<le> n)"
  by (induction ls) (auto simp: max_label_def)

lemma append_if_over_Nil [simp]: "append_if_over i e r actual limit = [] \<longleftrightarrow> actual \<le> limit"
  by (auto simp: append_if_over_def)

text \<open>The configuration bounds every limit below by zero.\<close>

lemma size_violations_Nil:
  assumes "0 \<le> sz_max_header_name_bytes c" "0 \<le> sz_max_header_value_bytes c" "0 \<le> sz_max_label_bytes c"
  shows "size_violations_for_envelope L now c i e = Inr [] \<longleftrightarrow> within_limits L (now i) c e"
proof -
  obtain x y z where hs: "header_sizes (env_headers e) 0 0 0 = (x, y, z)"
    by (cases "header_sizes (env_headers e) 0 0 0")
  note le = header_sizes_le [OF hs]
  have name: "int x \<le> sz_max_header_name_bytes c \<longleftrightarrow>
      (\<forall>(k, v)\<in>set (env_headers e). int (utf8_len k) \<le> sz_max_header_name_bytes c)"
    and val: "int y \<le> sz_max_header_value_bytes c \<longleftrightarrow>
      (\<forall>(k, v)\<in>set (env_headers e). int (utf8_len v) \<le> sz_max_header_value_bytes c)"
    and total: "z = (\<Sum>(k, v)\<leftarrow>env_headers e. utf8_len k + utf8_len v)"
    using le [of "sz_max_header_name_bytes c" "sz_max_header_value_bytes c"] assms(1,2) by auto
  have both: "(\<forall>(k, v)\<in>set (env_headers e). int (utf8_len k) \<le> sz_max_header_name_bytes c
        \<and> int (utf8_len v) \<le> sz_max_header_value_bytes c)
      \<longleftrightarrow> int x \<le> sz_max_header_name_bytes c \<and> int y \<le> sz_max_header_value_bytes c"
    unfolding name val by auto
  show ?thesis
    unfolding size_violations_for_envelope_def within_limits_def hs both max_label_le [OF assms(3), symmetric]
      total [symmetric] prod.case
    by (cases "rbind (thaw_metadata (l_str L) (env_mission_metadata e)) (json_size (l_float_text L))";
        cases "rbind (build_nats_metadata_snapshot L e (now i)) (json_size (l_float_text L))")
      auto
qed

text \<open>C18: the size gate is exact.  With the policy enabled, the evaluation splits the batch into
  accepted and rejected positions without losing or repeating one, and a message is accepted if
  and only if the batch is small enough and the message is within every configured limit.\<close>

theorem size_gate_exact:
  assumes "evaluate_size_policy L now c es = Inr ev" "sz_enabled c"
    and "0 \<le> sz_max_header_name_bytes c" "0 \<le> sz_max_header_value_bytes c" "0 \<le> sz_max_label_bytes c"
  shows "mset (ev_accepted ev @ ev_rejected ev) = mset [0..<length es]
    \<and> (\<forall>i<length es. i \<in> set (ev_accepted ev) \<longleftrightarrow>
         int (length es) \<le> sz_max_batch_messages c \<and> within_limits L (now i) c (es ! i))"
proof -
  have "mset (ev_accepted ev @ ev_rejected ev) = mset [0..<length es]"
    using size_gate.split_mset [OF assms(1), of "[0..<length es]"] size_gate.positions [OF assms(1)]
    by (simp add: pick_def cong: map_cong)
  moreover have "evaluate_from (size_check L now c es) 0 es = Inr ev"
    using assms(1,2) by (simp add: evaluate_size_policy_def loop_gate_def)
  then have "i \<in> set (ev_accepted ev) \<longleftrightarrow> i < length es \<and> size_check L now c es i (es ! i) = Inr []" for i
    using evaluate_from_accepted [of "size_check L now c es" 0 es ev i] by simp
  moreover have "size_check L now c es i e = Inr [] \<longleftrightarrow>
      int (length es) \<le> sz_max_batch_messages c \<and> within_limits L (now i) c e" for i e
    using size_violations_Nil [OF assms(3-5), of L now i e]
    by (auto simp: size_check_def rmap_Inr_iff)
  ultimately show ?thesis by simp
qed

lemma sample_sizes:
  "\<exists>n. rbind (build_nats_metadata_snapshot plain_lib (sample_envelope s k body) (Aware 0 0))
      (json_size (l_float_text plain_lib)) = Inr n"
proof -
  obtain m where m: "build_nats_metadata_snapshot plain_lib (sample_envelope s k body) (Aware 0 0) = Inr (PDict m)"
    "renderable (PDict m)"
    by (simp add: build_nats_metadata_snapshot_def resolve_message_created_timestamp_def
        datetime_to_epoch_ns_def in_utc_def datetime_min_us_def datetime_max_us_def sample_envelope_def
        thaw_metadata_def Let_def payload_section_def jetstream_section_def freshness_section_def list_all_iff)
  then show ?thesis
    using renderable_text [OF m(2), of json_string "l_float_text plain_lib"]
    by (auto simp: json_size_def json_dumps_def)
qed

definition sample_size_config :: size_config where
  "sample_size_config =
     \<lparr>sz_enabled = True, sz_max_batch_messages = 10, sz_max_payload_bytes = 2, sz_max_header_count = 8,
      sz_max_header_name_bytes = 64, sz_max_header_value_bytes = 64, sz_max_headers_bytes = 512,
      sz_max_label_count = 8, sz_max_label_bytes = 64, sz_max_labels_bytes = 512,
      sz_max_mission_metadata_bytes = 1024, sz_max_standard_metadata_bytes = 8192,
      sz_max_normalized_record_bytes = 8192\<rparr>"

lemma size_gate_exact_witness:
  "\<exists>ev. evaluate_size_policy plain_lib (\<lambda>i. Aware 0 0) sample_size_config [sample_envelope ''a'' 1 [1, 2, 3]] = Inr ev
    \<and> ev_accepted ev = [] \<and> mset (ev_accepted ev @ ev_rejected ev) = {#0#}"
proof -
  let ?e = "sample_envelope ''a'' 1 [1, 2, 3]"
  obtain n where n: "rbind (build_nats_metadata_snapshot plain_lib ?e (Aware 0 0))
      (json_size (l_float_text plain_lib)) = Inr n"
    using sample_sizes by blast
  have hs: "header_sizes (env_headers ?e) 0 0 0 = (0, 0, 0)" "env_mission_metadata ?e = PNone"
    by (simp_all add: sample_envelope_def)
  have "\<exists>vs. size_check plain_lib (\<lambda>i. Aware 0 0) sample_size_config [?e] 0 ?e = Inr vs"
    by (simp add: size_check_def size_violations_for_envelope_def hs n thaw_metadata_def json_size_def)
  then obtain ev where ev: "evaluate_size_policy plain_lib (\<lambda>i. Aware 0 0) sample_size_config [?e] = Inr ev"
    by (auto simp: evaluate_size_policy_def loop_gate_def sample_size_config_def)
  from size_gate_exact [OF ev] have exact: "mset (ev_accepted ev @ ev_rejected ev) = mset [0..<1]
      \<and> (\<forall>i<1. i \<in> set (ev_accepted ev) \<longleftrightarrow> int (length [?e]) \<le> sz_max_batch_messages sample_size_config
          \<and> within_limits plain_lib (Aware 0 0) sample_size_config ([?e] ! i))"
    by (simp add: sample_size_config_def)
  have "\<not> within_limits plain_lib (Aware 0 0) sample_size_config ?e"
    by (simp add: within_limits_def sample_size_config_def sample_envelope_def)
  with exact have "0 \<notin> set (ev_accepted ev)" by simp
  moreover have "i = 0" if "i \<in> set (ev_accepted ev)" for i
    using size_gate.positions [OF ev] that by simp
  ultimately have "ev_accepted ev = []" by (metis list.set_intros(1) neq_Nil_conv)
  with ev exact show ?thesis by simp
qed

end
