(* ===== verification/PreSinkPolicy.thy ===== *)
theory PreSinkPolicy
  imports BatchStages Encryption
begin

text \<open>The pre-sink policy gate (\<open>core/policy.py\<close>) with its rule configuration.\<close>

record policy_rule =
  pr_subject :: string
  pr_require_priority :: bool
  pr_require_classification :: bool
  pr_required_labels :: "string list"
  pr_require_mission_metadata :: bool
  pr_allowed_mission_metadata_keys :: "string list option"
  pr_require_encrypted_payload :: bool
  pr_max_payload_bytes :: "int option"

record policy_config =
  pp_enabled :: bool
  pp_reject_unmatched :: bool
  pp_rules :: "policy_rule list"

record policy_violation =
  pv_index :: nat
  pv_subject :: string
  pv_rule_subject :: string
  pv_reason :: string

definition policy_violation_error :: "policy_violation list \<Rightarrow> exn" where
  "policy_violation_error violations =
     (if violations = [] then Exn PolicyViolationError ''pre-sink policy rejected message''
      else Exn PolicyViolationError
        (''pre-sink policy rejected '' @ render_nat (card (set (map pv_index violations)))
          @ '' message(s); first reason='' @ pv_reason (hd violations)))"

definition policy_violation :: "nat \<Rightarrow> nats_envelope \<Rightarrow> policy_rule \<Rightarrow> string \<Rightarrow> policy_violation" where
  "policy_violation i e rule reason =
     \<lparr>pv_index = i, pv_subject = env_subject e, pv_rule_subject = pr_subject rule, pv_reason = reason\<rparr>"

definition violations_for_rule :: "pylib \<Rightarrow> nat \<Rightarrow> nats_envelope \<Rightarrow> policy_rule \<Rightarrow> policy_violation list res" where
  "violations_for_rule L i e rule =
     rbind (if pr_require_encrypted_payload rule then is_encrypted_payload_envelope L (PBytes (env_data e)) else Inr True)
       (\<lambda>encrypted. Inr
         ((if pr_require_priority rule \<and> env_priority e = None
           then [policy_violation i e rule ''priority_required''] else [])
          @ (if pr_require_classification rule \<and> env_classification e = None
             then [policy_violation i e rule ''classification_required''] else [])
          @ (if pr_required_labels rule \<noteq> [] \<and> \<not> set (pr_required_labels rule) \<subseteq> set (env_labels e)
             then [policy_violation i e rule ''required_label_missing''] else [])
          @ (if pr_require_mission_metadata rule \<and> env_mission_metadata e = PNone
             then [policy_violation i e rule ''mission_metadata_required''] else [])
          @ (if \<not> encrypted then [policy_violation i e rule ''encrypted_payload_required''] else [])
          @ (case pr_max_payload_bytes rule of
               None \<Rightarrow> []
             | Some n \<Rightarrow> if n < int (length (env_data e)) then [policy_violation i e rule ''payload_too_large''] else [])
          @ (case pr_allowed_mission_metadata_keys rule of
               None \<Rightarrow> []
             | Some allowed \<Rightarrow>
                 if env_mission_metadata e \<noteq> PNone
                    \<and> (\<exists>(k, v)\<in>set (mapping_items (env_mission_metadata e)). k \<notin> PStr ` set allowed)
                 then [policy_violation i e rule ''mission_metadata_key_not_allowed''] else [])))"

definition policy_violations_for_envelope ::
  "pylib \<Rightarrow> policy_config \<Rightarrow> nat \<Rightarrow> nats_envelope \<Rightarrow> policy_violation list res" where
  "policy_violations_for_envelope L c i e =
     (let matching = filter (\<lambda>rule. matches_subject (PStr (pr_subject rule)) (PStr (env_subject e))) (pp_rules c) in
      if matching = []
      then Inr (if pp_reject_unmatched c
        then [\<lparr>pv_index = i, pv_subject = env_subject e, pv_rule_subject = ''<unmatched>'',
               pv_reason = ''subject_not_covered_by_policy''\<rparr>]
        else [])
      else rmap concat (rmapM (violations_for_rule L i e) matching))"

definition evaluate_pre_sink_policy ::
  "pylib \<Rightarrow> policy_config \<Rightarrow> nats_envelope list \<Rightarrow> policy_violation evaluation res" where
  "evaluate_pre_sink_policy L c es = loop_gate (pp_enabled c) (\<lambda>es. policy_violations_for_envelope L c) es"

interpretation policy_gate: batch_gate "evaluate_pre_sink_policy L c"
  by unfold_locales (simp add: evaluate_pre_sink_policy_def loop_gate_partition)

section \<open>What the policy promises\<close>

definition rule_satisfied :: "pylib \<Rightarrow> nats_envelope \<Rightarrow> policy_rule \<Rightarrow> bool" where
  "rule_satisfied L e rule \<longleftrightarrow>
     (pr_require_priority rule \<longrightarrow> env_priority e \<noteq> None)
     \<and> (pr_require_classification rule \<longrightarrow> env_classification e \<noteq> None)
     \<and> set (pr_required_labels rule) \<subseteq> set (env_labels e)
     \<and> (pr_require_mission_metadata rule \<longrightarrow> env_mission_metadata e \<noteq> PNone)
     \<and> (pr_require_encrypted_payload rule \<longrightarrow> is_encrypted_payload_envelope L (PBytes (env_data e)) = Inr True)
     \<and> (\<forall>n. pr_max_payload_bytes rule = Some n \<longrightarrow> int (length (env_data e)) \<le> n)
     \<and> (\<forall>allowed k v. pr_allowed_mission_metadata_keys rule = Some allowed
          \<longrightarrow> (k, v) \<in> set (mapping_items (env_mission_metadata e)) \<longrightarrow> k \<in> PStr ` set allowed)"

definition admitted :: "pylib \<Rightarrow> policy_config \<Rightarrow> nats_envelope \<Rightarrow> bool" where
  "admitted L c e \<longleftrightarrow>
     (\<forall>rule\<in>set (pp_rules c). matches_subject (PStr (pr_subject rule)) (PStr (env_subject e)) \<longrightarrow> rule_satisfied L e rule)
     \<and> ((\<exists>rule\<in>set (pp_rules c). matches_subject (PStr (pr_subject rule)) (PStr (env_subject e)))
        \<or> \<not> pp_reject_unmatched c)"

lemma load_encrypted_payload_Inl:
  "load_encrypted_payload L v = Inl e \<Longrightarrow> isinstance e SerializationError"
  by (auto simp: load_encrypted_payload_def raise_def rbind_Inl_iff dest: load_standard_json_Inl
      split: if_splits option.splits sum.splits)

lemma is_encrypted_total: "\<exists>b. is_encrypted_payload_envelope L v = Inr b"
  by (auto simp: is_encrypted_payload_envelope_def dest: load_encrypted_payload_Inl split: sum.splits)

lemma violations_for_rule_total: "\<exists>vs. violations_for_rule L i e rule = Inr vs"
  using is_encrypted_total [of L "PBytes (env_data e)"] by (auto simp: violations_for_rule_def)

lemma violations_for_rule_Nil: "violations_for_rule L i e rule = Inr [] \<longleftrightarrow> rule_satisfied L e rule"
proof -
  obtain b where b: "is_encrypted_payload_envelope L (PBytes (env_data e)) = Inr b"
    using is_encrypted_total by blast
  have keys: "(case pr_allowed_mission_metadata_keys rule of None \<Rightarrow> []
        | Some allowed \<Rightarrow> if env_mission_metadata e \<noteq> PNone
             \<and> (\<exists>(k, v)\<in>set (mapping_items (env_mission_metadata e)). k \<notin> PStr ` set allowed)
           then [policy_violation i e rule ''mission_metadata_key_not_allowed''] else []) = []
      \<longleftrightarrow> (\<forall>allowed k v. pr_allowed_mission_metadata_keys rule = Some allowed
          \<longrightarrow> (k, v) \<in> set (mapping_items (env_mission_metadata e)) \<longrightarrow> k \<in> PStr ` set allowed)"
    by (auto split: option.splits)
  have bytes: "(case pr_max_payload_bytes rule of None \<Rightarrow> []
        | Some n \<Rightarrow> if n < int (length (env_data e)) then [policy_violation i e rule ''payload_too_large''] else []) = []
      \<longleftrightarrow> (\<forall>n. pr_max_payload_bytes rule = Some n \<longrightarrow> int (length (env_data e)) \<le> n)"
    by (auto split: option.splits)
  show ?thesis
    by (cases "pr_require_encrypted_payload rule")
      (auto simp: violations_for_rule_def rule_satisfied_def b keys bytes)
qed

lemma policy_violations_total: "\<exists>vs. policy_violations_for_envelope L c i e = Inr vs"
proof -
  have "\<exists>vss. rmapM (violations_for_rule L i e) rules = Inr vss" for rules
    by (rule rmapM_ex) (rule violations_for_rule_total)
  from this [of "filter (\<lambda>rule. matches_subject (PStr (pr_subject rule)) (PStr (env_subject e))) (pp_rules c)"]
  show ?thesis by (auto simp: policy_violations_for_envelope_def Let_def)
qed

lemma rmapM_concat_Nil:
  "(\<exists>vss. rmapM f xs = Inr vss \<and> concat vss = []) \<longleftrightarrow> (\<forall>x\<in>set xs. f x = Inr [])"
  by (induction xs) (auto simp: rbind_Inr_iff rmap_Inr_iff)

lemma policy_violations_Nil: "policy_violations_for_envelope L c i e = Inr [] \<longleftrightarrow> admitted L c e"
proof -
  let ?matching = "filter (\<lambda>rule. matches_subject (PStr (pr_subject rule)) (PStr (env_subject e))) (pp_rules c)"
  have "rmap concat (rmapM (violations_for_rule L i e) ?matching) = Inr []
      \<longleftrightarrow> (\<exists>vss. rmapM (violations_for_rule L i e) ?matching = Inr vss \<and> concat vss = [])"
    by (auto simp: rmap_Inr_iff)
  also have "\<dots> \<longleftrightarrow> (\<forall>rule\<in>set ?matching. rule_satisfied L e rule)"
    by (simp only: rmapM_concat_Nil violations_for_rule_Nil)
  finally show ?thesis
    by (cases "?matching = []") (auto simp: policy_violations_for_envelope_def admitted_def Let_def filter_empty_conv)
qed


end
