(* ===== verification/Custody.thy ===== *)
theory Custody
  imports Metadata JsonText BatchStages
begin

text \<open>
  Tamper-evident custody metadata (\<open>core/custody.py\<close>): canonical bytes, payload, metadata and
  record hashes, and their attachment to the envelopes of a batch.
\<close>

record custody_config =
  cu_enabled :: bool
  cu_algorithm :: string
  cu_key_id :: pyval
  cu_max_hash_input_bytes :: int
  cu_hash_payload :: bool
  cu_hash_metadata :: bool
  cu_include_previous_hash :: bool
  cu_previous_hash_header :: string

definition CUSTODY_SCHEMA :: string where "CUSTODY_SCHEMA = ''nats_sinks.custody.v1''"
definition MAX_CUSTODY_KEY_ID_LENGTH :: nat where "MAX_CUSTODY_KEY_ID_LENGTH = 128"
definition MAX_PREVIOUS_HASH_LENGTH :: nat where "MAX_PREVIOUS_HASH_LENGTH = 128"

definition validate_custody_algorithm :: "string \<Rightarrow> string res" where
  "validate_custody_algorithm value =
     (let rendered = filter (\<lambda>c. c \<noteq> CHR ''_'') (lower (strip value)) in
      if rendered \<notin> {''sha256'', ''sha512''} then raise ValidationError ''custody.algorithm must be one of: sha256, sha512''
      else Inr rendered)"

definition validate_custody_key_id :: "render \<Rightarrow> pyval \<Rightarrow> string option res" where
  "validate_custody_key_id st value =
     (if value = PNone then Inr None
      else (case py_str st value of
          None \<Rightarrow> raise ValidationError ''custody.key_id must be renderable text''
        | Some text \<Rightarrow>
            (let rendered = strip text in
             if rendered = [] then Inr None
             else if MAX_CUSTODY_KEY_ID_LENGTH < length rendered
               then raise ValidationError ''custody.key_id must not exceed 128 characters''
             else if has_control_char rendered
               then raise ValidationError ''custody.key_id must not contain control characters''
             else Inr (Some rendered))))"

definition canonical_bytes :: "float_text \<Rightarrow> int \<Rightarrow> pyval \<Rightarrow> bytes res" where
  "canonical_bytes ft max_bytes value =
     (case json_dumps ft value of
        Inl e \<Rightarrow>
          if isinstance e TypeError \<or> isinstance e ValueError
          then raise ValidationError ''source is not canonical JSON serializable'' else Inl e
      | Inr rendered \<Rightarrow>
          (let data = utf8_encode rendered in
           if max_bytes < int (length data)
           then raise ValidationError ''source exceeds custody max_hash_input_bytes'' else Inr data))"

definition dict_pop :: "string \<Rightarrow> (pyval \<times> pyval) list \<Rightarrow> (pyval \<times> pyval) list" where
  "dict_pop k kvs = filter (\<lambda>(k', v). k' \<noteq> PStr k) kvs"

definition stable_metadata_for_hashing :: "pylib \<Rightarrow> nats_envelope \<Rightarrow> pyval res" where
  "stable_metadata_for_hashing L e =
     rmap (\<lambda>metadata.
         let kvs = mapping_items metadata;
             timestamps = py_get metadata ''timestamps'';
             kvs' = (case timestamps of
                 PDict ts \<Rightarrow> AList.update (PStr ''timestamps'')
                   (PDict (dict_pop ''stored_at_epoch_ns'' (dict_pop ''stored_at'' ts))) kvs
               | _ \<Rightarrow> kvs)
         in PDict (dict_pop ''custody'' kvs'))
       (build_nats_metadata_snapshot L e (env_received_at e))"

definition is_hex :: "char \<Rightarrow> bool" where
  "is_hex c = (let n = of_char c :: nat in
     (48 \<le> n \<and> n \<le> 57) \<or> (65 \<le> n \<and> n \<le> 70) \<or> (97 \<le> n \<and> n \<le> 102))"

definition previous_hash_re_matches :: "string \<Rightarrow> bool" where
  "previous_hash_re_matches s \<longleftrightarrow> (length s = 64 \<or> length s = 128) \<and> list_all is_hex s"

definition previous_record_hash :: "nats_envelope \<Rightarrow> bool \<Rightarrow> string \<Rightarrow> string option res" where
  "previous_record_hash e enabled header =
     (if \<not> enabled then Inr None
      else (case case_insensitive_lookup (env_headers e) header of
          None \<Rightarrow> Inr None
        | Some item \<Rightarrow>
            (let value = strip item in
             if value = [] then Inr None
             else if MAX_PREVIOUS_HASH_LENGTH < length value \<or> \<not> previous_hash_re_matches value
             then raise ValidationError ''custody previous_record_hash must be a hexadecimal digest''
             else Inr (Some (lower value)))))"

definition optional_hash :: "pylib \<Rightarrow> string \<Rightarrow> int \<Rightarrow> bool \<Rightarrow> pyval \<Rightarrow> string option res" where
  "optional_hash L algorithm max_bytes wanted value =
     (if wanted then rmap (\<lambda>data. Some (l_digest L algorithm data)) (canonical_bytes (l_float_text L) max_bytes value)
      else Inr None)"

definition record_material ::
  "nats_envelope \<Rightarrow> string \<Rightarrow> string option \<Rightarrow> string option \<Rightarrow> string option \<Rightarrow> string option \<Rightarrow> pyval" where
  "record_material e algorithm key_id payload_hash metadata_hash previous_hash =
     PDict [K ''schema'' (PStr CUSTODY_SCHEMA),
       K ''schema_version'' (PInt 1),
       K ''algorithm'' (PStr algorithm),
       K ''key_id'' (opt_str key_id),
       K ''payload_hash'' (opt_str payload_hash),
       K ''metadata_hash'' (opt_str metadata_hash),
       K ''previous_record_hash'' (opt_str previous_hash),
       K ''subject'' (PStr (env_subject e)),
       K ''stream'' (opt_str (env_stream e)),
       K ''stream_sequence'' (opt_int (env_stream_sequence e)),
       K ''message_id'' (opt_str (env_message_id e))]"

definition compute_custody_metadata :: "pylib \<Rightarrow> custody_config \<Rightarrow> nats_envelope \<Rightarrow> pyval res" where
  "compute_custody_metadata L config e =
     rbind (validate_custody_algorithm (cu_algorithm config)) (\<lambda>algorithm.
     rbind (validate_custody_key_id (l_str L) (cu_key_id config)) (\<lambda>key_id.
     rbind (payload_for_json_storage L e Json_or_envelope) (\<lambda>payload.
     rbind (optional_hash L algorithm (cu_max_hash_input_bytes config) (cu_hash_payload config) (np_value payload))
       (\<lambda>payload_hash.
     rbind (stable_metadata_for_hashing L e) (\<lambda>metadata.
     rbind (optional_hash L algorithm (cu_max_hash_input_bytes config) (cu_hash_metadata config) metadata)
       (\<lambda>metadata_hash.
     rbind (previous_record_hash e (cu_include_previous_hash config) (cu_previous_hash_header config)) (\<lambda>previous.
     rmap (\<lambda>data. PDict
         [K ''schema'' (PStr CUSTODY_SCHEMA),
          K ''schema_version'' (PInt 1),
          K ''algorithm'' (PStr algorithm),
          K ''hash_input_format'' (PStr ''canonical-json''),
          K ''key_id'' (opt_str key_id),
          K ''payload_hash'' (opt_str payload_hash),
          K ''metadata_hash'' (opt_str metadata_hash),
          K ''record_hash'' (PStr (l_digest L algorithm data)),
          K ''previous_record_hash'' (opt_str previous),
          K ''hash_payload'' (PBool (cu_hash_payload config)),
          K ''hash_metadata'' (PBool (cu_hash_metadata config)),
          K ''privacy'' (PStr ''hashes_are_not_encryption'')])
       (canonical_bytes (l_float_text L) (cu_max_hash_input_bytes config)
         (record_material e algorithm key_id payload_hash metadata_hash previous)))))))))"

definition attach_custody :: "pylib \<Rightarrow> custody_config \<Rightarrow> nats_envelope \<Rightarrow> nats_envelope res" where
  "attach_custody L config e =
     rbind (compute_custody_metadata L config e) (\<lambda>c. replace_envelope (l_str L) (e\<lparr>env_custody := c\<rparr>))"

definition attach_custody_metadata ::
  "pylib \<Rightarrow> custody_config \<Rightarrow> nats_envelope list \<Rightarrow> nats_envelope list res" where
  "attach_custody_metadata L config envelopes =
     (if \<not> cu_enabled config then Inr envelopes else rmapM (attach_custody L config) envelopes)"

section \<open>The record hash binds the evidence\<close>

definition material_members ::
  "nats_envelope \<Rightarrow> string \<Rightarrow> string option \<Rightarrow> string option \<Rightarrow> string option \<Rightarrow> string option
   \<Rightarrow> (string \<times> pyval) list" where
  "material_members e algorithm key_id payload_hash metadata_hash previous =
     [(''algorithm'', PStr algorithm), (''key_id'', opt_str key_id),
      (''message_id'', opt_str (env_message_id e)), (''metadata_hash'', opt_str metadata_hash),
      (''payload_hash'', opt_str payload_hash), (''previous_record_hash'', opt_str previous),
      (''schema'', PStr CUSTODY_SCHEMA), (''schema_version'', PInt 1),
      (''stream'', opt_str (env_stream e)), (''stream_sequence'', opt_int (env_stream_sequence e)),
      (''subject'', PStr (env_subject e))]"

lemma scalar_opts [simp]: "scalar (opt_str x)" "scalar (opt_int i)" "scalar (opt_bool b)"
  by (auto simp: opt_str_def opt_int_def opt_bool_def split: option.splits)

lemma json_render_opts [simp]:
  "json_render json_string ft (opt_str x) = Inr (scalar_text (opt_str x))"
  "json_render json_string ft (opt_int i) = Inr (scalar_text (opt_int i))"
  by (simp_all add: json_render_scalar)

lemma sort_material:
  "sort_key fst
     [(''schema'', t1), (''schema_version'', t2), (''algorithm'', t3), (''key_id'', t4), (''payload_hash'', t5),
      (''metadata_hash'', t6), (''previous_record_hash'', t7), (''subject'', t8), (''stream'', t9),
      (''stream_sequence'', t10), (''message_id'', t11)]
   = [(''algorithm'', t3), (''key_id'', t4), (''message_id'', t11), (''metadata_hash'', t6),
      (''payload_hash'', t5), (''previous_record_hash'', t7), (''schema'', t1), (''schema_version'', t2),
      (''stream'', t9), (''stream_sequence'', t10), (''subject'', t8 :: string)]"
  by code_simp

lemma record_material_text:
  "json_dumps ft (record_material e algorithm key_id ph mh prev) =
     Inr (''{'' @ join_with '','' (map (\<lambda>(k, v). member_text (k, scalar_text v))
       (material_members e algorithm key_id ph mh prev)) @ ''}'')"
  unfolding json_dumps_def record_material_def
  by (simp add: text_key_def sort_material material_members_def member_text_def json_render_scalar scalar_text_def)

lemma canonical_bytes_Inr:
  "canonical_bytes ft n v = Inr data \<Longrightarrow> \<exists>text. json_dumps ft v = Inr text \<and> data = utf8_encode text"
  by (auto simp: canonical_bytes_def Let_def raise_def split: sum.splits if_splits)

lemma canonical_bytes_inject:
  assumes "canonical_bytes ft n v = Inr data" "canonical_bytes ft m w = Inr data"
  shows "json_dumps ft v = json_dumps ft w"
  using canonical_bytes_Inr [OF assms(1)] canonical_bytes_Inr [OF assms(2)] by auto

lemma record_material_inject:
  assumes "json_dumps ft (record_material e a k p m r) = json_dumps ft (record_material e' a' k' p' m' r')"
  shows "a = a' \<and> k = k' \<and> p = p' \<and> m = m' \<and> r = r' \<and> env_subject e = env_subject e'
    \<and> env_stream e = env_stream e' \<and> env_stream_sequence e = env_stream_sequence e'
    \<and> env_message_id e = env_message_id e'"
proof -
  have "material_members e a k p m r = material_members e' a' k' p' m' r'"
  proof (rule members_inject)
    show "join_with '','' (map (\<lambda>(k, v). member_text (k, scalar_text v)) (material_members e a k p m r)) @ ''}''
        = join_with '','' (map (\<lambda>(k, v). member_text (k, scalar_text v)) (material_members e' a' k' p' m' r')) @ ''}''"
      using assms by (simp only: record_material_text sum.inject same_append_eq)
  qed (simp_all add: material_members_def)
  then show ?thesis by (simp add: material_members_def)
qed

lemma compute_custody_Inr:
  assumes "compute_custody_metadata L config e = Inr c"
  obtains algorithm key_id payload payload_hash metadata metadata_hash previous data where
    "payload_for_json_storage L e Json_or_envelope = Inr payload"
    "optional_hash L algorithm (cu_max_hash_input_bytes config) (cu_hash_payload config) (np_value payload)
      = Inr payload_hash"
    "stable_metadata_for_hashing L e = Inr metadata"
    "optional_hash L algorithm (cu_max_hash_input_bytes config) (cu_hash_metadata config) metadata
      = Inr metadata_hash"
    "canonical_bytes (l_float_text L) (cu_max_hash_input_bytes config)
       (record_material e algorithm key_id payload_hash metadata_hash previous) = Inr data"
    "py_get c ''algorithm'' = PStr algorithm" "py_get c ''key_id'' = opt_str key_id"
    "py_get c ''payload_hash'' = opt_str payload_hash" "py_get c ''metadata_hash'' = opt_str metadata_hash"
    "py_get c ''previous_record_hash'' = opt_str previous"
    "py_get c ''record_hash'' = PStr (l_digest L algorithm data)"
proof -
  from assms obtain algorithm key_id payload payload_hash metadata metadata_hash previous data where
    facts: "payload_for_json_storage L e Json_or_envelope = Inr payload"
    "optional_hash L algorithm (cu_max_hash_input_bytes config) (cu_hash_payload config) (np_value payload)
      = Inr payload_hash"
    "stable_metadata_for_hashing L e = Inr metadata"
    "optional_hash L algorithm (cu_max_hash_input_bytes config) (cu_hash_metadata config) metadata
      = Inr metadata_hash"
    "canonical_bytes (l_float_text L) (cu_max_hash_input_bytes config)
       (record_material e algorithm key_id payload_hash metadata_hash previous) = Inr data"
    and c: "c = PDict
         [K ''schema'' (PStr CUSTODY_SCHEMA), K ''schema_version'' (PInt 1), K ''algorithm'' (PStr algorithm),
          K ''hash_input_format'' (PStr ''canonical-json''), K ''key_id'' (opt_str key_id),
          K ''payload_hash'' (opt_str payload_hash), K ''metadata_hash'' (opt_str metadata_hash),
          K ''record_hash'' (PStr (l_digest L algorithm data)), K ''previous_record_hash'' (opt_str previous),
          K ''hash_payload'' (PBool (cu_hash_payload config)), K ''hash_metadata'' (PBool (cu_hash_metadata config)),
          K ''privacy'' (PStr ''hashes_are_not_encryption'')]"
    unfolding compute_custody_metadata_def by (auto simp: rmap_Inr_iff elim!: rbindE)
  show thesis by (rule that [OF facts]) (simp_all add: c py_get_def)
qed

lemma optional_hash_inject:
  assumes "inj (l_digest L a)" "optional_hash L a n True v = Inr h" "optional_hash L a m True w = Inr h"
  shows "json_dumps (l_float_text L) v = json_dumps (l_float_text L) w"
proof -
  obtain d where d: "canonical_bytes (l_float_text L) n v = Inr d" "h = Some (l_digest L a d)"
    using assms(2) by (auto simp: optional_hash_def rmap_Inr_iff)
  obtain d' where d': "canonical_bytes (l_float_text L) m w = Inr d'" "h = Some (l_digest L a d')"
    using assms(3) by (auto simp: optional_hash_def rmap_Inr_iff)
  from assms(1) d(2) d'(2) have "d = d'" by (auto dest: injD)
  with d(1) d'(1) show ?thesis by (auto intro: canonical_bytes_inject)
qed


definition sample_custody :: custody_config where
  "sample_custody = \<lparr>cu_enabled = True, cu_algorithm = ''SHA_256'', cu_key_id = PStr ''k1'',
     cu_max_hash_input_bytes = 100000, cu_hash_payload = False, cu_hash_metadata = False,
     cu_include_previous_hash = False, cu_previous_hash_header = ''X-Prev''\<rparr>"

definition custody_sample :: "int option \<Rightarrow> nats_envelope" where
  "custody_sample p = sample_envelope ''a'' 1 []\<lparr>env_pending := p, env_original_payload_size_bytes := Some 0\<rparr>"

definition spelled_lib :: pylib where
  "spelled_lib = plain_lib\<lparr>l_digest := (\<lambda>_ bs. map (\<lambda>b. char_of (unat b)) bs)\<rparr>"

lemma inj_char_of_byte: "inj (\<lambda>b :: byte. char_of (unat b))"
proof (rule inj_on_inverseI)
  fix b :: byte
  have "unat b < 256" using unsigned_less [of b] by simp
  then show "of_nat (of_char (char_of (unat b)) :: nat) = b" by simp
qed

lemma inj_spelled: "inj (l_digest spelled_lib a)"
  using inj_mapI [OF inj_char_of_byte] by (simp add: spelled_lib_def)

lemma sample_stable:
  "\<exists>m. stable_metadata_for_hashing spelled_lib (custody_sample p) = Inr m"
  by (simp add: stable_metadata_for_hashing_def build_nats_metadata_snapshot_def
      resolve_message_created_timestamp_def datetime_to_epoch_ns_def in_utc_def datetime_min_us_def
      datetime_max_us_def custody_sample_def sample_envelope_def thaw_metadata_def rmap_Inr_iff Let_def)

lemma sample_canonical:
  "\<exists>d. canonical_bytes ft 100000
      (record_material (custody_sample p) ''sha256'' (Some ''k1'') None None None) = Inr d"
  unfolding canonical_bytes_def record_material_text length_utf8_encode
  by (simp add: material_members_def member_text_def scalar_text_def json_string_def escape_char_def utf8_len_def
      custody_sample_def sample_envelope_def opt_str_def opt_int_def CUSTODY_SCHEMA_def render_int_def render_nat.simps digit_char_def
      length_utf8_encode)

lemma sample_custody_computed:
  "\<exists>c d. compute_custody_metadata spelled_lib sample_custody (custody_sample p) = Inr c
     \<and> canonical_bytes (l_float_text spelled_lib) 100000
         (record_material (sample_envelope ''a'' 1 []) ''sha256'' (Some ''k1'') None None None) = Inr d
     \<and> py_get c ''algorithm'' = PStr ''sha256'' \<and> py_get c ''record_hash'' = PStr (l_digest spelled_lib ''sha256'' d)"
proof -
  have a: "validate_custody_algorithm (cu_algorithm sample_custody) = Inr ''sha256''"
    "validate_custody_key_id (l_str spelled_lib) (cu_key_id sample_custody) = Inr (Some ''k1'')"
    by code_simp+
  have p: "\<exists>q. payload_for_json_storage spelled_lib (custody_sample p) Json_or_envelope = Inr q"
    by (simp add: payload_for_json_storage_def normalize_payload_for_json_storage_def spelled_lib_def plain_lib_def
        custody_sample_def sample_envelope_def load_standard_json_def raise_def text_payload_def Let_def)
  have m: "record_material (custody_sample p) a k x y z
      = record_material (sample_envelope ''a'' 1 []) a k x y z" for a k x y z
    by (simp add: record_material_def custody_sample_def)
  obtain s where s: "stable_metadata_for_hashing spelled_lib (custody_sample p) = Inr s"
    using sample_stable by blast
  obtain d where d: "canonical_bytes (l_float_text spelled_lib) 100000
      (record_material (sample_envelope ''a'' 1 []) ''sha256'' (Some ''k1'') None None None) = Inr d"
    using sample_canonical [of _ p] by (auto simp: m)
  from p a s d show ?thesis
    by (auto simp: compute_custody_metadata_def optional_hash_def previous_record_hash_def m py_get_def
        sample_custody_def)
qed


text \<open>Attaching custody evidence changes nothing else.  The batch keeps its length and order, and
  every envelope is the one before with only its custody field replaced, by the frozen evidence
  computed for exactly that envelope when custody is enabled.\<close>

theorem custody_attach_only_custody:
  assumes "attach_custody_metadata L config es = Inr es'" "\<forall>e\<in>set es. normal_envelope (l_str L) e"
  shows "list_all2 (\<lambda>e e'. \<exists>c. e' = e\<lparr>env_custody := c\<rparr> \<and>
      (if cu_enabled config
       then \<exists>m. compute_custody_metadata L config e = Inr m \<and> freeze_metadata (l_str L) m = Inr c
       else c = env_custody e)) es es'"
proof (cases "cu_enabled config")
  case False
  then have "es' = es" using assms(1) by (simp add: attach_custody_metadata_def)
  with False show ?thesis by (auto intro!: list.rel_refl_strong)
next
  case True
  with assms(1) have "list_all2 (\<lambda>e e'. attach_custody L config e = Inr e') es es'"
    by (simp add: attach_custody_metadata_def rmapM_Inr_iff)
  then show ?thesis
  proof (rule list.rel_mono_strong)
    fix e e' assume e: "e \<in> set es" "attach_custody L config e = Inr e'"
    with replace_custody assms(2) True show "\<exists>c. e' = e\<lparr>env_custody := c\<rparr> \<and>
        (if cu_enabled config
         then \<exists>m. compute_custody_metadata L config e = Inr m \<and> freeze_metadata (l_str L) m = Inr c
         else c = env_custody e)"
      by (auto simp: attach_custody_def rmap_Inr_iff elim!: rbindE)
  qed
qed

lemma attach_custody_delivery:
  "attach_custody_metadata L config es = Inr es' \<Longrightarrow> map delivery es' = map delivery es"
  by (auto simp: attach_custody_metadata_def rmapM_Inr_iff attach_custody_def list_all2_conv_all_nth delivery_def
      intro!: nth_equalityI dest!: replace_delivery elim!: rbindE split: if_splits)

lemma freeze_opt_str [simp]: "freeze_json_value st (opt_str x) = Inr (opt_str x)"
  by (cases x) (simp_all add: opt_str_def)

lemma compute_custody_frozen:
  assumes "compute_custody_metadata L config e = Inr m"
  shows "\<exists>c. freeze_metadata st m = Inr c \<and> c \<noteq> PNone"
  using assms unfolding compute_custody_metadata_def
  by (auto simp: rmap_Inr_iff freeze_metadata_def elim!: rbindE)

lemma custody_sample_normal: "normal_envelope (l_str spelled_lib) (custody_sample p)"
  by (simp add: normal_envelope_def replace_envelope_def post_init_def header_items_def normalise_headers_def
      payload_presence_def parse_nats_msg_size_def presence_fields_def custody_sample_def sample_envelope_def
      resolved_message_id_def freeze_metadata_def opt_str_def normalise_labels_value_def Let_def)

lemma sample_attached: "\<exists>e'. attach_custody spelled_lib sample_custody (custody_sample None) = Inr e'"
proof -
  obtain m where m: "compute_custody_metadata spelled_lib sample_custody (custody_sample None) = Inr m"
    using sample_custody_computed [of None] by (elim exE conjE)
  obtain c where "freeze_metadata (l_str spelled_lib) m = Inr c"
    using compute_custody_frozen [OF m, of "l_str spelled_lib"] by (elim exE conjE)
  then have "attach_custody spelled_lib sample_custody (custody_sample None) = Inr ((custody_sample None)\<lparr>env_custody := c\<rparr>)"
    by (simp only: attach_custody_def m rbind_simps replace_custody [OF custody_sample_normal] rmap_simps)
  then show ?thesis by (rule exI)
qed

lemma custody_attach_only_custody_witness:
  "\<exists>e' c m. attach_custody_metadata spelled_lib sample_custody [custody_sample None] = Inr [e']
    \<and> e' = (custody_sample None)\<lparr>env_custody := c\<rparr>
    \<and> compute_custody_metadata spelled_lib sample_custody (custody_sample None) = Inr m
    \<and> freeze_metadata (l_str spelled_lib) m = Inr c"
proof -
  obtain e' where e': "attach_custody spelled_lib sample_custody (custody_sample None) = Inr e'"
    using sample_attached by (elim exE)
  have on: "cu_enabled sample_custody" by (simp add: sample_custody_def)
  have a: "attach_custody_metadata spelled_lib sample_custody [custody_sample None] = Inr [e']"
    by (simp only: attach_custody_metadata_def on e' rmapM.simps rbind_simps rmap_simps not_True_eq_False if_False)
  have "\<forall>e\<in>set [custody_sample None]. normal_envelope (l_str spelled_lib) e"
    using custody_sample_normal by simp
  from custody_attach_only_custody [OF a this] on a show ?thesis
    unfolding list_all2_Cons by (simp only: if_True) blast
qed

interpretation custody: batch_transformer "attach_custody_metadata L config"
  by unfold_locales (rule attach_custody_delivery)

end
