(* ===== verification/Runner.thy ===== *)
theory Runner
  imports Settlement Authenticity Encryption SizePolicy PreSinkPolicy Custody Consumer
begin

text \<open>
  The delivery pipeline (\<open>JetStreamSinkRunner.process_raw_batch\<close> in \<open>core/runner.py\<close>): mapping,
  authenticity, encryption, size policy, pre-sink policy, custody, priority lanes, sink write, and
  acknowledgement last.
\<close>

section \<open>The runner\<close>

record runner =
  rn_delivery :: delivery_config
  rn_dead_letter :: dead_letter_config
  rn_message_metadata :: metadata_config
  rn_mission :: mission_config
  rn_labels :: label_config
  rn_authenticator :: "(authenticity_config \<times> prepared_rule list) option"
  rn_transformer :: "payload_transformer option"
  rn_size :: size_config
  rn_policy :: policy_config
  rn_custody :: custody_config
  rn_jetstream :: bool
  rn_freshness_enabled :: bool
  rn_stale_after :: "rat option"
  rn_skew_tolerance :: rat

definition default_mission_config :: mission_config where
  "default_mission_config =
     \<lparr>mm_enabled = False, mm_header = ''Nats-Sinks-Mission-Metadata'', mm_default = PNone, mm_rules = [],
      mm_max_bytes = 8192, mm_allowed_profiles = []\<rparr>"

definition default_label_config :: label_config where
  "default_label_config =
     \<lparr>slc_enabled = False, slc_header = ''Nats-Sinks-Security-Labels'', slc_default = PNone, slc_rules = [],
      slc_limits = \<lparr>sl_max_bytes = 8192, sl_priorities = [], sl_classifications = [], sl_releasability = [],
        sl_handling_caveats = [], sl_retention_categories = []\<rparr>\<rparr>"

text \<open>
  A batch on its way through the pipeline: the client messages and their envelopes.  A stage returns
  \<open>None\<close> where the code returns early.
\<close>

type_synonym batch = "pyval list \<times> nats_envelope list"

section \<open>Mapping\<close>

definition map_messages ::
  "pylib \<Rightarrow> env \<Rightarrow> metadata_config \<Rightarrow> mission_config \<Rightarrow> label_config \<Rightarrow> pyval list \<Rightarrow> nats_envelope list act" where
  "map_messages L E mc mission labels raws =
     read_env (en_now E) (\<lambda>now. lift_res
       (rmapM (\<lambda>(i, raw). envelope_from_nats_message L (now i) mc mission labels raw) (enumerate 0 raws)))"

definition temporary_stage_failure :: "pylib \<Rightarrow> env \<Rightarrow> runner \<Rightarrow> pyval list \<Rightarrow> string \<Rightarrow> batch option act" where
  "temporary_stage_failure L E r raws error_metric =
     then_act (handle_temporary_failure L E (rn_delivery r) raws (Some error_metric)) (ret None)"

definition mapping_stage :: "pylib \<Rightarrow> env \<Rightarrow> runner \<Rightarrow> pyval list \<Rightarrow> batch option act" where
  "mapping_stage L E r raws =
     catch
       (bind_act (map_messages L E (rn_message_metadata r) (rn_mission r) (rn_labels r) raws) (\<lambda>es.
          then_act (observe_elapsed E ''message_mapping_seconds'') (ret (Some (raws, es)))))
       (\<lambda>err.
          if isinstance err PermanentSinkError
          then then_act (observe_elapsed E ''message_mapping_seconds'')
            (bind_act
              (attempt_act (map_messages L E (rn_message_metadata r) default_mission_config default_label_config raws))
              (\<lambda>fallback. case fallback of
                 Inl fallback_err \<Rightarrow>
                   if isinstance fallback_err PyException
                   then temporary_stage_failure L E r raws ''message_normalization_errors_total''
                   else throw fallback_err
               | Inr es \<Rightarrow>
                   then_act (handle_permanent_failure L E (rn_jetstream r) (rn_delivery r) (rn_dead_letter r) raws es err)
                     (ret None)))
          else if isinstance err PyException
          then then_act (observe_elapsed E ''message_mapping_seconds'')
            (temporary_stage_failure L E r raws ''message_normalization_errors_total'')
          else throw err)"

section \<open>Gates and transformers\<close>

text \<open>A stage whose permanent errors reject the batch and whose other errors are temporary failures.\<close>

definition guarded_stage :: "pylib \<Rightarrow> env \<Rightarrow> runner \<Rightarrow> batch \<Rightarrow> string \<Rightarrow> 'a res \<Rightarrow> ('a \<Rightarrow> batch option act) \<Rightarrow> batch option act" where
  "guarded_stage L E r b error_metric computed continue =
     (case (b, computed) of
        (_, Inr x) \<Rightarrow> continue x
      | ((raws, es), Inl err) \<Rightarrow>
          if isinstance err PermanentSinkError
          then then_act (handle_policy_rejections L E (rn_jetstream r) (rn_delivery r) (rn_dead_letter r) raws es err) (ret None)
          else if isinstance err PyException then temporary_stage_failure L E r raws error_metric
          else throw err)"

definition gate_metrics :: "env \<Rightarrow> string \<Rightarrow> 'v evaluation \<Rightarrow> unit act" where
  "gate_metrics E prefix ev =
     then_act
       (if ev_accepted ev \<noteq> []
        then then_act (increment_metric E (prefix @ ''_messages_passed_total'') (length (ev_accepted ev)))
               (increment_metric E (prefix @ ''_batches_passed_total'') 1)
        else ret ())
       (if ev_rejected ev \<noteq> []
        then then_act (increment_metric E (prefix @ ''_messages_rejected_total'') (length (ev_rejected ev)))
               (increment_metric E (prefix @ ''_batches_rejected_total'') 1)
        else ret ())"

definition apply_rejections :: "pylib \<Rightarrow> env \<Rightarrow> runner \<Rightarrow> batch \<Rightarrow> 'v evaluation \<Rightarrow> exn \<Rightarrow> batch option act" where
  "apply_rejections L E r b ev err =
     (case b of (raws, es) \<Rightarrow>
        if \<not> has_rejections ev then ret (Some (raws, es))
        else then_act
          (handle_policy_rejections L E (rn_jetstream r) (rn_delivery r) (rn_dead_letter r)
             (pick raws (ev_rejected ev)) (pick es (ev_rejected ev)) err)
          (if pick raws (ev_accepted ev) = [] then ret None
           else ret (Some (pick raws (ev_accepted ev), pick es (ev_accepted ev)))))"

definition authenticity_stage :: "pylib \<Rightarrow> env \<Rightarrow> runner \<Rightarrow> batch \<Rightarrow> batch option act" where
  "authenticity_stage L E r b =
     (case rn_authenticator r of
        None \<Rightarrow> ret (Some b)
      | Some (c, rules) \<Rightarrow>
          guarded_stage L E r b ''message_authenticity_evaluation_errors_total'' (evaluate_authenticity L c rules (snd b))
            (\<lambda>ev. then_act (gate_metrics E ''message_authenticity'' ev)
               (apply_rejections L E r b ev (message_authenticity_violation_error (ev_violations ev)))))"

definition encryption_stage :: "pylib \<Rightarrow> env \<Rightarrow> runner \<Rightarrow> batch \<Rightarrow> batch option act" where
  "encryption_stage L E r b =
     (case rn_transformer r of
        None \<Rightarrow> ret (Some b)
      | Some tr \<Rightarrow>
          read_env (en_nonce E) (\<lambda>nonces.
            case encrypt_batch L nonces tr (snd b) of
              Inr es \<Rightarrow> ret (Some (fst b, es))
            | Inl err \<Rightarrow>
                if isinstance err PyException
                then temporary_stage_failure L E r (fst b) ''payload_encryption_errors_total''
                else throw err))"

definition size_stage :: "pylib \<Rightarrow> env \<Rightarrow> runner \<Rightarrow> batch \<Rightarrow> batch option act" where
  "size_stage L E r b =
     read_env (en_now E) (\<lambda>now.
       guarded_stage L E r b ''size_policy_evaluation_errors_total'' (evaluate_size_policy L now (rn_size r) (snd b))
         (\<lambda>ev. then_act (if sz_enabled (rn_size r) then gate_metrics E ''size_policy'' ev else ret ())
            (apply_rejections L E r b ev (size_policy_violation_error (ev_violations ev)))))"

definition policy_stage :: "pylib \<Rightarrow> env \<Rightarrow> runner \<Rightarrow> batch \<Rightarrow> batch option act" where
  "policy_stage L E r b =
     guarded_stage L E r b ''policy_evaluation_errors_total'' (evaluate_pre_sink_policy L (rn_policy r) (snd b))
       (\<lambda>ev. then_act (if pp_enabled (rn_policy r) then gate_metrics E ''policy'' ev else ret ())
          (apply_rejections L E r b ev (policy_violation_error (ev_violations ev))))"

definition custody_stage :: "pylib \<Rightarrow> env \<Rightarrow> runner \<Rightarrow> batch \<Rightarrow> batch option act" where
  "custody_stage L E r b =
     guarded_stage L E r b ''message_normalization_errors_total'' (attach_custody_metadata L (rn_custody r) (snd b))
       (\<lambda>es. ret (Some (fst b, es)))"

definition lane_stage :: "pylib \<Rightarrow> env \<Rightarrow> runner \<Rightarrow> batch \<Rightarrow> batch option act" where
  "lane_stage L E r b =
     catch (bind_act (priority_stage (Some E) (l_str L) (dl_lanes (rn_delivery r)) (snd b)) (\<lambda>es. ret (Some (fst b, es))))
       (\<lambda>err. if isinstance err PermanentSinkError
         then then_act (handle_permanent_failure L E (rn_jetstream r) (rn_delivery r) (rn_dead_letter r) (fst b) (snd b) err)
           (ret None)
         else throw err)"

section \<open>Delivery\<close>

definition settle_success :: "pylib \<Rightarrow> env \<Rightarrow> runner \<Rightarrow> batch \<Rightarrow> unit act" where
  "settle_success L E r b =
     (case b of (raws, es) \<Rightarrow>
       read_env (\<lambda>t. en_now E t 0) (\<lambda>stored_at.
         then_act (observe_elapsed E ''sink_batch_write_seconds'')
         (then_act (increment_metric E ''sink_batches_written_total'' 1)
         (then_act (increment_metric E ''messages_written_total'' (length es))
         (then_act (record_event_freshness_metrics L E es stored_at (rn_freshness_enabled r) (rn_stale_after r) (rn_skew_tolerance r))
         (then_act (ack_all L E (dl_ack (rn_delivery r)) raws)
         (then_act (observe_elapsed E ''message_ack_seconds'')
         (then_act (increment_metric E ''messages_acked_total'' (length raws))
           (read_env (en_elapsed E) (set_metric_value E ''last_sink_success_epoch_seconds''))))))))))"

definition delivery_stage :: "pylib \<Rightarrow> env \<Rightarrow> runner \<Rightarrow> batch \<Rightarrow> unit act" where
  "delivery_stage L E r b =
     (case b of (raws, es) \<Rightarrow>
       then_act (increment_metric E ''messages_prepared_total'' (length es))
       (then_act (set_metric_value E ''current_batch_messages'' (of_nat (length es)))
       (bind_act (write_with_heartbeat L E (dl_in_progress (rn_delivery r)) raws es) (\<lambda>sink_error.
         case sink_error of
           None \<Rightarrow> settle_success L E r (raws, es)
         | Some err \<Rightarrow>
             if isinstance err PermanentSinkError
             then handle_permanent_failure L E (rn_jetstream r) (rn_delivery r) (rn_dead_letter r) raws es err
             else handle_temporary_failure L E (rn_delivery r) raws (Some ''sink_write_errors_total'')))))"

definition next_stage :: "(batch \<Rightarrow> batch option act) \<Rightarrow> batch option act \<Rightarrow> batch option act" where
  "next_stage stage m = bind_act m (\<lambda>b. case b of None \<Rightarrow> ret None | Some b \<Rightarrow> stage b)"

definition prepare_batch :: "pylib \<Rightarrow> env \<Rightarrow> runner \<Rightarrow> pyval list \<Rightarrow> batch option act" where
  "prepare_batch L E r raws =
     next_stage (lane_stage L E r) (next_stage (custody_stage L E r) (next_stage (policy_stage L E r)
       (next_stage (size_stage L E r) (next_stage (encryption_stage L E r) (next_stage (authenticity_stage L E r)
         (mapping_stage L E r raws))))))"

definition process_raw_batch :: "pylib \<Rightarrow> env \<Rightarrow> runner \<Rightarrow> pyval list \<Rightarrow> unit act" where
  "process_raw_batch L E r raws =
     (if raws = [] then ret ()
      else then_act (increment_metric E ''messages_fetched_total'' (length raws))
        (then_act (increment_metric E ''batches_fetched_total'' 1)
          (bind_act (prepare_batch L E r raws) (\<lambda>b.
            case b of None \<Rightarrow> ret () | Some b \<Rightarrow> delivery_stage L E r b))))"

end
