(* ===== verification/CommitThenAck.thy ===== *)
theory CommitThenAck
  imports Runner
begin

text \<open>
  The central invariant of the runner: a client message is acknowledged only after a sink write that
  contained it has returned, or after its dead letter has been published; it is terminated only
  after its dead letter has been published.  The invariant is a predicate on traces; it holds for
  every environment, so whatever the client, the sink, the metrics recorder and the clocks do.
\<close>

section \<open>Traces that respect the invariant\<close>

definition committed :: "trace \<Rightarrow> delivery \<Rightarrow> bool" where
  "committed t d \<longleftrightarrow> (\<exists>es. Sink_write es None \<in> set t \<and> d \<in> delivery ` set es)"

definition dead_lettered :: "pylib \<Rightarrow> dead_letter_config \<Rightarrow> trace \<Rightarrow> delivery \<Rightarrow> bool" where
  "dead_lettered L c t d \<longleftrightarrow> dlc_enabled c \<and>
     (\<exists>subject payload hs e err. dlc_subject c = Some subject \<and> Publish subject payload hs None \<in> set t
       \<and> delivery e = d \<and> build_dead_letter_payload L e err (dlc_options c) = Inr payload)"

definition saved :: "pylib \<Rightarrow> dead_letter_config \<Rightarrow> trace \<Rightarrow> pyval \<Rightarrow> bool" where
  "saved L c t raw \<longleftrightarrow>
     (case raw_delivery L raw of Inl err \<Rightarrow> False | Inr d \<Rightarrow> committed t d \<or> dead_lettered L c t d)"

definition buried :: "pylib \<Rightarrow> dead_letter_config \<Rightarrow> trace \<Rightarrow> pyval \<Rightarrow> bool" where
  "buried L c t raw \<longleftrightarrow> (case raw_delivery L raw of Inl err \<Rightarrow> False | Inr d \<Rightarrow> dead_lettered L c t d)"

fun justified :: "pylib \<Rightarrow> dead_letter_config \<Rightarrow> trace \<Rightarrow> event \<Rightarrow> bool" where
  "justified L c t (Ack raw out) = saved L c t raw"
| "justified L c t (Ack_sync raw timeout out) = saved L c t raw"
| "justified L c t (Term raw out) = buried L c t raw"
| "justified L c t ev = True"

fun safe_from :: "pylib \<Rightarrow> dead_letter_config \<Rightarrow> trace \<Rightarrow> trace \<Rightarrow> bool" where
  "safe_from L c past [] = True"
| "safe_from L c past (ev # evs) = (justified L c past ev \<and> safe_from L c (past @ [ev]) evs)"

definition commit_then_ack :: "pylib \<Rightarrow> dead_letter_config \<Rightarrow> trace \<Rightarrow> bool" where
  "commit_then_ack L c t = safe_from L c [] t"

lemma safe_from_append: "safe_from L c past (t @ u) \<longleftrightarrow> safe_from L c past t \<and> safe_from L c (past @ t) u"
  by (induction t arbitrary: past) auto

lemma commit_then_ack_snoc [simp]:
  "commit_then_ack L c (t @ [ev]) \<longleftrightarrow> commit_then_ack L c t \<and> justified L c t ev"
  by (simp add: commit_then_ack_def safe_from_append)

lemma commit_then_ack_Nil [simp]: "commit_then_ack L c []"
  by (simp add: commit_then_ack_def)

lemma commit_then_ack_split: "commit_then_ack L c (a @ ev # b) \<Longrightarrow> justified L c a ev"
  by (simp add: commit_then_ack_def safe_from_append)

lemma committed_append: "committed t d \<Longrightarrow> committed (t @ u) d"
  unfolding committed_def by auto

lemma dead_lettered_append: "dead_lettered L c t d \<Longrightarrow> dead_lettered L c (t @ u) d"
  unfolding dead_lettered_def set_append by blast

lemma dead_letteredI:
  assumes "dlc_enabled c" "dlc_subject c = Some subject" "build_dead_letter_payload L e err (dlc_options c) = Inr payload"
  shows "dead_lettered L c (t @ [Publish subject payload hs None]) (delivery e)"
  unfolding dead_lettered_def using assms by (intro conjI exI [where x = subject] exI [where x = payload]) auto

lemma saved_append: "saved L c t raw \<Longrightarrow> saved L c (t @ u) raw"
  by (auto simp: saved_def split: sum.splits intro: committed_append dead_lettered_append)

lemma buried_append: "buried L c t raw \<Longrightarrow> buried L c (t @ u) raw"
  by (auto simp: buried_def split: sum.splits intro: dead_lettered_append)

lemma buried_saved: "buried L c t raw \<Longrightarrow> saved L c t raw"
  by (auto simp: buried_def saved_def split: sum.splits)

section \<open>Actions that settle nothing\<close>

fun settles :: "event \<Rightarrow> bool" where
  "settles (Ack raw out) = True"
| "settles (Ack_sync raw timeout out) = True"
| "settles (Term raw out) = True"
| "settles ev = False"

definition calm :: "(trace \<Rightarrow> bool) \<Rightarrow> bool" where
  "calm I \<longleftrightarrow> (\<forall>t ev. I t \<longrightarrow> \<not> settles ev \<longrightarrow> I (t @ [ev]))"

lemma calm_metrics [keeps_rules]: "calm I \<Longrightarrow> metric_closed I"
  by (auto simp: calm_def metric_closed_def)

lemma calm_perform: "calm I \<Longrightarrow> (\<And>out. \<not> settles (ev out)) \<Longrightarrow> keeps I (perform o' ev)"
  by (rule keeps_perform) (simp add: calm_def)

lemma calm_metric_actions [keeps_rules]:
  assumes "calm I"
  shows "keeps I (increment_metric E name n)" "keeps I (observe_metric E name x)"
    "keeps I (set_metric_value E name x)" "keeps I (observe_elapsed E name)"
  using keeps_metrics [OF calm_metrics [OF assms]] by auto

lemma keeps_option [keeps_rules]:
  "keeps I m \<Longrightarrow> (\<And>x. keeps I (f x)) \<Longrightarrow> keeps I (case o' of None \<Rightarrow> m | Some x \<Rightarrow> f x)"
  by (cases o') auto

lemma keeps_sum [keeps_rules]:
  "(\<And>x. keeps I (f x)) \<Longrightarrow> (\<And>x. keeps I (g x)) \<Longrightarrow> keeps I (case s of Inl x \<Rightarrow> f x | Inr x \<Rightarrow> g x)"
  by (cases s) auto

lemma keeps_prod [keeps_rules]: "(\<And>x y. keeps I (f x y)) \<Longrightarrow> keeps I (case p of (x, y) \<Rightarrow> f x y)"
  by (cases p) auto

lemma calm_nak_all [keeps_rules]:
  assumes "calm I" shows "keeps I (nak_all L E raws delay)"
  unfolding nak_all_def nak_one_def
  by (intro keeps_rules calm_perform assms) auto

lemma calm_temporary [keeps_rules]:
  assumes "calm I" shows "keeps I (handle_temporary_failure L E dl raws m)"
  unfolding handle_temporary_failure_def Let_def
  by (intro keeps_rules assms)

lemma calm_publish_dlq [keeps_rules]:
  assumes "calm I" shows "keeps I (publish_dlq L E js c es err)"
  unfolding publish_dlq_def publish_one_def Let_def
  by (intro keeps_rules calm_perform assms) auto

lemma calm_send_each [keeps_rules]:
  assumes "calm I" shows "keeps I (send_each L E raws s f)"
  by (induction raws arbitrary: s f) (auto intro!: keeps_rules calm_perform assms)

lemma calm_finish_round [keeps_rules]: "calm I \<Longrightarrow> keeps I (finish_round E counts)"
  by (auto simp: finish_round_def split: prod.splits intro!: keeps_rules)

lemma calm_rounds [keeps_rules]:
  assumes "calm I" shows "keeps I (heartbeat_rounds L E m raws late due sent)"
proof (induction due arbitrary: sent)
  case 0
  show ?case
    by (subst heartbeat_rounds.simps) (auto intro!: keeps_rules assms)
next
  case (Suc due)
  show ?case
    by (subst heartbeat_rounds.simps) (auto simp: send_in_progress_once_def intro!: keeps_rules assms Suc.IH)
qed

lemma keeps_heartbeat_state [keeps_rules]:
  "keeps I m \<Longrightarrow> keeps I n \<Longrightarrow> (\<And>s f rest. keeps I (g s f rest)) \<Longrightarrow>
    keeps I (case st of Hb_over \<Rightarrow> m | Hb_waiting \<Rightarrow> n | Hb_round s f rest \<Rightarrow> g s f rest)"
  by (cases st) auto

lemma calm_heartbeat_before [keeps_rules]:
  assumes "calm I" shows "keeps I (heartbeat_before L E c raws)"
  unfolding heartbeat_before_def clear_active_def by (intro keeps_rules assms)

lemma calm_heartbeat_after [keeps_rules]:
  assumes "calm I" shows "keeps I (heartbeat_after L E st)"
  unfolding heartbeat_after_def clear_active_def
  by (cases st) (auto intro!: keeps_rules assms)

section \<open>Acknowledging what is saved\<close>

definition ack_closed :: "(trace \<Rightarrow> bool) \<Rightarrow> pyval list \<Rightarrow> bool" where
  "ack_closed I raws \<longleftrightarrow> calm I \<and>
     (\<forall>t raw out timeout. I t \<longrightarrow> raw \<in> set raws \<longrightarrow> I (t @ [Ack raw out]) \<and> I (t @ [Ack_sync raw timeout out]))"

definition term_closed :: "(trace \<Rightarrow> bool) \<Rightarrow> pyval list \<Rightarrow> bool" where
  "term_closed I raws \<longleftrightarrow> calm I \<and> (\<forall>t raw out. I t \<longrightarrow> raw \<in> set raws \<longrightarrow> I (t @ [Term raw out]))"

lemma keeps_counted_loop:
  assumes "\<And>x. x \<in> set xs \<Longrightarrow> keeps I (f x)" "\<And>x. x \<in> set xs \<Longrightarrow> keeps I (g x)"
  shows "keeps I (counted_loop f g n xs)"
  using assms by (induction xs arbitrary: n) (auto intro!: keeps_rules)

lemma keeps_call_method: "keeps I call \<Longrightarrow> keeps I (call_method L obj name call)"
  by (auto simp: call_method_def split: attr.split intro!: keeps_rules)

lemma keeps_ack_one:
  assumes "ack_closed I raws" "raw \<in> set raws"
  shows "keeps I (ack_one L E c raw)"
proof -
  have calm: "calm I" using assms(1) by (simp add: ack_closed_def)
  have ack: "keeps I (standard_ack L E raw)"
    unfolding standard_ack_def using assms by (intro keeps_call_method keeps_perform) (simp add: ack_closed_def)
  have sync: "keeps I (perform (\<lambda>t. en_ack_sync E t raw) (Ack_sync raw x))" for x
    using assms by (intro keeps_perform) (simp add: ack_closed_def)
  show ?thesis unfolding ack_one_def confirmed_ack_def by (intro keeps_rules calm ack sync)
qed

lemma keeps_ack_all: "ack_closed I raws \<Longrightarrow> keeps I (ack_all L E c raws)"
  unfolding ack_all_def
  by (intro keeps_rules keeps_counted_loop keeps_ack_one) (auto simp: ack_closed_def)

lemma keeps_term_all:
  assumes "term_closed I raws" shows "keeps I (term_all L E c raws)"
proof -
  have calm: "calm I" using assms by (simp add: term_closed_def)
  have "keeps I (term_one L E raw)" if "raw \<in> set raws" for raw
    unfolding term_one_def by (intro keeps_rules keeps_perform) (use assms that in \<open>simp add: term_closed_def\<close>)
  then show ?thesis unfolding term_all_def by (intro keeps_rules keeps_counted_loop calm)
qed

text \<open>The invariant together with what has been saved so far.\<close>

definition all_saved :: "pylib \<Rightarrow> dead_letter_config \<Rightarrow> pyval list \<Rightarrow> trace \<Rightarrow> bool" where
  "all_saved L c raws t \<longleftrightarrow> commit_then_ack L c t \<and> (\<forall>raw\<in>set raws. saved L c t raw)"

definition all_buried :: "pylib \<Rightarrow> dead_letter_config \<Rightarrow> pyval list \<Rightarrow> trace \<Rightarrow> bool" where
  "all_buried L c raws t \<longleftrightarrow> commit_then_ack L c t \<and> (\<forall>raw\<in>set raws. buried L c t raw)"

lemma justified_calm: "\<not> settles ev \<Longrightarrow> justified L c t ev"
  by (cases ev) auto

lemma calm_commit_then_ack [simp]: "calm (commit_then_ack L c)"
  by (simp add: calm_def justified_calm)

lemma ack_closed_all_saved: "ack_closed (all_saved L c raws) raws"
  by (auto simp: ack_closed_def calm_def all_saved_def justified_calm saved_append)

lemma term_closed_all_buried: "term_closed (all_buried L c raws) raws"
  by (auto simp: term_closed_def calm_def all_buried_def justified_calm buried_append)

text \<open>Every client message of a batch has an envelope in it.\<close>

definition covers :: "pylib \<Rightarrow> pyval list \<Rightarrow> nats_envelope list \<Rightarrow> bool" where
  "covers L raws es \<longleftrightarrow> (\<forall>raw\<in>set raws. \<exists>e\<in>set es. raw_delivery L raw = Inr (delivery e))"

lemma hoare_publish_each:
  assumes "dlc_subject c = Some subject" "dlc_enabled c"
  shows "hoare (\<lambda>t. commit_then_ack L c t \<and> (\<forall>d\<in>D. dead_lettered L c t d))
    (for_each (publish_one L E c subject err) es)
    (\<lambda>_ t. commit_then_ack L c t \<and> (\<forall>d\<in>D \<union> delivery ` set es. dead_lettered L c t d))
    (\<lambda>_. commit_then_ack L c)"
proof (induction es arbitrary: D)
  case Nil
  show ?case by (auto intro!: hoare_ret)
next
  case (Cons e es)
  have "hoare (\<lambda>t. commit_then_ack L c t \<and> (\<forall>d\<in>D. dead_lettered L c t d)) (publish_one L E c subject err e)
      (\<lambda>_ t. commit_then_ack L c t \<and> (\<forall>d\<in>insert (delivery e) D. dead_lettered L c t d)) (\<lambda>_. commit_then_ack L c)"
  proof (cases "build_dead_letter_payload L e err (dlc_options c)")
    case (Inl x)
    then show ?thesis by (auto simp: publish_one_def hoare_def bind_act_def lift_res_def)
  next
    case (Inr payload)
    then have "publish_one L E c subject err e =
        perform (\<lambda>t. en_publish E t subject payload [(''Nats-Sinks-Error-Type'', class_name (exn_cls err)),
            (''Nats-Sinks-Original-Subject'', env_subject e)])
          (Publish subject payload [(''Nats-Sinks-Error-Type'', class_name (exn_cls err)),
            (''Nats-Sinks-Original-Subject'', env_subject e)])"
      by (simp add: publish_one_def bind_act_def lift_res_def fun_eq_iff Let_def)
    then show ?thesis using Inr assms
      by (simp only:) (rule hoare_perform, auto intro: dead_letteredI dead_lettered_append)
  qed
  from hoare_then [OF this Cons.IH [of "insert (delivery e) D"]] show ?case by simp
qed

lemma hoare_raise: "keeps I m \<Longrightarrow> hoare I (then_act m (throw e)) Q (\<lambda>_. I)"
  by (rule hoare_then [OF hoare_keeps]) (auto intro: hoare_throw)

lemma hoare_publish_dlq:
  assumes "covers L raws es" "dlc_enabled c"
  shows "hoare (commit_then_ack L c) (publish_dlq L E js c es err) (\<lambda>_. all_buried L c raws) (\<lambda>_. commit_then_ack L c)"
proof (cases "js \<and> dlc_subject c \<noteq> None")
  case True
  then obtain subject where s: "dlc_subject c = Some subject" by auto
  have "hoare (commit_then_ack L c) (for_each (publish_one L E c subject err) es) (\<lambda>_. all_buried L c raws) (\<lambda>_. commit_then_ack L c)"
    using hoare_publish_each [OF s assms(2), of L "{}" E err es]
    by (rule hoare_weaken) (use assms(1) in \<open>fastforce simp: covers_def all_buried_def buried_def split: sum.splits\<close>)+
  moreover have "hoare (commit_then_ack L c) (then_act (increment_metric E ''dlq_publish_errors_total'' (length es)) (throw e))
      (\<lambda>_. all_buried L c raws) (\<lambda>_. commit_then_ack L c)" for e
    by (rule hoare_raise) (simp add: calm_metric_actions)
  ultimately have "hoare (commit_then_ack L c) (catch_exception (for_each (publish_one L E c subject err) es)
      (\<lambda>_. then_act (increment_metric E ''dlq_publish_errors_total'' (length es)) (throw e)))
      (\<lambda>_. all_buried L c raws) (\<lambda>_. commit_then_ack L c)" for e
    by (rule hoare_catch_exception)
  then show ?thesis using True by (simp add: publish_dlq_def s)
qed (auto simp: publish_dlq_def intro!: hoare_throw split: option.splits)

lemma ack_closed_all_buried: "ack_closed (all_buried L c raws) raws"
  by (auto simp: ack_closed_def calm_def all_buried_def justified_calm buried_append buried_saved)

lemma keeps_settle_dead_lettered: "keeps (all_buried L c raws) (settle_dead_lettered L E dl dlc raws)"
proof -
  have "calm (all_buried L c raws)" using ack_closed_all_buried [of L c raws] by (simp add: ack_closed_def)
  then show ?thesis unfolding settle_dead_lettered_def
    by (intro keeps_rules keeps_term_all term_closed_all_buried keeps_ack_all ack_closed_all_buried)
qed

lemma keeps_dead_letter:
  assumes "covers L raws es" "dlc_enabled c"
  shows "keeps (commit_then_ack L c) (then_act (publish_dlq L E js c es err)
    (then_act (increment_metric E m n) (settle_dead_lettered L E dl c raws)))"
proof -
  have calm: "calm (all_buried L c raws)" using ack_closed_all_buried [of L c raws] by (simp add: ack_closed_def)
  have "keeps (all_buried L c raws) (then_act (increment_metric E m n) (settle_dead_lettered L E dl c raws))"
    by (intro keeps_rules calm keeps_settle_dead_lettered)
  then have "hoare (all_buried L c raws) (then_act (increment_metric E m n) (settle_dead_lettered L E dl c raws))
      (\<lambda>_. commit_then_ack L c) (\<lambda>_. commit_then_ack L c)"
    using hoare_weaken [OF hoare_keeps] by (auto simp: all_buried_def elim!: hoare_weaken [OF hoare_keeps])
  with hoare_publish_dlq [OF assms, of E js err] show ?thesis
    unfolding keeps_def by (rule hoare_then)
qed

lemma keeps_handle_permanent_failure [keeps_rules]:
  "covers L raws es \<Longrightarrow> keeps (commit_then_ack L c) (handle_permanent_failure L E js dl c raws es err)"
  unfolding handle_permanent_failure_def
  by (intro keeps_rules keeps_dead_letter calm_commit_then_ack) auto

lemma keeps_handle_policy_rejections [keeps_rules]:
  "covers L raws es \<Longrightarrow> keeps (commit_then_ack L c) (handle_policy_rejections L E js dl c raws es err)"
  unfolding handle_policy_rejections_def
  by (intro keeps_rules keeps_dead_letter calm_commit_then_ack) auto

section \<open>The write and its acknowledgements\<close>

text \<open>The invariant together with a sink write that has returned.\<close>

definition wrote :: "(trace \<Rightarrow> bool) \<Rightarrow> nats_envelope list \<Rightarrow> trace \<Rightarrow> bool" where
  "wrote I es t \<longleftrightarrow> I t \<and> Sink_write es None \<in> set t"

lemma calm_wrote: "calm I \<Longrightarrow> calm (wrote I es)"
  by (auto simp: calm_def wrote_def)

lemma wrote_all_saved: "covers L raws es \<Longrightarrow> wrote (commit_then_ack L c) es t \<Longrightarrow> all_saved L c raws t"
  by (fastforce simp: wrote_def all_saved_def covers_def saved_def committed_def)

lemma hoare_sink_write:
  assumes "calm I"
  shows "hoare I (attempt_act (sink_write E es)) (\<lambda>w. case w of Inr u \<Rightarrow> wrote I es | Inl err \<Rightarrow> I) (\<lambda>_. I)"
  using assms
  by (auto simp: hoare_def attempt_act_def sink_write_def perform_def wrote_def calm_def split: option.splits)

lemma hoare_write_with_heartbeat:
  assumes "calm I"
  shows "hoare I (write_with_heartbeat L E c raws es)
    (\<lambda>sink_error. case sink_error of None \<Rightarrow> wrote I es | Some err \<Rightarrow> I) (\<lambda>_. I)"
proof -
  let ?Q = "\<lambda>sink_error. case sink_error of None \<Rightarrow> wrote I es | Some err \<Rightarrow> I"
  let ?outcome = "\<lambda>w. case w of Inr u \<Rightarrow> ret None
    | Inl err \<Rightarrow> if isinstance err PyException then ret (Some err) else throw err"
  have weaker: "wrote I es t \<Longrightarrow> I t" for t by (simp add: wrote_def)
  have finish: "hoare (case w of Inr u \<Rightarrow> wrote I es | Inl err \<Rightarrow> I) (then_act after (?outcome w)) ?Q (\<lambda>_. I)"
    if "\<And>J. calm J \<Longrightarrow> keeps J after" for after :: "unit act" and w :: "unit res"
  proof (cases w)
    case (Inl err)
    have "hoare I (?outcome w) ?Q (\<lambda>_. I)" by (auto simp: Inl intro!: hoare_ret hoare_throw)
    with hoare_keeps [OF that [OF assms]] show ?thesis by (simp add: Inl hoare_then)
  next
    case (Inr u)
    have "hoare (wrote I es) after (\<lambda>_. wrote I es) (\<lambda>_. I)"
      using hoare_keeps [OF that [OF calm_wrote [OF assms]]] by (rule hoare_weaken) (auto simp: weaker)
    moreover have "hoare (wrote I es) (ret None) ?Q (\<lambda>_. I)" by (intro hoare_ret) simp
    ultimately show ?thesis unfolding Inr sum.case by (rule hoare_then)
  qed
  have direct: "hoare (case w of Inr u \<Rightarrow> wrote I es | Inl err \<Rightarrow> I) (?outcome w) ?Q (\<lambda>_. I)" for w :: "unit res"
    by (cases w) (auto intro!: hoare_ret hoare_throw)
  have waiting: "keeps J (case h of Inr st \<Rightarrow> heartbeat_after L E st
      | Inl err \<Rightarrow> if ip_shutdown_timeout_ms c = 0 \<and> isinstance err CancelledError then ret () else throw err)"
    if "calm J" for J and h :: "heartbeat_state res"
    by (intro keeps_rules that)
  have before: "hoare I (attempt_act (heartbeat_before L E c raws)) (\<lambda>_. I) (\<lambda>_. I)"
    by (intro hoare_keeps keeps_rules assms)
  show ?thesis
  proof (cases "ip_enabled c")
    case True
    then show ?thesis unfolding write_with_heartbeat_def Let_def
      by (simp only: simp_thms if_False)
        (intro hoare_bind [OF before] hoare_bind [OF hoare_sink_write [OF assms]] finish waiting)
  next
    case False
    then show ?thesis unfolding write_with_heartbeat_def Let_def
      by (simp only: simp_thms if_True) (intro hoare_bind [OF hoare_sink_write [OF assms]] direct)
  qed
qed

lemma keeps_settle_success:
  assumes "covers L raws es"
  shows "hoare (wrote (commit_then_ack L c) es) (settle_success L E r (raws, es))
    (\<lambda>_. commit_then_ack L c) (\<lambda>_. commit_then_ack L c)"
proof -
  have calm: "calm (all_saved L c raws)" using ack_closed_all_saved [of L c raws] by (simp add: ack_closed_def)
  have "keeps (all_saved L c raws) (settle_success L E r (raws, es))"
    unfolding settle_success_def split_beta fst_conv snd_conv
    by (intro keeps_rules calm keeps_ack_all ack_closed_all_saved)
  then have "hoare (all_saved L c raws) (settle_success L E r (raws, es)) (\<lambda>_. all_saved L c raws) (\<lambda>_. all_saved L c raws)"
    by (rule hoare_keeps)
  then show ?thesis by (rule hoare_weaken) (erule wrote_all_saved [OF assms], auto simp: all_saved_def)
qed

lemma keeps_delivery_stage:
  assumes "covers L (fst b) (snd b)"
  shows "keeps (commit_then_ack L (rn_dead_letter r)) (delivery_stage L E r b)"
proof -
  obtain raws es where b: "b = (raws, es)" by (cases b)
  let ?I = "commit_then_ack L (rn_dead_letter r)"
  have main: "keeps ?I (bind_act (write_with_heartbeat L E (dl_in_progress (rn_delivery r)) raws es) (\<lambda>sink_error.
         case sink_error of
           None \<Rightarrow> settle_success L E r (raws, es)
         | Some err \<Rightarrow>
             if isinstance err PermanentSinkError
             then handle_permanent_failure L E (rn_jetstream r) (rn_delivery r) (rn_dead_letter r) raws es err
             else handle_temporary_failure L E (rn_delivery r) raws (Some ''sink_write_errors_total'')))"
    unfolding keeps_def
  proof (rule hoare_bind [OF hoare_write_with_heartbeat [OF calm_commit_then_ack]])
    fix sink_error
    have "keeps ?I (if isinstance err PermanentSinkError
             then handle_permanent_failure L E (rn_jetstream r) (rn_delivery r) (rn_dead_letter r) raws es err
             else handle_temporary_failure L E (rn_delivery r) raws (Some ''sink_write_errors_total''))" for err
      by (intro keeps_rules calm_commit_then_ack) (use assms in \<open>simp add: b\<close>)
    moreover have "hoare (wrote ?I es) (settle_success L E r (raws, es)) (\<lambda>_. ?I) (\<lambda>_. ?I)"
      using assms by (intro keeps_settle_success) (simp add: b)
    ultimately show "hoare (case sink_error of None \<Rightarrow> wrote ?I es | Some err \<Rightarrow> ?I)
        (case sink_error of
           None \<Rightarrow> settle_success L E r (raws, es)
         | Some err \<Rightarrow>
             if isinstance err PermanentSinkError
             then handle_permanent_failure L E (rn_jetstream r) (rn_delivery r) (rn_dead_letter r) raws es err
             else handle_temporary_failure L E (rn_delivery r) raws (Some ''sink_write_errors_total''))
        (\<lambda>_. ?I) (\<lambda>_. ?I)"
      by (cases sink_error) (simp_all only: option.case keeps_def)
  qed
  show ?thesis unfolding b delivery_stage_def split_beta fst_conv snd_conv
    by (intro keeps_then main calm_metric_actions calm_commit_then_ack)
qed

section \<open>The stages before the write\<close>

text \<open>Client messages and envelopes belong together position by position.\<close>

definition paired :: "pylib \<Rightarrow> batch \<Rightarrow> bool" where
  "paired L b \<longleftrightarrow> list_all2 (\<lambda>raw e. raw_delivery L raw = Inr (delivery e)) (fst b) (snd b)"

lemma paired_covers: "paired L b \<Longrightarrow> covers L (fst b) (snd b)"
  by (fastforce simp: paired_def covers_def in_set_conv_nth list_all2_conv_all_nth)

text \<open>A stage that keeps the invariant and passes on batches with a property.\<close>

definition yields :: "(trace \<Rightarrow> bool) \<Rightarrow> (batch \<Rightarrow> bool) \<Rightarrow> batch option act \<Rightarrow> bool" where
  "yields I P m \<longleftrightarrow> hoare I m (\<lambda>r t. I t \<and> pred_option P r) (\<lambda>_. I)"

named_theorems yields_rules \<open>batch properties through the combinators\<close>

lemma yields_ret [yields_rules]: "P b \<Longrightarrow> yields I P (ret (Some b))" "yields I P (ret None)"
  by (simp_all add: yields_def hoare_ret)

lemma yields_throw [yields_rules]: "yields I P (throw e)"
  by (simp add: yields_def hoare_throw)

lemma yields_then [yields_rules]: "keeps I m \<Longrightarrow> yields I P n \<Longrightarrow> yields I P (then_act m n)"
  unfolding yields_def keeps_def by (rule hoare_then)

lemma yields_bind:
  assumes "hoare I m (\<lambda>x t. I t \<and> Q x) (\<lambda>_. I)" "\<And>x. Q x \<Longrightarrow> yields I P (f x)"
  shows "yields I P (bind_act m f)"
  unfolding yields_def
proof (rule hoare_bind [OF assms(1)])
  fix x show "hoare (\<lambda>t. I t \<and> Q x) (f x) (\<lambda>r t. I t \<and> pred_option P r) (\<lambda>_. I)"
    using assms(2) [of x] by (auto simp: yields_def hoare_def)
qed

lemma yields_catch [yields_rules]: "yields I P m \<Longrightarrow> (\<And>e. yields I P (h e)) \<Longrightarrow> yields I P (catch m h)"
  unfolding yields_def by (rule hoare_catch)

lemma yields_read_env [yields_rules]: "(\<And>x. yields I P (f x)) \<Longrightarrow> yields I P (read_env g f)"
  unfolding yields_def by (rule hoare_read_env)

lemma yields_if [yields_rules]: "(b \<Longrightarrow> yields I P m) \<Longrightarrow> (\<not> b \<Longrightarrow> yields I P n) \<Longrightarrow> yields I P (if b then m else n)"
  by simp

lemma yields_next: "yields I P m \<Longrightarrow> (\<And>b. P b \<Longrightarrow> yields I Q (stage b)) \<Longrightarrow> yields I Q (next_stage stage m)"
  unfolding next_stage_def
  by (rule yields_bind [where Q = "pred_option P"]) (simp add: yields_def, auto intro: yields_rules split: option.split)

lemma yields_end [yields_rules]: "keeps I m \<Longrightarrow> yields I P (then_act m (ret None))"
  by (intro yields_rules)

lemma yields_temporary [yields_rules]: "calm I \<Longrightarrow> yields I P (temporary_stage_failure L E r raws m)"
  unfolding temporary_stage_failure_def by (intro yields_rules keeps_rules)

lemma mapped_paired:
  assumes "rmapM (\<lambda>(i, raw). envelope_from_nats_message L (now i) mc mission labels raw) (enumerate 0 raws) = Inr es"
  shows "paired L (raws, es)"
  using assms unfolding rmapM_Inr_iff paired_def fst_conv snd_conv list_all2_conv_all_nth
  by (auto simp: nth_enumerate_eq dest!: envelope_delivery)

lemma hoare_map_messages:
  "hoare I (map_messages L E mc mission labels raws) (\<lambda>es t. I t \<and> paired L (raws, es)) (\<lambda>_. I)"
  unfolding map_messages_def by (intro hoare_read_env hoare_lift_res) (auto dest: mapped_paired)

lemma hoare_attempt:
  "hoare P m Q R \<Longrightarrow> hoare P (attempt_act m) (\<lambda>r. case r of Inr x \<Rightarrow> Q x | Inl e \<Rightarrow> R e) S"
  by (auto simp: hoare_def attempt_act_def split: prod.splits sum.splits)

lemma hoare_remap:
  "hoare I (attempt_act (map_messages L E mc mission labels raws))
    (\<lambda>x t. I t \<and> pred_sum (\<lambda>_. True) (\<lambda>es. paired L (raws, es)) x) (\<lambda>_. I)"
proof -
  have "hoare I (attempt_act (map_messages L E mc mission labels raws))
      (\<lambda>x. case x of Inr es \<Rightarrow> \<lambda>t. I t \<and> paired L (raws, es) | Inl e \<Rightarrow> I) (\<lambda>_. I)"
    by (rule hoare_attempt, rule hoare_map_messages)
  then show ?thesis
  proof (rule hoare_weaken)
    fix x :: "nats_envelope list res" and t
    assume "(case x of Inr es \<Rightarrow> \<lambda>t. I t \<and> paired L (raws, es) | Inl e \<Rightarrow> I) t"
    then show "I t \<and> pred_sum (\<lambda>_. True) (\<lambda>es. paired L (raws, es)) x" by (cases x) simp_all
  qed
qed

lemma yields_mapping_stage:
  "yields (commit_then_ack L (rn_dead_letter r)) (paired L) (mapping_stage L E r raws)"
proof -
  let ?I = "commit_then_ack L (rn_dead_letter r)"
  have retry: "yields ?I (paired L) (bind_act
      (attempt_act (map_messages L E (rn_message_metadata r) default_mission_config default_label_config raws))
      (\<lambda>fallback. case fallback of
         Inl fallback_err \<Rightarrow>
           if isinstance fallback_err PyException
           then temporary_stage_failure L E r raws ''message_normalization_errors_total''
           else throw fallback_err
       | Inr es \<Rightarrow>
           then_act (handle_permanent_failure L E (rn_jetstream r) (rn_delivery r) (rn_dead_letter r) raws es err)
             (ret None)))" for err
  proof (rule yields_bind [OF hoare_remap])
    fix fallback :: "nats_envelope list res" assume ok: "pred_sum (\<lambda>_. True) (\<lambda>es. paired L (raws, es)) fallback"
    show "yields ?I (paired L) (case fallback of
         Inl fallback_err \<Rightarrow>
           if isinstance fallback_err PyException
           then temporary_stage_failure L E r raws ''message_normalization_errors_total''
           else throw fallback_err
       | Inr es \<Rightarrow>
           then_act (handle_permanent_failure L E (rn_jetstream r) (rn_delivery r) (rn_dead_letter r) raws es err)
             (ret None))"
      using ok paired_covers [of L "(raws, projr fallback)"]
      by (cases fallback) (simp_all add: yields_temporary yields_throw yields_end keeps_handle_permanent_failure)
  qed
  have mapped: "yields ?I (paired L) (then_act (observe_elapsed E m) (ret (Some (raws, es))))"
    if "paired L (raws, es)" for m es
    using that by (intro yields_rules keeps_rules) auto
  show ?thesis unfolding mapping_stage_def
    by (rule yields_catch, rule yields_bind [OF hoare_map_messages], erule mapped)
      (simp add: yields_throw yields_then yields_temporary retry calm_metric_actions)
qed

section \<open>Gates, transformers, lanes\<close>

lemma yields_guarded:
  assumes "paired L b" "\<And>x. computed = Inr x \<Longrightarrow> yields (commit_then_ack L (rn_dead_letter r)) P (continue x)"
  shows "yields (commit_then_ack L (rn_dead_letter r)) P (guarded_stage L E r b m computed continue)"
  using assms paired_covers [OF assms(1)]
  by (cases b; cases computed) (auto simp: guarded_stage_def intro!: yields_rules keeps_rules)

lemma keeps_gate_metrics [keeps_rules]: "calm I \<Longrightarrow> keeps I (gate_metrics E prefix ev)"
  unfolding gate_metrics_def by (intro keeps_rules)

lemma yields_apply_rejections:
  assumes "paired L (pick (fst b) (ev_accepted ev), pick (snd b) (ev_accepted ev))"
    "paired L (pick (fst b) (ev_rejected ev), pick (snd b) (ev_rejected ev))" "paired L b"
  shows "yields (commit_then_ack L (rn_dead_letter r)) (paired L) (apply_rejections L E r b ev err)"
  using assms paired_covers [OF assms(2)]
  by (cases b) (auto simp: apply_rejections_def intro!: yields_rules keeps_rules)

text \<open>Any gate, from its interface alone.\<close>

context batch_gate
begin

lemma yields_gate:
  assumes "paired L b" "\<And>ev. keeps (commit_then_ack L (rn_dead_letter r)) (update ev)"
  shows "yields (commit_then_ack L (rn_dead_letter r)) (paired L)
    (guarded_stage L E r b m (evaluate (snd b)) (\<lambda>ev. then_act (update ev) (apply_rejections L E r b ev (err ev))))"
proof (rule yields_guarded [OF assms(1)])
  fix ev assume ev: "evaluate (snd b) = Inr ev"
  have "paired L (pick (fst b) (ev_accepted ev), pick (snd b) (ev_accepted ev))"
    "paired L (pick (fst b) (ev_rejected ev), pick (snd b) (ev_rejected ev))"
    using pick_list_all2 [OF ev] assms(1) by (simp_all add: paired_def)
  then show "yields (commit_then_ack L (rn_dead_letter r)) (paired L) (then_act (update ev) (apply_rejections L E r b ev (err ev)))"
    by (intro yields_then assms(2) yields_apply_rejections assms(1))
qed

end

context batch_transformer
begin

lemma transform_paired: "paired L b \<Longrightarrow> transform (snd b) = Inr es \<Longrightarrow> paired L (fst b, es)"
  using positionwise [of "snd b" es] by (auto simp: paired_def list_all2_conv_all_nth)

end

lemma yields_authenticity_stage:
  "paired L b \<Longrightarrow> yields (commit_then_ack L (rn_dead_letter r)) (paired L) (authenticity_stage L E r b)"
  unfolding authenticity_stage_def
  by (auto split: option.split intro!: yields_ret authenticity_gate.yields_gate keeps_rules)

lemma yields_encryption_stage:
  "paired L b \<Longrightarrow> yields (commit_then_ack L (rn_dead_letter r)) (paired L) (encryption_stage L E r b)"
  unfolding encryption_stage_def
  by (auto split: option.split sum.split intro!: yields_rules encryption.transform_paired)

lemma yields_size_stage:
  "paired L b \<Longrightarrow> yields (commit_then_ack L (rn_dead_letter r)) (paired L) (size_stage L E r b)"
  unfolding size_stage_def
  by (intro yields_read_env size_gate.yields_gate keeps_if keeps_gate_metrics) auto

lemma yields_policy_stage:
  "paired L b \<Longrightarrow> yields (commit_then_ack L (rn_dead_letter r)) (paired L) (policy_stage L E r b)"
  unfolding policy_stage_def
  by (intro policy_gate.yields_gate keeps_if keeps_gate_metrics) auto

lemma yields_custody_stage:
  "paired L b \<Longrightarrow> yields (commit_then_ack L (rn_dead_letter r)) (paired L) (custody_stage L E r b)"
  unfolding custody_stage_def
  by (intro yields_guarded yields_ret custody.transform_paired)

lemma keeps_assign_all [keeps_rules]: "calm I \<Longrightarrow> keeps I (assign_all (Some E) st c es)"
  by (induction es)
    (auto simp: assign_priority_lane_def record_defaulted_def record_rejected_def when_metrics_def intro!: keeps_rules)

lemma keeps_priority_stage [keeps_rules]: "calm I \<Longrightarrow> keeps I (priority_stage (Some E) st p es)"
  unfolding priority_stage_def order_by_priority_lanes_def when_metrics_def option.case
  by (intro keeps_rules)

lemma hoare_priority_stage:
  assumes "calm I" "covers L raws es"
  shows "hoare I (priority_stage (Some E) st p es) (\<lambda>es' t. I t \<and> covers L raws es') (\<lambda>_. I)"
proof -
  have "covers L raws es'" if "priority_stage (Some E) st p es t = (Inr es', t')" for es' t t'
  proof -
    have "delivery ` set es' = delivery ` set es" using priority.stage_covers that by (metis fst_conv)
    then have "\<exists>e'\<in>set es'. delivery e' = delivery e" if "e \<in> set es" for e
      using that by (metis imageE imageI)
    then show ?thesis using assms(2) unfolding covers_def by metis
  qed
  moreover have "keeps I (priority_stage (Some E) st p es)" using assms(1) by (rule keeps_rules)
  ultimately show ?thesis unfolding keeps_def hoare_def by (fastforce split: prod.splits sum.splits)
qed

lemma yields_lane_stage:
  assumes "paired L b"
  shows "yields (commit_then_ack L (rn_dead_letter r)) (\<lambda>b. covers L (fst b) (snd b)) (lane_stage L E r b)"
proof -
  have "yields (commit_then_ack L (rn_dead_letter r)) (\<lambda>b. covers L (fst b) (snd b))
      (bind_act (priority_stage (Some E) (l_str L) (dl_lanes (rn_delivery r)) (snd b)) (\<lambda>es. ret (Some (fst b, es))))"
    by (rule yields_bind [OF hoare_priority_stage [OF calm_commit_then_ack paired_covers [OF assms]]])
      (intro yields_ret, simp)
  then show ?thesis unfolding lane_stage_def
    by (intro yields_catch yields_if yields_end yields_throw keeps_handle_permanent_failure paired_covers assms)
qed

lemma yields_prepare_batch:
  "yields (commit_then_ack L (rn_dead_letter r)) (\<lambda>b. covers L (fst b) (snd b)) (prepare_batch L E r raws)"
  unfolding prepare_batch_def
  by (intro yields_next [where P = "paired L"] yields_lane_stage yields_custody_stage yields_policy_stage
      yields_size_stage yields_encryption_stage yields_authenticity_stage yields_mapping_stage)

lemma keeps_process_raw_batch: "keeps (commit_then_ack L (rn_dead_letter r)) (process_raw_batch L E r raws)"
proof -
  let ?I = "commit_then_ack L (rn_dead_letter r)"
  have "hoare (\<lambda>t. ?I t \<and> pred_option (\<lambda>b. covers L (fst b) (snd b)) b)
      (case b of None \<Rightarrow> ret () | Some b \<Rightarrow> delivery_stage L E r b) (\<lambda>_. ?I) (\<lambda>_. ?I)" for b
    using keeps_delivery_stage [of L "the b" r E]
    by (cases b) (auto simp: keeps_def hoare_def ret_def)
  then have "keeps ?I (bind_act (prepare_batch L E r raws) (\<lambda>b. case b of None \<Rightarrow> ret () | Some b \<Rightarrow> delivery_stage L E r b))"
    using yields_prepare_batch unfolding keeps_def yields_def by (blast intro: hoare_bind)
  then show ?thesis unfolding process_raw_batch_def
    by (intro keeps_if keeps_then keeps_ret calm_metric_actions calm_commit_then_ack)
qed

end
