(* ===== verification/SettleOnce.thy ===== *)
theory SettleOnce
  imports CommitThenAck "HOL-Library.Multiset"
begin

text \<open>
  A batch settles each of its client messages at most once: the messages still in the pipeline are
  a budget, and every positive settlement spends one of them.
\<close>

section \<open>The budget\<close>

fun settlement :: "event \<Rightarrow> pyval multiset" where
  "settlement (Ack raw out) = {#raw#}"
| "settlement (Ack_sync raw timeout out) = {#raw#}"
| "settlement (Term raw out) = {#raw#}"
| "settlement ev = {#}"

definition settled :: "trace \<Rightarrow> pyval multiset" where
  "settled t = sum_list (map settlement t)"

lemma settled_simps [simp]: "settled [] = {#}" "settled (t @ u) = settled t + settled u" "settled (ev # t) = settlement ev + settled t"
  by (simp_all add: settled_def)

lemma settlement_calm [simp]: "\<not> settles ev \<Longrightarrow> settlement ev = {#}"
  by (cases ev) auto

definition budget :: "pyval multiset \<Rightarrow> pyval list \<Rightarrow> trace \<Rightarrow> bool" where
  "budget M raws t \<longleftrightarrow> settled t + mset raws \<subseteq># M"

lemma calm_budget [simp]: "calm (budget M raws)"
  by (simp add: calm_def budget_def)

lemma budget_mono: "budget M raws t \<Longrightarrow> mset raws' \<subseteq># mset raws \<Longrightarrow> budget M raws' t"
  unfolding budget_def by (meson subset_mset.add_left_mono subset_mset.order_trans)

lemma budget_drop: "budget M (raw # raws) t \<Longrightarrow> budget M raws t" "budget M (raws @ rest) t \<Longrightarrow> budget M rest t"
  by (erule budget_mono, simp)+

lemma budget_spend: "budget M (raw # raws) t \<Longrightarrow> settlement ev = {#raw#} \<Longrightarrow> budget M raws (t @ [ev])"
  by (simp add: budget_def add.assoc)

text \<open>An action that spends \<open>raws\<close> and leaves the \<open>rest\<close>, also when it raises.\<close>

definition spends :: "pyval list \<Rightarrow> 'a act \<Rightarrow> bool" where
  "spends raws m \<longleftrightarrow> (\<forall>M rest. hoare (budget M (raws @ rest)) m (\<lambda>_. budget M rest) (\<lambda>_. budget M rest))"

definition quiet :: "'a act \<Rightarrow> bool" where
  "quiet m \<longleftrightarrow> (\<forall>I. calm I \<longrightarrow> keeps I m)"

named_theorems spends_rules \<open>budgets through the combinators\<close>

lemma quietI [spends_rules]: "(\<And>I. calm I \<Longrightarrow> keeps I m) \<Longrightarrow> quiet m"
  by (simp add: quiet_def)

lemma quiet_hoare: "quiet m \<Longrightarrow> calm I \<Longrightarrow> hoare I m (\<lambda>_. I) (\<lambda>_. I)"
  by (simp add: quiet_def keeps_def)

lemma quiet_before: "quiet m \<Longrightarrow> hoare (budget M (raws @ rest)) m (\<lambda>_. budget M (raws @ rest)) (\<lambda>_. budget M rest)"
  by (rule hoare_weaken [OF quiet_hoare [OF _ calm_budget [of M "raws @ rest"]]]) (auto intro: budget_drop)

lemma spends_quiet: "quiet m \<Longrightarrow> spends raws m"
  unfolding spends_def by (intro allI, rule hoare_weaken [OF quiet_before]) (auto intro: budget_drop)

lemma quiet_bind_spends:
  assumes "quiet m" "\<And>x. spends raws (f x)" shows "spends raws (bind_act m f)"
  unfolding spends_def
  by (intro allI, rule hoare_bind [OF quiet_before [OF assms(1)]]) (use assms(2) in \<open>simp add: spends_def\<close>)

lemma quiet_then_spends: "quiet m \<Longrightarrow> spends raws n \<Longrightarrow> spends raws (then_act m n)"
  unfolding then_act_def by (rule quiet_bind_spends)

lemma spends_bind_quiet:
  assumes "spends raws m" "\<And>x. quiet (f x)" shows "spends raws (bind_act m f)"
  unfolding spends_def
proof (intro allI)
  fix M rest
  have "hoare (budget M (raws @ rest)) m (\<lambda>_. budget M rest) (\<lambda>_. budget M rest)" using assms(1) by (simp add: spends_def)
  then show "hoare (budget M (raws @ rest)) (bind_act m f) (\<lambda>_. budget M rest) (\<lambda>_. budget M rest)"
    by (rule hoare_bind) (rule quiet_hoare [OF assms(2) calm_budget])
qed

lemma spends_then_quiet: "spends raws m \<Longrightarrow> quiet n \<Longrightarrow> spends raws (then_act m n)"
  unfolding then_act_def by (rule spends_bind_quiet)

lemma spends_catch_quiet:
  assumes "spends raws m" "\<And>e. quiet (h e)" shows "spends raws (catch m h)"
  unfolding spends_def
proof (intro allI)
  fix M rest
  have "hoare (budget M (raws @ rest)) m (\<lambda>_. budget M rest) (\<lambda>_. budget M rest)" using assms(1) by (simp add: spends_def)
  then show "hoare (budget M (raws @ rest)) (catch m h) (\<lambda>_. budget M rest) (\<lambda>_. budget M rest)"
    by (rule hoare_catch) (rule quiet_hoare [OF assms(2) calm_budget])
qed

lemma spends_perform: "(\<And>out. settlement (ev out) = {#raw#}) \<Longrightarrow> spends [raw] (perform o' ev)"
  by (auto simp: spends_def intro!: hoare_perform budget_spend)

lemma spends_if: "(b \<Longrightarrow> spends raws m) \<Longrightarrow> (\<not> b \<Longrightarrow> spends raws n) \<Longrightarrow> spends raws (if b then m else n)"
  by simp

section \<open>Settling\<close>

lemma spends_standard_ack: "spends [raw] (standard_ack L E raw)"
  using spends_perform [of "Ack raw" raw] spends_quiet [OF quietI [OF keeps_throw]]
  by (auto simp: standard_ack_def call_method_def split: attr.split)

lemma spends_confirmed_ack: "spends [raw] (confirmed_ack E c raw)"
  unfolding confirmed_ack_def
  by (intro quiet_then_spends spends_then_quiet spends_catch_quiet spends_perform quietI keeps_rules) auto

lemma spends_ack_one: "spends [raw] (ack_one L E c raw)"
  unfolding ack_one_def
  by (intro spends_if quiet_bind_spends quiet_then_spends spends_standard_ack spends_confirmed_ack)
    (auto intro!: spends_quiet quietI keeps_rules)

lemma spends_term_one: "spends [raw] (term_one L E raw)"
  unfolding term_one_def
  by (intro spends_if quiet_bind_spends spends_perform) (auto intro!: spends_quiet quietI)

lemma spends_counted_loop:
  assumes "\<And>x. spends [x] (f x)" "\<And>x. quiet (g x)"
  shows "spends xs (counted_loop f g n xs)"
proof (induction xs arbitrary: n)
  case Nil
  show ?case by (auto intro!: spends_quiet quietI)
next
  case (Cons x xs)
  have stop: "hoare (budget M (xs @ rest)) (ret r) (\<lambda>_. budget M rest) (\<lambda>_. budget M rest)"
    "hoare (budget M rest) (throw e) (\<lambda>_. budget M rest) (\<lambda>_. budget M rest)"
    "hoare (budget M (xs @ rest)) (throw e) (\<lambda>_. budget M rest) (\<lambda>_. budget M rest)" for M rest r e
    by (auto intro!: hoare_ret hoare_throw intro: budget_drop)
  have first: "hoare (budget M ((x # xs) @ rest)) (attempt_act (f x)) (\<lambda>_. budget M (xs @ rest)) (\<lambda>_. budget M rest)" for M rest
  proof -
    have "hoare (budget M (x # xs @ rest)) (f x) (\<lambda>_. budget M (xs @ rest)) (\<lambda>_. budget M (xs @ rest))"
      using assms(1) [of x] by (simp add: spends_def)
    from hoare_attempt [OF this] show ?thesis by (rule hoare_weaken) (auto split: sum.splits)
  qed
  have second: "hoare (budget M (xs @ rest)) (attempt_act (g x)) (\<lambda>_. budget M (xs @ rest)) (\<lambda>_. budget M rest)" for M rest
    by (rule quiet_before, rule quietI, rule keeps_attempt) (use assms(2) in \<open>simp add: quiet_def\<close>)
  have tail: "hoare (budget M (xs @ rest)) (counted_loop f g (Suc n) xs) (\<lambda>_. budget M rest) (\<lambda>_. budget M rest)" for M rest
    using Cons.IH by (simp add: spends_def)
  show ?case unfolding spends_def counted_loop.simps
    by (intro allI hoare_bind [OF first])
      (auto split: sum.split intro!: stop hoare_bind [OF second] tail)
qed

lemma spends_ack_all: "spends raws (ack_all L E c raws)"
  unfolding ack_all_def
  by (intro spends_bind_quiet spends_counted_loop spends_ack_one) (auto intro!: quietI keeps_rules)

lemma spends_term_all: "spends raws (term_all L E c raws)"
  unfolding term_all_def
  by (intro quiet_then_spends spends_bind_quiet spends_counted_loop spends_term_one) (auto intro!: quietI keeps_rules)

lemma spends_settle_dead_lettered: "spends raws (settle_dead_lettered L E dl c raws)"
  unfolding settle_dead_lettered_def
  by (intro spends_if spends_then_quiet spends_term_all spends_ack_all quietI keeps_rules)

lemma spends_handle_permanent_failure: "spends raws (handle_permanent_failure L E js dl c raws es err)"
  unfolding handle_permanent_failure_def
  by (intro quiet_then_spends spends_if spends_settle_dead_lettered) (auto intro!: spends_quiet quietI keeps_rules)

lemma spends_handle_policy_rejections: "spends raws (handle_policy_rejections L E js dl c raws es err)"
  unfolding handle_policy_rejections_def
  by (intro quiet_then_spends spends_if spends_settle_dead_lettered) (auto intro!: spends_quiet quietI keeps_rules)

section \<open>The pipeline\<close>

definition aligned :: "batch \<Rightarrow> bool" where
  "aligned b \<longleftrightarrow> length (fst b) = length (snd b)"

text \<open>What a stage leaves: the messages of the batch it passes on have not been settled.\<close>

definition left_over :: "pyval multiset \<Rightarrow> batch option \<Rightarrow> trace \<Rightarrow> bool" where
  "left_over M r t \<longleftrightarrow> (case r of None \<Rightarrow> budget M [] t | Some b \<Rightarrow> budget M (fst b) t \<and> aligned b)"

definition leaves :: "pyval list \<Rightarrow> batch option act \<Rightarrow> bool" where
  "leaves raws m \<longleftrightarrow> (\<forall>M. hoare (budget M raws) m (left_over M) (\<lambda>_. budget M []))"

lemma budget_empty: "budget M raws t \<Longrightarrow> budget M [] t"
  by (erule budget_mono) simp

named_theorems leaves_rules \<open>what stages leave, through the combinators\<close>

lemma leaves_ret [leaves_rules]: "aligned b \<Longrightarrow> fst b = raws \<Longrightarrow> leaves raws (ret (Some b))" "leaves raws (ret None)"
  by (auto simp: leaves_def left_over_def intro!: hoare_ret intro: budget_empty)

lemma leaves_throw [leaves_rules]: "leaves raws (throw e)"
  by (auto simp: leaves_def intro!: hoare_throw intro: budget_empty)

lemma leaves_end [leaves_rules]:
  assumes "spends raws m" shows "leaves raws (then_act m (ret None))"
  unfolding leaves_def
proof
  fix M
  have "hoare (budget M raws) m (\<lambda>_. budget M []) (\<lambda>_. budget M [])"
    using assms unfolding spends_def by (metis append_Nil2)
  then show "hoare (budget M raws) (then_act m (ret None)) (left_over M) (\<lambda>_. budget M [])"
    by (rule hoare_then) (rule hoare_ret, simp add: left_over_def)
qed

lemma leaves_bind:
  assumes "\<And>I. calm I \<Longrightarrow> hoare I m (\<lambda>x t. I t \<and> Q x) (\<lambda>_. I)" "\<And>x. Q x \<Longrightarrow> leaves raws (f x)"
  shows "leaves raws (bind_act m f)"
  unfolding leaves_def
proof
  fix M
  have first: "hoare (budget M raws) m (\<lambda>x t. budget M raws t \<and> Q x) (\<lambda>_. budget M [])"
    using assms(1) [OF calm_budget [of M raws]] by (rule hoare_weaken) (auto intro: budget_empty)
  have rest: "hoare (\<lambda>t. budget M raws t \<and> Q x) (f x) (left_over M) (\<lambda>_. budget M [])" for x
    using assms(2) [of x] by (cases "Q x") (auto simp: leaves_def hoare_def)
  from first show "hoare (budget M raws) (bind_act m f) (left_over M) (\<lambda>_. budget M [])"
    by (rule hoare_bind) (rule rest)
qed

lemma leaves_then [leaves_rules]: "quiet m \<Longrightarrow> leaves raws n \<Longrightarrow> leaves raws (then_act m n)"
  unfolding then_act_def
  by (rule leaves_bind [where Q = "\<lambda>_. True"]) (auto dest: quiet_hoare)

lemma leaves_read_env [leaves_rules]: "(\<And>x. leaves raws (f x)) \<Longrightarrow> leaves raws (read_env g f)"
  unfolding leaves_def by (intro allI hoare_read_env) simp

lemma leaves_if [leaves_rules]: "(b \<Longrightarrow> leaves raws m) \<Longrightarrow> (\<not> b \<Longrightarrow> leaves raws n) \<Longrightarrow> leaves raws (if b then m else n)"
  by simp

text \<open>A handler that starts from an action without settlements.\<close>

lemma leaves_catch:
  assumes "\<And>I. calm I \<Longrightarrow> hoare I m (\<lambda>x t. I t \<and> pred_option (\<lambda>b. aligned b \<and> fst b = raws) x) (\<lambda>_. I)" "\<And>e. leaves raws (h e)"
  shows "leaves raws (catch m h)"
  unfolding leaves_def
proof
  fix M
  have "hoare (budget M raws) m (left_over M) (\<lambda>_. budget M raws)"
    using assms(1) [OF calm_budget [of M raws]]
    by (rule hoare_weaken) (auto simp: left_over_def intro: budget_empty split: option.splits)
  then show "hoare (budget M raws) (catch m h) (left_over M) (\<lambda>_. budget M [])"
    by (rule hoare_catch) (use assms(2) in \<open>simp add: leaves_def\<close>)
qed

lemma leaves_next:
  assumes "leaves raws m" "\<And>b. aligned b \<Longrightarrow> leaves (fst b) (stage b)"
  shows "leaves raws (next_stage stage m)"
  unfolding leaves_def next_stage_def
proof
  fix M
  have "hoare (left_over M x) (case x of None \<Rightarrow> ret None | Some b \<Rightarrow> stage b) (left_over M) (\<lambda>_. budget M [])" for x
    using assms(2) by (cases x) (auto simp: left_over_def leaves_def hoare_def ret_def)
  with assms(1) show "hoare (budget M raws) (bind_act m (\<lambda>x. case x of None \<Rightarrow> ret None | Some b \<Rightarrow> stage b)) (left_over M) (\<lambda>_. budget M [])"
    unfolding leaves_def by (blast intro: hoare_bind)
qed

lemma leaves_temporary [leaves_rules]: "leaves raws (temporary_stage_failure L E r raws' m)"
  unfolding temporary_stage_failure_def by (intro leaves_rules spends_quiet quietI keeps_rules)

lemma paired_aligned: "paired L b \<Longrightarrow> aligned b"
  by (simp add: paired_def aligned_def list_all2_lengthD)

lemma leaves_mapping_stage: "leaves raws (mapping_stage L E r raws)"
proof -
  have mapped: "hoare I (bind_act (map_messages L E mc mission labels raws) (\<lambda>es. then_act (observe_elapsed E m) (ret (Some (raws, es)))))
      (\<lambda>x t. I t \<and> pred_option (\<lambda>b. aligned b \<and> fst b = raws) x) (\<lambda>_. I)" if "calm I" for I mc mission labels m
  proof (rule hoare_bind [OF hoare_map_messages])
    fix es
    have "paired L (raws, es) \<Longrightarrow> aligned (raws, es)" by (rule paired_aligned)
    moreover have "keeps I (observe_elapsed E m)" using that by (intro keeps_rules)
    ultimately show "hoare (\<lambda>t. I t \<and> paired L (raws, es)) (then_act (observe_elapsed E m) (ret (Some (raws, es))))
        (\<lambda>x t. I t \<and> pred_option (\<lambda>b. aligned b \<and> fst b = raws) x) (\<lambda>_. I)"
      by (intro hoare_then [where M = "\<lambda>t. I t \<and> paired L (raws, es)"] hoare_ret) (auto simp: keeps_def hoare_def split: sum.splits)
  qed
  have remap: "hoare I (attempt_act (map_messages L E mc mission labels raws)) (\<lambda>x t. I t \<and> True) (\<lambda>_. I)"
    for I mc mission labels
    using hoare_remap by (rule hoare_weaken) auto
  show ?thesis unfolding mapping_stage_def
    by (intro leaves_catch mapped leaves_if leaves_then leaves_throw leaves_temporary leaves_bind [OF remap])
      (auto split: sum.split intro!: leaves_rules quietI keeps_rules spends_handle_permanent_failure)
qed

lemma leaves_guarded:
  assumes "\<And>x. computed = Inr x \<Longrightarrow> leaves (fst b) (continue x)"
  shows "leaves (fst b) (guarded_stage L E r b m computed continue)"
  using assms
  by (cases b; cases computed) (auto simp: guarded_stage_def intro!: leaves_rules spends_handle_policy_rejections)

lemma leaves_apply_rejections:
  assumes "mset (pick (fst b) (ev_accepted ev) @ pick (fst b) (ev_rejected ev)) = mset (fst b)" "aligned b"
    "length (pick (fst b) (ev_accepted ev)) = length (pick (snd b) (ev_accepted ev))"
  shows "leaves (fst b) (apply_rejections L E r b ev err)"
proof (cases "has_rejections ev")
  case False
  then show ?thesis using assms(2) by (cases b) (auto simp: apply_rejections_def intro!: leaves_rules)
next
  case True
  let ?acc = "pick (fst b) (ev_accepted ev)" and ?rej = "pick (fst b) (ev_rejected ev)"
  have reject: "hoare (budget M (fst b)) (handle_policy_rejections L E (rn_jetstream r) (rn_delivery r) (rn_dead_letter r)
      ?rej (pick (snd b) (ev_rejected ev)) err) (\<lambda>_. budget M ?acc) (\<lambda>_. budget M ?acc)" for M
  proof -
    have "budget M (?rej @ ?acc) = budget M (fst b)"
      using assms(1) by (auto simp: budget_def fun_eq_iff union_commute)
    then show ?thesis
      using spends_handle_policy_rejections [of ?rej L E "rn_jetstream r" "rn_delivery r" "rn_dead_letter r"
        "pick (snd b) (ev_rejected ev)" err]
      unfolding spends_def by metis
  qed
  have reject': "hoare (budget M (fst b)) (handle_policy_rejections L E (rn_jetstream r) (rn_delivery r) (rn_dead_letter r)
      ?rej (pick (snd b) (ev_rejected ev)) err) (\<lambda>_. budget M ?acc) (\<lambda>_. budget M [])" for M
    using reject by (rule hoare_weaken) (auto intro: budget_empty)
  have pass: "hoare (budget M ?acc) (if ?acc = [] then ret None else ret (Some (?acc, pick (snd b) (ev_accepted ev))))
      (left_over M) (\<lambda>_. budget M [])" for M
    using assms(3) by (auto simp: left_over_def aligned_def intro!: hoare_ret)
  have "hoare (budget M (fst b)) (apply_rejections L E r b ev err) (left_over M) (\<lambda>_. budget M [])" for M
    unfolding apply_rejections_def split_beta using True hoare_then [OF reject' [of M] pass [of M]] by simp
  then show ?thesis by (simp add: leaves_def)
qed

text \<open>Any gate, from its interface alone.\<close>

context batch_gate
begin

lemma leaves_gate:
  assumes "aligned b" "\<And>ev. quiet (update ev)"
  shows "leaves (fst b)
    (guarded_stage L E r b m (evaluate (snd b)) (\<lambda>ev. then_act (update ev) (apply_rejections L E r b ev (err ev))))"
proof (rule leaves_guarded)
  fix ev assume ev: "evaluate (snd b) = Inr ev"
  have "length (pick (fst b) (ev_accepted ev)) = length (pick (snd b) (ev_accepted ev))" by (simp add: pick_def)
  with split_mset [OF ev, of "fst b"] assms(1)
  show "leaves (fst b) (then_act (update ev) (apply_rejections L E r b ev (err ev)))"
    by (intro leaves_then assms(2) leaves_apply_rejections) (simp_all add: aligned_def)
qed

end

context batch_stage
begin

lemma stage_aligned: "aligned b \<Longrightarrow> stage (snd b) = Inr es \<Longrightarrow> aligned (fst b, es)"
  using stage_length by (simp add: aligned_def)

end

lemma leaves_authenticity_stage: "aligned b \<Longrightarrow> leaves (fst b) (authenticity_stage L E r b)"
  unfolding authenticity_stage_def
  by (auto split: option.split intro!: leaves_ret authenticity_gate.leaves_gate quietI keeps_rules)

lemma leaves_encryption_stage: "aligned b \<Longrightarrow> leaves (fst b) (encryption_stage L E r b)"
  unfolding encryption_stage_def
  by (auto split: option.split sum.split intro!: leaves_rules encryption.stage_aligned)

lemma leaves_size_stage: "aligned b \<Longrightarrow> leaves (fst b) (size_stage L E r b)"
  unfolding size_stage_def
  by (intro leaves_read_env size_gate.leaves_gate quietI keeps_if keeps_gate_metrics) auto

lemma leaves_policy_stage: "aligned b \<Longrightarrow> leaves (fst b) (policy_stage L E r b)"
  unfolding policy_stage_def
  by (intro policy_gate.leaves_gate quietI keeps_if keeps_gate_metrics) auto

lemma leaves_custody_stage: "aligned b \<Longrightarrow> leaves (fst b) (custody_stage L E r b)"
  unfolding custody_stage_def
  by (intro leaves_guarded leaves_ret custody.stage_aligned) auto

lemma hoare_lanes_length:
  assumes "calm I"
  shows "hoare I (priority_stage (Some E) st p es) (\<lambda>es' t. I t \<and> length es' = length es) (\<lambda>_. I)"
proof -
  have "length es' = length es" if "priority_stage (Some E) st p es t = (Inr es', t')" for es' t t'
    using priority.stage_length that by (metis fst_conv)
  moreover have "keeps I (priority_stage (Some E) st p es)" using assms by (rule keeps_rules)
  ultimately show ?thesis unfolding keeps_def hoare_def by (fastforce split: prod.splits sum.splits)
qed

lemma leaves_lane_stage:
  assumes "aligned b" shows "leaves (fst b) (lane_stage L E r b)"
proof -
  have lanes: "hoare I (bind_act (priority_stage (Some E) (l_str L) (dl_lanes (rn_delivery r)) (snd b)) (\<lambda>es. ret (Some (fst b, es))))
      (\<lambda>x t. I t \<and> pred_option (\<lambda>b'. aligned b' \<and> fst b' = fst b) x) (\<lambda>_. I)" if "calm I" for I
    using assms by (intro hoare_bind [OF hoare_lanes_length [OF that]] hoare_ret) (auto simp: aligned_def)
  show ?thesis unfolding lane_stage_def
    by (intro leaves_catch lanes leaves_if leaves_end leaves_throw spends_handle_permanent_failure)
qed

lemma leaves_prepare_batch: "leaves raws (prepare_batch L E r raws)"
  unfolding prepare_batch_def
  by (intro leaves_next leaves_lane_stage leaves_custody_stage leaves_policy_stage
      leaves_size_stage leaves_encryption_stage leaves_authenticity_stage leaves_mapping_stage)

lemma quiet_write_with_heartbeat: "quiet (write_with_heartbeat L E c raws es)"
proof (rule quietI)
  fix I assume "calm I"
  from hoare_write_with_heartbeat [OF this, of L E c raws es] show "keeps I (write_with_heartbeat L E c raws es)"
    unfolding keeps_def by (rule hoare_weaken) (auto simp: wrote_def split: option.splits)
qed

lemma spends_settle_success: "spends (fst b) (settle_success L E r b)"
proof -
  have clock: "spends raws (read_env g f)" if "\<And>x. spends raws (f x)" for raws g and f :: "datetime \<Rightarrow> unit act"
    using that by (simp add: spends_def hoare_read_env)
  show ?thesis unfolding settle_success_def split_beta
    by (intro clock quiet_then_spends spends_then_quiet spends_ack_all quietI keeps_rules)
qed

lemma spends_delivery_stage: "spends (fst b) (delivery_stage L E r b)"
proof (cases b)
  case (Pair raws es)
  show ?thesis unfolding delivery_stage_def Pair split_beta fst_conv snd_conv
  proof (intro quiet_then_spends quiet_bind_spends quiet_write_with_heartbeat)
    fix sink_error
    show "spends raws (case sink_error of
           None \<Rightarrow> settle_success L E r (raws, es)
         | Some err \<Rightarrow>
             if isinstance err PermanentSinkError
             then handle_permanent_failure L E (rn_jetstream r) (rn_delivery r) (rn_dead_letter r) raws es err
             else handle_temporary_failure L E (rn_delivery r) raws (Some ''sink_write_errors_total''))"
      using spends_settle_success [of "(raws, es)" L E r]
      by (auto split: option.split intro!: spends_handle_permanent_failure spends_quiet quietI keeps_rules)
  qed (auto intro!: quietI keeps_rules)
qed

text \<open>C2: a batch settles each of its messages at most once.  Whatever the client, the sink, the metrics
  recorder and the clocks do, the positive acknowledgements, confirmed acknowledgements and
  terminal acknowledgements sent while a batch is processed, taken together and with multiplicity,
  are among the client messages of that batch: none is settled twice and no other message is
  settled.\<close>

theorem batch_settles_at_most_once:
  "settled (snd (process_raw_batch L E r raws [])) \<subseteq># mset raws"
proof -
  let ?B = "budget (mset raws)"
  have "hoare (left_over (mset raws) b) (case b of None \<Rightarrow> ret () | Some b \<Rightarrow> delivery_stage L E r b) (\<lambda>_. ?B []) (\<lambda>_. ?B [])" for b
  proof (cases b)
    case (Some d)
    from spends_delivery_stage [of d L E r] have "hoare (?B (fst d)) (delivery_stage L E r d) (\<lambda>_. ?B []) (\<lambda>_. ?B [])"
      unfolding spends_def by (metis append_Nil2)
    then show ?thesis unfolding Some option.case by (rule hoare_weaken) (auto simp: left_over_def)
  qed (auto simp: left_over_def intro!: hoare_ret)
  with leaves_prepare_batch [of raws L E r]
  have main: "hoare (?B raws) (bind_act (prepare_batch L E r raws) (\<lambda>b. case b of None \<Rightarrow> ret () | Some b \<Rightarrow> delivery_stage L E r b))
      (\<lambda>_. ?B []) (\<lambda>_. ?B [])"
    unfolding leaves_def by (blast intro: hoare_bind)
  have metrics: "hoare (?B raws) (increment_metric E name n) (\<lambda>_. ?B raws) (\<lambda>_. ?B [])" for name n
    by (rule hoare_weaken [OF quiet_hoare [OF _ calm_budget [of "mset raws" raws]]])
      (auto intro: budget_empty intro!: quietI keeps_rules)
  have "hoare (?B raws) (process_raw_batch L E r raws) (\<lambda>_. ?B []) (\<lambda>_. ?B [])"
    unfolding process_raw_batch_def
    by (auto intro!: hoare_ret hoare_then [OF metrics] hoare_then [OF metrics] main)
  moreover have "?B raws []" by (simp add: budget_def)
  ultimately have "?B [] (snd (process_raw_batch L E r raws []))"
    by (cases "process_raw_batch L E r raws []") (auto simp: hoare_def split: prod.splits sum.splits)
  then show ?thesis by (simp add: budget_def)
qed

end
