(* ===== verification/Delivery.thy ===== *)
theory Delivery
  imports SettleOnce
begin

text \<open>
  What the runner does when nothing fails, and what the failure handlers do when something does:
  exact event sequences, up to metric updates.
\<close>

section \<open>Event sequences up to metrics\<close>

fun is_metric :: "event \<Rightarrow> bool" where
  "is_metric (Metric c out) = True"
| "is_metric ev = False"

definition calls :: "trace \<Rightarrow> trace" where
  "calls t = filter (\<lambda>ev. \<not> is_metric ev) t"

lemma calls_simps [simp]: "calls [] = []" "calls (t @ u) = calls t @ calls u"
  "calls (ev # t) = (if is_metric ev then calls t else ev # calls t)"
  by (simp_all add: calls_def)

text \<open>From every trace, \<open>m\<close> returns \<open>x\<close> having made exactly the calls \<open>cs\<close>.\<close>

definition does :: "'a act \<Rightarrow> 'a \<Rightarrow> trace \<Rightarrow> bool" where
  "does m x cs \<longleftrightarrow> (\<forall>t. \<exists>u. m t = (Inr x, t @ u) \<and> calls u = cs)"

named_theorems does_rules \<open>successful runs through the combinators\<close>

lemma does_ret [does_rules]: "does (ret x) x []"
  by (simp add: does_def ret_def)

lemma does_bind:
  assumes "does m x cs" "does (f x) y ds" shows "does (bind_act m f) y (cs @ ds)"
  unfolding does_def
proof
  fix t
  obtain u where u: "m t = (Inr x, t @ u)" "calls u = cs" using assms(1) by (auto simp: does_def)
  moreover obtain v where "f x (t @ u) = (Inr y, (t @ u) @ v)" "calls v = ds"
    using assms(2) unfolding does_def by blast
  ultimately show "\<exists>w. bind_act m f t = (Inr y, t @ w) \<and> calls w = cs @ ds"
    by (intro exI [where x = "u @ v"]) (simp add: bind_act_def)
qed

lemma does_then: "does m x cs \<Longrightarrow> does n y ds \<Longrightarrow> does (then_act m n) y (cs @ ds)"
  unfolding then_act_def by (rule does_bind)

lemma does_after [does_rules]: "does m x [] \<Longrightarrow> does n y ds \<Longrightarrow> does (then_act m n) y ds"
  using does_then [of m x "[]"] by simp

lemma does_bind_after: "does m x [] \<Longrightarrow> does (f x) y ds \<Longrightarrow> does (bind_act m f) y ds"
  using does_bind [of m x "[]"] by simp

lemma does_catch [does_rules]: "does m x cs \<Longrightarrow> does (catch m h) x cs"
  unfolding does_def by (erule all_forward) (auto simp: catch_def)

lemma does_attempt: "does m x cs \<Longrightarrow> does (attempt_act m) (Inr x) cs"
  unfolding does_def by (erule all_forward) (auto simp: attempt_act_def)

lemma does_perform: "(\<And>t. o' t = None) \<Longrightarrow> \<not> is_metric (ev None) \<Longrightarrow> does (perform o' ev) () [ev None]"
  by (simp add: does_def perform_def)

lemma does_for_each: "(\<And>x. x \<in> set xs \<Longrightarrow> does (f x) () (cs x)) \<Longrightarrow> does (for_each f xs) () (concat (map cs xs))"
  by (induction xs) (auto intro: does_ret does_then)

lemma does_read_env [does_rules]:
  assumes "\<And>z. does (f z) x cs" shows "does (read_env g f) x cs"
  using assms by (simp add: does_def read_env_def)

section \<open>An environment without failures\<close>

definition healthy_metrics :: "env \<Rightarrow> bool" where
  "healthy_metrics E \<longleftrightarrow> (\<forall>t c. en_metric E t c = None)"

lemma does_metric:
  assumes "healthy_metrics E" shows "does (metric E c) () []"
  using assms by (simp add: does_def metric_def perform_def healthy_metrics_def)

lemma does_metrics [does_rules]:
  assumes "healthy_metrics E"
  shows "does (increment_metric E name n) () []" "does (observe_metric E name x) () []"
    "does (set_metric_value E name x) () []" "does (observe_elapsed E name) () []"
proof -
  have all: "does (for_each (\<lambda>alias. metric E (c alias)) names) () []" for c :: "string \<Rightarrow> metric_call" and names
    by (induction names) (auto intro: does_ret does_after does_metric [OF assms])
  have obs: "does (observe_metric E name x) () []" for x
    unfolding observe_metric_def by (intro does_after [OF does_metric [OF assms]] all)
  then show "does (observe_metric E name x) () []" "does (observe_elapsed E name) () []"
    by (auto simp: observe_elapsed_def intro: does_read_env)
  show "does (increment_metric E name n) () []" "does (set_metric_value E name x) () []"
    unfolding increment_metric_def set_metric_value_def by (intro does_after [OF does_metric [OF assms]] all)+
qed

section \<open>Acknowledging and terminating\<close>

definition exposes :: "pylib \<Rightarrow> string \<Rightarrow> pyval \<Rightarrow> bool" where
  "exposes L name raw \<longleftrightarrow> (case l_getattr L raw name of Has f \<Rightarrow> f \<noteq> PNone | _ \<Rightarrow> False)"

lemma exposes_getattr: "exposes L name raw \<Longrightarrow> \<exists>f. l_getattr L raw name = Has f \<and> f \<noteq> PNone"
  by (auto simp: exposes_def split: attr.splits)

lemma does_standard_ack:
  assumes "exposes L ''ack'' raw" "\<forall>t raw. en_ack E t raw = None"
  shows "does (standard_ack L E raw) () [Ack raw None]"
  using exposes_getattr [OF assms(1)] assms(2) by (auto simp: standard_ack_def call_method_def intro!: does_perform)

lemma does_confirmed_ack:
  assumes "healthy_metrics E" "\<forall>t raw. en_ack_sync E t raw = None"
  shows "does (confirmed_ack E c raw) () [Ack_sync raw (of_int (akc_timeout_ms c) / 1000) None]"
proof -
  have "does (perform (\<lambda>t. en_ack_sync E t raw) (Ack_sync raw x)) () [Ack_sync raw x None]" for x
    using assms(2) by (intro does_perform) auto
  then have "does (then_act (catch (perform (\<lambda>t. en_ack_sync E t raw) (Ack_sync raw x)) h)
      (then_act (observe_elapsed E m) (increment_metric E m' 1))) () ([Ack_sync raw x None] @ [])" for x h m m'
    by (intro does_then [where x = "()"] does_after [where x = "()"] does_catch does_metrics assms)
  then show ?thesis
    unfolding confirmed_ack_def append_Nil2 by (rule does_after [where x = "()", OF does_metrics(1) [OF assms(1)]])
qed

definition acknowledgement :: "ack_confirmation_config \<Rightarrow> pyval \<Rightarrow> event" where
  "acknowledgement c raw =
     (if akc_enabled c then Ack_sync raw (of_int (akc_timeout_ms c) / 1000) None else Ack raw None)"

lemma acknowledgement_calls [simp]: "\<not> is_metric (acknowledgement c raw)" "settles (acknowledgement c raw)"
  by (simp_all add: acknowledgement_def)

definition acknowledges :: "pylib \<Rightarrow> env \<Rightarrow> ack_confirmation_config \<Rightarrow> pyval list \<Rightarrow> bool" where
  "acknowledges L E c raws \<longleftrightarrow> (\<forall>t raw. en_ack E t raw = None) \<and> (\<forall>t raw. en_ack_sync E t raw = None)
     \<and> list_all (exposes L (if akc_enabled c then ''ack_sync'' else ''ack'')) raws"

lemma does_ack_one:
  assumes "healthy_metrics E" "acknowledges L E c raws" "raw \<in> set raws"
  shows "does (ack_one L E c raw) () [acknowledgement c raw]"
proof -
  from assms(2,3) have "exposes L (if akc_enabled c then ''ack_sync'' else ''ack'') raw"
    and ok: "\<forall>t raw. en_ack E t raw = None" "\<forall>t raw. en_ack_sync E t raw = None"
    by (simp_all add: acknowledges_def list_all_iff)
  show ?thesis
  proof (cases "akc_enabled c")
    case False
    then show ?thesis
      using does_standard_ack [OF _ ok(1)] \<open>exposes L _ raw\<close> by (simp add: ack_one_def acknowledgement_def)
  next
    case True
    then obtain f where "l_getattr L raw ''ack_sync'' = Has f" "f \<noteq> PNone"
      using exposes_getattr \<open>exposes L _ raw\<close> by fastforce
    then have "ack_one L E c raw = confirmed_ack E c raw"
      using True by (simp add: ack_one_def getattr_default_def bind_act_def lift_res_def fun_eq_iff)
    then show ?thesis using True does_confirmed_ack [OF assms(1) ok(2)] by (simp add: acknowledgement_def)
  qed
qed

lemma does_counted_loop:
  assumes "\<And>x. x \<in> set xs \<Longrightarrow> does (f x) () [c x]" "\<And>x. does (g x) () []"
  shows "does (counted_loop f g n xs) (n + length xs, None) (map c xs)"
  using assms
proof (induction xs arbitrary: n)
  case Nil
  show ?case by (simp add: does_ret)
next
  case (Cons x xs)
  have IH: "does (counted_loop f g (Suc n) xs) (n + length (x # xs), None) (map c xs)"
    using Cons.IH [of "Suc n"] Cons.prems by simp
  have "does (bind_act (attempt_act (g x)) (\<lambda>r. case r of
        Inl err \<Rightarrow> if isinstance err PyException then ret (Suc n, Some err) else throw err
      | Inr _ \<Rightarrow> counted_loop f g (Suc n) xs)) (n + length (x # xs), None) (map c xs)"
    using IH by (intro does_bind_after [OF does_attempt [OF Cons.prems(2)]]) simp
  then have "does (counted_loop f g n (x # xs)) (n + length (x # xs), None) ([c x] @ map c xs)"
    unfolding counted_loop.simps
    by (intro does_bind [OF does_attempt [OF Cons.prems(1)]]) (simp_all only: sum.case list.set_intros)
  then show ?case by simp
qed

lemma does_ack_all:
  assumes "healthy_metrics E" "acknowledges L E c raws"
  shows "does (ack_all L E c raws) () (map (acknowledgement c) raws)"
proof -
  have "does (counted_loop (ack_one L E c) (\<lambda>_. ret ()) 0 raws) (0 + length raws, None) (map (acknowledgement c) raws)"
    by (intro does_counted_loop does_ack_one [OF assms] does_ret)
  from does_bind [OF this, of _ "()" "[]"] show ?thesis unfolding ack_all_def by (simp add: does_ret)
qed

section \<open>Delivering a batch\<close>

text \<open>A runner with every optional feature that acts on the batch switched off.\<close>

definition plain_runner :: "runner \<Rightarrow> bool" where
  "plain_runner r \<longleftrightarrow>
     rn_authenticator r = None \<and> rn_transformer r = None \<and> \<not> sz_enabled (rn_size r) \<and> \<not> pp_enabled (rn_policy r)
     \<and> \<not> cu_enabled (rn_custody r) \<and> \<not> pc_enabled (lane_config (dl_lanes (rn_delivery r)))
     \<and> \<not> ip_enabled (dl_in_progress (rn_delivery r)) \<and> \<not> rn_freshness_enabled r
     \<and> \<not> mm_enabled (rn_mission r) \<and> \<not> slc_enabled (rn_labels r)"

lemma does_write:
  assumes "\<forall>t es. en_write E t es = None" "\<not> ip_enabled c"
  shows "does (write_with_heartbeat L E c raws es) None [Sink_write es None]"
proof -
  have "does (attempt_act (sink_write E es)) (Inr ()) [Sink_write es None]"
    unfolding sink_write_def using assms(1) by (intro does_attempt does_perform) auto
  from does_bind [OF this, of "\<lambda>w. case w of Inr _ \<Rightarrow> ret None
      | Inl err \<Rightarrow> if isinstance err PyException then ret (Some err) else throw err" None "[]"] assms(2)
  show ?thesis unfolding write_with_heartbeat_def Let_def by (simp add: does_ret)
qed

lemma does_settle_success:
  assumes "healthy_metrics E" "acknowledges L E (dl_ack (rn_delivery r)) raws" "\<not> rn_freshness_enabled r"
  shows "does (settle_success L E r (raws, es)) () (map (acknowledgement (dl_ack (rn_delivery r))) raws)"
proof -
  have tail: "does (then_act (observe_elapsed E ''message_ack_seconds'')
         (then_act (increment_metric E ''messages_acked_total'' (length raws))
           (read_env (en_elapsed E) (set_metric_value E ''last_sink_success_epoch_seconds'')))) () []"
    by (intro does_after [where x = "()"] does_metrics does_read_env assms)
  have fresh: "does (record_event_freshness_metrics L E es stored_at (rn_freshness_enabled r) stale tol) () []" for stored_at stale tol
    using assms(3) by (simp add: record_event_freshness_metrics_def does_ret)
  note main = does_then [OF does_ack_all [OF assms(1,2)] tail, unfolded append_Nil2]
  show ?thesis unfolding settle_success_def prod.case
    by (intro main does_read_env does_after [where x = "()"] fresh does_metrics assms(1))
qed

lemma does_delivery_stage:
  assumes "healthy_metrics E" "acknowledges L E (dl_ack (rn_delivery r)) raws" "\<forall>t es. en_write E t es = None"
    "\<not> rn_freshness_enabled r" "\<not> ip_enabled (dl_in_progress (rn_delivery r))"
  shows "does (delivery_stage L E r (raws, es)) () (Sink_write es None # map (acknowledgement (dl_ack (rn_delivery r))) raws)"
proof -
  have "does (settle_success L E r (raws, es)) () (map (acknowledgement (dl_ack (rn_delivery r))) raws)"
    by (rule does_settle_success [OF assms(1,2,4)])
  then have "does (bind_act (write_with_heartbeat L E (dl_in_progress (rn_delivery r)) raws es) (\<lambda>sink_error.
         case sink_error of
           None \<Rightarrow> settle_success L E r (raws, es)
         | Some err \<Rightarrow> h err)) () ([Sink_write es None] @ map (acknowledgement (dl_ack (rn_delivery r))) raws)" for h
    by (intro does_bind [OF does_write [OF assms(3,5)]]) simp
  then show ?thesis unfolding delivery_stage_def prod.case
    by (intro does_after [where x = "()"] does_metrics assms(1)) simp
qed

text \<open>The stages of a plain runner pass the batch on.\<close>

lemma apply_no_rejections: "apply_rejections L E r b (accept_all es) err = ret (Some b)"
  by (cases b) (simp add: apply_rejections_def has_rejections_def accept_all_def)

lemma does_plain_stages:
  assumes "plain_runner r"
  shows "does (authenticity_stage L E r b) (Some b) []" "does (encryption_stage L E r b) (Some b) []"
    "does (size_stage L E r b) (Some b) []" "does (policy_stage L E r b) (Some b) []"
    "does (custody_stage L E r b) (Some b) []" "does (lane_stage L E r b) (Some b) []"
proof -
  have lanes: "does (priority_stage (Some E) st p es) es []" if "\<not> pc_enabled (lane_config p)" for st p es
    using that by (cases "es = []") (simp_all add: priority_stage_def order_by_priority_lanes_def does_ret)
  show "does (authenticity_stage L E r b) (Some b) []" "does (encryption_stage L E r b) (Some b) []"
    using assms by (simp_all add: plain_runner_def authenticity_stage_def encryption_stage_def does_ret)
  show "does (size_stage L E r b) (Some b) []" unfolding size_stage_def
    using assms by (intro does_read_env)
      (cases b, simp add: plain_runner_def guarded_stage_def evaluate_size_policy_def loop_gate_def apply_no_rejections does_after [OF does_ret] does_ret)
  show "does (policy_stage L E r b) (Some b) []"
    using assms by (cases b) (simp add: plain_runner_def policy_stage_def guarded_stage_def evaluate_pre_sink_policy_def loop_gate_def apply_no_rejections does_after [OF does_ret] does_ret)
  show "does (custody_stage L E r b) (Some b) []"
    using assms by (cases b) (simp add: plain_runner_def custody_stage_def guarded_stage_def attach_custody_metadata_def does_ret)
  show "does (lane_stage L E r b) (Some b) []" unfolding lane_stage_def
    using assms by (intro does_catch does_bind_after [OF lanes]) (simp_all add: plain_runner_def does_ret)
qed

lemma does_next: "does m (Some b) [] \<Longrightarrow> does (stage b) (Some b') [] \<Longrightarrow> does (next_stage stage m) (Some b') []"
  unfolding next_stage_def by (rule does_bind_after [where x = "Some b"]) simp_all

text \<open>The same for one trace, where the readings of the clock are known.\<close>

definition runs :: "'a act \<Rightarrow> trace \<Rightarrow> 'a \<Rightarrow> trace \<Rightarrow> bool" where
  "runs m t x cs \<longleftrightarrow> (\<exists>u. m t = (Inr x, t @ u) \<and> calls u = cs)"

lemma runs_does: "does m x cs \<Longrightarrow> runs m t x cs"
  by (simp add: does_def runs_def)

lemma runs_bind: "runs m t x cs \<Longrightarrow> does (f x) y ds \<Longrightarrow> runs (bind_act m f) t y (cs @ ds)"
  unfolding runs_def
proof (elim exE conjE)
  fix u assume u: "m t = (Inr x, t @ u)" "calls u = cs" and "does (f x) y ds"
  then obtain v where "f x (t @ u) = (Inr y, (t @ u) @ v)" "calls v = ds" unfolding does_def by blast
  with u show "\<exists>w. bind_act m f t = (Inr y, t @ w) \<and> calls w = cs @ ds"
    by (intro exI [where x = "u @ v"]) (simp add: bind_act_def)
qed

lemma runs_next:
  assumes "runs m t (Some b) []" "does (stage b) (Some b') []"
  shows "runs (next_stage stage m) t (Some b') []"
  unfolding next_stage_def
  using runs_bind [OF assms(1), of "\<lambda>x. case x of None \<Rightarrow> ret None | Some b \<Rightarrow> stage b" "Some b'" "[]"] assms(2) by simp

lemma rmapM_all_Inr: "(\<And>x. x \<in> set xs \<Longrightarrow> \<exists>y. f x = Inr y) \<Longrightarrow> \<exists>ys. rmapM f xs = Inr ys"
proof (induction xs)
  case (Cons x xs)
  then obtain y ys where "f x = Inr y" "rmapM f xs = Inr ys" by (metis list.set_intros)
  then show ?case by simp
qed simp

lemma runs_catch: "runs m t x cs \<Longrightarrow> runs (catch m h) t x cs"
  unfolding runs_def by (erule ex_forward) (simp add: catch_def)

lemma runs_mapping_stage:
  assumes "plain_runner r" "tolerable L" "healthy_metrics E"
  shows "\<exists>es. paired L (raws, es) \<and> runs (mapping_stage L E r raws) t (Some (raws, es)) []"
proof -
  let ?map = "\<lambda>(i, raw). envelope_from_nats_message L (en_now E t i) (rn_message_metadata r) (rn_mission r) (rn_labels r) raw"
  have "\<exists>es. rmapM ?map (enumerate 0 raws) = Inr es"
    using adapter_returns [OF assms(2)] assms(1) by (intro rmapM_all_Inr) (fastforce simp: plain_runner_def)
  then obtain es where es: "rmapM ?map (enumerate 0 raws) = Inr es" by blast
  then have "runs (map_messages L E (rn_message_metadata r) (rn_mission r) (rn_labels r) raws) t es []"
    by (auto simp: runs_def map_messages_def read_env_def lift_res_def)
  moreover have "does (then_act (observe_elapsed E m) (ret (Some (raws, es)))) (Some (raws, es)) []" for m
    by (intro does_after [where x = "()"] does_metrics does_ret assms(3))
  ultimately have "runs (bind_act (map_messages L E (rn_message_metadata r) (rn_mission r) (rn_labels r) raws)
      (\<lambda>es. then_act (observe_elapsed E m) (ret (Some (raws, es))))) t (Some (raws, es)) []" for m
    using runs_bind by fastforce
  then have "runs (mapping_stage L E r raws) t (Some (raws, es)) []"
    unfolding mapping_stage_def by (rule runs_catch)
  with mapped_paired [OF es] show ?thesis by blast
qed

lemma runs_prepare_batch:
  assumes "plain_runner r" "tolerable L" "healthy_metrics E"
  shows "\<exists>es. paired L (raws, es) \<and> runs (prepare_batch L E r raws) t (Some (raws, es)) []"
proof -
  obtain es where es: "paired L (raws, es)" "runs (mapping_stage L E r raws) t (Some (raws, es)) []"
    using runs_mapping_stage [OF assms] by blast
  have "runs (prepare_batch L E r raws) t (Some (raws, es)) []"
    unfolding prepare_batch_def by (intro runs_next [OF _ does_plain_stages(6)] runs_next [OF _ does_plain_stages(5)]
      runs_next [OF _ does_plain_stages(4)] runs_next [OF _ does_plain_stages(3)] runs_next [OF _ does_plain_stages(2)]
      runs_next [OF _ does_plain_stages(1)] es(2) assms(1))
  with es(1) show ?thesis by blast
qed

lemma runs_process_raw_batch:
  assumes "plain_runner r" "tolerable L" "healthy_metrics E" "\<forall>t es. en_write E t es = None"
    "acknowledges L E (dl_ack (rn_delivery r)) raws" "raws \<noteq> []"
  shows "\<exists>es. paired L (raws, es) \<and>
    runs (process_raw_batch L E r raws) t () (Sink_write es None # map (acknowledgement (dl_ack (rn_delivery r))) raws)"
proof -
  obtain u where u: "then_act (increment_metric E ''messages_fetched_total'' (length raws))
      (increment_metric E ''batches_fetched_total'' 1) t = (Inr (), t @ u)" "calls u = []"
    using does_after [OF does_metrics(1) [OF assms(3)] does_metrics(1) [OF assms(3)]] unfolding does_def by blast
  obtain es where es: "paired L (raws, es)" "runs (prepare_batch L E r raws) (t @ u) (Some (raws, es)) []"
    using runs_prepare_batch [OF assms(1-3)] by blast
  have "does (delivery_stage L E r (raws, es)) () (Sink_write es None # map (acknowledgement (dl_ack (rn_delivery r))) raws)"
    using assms(1) by (intro does_delivery_stage assms) (simp_all add: plain_runner_def)
  from runs_bind [OF es(2), of "\<lambda>b. case b of None \<Rightarrow> ret () | Some b \<Rightarrow> delivery_stage L E r b", simplified, OF this]
  have "runs (process_raw_batch L E r raws) t () (Sink_write es None # map (acknowledgement (dl_ack (rn_delivery r))) raws)"
    using u assms(6) by (auto simp: process_raw_batch_def runs_def then_act_def bind_act_def split: prod.splits sum.splits)
  with es(1) show ?thesis by blast
qed

section \<open>Properties of a batch\<close>

text \<open>C12: a healthy batch is delivered and then acknowledged, message by message.  With the optional
  stages switched off, a client whose attributes raise at most ordinary exceptions, and calls that
  succeed, processing returns normally; apart from metric updates the events are exactly one sink
  write and then one acknowledgement per client message, in the order of the batch (confirmed
  acknowledgements when these are configured); and the written envelopes carry the coordinates of
  the client messages position by position.\<close>

theorem healthy_batch_delivered:
  assumes "plain_runner r" "tolerable L" "healthy_metrics E" "\<forall>t es. en_write E t es = None"
    "acknowledges L E (dl_ack (rn_delivery r)) raws" "raws \<noteq> []"
  shows "\<exists>es u. process_raw_batch L E r raws t = (Inr (), t @ u)
    \<and> calls u = Sink_write es None # map (acknowledgement (dl_ack (rn_delivery r))) raws
    \<and> map (raw_delivery L) raws = map (Inr \<circ> delivery) es"
proof -
  have same: "paired L (raws, es) \<Longrightarrow> map (raw_delivery L) raws = map (Inr \<circ> delivery) es" for es
    by (simp add: paired_def list_all2_conv_all_nth list_eq_iff_nth_eq)
  from runs_process_raw_batch [OF assms, of t] show ?thesis unfolding runs_def using same by blast
qed

text \<open>C1: nothing is acknowledged before it is safe.  Whenever an acknowledgement or a confirmed
  acknowledgement of a client message is sent while a batch is processed, a sink write containing the
  message's coordinates has returned successfully before, or dead letters are enabled and the dead
  letter of a message with these coordinates has been published to the configured subject; a
  terminal acknowledgement is sent only after the dead letter.  This holds whatever the client, the
  sink, the metrics recorder and the clocks do, and however processing ends.\<close>

theorem commit_then_acknowledge:
  assumes "snd (process_raw_batch L E r raws []) = before @ ev # after" "ev \<in> {Ack raw out, Ack_sync raw timeout out, Term raw out}"
  shows "\<exists>d. raw_delivery L raw = Inr d \<and>
    (committed before d \<and> ev \<noteq> Term raw out \<or> dead_lettered L (rn_dead_letter r) before d)"
proof -
  have "commit_then_ack L (rn_dead_letter r) (snd (process_raw_batch L E r raws []))"
    using keeps_process_raw_batch by (auto simp: keeps_iff)
  then have "justified L (rn_dead_letter r) before ev" unfolding assms(1) by (rule commit_then_ack_split)
  then show ?thesis using assms(2) by (auto simp: saved_def buried_def split: sum.splits)
qed

definition quiet_env :: env where
  "quiet_env =
     \<lparr>en_metric = \<lambda>_ _. None, en_write = \<lambda>_ _. None, en_publish = \<lambda>_ _ _ _. None, en_ack = \<lambda>_ _. None,
      en_ack_sync = \<lambda>_ _. None, en_term = \<lambda>_ _. None, en_nak = \<lambda>_ _. None, en_in_progress = \<lambda>_ _. None,
      en_now = \<lambda>_ _. Aware 0 0, en_elapsed = \<lambda>_. 0, en_jitter = \<lambda>_. FFin 0, en_nonce = \<lambda>_ _. [],
      en_heartbeats = \<lambda>_. 0, en_late_heartbeats = \<lambda>_. 0, en_heartbeat_cut = \<lambda>_. None\<rparr>"

text \<open>A client whose messages can be acknowledged, on top of the hostile client of the adapter.\<close>

definition acking_lib :: pylib where
  "acking_lib = client_lib\<lparr>l_getattr := (\<lambda>obj name.
     if obj = PObj 0 \<and> name \<in> {''ack'', ''term'', ''nak''} then Has (PObj 9) else l_getattr client_lib obj name)\<rparr>"

lift_definition single_lane :: lane_policy is
  "\<lparr>pc_enabled = False, pc_default_lane = ''bulk'', pc_reject_unknown = False, pc_max_length = 64,
    pc_lanes = [\<lparr>pl_name = ''bulk'', pl_priorities = [], pl_weight = 1\<rparr>]\<rparr>"
  by (simp add: lanes_valid_def validate_lane_policy_def)

definition sample_delivery :: delivery_config where
  "sample_delivery =
     \<lparr>dl_batch_size = 100, dl_batch_timeout_ms = 1000,
      dl_retry = \<lparr>max_retries = 3, backoff_ms = 100, max_backoff_ms = 1000, backoff_mode = Linear,
        backoff_multiplier = FFin 2, jitter = NoJitter\<rparr>,
      dl_nak = True, dl_lanes = single_lane,
      dl_in_progress = \<lparr>ip_enabled = False, ip_interval_ms = 1000, ip_max_heartbeats = 10, ip_shutdown_timeout_ms = 100\<rparr>,
      dl_ack = \<lparr>akc_enabled = False, akc_timeout_ms = 1000, akc_standard_ack = False\<rparr>\<rparr>"

definition sample_dead_letter :: dead_letter_config where
  "sample_dead_letter =
     \<lparr>dlc_enabled = True, dlc_subject = Some ''dlq.orders'',
      dlc_options = \<lparr>dlo_include_payload = True, dlo_include_headers = True, dlo_include_error = True\<rparr>, dlc_ack_term = True\<rparr>"

definition sample_runner :: runner where
  "sample_runner =
     \<lparr>rn_delivery = sample_delivery, rn_dead_letter = sample_dead_letter, rn_message_metadata = plain_metadata_config,
      rn_mission = default_mission_config, rn_labels = default_label_config, rn_authenticator = None, rn_transformer = None,
      rn_size = sample_size_config\<lparr>sz_enabled := False\<rparr>,
      rn_policy = \<lparr>pp_enabled = False, pp_reject_unmatched = False, pp_rules = []\<rparr>,
      rn_custody = \<lparr>cu_enabled = False, cu_algorithm = ''sha256'', cu_key_id = PNone, cu_max_hash_input_bytes = 0,
        cu_hash_payload = True, cu_hash_metadata = True, cu_include_previous_hash = False, cu_previous_hash_header = ''P''\<rparr>,
      rn_jetstream = True, rn_freshness_enabled = False, rn_stale_after = None, rn_skew_tolerance = 0\<rparr>"

lemma single_lane_disabled: "\<not> pc_enabled (lane_config single_lane)"
  by transfer simp

lemma sample_runner_plain: "plain_runner sample_runner"
  unfolding plain_runner_def sample_runner_def sample_delivery_def default_mission_config_def default_label_config_def
  by (simp add: single_lane_disabled)

lemma acking_lib_tolerable: "tolerable acking_lib"
  using client_lib_tolerable by (simp add: tolerable_def acking_lib_def)

lemma quiet_env_healthy: "healthy_metrics quiet_env"
  by (simp add: healthy_metrics_def quiet_env_def)

lemma sample_acknowledges: "acknowledges acking_lib quiet_env (dl_ack (rn_delivery sample_runner)) [PObj 0]"
  by (simp add: acknowledges_def quiet_env_def sample_runner_def sample_delivery_def exposes_def acking_lib_def)

lemma healthy_batch_delivered_witness:
  "\<exists>es u. process_raw_batch acking_lib quiet_env sample_runner [PObj 0] [] = (Inr (), u)
    \<and> calls u = [Sink_write es None, Ack (PObj 0) None] \<and> [raw_delivery acking_lib (PObj 0)] = map (Inr \<circ> delivery) es"
proof -
  have "\<forall>t es. en_write quiet_env t es = None" by (simp add: quiet_env_def)
  then show ?thesis
    using healthy_batch_delivered [OF sample_runner_plain acking_lib_tolerable quiet_env_healthy _ sample_acknowledges, of "[]"]
    by (simp add: acknowledgement_def sample_runner_def sample_delivery_def)
qed

lemma commit_then_acknowledge_witness:
  "\<exists>before after. snd (process_raw_batch acking_lib quiet_env sample_runner [PObj 0] []) = before @ Ack (PObj 0) None # after
    \<and> (\<exists>d. raw_delivery acking_lib (PObj 0) = Inr d
        \<and> (committed before d \<or> dead_lettered acking_lib (rn_dead_letter sample_runner) before d))"
proof -
  have "\<forall>t es. en_write quiet_env t es = None" by (simp add: quiet_env_def)
  from runs_process_raw_batch [OF sample_runner_plain acking_lib_tolerable quiet_env_healthy this sample_acknowledges, of "[]"]
  obtain es u where "process_raw_batch acking_lib quiet_env sample_runner [PObj 0] [] = (Inr (), u)"
    and u: "calls u = [Sink_write es None, Ack (PObj 0) None]"
    by (auto simp: runs_def acknowledgement_def sample_runner_def sample_delivery_def)
  moreover have "Ack (PObj 0) None \<in> set (calls u)" by (simp add: u)
  then obtain before after where "u = before @ Ack (PObj 0) None # after"
    by (auto simp: calls_def dest: split_list)
  ultimately have run: "snd (process_raw_batch acking_lib quiet_env sample_runner [PObj 0] []) = before @ Ack (PObj 0) None # after"
    by simp
  from commit_then_acknowledge [OF run, of "PObj 0" None 0] show ?thesis using run by blast
qed

end
