(* ===== verification/FailureHandling.thy ===== *)
theory FailureHandling
  imports Delivery
begin

text \<open>
  The failure handlers of the runner: dead letters are published for a whole batch before any message
  of it is settled, and temporary failures settle nothing.
\<close>

section \<open>Dead letters come first\<close>

text \<open>The dead letters of all envelopes are among the events, published to the configured subject.\<close>

definition all_published :: "pylib \<Rightarrow> dead_letter_config \<Rightarrow> exn \<Rightarrow> nats_envelope list \<Rightarrow> trace \<Rightarrow> bool" where
  "all_published L c err es u \<longleftrightarrow>
     (\<forall>e\<in>set es. \<exists>subject payload hs. dlc_subject c = Some subject
       \<and> build_dead_letter_payload L e err (dlc_options c) = Inr payload \<and> Publish subject payload hs None \<in> set u)"

lemma all_published_append: "all_published L c err es u \<Longrightarrow> all_published L c err es (u @ v)"
  unfolding all_published_def set_append by blast

lemma all_published_Un: "all_published L c err (es @ es') u \<longleftrightarrow> all_published L c err es u \<and> all_published L c err es' u"
  unfolding all_published_def set_append by blast

fun settles_after :: "(trace \<Rightarrow> bool) \<Rightarrow> trace \<Rightarrow> trace \<Rightarrow> bool" where
  "settles_after P past [] = True"
| "settles_after P past (ev # evs) = ((settles ev \<longrightarrow> P past) \<and> settles_after P (past @ [ev]) evs)"

lemma settles_after_append:
  "settles_after P past (u @ v) \<longleftrightarrow> settles_after P past u \<and> settles_after P (past @ u) v"
  by (induction u arbitrary: past) auto

text \<open>The events added to \<open>t0\<close> settle messages only once \<open>P\<close> holds of the added events before them.\<close>

definition settles_later :: "(trace \<Rightarrow> bool) \<Rightarrow> trace \<Rightarrow> trace \<Rightarrow> bool" where
  "settles_later P t0 t \<longleftrightarrow> (\<exists>u. t = t0 @ u \<and> settles_after P [] u)"

definition settles_now :: "(trace \<Rightarrow> bool) \<Rightarrow> trace \<Rightarrow> trace \<Rightarrow> bool" where
  "settles_now P t0 t \<longleftrightarrow> (\<exists>u. t = t0 @ u \<and> settles_after P [] u \<and> P u)"

lemma settles_now_later: "settles_now P t0 t \<Longrightarrow> settles_later P t0 t"
  by (auto simp: settles_now_def settles_later_def)

lemma calm_settles_later: "calm (settles_later P t0)"
proof -
  have "settles_later P t0 (t @ [ev])" if "settles_later P t0 t" "\<not> settles ev" for t ev
  proof -
    from that(1) obtain u where "t = t0 @ u" "settles_after P [] u" by (auto simp: settles_later_def)
    with that(2) show ?thesis unfolding settles_later_def
      by (intro exI [where x = "u @ [ev]"]) (simp add: settles_after_append)
  qed
  then show ?thesis by (auto simp: calm_def)
qed

lemma closed_settles_now:
  assumes "\<And>u v. P u \<Longrightarrow> P (u @ v)"
  shows "ack_closed (settles_now P t0) raws" "term_closed (settles_now P t0) raws"
proof -
  have "settles_now P t0 (t @ [ev])" if "settles_now P t0 t" for t ev
  proof -
    from that obtain u where "t = t0 @ u" "settles_after P [] u" "P u" by (auto simp: settles_now_def)
    with assms show ?thesis unfolding settles_now_def
      by (intro exI [where x = "u @ [ev]"]) (simp add: settles_after_append)
  qed
  then show "ack_closed (settles_now P t0) raws" "term_closed (settles_now P t0) raws"
    by (auto simp: ack_closed_def term_closed_def calm_def)
qed

lemma keeps_settle_closed:
  assumes "ack_closed I raws" "term_closed I raws" shows "keeps I (settle_dead_lettered L E dl c raws)"
proof -
  have "calm I" using assms(1) by (simp add: ack_closed_def)
  then show ?thesis unfolding settle_dead_lettered_def
    by (intro keeps_rules keeps_term_all keeps_ack_all assms)
qed

text \<open>No message has been settled since \<open>t0\<close>.\<close>

definition unsettled :: "(trace \<Rightarrow> bool) \<Rightarrow> trace \<Rightarrow> trace \<Rightarrow> bool" where
  "unsettled P t0 t \<longleftrightarrow> (\<exists>u. t = t0 @ u \<and> list_all (\<lambda>ev. \<not> settles ev) u \<and> P u)"

lemma unsettled_snoc: "unsettled P t0 t \<Longrightarrow> \<not> settles ev \<Longrightarrow> (\<And>u. P u \<Longrightarrow> Q (u @ [ev])) \<Longrightarrow> unsettled Q t0 (t @ [ev])"
  unfolding unsettled_def by (elim exE conjE) (rule exI, auto)

lemma unsettled_mono: "unsettled P t0 t \<Longrightarrow> (\<And>u. P u \<Longrightarrow> Q u) \<Longrightarrow> unsettled Q t0 t"
  unfolding unsettled_def by blast

lemma unsettled_now: "unsettled P t0 t \<Longrightarrow> settles_now P t0 t"
proof -
  have "list_all (\<lambda>ev. \<not> settles ev) u \<Longrightarrow> settles_after P past u" for u past
    by (induction u arbitrary: past) auto
  then show "unsettled P t0 t \<Longrightarrow> settles_now P t0 t" unfolding unsettled_def settles_now_def by blast
qed

lemma calm_unsettled: "calm (unsettled (\<lambda>_. True) t0)"
  unfolding calm_def by (blast intro: unsettled_snoc)

lemma hoare_publish_all:
  assumes "dlc_subject c = Some subject"
  shows "hoare (unsettled (all_published L c err es') t0) (for_each (publish_one L E c subject err) es)
    (\<lambda>_. unsettled (all_published L c err (es' @ es)) t0) (\<lambda>_. unsettled (\<lambda>_. True) t0)"
proof (induction es arbitrary: es')
  case Nil
  show ?case by (auto intro!: hoare_ret)
next
  case (Cons e es)
  have "hoare (unsettled (all_published L c err es') t0) (publish_one L E c subject err e)
      (\<lambda>_. unsettled (all_published L c err (es' @ [e])) t0) (\<lambda>_. unsettled (\<lambda>_. True) t0)"
  proof (cases "build_dead_letter_payload L e err (dlc_options c)")
    case (Inl x)
    then show ?thesis by (auto simp: publish_one_def hoare_def bind_act_def lift_res_def elim: unsettled_mono)
  next
    case (Inr payload)
    let ?hs = "[(''Nats-Sinks-Error-Type'', class_name (exn_cls err)), (''Nats-Sinks-Original-Subject'', env_subject e)]"
    have "publish_one L E c subject err e = perform (\<lambda>t. en_publish E t subject payload ?hs) (Publish subject payload ?hs)"
      using Inr by (simp add: publish_one_def bind_act_def lift_res_def fun_eq_iff Let_def)
    moreover have "all_published L c err (es' @ [e]) (u @ [Publish subject payload ?hs None])" if "all_published L c err es' u" for u
    proof -
      have "all_published L c err [e] (u @ [Publish subject payload ?hs None])"
        using Inr assms by (simp add: all_published_def) blast
      with all_published_append [OF that] show ?thesis by (simp add: all_published_Un)
    qed
    ultimately show ?thesis
      by (auto intro!: hoare_perform elim!: unsettled_snoc)
  qed
  from hoare_then [OF this Cons.IH] show ?case by simp
qed

lemma hoare_publish_dlq_all:
  "hoare (unsettled (all_published L c err []) t0) (publish_dlq L E js c es err)
    (\<lambda>_. unsettled (all_published L c err es) t0)
    (\<lambda>x t. unsettled (\<lambda>_. True) t0 t)"
proof (cases "js \<and> dlc_subject c \<noteq> None")
  case True
  then obtain subject where s: "dlc_subject c = Some subject" by auto
  have raise: "hoare (unsettled (\<lambda>_. True) t0) (then_act (increment_metric E m n) (throw e)) Q (\<lambda>_. unsettled (\<lambda>_. True) t0)"
    for m n e and Q :: "unit \<Rightarrow> trace \<Rightarrow> bool"
    by (rule hoare_raise) (intro keeps_rules calm_unsettled)
  have "hoare (unsettled (all_published L c err []) t0) (catch_exception (for_each (publish_one L E c subject err) es)
      (\<lambda>_. then_act (increment_metric E ''dlq_publish_errors_total'' (length es)) (throw e)))
      (\<lambda>_. unsettled (all_published L c err es) t0) (\<lambda>_. unsettled (\<lambda>_. True) t0)" for e
    using hoare_publish_all [OF s, of L err "[]" t0 E es] raise by (intro hoare_catch_exception) auto
  then show ?thesis using True by (simp add: publish_dlq_def s)
qed (auto simp: publish_dlq_def intro!: hoare_throw split: option.splits elim: unsettled_mono)

lemma nothing_published: "unsettled (\<lambda>_. True) t0 t \<Longrightarrow> unsettled (all_published L c err []) t0 t"
  by (erule unsettled_mono) (simp add: all_published_def)

lemma dead_letters_first:
  assumes "dlc_enabled c"
  shows "hoare (unsettled (\<lambda>_. True) t0)
    (then_act (publish_dlq L E js c es err) (then_act (increment_metric E m n) (settle_dead_lettered L E dl c raws)))
    (\<lambda>_. settles_now (all_published L c err es) t0) (\<lambda>_. settles_later (all_published L c err es) t0)"
proof (rule hoare_then)
  have later: "unsettled (\<lambda>_. True) t0 t \<Longrightarrow> settles_later (all_published L c err es) t0 t" for t
  proof -
    have "list_all (\<lambda>ev. \<not> settles ev) u \<Longrightarrow> settles_after P past u" for u past P
      by (induction u arbitrary: past) auto
    then show "unsettled (\<lambda>_. True) t0 t \<Longrightarrow> settles_later (all_published L c err es) t0 t"
      unfolding unsettled_def settles_later_def by blast
  qed
  show "hoare (unsettled (\<lambda>_. True) t0) (publish_dlq L E js c es err)
      (\<lambda>_. settles_now (all_published L c err es) t0) (\<lambda>_. settles_later (all_published L c err es) t0)"
    using hoare_publish_dlq_all [of L c err t0 E js es] 
    by (rule hoare_weaken) (blast intro: nothing_published unsettled_now later)+
  let ?J = "settles_now (all_published L c err es) t0"
  have closed: "ack_closed ?J raws" "term_closed ?J raws"
    by (rule closed_settles_now, erule all_published_append)+
  then have "keeps ?J (then_act (increment_metric E m n) (settle_dead_lettered L E dl c raws))"
    by (intro keeps_rules keeps_settle_closed) (simp_all add: ack_closed_def)
  from hoare_keeps [OF this] show "hoare ?J (then_act (increment_metric E m n) (settle_dead_lettered L E dl c raws))
      (\<lambda>_. ?J) (\<lambda>_. settles_later (all_published L c err es) t0)"
    by (rule hoare_weaken) (auto intro: settles_now_later)
qed

section \<open>Runs of the handlers\<close>

lemma hoare_permanent:
  "hoare (unsettled (\<lambda>_. True) t0) (handle_permanent_failure L E js dl c raws es err)
    (\<lambda>_. settles_later (all_published L c err es) t0) (\<lambda>_. settles_later (all_published L c err es) t0)"
proof -
  let ?U = "unsettled (\<lambda>_. True) t0" and ?S = "settles_later (all_published L c err es) t0"
  have later: "?U t \<Longrightarrow> ?S t" for t
  proof -
    have "list_all (\<lambda>ev. \<not> settles ev) u \<Longrightarrow> settles_after P past u" for u past P
      by (induction u arbitrary: past) auto
    then show "?U t \<Longrightarrow> ?S t" unfolding unsettled_def settles_later_def by blast
  qed
  have metric: "hoare ?U (increment_metric E m n) (\<lambda>_. ?U) (\<lambda>_. ?S)" for m n
    by (rule hoare_weaken [OF hoare_keeps [OF calm_metric_actions(1) [OF calm_unsettled]]]) (auto intro: later)
  have main: "hoare ?U (then_act (publish_dlq L E js c es err)
      (then_act (increment_metric E m n) (settle_dead_lettered L E dl c raws))) (\<lambda>_. ?S) (\<lambda>_. ?S)" if "dlc_enabled c" for m n
    using dead_letters_first [OF that] by (rule hoare_weaken) (auto intro: settles_now_later)
  show ?thesis unfolding handle_permanent_failure_def
    by (intro hoare_then [OF metric]) (auto intro!: hoare_ret main later)
qed

lemma settles_later_split:
  assumes "settles_later P t0 (t0 @ before @ ev # after)" "settles ev" shows "P before"
  using assms by (auto simp: settles_later_def settles_after_append)

text \<open>C13: dead letters of a batch are complete before the first settlement.  Whenever the permanent-failure
  handler settles a message (by terminal or plain acknowledgement), dead letters are enabled and the
  handler has published the dead letter of every envelope of the batch successfully before; so a
  failed publication leaves every message of the batch unsettled.\<close>

theorem dead_letters_before_settlement:
  assumes "snd (handle_permanent_failure L E js dl c raws es err t0) = t0 @ before @ ev # after" "settles ev"
  shows "dlc_enabled c \<and> (\<forall>e\<in>set es. \<exists>subject payload hs. dlc_subject c = Some subject
    \<and> build_dead_letter_payload L e err (dlc_options c) = Inr payload \<and> Publish subject payload hs None \<in> set before)"
proof -
  have start: "unsettled (\<lambda>_. True) t0 t0" by (simp add: unsettled_def)
  have run: "settles_later (all_published L c err es) t0 (snd (handle_permanent_failure L E js dl c raws es err t0))"
    using hoare_permanent [of t0 L E js dl c raws es err] start
    by (cases "handle_permanent_failure L E js dl c raws es err t0") (auto simp: hoare_def split: sum.splits)
  have "dlc_enabled c"
  proof (rule ccontr)
    assume "\<not> dlc_enabled c"
    then have "keeps (unsettled (\<lambda>_. True) t0) (handle_permanent_failure L E js dl c raws es err)"
      unfolding handle_permanent_failure_def by (auto intro!: keeps_rules calm_unsettled)
    then have "unsettled (\<lambda>_. True) t0 (t0 @ before @ ev # after)"
      using start unfolding assms(1) [symmetric] keeps_iff by blast
    with assms(2) show False by (simp add: unsettled_def)
  qed
  with settles_later_split [OF run [unfolded assms(1)] assms(2)] show ?thesis by (simp add: all_published_def)
qed

text \<open>The handler when nothing goes wrong.\<close>

definition dead_letter_event :: "pylib \<Rightarrow> dead_letter_config \<Rightarrow> exn \<Rightarrow> nats_envelope \<Rightarrow> event" where
  "dead_letter_event L c err e =
     Publish (the (dlc_subject c)) (projr (build_dead_letter_payload L e err (dlc_options c)))
       [(''Nats-Sinks-Error-Type'', class_name (exn_cls err)), (''Nats-Sinks-Original-Subject'', env_subject e)] None"

definition publishable :: "pylib \<Rightarrow> dead_letter_config \<Rightarrow> exn \<Rightarrow> nats_envelope list \<Rightarrow> bool" where
  "publishable L c err es \<longleftrightarrow> dlc_enabled c \<and> dlc_subject c \<noteq> None
     \<and> list_all (\<lambda>e. \<not> isl (build_dead_letter_payload L e err (dlc_options c))) es"

lemma does_publish_dlq:
  assumes "publishable L c err es" "\<forall>t s p hs. en_publish E t s p hs = None"
  shows "does (publish_dlq L E True c es err) () (map (dead_letter_event L c err) es)"
proof -
  obtain subject where s: "dlc_subject c = Some subject" using assms(1) by (auto simp: publishable_def)
  have one: "does (publish_one L E c subject err e) () [dead_letter_event L c err e]" if e: "e \<in> set es" for e
  proof -
    from e assms(1) obtain payload where p: "build_dead_letter_payload L e err (dlc_options c) = Inr payload"
      by (cases "build_dead_letter_payload L e err (dlc_options c)") (auto simp: publishable_def list_all_iff)
    let ?hs = "[(''Nats-Sinks-Error-Type'', class_name (exn_cls err)), (''Nats-Sinks-Original-Subject'', env_subject e)]"
    have "publish_one L E c subject err e = perform (\<lambda>t. en_publish E t subject payload ?hs) (Publish subject payload ?hs)"
      using p by (simp add: publish_one_def bind_act_def lift_res_def fun_eq_iff Let_def)
    then show ?thesis using assms(2) p s by (auto simp: dead_letter_event_def intro!: does_perform)
  qed
  have "does (for_each (publish_one L E c subject err) es) () (concat (map (\<lambda>e. [dead_letter_event L c err e]) es))"
    by (rule does_for_each) (rule one)
  then have "does (for_each (publish_one L E c subject err) es) () (map (dead_letter_event L c err) es)"
    by simp
  then show ?thesis by (simp add: publish_dlq_def s catch_exception_def does_catch)
qed

lemma does_term_all:
  assumes "healthy_metrics E" "list_all (exposes L ''term'') raws" "\<forall>t raw. en_term E t raw = None"
  shows "does (term_all L E c raws) () (map (\<lambda>raw. Term raw None) raws)"
proof -
  have one: "does (term_one L E raw) () [Term raw None]" if "raw \<in> set raws" for raw
  proof -
    from assms(2) that have "exposes L ''term'' raw" by (simp add: list_all_iff)
    from exposes_getattr [OF this] obtain f where "l_getattr L raw ''term'' = Has f" "f \<noteq> PNone" by blast
    then have "term_one L E raw = perform (\<lambda>t. en_term E t raw) (Term raw)"
      by (simp add: term_one_def getattr_default_def bind_act_def lift_res_def fun_eq_iff)
    then show ?thesis using assms(3) by (auto intro!: does_perform)
  qed
  have "does (counted_loop (term_one L E) (\<lambda>_. increment_metric E ''messages_terminated_total'' 1) 0 raws)
      (0 + length raws, None) (map (\<lambda>raw. Term raw None) raws)"
    by (rule does_counted_loop) (auto intro: one does_metrics assms)
  from does_bind [OF this, of _ "()" "[]"] have main: "does (bind_act (counted_loop (term_one L E)
      (\<lambda>_. increment_metric E ''messages_terminated_total'' 1) 0 raws)
       (\<lambda>(terminated, failure).
         case failure of
           None \<Rightarrow> ret ()
         | Some _ \<Rightarrow>
             then_act (increment_metric E ''term_errors_total'' (max (length raws - terminated) 1))
               (throw (Exn AckError ''failed to AckTerm JetStream message after successful DLQ publication''))))
      () (map (\<lambda>raw. Term raw None) raws)" by (simp add: does_ret)
  have "does (if akc_enabled c then increment_metric E ''ack_confirmation_unsupported_total'' (length raws) else ret ()) () []"
    using does_metrics [OF assms(1)] by (simp add: does_ret)
  from does_after [OF this main] show ?thesis by (simp add: term_all_def)
qed

text \<open>A permanent failure ends in complete dead letters and settled messages.  With dead letters
  enabled, every payload buildable, and calls that succeed, the handler returns normally, and apart
  from metric updates it publishes the dead letters of the batch in order and then settles the client
  messages in order: by terminal acknowledgements when these are configured, by ordinary ones
  otherwise.\<close>

theorem permanent_failure_settles:
  assumes "healthy_metrics E" "publishable L c err es" "\<forall>t s p hs. en_publish E t s p hs = None"
    "if dlc_ack_term c then list_all (exposes L ''term'') raws \<and> (\<forall>t raw. en_term E t raw = None)
     else acknowledges L E (dl_ack dl) raws"
  shows "\<exists>u. handle_permanent_failure L E True dl c raws es err t = (Inr (), t @ u)
    \<and> calls u = map (dead_letter_event L c err) es
        @ map (\<lambda>raw. if dlc_ack_term c then Term raw None else acknowledgement (dl_ack dl) raw) raws"
proof -
  have settle: "does (settle_dead_lettered L E dl c raws) ()
      (map (\<lambda>raw. if dlc_ack_term c then Term raw None else acknowledgement (dl_ack dl) raw) raws)"
  proof (cases "dlc_ack_term c")
    case True
    with assms(4) have "does (term_all L E (dl_ack dl) raws) () (map (\<lambda>raw. Term raw None) raws)"
      by (intro does_term_all assms(1)) simp_all
    from does_then [OF this does_metrics(4) [OF assms(1)]] True show ?thesis
      by (simp add: settle_dead_lettered_def)
  next
    case False
    with assms(4) have "does (ack_all L E (dl_ack dl) raws) () (map (acknowledgement (dl_ack dl)) raws)"
      by (intro does_ack_all assms(1)) simp
    from does_then [OF this does_after [OF does_metrics(4) [OF assms(1)] does_metrics(1) [OF assms(1)]]] False show ?thesis
      by (simp add: settle_dead_lettered_def)
  qed
  have "dlc_enabled c" using assms(2) by (simp add: publishable_def)
  moreover note does_then [OF does_publish_dlq [OF assms(2,3)] does_after [OF does_metrics(1) [OF assms(1)] settle]]
  ultimately have "does (handle_permanent_failure L E True dl c raws es err) () (map (dead_letter_event L c err) es
        @ map (\<lambda>raw. if dlc_ack_term c then Term raw None else acknowledgement (dl_ack dl) raw) raws)"
    unfolding handle_permanent_failure_def by (intro does_after [where x = "()"] does_metrics assms(1)) simp
  then show ?thesis by (simp add: does_def)
qed

lemma build_dead_letter_total:
  "env_timestamp e = None \<Longrightarrow> \<exists>p. build_dead_letter_payload L e err c = Inr p"
proof -
  assume "env_timestamp e = None"
  then obtain body where body: "dead_letter_body L e err c = Inr body"
    using safe_idempotency_key_total [of "l_sha256 L" e] by (auto simp: dead_letter_body_def)
  from dead_letter_body_text [OF body] obtain s where "json_dumps_ascii (l_float_text L) body = Inr s" by blast
  with body show ?thesis by (simp add: build_dead_letter_payload_def)
qed

definition sink_rejects :: exn where
  "sink_rejects = Exn SerializationError ''cannot serialise''"

lemma sample_publishable: "publishable acking_lib sample_dead_letter sink_rejects [sample_envelope ''orders.new'' 42 []]"
proof -
  have "env_timestamp (sample_envelope ''orders.new'' 42 []) = None" by (simp add: sample_envelope_def)
  from build_dead_letter_total [OF this] show ?thesis
    by (auto simp: publishable_def sample_dead_letter_def) (metis isl_def sum.distinct(1))
qed

lemma sample_term: "list_all (exposes acking_lib ''term'') [PObj 0] \<and> (\<forall>t raw. en_term quiet_env t raw = None)"
  by (simp add: exposes_def acking_lib_def quiet_env_def)

lemma sample_term_config: "dlc_ack_term sample_dead_letter"
  by (simp add: sample_dead_letter_def)

lemma permanent_failure_settles_witness:
  "\<exists>u. handle_permanent_failure acking_lib quiet_env True sample_delivery sample_dead_letter [PObj 0]
      [sample_envelope ''orders.new'' 42 []] sink_rejects [] = (Inr (), u)
    \<and> calls u = [dead_letter_event acking_lib sample_dead_letter sink_rejects (sample_envelope ''orders.new'' 42 []), Term (PObj 0) None]"
proof -
  have "\<forall>t s p hs. en_publish quiet_env t s p hs = None" by (simp add: quiet_env_def)
  from permanent_failure_settles [OF quiet_env_healthy sample_publishable this, of "[PObj 0]" sample_delivery "[]"]
  show ?thesis using sample_term sample_term_config by simp
qed

lemma handler_run:
  assumes "healthy_metrics E" "publishable L c err es" "\<forall>t s p hs. en_publish E t s p hs = None" "dlc_ack_term c"
    "list_all (exposes L ''term'') raws" "\<forall>t raw. en_term E t raw = None"
  shows "does (handle_permanent_failure L E True dl c raws es err) ()
    (map (dead_letter_event L c err) es @ map (\<lambda>raw. Term raw None) raws)"
proof -
  have settle: "does (settle_dead_lettered L E dl c raws) () (map (\<lambda>raw. Term raw None) raws)"
    using does_then [OF does_term_all [OF assms(1,5,6)] does_metrics(4) [OF assms(1)]] assms(4)
    by (simp add: settle_dead_lettered_def)
  have "dlc_enabled c" using assms(2) by (simp add: publishable_def)
  moreover note does_then [OF does_publish_dlq [OF assms(2,3)] does_after [OF does_metrics(1) [OF assms(1)] settle]]
  ultimately show ?thesis unfolding handle_permanent_failure_def
    by (intro does_after [where x = "()"] does_metrics assms(1)) simp
qed

lemma dead_letters_before_settlement_witness:
  "\<exists>before after. snd (handle_permanent_failure acking_lib quiet_env True sample_delivery sample_dead_letter [PObj 0]
      [sample_envelope ''orders.new'' 42 []] sink_rejects []) = [] @ before @ Term (PObj 0) None # after
    \<and> (\<exists>payload hs. Publish ''dlq.orders'' payload hs None \<in> set before)"
proof -
  let ?run = "handle_permanent_failure acking_lib quiet_env True sample_delivery sample_dead_letter [PObj 0]
      [sample_envelope ''orders.new'' 42 []] sink_rejects []"
  have "\<forall>t s p hs. en_publish quiet_env t s p hs = None" by (simp add: quiet_env_def)
  from handler_run [OF quiet_env_healthy sample_publishable this sample_term_config, of "[PObj 0]" sample_delivery]
  obtain u where "?run = (Inr (), u)" and u: "Term (PObj 0) None \<in> set (calls u)"
    using sample_term unfolding does_def by (auto dest!: spec [where x = "[]"])
  then obtain before after where run: "snd ?run = [] @ before @ Term (PObj 0) None # after"
    by (auto simp: calls_def dest: split_list)
  from dead_letters_before_settlement [OF run] have "\<exists>payload hs. Publish ''dlq.orders'' payload hs None \<in> set before"
    by (auto simp: sample_dead_letter_def)
  with run show ?thesis by blast
qed

section \<open>Temporary failures\<close>

lemma delivery_attempt_total: "tolerable L \<Longrightarrow> \<exists>n. delivery_attempt_for_batch L raws = Inr n \<and> 1 \<le> n"
proof -
  assume tol: "tolerable L"
  define fine :: "pyval res \<Rightarrow> bool" where "fine r \<longleftrightarrow> (\<forall>err. r = Inl err \<longrightarrow> isinstance err PyException)" for r
  have get: "fine (getattr_default L obj name)" for obj name
    using tol by (auto simp: fine_def getattr_default_def tolerable_def split: attr.splits if_splits)
  have nested: "fine (rbind (getattr_default L raw m) (\<lambda>v. getattr_default L v n))" for raw m n
    using get [of raw m] get by (cases "getattr_default L raw m") (simp_all add: fine_def)
  have one: "\<exists>n. delivery_attempt_for_message L raw = Inr n \<and> 1 \<le> n" for raw
    using nested [of raw "''metadata''" "''num_delivered''"] unfolding delivery_attempt_for_message_def
    by (cases "rbind (getattr_default L raw ''metadata'') (\<lambda>v. getattr_default L v ''num_delivered'')")
      (auto simp: fine_def split: option.split)
  then obtain ns where ns: "rmapM (delivery_attempt_for_message L) raws = Inr ns"
    using rmapM_all_Inr by metis
  have "\<forall>n\<in>set ns. 1 \<le> n"
    using ns one unfolding rmapM_Inr_iff list_all2_conv_all_nth by (metis Inr_inject in_set_conv_nth)
  then have "ns \<noteq> [] \<Longrightarrow> 1 \<le> Max (set ns)" by (metis List.finite_set Max_in set_empty)
  with ns show ?thesis by (auto simp: delivery_attempt_for_batch_def)
qed

lemma bind_lift [simp]: "bind_act (lift_res (Inr x)) f = f x"
  by (simp add: bind_act_def lift_res_def fun_eq_iff)

text \<open>The delayed negative acknowledgements of the messages that support them.\<close>

lemma does_nak_all:
  assumes "healthy_metrics E" "list_all (exposes L ''nak'') raws" "\<forall>t raw. en_nak E t raw = None"
  shows "does (nak_all L E raws delay) () (map (\<lambda>raw. Nak raw (Some delay) None) raws)"
proof -
  have one: "does (nak_one L E delay raw) () [Nak raw (Some delay) None]" if "raw \<in> set raws" for raw
  proof -
    from assms(2) that have "exposes L ''nak'' raw" by (simp add: list_all_iff)
    from exposes_getattr [OF this] obtain f where f: "l_getattr L raw ''nak'' = Has f" "f \<noteq> PNone" by blast
    have "does (perform (\<lambda>t. en_nak E t raw) (Nak raw (Some delay))) () [Nak raw (Some delay) None]"
      using assms(3) by (auto intro!: does_perform)
    from does_then [OF does_catch [OF this] does_metrics(1) [OF assms(1)]]
    have "does (catch_exception (then_act (catch (perform (\<lambda>t. en_nak E t raw) (Nak raw (Some delay))) h)
        (increment_metric E m n)) h') () [Nak raw (Some delay) None]" for h m n h'
      by (simp add: catch_exception_def does_catch)
    with f show ?thesis by (simp add: nak_one_def getattr_default_def)
  qed
  then show ?thesis unfolding nak_all_def using does_for_each [of raws "nak_one L E delay" "\<lambda>raw. [Nak raw (Some delay) None]"] by simp
qed

text \<open>A temporary failure settles nothing.  Whatever the environment does and however the handler
  ends, none of the events it adds is a positive or terminal acknowledgement; every message of the
  batch stays with the stream.\<close>

theorem temporary_failure_settles_nothing:
  "\<exists>u. snd (handle_temporary_failure L E dl raws m t) = t @ u \<and> list_all (\<lambda>ev. \<not> settles ev) u"
proof -
  have "unsettled (\<lambda>_. True) t t" by (simp add: unsettled_def)
  with calm_temporary [OF calm_unsettled [of t], of L E dl raws m]
  have "unsettled (\<lambda>_. True) t (snd (handle_temporary_failure L E dl raws m t))" by (simp add: keeps_iff)
  then show ?thesis by (auto simp: unsettled_def)
qed

text \<open>A temporary failure asks for redelivery within the retry budget.  With a healthy metrics
  recorder and a client that accepts negative acknowledgements the handler returns normally, and
  apart from metric updates it does exactly this: while the highest delivery attempt of the batch is
  within the retry budget and negative acknowledgements are configured, it asks for the redelivery of
  every message of the batch, in order, with one delay computed by the retry policy for that attempt;
  otherwise nothing.\<close>

theorem temporary_failure_requests_redelivery:
  assumes "tolerable L" "healthy_metrics E" "list_all (exposes L ''nak'') raws" "\<forall>t raw. en_nak E t raw = None"
  shows "\<exists>u attempt x. handle_temporary_failure L E dl raws m t = (Inr (), t @ u)
    \<and> delivery_attempt_for_batch L raws = Inr attempt \<and> 1 \<le> attempt
    \<and> calls u = (if should_retry (dl_retry dl) attempt \<and> dl_nak dl
        then map (\<lambda>raw. Nak raw (Some (backoff_seconds (dl_retry dl) x attempt)) None) raws else [])"
proof -
  obtain n where n: "delivery_attempt_for_batch L raws = Inr n" "1 \<le> n" using delivery_attempt_total [OF assms(1)] by blast
  note metrics = does_metrics [OF assms(2)]
  let ?tail = "\<lambda>delay. then_act (observe_metric E ''retry_backoff_delay_seconds'' delay)
      (if dl_nak dl then nak_all L E raws delay else ret ())"
  let ?naks = "\<lambda>x. if dl_nak dl then map (\<lambda>raw. Nak raw (Some (backoff_seconds (dl_retry dl) x n)) None) raws else []"
  have tail: "does (?tail (backoff_seconds (dl_retry dl) x n)) () (?naks x)" for x
    using does_after [OF metrics(2) does_nak_all [OF assms(2-4)]] does_after [OF metrics(2) does_ret [of "()"]] by simp
  have "does (case m of None \<Rightarrow> ret () | Some m \<Rightarrow> increment_metric E m k) () []" for k
    by (cases m) (simp_all add: does_ret metrics)
  from does_after [OF metrics(1) this]
  have "does (then_act (increment_metric E ''messages_failed_total'' (length raws))
      (case m of None \<Rightarrow> ret () | Some m \<Rightarrow> increment_metric E m (length raws))) () []" .
  then obtain v where v: "then_act (increment_metric E ''messages_failed_total'' (length raws))
      (case m of None \<Rightarrow> ret () | Some m \<Rightarrow> increment_metric E m (length raws)) t = (Inr (), t @ v)" "calls v = []"
    unfolding does_def by blast
  let ?x = "en_jitter E (t @ v)"
  obtain w where w: "?tail (backoff_seconds (dl_retry dl) ?x n) (t @ v) = (Inr (), (t @ v) @ w)" "calls w = ?naks ?x"
    using tail [of ?x] unfolding does_def by blast
  have assoc: "then_act a (then_act b c) t = then_act (then_act a b) c t" for a b :: "unit act" and c :: "unit act"
    by (simp add: then_act_def bind_act_def split: prod.split sum.split)
  show ?thesis
  proof (cases "should_retry (dl_retry dl) n")
    case False
    then have "handle_temporary_failure L E dl raws m t = (Inr (), t @ v)"
      by (simp add: handle_temporary_failure_def n assoc v(1) then_act_def [of "then_act _ _"] bind_act_def [of "then_act _ _"] ret_def)
    with False n v(2) show ?thesis by (intro exI [where x = v] exI [where x = n]) simp
  next
    case True
    then have "handle_temporary_failure L E dl raws m t = (Inr (), t @ v @ w)"
      using w(1) by (simp add: handle_temporary_failure_def n assoc v(1) then_act_def [of "then_act _ _"]
          bind_act_def [of "then_act _ _"] read_env_def)
    with True n v(2) w(2) show ?thesis by (intro exI [where x = "v @ w"] exI [where x = n] exI [where x = ?x]) simp
  qed
qed

lemma temporary_failure_requests_redelivery_witness:
  "\<exists>u attempt x. handle_temporary_failure acking_lib quiet_env sample_delivery [PObj 0] None [] = (Inr (), u)
    \<and> delivery_attempt_for_batch acking_lib [PObj 0] = Inr attempt
    \<and> calls u = (if should_retry (dl_retry sample_delivery) attempt \<and> dl_nak sample_delivery
        then [Nak (PObj 0) (Some (backoff_seconds (dl_retry sample_delivery) x attempt)) None] else [])"
proof -
  have "list_all (exposes acking_lib ''nak'') [PObj 0]" "\<forall>t raw. en_nak quiet_env t raw = None"
    by (simp_all add: exposes_def acking_lib_def quiet_env_def)
  from temporary_failure_requests_redelivery [OF acking_lib_tolerable quiet_env_healthy this, of sample_delivery None "[]"]
  show ?thesis by auto
qed

end
