(* ===== verification/ConsumerPolicy.thy ===== *)
theory ConsumerPolicy
  imports Consumer
begin

text \<open>
  The durable consumer the runner works on (\<open>core/consumer_management.py\<close> and its sections of
  \<open>core/config.py\<close>): validation of the configuration, the consumer configuration sent to the
  server, and the comparison of an existing consumer with it.  What the server reports is untrusted:
  a dictionary or an object with any attributes.  Differences and products of floats are exact;
  rounding is not modelled.
\<close>

section \<open>Configuration\<close>

datatype consumer_mode = Bind_only | Create_if_missing | Reconcile

record consumer_config =
  cm_mode :: consumer_mode
  cm_filter_subjects :: "string list"
  cm_deliver_policy :: string
  cm_replay_policy :: string
  cm_ack_wait :: "rat option"
  cm_max_deliver :: "int option"
  cm_backoff :: "pyfloat list option"
  cm_max_ack_pending :: "int option"
  cm_max_waiting :: "int option"
  cm_headers_only :: "bool option"
  cm_num_replicas :: "int option"
  cm_memory_storage :: "bool option"
  cm_metadata :: "(string \<times> string) list"

record push_config =
  pu_enabled :: bool
  pu_deliver_subject :: "string option"
  pu_deliver_group :: "string option"
  pu_manual_ack :: bool
  pu_pending_msgs_limit :: nat
  pu_nak_overflow :: bool
  pu_flow_control :: bool
  pu_idle_heartbeat :: "rat option"

fun collect_filter_subjects :: "string list \<Rightarrow> pyval list \<Rightarrow> string list res" where
  "collect_filter_subjects rendered [] = Inr rendered"
| "collect_filter_subjects rendered (item # items) =
     rbind (validate_subject_pattern item) (\<lambda>subject.
       if subject \<in> set rendered then raise ValueError ''duplicate consumer_management.filter_subjects entry''
       else collect_filter_subjects (rendered @ [subject]) items)"

definition list_or_tuple :: "pyval \<Rightarrow> pyval list option" where
  "list_or_tuple v = (case v of PList xs \<Rightarrow> Some xs | PTuple xs \<Rightarrow> Some xs | _ \<Rightarrow> None)"

definition normalize_filter_subjects :: "pyval \<Rightarrow> string list res" where
  "normalize_filter_subjects v =
     (if v = PNone then Inr []
      else (case list_or_tuple v of
          None \<Rightarrow> raise ValueError ''consumer_management.filter_subjects must be a list of NATS subjects''
        | Some items \<Rightarrow>
            if 64 < length items then raise ValueError ''consumer_management.filter_subjects supports at most 64 entries''
            else collect_filter_subjects [] items))"

text \<open>Comparisons of floats: every one with a NaN is false.\<close>

fun float_le :: "pyfloat \<Rightarrow> pyfloat \<Rightarrow> bool" where
  "float_le FNaN y = False"
| "float_le x FNaN = False"
| "float_le FNegInf y = True"
| "float_le x FPosInf = True"
| "float_le (FFin a) (FFin b) = (a \<le> b)"
| "float_le x y = False"

definition float_less :: "pyfloat \<Rightarrow> pyfloat \<Rightarrow> bool" where
  "float_less x y \<longleftrightarrow> float_le x y \<and> x \<noteq> y"

text \<open>\<open>float(value)\<close> of a float is itself; of anything else it is the parameter \<open>F\<close>.\<close>

type_synonym float_of = "pyval \<Rightarrow> pyfloat res"

definition py_float :: "float_of \<Rightarrow> pyval \<Rightarrow> pyfloat res" where
  "py_float F v = (case v of PFloat x \<Rightarrow> Inr x | _ \<Rightarrow> F v)"

definition backoff_entry :: "float_of \<Rightarrow> pyval \<Rightarrow> pyfloat res" where
  "backoff_entry F item =
     (if (case item of PInt i \<Rightarrow> False | PFloat x \<Rightarrow> False | _ \<Rightarrow> True)
      then raise ValueError ''consumer_management.backoff_seconds entries must be numeric''
      else rbind (py_float F item) (\<lambda>seconds.
        if float_le seconds (FFin 0) \<or> float_less (FFin 604800) seconds
        then raise ValueError ''consumer_management.backoff_seconds entries must be greater than 0 and bounded''
        else Inr seconds))"

definition normalize_backoff_seconds :: "float_of \<Rightarrow> pyval \<Rightarrow> pyfloat list option res" where
  "normalize_backoff_seconds F v =
     (if v = PNone then Inr None
      else (case list_or_tuple v of
          None \<Rightarrow> raise ValueError ''consumer_management.backoff_seconds must be a list of positive seconds''
        | Some items \<Rightarrow>
            if items = [] then raise ValueError ''consumer_management.backoff_seconds must not be empty when configured''
            else if 128 < length items then raise ValueError ''consumer_management.backoff_seconds supports at most 128 entries''
            else rmap Some (rmapM (backoff_entry F) items)))"

definition validate_policy_combinations :: "consumer_config \<Rightarrow> consumer_config res" where
  "validate_policy_combinations c =
     (case cm_backoff c of
        None \<Rightarrow> Inr c
      | Some backoff \<Rightarrow>
          if cm_ack_wait c \<noteq> None
          then raise ValueError ''configure backoff_seconds or ack_wait_seconds, not both''
          else (case cm_max_deliver c of
              None \<Rightarrow> raise ValueError ''consumer_management.max_deliver is required when backoff_seconds is set''
            | Some n \<Rightarrow>
                if n < int (length backoff)
                then raise ValueError ''backoff_seconds length must be less than or equal to max_deliver''
                else Inr c))"

definition validate_deliver_subject :: "pyval \<Rightarrow> string option res" where
  "validate_deliver_subject v =
     (if v = PNone then Inr None
      else (case validate_subject_pattern v of
          Inl err \<Rightarrow> if isinstance err ConfigurationError
            then raise ValueError ''push_consumer.deliver_subject must be a valid NATS subject'' else Inl err
        | Inr subject \<Rightarrow>
            if CHR ''*'' \<in> set subject \<or> CHR ''>'' \<in> set subject
            then raise ValueError ''push_consumer.deliver_subject must not contain wildcards''
            else Inr (Some subject)))"

definition validate_push_mode_safety :: "push_config \<Rightarrow> push_config res" where
  "validate_push_mode_safety p =
     (if pu_enabled p \<and> \<not> pu_manual_ack p
      then raise ValueError ''push_consumer.manual_ack must be true when push mode is enabled''
      else if pu_enabled p \<and> pu_deliver_subject p = None
      then raise ValueError ''push_consumer.deliver_subject is required when push mode is enabled''
      else Inr p)"

section \<open>Reading what the server reports\<close>

definition consumer_field :: "pylib \<Rightarrow> pyval \<Rightarrow> string \<Rightarrow> pyval res" where
  "consumer_field L config name =
     (case config of PDict kvs \<Rightarrow> Inr (py_get config name) | _ \<Rightarrow> safe_getattr L config name PNone)"

text \<open>\<open>getattr(value, \"value\", value)\<close>, rendered as text.\<close>

definition enum_value :: "pylib \<Rightarrow> pyval \<Rightarrow> string option res" where
  "enum_value L v =
     (if v = PNone then Inr None
      else rbind (case l_getattr L v ''value'' of
            Has x \<Rightarrow> Inr x
          | Missing \<Rightarrow> Inr v
          | AttrRaises err \<Rightarrow> if isinstance err AttributeError then Inr v else Inl err)
        (\<lambda>rendered. rmap Some (str_or_raise (l_str L) rendered)))"

definition existing_config :: "pylib \<Rightarrow> pyval \<Rightarrow> pyval res" where
  "existing_config L info =
     rbind (consumer_field L info ''config'') (\<lambda>config.
       if config = PNone
       then raise ConfigurationError ''JetStream consumer info did not include a configuration object''
       else Inr config)"

text \<open>\<open>abs(x - y) <= 0.001\<close>, and its negation \<open>abs(x - y) > 0.001\<close>, which is also false for NaN.\<close>

fun float_close :: "pyfloat \<Rightarrow> pyfloat \<Rightarrow> bool" where
  "float_close (FFin a) (FFin b) = (\<bar>a - b\<bar> \<le> 1 / 1000)"
| "float_close x y = False"

fun float_far :: "pyfloat \<Rightarrow> pyfloat \<Rightarrow> bool" where
  "float_far (FFin a) (FFin b) = (1 / 1000 < \<bar>a - b\<bar>)"
| "float_far FNaN y = False"
| "float_far x FNaN = False"
| "float_far FPosInf FPosInf = False"
| "float_far FNegInf FNegInf = False"
| "float_far x y = True"

definition bad_float :: "exn \<Rightarrow> bool" where
  "bad_float err \<longleftrightarrow> isinstance err TypeError \<or> isinstance err ValueError"

definition float_equal :: "float_of \<Rightarrow> rat option \<Rightarrow> pyval \<Rightarrow> bool res" where
  "float_equal F expected actual =
     (case expected of
        None \<Rightarrow> Inr True
      | Some e \<Rightarrow>
          if actual = PNone then Inr False
          else (case py_float F actual of
              Inl err \<Rightarrow> if bad_float err then Inr False else Inl err
            | Inr x \<Rightarrow> Inr (float_close x (FFin e))))"

fun float_items_equal :: "float_of \<Rightarrow> pyfloat list \<Rightarrow> pyval list \<Rightarrow> bool res" where
  "float_items_equal F (e # es) (a # as) =
     (case py_float F a of
        Inl err \<Rightarrow> if bad_float err then Inr False else Inl err
      | Inr x \<Rightarrow> if float_far x e then Inr False else float_items_equal F es as)"
| "float_items_equal F es as = Inr True"

definition float_sequence_equal :: "float_of \<Rightarrow> pyfloat list option \<Rightarrow> pyval \<Rightarrow> bool res" where
  "float_sequence_equal F expected actual =
     (case expected of
        None \<Rightarrow> Inr True
      | Some es \<Rightarrow>
          (case list_or_tuple actual of
             None \<Rightarrow> Inr False
           | Some as \<Rightarrow> if length as \<noteq> length es then Inr False else float_items_equal F es as))"

definition has_effective_backoff :: "pyval \<Rightarrow> bool" where
  "has_effective_backoff v =
     (if v = PNone then False else (case list_or_tuple v of Some xs \<Rightarrow> xs \<noteq> [] | None \<Rightarrow> True))"

text \<open>\<open>==\<close> of a plain expected value with a reported one: numbers compare across their types.\<close>

fun number_of :: "pyval \<Rightarrow> rat option" where
  "number_of (PBool b) = Some (if b then 1 else 0)"
| "number_of (PInt i) = Some (of_int i)"
| "number_of (PFloat (FFin q)) = Some q"
| "number_of v = None"

definition scalar_eq :: "pyval \<Rightarrow> pyval \<Rightarrow> bool" where
  "scalar_eq a b \<longleftrightarrow>
     (case (number_of a, number_of b) of (Some x, Some y) \<Rightarrow> x = y | (None, None) \<Rightarrow> a = b \<and> a \<noteq> PFloat FNaN | _ \<Rightarrow> False)"

section \<open>Filter subjects\<close>

definition managed_filter_subjects :: "string \<Rightarrow> consumer_config \<Rightarrow> string list res" where
  "managed_filter_subjects subject c =
     (if cm_filter_subjects c = [] then Inr [subject]
      else if \<exists>f\<in>set (cm_filter_subjects c). \<not> subject_pattern_is_subset (PStr f) (PStr subject)
      then raise ConfigurationError ''consumer_management.filter_subjects must not be broader than nats.subject''
      else Inr (cm_filter_subjects c))"

definition existing_filter_subjects :: "pylib \<Rightarrow> pyval \<Rightarrow> string list res" where
  "existing_filter_subjects L existing =
     rbind (consumer_field L existing ''filter_subjects'') (\<lambda>fs.
       case list_or_tuple fs of
         Some (f # rest) \<Rightarrow> rmapM (str_or_raise (l_str L)) (f # rest)
       | _ \<Rightarrow>
           rmap (\<lambda>f. case f of PStr (c # cs) \<Rightarrow> [c # cs] | _ \<Rightarrow> []) (consumer_field L existing ''filter_subject''))"

section \<open>The configuration sent to the server\<close>

text \<open>
  The client package: its enumeration members, looked up by name, and its \<open>ConsumerConfig\<close> class,
  called with keyword arguments.  \<open>None\<close> in place of it: the package cannot be imported.
\<close>

record nats_api =
  na_explicit :: pyval
  na_deliver :: "string \<Rightarrow> pyval"
  na_replay :: "string \<Rightarrow> pyval"
  na_config :: "(string \<times> pyval) list \<Rightarrow> pyval"

definition load_api :: "nats_api option \<Rightarrow> nats_api res" where
  "load_api api =
     (case api of Some a \<Rightarrow> Inr a
      | None \<Rightarrow> raise ConfigurationError ''nats-py is required for JetStream consumer management'')"

definition deliver_policy_name :: "string \<Rightarrow> string" where
  "deliver_policy_name p =
     (if p = ''all'' then ''ALL'' else if p = ''last'' then ''LAST'' else if p = ''new'' then ''NEW'' else ''LAST_PER_SUBJECT'')"

definition replay_policy_name :: "string \<Rightarrow> string" where
  "replay_policy_name p = (if p = ''instant'' then ''INSTANT'' else ''ORIGINAL'')"

definition optional_kwarg :: "string \<Rightarrow> ('a \<Rightarrow> pyval) \<Rightarrow> 'a option \<Rightarrow> (string \<times> pyval) list" where
  "optional_kwarg name f x = (case x of None \<Rightarrow> [] | Some v \<Rightarrow> [(name, f v)])"

definition str_pairs :: "(string \<times> string) list \<Rightarrow> (pyval \<times> pyval) list" where
  "str_pairs kvs = map (\<lambda>(k, v). (PStr k, PStr v)) kvs"

definition required_kwargs :: "nats_api \<Rightarrow> string \<Rightarrow> consumer_config \<Rightarrow> string list \<Rightarrow> (string \<times> pyval) list" where
  "required_kwargs a durable_name c filters =
     [(''name'', PStr durable_name), (''durable_name'', PStr durable_name), (''ack_policy'', na_explicit a),
      (''deliver_policy'', na_deliver a (deliver_policy_name (cm_deliver_policy c))),
      (''replay_policy'', na_replay a (replay_policy_name (cm_replay_policy c)))]
     @ (case filters of [f] \<Rightarrow> [(''filter_subject'', PStr f)] | _ \<Rightarrow> [(''filter_subjects'', PList (map PStr filters))])
     @ optional_kwarg ''ack_wait'' (\<lambda>q. PFloat (FFin q)) (cm_ack_wait c)
     @ optional_kwarg ''max_deliver'' PInt (cm_max_deliver c)
     @ optional_kwarg ''backoff'' (\<lambda>xs. PList (map PFloat xs)) (cm_backoff c)
     @ optional_kwarg ''max_ack_pending'' PInt (cm_max_ack_pending c)"

definition storage_kwargs :: "consumer_config \<Rightarrow> (string \<times> pyval) list" where
  "storage_kwargs c =
     optional_kwarg ''headers_only'' PBool (cm_headers_only c)
     @ optional_kwarg ''num_replicas'' PInt (cm_num_replicas c)
     @ optional_kwarg ''mem_storage'' PBool (cm_memory_storage c)
     @ (if cm_metadata c \<noteq> [] then [(''metadata'', PDict (str_pairs (cm_metadata c)))] else [])"

definition build_consumer_config :: "nats_api option \<Rightarrow> string \<Rightarrow> string \<Rightarrow> consumer_config \<Rightarrow> pyval res" where
  "build_consumer_config api durable_name subject c =
     rbind (load_api api) (\<lambda>a.
     rbind (managed_filter_subjects subject c) (\<lambda>filters.
       Inr (na_config a (required_kwargs a durable_name c filters
         @ optional_kwarg ''max_waiting'' PInt (cm_max_waiting c) @ storage_kwargs c))))"

definition consumer_common_kwargs ::
  "nats_api option \<Rightarrow> string \<Rightarrow> string \<Rightarrow> consumer_config \<Rightarrow> (string \<times> pyval) list res" where
  "consumer_common_kwargs api durable_name subject c =
     rbind (load_api api) (\<lambda>a.
     rbind (managed_filter_subjects subject c) (\<lambda>filters.
       Inr (required_kwargs a durable_name c filters @ storage_kwargs c)))"

definition validate_push_consumer_configuration :: "consumer_config \<Rightarrow> push_config \<Rightarrow> unit res" where
  "validate_push_consumer_configuration c p =
     (if \<not> pu_enabled p then Inr ()
      else if \<not> pu_manual_ack p then raise ConfigurationError ''push_consumer.manual_ack must be true''
      else if pu_deliver_subject p = None then raise ConfigurationError ''push_consumer.deliver_subject is required''
      else if cm_max_waiting c \<noteq> None
      then raise ConfigurationError ''consumer_management.max_waiting applies only to pull consumers''
      else (case cm_max_ack_pending c of
          Some n \<Rightarrow> if int (pu_pending_msgs_limit p) < n
            then raise ConfigurationError ''max_ack_pending must be less than or equal to pending_msgs_limit'' else Inr ()
        | None \<Rightarrow> Inr ()))"

definition build_push_consumer_config ::
  "nats_api option \<Rightarrow> string \<Rightarrow> string \<Rightarrow> consumer_config \<Rightarrow> push_config \<Rightarrow> pyval res" where
  "build_push_consumer_config api durable_name subject c p =
     rbind (validate_push_consumer_configuration c p) (\<lambda>_.
     rbind (load_api api) (\<lambda>a.
     rbind (consumer_common_kwargs api durable_name subject c) (\<lambda>kwargs.
       Inr (na_config a (AList.update ''max_ack_pending''
           (PInt (case cm_max_ack_pending c of Some n \<Rightarrow> if n \<noteq> 0 then n else int (pu_pending_msgs_limit p)
              | None \<Rightarrow> int (pu_pending_msgs_limit p)))
         (kwargs @ [(''deliver_subject'', opt_str (pu_deliver_subject p))]
           @ optional_kwarg ''deliver_group'' PStr (pu_deliver_group p)
           @ [(''flow_control'', PBool (pu_flow_control p))]
           @ optional_kwarg ''idle_heartbeat'' (\<lambda>q. PFloat (FFin q)) (pu_idle_heartbeat p)))))))"

section \<open>Drift\<close>

record consumer_drift =
  cd_field :: string
  cd_expected :: pyval
  cd_actual :: pyval

definition drift_if :: "bool \<Rightarrow> string \<Rightarrow> pyval \<Rightarrow> pyval \<Rightarrow> consumer_drift list" where
  "drift_if b name expected actual =
     (if b then [\<lparr>cd_field = name, cd_expected = expected, cd_actual = actual\<rparr>] else [])"

text \<open>\<open>consumer in {name, durable_name}\<close>.\<close>

definition consumer_name_matches :: "pylib \<Rightarrow> pyval \<Rightarrow> string \<Rightarrow> bool res" where
  "consumer_name_matches L existing consumer =
     rbind (consumer_field L existing ''name'') (\<lambda>name.
     rbind (consumer_field L existing ''durable_name'') (\<lambda>durable.
       if hashable name \<and> hashable durable then Inr (name = PStr consumer \<or> durable = PStr consumer)
       else raise TypeError ''unhashable type''))"

definition sorted_strs :: "string list \<Rightarrow> pyval" where
  "sorted_strs xs = PList (map PStr (sort xs))"

definition name_drift :: "pylib \<Rightarrow> pyval \<Rightarrow> string \<Rightarrow> consumer_drift list res" where
  "name_drift L existing durable_name =
     rbind (consumer_name_matches L existing durable_name) (\<lambda>ok.
       if ok then Inr []
       else rbind (consumer_field L existing ''durable_name'') (\<lambda>d.
         rbind (if py_truthy d then Inr d else consumer_field L existing ''name'') (\<lambda>actual.
           Inr (drift_if True ''durable_name'' (PStr durable_name) actual))))"

definition filter_drift :: "pylib \<Rightarrow> pyval \<Rightarrow> string list \<Rightarrow> consumer_drift list res" where
  "filter_drift L existing expected =
     rmap (\<lambda>actual. drift_if (set actual \<noteq> set expected) ''filter_subjects'' (sorted_strs expected) (sorted_strs actual))
       (existing_filter_subjects L existing)"

definition append_res :: "'a list res \<Rightarrow> 'a list res \<Rightarrow> 'a list res" where
  "append_res a b = rbind a (\<lambda>xs. rmap (\<lambda>ys. xs @ ys) b)"

definition identity_and_filter_drift :: "pylib \<Rightarrow> pyval \<Rightarrow> string \<Rightarrow> string list \<Rightarrow> consumer_drift list res" where
  "identity_and_filter_drift L existing durable_name expected =
     append_res (name_drift L existing durable_name)
       (append_res
         (rmap (\<lambda>d. drift_if (py_truthy d) ''deliver_subject'' PNone d) (consumer_field L existing ''deliver_subject''))
         (filter_drift L existing expected))"

definition enum_drift :: "pylib \<Rightarrow> pyval \<Rightarrow> string \<Rightarrow> string \<Rightarrow> consumer_drift list res" where
  "enum_drift L existing name expected =
     rmap (\<lambda>v. drift_if (v \<noteq> Some expected) name (PStr expected) (opt_str v))
       (rbind (consumer_field L existing name) (enum_value L))"

definition required_policy_drift :: "pylib \<Rightarrow> pyval \<Rightarrow> consumer_config \<Rightarrow> consumer_drift list res" where
  "required_policy_drift L existing c =
     append_res (enum_drift L existing ''ack_policy'' ''explicit'')
       (append_res (enum_drift L existing ''deliver_policy'' (cm_deliver_policy c))
         (enum_drift L existing ''replay_policy'' (cm_replay_policy c)))"

text \<open>A field compared by \<open>==\<close> when the configuration sets it.\<close>

definition plain_drift :: "pylib \<Rightarrow> pyval \<Rightarrow> string \<Rightarrow> pyval option \<Rightarrow> consumer_drift list res" where
  "plain_drift L existing name expected =
     (case expected of
        None \<Rightarrow> Inr []
      | Some e \<Rightarrow> rmap (\<lambda>actual. drift_if (\<not> scalar_eq e actual) name e actual) (consumer_field L existing name))"

definition ack_wait_drift :: "pylib \<Rightarrow> float_of \<Rightarrow> pyval \<Rightarrow> string \<Rightarrow> rat option \<Rightarrow> consumer_drift list res" where
  "ack_wait_drift L F existing name expected =
     rbind (consumer_field L existing name) (\<lambda>actual.
       rmap (\<lambda>ok. drift_if (\<not> ok) name (case expected of None \<Rightarrow> PNone | Some q \<Rightarrow> PFloat (FFin q)) actual)
         (float_equal F expected actual))"

definition backoff_drift :: "pylib \<Rightarrow> float_of \<Rightarrow> pyval \<Rightarrow> pyfloat list option \<Rightarrow> consumer_drift list res" where
  "backoff_drift L F existing expected =
     rbind (consumer_field L existing ''backoff'') (\<lambda>actual.
       rmap (\<lambda>ok. drift_if (\<not> ok) ''backoff'' (PList (case expected of None \<Rightarrow> [] | Some xs \<Rightarrow> map PFloat xs)) actual)
         (float_sequence_equal F expected actual))"

definition py_dict :: "pylib \<Rightarrow> pyval \<Rightarrow> (pyval \<times> pyval) list res" where
  "py_dict L v =
     (if is_mapping v then Inr (mapping_items v)
      else (case dict_constructor L v of Some kvs \<Rightarrow> Inr kvs | None \<Rightarrow> raise TypeError ''object is not a mapping''))"

definition metadata_drift :: "pylib \<Rightarrow> pyval \<Rightarrow> (string \<times> string) list \<Rightarrow> consumer_drift list res" where
  "metadata_drift L existing expected =
     (if expected = [] then Inr []
      else rbind (consumer_field L existing ''metadata'') (\<lambda>v.
        let actual = (if py_truthy v then v else PDict []) in
        rmap (\<lambda>items. drift_if (set items \<noteq> set (str_pairs expected)) ''metadata'' (PDict (str_pairs expected)) actual)
          (py_dict L actual)))"

definition optional_policy_drift :: "pylib \<Rightarrow> float_of \<Rightarrow> pyval \<Rightarrow> consumer_config \<Rightarrow> consumer_drift list res" where
  "optional_policy_drift L F existing c =
     append_res (plain_drift L existing ''headers_only'' (map_option PBool (cm_headers_only c)))
     (append_res (ack_wait_drift L F existing ''ack_wait'' (cm_ack_wait c))
     (append_res (backoff_drift L F existing (cm_backoff c))
     (append_res (plain_drift L existing ''max_deliver'' (map_option PInt (cm_max_deliver c)))
     (append_res (plain_drift L existing ''max_ack_pending'' (map_option PInt (cm_max_ack_pending c)))
     (append_res (plain_drift L existing ''max_waiting'' (map_option PInt (cm_max_waiting c)))
     (append_res (plain_drift L existing ''num_replicas'' (map_option PInt (cm_num_replicas c)))
     (append_res (plain_drift L existing ''mem_storage'' (map_option PBool (cm_memory_storage c)))
       (metadata_drift L existing (cm_metadata c)))))))))"

definition detect_consumer_drift ::
  "pylib \<Rightarrow> float_of \<Rightarrow> pyval \<Rightarrow> string \<Rightarrow> string \<Rightarrow> consumer_config \<Rightarrow> consumer_drift list res" where
  "detect_consumer_drift L F info durable_name subject c =
     rbind (existing_config L info) (\<lambda>existing.
     rbind (managed_filter_subjects subject c) (\<lambda>expected.
       append_res (identity_and_filter_drift L existing durable_name expected)
         (append_res (required_policy_drift L existing c) (optional_policy_drift L F existing c))))"

section \<open>Drift of push consumers\<close>

definition opt_str_drift :: "pylib \<Rightarrow> pyval \<Rightarrow> string \<Rightarrow> string option \<Rightarrow> consumer_drift list res" where
  "opt_str_drift L existing name expected =
     rmap (\<lambda>actual. drift_if (actual \<noteq> opt_str expected) name (opt_str expected) actual) (consumer_field L existing name)"

definition push_identity_and_filter_drift ::
  "pylib \<Rightarrow> pyval \<Rightarrow> string \<Rightarrow> string list \<Rightarrow> push_config \<Rightarrow> consumer_drift list res" where
  "push_identity_and_filter_drift L existing durable_name expected p =
     append_res (name_drift L existing durable_name)
     (append_res (opt_str_drift L existing ''deliver_subject'' (pu_deliver_subject p))
     (append_res (opt_str_drift L existing ''deliver_group'' (pu_deliver_group p))
       (filter_drift L existing expected)))"

definition push_optional_policy_drift ::
  "pylib \<Rightarrow> float_of \<Rightarrow> pyval \<Rightarrow> consumer_config \<Rightarrow> push_config \<Rightarrow> consumer_drift list res" where
  "push_optional_policy_drift L F existing c p =
     append_res (optional_policy_drift L F existing c)
     (append_res
       (plain_drift L existing ''max_ack_pending''
         (if cm_max_ack_pending c = None then Some (PInt (int (pu_pending_msgs_limit p))) else None))
     (append_res (plain_drift L existing ''flow_control'' (Some (PBool (pu_flow_control p))))
       (ack_wait_drift L F existing ''idle_heartbeat'' (pu_idle_heartbeat p))))"

definition detect_push_consumer_drift ::
  "pylib \<Rightarrow> float_of \<Rightarrow> pyval \<Rightarrow> string \<Rightarrow> string \<Rightarrow> consumer_config \<Rightarrow> push_config \<Rightarrow> consumer_drift list res" where
  "detect_push_consumer_drift L F info durable_name subject c p =
     rbind (validate_push_consumer_configuration c p) (\<lambda>_.
     rbind (existing_config L info) (\<lambda>existing.
     rbind (managed_filter_subjects subject c) (\<lambda>expected.
       append_res (push_identity_and_filter_drift L existing durable_name expected p)
         (append_res (required_policy_drift L existing c) (push_optional_policy_drift L F existing c p)))))"

section \<open>What no drift means\<close>

lemma append_res_Nil [simp]: "append_res a b = Inr [] \<longleftrightarrow> a = Inr [] \<and> b = Inr []"
  by (auto simp: append_res_def rbind_Inr_iff rmap_Inr_iff)

lemma drift_if_Nil [simp]: "drift_if b n e a = [] \<longleftrightarrow> \<not> b"
  by (simp add: drift_if_def)

lemma rmap_Nil: "rmap f r = Inr [] \<longleftrightarrow> (\<exists>x. r = Inr x \<and> f x = [])"
  by (auto simp: rmap_Inr_iff)

text \<open>A server whose reports have the fields of a keyword dictionary, and nothing else.\<close>

definition reports :: "pylib \<Rightarrow> pyval \<Rightarrow> (string \<times> pyval) list \<Rightarrow> bool" where
  "reports L existing kwargs \<longleftrightarrow> existing \<noteq> PNone \<and>
     (\<forall>name. consumer_field L existing name = Inr (case map_of kwargs name of Some v \<Rightarrow> v | None \<Rightarrow> PNone))"

text \<open>Enumeration members have their policy names as values.\<close>

definition enum_members :: "pylib \<Rightarrow> nats_api \<Rightarrow> consumer_config \<Rightarrow> bool" where
  "enum_members L a c \<longleftrightarrow> enum_value L (na_explicit a) = Inr (Some ''explicit'')
     \<and> enum_value L (na_deliver a (deliver_policy_name (cm_deliver_policy c))) = Inr (Some (cm_deliver_policy c))
     \<and> enum_value L (na_replay a (replay_policy_name (cm_replay_policy c))) = Inr (Some (cm_replay_policy c))"

lemma float_items_refl: "float_items_equal F xs (map PFloat xs) = Inr True"
proof (induction xs)
  case (Cons x xs)
  have "\<not> float_far x x" by (cases x) auto
  with Cons show ?case by (simp add: py_float_def)
qed simp

lemma float_equal_refl: "float_equal F (Some q) (PFloat (FFin q)) = Inr True"
  by (simp add: float_equal_def py_float_def)

lemma scalar_eq_refl: "v \<in> range PInt \<union> range PBool \<Longrightarrow> scalar_eq v v"
  by (auto simp: scalar_eq_def)

lemma subset_sound:
  assumes "subject_pattern_is_subset c a" "matches_subject c (PStr s)"
  shows "matches_subject a (PStr s)"
proof -
  obtain p q where v: "validate_subject_pattern c = Inr p" "validate_subject_pattern a = Inr q"
    using assms(1) by (auto simp: subject_pattern_is_subset_def split: sum.splits)
  note valid = validate_subject_pattern_cases [OF v(1)] validate_subject_pattern_cases [OF v(2)]
  have "subset_tokens (split_on (CHR ''.'') p) (split_on (CHR ''.'') q)" using assms(1) subset_of_valid [OF v] by simp
  with assms(2) valid subset_tokens_sound show ?thesis by (auto simp: matches_subject_def matches_text_def)
qed

lemma subset_candidate_nonempty: "subject_pattern_is_subset (PStr f) a \<Longrightarrow> f \<noteq> []"
  by (cases f) (auto simp: subject_pattern_is_subset_def validate_subject_pattern_def raise_def split: sum.splits)

lemma managed_filters:
  assumes "managed_filter_subjects subject c = Inr fs" "subject \<noteq> []"
  shows "fs \<noteq> []" "[] \<notin> set fs"
    "f \<in> set fs \<Longrightarrow> matches_subject (PStr f) (PStr s) \<Longrightarrow> matches_subject (PStr subject) (PStr s)"
proof -
  have "cm_filter_subjects c = [] \<and> fs = [subject]
      \<or> fs = cm_filter_subjects c \<and> fs \<noteq> [] \<and> (\<forall>f\<in>set fs. subject_pattern_is_subset (PStr f) (PStr subject))"
    using assms(1) by (auto simp: managed_filter_subjects_def raise_def split: if_splits)
  with assms(2) subset_candidate_nonempty subset_sound
  show "fs \<noteq> []" "[] \<notin> set fs"
    "f \<in> set fs \<Longrightarrow> matches_subject (PStr f) (PStr s) \<Longrightarrow> matches_subject (PStr subject) (PStr s)"
    by (auto, blast)
qed

lemma enum_drift_Nil:
  "enum_drift L existing name expected = Inr [] \<longleftrightarrow>
    (\<exists>v. consumer_field L existing name = Inr v \<and> enum_value L v = Inr (Some expected))"
  by (auto simp: enum_drift_def rmap_Nil rbind_Inr_iff)

lemma filter_drift_Nil:
  "filter_drift L existing expected = Inr [] \<longleftrightarrow> (\<exists>fs. existing_filter_subjects L existing = Inr fs \<and> set fs = set expected)"
  by (auto simp: filter_drift_def rmap_Nil)

lemma detect_Nil:
  "detect_consumer_drift L F info durable_name subject c = Inr [] \<longleftrightarrow>
    (\<exists>existing expected. existing_config L info = Inr existing \<and> managed_filter_subjects subject c = Inr expected
      \<and> name_drift L existing durable_name = Inr []
      \<and> (\<exists>d. consumer_field L existing ''deliver_subject'' = Inr d \<and> \<not> py_truthy d)
      \<and> filter_drift L existing expected = Inr []
      \<and> required_policy_drift L existing c = Inr [] \<and> optional_policy_drift L F existing c = Inr [])"
  by (simp add: detect_consumer_drift_def rbind_Inr_iff identity_and_filter_drift_def rmap_Nil)

section \<open>Consumers made from a configuration\<close>

lemma map_of_kwarg [simp]: "map_of (optional_kwarg n f x @ kw) m = (if n = m \<and> x \<noteq> None then map_option f x else map_of kw m)"
  "map_of (optional_kwarg n f x) m = (if n = m then map_option f x else None)"
  by (auto simp: optional_kwarg_def split: option.split)

lemma plain_drift_reported:
  assumes "consumer_field L existing name = Inr (case map_option f x of Some v \<Rightarrow> v | None \<Rightarrow> PNone)"
    "\<And>y. f y \<in> range PInt \<union> range PBool"
  shows "plain_drift L existing name (map_option f x) = Inr []"
  using assms scalar_eq_refl by (cases x) (auto simp: plain_drift_def)

definition pull_kwargs :: "nats_api \<Rightarrow> string \<Rightarrow> consumer_config \<Rightarrow> string list \<Rightarrow> (string \<times> pyval) list" where
  "pull_kwargs a durable_name c filters =
     required_kwargs a durable_name c filters @ optional_kwarg ''max_waiting'' PInt (cm_max_waiting c) @ storage_kwargs c"

lemma pull_kwargs_lookup:
  "map_of (pull_kwargs a d c fs) ''name'' = Some (PStr d)"
  "map_of (pull_kwargs a d c fs) ''durable_name'' = Some (PStr d)"
  "map_of (pull_kwargs a d c fs) ''ack_policy'' = Some (na_explicit a)"
  "map_of (pull_kwargs a d c fs) ''deliver_policy'' = Some (na_deliver a (deliver_policy_name (cm_deliver_policy c)))"
  "map_of (pull_kwargs a d c fs) ''replay_policy'' = Some (na_replay a (replay_policy_name (cm_replay_policy c)))"
  "map_of (pull_kwargs a d c fs) ''deliver_subject'' = None"
  "map_of (pull_kwargs a d c fs) ''ack_wait'' = map_option (\<lambda>q. PFloat (FFin q)) (cm_ack_wait c)"
  "map_of (pull_kwargs a d c fs) ''backoff'' = map_option (\<lambda>xs. PList (map PFloat xs)) (cm_backoff c)"
  "map_of (pull_kwargs a d c fs) ''max_deliver'' = map_option PInt (cm_max_deliver c)"
  "map_of (pull_kwargs a d c fs) ''max_ack_pending'' = map_option PInt (cm_max_ack_pending c)"
  "map_of (pull_kwargs a d c fs) ''max_waiting'' = map_option PInt (cm_max_waiting c)"
  "map_of (pull_kwargs a d c fs) ''headers_only'' = map_option PBool (cm_headers_only c)"
  "map_of (pull_kwargs a d c fs) ''num_replicas'' = map_option PInt (cm_num_replicas c)"
  "map_of (pull_kwargs a d c fs) ''mem_storage'' = map_option PBool (cm_memory_storage c)"
  "map_of (pull_kwargs a d c fs) ''metadata'' = (if cm_metadata c \<noteq> [] then Some (PDict (str_pairs (cm_metadata c))) else None)"
  "map_of (pull_kwargs a d c [f]) ''filter_subjects'' = None"
  "map_of (pull_kwargs a d c [f]) ''filter_subject'' = Some (PStr f)"
  "\<forall>f. fs \<noteq> [f] \<Longrightarrow> map_of (pull_kwargs a d c fs) ''filter_subjects'' = Some (PList (map PStr fs))"
  by (simp_all add: pull_kwargs_def required_kwargs_def storage_kwargs_def map_add_def split: list.split option.split)

lemma pull_config_no_drift:
  assumes "reports L existing (pull_kwargs a d c fs)" "enum_members L a c" "fs \<noteq> []" "[] \<notin> set fs"
  shows "name_drift L existing d = Inr []" "consumer_field L existing ''deliver_subject'' = Inr PNone"
    "filter_drift L existing fs = Inr []" "required_policy_drift L existing c = Inr []" "optional_policy_drift L F existing c = Inr []"
proof -
  have field: "consumer_field L existing name = Inr (case map_of (pull_kwargs a d c fs) name of Some v \<Rightarrow> v | None \<Rightarrow> PNone)" for name
    using assms(1) by (simp add: reports_def)
  show "name_drift L existing d = Inr []"
    by (simp add: name_drift_def consumer_name_matches_def field pull_kwargs_lookup)
  show "consumer_field L existing ''deliver_subject'' = Inr PNone" by (simp add: field pull_kwargs_lookup)
  have "existing_filter_subjects L existing = Inr fs"
  proof (cases "\<exists>f. fs = [f]")
    case True
    then obtain f where "fs = [f]" by blast
    moreover from this assms(4) obtain x xs where "f = x # xs" by (cases f) auto
    ultimately show ?thesis
      by (simp add: existing_filter_subjects_def field pull_kwargs_lookup list_or_tuple_def)
  next
    case False
    have "rmapM (str_or_raise (l_str L)) (map PStr fs) = Inr fs" by (induction fs) simp_all
    with False assms(3) show ?thesis
      by (cases fs) (simp_all add: existing_filter_subjects_def field pull_kwargs_lookup list_or_tuple_def)
  qed
  then show "filter_drift L existing fs = Inr []" by (simp add: filter_drift_Nil)
  show "required_policy_drift L existing c = Inr []"
    using assms(2) by (simp add: required_policy_drift_def enum_drift_Nil field pull_kwargs_lookup enum_members_def)
  have plain: "plain_drift L existing name (map_option f x) = Inr []"
    if "map_of (pull_kwargs a d c fs) name = map_option f x" "\<And>y. f y \<in> range PInt \<union> range PBool" for name x and f :: "'x \<Rightarrow> pyval"
    using that by (intro plain_drift_reported) (simp_all add: field)
  have "ack_wait_drift L F existing ''ack_wait'' (cm_ack_wait c) = Inr []"
    by (cases "cm_ack_wait c") (auto simp: ack_wait_drift_def field pull_kwargs_lookup rmap_Nil float_equal_refl float_equal_def [of F None])
  moreover have "backoff_drift L F existing (cm_backoff c) = Inr []"
    by (cases "cm_backoff c")
      (simp_all add: backoff_drift_def field pull_kwargs_lookup rmap_Nil float_sequence_equal_def list_or_tuple_def float_items_refl)
  moreover have "metadata_drift L existing (cm_metadata c) = Inr []"
    by (cases "cm_metadata c") (simp_all add: metadata_drift_def field pull_kwargs_lookup str_pairs_def py_dict_def Let_def)
  ultimately show "optional_policy_drift L F existing c = Inr []"
    unfolding optional_policy_drift_def append_res_Nil
    by (intro conjI plain pull_kwargs_lookup) auto
qed

text \<open>A consumer made from a configuration has no drift against it.  When the client class stores its
  keyword arguments, its policy members have their names as values, and the server reports the
  configuration it was given, then the drift check of that report, under the same configuration,
  finds nothing; so a runner that created a consumer starts again on it.\<close>

theorem created_consumer_has_no_drift:
  assumes "build_consumer_config (Some a) durable_name subject c = Inr cfg" "subject \<noteq> []"
    "\<forall>kw. reports L (na_config a kw) kw" "enum_members L a c" "consumer_field L info ''config'' = Inr cfg"
  shows "detect_consumer_drift L F info durable_name subject c = Inr []"
proof -
  obtain fs where fs: "managed_filter_subjects subject c = Inr fs" and cfg: "cfg = na_config a (pull_kwargs a durable_name c fs)"
    using assms(1) by (auto simp: build_consumer_config_def load_api_def rbind_Inr_iff pull_kwargs_def)
  have rep: "reports L cfg (pull_kwargs a durable_name c fs)" using assms(3) cfg by simp
  have "existing_config L info = Inr cfg" using assms(5) rep by (simp add: existing_config_def reports_def)
  with pull_config_no_drift [OF rep assms(4) managed_filters(1,2) [OF fs assms(2)]] fs
  show ?thesis by (simp add: detect_Nil)
qed

text \<open>C31: no drift means the subscription cannot be wider than configured.  When the drift check of an
  existing consumer finds nothing, that consumer has explicit acknowledgement, delivers by pull, has
  the configured deliver and replay policies, and every subject any of its filters matches is matched
  by the configured subject.\<close>

theorem no_drift_no_wider:
  assumes "detect_consumer_drift L F info durable_name subject c = Inr []" "subject \<noteq> []"
  shows "\<exists>existing ack deliver replay push filters. existing_config L info = Inr existing
    \<and> consumer_field L existing ''ack_policy'' = Inr ack \<and> enum_value L ack = Inr (Some ''explicit'')
    \<and> consumer_field L existing ''deliver_policy'' = Inr deliver \<and> enum_value L deliver = Inr (Some (cm_deliver_policy c))
    \<and> consumer_field L existing ''replay_policy'' = Inr replay \<and> enum_value L replay = Inr (Some (cm_replay_policy c))
    \<and> consumer_field L existing ''deliver_subject'' = Inr push \<and> \<not> py_truthy push
    \<and> existing_filter_subjects L existing = Inr filters \<and> filters \<noteq> []
    \<and> (\<forall>f\<in>set filters. \<forall>s. matches_subject (PStr f) (PStr s) \<longrightarrow> matches_subject (PStr subject) (PStr s))"
proof -
  from assms(1) obtain existing expected push where e: "existing_config L info = Inr existing"
    "managed_filter_subjects subject c = Inr expected" "consumer_field L existing ''deliver_subject'' = Inr push" "\<not> py_truthy push"
    "filter_drift L existing expected = Inr []" "required_policy_drift L existing c = Inr []"
    unfolding detect_Nil by blast
  from e(5) obtain filters where f: "existing_filter_subjects L existing = Inr filters" "set filters = set expected"
    by (auto simp: filter_drift_Nil)
  have "filters \<noteq> []" "\<forall>f\<in>set filters. \<forall>s. matches_subject (PStr f) (PStr s) \<longrightarrow> matches_subject (PStr subject) (PStr s)"
    using managed_filters [OF e(2) assms(2)] f(2) by auto
  with e f show ?thesis unfolding required_policy_drift_def append_res_Nil enum_drift_Nil by blast
qed

text \<open>A NaN back-off is accepted and then matches any delay.  The configuration validator lets a NaN
  pass as a back-off entry, and the drift check accepts every delay the server reports in its place,
  so a consumer whose back-off was never configured counts as the configured one.\<close>

theorem nan_backoff_matches_anything:
  "normalize_backoff_seconds F (PList [PFloat FNaN]) = Inr (Some [FNaN])
    \<and> float_sequence_equal F (Some [FNaN]) (PList [PFloat x]) = Inr True"
  by (cases x) (simp_all add: normalize_backoff_seconds_def list_or_tuple_def backoff_entry_def py_float_def
      float_less_def float_sequence_equal_def)

section \<open>Concrete consumers\<close>

text \<open>A client whose configuration objects are dictionaries of the keyword arguments.\<close>

definition dict_api :: nats_api where
  "dict_api =
     \<lparr>na_explicit = PStr ''explicit'', na_deliver = (\<lambda>n. PStr (lower n)), na_replay = (\<lambda>n. PStr (lower n)),
      na_config = (\<lambda>kw. PDict (map (\<lambda>(k, v). (PStr k, v)) kw))\<rparr>"

definition sample_consumer_config :: consumer_config where
  "sample_consumer_config =
     \<lparr>cm_mode = Create_if_missing, cm_filter_subjects = [''orders.eu.*''], cm_deliver_policy = ''all'',
      cm_replay_policy = ''instant'', cm_ack_wait = Some 30, cm_max_deliver = Some 5, cm_backoff = None,
      cm_max_ack_pending = None, cm_max_waiting = None, cm_headers_only = None, cm_num_replicas = None,
      cm_memory_storage = None, cm_metadata = [(''team'', ''ops'')]\<rparr>"

lemma map_of_str_keys: "map_of (map (\<lambda>(k, v). (PStr k, v)) kw) (PStr n) = map_of kw n"
  by (induction kw) auto

lemma dict_api_reports: "reports L (na_config dict_api kw) kw"
  by (simp add: reports_def dict_api_def consumer_field_def py_get_def map_of_str_keys split: option.split)

lemma dict_api_members: "enum_members plain_lib dict_api sample_consumer_config"
  by code_simp

lemma sample_consumer_built:
  "build_consumer_config (Some dict_api) ''worker'' ''orders.>'' sample_consumer_config
    = Inr (na_config dict_api (pull_kwargs dict_api ''worker'' sample_consumer_config [''orders.eu.*'']))"
  by code_simp

lemma created_consumer_has_no_drift_witness:
  "\<exists>info. detect_consumer_drift plain_lib (\<lambda>_. Inr FNaN) info ''worker'' ''orders.>'' sample_consumer_config = Inr []"
proof -
  let ?cfg = "na_config dict_api (pull_kwargs dict_api ''worker'' sample_consumer_config [''orders.eu.*''])"
  have "consumer_field plain_lib (PDict [(PStr ''config'', ?cfg)]) ''config'' = Inr ?cfg"
    by (simp add: consumer_field_def py_get_def)
  from created_consumer_has_no_drift [OF sample_consumer_built _ _ dict_api_members this] dict_api_reports
  show ?thesis by blast
qed

lemma no_drift_no_wider_witness:
  "\<exists>info filters. detect_consumer_drift plain_lib (\<lambda>_. Inr FNaN) info ''worker'' ''orders.>'' sample_consumer_config = Inr []
    \<and> (\<exists>existing. existing_config plain_lib info = Inr existing \<and> existing_filter_subjects plain_lib existing = Inr filters)"
proof -
  let ?kw = "pull_kwargs dict_api ''worker'' sample_consumer_config [''orders.eu.*'']"
  let ?info = "PDict [(PStr ''config'', na_config dict_api ?kw)]"
  have "existing_config plain_lib ?info = Inr (na_config dict_api ?kw)"
    using dict_api_reports [of plain_lib ?kw] by (simp add: existing_config_def consumer_field_def py_get_def reports_def)
  moreover have "managed_filter_subjects ''orders.>'' sample_consumer_config = Inr [''orders.eu.*'']" by code_simp
  moreover note pull_config_no_drift [OF dict_api_reports dict_api_members]
  ultimately have none: "detect_consumer_drift plain_lib (\<lambda>_. Inr FNaN) ?info ''worker'' ''orders.>'' sample_consumer_config = Inr []"
    by (simp add: detect_Nil)
  from no_drift_no_wider [OF this] none show ?thesis by blast
qed

end
