(* ===== verification/ConsumerStartup.thy ===== *)
theory ConsumerStartup
  imports ConsumerPolicy Settlement
begin

text \<open>
  Preparing the consumer before any message is fetched (\<open>ensure_jetstream_consumer\<close>,
  \<open>ensure_jetstream_push_consumer\<close>), and the timing checks for progress heartbeats.
\<close>

section \<open>Heartbeat timing\<close>

definition validate_in_progress_consumer_policy ::
  "in_progress_config \<Rightarrow> consumer_config \<Rightarrow> bool option \<Rightarrow> unit res" where
  "validate_in_progress_consumer_policy ip c durable =
     (if \<not> ip_enabled ip then Inr ()
      else if durable = Some False then raise ConfigurationError ''delivery.in_progress.enabled requires nats.durable=true''
      else if cm_backoff c \<noteq> None
      then raise ConfigurationError ''delivery.in_progress.enabled does not yet support consumer_management.backoff_seconds''
      else (case cm_ack_wait c of
          None \<Rightarrow>
            if cm_mode c = Bind_only then Inr ()
            else raise ConfigurationError ''delivery.in_progress.enabled requires consumer_management.ack_wait_seconds''
        | Some w \<Rightarrow>
            if w * 1000 * (4 / 5) \<le> of_int (ip_interval_ms ip)
            then raise ConfigurationError ''delivery.in_progress.interval_ms must be meaningfully lower than ack_wait_seconds''
            else Inr ()))"

definition validate_in_progress_effective_consumer_policy ::
  "pylib \<Rightarrow> float_of \<Rightarrow> pyval \<Rightarrow> in_progress_config option \<Rightarrow> unit res" where
  "validate_in_progress_effective_consumer_policy L F info in_progress =
     (case in_progress of
        None \<Rightarrow> Inr ()
      | Some ip \<Rightarrow>
          if \<not> ip_enabled ip then Inr ()
          else rbind (existing_config L info) (\<lambda>existing.
            rbind (consumer_field L existing ''backoff'') (\<lambda>backoff.
              if has_effective_backoff backoff
              then raise ConfigurationError ''delivery.in_progress.enabled does not yet support an effective JetStream BackOff policy''
              else rbind (consumer_field L existing ''ack_wait'') (\<lambda>ack_wait.
                case py_float F ack_wait of
                  Inl err \<Rightarrow> if bad_float err
                    then raise ConfigurationError ''delivery.in_progress.enabled requires a readable effective ack_wait'' else Inl err
                | Inr w \<Rightarrow>
                    if float_le w (FFin 0)
                    then raise ConfigurationError ''delivery.in_progress.enabled requires a positive effective ack_wait''
                    else (case w of
                        FFin q \<Rightarrow>
                          if q * 1000 * (4 / 5) \<le> of_int (ip_interval_ms ip)
                          then raise ConfigurationError ''delivery.in_progress.interval_ms must be below 80% of the effective AckWait window''
                          else Inr ()
                      | _ \<Rightarrow> raise ConfigurationError ''delivery.in_progress.enabled requires a finite effective ack_wait'')))))"

section \<open>The JetStream context\<close>

text \<open>
  The calls made on the context, in order, and what it answers: which methods it has, the signature
  of \<open>subscribe\<close>, and for each call an outcome that may depend on the calls made before.
\<close>

datatype js_call = Consumer_info | Add_consumer pyval

datatype subscribe_api = Not_callable | No_signature | Parameters "string list"

record jetstream =
  js_has_info :: bool
  js_has_add :: bool
  js_subscribe :: subscribe_api
  js_info :: "js_call list \<Rightarrow> pyval res"
  js_add :: "js_call list \<Rightarrow> pyval \<Rightarrow> exn option"

type_synonym 'a js_act = "js_call list \<Rightarrow> 'a res \<times> js_call list"

definition js_ret :: "'a res \<Rightarrow> 'a js_act" where
  "js_ret r h = (r, h)"

definition js_bind :: "'a js_act \<Rightarrow> ('a \<Rightarrow> 'b js_act) \<Rightarrow> 'b js_act" where
  "js_bind m f h = (case m h of (Inl err, h') \<Rightarrow> (Inl err, h') | (Inr x, h') \<Rightarrow> f x h')"

definition is_not_found_error :: "exn \<Rightarrow> bool" where
  "is_not_found_error err \<longleftrightarrow> class_name (exn_cls err) = ''NotFoundError''"

definition consumer_info :: "jetstream \<Rightarrow> pyval option js_act" where
  "consumer_info js h =
     (if \<not> js_has_info js then (raise ConfigurationError ''JetStream context does not support consumer_info'', h)
      else ((case js_info js h of
          Inr v \<Rightarrow> Inr (if v = PNone then None else Some v)
        | Inl err \<Rightarrow>
            if \<not> isinstance err PyException then Inl err
            else if is_not_found_error err then Inr None
            else raise ConfigurationError ''failed to read JetStream consumer configuration''), h @ [Consumer_info]))"

definition add_consumer :: "jetstream \<Rightarrow> pyval res \<Rightarrow> unit js_act" where
  "add_consumer js built h =
     (if \<not> js_has_add js then (raise ConfigurationError ''JetStream context does not support add_consumer'', h)
      else (case built of
          Inl err \<Rightarrow> (Inl err, h)
        | Inr cfg \<Rightarrow> ((case js_add js h cfg of None \<Rightarrow> Inr () | Some err \<Rightarrow> Inl err), h @ [Add_consumer cfg])))"

definition verify_created_or_reconciled_consumer ::
  "pylib \<Rightarrow> float_of \<Rightarrow> jetstream \<Rightarrow> in_progress_config option \<Rightarrow> unit js_act" where
  "verify_created_or_reconciled_consumer L F js in_progress =
     (case in_progress of
        None \<Rightarrow> js_ret (Inr ())
      | Some ip \<Rightarrow>
          if \<not> ip_enabled ip then js_ret (Inr ())
          else js_bind (consumer_info js) (\<lambda>existing.
            case existing of
              None \<Rightarrow> js_ret (raise ConfigurationError ''delivery.in_progress.enabled requires JetStream consumer policy verification'')
            | Some info \<Rightarrow> js_ret (validate_in_progress_effective_consumer_policy L F info in_progress)))"

section \<open>Startup\<close>

datatype startup_action = Skipped_ephemeral | Created | Reconciled | Bound

text \<open>
  The part the two modes share: \<open>built\<close> is the configuration the mode would send, \<open>drift\<close> its check of
  an existing consumer.
\<close>

definition ensure_durable ::
  "pylib \<Rightarrow> float_of \<Rightarrow> jetstream \<Rightarrow> consumer_mode \<Rightarrow> pyval res \<Rightarrow> (pyval \<Rightarrow> consumer_drift list res)
    \<Rightarrow> in_progress_config option \<Rightarrow> startup_action js_act" where
  "ensure_durable L F js mode built drift in_progress =
     js_bind (consumer_info js) (\<lambda>existing.
       case existing of
         None \<Rightarrow>
           if mode = Bind_only then js_ret (raise ConfigurationError ''JetStream durable consumer does not exist'')
           else js_bind (add_consumer js built) (\<lambda>_.
             js_bind (verify_created_or_reconciled_consumer L F js in_progress) (\<lambda>_. js_ret (Inr Created)))
       | Some info \<Rightarrow>
           js_bind (js_ret (drift info)) (\<lambda>items.
             if items \<noteq> [] then js_ret (raise ConfigurationError ''JetStream durable consumer configuration drift detected'')
             else js_bind (js_ret (validate_in_progress_effective_consumer_policy L F info in_progress)) (\<lambda>_.
               if mode = Reconcile
               then js_bind (add_consumer js built) (\<lambda>_.
                 js_bind (verify_created_or_reconciled_consumer L F js in_progress) (\<lambda>_. js_ret (Inr Reconciled)))
               else js_ret (Inr Bound))))"

definition ensure_jetstream_consumer ::
  "pylib \<Rightarrow> float_of \<Rightarrow> nats_api option \<Rightarrow> jetstream \<Rightarrow> string \<Rightarrow> string \<Rightarrow> bool \<Rightarrow> consumer_config
    \<Rightarrow> in_progress_config option \<Rightarrow> startup_action js_act" where
  "ensure_jetstream_consumer L F api js durable_name subject durable c in_progress =
     (if (case in_progress of None \<Rightarrow> False | Some ip \<Rightarrow> ip_enabled ip) \<and> \<not> durable
      then js_ret (raise ConfigurationError ''delivery.in_progress.enabled requires a durable JetStream consumer'')
      else if \<not> durable then js_ret (Inr Skipped_ephemeral)
      else ensure_durable L F js (cm_mode c) (build_consumer_config api durable_name subject c)
        (\<lambda>info. detect_consumer_drift L F info durable_name subject c) in_progress)"

definition detect_push_consumer_capabilities :: "jetstream \<Rightarrow> string list" where
  "detect_push_consumer_capabilities js =
     (case js_subscribe js of
        Not_callable \<Rightarrow> [''subscribe'']
      | No_signature \<Rightarrow> [''subscribe_signature'']
      | Parameters ps \<Rightarrow>
          sort (filter (\<lambda>p. p \<notin> set ps) [''cb'', ''config'', ''manual_ack'', ''pending_msgs_limit'', ''pending_bytes_limit'']))"

definition validate_push_consumer_capabilities :: "jetstream \<Rightarrow> push_config \<Rightarrow> unit res" where
  "validate_push_consumer_capabilities js p =
     (if \<not> pu_enabled p then Inr ()
      else (let missing = detect_push_consumer_capabilities js @
          (case js_subscribe js of
             Not_callable \<Rightarrow> []
           | No_signature \<Rightarrow> [''subscribe_signature'']
           | Parameters ps \<Rightarrow>
               (if pu_flow_control p \<and> ''flow_control'' \<notin> set ps then [''flow_control''] else [])
               @ (if pu_idle_heartbeat p \<noteq> None \<and> ''idle_heartbeat'' \<notin> set ps then [''idle_heartbeat''] else []))
        in if missing \<noteq> []
           then raise ConfigurationError ''JetStream context does not expose the required push-consumer API'' else Inr ()))"

definition ensure_jetstream_push_consumer ::
  "pylib \<Rightarrow> float_of \<Rightarrow> nats_api option \<Rightarrow> jetstream \<Rightarrow> string \<Rightarrow> string \<Rightarrow> bool \<Rightarrow> consumer_config \<Rightarrow> push_config
    \<Rightarrow> in_progress_config option \<Rightarrow> startup_action js_act" where
  "ensure_jetstream_push_consumer L F api js durable_name subject durable c p in_progress =
     js_bind (js_ret (validate_push_consumer_capabilities js p)) (\<lambda>_.
     js_bind (js_ret (validate_push_consumer_configuration c p)) (\<lambda>_.
       if (case in_progress of None \<Rightarrow> False | Some ip \<Rightarrow> ip_enabled ip) \<and> \<not> durable
       then js_ret (raise ConfigurationError ''delivery.in_progress.enabled requires a durable JetStream consumer'')
       else if \<not> durable then js_ret (Inr Skipped_ephemeral)
       else ensure_durable L F js (cm_mode c) (build_push_consumer_config api durable_name subject c p)
         (\<lambda>info. detect_push_consumer_drift L F info durable_name subject c p) in_progress))"

section \<open>What startup guarantees\<close>

lemma js_bind_Inr: "js_bind m f h = (Inr y, h') \<longleftrightarrow> (\<exists>x h1. m h = (Inr x, h1) \<and> f x h1 = (Inr y, h'))"
  by (auto simp: js_bind_def split: prod.splits sum.splits)

lemma js_ret_Inr [simp]: "js_ret r h = (Inr x, h') \<longleftrightarrow> r = Inr x \<and> h' = h"
  by (auto simp: js_ret_def)

lemma consumer_info_Inr:
  "consumer_info js h = (Inr r, h') \<longleftrightarrow> js_has_info js \<and> h' = h @ [Consumer_info]
    \<and> (case js_info js h of Inr v \<Rightarrow> r = (if v = PNone then None else Some v)
       | Inl err \<Rightarrow> isinstance err PyException \<and> is_not_found_error err \<and> r = None)"
  by (auto simp: consumer_info_def raise_def split: sum.splits if_splits)

lemma add_consumer_Inr:
  "add_consumer js built h = (Inr u, h') \<longleftrightarrow> js_has_add js
    \<and> (\<exists>cfg. built = Inr cfg \<and> js_add js h cfg = None \<and> h' = h @ [Add_consumer cfg])"
  by (auto simp: add_consumer_def raise_def split: sum.splits option.splits)

definition heartbeats_on :: "in_progress_config option \<Rightarrow> bool" where
  "heartbeats_on in_progress \<longleftrightarrow> (case in_progress of None \<Rightarrow> False | Some ip \<Rightarrow> ip_enabled ip)"

text \<open>The last consumer the server reported allows the heartbeats.\<close>

definition timing_checked :: "pylib \<Rightarrow> float_of \<Rightarrow> jetstream \<Rightarrow> in_progress_config option \<Rightarrow> js_call list \<Rightarrow> bool" where
  "timing_checked L F js in_progress h \<longleftrightarrow>
     (heartbeats_on in_progress \<longrightarrow> (\<exists>before info. h = before @ [Consumer_info] \<and> js_info js before = Inr info \<and> info \<noteq> PNone
       \<and> validate_in_progress_effective_consumer_policy L F info in_progress = Inr ()))"

lemma verify_Inr:
  assumes "verify_created_or_reconciled_consumer L F js in_progress h = (Inr u, h')"
  shows "timing_checked L F js in_progress h'" "h' = h \<or> h' = h @ [Consumer_info]"
  using assms
  by (auto simp: verify_created_or_reconciled_consumer_def timing_checked_def heartbeats_on_def js_bind_Inr consumer_info_Inr
      raise_def split: option.splits if_splits sum.splits)

lemma ensure_durable_Inr:
  assumes "ensure_durable L F js mode built drift in_progress h = (Inr action, h')"
  obtains (created) cfg where "action = Created" "mode \<noteq> Bind_only" "built = Inr cfg"
      "js_info js h = Inr PNone \<or> (\<exists>err. js_info js h = Inl err \<and> is_not_found_error err)"
      "h' = h @ [Consumer_info, Add_consumer cfg] \<or> h' = h @ [Consumer_info, Add_consumer cfg, Consumer_info]"
      "timing_checked L F js in_progress h'"
  | (reconciled) info cfg where "action = Reconciled" "mode = Reconcile" "js_info js h = Inr info" "drift info = Inr []" "built = Inr cfg"
      "h' = h @ [Consumer_info, Add_consumer cfg] \<or> h' = h @ [Consumer_info, Add_consumer cfg, Consumer_info]"
      "timing_checked L F js in_progress h'"
  | (bound) info where "action = Bound" "mode \<noteq> Reconcile" "js_info js h = Inr info" "drift info = Inr []" "h' = h @ [Consumer_info]"
      "timing_checked L F js in_progress h'"
proof -
  from assms obtain r where r: "consumer_info js h = (Inr r, h @ [Consumer_info])"
    and rest: "(case r of
         None \<Rightarrow>
           if mode = Bind_only then js_ret (raise ConfigurationError ''JetStream durable consumer does not exist'')
           else js_bind (add_consumer js built) (\<lambda>_.
             js_bind (verify_created_or_reconciled_consumer L F js in_progress) (\<lambda>_. js_ret (Inr Created)))
       | Some info \<Rightarrow>
           js_bind (js_ret (drift info)) (\<lambda>items.
             if items \<noteq> [] then js_ret (raise ConfigurationError ''JetStream durable consumer configuration drift detected'')
             else js_bind (js_ret (validate_in_progress_effective_consumer_policy L F info in_progress)) (\<lambda>_.
               if mode = Reconcile
               then js_bind (add_consumer js built) (\<lambda>_.
                 js_bind (verify_created_or_reconciled_consumer L F js in_progress) (\<lambda>_. js_ret (Inr Reconciled)))
               else js_ret (Inr Bound)))) (h @ [Consumer_info]) = (Inr action, h')"
    unfolding ensure_durable_def js_bind_Inr by (auto simp: consumer_info_Inr)
  note info = r [unfolded consumer_info_Inr]
  show thesis
  proof (cases r)
    case None
    with rest obtain cfg u where c: "action = Created" "mode \<noteq> Bind_only" "built = Inr cfg"
      "verify_created_or_reconciled_consumer L F js in_progress (h @ [Consumer_info, Add_consumer cfg]) = (Inr u, h')"
      by (auto simp: js_bind_Inr add_consumer_Inr raise_def split: if_splits)
    have "js_info js h = Inr PNone \<or> (\<exists>err. js_info js h = Inl err \<and> is_not_found_error err)"
      using info None by (auto split: sum.splits if_splits)
    with c verify_Inr [OF c(4)] show ?thesis by (intro created) auto
  next
    case (Some v)
    have v: "js_info js h = Inr v" "v \<noteq> PNone" using info Some by (auto split: sum.splits if_splits)
    from rest Some have d: "drift v = Inr []" "validate_in_progress_effective_consumer_policy L F v in_progress = Inr ()"
      by (auto simp: js_bind_Inr raise_def split: if_splits)
    show ?thesis
    proof (cases "mode = Reconcile")
      case True
      with rest Some d obtain cfg u where c: "action = Reconciled" "built = Inr cfg"
        "verify_created_or_reconciled_consumer L F js in_progress (h @ [Consumer_info, Add_consumer cfg]) = (Inr u, h')"
        by (auto simp: js_bind_Inr add_consumer_Inr raise_def split: if_splits)
      with True v d verify_Inr [OF c(3)] show ?thesis by (intro reconciled) auto
    next
      case False
      with rest Some d have "action = Bound" "h' = h @ [Consumer_info]"
        by (auto simp: js_bind_Inr raise_def split: if_splits)
      moreover have "timing_checked L F js in_progress (h @ [Consumer_info])"
        using v d(2) by (auto simp: timing_checked_def)
      ultimately show ?thesis using False v d by (intro bound) auto
    qed
  qed
qed

lemma effective_policy_bounds:
  assumes "validate_in_progress_effective_consumer_policy L F info (Some ip) = Inr ()" "ip_enabled ip"
  shows "\<exists>existing w q. existing_config L info = Inr existing \<and> consumer_field L existing ''ack_wait'' = Inr w
    \<and> py_float F w = Inr (FFin q) \<and> 0 < q \<and> of_int (ip_interval_ms ip) < 800 * q"
proof -
  from assms obtain existing w where e: "existing_config L info = Inr existing" "consumer_field L existing ''ack_wait'' = Inr w"
    and check: "(case py_float F w of
          Inl err \<Rightarrow> if bad_float err
            then raise ConfigurationError ''delivery.in_progress.enabled requires a readable effective ack_wait'' else Inl err
        | Inr w \<Rightarrow>
            if float_le w (FFin 0)
            then raise ConfigurationError ''delivery.in_progress.enabled requires a positive effective ack_wait''
            else (case w of
                FFin q \<Rightarrow>
                  if q * 1000 * (4 / 5) \<le> of_int (ip_interval_ms ip)
                  then raise ConfigurationError ''delivery.in_progress.interval_ms must be below 80% of the effective AckWait window''
                  else Inr ()
              | _ \<Rightarrow> raise ConfigurationError ''delivery.in_progress.enabled requires a finite effective ack_wait'')) = Inr ()"
    by (auto simp: validate_in_progress_effective_consumer_policy_def rbind_Inr_iff raise_def split: if_splits)
  show ?thesis
  proof (cases "py_float F w")
    case (Inr x)
    with check e show ?thesis by (cases x) (auto simp: raise_def not_le split: if_splits)
  qed (use check in \<open>auto simp: raise_def split: if_splits\<close>)
qed


text \<open>Drift stops startup before anything is changed.  When the drift check of the existing consumer
  finds any item, preparing the consumer raises a configuration error, and the only call made on the
  server is the one that read the consumer.\<close>

theorem drift_stops_startup:
  assumes "js_has_info js" "js_info js [] = Inr info" "info \<noteq> PNone"
    "detect_consumer_drift L F info durable_name subject c = Inr (item # items)"
  shows "\<exists>err. ensure_jetstream_consumer L F api js durable_name subject True c in_progress [] = (Inl err, [Consumer_info])
    \<and> exn_cls err = ConfigurationError"
  using assms
  by (simp add: ensure_jetstream_consumer_def ensure_durable_def js_bind_def consumer_info_def js_ret_def raise_def)

section \<open>Concrete startups\<close>

definition sample_info :: pyval where
  "sample_info = PDict [(PStr ''config'', na_config dict_api (pull_kwargs dict_api ''worker'' sample_consumer_config [''orders.eu.*'']))]"

definition sample_jetstream :: jetstream where
  "sample_jetstream =
     \<lparr>js_has_info = True, js_has_add = True, js_subscribe = Not_callable,
      js_info = (\<lambda>h. if h = [] then Inl (Exn (Subclass ''NotFoundError'' PyException) ''no such consumer'') else Inr sample_info),
      js_add = (\<lambda>_ _. None)\<rparr>"

definition sample_in_progress :: in_progress_config where
  "sample_in_progress = \<lparr>ip_enabled = True, ip_interval_ms = 5000, ip_max_heartbeats = 12, ip_shutdown_timeout_ms = 5000\<rparr>"

lemma sample_timing:
  "validate_in_progress_effective_consumer_policy plain_lib (\<lambda>_. Inr FNaN) sample_info (Some sample_in_progress) = Inr ()"
  by code_simp

lemma sample_startup:
  obtains calls where "ensure_jetstream_consumer plain_lib (\<lambda>_. Inr FNaN) (Some dict_api) sample_jetstream ''worker'' ''orders.>'' True
      sample_consumer_config (Some sample_in_progress) [] = (Inr Created, calls)"
proof -
  have missing: "is_not_found_error (Exn (Subclass ''NotFoundError'' PyException) m)"
    "isinstance (Exn (Subclass ''NotFoundError'' PyException) m) PyException" for m
    by (simp_all add: is_not_found_error_def)
  have on: "ip_enabled sample_in_progress" "cm_mode sample_consumer_config = Create_if_missing" "sample_info \<noteq> PNone"
    by (simp_all add: sample_in_progress_def sample_consumer_config_def sample_info_def)
  have js: "js_has_info sample_jetstream" "js_has_add sample_jetstream" "js_add sample_jetstream h cfg = None"
    "js_info sample_jetstream h = (if h = [] then Inl (Exn (Subclass ''NotFoundError'' PyException) ''no such consumer'') else Inr sample_info)"
    for h cfg by (simp_all add: sample_jetstream_def)
  have info: "consumer_info sample_jetstream [] = (Inr None, [Consumer_info])"
    "consumer_info sample_jetstream (h # hs) = (Inr (Some sample_info), (h # hs) @ [Consumer_info])" for h hs
    using missing js on by (simp_all add: consumer_info_def)
  have add: "add_consumer sample_jetstream (Inr cfg) hs = (Inr (), hs @ [Add_consumer cfg])" for cfg hs
    using js by (simp add: add_consumer_def)
  show thesis
    by (rule that) (use on info in \<open>simp add: ensure_jetstream_consumer_def ensure_durable_def js_bind_def js_ret_def add
        verify_created_or_reconciled_consumer_def sample_consumer_built sample_timing\<close>)
qed


lemma drift_stops_startup_witness:
  "\<exists>err. ensure_jetstream_consumer plain_lib (\<lambda>_. Inr FNaN) (Some dict_api)
      (sample_jetstream\<lparr>js_info := (\<lambda>_. Inr sample_info)\<rparr>) ''other'' ''orders.>'' True sample_consumer_config None []
    = (Inl err, [Consumer_info]) \<and> exn_cls err = ConfigurationError"
proof -
  have "detect_consumer_drift plain_lib (\<lambda>_. Inr FNaN) sample_info ''other'' ''orders.>'' sample_consumer_config
      = Inr [\<lparr>cd_field = ''durable_name'', cd_expected = PStr ''other'', cd_actual = PStr ''worker''\<rparr>]"
    by code_simp
  moreover have "js_has_info (sample_jetstream\<lparr>js_info := (\<lambda>_. Inr sample_info)\<rparr>)" "sample_info \<noteq> PNone"
    by (simp_all add: sample_jetstream_def sample_info_def)
  ultimately show ?thesis by (intro drift_stops_startup) simp_all
qed

end
