(* ===== verification/RunnerLoop.thy ===== *)
theory RunnerLoop
  imports FailureHandling ConsumerStartup
begin

text \<open>
  The runner's life (\<open>__init__\<close>, the pull loop, the push queue and its callback in
  \<open>core/runner.py\<close>) as step relations.  The environment of a step chooses what the client fetches
  and when messages arrive or a stop is requested.  A batch is one step; an arrival during a batch
  sees the same queue as one right after it, so only the order of its negative acknowledgement
  among the events of the batch is fixed by this.
\<close>

section \<open>Construction\<close>

definition check_runner :: "runner \<Rightarrow> consumer_config \<Rightarrow> bool \<Rightarrow> runner res" where
  "check_runner r c durable =
     (if dlc_enabled (rn_dead_letter r) \<and> (case dlc_subject (rn_dead_letter r) of None \<Rightarrow> True | Some s \<Rightarrow> s = [])
      then raise ConfigurationError ''dead_letter.subject is required when DLQ is enabled''
      else rmap (\<lambda>_. r) (validate_in_progress_consumer_policy (dl_in_progress (rn_delivery r)) c (Some durable)))"

section \<open>Pull loop\<close>

text \<open>
  One round: the fetch with its duration metric, where a timeout of either skips the round, then the
  batch.  \<open>fetched\<close> is the outcome of the fetch.
\<close>

definition pull_round :: "pylib \<Rightarrow> env \<Rightarrow> runner \<Rightarrow> pyval list res \<Rightarrow> unit act" where
  "pull_round L E r fetched =
     bind_act
       (catch (bind_act (lift_res fetched) (\<lambda>raws. then_act (observe_elapsed E ''nats_fetch_seconds'') (ret raws)))
         (\<lambda>err. if isinstance err PyTimeoutError then ret [] else throw err))
       (process_raw_batch L E r)"

record loop_state =
  lo_trace :: trace
  lo_stop :: bool
  lo_end :: "exn option option"

definition loop_start :: loop_state where
  "loop_start = \<lparr>lo_trace = [], lo_stop = False, lo_end = None\<rparr>"

text \<open>How a loop goes on after a round: an exception ends it.\<close>

definition end_of :: "'a res \<Rightarrow> exn option option" where
  "end_of result = (case result of Inl err \<Rightarrow> Some (Some err) | Inr _ \<Rightarrow> None)"

inductive pull_step :: "pylib \<Rightarrow> env \<Rightarrow> runner \<Rightarrow> loop_state \<Rightarrow> loop_state \<Rightarrow> bool" for L E r where
  pull_batch: "lo_end s = None \<Longrightarrow> \<not> lo_stop s
    \<Longrightarrow> (case fetched of Inr raws \<Rightarrow> length raws \<le> dl_batch_size (rn_delivery r) | Inl err \<Rightarrow> True)
    \<Longrightarrow> pull_round L E r fetched (lo_trace s) = (result, t)
    \<Longrightarrow> pull_step L E r s (s\<lparr>lo_trace := t, lo_end := end_of result\<rparr>)"
| pull_stop: "pull_step L E r s (s\<lparr>lo_stop := True\<rparr>)"
| pull_end: "lo_end s = None \<Longrightarrow> lo_stop s \<Longrightarrow> pull_step L E r s (s\<lparr>lo_end := Some None\<rparr>)"

inductive pull_reachable :: "pylib \<Rightarrow> env \<Rightarrow> runner \<Rightarrow> loop_state \<Rightarrow> bool" for L E r where
  pull_init: "pull_reachable L E r loop_start"
| pull_next: "pull_reachable L E r s \<Longrightarrow> pull_step L E r s s' \<Longrightarrow> pull_reachable L E r s'"

section \<open>Push loop\<close>

text \<open>
  The bounded queue between the client's callback and the loop.  \<open>pq_accepted\<close> and \<open>pq_taken\<close> only
  record the messages that entered the queue and those handed to batches.
\<close>

record push_state = loop_state +
  pq_queue :: "pyval list"
  pq_accepting :: bool
  pq_accepted :: "pyval list"
  pq_taken :: "pyval list"

definition push_start :: push_state where
  "push_start = \<lparr>lo_trace = [], lo_stop = False, lo_end = None, pq_queue = [], pq_accepting = True, pq_accepted = [], pq_taken = []\<rparr>"

definition reject_push_message :: "pylib \<Rightarrow> env \<Rightarrow> runner \<Rightarrow> push_config \<Rightarrow> pyval \<Rightarrow> unit act" where
  "reject_push_message L E r p raw =
     (if \<not> pu_nak_overflow p then ret ()
      else read_env (\<lambda>t. backoff_seconds (dl_retry (rn_delivery r)) (en_jitter E t) 1) (nak_all L E [raw]))"

definition queue_full :: "push_config \<Rightarrow> pyval list \<Rightarrow> bool" where
  "queue_full p queue \<longleftrightarrow> pu_pending_msgs_limit p \<noteq> 0 \<and> pu_pending_msgs_limit p \<le> length queue"

definition push_subscription_callback ::
  "pylib \<Rightarrow> env \<Rightarrow> runner \<Rightarrow> push_config \<Rightarrow> pyval \<Rightarrow> push_state \<Rightarrow> push_state" where
  "push_subscription_callback L E r p raw s =
     (if pq_accepting s \<and> \<not> queue_full p (pq_queue s)
      then s\<lparr>pq_queue := pq_queue s @ [raw], pq_accepted := pq_accepted s @ [raw]\<rparr>
      else s\<lparr>lo_trace := snd (catch_exception (reject_push_message L E r p raw) (\<lambda>_. ret ()) (lo_trace s))\<rparr>)"

definition next_push_batch :: "nat \<Rightarrow> pyval list \<Rightarrow> pyval list \<times> pyval list" where
  "next_push_batch batch_size queue = (take (max 1 batch_size) queue, drop (max 1 batch_size) queue)"

inductive push_step :: "pylib \<Rightarrow> env \<Rightarrow> runner \<Rightarrow> push_config \<Rightarrow> push_state \<Rightarrow> push_state \<Rightarrow> bool" for L E r p where
  push_arrival: "push_step L E r p s (push_subscription_callback L E r p raw s)"
| push_batch: "lo_end s = None \<Longrightarrow> pq_queue s \<noteq> []
    \<Longrightarrow> next_push_batch (dl_batch_size (rn_delivery r)) (pq_queue s) = (raws, rest)
    \<Longrightarrow> process_raw_batch L E r raws (lo_trace s) = (result, t)
    \<Longrightarrow> push_step L E r p s
      (s\<lparr>lo_trace := t, lo_end := end_of result, pq_taken := pq_taken s @ raws,
         pq_queue := (if end_of result = None then rest else []), pq_accepting := (pq_accepting s \<and> end_of result = None)\<rparr>)"
| push_stop: "push_step L E r p s (s\<lparr>lo_stop := True, pq_accepting := False\<rparr>)"
| push_end: "lo_end s = None \<Longrightarrow> lo_stop s \<Longrightarrow> pq_queue s = []
    \<Longrightarrow> push_step L E r p s (s\<lparr>lo_end := Some None, pq_accepting := False\<rparr>)"

inductive push_reachable :: "pylib \<Rightarrow> env \<Rightarrow> runner \<Rightarrow> push_config \<Rightarrow> push_state \<Rightarrow> bool" for L E r p where
  push_init: "push_reachable L E r p push_start"
| push_next: "push_reachable L E r p s \<Longrightarrow> push_step L E r p s s' \<Longrightarrow> push_reachable L E r p s'"

inductive_cases push_stepE: "push_step L E r p s s'"
inductive_cases pull_stepE: "pull_step L E r s s'"
inductive_simps ended_pull_step: "pull_step L E r (s\<lparr>lo_end := Some e\<rparr>) s'"

section \<open>The invariant of the whole run\<close>

lemma keeps_pull_round: "keeps (commit_then_ack L (rn_dead_letter r)) (pull_round L E r fetched)"
  unfolding pull_round_def
  by (intro keeps_bind keeps_catch keeps_then keeps_if keeps_lift_res keeps_ret keeps_throw keeps_process_raw_batch
      calm_metric_actions calm_commit_then_ack)

lemma keeps_reject: "keeps (commit_then_ack L (rn_dead_letter r)) (catch_exception (reject_push_message L E r p raw) (\<lambda>_. ret ()))"
  unfolding reject_push_message_def
  by (intro keeps_catch_exception keeps_if keeps_read_env keeps_ret calm_nak_all calm_commit_then_ack)

lemma pull_reachable_safe: "pull_reachable L E r s \<Longrightarrow> commit_then_ack L (rn_dead_letter r) (lo_trace s)"
proof (induction rule: pull_reachable.induct)
  case pull_init
  show ?case by (simp add: loop_start_def)
next
  case (pull_next s s')
  from pull_next.hyps(2) show ?case
  proof (cases rule: pull_step.cases)
    case (pull_batch fetched result t)
    then have "t = snd (pull_round L E r fetched (lo_trace s))" by simp
    with keeps_pull_round [of L r E fetched] pull_next.IH have "commit_then_ack L (rn_dead_letter r) t" by (simp add: keeps_iff)
    with pull_batch(1) show ?thesis by simp
  qed (use pull_next.IH in simp_all)
qed

definition push_invariant :: "pylib \<Rightarrow> runner \<Rightarrow> push_config \<Rightarrow> push_state \<Rightarrow> bool" where
  "push_invariant L r p s \<longleftrightarrow>
     commit_then_ack L (rn_dead_letter r) (lo_trace s)
     \<and> (pu_pending_msgs_limit p \<noteq> 0 \<longrightarrow> length (pq_queue s) \<le> pu_pending_msgs_limit p)
     \<and> (lo_end s = None \<longrightarrow> pq_accepted s = pq_taken s @ pq_queue s)
     \<and> (lo_end s \<noteq> None \<longrightarrow> \<not> pq_accepting s \<and> pq_queue s = [] \<and> (\<exists>lost. pq_accepted s = pq_taken s @ lost))
     \<and> (lo_end s = Some None \<longrightarrow> pq_accepted s = pq_taken s)"

lemma push_step_invariant:
  assumes "push_step L E r p s s'" "push_invariant L r p s"
  shows "push_invariant L r p s'"
  using assms(1)
proof (cases rule: push_step.cases)
  case (push_arrival raw)
  have "commit_then_ack L (rn_dead_letter r) (snd (catch_exception (reject_push_message L E r p raw) (\<lambda>_. ret ()) (lo_trace s)))"
    using keeps_reject assms(2) by (simp add: keeps_iff push_invariant_def)
  with assms(2) push_arrival show ?thesis
    by (auto simp: push_subscription_callback_def push_invariant_def queue_full_def)
next
  case (push_batch raws rest result t)
  then have "t = snd (process_raw_batch L E r raws (lo_trace s))" by simp
  with keeps_process_raw_batch [of L r E raws] assms(2) have "commit_then_ack L (rn_dead_letter r) t"
    by (simp add: keeps_iff push_invariant_def)
  moreover have "pq_queue s = raws @ rest" "length rest \<le> length (pq_queue s)" using push_batch(4) by (auto simp: next_push_batch_def)
  ultimately show ?thesis using push_batch assms(2)
    by (auto simp: push_invariant_def end_of_def split: sum.splits)
qed (use assms(2) in \<open>auto simp: push_invariant_def\<close>)

lemma push_reachable_invariant: "push_reachable L E r p s \<Longrightarrow> push_invariant L r p s"
proof (induction rule: push_reachable.induct)
  case push_init
  show ?case by (simp add: push_invariant_def push_start_def)
next
  case (push_next s s')
  then show ?case by (blast intro: push_step_invariant)
qed


text \<open>C29: the push queue is bounded and loses nothing.  In every reachable state of the push loop the queue
  holds at most the configured number of messages and nothing has been settled too early; while the
  loop runs, the accepted messages are exactly those handed to batches followed by those in the queue,
  in order of arrival; and when the loop ends normally after a stop, every accepted message has been
  handed to a batch.\<close>

theorem push_queue_bounded_and_drained:
  assumes "push_reachable L E r p s" "0 < pu_pending_msgs_limit p"
  shows "length (pq_queue s) \<le> pu_pending_msgs_limit p \<and> commit_then_ack L (rn_dead_letter r) (lo_trace s)
    \<and> (lo_end s = None \<longrightarrow> pq_accepted s = pq_taken s @ pq_queue s) \<and> (lo_end s = Some None \<longrightarrow> pq_accepted s = pq_taken s)"
  using push_reachable_invariant [OF assms(1)] assms(2) by (simp add: push_invariant_def)

section \<open>Concrete runs\<close>

lemma sample_pull_round:
  obtains before after where
    "pull_round acking_lib quiet_env sample_runner (Inr [PObj 0]) [] = (Inr (), before @ Ack (PObj 0) None # after)"
proof -
  obtain u where u: "observe_elapsed quiet_env ''nats_fetch_seconds'' [] = (Inr (), u)"
    using does_metrics(4) [OF quiet_env_healthy, of "''nats_fetch_seconds''"] unfolding does_def by fastforce
  have "\<forall>t es. en_write quiet_env t es = None" by (simp add: quiet_env_def)
  from runs_process_raw_batch [OF sample_runner_plain acking_lib_tolerable quiet_env_healthy this sample_acknowledges, of u]
  obtain es v where v: "process_raw_batch acking_lib quiet_env sample_runner [PObj 0] u = (Inr (), u @ v)"
    "calls v = [Sink_write es None, Ack (PObj 0) None]"
    by (auto simp: runs_def acknowledgement_def sample_runner_def sample_delivery_def)
  then have "Ack (PObj 0) None \<in> set (calls v)" by simp
  then obtain before after where "v = before @ Ack (PObj 0) None # after" by (auto simp: calls_def dest: split_list)
  with u v(1) have "pull_round acking_lib quiet_env sample_runner (Inr [PObj 0]) [] = (Inr (), (u @ before) @ Ack (PObj 0) None # after)"
    by (simp add: pull_round_def bind_act_def catch_def lift_res_def then_act_def ret_def)
  then show thesis by (rule that)
qed

lemma sample_pull_reachable:
  obtains s before after where "pull_reachable acking_lib quiet_env sample_runner s" "lo_trace s = before @ Ack (PObj 0) None # after"
proof -
  obtain before after where round: "pull_round acking_lib quiet_env sample_runner (Inr [PObj 0]) (lo_trace loop_start)
      = (Inr (), before @ Ack (PObj 0) None # after)"
    using sample_pull_round by (auto simp: loop_start_def)
  have "pull_step acking_lib quiet_env sample_runner loop_start
      (loop_start\<lparr>lo_trace := before @ Ack (PObj 0) None # after, lo_end := end_of (Inr ())\<rparr>)"
    by (rule pull_step.pull_batch [OF _ _ _ round]) (simp_all add: loop_start_def sample_runner_def sample_delivery_def)
  from that [OF pull_reachable.pull_next [OF pull_reachable.pull_init this], of before after] show thesis by simp
qed


definition sample_push :: push_config where
  "sample_push =
     \<lparr>pu_enabled = True, pu_deliver_subject = Some ''push.orders'', pu_deliver_group = None, pu_manual_ack = True,
      pu_pending_msgs_limit = 1, pu_nak_overflow = True, pu_flow_control = False, pu_idle_heartbeat = None\<rparr>"

lemma push_queue_bounded_and_drained_witness:
  "\<exists>s. push_reachable acking_lib quiet_env sample_runner sample_push s \<and> pq_queue s = [PObj 0] \<and> pq_accepted s = [PObj 0]
    \<and> length (pq_queue s) \<le> pu_pending_msgs_limit sample_push"
proof -
  let ?s = "push_subscription_callback acking_lib quiet_env sample_runner sample_push (PObj 0) push_start"
  have "push_reachable acking_lib quiet_env sample_runner sample_push ?s"
    by (rule push_reachable.push_next [OF push_reachable.push_init push_step.push_arrival])
  moreover have "0 < pu_pending_msgs_limit sample_push" by (simp add: sample_push_def)
  moreover have "pq_queue ?s = [PObj 0]" "pq_accepted ?s = [PObj 0]"
    by (simp_all add: push_subscription_callback_def push_start_def queue_full_def sample_push_def)
  ultimately show ?thesis using push_queue_bounded_and_drained by blast
qed

end
