(* ===== verification/Routing.thy ===== *)
theory Routing
  imports Consumer
begin

text \<open>
  Route selection (\<open>core/routing_policy.py\<close>) with its sections of \<open>core/config.py\<close>: which child
  sinks a message goes to, and which of them must have it before it may be acknowledged.  What the
  configuration library itself does with a raw object is the parameter \<open>model_validate\<close>.
\<close>

section \<open>Configuration\<close>

record route_target =
  tg_sink :: string
  tg_required :: bool
  tg_minimum_wait_ms :: "int option"
  tg_timeout_ms :: "int option"

record header_match =
  hm_name :: string
  hm_values :: "string list"

record route_match =
  ma_subject :: "string option"
  ma_priority :: "string list"
  ma_classification :: "string list"
  ma_labels_all :: "string list"
  ma_labels_any :: "string list"
  ma_labels_none :: "string list"
  ma_headers :: "header_match list"

record policy_route =
  ro_name :: string
  ro_match :: route_match
  ro_targets :: "route_target list"

datatype routing_mode = First_route | All_routes

datatype no_match = Reject | Default_route | Ignore

record routing_policy =
  rp_enabled :: bool
  rp_mode :: routing_mode
  rp_no_match :: no_match
  rp_target_sink_types :: "(string \<times> string) list"
  rp_default_targets :: "route_target list"
  rp_routes :: "policy_route list"

definition ascii_letter :: "char \<Rightarrow> bool" where
  "ascii_letter c \<longleftrightarrow> (let n = of_char c :: nat in (65 \<le> n \<and> n \<le> 90) \<or> (97 \<le> n \<and> n \<le> 122))"

definition ascii_digit :: "char \<Rightarrow> bool" where
  "ascii_digit c \<longleftrightarrow> (let n = of_char c :: nat in 48 \<le> n \<and> n \<le> 57)"

definition ROUTING_NAME_RE :: "string \<Rightarrow> bool" where
  "ROUTING_NAME_RE s \<longleftrightarrow>
     (case s of
        [] \<Rightarrow> False
      | c # cs \<Rightarrow> ascii_letter c \<and> length cs \<le> 127
          \<and> list_all (\<lambda>d. ascii_letter d \<or> ascii_digit d \<or> d \<in> set ''_.:-'') cs)"

definition normalize_routing_name :: "pyval \<Rightarrow> string res" where
  "normalize_routing_name v =
     (case v of
        PStr s \<Rightarrow>
          if strip s \<noteq> s \<or> \<not> ROUTING_NAME_RE s then raise ValueError ''must start with a letter and contain only letters, digits, dots, underscores, colons or hyphens''
          else if contains_ascii_control_characters s then raise ValueError ''must not contain control characters''
          else Inr s
      | _ \<Rightarrow> raise ValueError ''must be a string'')"

fun collect_route_values :: "render \<Rightarrow> string list \<Rightarrow> pyval list \<Rightarrow> string list res" where
  "collect_route_values st normalized [] = Inr normalized"
| "collect_route_values st normalized (item # items) =
     (case normalise_metadata_value st item of
        None \<Rightarrow> raise ValueError ''entries must not be empty''
      | Some rendered \<Rightarrow>
          if contains_ascii_control_characters rendered then raise ValueError ''entries must not contain control characters''
          else if 512 < length rendered then raise ValueError ''entries must be at most 512 characters''
          else collect_route_values st (if rendered \<in> set normalized then normalized else normalized @ [rendered]) items)"

definition normalize_route_scalar_values :: "render \<Rightarrow> pyval \<Rightarrow> string list res" where
  "normalize_route_scalar_values st value =
     (if value = PNone then Inr []
      else rbind (case value of
          PStr s \<Rightarrow> collect_route_values st [] [PStr s]
        | PList xs \<Rightarrow> collect_route_values st [] xs
        | PTuple xs \<Rightarrow> collect_route_values st [] xs
        | PSet xs \<Rightarrow> collect_route_values st [] xs
        | _ \<Rightarrow> raise ValueError ''must be a string or a list of strings'')
        (\<lambda>values. if 64 < length values then raise ValueError ''supports at most 64 values'' else Inr values))"

definition header_token_char :: "char \<Rightarrow> bool" where
  "header_token_char c \<longleftrightarrow> ascii_letter c \<or> ascii_digit c \<or> c \<in> set ''!#$%&*+.^_`|~-'' \<or> of_char c = (39::nat)"

definition WEBSOCKET_DANGEROUS_HEADERS :: "string list" where
  "WEBSOCKET_DANGEROUS_HEADERS =
     [''connection'', ''content-length'', ''host'', ''sec-websocket-accept'', ''sec-websocket-extensions'',
      ''sec-websocket-key'', ''sec-websocket-protocol'', ''sec-websocket-version'', ''transfer-encoding'', ''upgrade'']"

definition ROUTING_SENSITIVE_HEADER_NAMES :: "string list" where
  "ROUTING_SENSITIVE_HEADER_NAMES =
     [''authorization'', ''cookie'', ''proxy-authorization'', ''x-api-key'', ''x-auth-token'']"

definition validate_routing_header_name :: "pyval \<Rightarrow> string res" where
  "validate_routing_header_name v =
     (case v of
        PStr s \<Rightarrow>
          if strip s \<noteq> s \<or> \<not> (1 \<le> length s \<and> length s \<le> 128 \<and> list_all header_token_char s)
          then raise ValueError ''header name must be an HTTP token name''
          else if casefold s \<in> set WEBSOCKET_DANGEROUS_HEADERS then raise ValueError ''must not match protocol-owned header''
          else if casefold s \<in> set ROUTING_SENSITIVE_HEADER_NAMES then raise ValueError ''must not match secret-bearing header''
          else Inr s
      | _ \<Rightarrow> raise ValueError ''header name must be a string'')"

definition make_header_match :: "render \<Rightarrow> pyval \<Rightarrow> pyval \<Rightarrow> header_match res" where
  "make_header_match st name vs =
     rbind (validate_routing_header_name name) (\<lambda>n.
     rbind (normalize_route_scalar_values st vs) (\<lambda>values.
       if values = [] then raise ValueError ''routing header values must contain at least one value''
       else Inr \<lparr>hm_name = n, hm_values = values\<rparr>))"

definition normalize_route_labels :: "render \<Rightarrow> pyval \<Rightarrow> string list res" where
  "normalize_route_labels st value =
     rbind (normalize_configured_labels st value) (\<lambda>labels.
       if \<exists>l\<in>set labels. 128 < length l then raise ValueError ''entries must be at most 128 characters''
       else if 64 < length labels then raise ValueError ''supports at most 64 values''
       else Inr labels)"

definition validate_fanout_wait_ms :: "int \<Rightarrow> pyval \<Rightarrow> int option res" where
  "validate_fanout_wait_ms maximum value =
     (case value of
        PNone \<Rightarrow> Inr None
      | PInt n \<Rightarrow>
          if n < 0 then raise ValueError ''must not be negative''
          else if maximum < n then raise ValueError ''must not exceed the maximum''
          else Inr (Some n)
      | _ \<Rightarrow> raise ValueError ''must be an integer number of milliseconds'')"

definition validate_ack_gate_shape :: "route_target \<Rightarrow> route_target res" where
  "validate_ack_gate_shape t =
     (if tg_required t
      then if tg_minimum_wait_ms t \<noteq> None \<or> tg_timeout_ms t \<noteq> None
        then raise ValueError ''routing target wait policy is only valid when required is false'' else Inr t
      else (case (tg_minimum_wait_ms t, tg_timeout_ms t) of
          (Some m, Some n) \<Rightarrow>
            if n < m then raise ValueError ''routing target timeout_ms must be at least minimum_wait_ms'' else Inr t
        | _ \<Rightarrow> Inr t))"

definition make_route_target :: "pyval \<Rightarrow> bool \<Rightarrow> pyval \<Rightarrow> pyval \<Rightarrow> route_target res" where
  "make_route_target sink required minimum timeout =
     rbind (normalize_routing_name sink) (\<lambda>s.
     rbind (validate_fanout_wait_ms 60000 minimum) (\<lambda>m.
     rbind (validate_fanout_wait_ms 300000 timeout) (\<lambda>n.
       validate_ack_gate_shape \<lparr>tg_sink = s, tg_required = required, tg_minimum_wait_ms = m, tg_timeout_ms = n\<rparr>)))"

type_synonym model_validate = "(pyval \<times> pyval) list \<Rightarrow> route_target res"

definition route_target_of :: "model_validate \<Rightarrow> pyval \<Rightarrow> route_target res" where
  "route_target_of model_validate item =
     (case item of
        PStr s \<Rightarrow> make_route_target (PStr s) True PNone PNone
      | PDict kvs \<Rightarrow> model_validate kvs
      | _ \<Rightarrow> raise ValueError ''entries must be strings or target objects'')"

fun collect_route_targets :: "model_validate \<Rightarrow> route_target list \<Rightarrow> pyval list \<Rightarrow> route_target list res" where
  "collect_route_targets mv normalized [] = Inr normalized"
| "collect_route_targets mv normalized (item # items) =
     rbind (route_target_of mv item) (\<lambda>t.
       if tg_sink t \<in> tg_sink ` set normalized then raise ValueError ''contains duplicate target''
       else collect_route_targets mv (normalized @ [t]) items)"

definition raw_route_targets :: "pyval \<Rightarrow> pyval list option" where
  "raw_route_targets value =
     (case value of
        PStr s \<Rightarrow> Some [value]
      | PDict kvs \<Rightarrow> Some [value]
      | PList xs \<Rightarrow> Some xs
      | PTuple xs \<Rightarrow> Some xs
      | PSet xs \<Rightarrow> Some xs
      | _ \<Rightarrow> None)"

definition normalize_route_target_configs :: "model_validate \<Rightarrow> pyval \<Rightarrow> route_target list res" where
  "normalize_route_target_configs mv value =
     (case raw_route_targets value of
        None \<Rightarrow> raise ValueError ''must be a string, object, or list of targets''
      | Some raw_targets \<Rightarrow>
          if raw_targets = [] then raise ValueError ''must contain at least one target''
          else if 64 < length raw_targets then raise ValueError ''supports at most 64 names''
          else collect_route_targets mv [] raw_targets)"

definition duplicate_free :: "string list \<Rightarrow> bool" where
  "duplicate_free names \<longleftrightarrow> distinct names"

definition validate_match_headers :: "header_match list \<Rightarrow> header_match list res" where
  "validate_match_headers hs =
     (if 16 < length hs then raise ValueError ''routing match supports at most 16 headers''
      else if \<not> duplicate_free (map (\<lambda>h. casefold (hm_name h)) hs)
      then raise ValueError ''routing match must not contain duplicate header names''
      else Inr hs)"

definition validate_match_is_meaningful :: "route_match \<Rightarrow> route_match res" where
  "validate_match_is_meaningful m =
     (if ma_subject m \<in> {None, Some []} \<and> ma_priority m = [] \<and> ma_classification m = [] \<and> ma_labels_all m = []
         \<and> ma_labels_any m = [] \<and> ma_labels_none m = [] \<and> ma_headers m = []
      then raise ValueError ''routing route match must contain at least one criterion''
      else if set (ma_labels_none m) \<inter> set (ma_labels_all m) \<noteq> {}
      then raise ValueError ''routing labels_all and labels_none must not overlap''
      else if ma_labels_any m \<noteq> [] \<and> set (ma_labels_any m) \<subseteq> set (ma_labels_none m)
      then raise ValueError ''routing labels_any cannot be entirely blocked by labels_none''
      else Inr m)"

definition validate_routes :: "policy_route list \<Rightarrow> policy_route list res" where
  "validate_routes routes =
     (if 128 < length routes then raise ValueError ''routing supports at most 128 routes''
      else if \<not> duplicate_free (map ro_name routes) then raise ValueError ''routing contains duplicate route name''
      else Inr routes)"

definition FANOUT_ACK_GATE_SINK_TYPES :: "string list" where
  "FANOUT_ACK_GATE_SINK_TYPES =
     [''coherence'', ''file'', ''http'', ''mysql'', ''oracle'', ''oracle_nosql'', ''s3'', ''spool'']"

fun collect_target_sink_types :: "(string \<times> string) list \<Rightarrow> (pyval \<times> pyval) list \<Rightarrow> (string \<times> string) list res" where
  "collect_target_sink_types normalized [] = Inr normalized"
| "collect_target_sink_types normalized ((raw_name, raw_type) # items) =
     rbind (normalize_routing_name raw_name) (\<lambda>name.
       if name \<in> fst ` set normalized then raise ValueError ''routing.target_sink_types contains duplicate target''
       else (case raw_type of
           PStr t \<Rightarrow>
             if casefold (strip t) \<notin> set FANOUT_ACK_GATE_SINK_TYPES
             then raise ValueError ''routing.target_sink_types values must be one of these sink types''
             else collect_target_sink_types (normalized @ [(name, casefold (strip t))]) items
         | _ \<Rightarrow> raise ValueError ''routing.target_sink_types values must be strings''))"

definition normalize_target_sink_types :: "pyval \<Rightarrow> (string \<times> string) list res" where
  "normalize_target_sink_types value =
     (case value of
        PNone \<Rightarrow> Inr []
      | PDict items \<Rightarrow> collect_target_sink_types [] items
      | _ \<Rightarrow> raise ValueError ''routing.target_sink_types must be an object'')"

definition FANOUT_OPTIONAL_ACK_DEFAULTS :: "string \<Rightarrow> int \<times> int" where
  "FANOUT_OPTIONAL_ACK_DEFAULTS sink_type =
     (if sink_type \<in> {''file'', ''spool''} then (100, 1000) else (1000, 5000))"

definition all_route_targets :: "routing_policy \<Rightarrow> route_target list" where
  "all_route_targets p = rp_default_targets p @ concat (map ro_targets (rp_routes p))"

definition target_names :: "routing_policy \<Rightarrow> string list" where
  "target_names p = fold (\<lambda>t ordered. if tg_sink t \<in> set ordered then ordered else ordered @ [tg_sink t]) (all_route_targets p) []"

definition default_waits :: "(string \<times> string) list \<Rightarrow> route_target \<Rightarrow> route_target res" where
  "default_waits sink_types t =
     (if tg_required t then Inr t
      else (case map_of sink_types (tg_sink t) of
          None \<Rightarrow>
            if tg_minimum_wait_ms t \<noteq> None \<and> tg_timeout_ms t \<noteq> None then Inr t
            else raise ValueError ''routing optional target policies require routing.target_sink_types''
        | Some sink_type \<Rightarrow>
            (case FANOUT_OPTIONAL_ACK_DEFAULTS sink_type of (default_minimum, default_timeout) \<Rightarrow>
              let m = case_option default_minimum id (tg_minimum_wait_ms t);
                  n = case_option default_timeout id (tg_timeout_ms t) in
              if n < m then raise ValueError ''routing target timeout_ms must be at least minimum_wait_ms''
              else Inr (t\<lparr>tg_minimum_wait_ms := Some m, tg_timeout_ms := Some n\<rparr>))))"

definition apply_ack_gate_defaults :: "routing_policy \<Rightarrow> routing_policy res" where
  "apply_ack_gate_defaults p =
     (if \<not> rp_enabled p \<and> rp_default_targets p = [] then Inr p
      else rbind (rmapM (default_waits (rp_target_sink_types p)) (rp_default_targets p)) (\<lambda>defaults.
        rbind (rmapM (\<lambda>r. rmap (\<lambda>ts. r\<lparr>ro_targets := ts\<rparr>) (rmapM (default_waits (rp_target_sink_types p)) (ro_targets r)))
            (rp_routes p)) (\<lambda>routes.
          Inr (p\<lparr>rp_default_targets := defaults, rp_routes := routes\<rparr>))))"

definition validate_routing_policy :: "routing_policy \<Rightarrow> routing_policy res" where
  "validate_routing_policy p =
     (if rp_enabled p \<and> rp_routes p = [] then raise ValueError ''routing.enabled requires at least one route''
      else if rp_no_match p = Default_route \<and> rp_default_targets p = []
      then raise ValueError ''routing.no_match default_route requires default_targets''
      else if rp_no_match p \<noteq> Default_route \<and> rp_default_targets p \<noteq> []
      then raise ValueError ''routing.default_targets is only valid with no_match default_route''
      else apply_ack_gate_defaults p)"

section \<open>Selection\<close>

datatype route_action = Act_disabled | Act_matched | Act_reject | Act_default_route | Act_ignore

record route_selection =
  rs_matched_routes :: "string list"
  rs_targets :: "string list"
  rs_action :: route_action
  rs_target_policies :: "route_target list"

definition metadata_value_matches :: "string list \<Rightarrow> string option \<Rightarrow> bool" where
  "metadata_value_matches configured actual \<longleftrightarrow>
     configured = [] \<or> (case actual of None \<Rightarrow> False | Some a \<Rightarrow> a \<in> set configured)"

definition labels_match :: "route_match \<Rightarrow> string list \<Rightarrow> bool" where
  "labels_match m labels =
     (if ma_labels_all m \<noteq> [] \<and> \<not> set (ma_labels_all m) \<subseteq> set labels then False
      else if ma_labels_any m \<noteq> [] \<and> set (ma_labels_any m) \<inter> set labels = {} then False
      else if ma_labels_none m \<noteq> [] \<and> set (ma_labels_none m) \<inter> set labels \<noteq> {} then False
      else True)"

fun headers_match :: "header_match list \<Rightarrow> headers \<Rightarrow> bool" where
  "headers_match [] hs = True"
| "headers_match (m # ms) hs =
     (case case_insensitive_header hs (hm_name m) of
        None \<Rightarrow> False
      | Some actual \<Rightarrow> if actual \<notin> set (hm_values m) then False else headers_match ms hs)"

definition route_matches_envelope :: "policy_route \<Rightarrow> nats_envelope \<Rightarrow> bool" where
  "route_matches_envelope route e =
     (let m = ro_match route in
      if (case ma_subject m of None \<Rightarrow> False | Some s \<Rightarrow> \<not> matches_subject (PStr s) (PStr (env_subject e))) then False
      else if \<not> metadata_value_matches (ma_priority m) (env_priority e) then False
      else if \<not> metadata_value_matches (ma_classification m) (env_classification e) then False
      else if \<not> labels_match m (env_labels e) then False
      else headers_match (ma_headers m) (env_headers e))"

text \<open>The names already selected are those of the policies already selected.\<close>

fun append_targets :: "route_target list \<Rightarrow> route_target list \<Rightarrow> route_target list" where
  "append_targets selected [] = selected"
| "append_targets selected (t # ts) =
     (if tg_sink t \<in> tg_sink ` set selected then append_targets selected ts else append_targets (selected @ [t]) ts)"

fun match_routes :: "routing_mode \<Rightarrow> nats_envelope \<Rightarrow> policy_route list \<Rightarrow> string list \<Rightarrow> route_target list
    \<Rightarrow> string list \<times> route_target list" where
  "match_routes mode e [] matched selected = (matched, selected)"
| "match_routes mode e (r # rs) matched selected =
     (if \<not> route_matches_envelope r e then match_routes mode e rs matched selected
      else if mode = First_route then (matched @ [ro_name r], append_targets selected (ro_targets r))
      else match_routes mode e rs (matched @ [ro_name r]) (append_targets selected (ro_targets r)))"

definition no_match_action :: "no_match \<Rightarrow> route_action" where
  "no_match_action a = (case a of Reject \<Rightarrow> Act_reject | Default_route \<Rightarrow> Act_default_route | Ignore \<Rightarrow> Act_ignore)"

definition select_route_targets :: "nats_envelope \<Rightarrow> routing_policy \<Rightarrow> route_selection" where
  "select_route_targets e p =
     (if \<not> rp_enabled p
      then \<lparr>rs_matched_routes = [], rs_targets = [], rs_action = Act_disabled, rs_target_policies = []\<rparr>
      else (case match_routes (rp_mode p) e (rp_routes p) [] [] of (matched, selected) \<Rightarrow>
        if matched \<noteq> []
        then \<lparr>rs_matched_routes = matched, rs_targets = map tg_sink selected, rs_action = Act_matched,
              rs_target_policies = selected\<rparr>
        else if rp_no_match p = Default_route
        then \<lparr>rs_matched_routes = [], rs_targets = map tg_sink (rp_default_targets p), rs_action = Act_default_route,
              rs_target_policies = rp_default_targets p\<rparr>
        else \<lparr>rs_matched_routes = [], rs_targets = [], rs_action = no_match_action (rp_no_match p),
              rs_target_policies = []\<rparr>))"

section \<open>What is selected\<close>

lemma append_targets_append: "append_targets selected (a @ b) = append_targets (append_targets selected a) b"
  by (induction a arbitrary: selected) auto

lemma find_append: "find P (xs @ ys) = (case find P xs of None \<Rightarrow> find P ys | Some x \<Rightarrow> Some x)"
  by (induction xs) auto

lemma find_append_targets:
  "find (\<lambda>t. tg_sink t = name) (append_targets selected ts) = find (\<lambda>t. tg_sink t = name) (selected @ ts)"
proof (induction ts arbitrary: selected)
  case (Cons t ts)
  have "find (\<lambda>t. tg_sink t = name) selected \<noteq> None" if "tg_sink t \<in> tg_sink ` set selected" "tg_sink t = name"
    using that by (auto simp: find_None_iff)
  then show ?case using Cons by (auto simp: find_append split: option.split)
qed simp

lemma distinct_append_targets:
  "distinct (map tg_sink selected) \<Longrightarrow> distinct (map tg_sink (append_targets selected ts))"
  by (induction ts arbitrary: selected) auto

lemma sinks_append_targets: "tg_sink ` set (append_targets selected ts) = tg_sink ` set selected \<union> tg_sink ` set ts"
  by (induction ts arbitrary: selected) auto

lemma set_append_targets: "set (append_targets selected ts) \<subseteq> set selected \<union> set ts"
proof (induction ts arbitrary: selected)
  case (Cons t ts)
  from Cons [of selected] Cons [of "selected @ [t]"] show ?case by auto
qed simp

text \<open>The routes that decide about a message, in configuration order.\<close>

definition chosen_routes :: "routing_policy \<Rightarrow> nats_envelope \<Rightarrow> policy_route list" where
  "chosen_routes p e =
     (let matching = filter (\<lambda>r. route_matches_envelope r e) (rp_routes p) in
      if \<not> rp_enabled p then [] else if rp_mode p = First_route then take 1 matching else matching)"

text \<open>All targets these routes, or the default route, offer for it.\<close>

definition offered_targets :: "routing_policy \<Rightarrow> nats_envelope \<Rightarrow> route_target list" where
  "offered_targets p e =
     (if \<not> rp_enabled p then []
      else if chosen_routes p e \<noteq> [] then concat (map ro_targets (chosen_routes p e))
      else if rp_no_match p = Default_route then rp_default_targets p else [])"

lemma match_routes_eq:
  "match_routes mode e rs matched selected =
     (let matching = filter (\<lambda>r. route_matches_envelope r e) rs;
          chosen = (if mode = First_route then take 1 matching else matching) in
      (matched @ map ro_name chosen, append_targets selected (concat (map ro_targets chosen))))"
  by (induction rs arbitrary: matched selected) (simp_all add: Let_def append_targets_append)

lemma selected_policies:
  "rs_target_policies (select_route_targets e p) =
     (if chosen_routes p e \<noteq> [] then append_targets [] (offered_targets p e) else offered_targets p e)"
  "rs_matched_routes (select_route_targets e p) = map ro_name (chosen_routes p e)"
  "rs_targets (select_route_targets e p) = map tg_sink (rs_target_policies (select_route_targets e p))"
  "rs_action (select_route_targets e p) =
     (if \<not> rp_enabled p then Act_disabled else if chosen_routes p e \<noteq> [] then Act_matched else no_match_action (rp_no_match p))"
  by (auto simp: select_route_targets_def match_routes_eq chosen_routes_def offered_targets_def no_match_action_def Let_def
      split: no_match.split)

lemma sinks_selected:
  "tg_sink ` set (rs_target_policies (select_route_targets e p)) = tg_sink ` set (offered_targets p e)"
  by (simp add: selected_policies sinks_append_targets)

lemma set_selected: "set (rs_target_policies (select_route_targets e p)) \<subseteq> set (all_route_targets p)"
  using set_append_targets [of "[]" "offered_targets p e"]
  by (force simp: selected_policies offered_targets_def chosen_routes_def all_route_targets_def Let_def
      dest: in_set_takeD split: if_splits)

lemma distinct_selected:
  "distinct (map tg_sink (rp_default_targets p)) \<Longrightarrow> distinct (map tg_sink (rs_target_policies (select_route_targets e p)))"
  using distinct_append_targets [of "[]"] by (simp add: selected_policies) (simp add: offered_targets_def)

definition sample_target :: "string \<Rightarrow> route_target" where
  "sample_target name = \<lparr>tg_sink = name, tg_required = True, tg_minimum_wait_ms = None, tg_timeout_ms = None\<rparr>"

definition sample_route :: "string \<Rightarrow> string \<Rightarrow> route_target list \<Rightarrow> policy_route" where
  "sample_route name subject targets =
     \<lparr>ro_name = name,
      ro_match = \<lparr>ma_subject = Some subject, ma_priority = [], ma_classification = [], ma_labels_all = [],
        ma_labels_any = [], ma_labels_none = [], ma_headers = []\<rparr>,
      ro_targets = targets\<rparr>"

definition side_copy :: "string \<Rightarrow> route_target" where
  "side_copy name = (sample_target name)\<lparr>tg_required := False, tg_minimum_wait_ms := Some 100, tg_timeout_ms := Some 1000\<rparr>"

text \<open>Every message is stored, and orders go to the archive as well, first as an optional copy.\<close>

definition sample_routing :: routing_policy where
  "sample_routing =
     \<lparr>rp_enabled = True, rp_mode = All_routes, rp_no_match = Reject, rp_target_sink_types = [], rp_default_targets = [],
      rp_routes = [sample_route ''copy'' ''orders.>'' [side_copy ''archive''],
        sample_route ''store'' ''>'' [sample_target ''store'', sample_target ''archive'']]\<rparr>"

text \<open>C33: route selection is exact.  The routes reported as matched are the matching ones in configuration
  order, only the first of them in first-match mode; without a match the default route or nothing is
  taken.  The selected sinks are exactly the sinks offered by these routes, each once, and the policy
  selected for a sink is the first one offered for it.\<close>

theorem route_selection_exact:
  assumes "distinct (map tg_sink (rp_default_targets p))"
  shows "rs_matched_routes (select_route_targets e p) = map ro_name (chosen_routes p e)
    \<and> rs_targets (select_route_targets e p) = map tg_sink (rs_target_policies (select_route_targets e p))
    \<and> set (rs_targets (select_route_targets e p)) = tg_sink ` set (offered_targets p e)
    \<and> distinct (rs_targets (select_route_targets e p))
    \<and> find (\<lambda>t. tg_sink t = name) (rs_target_policies (select_route_targets e p))
        = find (\<lambda>t. tg_sink t = name) (offered_targets p e)"
proof -
  have "find (\<lambda>t. tg_sink t = name) (rs_target_policies (select_route_targets e p))
      = find (\<lambda>t. tg_sink t = name) (offered_targets p e)"
    by (simp add: selected_policies find_append_targets)
  moreover have "distinct (rs_targets (select_route_targets e p))"
    using distinct_selected [OF assms] by (simp add: selected_policies(3))
  ultimately show ?thesis
    using sinks_selected [of e p] by (simp add: selected_policies(2,3))
qed

lemma route_selection_exact_witness:
  "distinct (rs_targets (select_route_targets (sample_envelope ''orders.new'' 7 []) sample_routing))
    \<and> rs_targets (select_route_targets (sample_envelope ''orders.new'' 7 []) sample_routing) = [''archive'', ''store'']"
proof
  show "distinct (rs_targets (select_route_targets (sample_envelope ''orders.new'' 7 []) sample_routing))"
    by (rule route_selection_exact [THEN conjunct2, THEN conjunct2, THEN conjunct2, THEN conjunct1])
      (simp add: sample_routing_def)
  show "rs_targets (select_route_targets (sample_envelope ''orders.new'' 7 []) sample_routing) = [''archive'', ''store'']"
    by code_simp
qed

text \<open>
  The route \<open>store\<close> requires the archive, but the route before it offers the same sink as an optional
  copy, and only the first offer is kept: an order is selected for an optional archive copy.
\<close>

theorem later_requirement_dropped:
  "find (\<lambda>t. tg_sink t = ''archive'') (rs_target_policies (select_route_targets (sample_envelope ''orders.new'' 7 []) sample_routing))
     = Some (side_copy ''archive'')
   \<and> sample_target ''archive'' \<in> set (offered_targets sample_routing (sample_envelope ''orders.new'' 7 []))"
  by code_simp

section \<open>Accepted policies\<close>

text \<open>A target is either required and has no waits, or has both within their bounds.\<close>

definition waits_ok :: "route_target \<Rightarrow> bool" where
  "waits_ok t \<longleftrightarrow>
     (if tg_required t then tg_minimum_wait_ms t = None \<and> tg_timeout_ms t = None
      else (case (tg_minimum_wait_ms t, tg_timeout_ms t) of
          (Some m, Some n) \<Rightarrow> 0 \<le> m \<and> m \<le> 60000 \<and> m \<le> n \<and> n \<le> 300000 | _ \<Rightarrow> False))"

definition shape_ok :: "route_target \<Rightarrow> bool" where
  "shape_ok t \<longleftrightarrow> (\<exists>sink required minimum timeout. make_route_target sink required minimum timeout = Inr t)"

lemma validate_fanout_wait_ms_bounds:
  "validate_fanout_wait_ms b v = Inr r \<Longrightarrow> pred_option (\<lambda>n. 0 \<le> n \<and> n \<le> b) r"
  by (auto simp: validate_fanout_wait_ms_def raise_def split: pyval.splits if_splits)

lemma shape_ok_bounds:
  assumes "shape_ok t"
  shows "pred_option (\<lambda>n. 0 \<le> n \<and> n \<le> 60000) (tg_minimum_wait_ms t)" "pred_option (\<lambda>n. 0 \<le> n \<and> n \<le> 300000) (tg_timeout_ms t)"
    "tg_required t \<Longrightarrow> tg_minimum_wait_ms t = None \<and> tg_timeout_ms t = None"
  using assms unfolding shape_ok_def make_route_target_def rbind_Inr_iff
  by (auto simp: validate_ack_gate_shape_def raise_def dest!: validate_fanout_wait_ms_bounds split: if_splits option.splits)

lemma ack_defaults_bounds:
  "0 \<le> fst (FANOUT_OPTIONAL_ACK_DEFAULTS s) \<and> fst (FANOUT_OPTIONAL_ACK_DEFAULTS s) \<le> 60000
    \<and> 0 \<le> snd (FANOUT_OPTIONAL_ACK_DEFAULTS s) \<and> snd (FANOUT_OPTIONAL_ACK_DEFAULTS s) \<le> 300000"
  by (simp add: FANOUT_OPTIONAL_ACK_DEFAULTS_def)

lemma default_waits_ok:
  assumes "shape_ok t" "default_waits types t = Inr t'"
  shows "waits_ok t'"
proof (cases "tg_required t")
  case True
  with assms shape_ok_bounds(3) [OF assms(1)] show ?thesis by (simp add: default_waits_def waits_ok_def)
next
  case False
  note bounds = shape_ok_bounds(1,2) [OF assms(1)]
  have shape: "validate_ack_gate_shape t = Inr t"
    using assms(1) by (auto simp: shape_ok_def make_route_target_def rbind_Inr_iff validate_ack_gate_shape_def raise_def
        split: if_splits option.splits)
  show ?thesis
  proof (cases "map_of types (tg_sink t)")
    case None
    with assms(2) False bounds shape show ?thesis
      by (auto simp: default_waits_def waits_ok_def raise_def validate_ack_gate_shape_def split: if_splits option.splits)
  next
    case (Some sink_type)
    with assms(2) False bounds ack_defaults_bounds [of sink_type] show ?thesis
      by (cases "tg_minimum_wait_ms t"; cases "tg_timeout_ms t")
        (auto simp: default_waits_def waits_ok_def raise_def Let_def split: if_splits prod.splits)
  qed
qed

lemma routing_policy_waits:
  assumes "validate_routing_policy p = Inr p'" "rp_enabled p \<or> rp_default_targets p \<noteq> []"
    "list_all shape_ok (all_route_targets p)"
  shows "list_all waits_ok (all_route_targets p')"
proof -
  have "apply_ack_gate_defaults p = Inr p'"
    using assms(1) by (simp add: validate_routing_policy_def raise_def split: if_splits)
  then obtain defaults routes where
    d: "rmapM (default_waits (rp_target_sink_types p)) (rp_default_targets p) = Inr defaults"
    and r: "rmapM (\<lambda>r. rmap (\<lambda>ts. r\<lparr>ro_targets := ts\<rparr>) (rmapM (default_waits (rp_target_sink_types p)) (ro_targets r)))
      (rp_routes p) = Inr routes"
    and p': "p' = p\<lparr>rp_default_targets := defaults, rp_routes := routes\<rparr>"
    using assms(2) by (fastforce simp: apply_ack_gate_defaults_def rbind_Inr_iff split: if_splits)
  have waits: "list_all waits_ok ts'"
    if "rmapM (default_waits (rp_target_sink_types p)) ts = Inr ts'" "list_all shape_ok ts" for ts ts'
  proof (rule rmapM_all [OF that(1)])
    fix t t' assume "t \<in> set ts" "default_waits (rp_target_sink_types p) t = Inr t'"
    then show "waits_ok t'" using that(2) by (auto simp: list_all_iff intro: default_waits_ok)
  qed
  have "list_all waits_ok defaults" using waits [OF d] assms(3) by (simp add: all_route_targets_def)
  moreover have "list_all (\<lambda>r. list_all waits_ok (ro_targets r)) routes"
  proof (rule rmapM_all [OF r])
    fix x y assume x: "x \<in> set (rp_routes p)"
      and y: "rmap (\<lambda>ts. x\<lparr>ro_targets := ts\<rparr>) (rmapM (default_waits (rp_target_sink_types p)) (ro_targets x)) = Inr y"
    from y obtain ts where "rmapM (default_waits (rp_target_sink_types p)) (ro_targets x) = Inr ts" "y = x\<lparr>ro_targets := ts\<rparr>"
      unfolding rmap_Inr_iff by blast
    moreover have "list_all shape_ok (ro_targets x)" using assms(3) x by (auto simp: all_route_targets_def list_all_iff)
    ultimately show "list_all waits_ok (ro_targets y)" using waits by simp
  qed
  ultimately show ?thesis by (auto simp: p' all_route_targets_def list_all_iff)
qed

end
