(* ===== verification/AckGate.thy ===== *)
theory AckGate
  imports Routing
begin

text \<open>
  The acknowledgement gate of the fan-out sink (\<open>core/ack_gate.py\<close>).  All children start when the
  gate does, at time 0; times are in milliseconds.  A child ends by itself at some time or never, with
  success or an exception, and answers a cancellation at any time after some delay or never.  The
  event loop may resume the gate late.  \<open>None\<close> as the outcome of the gate: it waits forever.  Ties
  between a child's end and a deadline go to the child.  A cancellation of the gate itself is not
  modelled.
\<close>

section \<open>Children\<close>

record child_run =
  cr_ends :: "rat option"
  cr_outcome :: "exn option"
  cr_cancelled :: "rat \<Rightarrow> (rat \<times> exn option) option"

record gate_env =
  ge_child :: "string \<Rightarrow> child_run"
  ge_lag :: "string \<Rightarrow> rat"

definition done_by :: "gate_env \<Rightarrow> string \<Rightarrow> rat \<Rightarrow> bool" where
  "done_by G name now \<longleftrightarrow> (case cr_ends (ge_child G name) of None \<Rightarrow> False | Some d \<Rightarrow> d \<le> now)"

text \<open>The time at which an await of a child that ends at \<open>d\<close> resumes.\<close>

definition resumed :: "gate_env \<Rightarrow> string \<Rightarrow> rat \<Rightarrow> rat \<Rightarrow> rat" where
  "resumed G name now d = (if d \<le> now then now else d + ge_lag G name)"

section \<open>The gate\<close>

datatype target_status = Committed | Failed | Timed_out

record target_result =
  tr_sink :: string
  tr_required :: bool
  tr_status :: target_status
  tr_error_type :: "string option"

record gate_result =
  gr_required :: "target_result list"
  gr_optional :: "target_result list"

text \<open>An outcome of the gate: when, what, and which children are cancelled on the way out.\<close>

type_synonym 'a gate_exit = "(rat \<times> 'a res \<times> string list) option"

definition cancel_pending :: "gate_env \<Rightarrow> rat \<Rightarrow> route_target list \<Rightarrow> string list" where
  "cancel_pending G now ts = filter (\<lambda>name. \<not> done_by G name now) (map tg_sink ts)"

definition optional_result :: "route_target \<Rightarrow> target_status \<Rightarrow> string option \<Rightarrow> target_result" where
  "optional_result t status error_type = \<lparr>tr_sink = tg_sink t, tr_required = False, tr_status = status, tr_error_type = error_type\<rparr>"

fun await_required :: "gate_env \<Rightarrow> route_target list \<Rightarrow> route_target list \<Rightarrow> rat \<Rightarrow> target_result list \<Rightarrow> target_result list gate_exit" where
  "await_required G all [] now results = Some (now, Inr results, [])"
| "await_required G all (t # ts) now results =
     (if \<not> tg_required t then await_required G all ts now results
      else (case cr_ends (ge_child G (tg_sink t)) of
          None \<Rightarrow> None
        | Some d \<Rightarrow>
            let now' = resumed G (tg_sink t) now d in
            (case cr_outcome (ge_child G (tg_sink t)) of
              None \<Rightarrow> await_required G all ts now'
                (results @ [\<lparr>tr_sink = tg_sink t, tr_required = True, tr_status = Committed, tr_error_type = None\<rparr>])
            | Some err \<Rightarrow>
                Some (now', if isinstance err PyException
                  then raise FanoutRequiredSinkError ''required fan-out sink failed before ACK'' else Inl err,
                  cancel_pending G now' all))))"

text \<open>What awaiting a child that has ended yields.\<close>

definition ended_result :: "route_target \<Rightarrow> exn option \<Rightarrow> target_result res" where
  "ended_result t outcome =
     (case outcome of
        None \<Rightarrow> Inr (optional_result t Committed None)
      | Some err \<Rightarrow>
          if isinstance err CancelledError then Inr (optional_result t Timed_out None)
          else if isinstance err PyException then Inr (optional_result t Failed (Some (class_name (exn_cls err))))
          else Inl err)"

text \<open>
  The bounded wait: the child ends in the window, or it is cancelled at its end and awaited.  A
  timeout, also one the child itself raises, counts as one of the wait; any other exception of the
  child is raised.
\<close>

definition waited_result :: "route_target \<Rightarrow> exn option \<Rightarrow> target_result res" where
  "waited_result t outcome =
     (case outcome of
        None \<Rightarrow> Inr (optional_result t Committed None)
      | Some err \<Rightarrow> if isinstance err PyTimeoutError then Inr (optional_result t Timed_out None) else Inl err)"

definition cancelled_outcome :: "exn option \<Rightarrow> exn option" where
  "cancelled_outcome outcome =
     (case outcome of
        Some err \<Rightarrow> if isinstance err CancelledError then Some (Exn PyTimeoutError []) else Some err
      | None \<Rightarrow> None)"

definition bounded_wait :: "int \<Rightarrow> int \<Rightarrow> rat \<Rightarrow> rat" where
  "bounded_wait wait_ms timeout_ms now = of_int (min wait_ms (max 0 (timeout_ms - \<lfloor>now\<rfloor>)))"

definition observe_optional_target :: "gate_env \<Rightarrow> route_target \<Rightarrow> rat \<Rightarrow> (rat \<times> target_result res) option" where
  "observe_optional_target G t now =
     (case (tg_minimum_wait_ms t, tg_timeout_ms t) of
        (Some wait_ms, Some timeout_ms) \<Rightarrow>
          let child = ge_child G (tg_sink t); deadline = now + bounded_wait wait_ms timeout_ms now in
          if done_by G (tg_sink t) now then Some (now, ended_result t (cr_outcome child))
          else if done_by G (tg_sink t) deadline
          then Some (the (cr_ends child) + ge_lag G (tg_sink t), waited_result t (cr_outcome child))
          else (case cr_cancelled child deadline of
              None \<Rightarrow> None
            | Some (delay, outcome) \<Rightarrow>
                Some (deadline + delay + ge_lag G (tg_sink t), waited_result t (cancelled_outcome outcome)))
      | _ \<Rightarrow> Some (now, raise ValueError ''optional fan-out targets must have resolved wait and timeout values''))"

fun observe_optional :: "gate_env \<Rightarrow> route_target list \<Rightarrow> rat \<Rightarrow> target_result list \<Rightarrow> target_result list gate_exit" where
  "observe_optional G [] now results = Some (now, Inr results, [])"
| "observe_optional G (t # ts) now results =
     (if tg_required t then observe_optional G ts now results
      else (case observe_optional_target G t now of
          None \<Rightarrow> None
        | Some (now', Inl err) \<Rightarrow> Some (now', Inl err, cancel_pending G now' ts)
        | Some (now', Inr result) \<Rightarrow> observe_optional G ts now' (results @ [result])))"

definition wait_for_fanout_ack_gate :: "gate_env \<Rightarrow> string list \<Rightarrow> route_target list \<Rightarrow> gate_result gate_exit" where
  "wait_for_fanout_ack_gate G operations targets =
     (if \<not> tg_sink ` set targets \<subseteq> set operations
      then Some (0, raise ValueError ''fan-out ACK gate is missing operation(s) for target(s)'', [])
      else (case await_required G targets targets 0 [] of
          None \<Rightarrow> None
        | Some (now, Inl err, cancelled) \<Rightarrow> Some (now, Inl err, cancelled)
        | Some (now, Inr required, _) \<Rightarrow>
            (case observe_optional G targets now [] of
              None \<Rightarrow> None
            | Some (now', Inl err, cancelled) \<Rightarrow> Some (now', Inl err, cancelled)
            | Some (now', Inr optional, cancelled) \<Rightarrow>
                Some (now', Inr \<lparr>gr_required = required, gr_optional = optional\<rparr>, cancelled))))"

section \<open>When the gate opens\<close>

text \<open>Time goes forward: no resumption is early, no answer to a cancellation precedes it.\<close>

definition forward :: "gate_env \<Rightarrow> bool" where
  "forward G \<longleftrightarrow> (\<forall>name. 0 \<le> ge_lag G name)
     \<and> (\<forall>name x. pred_option (\<lambda>(delay, outcome). 0 \<le> delay) (cr_cancelled (ge_child G name) x))"

definition committed_by :: "gate_env \<Rightarrow> string \<Rightarrow> rat \<Rightarrow> bool" where
  "committed_by G name x \<longleftrightarrow> done_by G name x \<and> cr_outcome (ge_child G name) = None"

definition required_result :: "route_target \<Rightarrow> target_result" where
  "required_result t = \<lparr>tr_sink = tg_sink t, tr_required = True, tr_status = Committed, tr_error_type = None\<rparr>"

lemma done_by_mono: "done_by G name x \<Longrightarrow> x \<le> y \<Longrightarrow> done_by G name y"
  by (auto simp: done_by_def split: option.splits)

lemma committed_by_mono: "committed_by G name x \<Longrightarrow> x \<le> y \<Longrightarrow> committed_by G name y"
  by (auto simp: committed_by_def intro: done_by_mono)

lemma resumed_bounds:
  assumes "forward G" shows "now \<le> resumed G name now d" "d \<le> resumed G name now d"
proof -
  have "0 \<le> ge_lag G name" using assms by (simp add: forward_def)
  then show "now \<le> resumed G name now d" "d \<le> resumed G name now d" by (simp_all add: resumed_def)
qed

lemma await_required_Inr:
  assumes "forward G" "await_required G all ts now acc = Some (now', Inr rs, c)"
  shows "now \<le> now' \<and> c = [] \<and> rs = acc @ map required_result (filter tg_required ts)
    \<and> (\<forall>t\<in>set (filter tg_required ts). committed_by G (tg_sink t) now')"
  using assms(2)
proof (induction ts arbitrary: now acc)
  case (Cons t ts)
  show ?case
  proof (cases "tg_required t")
    case True
    with Cons.prems obtain d where d: "cr_ends (ge_child G (tg_sink t)) = Some d" "cr_outcome (ge_child G (tg_sink t)) = None"
      and rest: "await_required G all ts (resumed G (tg_sink t) now d) (acc @ [required_result t]) = Some (now', Inr rs, c)"
      by (auto simp: Let_def raise_def required_result_def split: option.splits if_splits)
    from Cons.IH [OF rest] resumed_bounds [OF assms(1), where now = now and name = "tg_sink t" and d = d] d True show ?thesis
      by (auto simp: committed_by_def done_by_def)
  next
    case False
    with Cons show ?thesis by simp
  qed
qed simp

text \<open>A child that has not ended by itself may still have succeeded when it was cancelled.\<close>

definition succeeded :: "gate_env \<Rightarrow> string \<Rightarrow> rat \<Rightarrow> bool" where
  "succeeded G name now \<longleftrightarrow>
     committed_by G name now \<or> (\<exists>x delay. x + delay \<le> now \<and> cr_cancelled (ge_child G name) x = Some (delay, None))"

lemma succeeded_mono: "succeeded G name x \<Longrightarrow> x \<le> y \<Longrightarrow> succeeded G name y"
  unfolding succeeded_def by (meson committed_by_mono order_trans)

lemma bounded_wait_nonneg: "0 \<le> wait_ms \<Longrightarrow> 0 \<le> bounded_wait wait_ms timeout_ms now"
  by (simp add: bounded_wait_def)

definition honest_result :: "gate_env \<Rightarrow> rat \<Rightarrow> target_result \<Rightarrow> bool" where
  "honest_result G now r \<longleftrightarrow> \<not> tr_required r \<and> (tr_status r = Committed \<longrightarrow> succeeded G (tr_sink r) now)"

lemma ended_resultE:
  assumes "ended_result t outcome = Inr r"
  shows "tr_sink r = tg_sink t \<and> \<not> tr_required r \<and> (tr_status r = Committed \<longrightarrow> outcome = None)"
  using assms by (auto simp: ended_result_def optional_result_def split: option.splits if_splits)

lemma waited_resultE:
  assumes "waited_result t outcome = Inr r"
  shows "tr_sink r = tg_sink t \<and> \<not> tr_required r \<and> (tr_status r = Committed \<longrightarrow> outcome = None)"
  using assms by (auto simp: waited_result_def optional_result_def split: option.splits if_splits)

lemma cancelled_outcome_None [simp]: "cancelled_outcome outcome = None \<longleftrightarrow> outcome = None"
  by (auto simp: cancelled_outcome_def split: option.splits)

lemma observe_optional_target_Inr:
  assumes "forward G" "waits_ok t" "\<not> tg_required t" "observe_optional_target G t now = Some (now', Inr r)"
  shows "now \<le> now' \<and> tr_sink r = tg_sink t \<and> honest_result G now' r"
proof -
  from assms(2,3) obtain m n where w: "tg_minimum_wait_ms t = Some m" "tg_timeout_ms t = Some n" "0 \<le> m"
    by (auto simp: waits_ok_def split: option.splits)
  define deadline where "deadline = now + bounded_wait m n now"
  have later: "now \<le> deadline" using bounded_wait_nonneg [OF w(3)] by (simp add: deadline_def)
  have lag: "0 \<le> ge_lag G (tg_sink t)" using assms(1) by (simp add: forward_def)
  let ?child = "ge_child G (tg_sink t)"
  consider (early) "done_by G (tg_sink t) now" "now' = now" "ended_result t (cr_outcome ?child) = Inr r"
    | (window) d where "\<not> done_by G (tg_sink t) now" "cr_ends ?child = Some d" "now' = d + ge_lag G (tg_sink t)"
        "waited_result t (cr_outcome ?child) = Inr r"
    | (cancel) delay outcome where "cr_cancelled ?child deadline = Some (delay, outcome)"
        "now' = deadline + delay + ge_lag G (tg_sink t)" "waited_result t (cancelled_outcome outcome) = Inr r"
    using assms(4) w
    by (auto simp: observe_optional_target_def deadline_def [symmetric] Let_def done_by_def split: if_splits option.splits)
  then show ?thesis
  proof cases
    case early
    with ended_resultE [OF early(3)] show ?thesis by (auto simp: honest_result_def succeeded_def committed_by_def)
  next
    case window
    then have "now \<le> d" by (simp add: done_by_def)
    with window waited_resultE [OF window(4)] lag show ?thesis
      by (auto simp: honest_result_def succeeded_def committed_by_def done_by_def)
  next
    case cancel
    have "pred_option (\<lambda>(delay, outcome). 0 \<le> delay) (cr_cancelled ?child deadline)"
      using assms(1) by (simp add: forward_def)
    then have "0 \<le> delay" by (simp add: cancel(1))
    moreover have "succeeded G (tg_sink t) now'" if "outcome = None"
      unfolding succeeded_def using that cancel(1,2) lag by (intro disjI2 exI [where x = deadline] exI [where x = delay]) simp
    ultimately show ?thesis
      using cancel waited_resultE [OF cancel(3)] lag later by (auto simp: honest_result_def)
  qed
qed

lemma honest_result_mono: "honest_result G x r \<Longrightarrow> x \<le> y \<Longrightarrow> honest_result G y r"
  by (auto simp: honest_result_def intro: succeeded_mono)

lemma observe_optional_Inr:
  assumes "forward G" "list_all waits_ok ts" "observe_optional G ts now acc = Some (now', Inr rs, c)"
    "list_all (honest_result G now) acc"
  shows "now \<le> now' \<and> c = [] \<and> map tr_sink rs = map tr_sink acc @ map tg_sink (filter (\<lambda>t. \<not> tg_required t) ts)
    \<and> list_all (honest_result G now') rs"
  using assms(2-4)
proof (induction ts arbitrary: now acc)
  case (Cons t ts)
  show ?case
  proof (cases "tg_required t")
    case False
    with Cons.prems(2) obtain x r where o: "observe_optional_target G t now = Some (x, Inr r)"
      and rest: "observe_optional G ts x (acc @ [r]) = Some (now', Inr rs, c)"
      by (auto split: option.splits sum.splits)
    have one: "now \<le> x" "tr_sink r = tg_sink t" "honest_result G x r"
      using observe_optional_target_Inr [OF assms(1) _ False o] Cons.prems(1) by auto
    then have "list_all (honest_result G x) (acc @ [r])"
      using Cons.prems(3) by (auto simp: list_all_iff intro: honest_result_mono)
    with Cons.IH [OF _ rest] Cons.prems(1) one False show ?thesis by auto
  next
    case True
    with Cons show ?thesis by simp
  qed
qed simp

lemma gate_Inr:
  assumes "forward G" "list_all waits_ok ts" "wait_for_fanout_ack_gate G ops ts = Some (now, Inr r, c)"
  shows "tg_sink ` set ts \<subseteq> set ops \<and> c = []
    \<and> gr_required r = map required_result (filter tg_required ts)
    \<and> (\<forall>t\<in>set (filter tg_required ts). committed_by G (tg_sink t) now)
    \<and> map tr_sink (gr_optional r) = map tg_sink (filter (\<lambda>t. \<not> tg_required t) ts)
    \<and> list_all (honest_result G now) (gr_optional r)"
proof -
  from assms(3) obtain x rs c1 rs' where r: "await_required G ts ts 0 [] = Some (x, Inr rs, c1)"
    "observe_optional G ts x [] = Some (now, Inr rs', c)" "r = \<lparr>gr_required = rs, gr_optional = rs'\<rparr>"
    "tg_sink ` set ts \<subseteq> set ops"
    by (auto simp: wait_for_fanout_ack_gate_def raise_def split: if_splits option.splits sum.splits)
  from await_required_Inr [OF assms(1) r(1)] observe_optional_Inr [OF assms(1,2) r(2)] r(3,4)
  show ?thesis by (auto intro: committed_by_mono)
qed

section \<open>How long it takes\<close>

text \<open>The event loop resumes at once, and a cancelled child ends at once.\<close>

definition prompt :: "gate_env \<Rightarrow> bool" where
  "prompt G \<longleftrightarrow> (\<forall>name. ge_lag G name = 0)
     \<and> (\<forall>name x. case cr_cancelled (ge_child G name) x of None \<Rightarrow> False | Some (delay, outcome) \<Rightarrow> delay = 0)"

lemma bounded_wait_deadline: "now + bounded_wait m n now \<le> max now (of_int n + 1)"
proof -
  have "now < of_int \<lfloor>now\<rfloor> + 1" by linarith
  moreover have "bounded_wait m n now \<le> max 0 (of_int n - of_int \<lfloor>now\<rfloor>)"
    by (auto simp: bounded_wait_def of_int_max of_int_min min_def max_def)
  ultimately show ?thesis by (auto simp: max_def split: if_splits)
qed

lemma observe_optional_target_time:
  assumes "prompt G" "waits_ok t" "\<not> tg_required t" "pred_option (\<lambda>n. n \<le> B) (tg_timeout_ms t)"
  shows "\<exists>now' r. observe_optional_target G t now = Some (now', r) \<and> now' \<le> max now (of_int B + 1)"
proof -
  from assms(2,3) obtain m n where w: "tg_minimum_wait_ms t = Some m" "tg_timeout_ms t = Some n"
    by (auto simp: waits_ok_def split: option.splits)
  with assms(4) have "(of_int n :: rat) \<le> of_int B" by simp
  then have deadline: "now + bounded_wait m n now \<le> max now (of_int B + 1)"
    using bounded_wait_deadline [of now m n] by (auto simp: max_def split: if_splits)
  let ?child = "ge_child G (tg_sink t)"
  obtain outcome where cancel: "cr_cancelled ?child (now + bounded_wait m n now) = Some (0, outcome)"
    and lag: "ge_lag G (tg_sink t) = 0"
  proof -
    have "case cr_cancelled ?child (now + bounded_wait m n now) of None \<Rightarrow> False | Some (delay, outcome) \<Rightarrow> delay = 0"
      "ge_lag G (tg_sink t) = 0"
      using assms(1) unfolding prompt_def by blast+
    then show ?thesis using that by (auto split: option.splits)
  qed
  show ?thesis
  proof (cases "cr_ends ?child")
    case None
    then show ?thesis using w cancel lag deadline by (simp add: observe_optional_target_def done_by_def)
  next
    case (Some d)
    then show ?thesis using w cancel lag deadline by (auto simp: observe_optional_target_def done_by_def Let_def)
  qed
qed

lemma observe_optional_time:
  assumes "prompt G" "list_all waits_ok ts" "list_all (\<lambda>t. pred_option (\<lambda>n. n \<le> B) (tg_timeout_ms t)) ts"
  shows "\<exists>now' r c. observe_optional G ts now acc = Some (now', r, c) \<and> now' \<le> max now (of_int B + 1)"
  using assms(2,3)
proof (induction ts arbitrary: now acc)
  case (Cons t ts)
  show ?case
  proof (cases "tg_required t")
    case False
    with observe_optional_target_time [OF assms(1), of t B now] Cons.prems
    obtain x r where o: "observe_optional_target G t now = Some (x, r)" "x \<le> max now (of_int B + 1)" by auto
    show ?thesis
    proof (cases r)
      case (Inl err)
      with o False show ?thesis by simp
    next
      case (Inr result)
      from Cons.IH [of x "acc @ [result]"] Cons.prems o(2)
      obtain now' r' c where "observe_optional G ts x (acc @ [result]) = Some (now', r', c)" "now' \<le> max now (of_int B + 1)"
        by fastforce
      with o Inr False show ?thesis by simp
    qed
  next
    case True
    with Cons show ?thesis by simp
  qed
qed simp

lemma await_required_time:
  assumes "prompt G" "\<And>t. t \<in> set ts \<Longrightarrow> tg_required t \<Longrightarrow> done_by G (tg_sink t) R"
  shows "\<exists>now' r c. await_required G all ts now acc = Some (now', r, c) \<and> now' \<le> max now R"
  using assms(2)
proof (induction ts arbitrary: now acc)
  case (Cons t ts)
  show ?case
  proof (cases "tg_required t")
    case True
    with Cons.prems [of t] obtain d where d: "cr_ends (ge_child G (tg_sink t)) = Some d" "d \<le> R"
      by (auto simp: done_by_def split: option.splits)
    have x: "resumed G (tg_sink t) now d \<le> max now R"
      using assms(1) d(2) by (simp add: resumed_def prompt_def)
    show ?thesis
    proof (cases "cr_outcome (ge_child G (tg_sink t))")
      case None
      obtain now' r c where
        "await_required G all ts (resumed G (tg_sink t) now d)
           (acc @ [\<lparr>tr_sink = tg_sink t, tr_required = True, tr_status = Committed, tr_error_type = None\<rparr>]) = Some (now', r, c)"
        "now' \<le> max (resumed G (tg_sink t) now d) R"
        using Cons.IH [of "resumed G (tg_sink t) now d"] Cons.prems by fastforce
      with None x d True show ?thesis by (auto simp: Let_def)
    next
      case (Some err)
      with x d True show ?thesis by (simp add: Let_def)
    qed
  next
    case False
    with Cons show ?thesis by simp
  qed
qed simp


text \<open>A store that commits after 20 ms and an optional archive that never ends.\<close>

definition sample_gate :: "rat option \<Rightarrow> exn option \<Rightarrow> gate_env" where
  "sample_gate archive_ends archive_outcome =
     \<lparr>ge_child = (\<lambda>name. if name = ''store''
        then \<lparr>cr_ends = Some 20, cr_outcome = None, cr_cancelled = (\<lambda>x. Some (0, Some (Exn CancelledError [])))\<rparr>
        else \<lparr>cr_ends = archive_ends, cr_outcome = archive_outcome, cr_cancelled = (\<lambda>x. Some (0, Some (Exn CancelledError [])))\<rparr>),
      ge_lag = (\<lambda>name. 0)\<rparr>"

definition sample_targets :: "route_target list" where
  "sample_targets = [sample_target ''store'', side_copy ''archive'']"

lemma sample_gate_good: "prompt (sample_gate d r)" "forward (sample_gate d r)" "list_all waits_ok sample_targets"
  by (auto simp: prompt_def forward_def sample_gate_def sample_targets_def side_copy_def sample_target_def waits_ok_def)


text \<open>The gate opens only when every required child has committed.  When the gate returns a result,
  every required target's child has ended with success by that time and is reported as committed, every
  optional target has one result, an optional child reported as committed has ended with success too,
  and nothing is left to cancel.\<close>

theorem gate_opens_after_commits:
  assumes "forward G" "list_all waits_ok targets" "wait_for_fanout_ack_gate G operations targets = Some (now, Inr r, cancelled)"
  shows "(\<forall>t\<in>set (filter tg_required targets). committed_by G (tg_sink t) now)
    \<and> gr_required r = map required_result (filter tg_required targets)
    \<and> map tr_sink (gr_optional r) = map tg_sink (filter (\<lambda>t. \<not> tg_required t) targets)
    \<and> list_all (\<lambda>x. tr_status x = Committed \<longrightarrow> succeeded G (tr_sink x) now) (gr_optional r)
    \<and> cancelled = []"
  using gate_Inr [OF assms] by (auto simp: list_all_iff honest_result_def)

lemma sample_gate_opens:
  "wait_for_fanout_ack_gate (sample_gate None None) [''store'', ''archive''] sample_targets =
     Some (120, Inr \<lparr>gr_required = [required_result (sample_target ''store'')],
       gr_optional = [optional_result (side_copy ''archive'') Timed_out None]\<rparr>, [])"
  by (simp add: wait_for_fanout_ack_gate_def sample_gate_def sample_targets_def side_copy_def sample_target_def
      required_result_def resumed_def observe_optional_target_def done_by_def bounded_wait_def waited_result_def
      cancelled_outcome_def optional_result_def)

lemma gate_opens_after_commits_witness:
  "committed_by (sample_gate None None) ''store'' 120"
  using gate_opens_after_commits [OF sample_gate_good(2,3) sample_gate_opens]
  by (simp add: sample_targets_def sample_target_def side_copy_def)

text \<open>Whether a failing optional child blocks the acknowledgement depends on when it fails.  With a
  required child that commits and an optional one that fails with an ordinary exception inside its wait,
  the gate opens and reports the failure when it came before the required child had committed, and raises
  the optional child's exception when it came after.\<close>

theorem optional_failure_timing:
  assumes "tg_required a" "\<not> tg_required b" "tg_minimum_wait_ms b = Some m" "tg_timeout_ms b = Some n"
    "ge_lag G (tg_sink a) = 0" "ge_lag G (tg_sink b) = 0"
    "cr_ends (ge_child G (tg_sink a)) = Some d" "cr_outcome (ge_child G (tg_sink a)) = None" "0 \<le> d"
    "cr_ends (ge_child G (tg_sink b)) = Some x" "cr_outcome (ge_child G (tg_sink b)) = Some err"
    "isinstance err PyException" "\<not> isinstance err CancelledError" "\<not> isinstance err PyTimeoutError"
    "x \<le> d + bounded_wait m n d"
  shows "wait_for_fanout_ack_gate G [tg_sink a, tg_sink b] [a, b] = Some (max d x,
    if x \<le> d
    then Inr \<lparr>gr_required = [required_result a], gr_optional = [optional_result b Failed (Some (class_name (exn_cls err)))]\<rparr>
    else Inl err, [])"
proof -
  have d: "resumed G (tg_sink a) 0 d = d" using assms(5,9) by (simp add: resumed_def)
  show ?thesis
  proof (cases "x \<le> d")
    case True
    then show ?thesis using assms d
      by (simp add: wait_for_fanout_ack_gate_def observe_optional_target_def done_by_def ended_result_def required_result_def)
  next
    case False
    then show ?thesis using assms d
      by (simp add: wait_for_fanout_ack_gate_def observe_optional_target_def done_by_def waited_result_def cancel_pending_def)
  qed
qed

lemma optional_failure_timing_witness:
  "wait_for_fanout_ack_gate (sample_gate (Some 30) (Some (Exn PermanentSinkError ''bad row''))) [''store'', ''archive''] sample_targets
     = Some (30, Inl (Exn PermanentSinkError ''bad row''), [])"
  using optional_failure_timing [of "sample_target ''store''" "side_copy ''archive''" 100 1000
      "sample_gate (Some 30) (Some (Exn PermanentSinkError ''bad row''))" 20 30 "Exn PermanentSinkError ''bad row''"]
  by (simp add: sample_targets_def sample_target_def side_copy_def sample_gate_def bounded_wait_def)

end
