(* ===== verification/Fanout.thy ===== *)
theory Fanout
  imports AckGate Priority
begin

text \<open>
  The fan-out sink (\<open>core/fanout_sink.py\<close>) and its metrics (\<open>core/fanout_observability.py\<close>): each
  message of a batch is routed, the messages are grouped by child sink, all children are written at
  once, and the gate decides whether the batch counts as written.  The children are the environment:
  how a child runs may depend on everything before the write and on the messages it gets.
\<close>

section \<open>Metrics\<close>

text \<open>A recorder that raises never changes the delivery decision.\<close>

definition metric_update :: "env option \<Rightarrow> (env \<Rightarrow> unit act) \<Rightarrow> unit act" where
  "metric_update M update = when_metrics M (\<lambda>E. catch_exception (update E) (\<lambda>_. ret ()))"

definition fanout_increment :: "env option \<Rightarrow> string \<Rightarrow> nat \<Rightarrow> unit act" where
  "fanout_increment M name n = (if n = 0 then ret () else metric_update M (\<lambda>E. increment_metric E name n))"

definition fanout_set_value :: "env option \<Rightarrow> string \<Rightarrow> nat \<Rightarrow> unit act" where
  "fanout_set_value M name n = metric_update M (\<lambda>E. set_metric_value E name (of_nat n))"

definition observe_seconds :: "env option \<Rightarrow> string \<Rightarrow> rat \<Rightarrow> unit act" where
  "observe_seconds M name x =
     (if x < 0 then throw (Exn ValueError ''must be a finite non-negative number of seconds'')
      else metric_update M (\<lambda>E. observe_metric E name x))"

definition record_fanout_route_selection :: "env option \<Rightarrow> route_selection \<Rightarrow> unit act" where
  "record_fanout_route_selection M s =
     (let n = length (rs_targets s) in
      then_act (fanout_increment M ''fanout_route_matches_total'' (length (rs_matched_routes s)))
      (then_act (fanout_increment M ''fanout_messages_routed_total'' (if n \<noteq> 0 then 1 else 0))
      (then_act (fanout_increment M ''fanout_messages_no_route_total'' (if rs_action s \<in> {Act_reject, Act_ignore} then 1 else 0))
      (then_act (fanout_increment M ''fanout_child_sinks_selected_total'' n)
        (fanout_set_value M ''current_fanout_child_sinks_selected'' n)))))"

definition count_status :: "target_result list \<Rightarrow> target_status \<Rightarrow> nat" where
  "count_status rs status = length (filter (\<lambda>r. tr_status r = status) rs)"

definition record_fanout_ack_gate_result :: "env option \<Rightarrow> gate_result \<Rightarrow> rat \<Rightarrow> rat \<Rightarrow> unit act" where
  "record_fanout_ack_gate_result M r ack_wait_seconds batch_seconds =
     then_act (fanout_increment M ''fanout_required_child_success_total'' (count_status (gr_required r) Committed))
     (then_act (fanout_increment M ''fanout_required_child_failure_total''
         (length (gr_required r) - count_status (gr_required r) Committed))
     (then_act (fanout_increment M ''fanout_optional_child_success_total'' (count_status (gr_optional r) Committed))
     (then_act (fanout_increment M ''fanout_optional_child_failure_total'' (count_status (gr_optional r) Failed))
     (then_act (fanout_increment M ''fanout_optional_child_timeout_total'' (count_status (gr_optional r) Timed_out))
     (then_act (fanout_increment M ''fanout_messages_acked_total'' 1)
     (then_act (observe_seconds M ''fanout_ack_gate_wait_seconds'' ack_wait_seconds)
       (observe_seconds M ''fanout_batch_seconds'' batch_seconds)))))))"

definition record_fanout_required_failure :: "env option \<Rightarrow> rat \<Rightarrow> rat \<Rightarrow> unit act" where
  "record_fanout_required_failure M ack_wait_seconds batch_seconds =
     then_act (fanout_increment M ''fanout_required_child_failure_total'' 1)
     (then_act (fanout_increment M ''fanout_messages_ack_blocked_total'' 1)
     (then_act (observe_seconds M ''fanout_ack_gate_wait_seconds'' ack_wait_seconds)
       (observe_seconds M ''fanout_batch_seconds'' batch_seconds)))"

section \<open>The sink\<close>

record fanout_sink =
  fs_children :: "string list"
  fs_routing :: routing_policy

definition make_fanout_sink :: "string list \<Rightarrow> routing_policy \<Rightarrow> fanout_sink res" where
  "make_fanout_sink children routing =
     (if children = [] then raise ConfigurationError ''fan-out sink requires at least one child sink''
      else if \<not> rp_enabled routing then raise ConfigurationError ''fan-out sink requires routing.enabled true''
      else if target_names routing = [] then raise ConfigurationError ''fan-out sink routing must select at least one target''
      else if \<not> set (target_names routing) \<subseteq> set children
      then raise ConfigurationError ''fan-out routing references unknown child sink(s)''
      else Inr \<lparr>fs_children = children, fs_routing = routing\<rparr>)"

text \<open>
  The children's side: how the write of a child runs, delays of the event loop, and the two durations
  measured for a batch.
\<close>

record fanout_env =
  fe_child :: "trace \<Rightarrow> string \<Rightarrow> nats_envelope list \<Rightarrow> child_run"
  fe_lag :: "trace \<Rightarrow> string \<Rightarrow> rat"
  fe_ack_wait :: "trace \<Rightarrow> rat"
  fe_batch_seconds :: "trace \<Rightarrow> rat"

text \<open>The targets of a batch in the order of their first selection, with their messages.\<close>

type_synonym selected_targets = "(route_target \<times> nats_envelope list) list"

definition merge_target_policy :: "route_target \<Rightarrow> route_target \<Rightarrow> route_target res" where
  "merge_target_policy left right =
     (if tg_sink left \<noteq> tg_sink right then raise ValueError ''cannot merge route target policies for different sinks''
      else if tg_required left \<or> tg_required right then make_route_target (PStr (tg_sink left)) True PNone PNone
      else make_route_target (PStr (tg_sink left)) False
        (PInt (max (case_option 0 id (tg_minimum_wait_ms left)) (case_option 0 id (tg_minimum_wait_ms right))))
        (PInt (max (case_option 0 id (tg_timeout_ms left)) (case_option 0 id (tg_timeout_ms right)))))"

fun add_target :: "nats_envelope \<Rightarrow> route_target \<Rightarrow> selected_targets \<Rightarrow> selected_targets res" where
  "add_target e t [] = Inr [(t, [e])]"
| "add_target e t ((p, es) # selected) =
     (if tg_sink p = tg_sink t then rmap (\<lambda>q. (q, es @ [e]) # selected) (merge_target_policy p t)
      else rmap (Cons (p, es)) (add_target e t selected))"

fun add_targets :: "nats_envelope \<Rightarrow> route_target list \<Rightarrow> selected_targets \<Rightarrow> selected_targets res" where
  "add_targets e [] selected = Inr selected"
| "add_targets e (t # ts) selected = rbind (add_target e t selected) (add_targets e ts)"

definition handle_no_route :: "route_selection \<Rightarrow> unit res" where
  "handle_no_route s =
     (if rs_action s = Act_reject then raise PermanentSinkError ''fan-out routing selected no child sink target''
      else if rs_action s = Act_disabled then raise ConfigurationError ''fan-out routing is disabled''
      else Inr ())"

definition route_message :: "routing_policy \<Rightarrow> nats_envelope \<Rightarrow> selected_targets \<Rightarrow> selected_targets res" where
  "route_message p e selected =
     (let s = select_route_targets e p in rbind (handle_no_route s) (\<lambda>_. add_targets e (rs_target_policies s) selected))"

fun select_targets :: "env option \<Rightarrow> routing_policy \<Rightarrow> nats_envelope list \<Rightarrow> selected_targets \<Rightarrow> selected_targets act" where
  "select_targets M p [] selected = ret selected"
| "select_targets M p (e # es) selected =
     then_act (record_fanout_route_selection M (select_route_targets e p))
       (bind_act (lift_res (route_message p e selected)) (select_targets M p es))"

definition child_messages :: "selected_targets \<Rightarrow> string \<Rightarrow> nats_envelope list" where
  "child_messages selected name = case_option [] id (map_of (map (\<lambda>(p, es). (tg_sink p, es)) selected) name)"

definition gate_env_of :: "fanout_env \<Rightarrow> trace \<Rightarrow> selected_targets \<Rightarrow> gate_env" where
  "gate_env_of F t selected = \<lparr>ge_child = (\<lambda>name. fe_child F t name (child_messages selected name)), ge_lag = fe_lag F t\<rparr>"

text \<open>\<open>None\<close>: the write never returns.\<close>

definition write_batch :: "env option \<Rightarrow> fanout_env \<Rightarrow> fanout_sink \<Rightarrow> nats_envelope list \<Rightarrow> trace \<Rightarrow> (unit res \<times> trace) option" where
  "write_batch M F s es t =
     (if es = [] then Some (Inr (), t)
      else (case select_targets M (fs_routing s) es [] t of
          (Inl err, t') \<Rightarrow> Some (Inl err, t')
        | (Inr selected, t') \<Rightarrow>
            if selected = [] then Some (Inr (), t')
            else (case wait_for_fanout_ack_gate (gate_env_of F t' selected) (map (tg_sink \<circ> fst) selected) (map fst selected) of
                None \<Rightarrow> None
              | Some (now, Inl err, cancelled) \<Rightarrow>
                  Some (if isinstance err FanoutRequiredSinkError
                    then then_act (record_fanout_required_failure M (fe_ack_wait F t') (fe_batch_seconds F t'))
                      (throw (Exn TemporarySinkError ''fan-out required child sink failed before ACK'')) t'
                    else (Inl err, t'))
              | Some (now, Inr result, cancelled) \<Rightarrow>
                  Some (record_fanout_ack_gate_result M result (fe_ack_wait F t') (fe_batch_seconds F t') t'))))"

section \<open>Starting and stopping the children\<close>

datatype child_event = Child_start string "exn option" | Child_stop string "exn option"

definition stop_child_safely :: "(string \<Rightarrow> exn option) \<Rightarrow> string \<Rightarrow> exn option \<times> child_event list" where
  "stop_child_safely stop name =
     (case stop name of
        None \<Rightarrow> (None, [Child_stop name None])
      | Some err \<Rightarrow> (if isinstance err PyException then None else Some err, [Child_stop name (Some err)]))"

fun stop_started :: "(string \<Rightarrow> exn option) \<Rightarrow> string list \<Rightarrow> exn option \<times> child_event list" where
  "stop_started stop [] = (None, [])"
| "stop_started stop (name # names) =
     (case stop_child_safely stop name of
        (Some err, events) \<Rightarrow> (Some err, events)
      | (None, events) \<Rightarrow> (case stop_started stop names of (r, rest) \<Rightarrow> (r, events @ rest)))"

fun start_children :: "(string \<Rightarrow> exn option) \<Rightarrow> (string \<Rightarrow> exn option) \<Rightarrow> string list \<Rightarrow> string list
    \<Rightarrow> exn option \<times> child_event list" where
  "start_children start stop started [] = (None, [])"
| "start_children start stop started (name # names) =
     (case start name of
        None \<Rightarrow> (case start_children start stop (started @ [name]) names of (r, events) \<Rightarrow> (r, Child_start name None # events))
      | Some err \<Rightarrow>
          if isinstance err PyException
          then (case stop_started stop (rev started) of
              (None, events) \<Rightarrow> (Some err, Child_start name (Some err) # events)
            | (Some err', events) \<Rightarrow> (Some err', Child_start name (Some err) # events))
          else (Some err, [Child_start name (Some err)]))"

definition start_fanout :: "fanout_sink \<Rightarrow> (string \<Rightarrow> exn option) \<Rightarrow> (string \<Rightarrow> exn option) \<Rightarrow> exn option \<times> child_event list" where
  "start_fanout s start stop = start_children start stop [] (sort (fs_children s))"

fun stop_children :: "(string \<Rightarrow> exn option) \<Rightarrow> bool \<Rightarrow> string list \<Rightarrow> exn option \<times> child_event list" where
  "stop_children stop errors [] =
     (if errors then Some (Exn TemporarySinkError ''one or more fan-out child sinks failed to stop'') else None, [])"
| "stop_children stop errors (name # names) =
     (case stop name of
        Some err \<Rightarrow>
          if isinstance err PyException
          then (case stop_children stop True names of (r, events) \<Rightarrow> (r, Child_stop name (Some err) # events))
          else (Some err, [Child_stop name (Some err)])
      | None \<Rightarrow> (case stop_children stop errors names of (r, events) \<Rightarrow> (r, Child_stop name None # events)))"

definition stop_fanout :: "fanout_sink \<Rightarrow> (string \<Rightarrow> exn option) \<Rightarrow> exn option \<times> child_event list" where
  "stop_fanout s stop = stop_children stop False (rev (sort (fs_children s)))"

section \<open>Grouping\<close>

lemma validate_ack_gate_shapeE: "validate_ack_gate_shape t = Inr q \<Longrightarrow> q = t"
  by (auto simp: validate_ack_gate_shape_def raise_def split: if_splits option.splits)

lemma normalize_routing_nameE: "normalize_routing_name (PStr s) = Inr n \<Longrightarrow> n = s"
  by (simp add: normalize_routing_name_def raise_def split: if_splits)

lemma validate_fanout_wait_msE:
  "validate_fanout_wait_ms b (PInt i) = Inr r \<Longrightarrow> r = Some i"
  "validate_fanout_wait_ms b PNone = Inr r \<Longrightarrow> r = None"
  by (simp_all add: validate_fanout_wait_ms_def raise_def split: if_splits)

lemma make_route_targetE:
  assumes "make_route_target (PStr name) required m n = Inr q"
  obtains m' n' where "validate_fanout_wait_ms 60000 m = Inr m'" "validate_fanout_wait_ms 300000 n = Inr n'"
    "q = \<lparr>tg_sink = name, tg_required = required, tg_minimum_wait_ms = m', tg_timeout_ms = n'\<rparr>"
proof -
  from assms obtain s m' n' where r: "normalize_routing_name (PStr name) = Inr s"
    "validate_fanout_wait_ms 60000 m = Inr m'" "validate_fanout_wait_ms 300000 n = Inr n'"
    "validate_ack_gate_shape \<lparr>tg_sink = s, tg_required = required, tg_minimum_wait_ms = m', tg_timeout_ms = n'\<rparr> = Inr q"
    unfolding make_route_target_def rbind_Inr_iff by blast
  from that [OF r(2,3)] validate_ack_gate_shapeE [OF r(4)] normalize_routing_nameE [OF r(1)] show thesis by simp
qed

lemma merge_target_policy_sink: "merge_target_policy left right = Inr q \<Longrightarrow> tg_sink q = tg_sink left"
  by (auto simp: merge_target_policy_def raise_def elim!: make_route_targetE split: if_splits)

lemma merge_target_policyE:
  assumes "merge_target_policy left right = Inr q" "waits_ok left" "waits_ok right"
  shows "tg_sink q = tg_sink left \<and> tg_required q = (tg_required left \<or> tg_required right) \<and> waits_ok q"
proof -
  show ?thesis
  proof (cases "tg_required left \<or> tg_required right")
    case True
    with assms(1) have "make_route_target (PStr (tg_sink left)) True PNone PNone = Inr q"
      by (simp add: merge_target_policy_def raise_def split: if_splits)
    then show ?thesis using True by (elim make_route_targetE) (auto simp: waits_ok_def dest: validate_fanout_wait_msE)
  next
    case False
    with assms(2,3) obtain m n m' n' where w: "tg_minimum_wait_ms left = Some m" "tg_timeout_ms left = Some n"
      "tg_minimum_wait_ms right = Some m'" "tg_timeout_ms right = Some n'"
      "0 \<le> m \<and> m \<le> 60000 \<and> m \<le> n \<and> n \<le> 300000" "0 \<le> m' \<and> m' \<le> 60000 \<and> m' \<le> n' \<and> n' \<le> 300000"
      by (auto simp: waits_ok_def split: option.splits)
    with False assms(1) have "make_route_target (PStr (tg_sink left)) False (PInt (max m m')) (PInt (max n n')) = Inr q"
      by (simp add: merge_target_policy_def raise_def split: if_splits)
    then show ?thesis using False w(5,6)
      by (elim make_route_targetE) (auto simp: waits_ok_def dest!: validate_fanout_wait_msE)
  qed
qed

definition groups_ok :: "selected_targets \<Rightarrow> bool" where
  "groups_ok selected \<longleftrightarrow> distinct (map (tg_sink \<circ> fst) selected) \<and> list_all (waits_ok \<circ> fst) selected"

text \<open>Message \<open>e\<close> is in a group that honours target \<open>x\<close>.\<close>

definition grouped :: "selected_targets \<Rightarrow> nats_envelope \<Rightarrow> route_target \<Rightarrow> bool" where
  "grouped selected e x \<longleftrightarrow>
     (\<exists>(q, es)\<in>set selected. tg_sink q = tg_sink x \<and> (tg_required x \<longrightarrow> tg_required q) \<and> e \<in> set es)"

lemma grouped_simps [simp]:
  "grouped [] e x \<longleftrightarrow> False"
  "grouped ((q, es) # selected) e x \<longleftrightarrow>
     (tg_sink q = tg_sink x \<and> (tg_required x \<longrightarrow> tg_required q) \<and> e \<in> set es) \<or> grouped selected e x"
  by (auto simp: grouped_def)

lemma groups_ok_simps [simp]:
  "groups_ok []"
  "groups_ok ((q, es) # selected) \<longleftrightarrow> tg_sink q \<notin> (tg_sink \<circ> fst) ` set selected \<and> waits_ok q \<and> groups_ok selected"
  by (auto simp: groups_ok_def)

lemma add_targetE:
  assumes "add_target e t selected = Inr selected'" "groups_ok selected" "waits_ok t"
  shows "groups_ok selected' \<and> (tg_sink \<circ> fst) ` set selected' = insert (tg_sink t) ((tg_sink \<circ> fst) ` set selected)
    \<and> grouped selected' e t \<and> (\<forall>e' x. grouped selected e' x \<longrightarrow> grouped selected' e' x)"
  using assms
proof (induction selected arbitrary: selected')
  case Nil
  then have "selected' = [(t, [e])]" by simp
  with Nil.prems(3) show ?case by simp
next
  case (Cons g selected)
  obtain p es where g: "g = (p, es)" by (cases g)
  from Cons.prems(2) g have p: "waits_ok p" "groups_ok selected" "tg_sink p \<notin> (tg_sink \<circ> fst) ` set selected" by simp_all
  show ?case
  proof (cases "tg_sink p = tg_sink t")
    case True
    with Cons.prems(1) g obtain q where q: "merge_target_policy p t = Inr q" "selected' = (q, es @ [e]) # selected"
      by (auto simp: rmap_Inr_iff)
    from merge_target_policyE [OF q(1) p(1) Cons.prems(3)] p True show ?thesis unfolding q(2) g by auto
  next
    case False
    with Cons.prems(1) g obtain rest where rest: "add_target e t selected = Inr rest" "selected' = (p, es) # rest"
      by (auto simp: rmap_Inr_iff)
    from Cons.IH [OF rest(1) p(2) Cons.prems(3)] p False show ?thesis unfolding rest(2) g by auto
  qed
qed

lemma add_targetsE:
  assumes "add_targets e ts selected = Inr selected'" "groups_ok selected" "list_all waits_ok ts"
  shows "groups_ok selected' \<and> (\<forall>t\<in>set ts. grouped selected' e t)
    \<and> (\<forall>e' x. grouped selected e' x \<longrightarrow> grouped selected' e' x)"
  using assms
proof (induction ts arbitrary: selected)
  case (Cons t ts)
  then obtain mid where mid: "add_target e t selected = Inr mid" "add_targets e ts mid = Inr selected'"
    by (auto simp: rbind_Inr_iff)
  from Cons.prems have w: "waits_ok t" "list_all waits_ok ts" by simp_all
  note step = add_targetE [OF mid(1) Cons.prems(2) w(1)]
  from Cons.IH [OF mid(2) _ w(2)] step show ?case by auto
qed simp

lemma child_messages_add_target:
  "add_target e t selected = Inr selected' \<Longrightarrow>
     child_messages selected' name = child_messages selected name @ (if name = tg_sink t then [e] else [])"
proof (induction selected arbitrary: selected')
  case Nil
  then show ?case by (auto simp: child_messages_def)
next
  case (Cons g selected)
  obtain p es where g: "g = (p, es)" by (cases g)
  show ?case
  proof (cases "tg_sink p = tg_sink t")
    case True
    with Cons.prems g obtain q where "merge_target_policy p t = Inr q" "selected' = (q, es @ [e]) # selected"
      by (auto simp: rmap_Inr_iff)
    moreover from this True have "tg_sink q = tg_sink t" by (simp add: merge_target_policy_sink)
    ultimately show ?thesis using g True by (simp add: child_messages_def)
  next
    case False
    with Cons.prems g obtain rest where "add_target e t selected = Inr rest" "selected' = (p, es) # rest"
      by (auto simp: rmap_Inr_iff)
    with Cons.IH g False show ?thesis by (auto simp: child_messages_def)
  qed
qed

lemma child_messages_add_targets:
  "add_targets e ts selected = Inr selected' \<Longrightarrow> distinct (map tg_sink ts) \<Longrightarrow>
     child_messages selected' name = child_messages selected name @ (if name \<in> tg_sink ` set ts then [e] else [])"
proof (induction ts arbitrary: selected)
  case (Cons t ts)
  then obtain mid where mid: "add_target e t selected = Inr mid" "add_targets e ts mid = Inr selected'"
    by (auto simp: rbind_Inr_iff)
  from Cons.IH [OF mid(2)] child_messages_add_target [OF mid(1)] Cons.prems(2) show ?case by auto
qed simp

text \<open>What validation guarantees of a routing policy.\<close>

definition routing_ok :: "routing_policy \<Rightarrow> bool" where
  "routing_ok p \<longleftrightarrow> list_all waits_ok (all_route_targets p) \<and> distinct (map tg_sink (rp_default_targets p))"

definition routed_to :: "routing_policy \<Rightarrow> string \<Rightarrow> nats_envelope \<Rightarrow> bool" where
  "routed_to p name e \<longleftrightarrow> name \<in> set (rs_targets (select_route_targets e p))"

lemma routed_to_iff: "routed_to p name e \<longleftrightarrow> name \<in> tg_sink ` set (rs_target_policies (select_route_targets e p))"
  by (simp add: routed_to_def selected_policies(3))

lemma route_messageE:
  assumes "route_message p e selected = Inr mid" "routing_ok p" "groups_ok selected"
  shows "groups_ok mid \<and> (\<forall>t\<in>set (rs_target_policies (select_route_targets e p)). grouped mid e t)
    \<and> (\<forall>e' x. grouped selected e' x \<longrightarrow> grouped mid e' x)
    \<and> child_messages mid name = child_messages selected name @ (if routed_to p name e then [e] else [])"
proof -
  from assms(1) have add: "add_targets e (rs_target_policies (select_route_targets e p)) selected = Inr mid"
    by (auto simp: route_message_def Let_def rbind_Inr_iff)
  have w: "list_all waits_ok (rs_target_policies (select_route_targets e p))"
    using assms(2) set_selected [of e p] by (auto simp: routing_ok_def list_all_iff)
  have d: "distinct (map tg_sink (rs_target_policies (select_route_targets e p)))"
    using assms(2) by (simp add: routing_ok_def distinct_selected)
  from add_targetsE [OF add assms(3) w] child_messages_add_targets [OF add d] show ?thesis
    by (simp add: routed_to_iff)
qed

lemma select_targetsE:
  assumes "select_targets M p es selected t = (Inr selected', t')" "routing_ok p" "groups_ok selected"
  shows "groups_ok selected'
    \<and> (\<forall>e\<in>set es. \<forall>x\<in>set (rs_target_policies (select_route_targets e p)). grouped selected' e x)
    \<and> (\<forall>e x. grouped selected e x \<longrightarrow> grouped selected' e x)
    \<and> child_messages selected' name = child_messages selected name @ filter (routed_to p name) es"
  using assms(1,3)
proof (induction es arbitrary: selected t)
  case Nil
  then show ?case by (simp add: ret_def)
next
  case (Cons e es)
  from Cons.prems(1) obtain mid t1 where mid: "route_message p e selected = Inr mid"
    "select_targets M p es mid t1 = (Inr selected', t')"
    by (auto simp: then_act_def bind_act_def lift_res_def split: prod.splits sum.splits)
  note step = route_messageE [OF mid(1) assms(2) Cons.prems(2)]
  from Cons.IH [OF mid(2)] step [of name] show ?case by auto
qed

lemma child_messages_eq:
  assumes "groups_ok selected" "(q, es) \<in> set selected"
  shows "child_messages selected (tg_sink q) = es"
proof -
  have "distinct (map fst (map (\<lambda>(p, es). (tg_sink p, es)) selected))"
    using assms(1) by (auto simp: groups_ok_def comp_def case_prod_unfold)
  moreover have "(tg_sink q, es) \<in> set (map (\<lambda>(p, es). (tg_sink p, es)) selected)" using assms(2) by force
  ultimately have "map_of (map (\<lambda>(p, es). (tg_sink p, es)) selected) (tg_sink q) = Some es" by (rule map_of_is_SomeI)
  then show ?thesis by (simp add: child_messages_def)
qed

section \<open>What a finished write means\<close>

definition forward_children :: "fanout_env \<Rightarrow> bool" where
  "forward_children F \<longleftrightarrow> (\<forall>t name. 0 \<le> fe_lag F t name)
     \<and> (\<forall>t name es x. pred_option (\<lambda>(delay, outcome). 0 \<le> delay) (cr_cancelled (fe_child F t name es) x))"

lemma forward_gate_env: "forward_children F \<Longrightarrow> forward (gate_env_of F t selected)"
  by (simp add: forward_children_def forward_def gate_env_of_def)

text \<open>The child committed exactly these messages in a write of its own.\<close>

definition child_committed :: "fanout_env \<Rightarrow> trace \<Rightarrow> string \<Rightarrow> nats_envelope list \<Rightarrow> bool" where
  "child_committed F t name es \<longleftrightarrow> cr_ends (fe_child F t name es) \<noteq> None \<and> cr_outcome (fe_child F t name es) = None"

lemma write_batch_selected:
  assumes "write_batch M F s es t = Some (Inr (), t')" "es \<noteq> []"
  obtains selected t1 where "select_targets M (fs_routing s) es [] t = (Inr selected, t1)"
    "selected = [] \<or> (\<exists>now r c. wait_for_fanout_ack_gate (gate_env_of F t1 selected) (map (tg_sink \<circ> fst) selected)
       (map fst selected) = Some (now, Inr r, c))"
proof -
  obtain sel t1 where sel: "select_targets M (fs_routing s) es [] t = (sel, t1)" by fastforce
  have raised: "then_act m (throw err) u \<noteq> (Inr x, u')" for m :: "unit act" and err u u' and x :: unit
    by (auto simp: then_act_def bind_act_def throw_def split: prod.splits sum.splits)
  show thesis
  proof (cases sel)
    case (Inl err)
    with assms sel show thesis by (simp add: write_batch_def)
  next
    case (Inr selected)
    show thesis
    proof (rule that [OF sel [unfolded Inr]])
      let ?gate = "wait_for_fanout_ack_gate (gate_env_of F t1 selected) (map (tg_sink \<circ> fst) selected) (map fst selected)"
      have w: "write_batch M F s es t =
          (if selected = [] then Some (Inr (), t1)
           else (case ?gate of
               None \<Rightarrow> None
             | Some (now, Inl err, cancelled) \<Rightarrow>
                 Some (if isinstance err FanoutRequiredSinkError
                   then then_act (record_fanout_required_failure M (fe_ack_wait F t1) (fe_batch_seconds F t1))
                     (throw (Exn TemporarySinkError ''fan-out required child sink failed before ACK'')) t1
                   else (Inl err, t1))
             | Some (now, Inr result, cancelled) \<Rightarrow>
                 Some (record_fanout_ack_gate_result M result (fe_ack_wait F t1) (fe_batch_seconds F t1) t1)))"
        using sel Inr assms(2) by (simp add: write_batch_def)
      show "selected = [] \<or> (\<exists>now r c. ?gate = Some (now, Inr r, c))"
      proof (cases ?gate)
        case None
        with w assms(1) show ?thesis by (simp split: if_splits)
      next
        case (Some g)
        obtain now result c where g: "g = (now, result, c)" by (cases g)
        show ?thesis
        proof (cases result)
          case (Inl err)
          then show ?thesis using w assms(1) Some g raised raised [THEN not_sym] by (simp split: if_splits)
        next
          case (Inr r)
          with Some g show ?thesis by simp
        qed
      qed
    qed
  qed
qed

lemma write_batch_commits:
  assumes "write_batch M F s es t = Some (Inr (), t')" "routing_ok (fs_routing s)" "forward_children F"
    "e \<in> set es" "x \<in> set (rs_target_policies (select_route_targets e (fs_routing s)))" "tg_required x"
  shows "\<exists>t1. child_committed F t1 (tg_sink x) (filter (routed_to (fs_routing s) (tg_sink x)) es)"
proof -
  from assms(4) have "es \<noteq> []" by auto
  with assms(1) obtain selected t1 where sel: "select_targets M (fs_routing s) es [] t = (Inr selected, t1)"
    and gate: "selected = [] \<or> (\<exists>now r c. wait_for_fanout_ack_gate (gate_env_of F t1 selected)
      (map (tg_sink \<circ> fst) selected) (map fst selected) = Some (now, Inr r, c))"
    by (rule write_batch_selected)
  have groups: "groups_ok selected" "grouped selected e x"
    "child_messages selected (tg_sink x) = filter (routed_to (fs_routing s) (tg_sink x)) es"
    using select_targetsE [OF sel assms(2) groups_ok_simps(1), of "tg_sink x"] assms(4,5)
    by (blast, blast, simp add: child_messages_def)
  from groups(2) assms(6) obtain q ms where q: "(q, ms) \<in> set selected" "tg_sink q = tg_sink x" "tg_required q"
    unfolding grouped_def by blast
  from q(1) have "selected \<noteq> []" by auto
  with gate obtain now r c where opened: "wait_for_fanout_ack_gate (gate_env_of F t1 selected)
      (map (tg_sink \<circ> fst) selected) (map fst selected) = Some (now, Inr r, c)" by blast
  have "list_all waits_ok (map fst selected)" using groups(1) by (simp add: groups_ok_def list.pred_map)
  note gate_Inr [OF forward_gate_env [OF assms(3)] this opened]
  moreover have "q \<in> set (filter tg_required (map fst selected))" using q(1,3) by force
  ultimately have "committed_by (gate_env_of F t1 selected) (tg_sink q) now" by blast
  then have "child_committed F t1 (tg_sink x) (child_messages selected (tg_sink x))"
    unfolding committed_by_def done_by_def gate_env_of_def child_committed_def q(2) by (simp split: option.splits)
  then show ?thesis unfolding groups(3) by blast
qed

text \<open>C4: a fan-out write returns only when every required child has its messages.  When writing a batch
  through the fan-out sink returns normally, then for every message and every sink its routing requires,
  that child has committed, in one write, exactly the messages of the batch routed to it, in order.\<close>

theorem fanout_write_commits_required:
  assumes "write_batch M F s es t = Some (Inr (), t')" "routing_ok (fs_routing s)" "forward_children F"
    "e \<in> set es" "x \<in> set (rs_target_policies (select_route_targets e (fs_routing s)))" "tg_required x"
  shows "\<exists>t1. child_committed F t1 (tg_sink x) (filter (routed_to (fs_routing s) (tg_sink x)) es)
    \<and> e \<in> set (filter (routed_to (fs_routing s) (tg_sink x)) es)"
  using write_batch_commits [OF assms] assms(4,5) by (auto simp: routed_to_iff)

definition sample_fanout :: fanout_sink where
  "sample_fanout = \<lparr>fs_children = [''store'', ''archive''], fs_routing = sample_routing\<rparr>"

definition sample_children :: fanout_env where
  "sample_children =
     \<lparr>fe_child = (\<lambda>t name es. ge_child (sample_gate None None) name), fe_lag = (\<lambda>t name. 0),
      fe_ack_wait = (\<lambda>t. 1), fe_batch_seconds = (\<lambda>t. 1)\<rparr>"

lemma sample_fanout_good: "routing_ok (fs_routing sample_fanout)" "forward_children sample_children"
  by (auto simp: routing_ok_def sample_fanout_def sample_routing_def all_route_targets_def sample_route_def side_copy_def
      sample_target_def waits_ok_def forward_children_def sample_children_def sample_gate_def)

lemma sample_fanout_writes:
  "write_batch None sample_children sample_fanout [sample_envelope ''orders.new'' 7 []] [] = Some (Inr (), [])"
  by code_simp

lemma fanout_write_commits_required_witness:
  "\<exists>t1. child_committed sample_children t1 ''store'' [sample_envelope ''orders.new'' 7 []]"
proof -
  have p: "rs_target_policies (select_route_targets (sample_envelope ''orders.new'' 7 []) sample_routing)
      = [side_copy ''archive'', sample_target ''store'']" by code_simp
  have f: "filter (routed_to sample_routing ''store'') [sample_envelope ''orders.new'' 7 []] = [sample_envelope ''orders.new'' 7 []]"
    by code_simp
  have "sample_target ''store'' \<in> set (rs_target_policies (select_route_targets (sample_envelope ''orders.new'' 7 []) (fs_routing sample_fanout)))"
    by (simp add: sample_fanout_def p)
  from fanout_write_commits_required [OF sample_fanout_writes sample_fanout_good _ this] f show ?thesis
    by (auto simp: sample_fanout_def sample_target_def)
qed

section \<open>Start and stop\<close>

definition ordinary :: "(string \<Rightarrow> exn option) \<Rightarrow> bool" where
  "ordinary f \<longleftrightarrow> (\<forall>name. pred_option (\<lambda>err. isinstance err PyException) (f name))"

lemma ordinaryD: "ordinary f \<Longrightarrow> f name = Some err \<Longrightarrow> isinstance err PyException"
  unfolding ordinary_def by (metis option.pred_inject(2))

lemma stop_started_all:
  "ordinary stop \<Longrightarrow> stop_started stop names = (None, map (\<lambda>n. Child_stop n (stop n)) names)"
  by (induction names) (auto simp: stop_child_safely_def dest: ordinaryD split: option.split)

text \<open>What a start may look like from the outside.\<close>

definition start_events :: "(string \<Rightarrow> exn option) \<Rightarrow> (string \<Rightarrow> exn option) \<Rightarrow> string list \<Rightarrow> string list
    \<Rightarrow> exn option \<Rightarrow> child_event list \<Rightarrow> bool" where
  "start_events start stop started names r events \<longleftrightarrow>
     (case r of
        None \<Rightarrow> events = map (\<lambda>n. Child_start n None) names
      | Some err \<Rightarrow> (\<exists>before failed after. names = before @ failed # after \<and> start failed = Some err
          \<and> events = map (\<lambda>n. Child_start n None) before @ Child_start failed (Some err)
              # map (\<lambda>n. Child_stop n (stop n)) (rev (started @ before))))"

lemma start_events_Cons:
  assumes "start_events start stop (started @ [name]) names r events"
  shows "start_events start stop started (name # names) r (Child_start name None # events)"
proof (cases r)
  case None
  with assms show ?thesis by (simp add: start_events_def)
next
  case (Some err)
  with assms obtain before failed after where "names = before @ failed # after" "start failed = Some err"
    "events = map (\<lambda>n. Child_start n None) before @ Child_start failed (Some err)
        # map (\<lambda>n. Child_stop n (stop n)) (rev ((started @ [name]) @ before))"
    by (auto simp: start_events_def)
  then show ?thesis unfolding start_events_def Some option.case
    by (intro exI [where x = "name # before"]) auto
qed

lemma start_children_events:
  assumes "ordinary start" "ordinary stop" "start_children start stop started names = (r, events)"
  shows "start_events start stop started names r events"
  using assms(3)
proof (induction names arbitrary: started r events)
  case Nil
  then show ?case by (simp add: start_events_def)
next
  case (Cons name names)
  show ?case
  proof (cases "start name")
    case None
    obtain r' events' where "start_children start stop (started @ [name]) names = (r', events')" by fastforce
    with Cons None show ?thesis by (auto intro: start_events_Cons)
  next
    case (Some err)
    with Cons.prems ordinaryD [OF assms(1) Some] stop_started_all [OF assms(2), of "rev started"]
    have "r = Some err" "events = Child_start name (Some err) # map (\<lambda>n. Child_stop n (stop n)) (rev started)" by auto
    with Some show ?thesis
      by (simp only: start_events_def option.case) (rule exI [where x = "[]"], simp)
  qed
qed

text \<open>Starting the children is all or nothing.  When starting and stopping raise only ordinary
  exceptions, starting the fan-out sink either starts every child in sorted order, or raises the
  exception of the first child that fails, after stopping every child started before it, in reverse
  order, whatever these stops raise.\<close>

theorem fanout_start_all_or_nothing:
  assumes "ordinary start" "ordinary stop"
  shows "case start_fanout s start stop of
      (None, events) \<Rightarrow> events = map (\<lambda>n. Child_start n None) (sort (fs_children s))
    | (Some err, events) \<Rightarrow> (\<exists>before failed after. sort (fs_children s) = before @ failed # after \<and> start failed = Some err
        \<and> events = map (\<lambda>n. Child_start n None) before @ Child_start failed (Some err)
            # map (\<lambda>n. Child_stop n (stop n)) (rev before))"
proof -
  obtain r events where e: "start_children start stop [] (sort (fs_children s)) = (r, events)" by fastforce
  from start_children_events [OF assms e] e show ?thesis
    by (cases r) (simp_all add: start_fanout_def start_events_def)
qed

lemma fanout_start_all_or_nothing_witness:
  "\<exists>before failed after. sort [''store'', ''archive''] = before @ failed # after \<and> failed = ''store'' \<and> before = [''archive'']"
proof -
  let ?start = "\<lambda>n. if n = ''store'' then Some (Exn OSError []) else None"
  have s: "sort [''store'', ''archive''] = [''archive'', ''store'']" by code_simp
  have r: "start_fanout sample_fanout ?start (\<lambda>n. None) =
      (Some (Exn OSError []), [Child_start ''archive'' None, Child_start ''store'' (Some (Exn OSError [])), Child_stop ''archive'' None])"
    by (simp add: start_fanout_def sample_fanout_def s stop_child_safely_def)
  have "ordinary ?start" "ordinary (\<lambda>n. None)" by (auto simp: ordinary_def)
  from fanout_start_all_or_nothing [OF this, of sample_fanout] r s show ?thesis by (auto split: if_splits)
qed

end
