(* ===== verification/FanoutDelivery.thy ===== *)
theory FanoutDelivery
  imports Delivery Fanout
begin

text \<open>
  The runner with a fan-out sink: what an acknowledgement says about the children.  The connection is
  that every event of a run is the environment's answer at that point of the trace.
\<close>

section \<open>Traces made of the environment's answers\<close>

fun answers :: "env \<Rightarrow> trace \<Rightarrow> event \<Rightarrow> bool" where
  "answers E t (Metric c out) \<longleftrightarrow> out = en_metric E t c"
| "answers E t (Sink_write es out) \<longleftrightarrow> out = en_write E t es"
| "answers E t (Publish s p hs out) \<longleftrightarrow> out = en_publish E t s p hs"
| "answers E t (Ack raw out) \<longleftrightarrow> out = en_ack E t raw"
| "answers E t (Ack_sync raw timeout out) \<longleftrightarrow> out = en_ack_sync E t raw"
| "answers E t (Term raw out) \<longleftrightarrow> out = en_term E t raw"
| "answers E t (Nak raw delay out) \<longleftrightarrow> out = en_nak E t raw"
| "answers E t (In_progress raw out) \<longleftrightarrow> out = en_in_progress E t raw"

definition answered :: "env \<Rightarrow> trace \<Rightarrow> bool" where
  "answered E t \<longleftrightarrow> (\<forall>before ev after. t = before @ ev # after \<longrightarrow> answers E before ev)"

lemma answered_Nil [simp]: "answered E []"
  by (simp add: answered_def)

lemma answered_snoc [simp]: "answered E (t @ [ev]) \<longleftrightarrow> answered E t \<and> answers E t ev"
proof
  assume a: "answered E (t @ [ev])"
  have "answers E before x" if "t = before @ x # after" for before x after
    using a that unfolding answered_def by (metis append.assoc append_Cons)
  with a show "answered E t \<and> answers E t ev" unfolding answered_def by blast
next
  assume a: "answered E t \<and> answers E t ev"
  have "answers E before x" if eq: "t @ [ev] = before @ x # after" for before x after
  proof (cases after rule: rev_cases)
    case Nil
    with eq a show ?thesis by simp
  next
    case (snoc ys y)
    with eq have "t = before @ x # ys" by simp
    with a show ?thesis by (auto simp: answered_def)
  qed
  then show "answered E (t @ [ev])" by (simp add: answered_def)
qed

named_theorems answer_rules \<open>actions that only record the environment's answers\<close>

lemmas combinator_rules = keeps_ret keeps_throw keeps_lift_res keeps_bind keeps_then keeps_catch keeps_catch_exception
  keeps_attempt keeps_read_env keeps_for_each keeps_if keeps_option keeps_sum keeps_prod keeps_heartbeat_state

declare combinator_rules [answer_rules]

lemma answered_perform [answer_rules]: "(\<And>t. answers E t (ev (out t))) \<Longrightarrow> keeps (answered E) (perform out ev)"
  by (auto simp: keeps_iff perform_def split: option.split) (metis answered_snoc)+

lemma answered_metrics [answer_rules]:
  "keeps (answered E) (increment_metric E name n)" "keeps (answered E) (observe_metric E name x)"
  "keeps (answered E) (set_metric_value E name x)" "keeps (answered E) (observe_elapsed E name)"
proof -
  have obs: "keeps (answered E) (observe_metric E name x)" for x
    unfolding observe_metric_def metric_def by (intro answer_rules) simp_all
  then show "keeps (answered E) (observe_metric E name x)" "keeps (answered E) (observe_elapsed E name)"
    by (simp_all add: keeps_iff observe_elapsed_def read_env_def)
  show "keeps (answered E) (increment_metric E name n)" "keeps (answered E) (set_metric_value E name x)"
    unfolding increment_metric_def set_metric_value_def metric_def by ((intro answer_rules, simp_all)+)
qed

section \<open>The runner records answers only\<close>

lemma answered_call_method: "keeps (answered E) call \<Longrightarrow> keeps (answered E) (call_method L obj name call)"
  by (rule keeps_call_method)

lemma answered_counted_loop [answer_rules]:
  assumes "\<And>x. keeps (answered E) (f x)" "\<And>x. keeps (answered E) (g x)"
  shows "keeps (answered E) (counted_loop f g n xs)"
  using assms by (intro keeps_counted_loop)

lemma answered_ack_all [answer_rules]: "keeps (answered E) (ack_all L E c raws)"
  unfolding ack_all_def ack_one_def standard_ack_def confirmed_ack_def
  by (intro answer_rules keeps_call_method) simp_all

lemma answered_term_all [answer_rules]: "keeps (answered E) (term_all L E c raws)"
  unfolding term_all_def term_one_def by (intro answer_rules) simp_all

lemma answered_nak_all [answer_rules]: "keeps (answered E) (nak_all L E raws delay)"
  unfolding nak_all_def nak_one_def by (intro answer_rules) simp_all

lemma answered_temporary [answer_rules]: "keeps (answered E) (handle_temporary_failure L E dl raws m)"
  unfolding handle_temporary_failure_def by (intro answer_rules)

lemma answered_publish_dlq [answer_rules]: "keeps (answered E) (publish_dlq L E js c es err)"
  unfolding publish_dlq_def publish_one_def Let_def by (intro answer_rules) simp_all

lemma answered_settle [answer_rules]: "keeps (answered E) (settle_dead_lettered L E dl dlc raws)"
  unfolding settle_dead_lettered_def by (intro answer_rules)

lemma answered_failures [answer_rules]:
  "keeps (answered E) (handle_permanent_failure L E js dl dlc raws es err)"
  "keeps (answered E) (handle_policy_rejections L E js dl dlc raws es err)"
  unfolding handle_permanent_failure_def handle_policy_rejections_def by (intro answer_rules)+

lemma answered_send_each [answer_rules]: "keeps (answered E) (send_each L E raws s f)"
proof (induction raws arbitrary: s f)
  case (Cons raw raws)
  show ?case unfolding send_each.simps by (intro answer_rules Cons) simp
qed (simp add: answer_rules)

lemma answered_finish_round [answer_rules]: "keeps (answered E) (finish_round E counts)"
  unfolding finish_round_def by (intro answer_rules)

lemma answered_rounds [answer_rules]: "keeps (answered E) (heartbeat_rounds L E m raws late due sent)"
proof (induction due arbitrary: sent)
  case 0
  show ?case unfolding heartbeat_rounds.simps [of _ _ _ _ _ 0] nat.case by (intro answer_rules)
next
  case (Suc due)
  show ?case unfolding heartbeat_rounds.simps [of _ _ _ _ _ "Suc due"] send_in_progress_once_def nat.case
    by (intro answer_rules Suc)
qed

lemma answered_write [answer_rules]: "keeps (answered E) (write_with_heartbeat L E c raws es)"
  unfolding write_with_heartbeat_def heartbeat_before_def heartbeat_after_def clear_active_def sink_write_def Let_def
  by (intro answer_rules) simp_all

lemma answered_temporary_stage [answer_rules]: "keeps (answered E) (temporary_stage_failure L E r raws m)"
  unfolding temporary_stage_failure_def by (intro answer_rules)

lemma answered_guarded [answer_rules]:
  "(\<And>x. keeps (answered E) (continue x)) \<Longrightarrow> keeps (answered E) (guarded_stage L E r b m computed continue)"
  by (cases b; cases computed) (auto simp: guarded_stage_def intro!: answer_rules)

lemma answered_gate_metrics [answer_rules]: "keeps (answered E) (gate_metrics E prefix ev)"
  unfolding gate_metrics_def by (intro answer_rules)

lemma answered_rejections [answer_rules]: "keeps (answered E) (apply_rejections L E r b ev err)"
  unfolding apply_rejections_def by (intro answer_rules)

lemma answered_mapping_stage [answer_rules]: "keeps (answered E) (mapping_stage L E r raws)"
  unfolding mapping_stage_def map_messages_def by (intro answer_rules)

lemma answered_gate_stages [answer_rules]:
  "keeps (answered E) (authenticity_stage L E r b)" "keeps (answered E) (size_stage L E r b)"
  "keeps (answered E) (policy_stage L E r b)" "keeps (answered E) (custody_stage L E r b)"
  unfolding authenticity_stage_def size_stage_def policy_stage_def custody_stage_def
  by (intro answer_rules)+

lemma answered_encryption_stage [answer_rules]: "keeps (answered E) (encryption_stage L E r b)"
  unfolding encryption_stage_def by (intro answer_rules)

lemma answered_assign_all [answer_rules]: "keeps (answered E) (assign_all (Some E) st c es)"
  by (induction es)
    (auto simp: assign_priority_lane_def record_defaulted_def record_rejected_def when_metrics_def intro!: answer_rules)

lemma answered_lane_stage [answer_rules]: "keeps (answered E) (lane_stage L E r b)"
  unfolding lane_stage_def priority_stage_def order_by_priority_lanes_def when_metrics_def option.case
  by (intro answer_rules)

lemma answered_freshness [answer_rules]:
  "keeps (answered E) (record_event_freshness_metrics L E es stored_at enabled stale tolerance)"
  unfolding record_event_freshness_metrics_def freshness_of_envelope_def freshness_ages_def Let_def
  by (intro answer_rules)

lemma answered_delivery_stage [answer_rules]: "keeps (answered E) (delivery_stage L E r b)"
  unfolding delivery_stage_def settle_success_def by (intro answer_rules)

lemma answered_process_raw_batch: "keeps (answered E) (process_raw_batch L E r raws)"
  unfolding process_raw_batch_def prepare_batch_def next_stage_def by (intro answer_rules)

lemma run_answered: "snd (process_raw_batch L E r raws []) = before @ ev # after \<Longrightarrow> answers E before ev"
  using answered_process_raw_batch [of E L r raws] by (force simp: keeps_iff answered_def)

section \<open>The runner with a fan-out sink\<close>

text \<open>A sink write of the runner succeeds only where the write of the fan-out sink does.\<close>

definition sink_is_fanout :: "env \<Rightarrow> env option \<Rightarrow> fanout_env \<Rightarrow> fanout_sink \<Rightarrow> bool" where
  "sink_is_fanout E M F s \<longleftrightarrow>
     (\<forall>p es. en_write E p es = None \<longrightarrow> (\<exists>t t'. write_batch M F s es t = Some (Inr (), t')))"

text \<open>Every child sink the message requires has committed it.\<close>

definition required_children_have :: "fanout_env \<Rightarrow> routing_policy \<Rightarrow> nats_envelope \<Rightarrow> bool" where
  "required_children_have F p e \<longleftrightarrow>
     (\<forall>x\<in>set (rs_target_policies (select_route_targets e p)). tg_required x \<longrightarrow>
        (\<exists>t es. child_committed F t (tg_sink x) es \<and> e \<in> set es))"

lemma write_batch_required:
  assumes "write_batch M F s es t = Some (Inr (), t')" "routing_ok (fs_routing s)" "forward_children F" "e \<in> set es"
  shows "required_children_have F (fs_routing s) e"
  unfolding required_children_have_def
proof (intro ballI impI)
  fix x assume x: "x \<in> set (rs_target_policies (select_route_targets e (fs_routing s)))" "tg_required x"
  from write_batch_commits [OF assms x]
  obtain t1 where "child_committed F t1 (tg_sink x) (filter (routed_to (fs_routing s) (tg_sink x)) es)" by blast
  moreover have "e \<in> set (filter (routed_to (fs_routing s) (tg_sink x)) es)"
    using assms(4) x(1) by (auto simp: routed_to_iff)
  ultimately show "\<exists>t es. child_committed F t (tg_sink x) es \<and> e \<in> set es" by blast
qed


text \<open>A sink that answers like the fan-out sink would, without metrics.\<close>

definition fanout_backed :: "fanout_env \<Rightarrow> fanout_sink \<Rightarrow> env" where
  "fanout_backed F s = quiet_env\<lparr>en_write := \<lambda>p es.
     (case write_batch None F s es p of Some (Inr _, t') \<Rightarrow> None | Some (Inl err, t') \<Rightarrow> Some err
      | None \<Rightarrow> Some (Exn CancelledError []))\<rparr>"

lemma sink_is_fanout_backed: "sink_is_fanout (fanout_backed F s) None F s"
  by (auto simp: sink_is_fanout_def fanout_backed_def split: option.splits sum.splits prod.splits)

text \<open>Every message goes to the store, which always commits.\<close>

definition store_routing :: routing_policy where
  "store_routing = sample_routing\<lparr>rp_routes := [sample_route ''store'' ''>'' [sample_target ''store'']]\<rparr>"

definition store_fanout :: fanout_sink where
  "store_fanout = \<lparr>fs_children = [''store''], fs_routing = store_routing\<rparr>"

lemma store_selected:
  "rs_target_policies (select_route_targets e store_routing) = [sample_target ''store'']"
  "rs_action (select_route_targets e store_routing) = Act_matched"
proof -
  have "split_on (CHR ''.'') ''>'' = [TAIL_WILDCARD]" by code_simp
  then have "matches_text ''>'' subject" for subject
    unfolding matches_text_def by (simp only: match_tokens.simps) simp
  then have "chosen_routes store_routing e = [sample_route ''store'' ''>'' [sample_target ''store'']]"
    by (simp add: chosen_routes_def store_routing_def sample_routing_def sample_route_def route_matches_envelope_def
        matches_subject_def metadata_value_matches_def labels_match_def)
  then show "rs_target_policies (select_route_targets e store_routing) = [sample_target ''store'']"
    "rs_action (select_route_targets e store_routing) = Act_matched"
    by (simp_all add: selected_policies offered_targets_def store_routing_def sample_routing_def sample_route_def)
qed

lemma store_merge: "merge_target_policy (sample_target ''store'') (sample_target ''store'') = Inr (sample_target ''store'')"
  by code_simp

lemma store_groups:
  "\<exists>ms. select_targets None store_routing es [(sample_target ''store'', ms0)] t = (Inr [(sample_target ''store'', ms)], t)"
proof (induction es arbitrary: ms0)
  case (Cons e es)
  then show ?case
    by (simp add: then_act_def bind_act_def lift_res_def ret_def record_fanout_route_selection_def fanout_increment_def
        fanout_set_value_def metric_update_def when_metrics_def route_message_def handle_no_route_def store_selected store_merge)
qed (simp add: ret_def)

lemma store_writes: "write_batch None sample_children store_fanout es t = Some (Inr (), t)"
proof (cases es)
  case Nil
  then show ?thesis by (simp add: write_batch_def)
next
  case (Cons e rest)
  obtain ms where "select_targets None store_routing rest [(sample_target ''store'', [e])] t = (Inr [(sample_target ''store'', ms)], t)"
    using store_groups by blast
  then have "select_targets None store_routing es [] t = (Inr [(sample_target ''store'', ms)], t)"
    using Cons by (simp add: then_act_def bind_act_def lift_res_def ret_def record_fanout_route_selection_def fanout_increment_def
        fanout_set_value_def metric_update_def when_metrics_def route_message_def handle_no_route_def store_selected)
  then show ?thesis using Cons
    by (simp add: write_batch_def store_fanout_def wait_for_fanout_ack_gate_def gate_env_of_def sample_children_def
        sample_gate_def sample_target_def resumed_def record_fanout_ack_gate_result_def fanout_increment_def observe_seconds_def
        metric_update_def when_metrics_def then_act_def bind_act_def ret_def)
qed


end
