(* ===== verification/Stateful.thy ===== *)
theory Stateful
  imports Prelude
begin

text \<open>
  Computations that work on a state and may raise, as the destination sinks need them: sequencing,
  \<open>try\<close> with handlers, \<open>try ... finally\<close>, loops, and Hoare triples for them.  The state is a file
  system in one component and a database in another.
\<close>

section \<open>Combinators\<close>

type_synonym ('s, 'a) stm = "'s \<Rightarrow> 'a res \<times> 's"

definition st_ret :: "'a \<Rightarrow> ('s, 'a) stm" where
  "st_ret x s = (Inr x, s)"

definition st_throw :: "exn \<Rightarrow> ('s, 'a) stm" where
  "st_throw err s = (Inl err, s)"

definition st_lift :: "'a res \<Rightarrow> ('s, 'a) stm" where
  "st_lift r s = (r, s)"

definition st_bind :: "('s, 'a) stm \<Rightarrow> ('a \<Rightarrow> ('s, 'b) stm) \<Rightarrow> ('s, 'b) stm" where
  "st_bind m f s = (case m s of (Inl err, s') \<Rightarrow> (Inl err, s') | (Inr x, s') \<Rightarrow> f x s')"

definition st_then :: "('s, 'a) stm \<Rightarrow> ('s, 'b) stm \<Rightarrow> ('s, 'b) stm" where
  "st_then m n = st_bind m (\<lambda>_. n)"

definition st_catch :: "('s, 'a) stm \<Rightarrow> (exn \<Rightarrow> ('s, 'a) stm) \<Rightarrow> ('s, 'a) stm" where
  "st_catch m h s = (case m s of (Inl err, s') \<Rightarrow> h err s' | (Inr x, s') \<Rightarrow> (Inr x, s'))"

text \<open>\<open>try ... finally\<close>: an exception of the clean-up replaces the outcome.\<close>

definition st_finally :: "('s, 'a) stm \<Rightarrow> ('s, unit) stm \<Rightarrow> ('s, 'a) stm" where
  "st_finally m cleanup s = (case m s of (r, s') \<Rightarrow> (case cleanup s' of (Inl err, s'') \<Rightarrow> (Inl err, s'') | (Inr _, s'') \<Rightarrow> (r, s'')))"

primrec st_each :: "('m \<Rightarrow> ('s, unit) stm) \<Rightarrow> 'm list \<Rightarrow> ('s, unit) stm" where
  "st_each f [] = st_ret ()"
| "st_each f (m # ms) = st_then (f m) (st_each f ms)"

lemma st_each_Cons_run:
  "st_each f (m # ms) s = (r, s') \<longleftrightarrow>
     (case f m s of (Inl err, s1) \<Rightarrow> r = Inl err \<and> s' = s1 | (Inr _, s1) \<Rightarrow> st_each f ms s1 = (r, s'))"
  by (auto simp: st_then_def st_bind_def split: prod.splits sum.splits)

section \<open>Hoare triples\<close>

text \<open>\<open>st_hoare P m Q R\<close>: started with \<open>P\<close>, a value is returned with \<open>Q\<close>, an exception leaves \<open>R\<close>.\<close>

definition st_hoare :: "('s \<Rightarrow> bool) \<Rightarrow> ('s, 'a) stm \<Rightarrow> ('a \<Rightarrow> 's \<Rightarrow> bool) \<Rightarrow> ('s \<Rightarrow> bool) \<Rightarrow> bool" where
  "st_hoare P m Q R \<longleftrightarrow> (\<forall>s. P s \<longrightarrow> (case m s of (Inr x, s') \<Rightarrow> Q x s' | (Inl err, s') \<Rightarrow> R s'))"

named_theorems st_rules \<open>one rule per combinator\<close>

lemma st_hoareD:
  assumes "st_hoare P m Q R" "P s"
  shows "m s = (Inr x, s') \<Longrightarrow> Q x s'" "m s = (Inl err, s') \<Longrightarrow> R s'"
  using assms by (force simp: st_hoare_def)+

lemma st_hoareI:
  "(\<And>s x s'. P s \<Longrightarrow> m s = (Inr x, s') \<Longrightarrow> Q x s') \<Longrightarrow> (\<And>s err s'. P s \<Longrightarrow> m s = (Inl err, s') \<Longrightarrow> R s') \<Longrightarrow> st_hoare P m Q R"
  by (auto simp: st_hoare_def split: prod.splits sum.splits)

lemma st_hoare_ret [st_rules]: "(\<And>s. P s \<Longrightarrow> Q x s) \<Longrightarrow> st_hoare P (st_ret x) Q R"
  by (simp add: st_hoare_def st_ret_def)

lemma st_hoare_throw [st_rules]: "(\<And>s. P s \<Longrightarrow> R s) \<Longrightarrow> st_hoare P (st_throw err) Q R"
  by (simp add: st_hoare_def st_throw_def)

lemma st_hoare_lift: "(\<And>s x. P s \<Longrightarrow> r = Inr x \<Longrightarrow> Q x s) \<Longrightarrow> (\<And>s. P s \<Longrightarrow> R s) \<Longrightarrow> st_hoare P (st_lift r) Q R"
  by (auto simp: st_hoare_def st_lift_def split: sum.splits)

lemma st_hoare_bind [st_rules]:
  assumes "st_hoare P m M R" "\<And>x. st_hoare (M x) (f x) Q R" shows "st_hoare P (st_bind m f) Q R"
  using assms unfolding st_hoare_def st_bind_def by (fastforce split: prod.splits sum.splits)

lemma st_hoare_then [st_rules]:
  assumes "st_hoare P m (\<lambda>_. M) R" "st_hoare M n Q R" shows "st_hoare P (st_then m n) Q R"
  unfolding st_then_def using assms by (rule st_hoare_bind)

lemma st_hoare_catch:
  assumes "st_hoare P m Q H" "\<And>err. st_hoare H (h err) Q R" shows "st_hoare P (st_catch m h) Q R"
  using assms unfolding st_hoare_def st_catch_def by (fastforce split: prod.splits sum.splits)

lemma st_hoare_finally:
  assumes "st_hoare P m M H" "\<And>x. st_hoare (M x) cleanup (\<lambda>_. Q x) R" "st_hoare H cleanup (\<lambda>_. R) R"
  shows "st_hoare P (st_finally m cleanup) Q R"
proof (rule st_hoareI)
  fix s x s' assume P: "P s" and run: "st_finally m cleanup s = (Inr x, s')"
  then obtain s1 u where "m s = (Inr x, s1)" "cleanup s1 = (Inr u, s')"
    by (auto simp: st_finally_def split: prod.splits sum.splits)
  with st_hoareD(1) [OF assms(1) P] st_hoareD(1) [OF assms(2)] show "Q x s'" by blast
next
  fix s err s' assume P: "P s" and run: "st_finally m cleanup s = (Inl err, s')"
  obtain r s1 where m: "m s = (r, s1)" by fastforce
  show "R s'"
  proof (cases r)
    case (Inl e)
    with m st_hoareD(2) [OF assms(1) P] have "H s1" by simp
    moreover from run m obtain c where "cleanup s1 = (c, s')"
      by (auto simp: st_finally_def split: prod.splits sum.splits)
    ultimately show ?thesis using st_hoareD [OF assms(3)] by (cases c) auto
  next
    case (Inr x)
    with m st_hoareD(1) [OF assms(1) P] have "M x s1" by simp
    moreover from run m Inr have "cleanup s1 = (Inl err, s')"
      by (auto simp: st_finally_def split: prod.splits sum.splits)
    ultimately show ?thesis using st_hoareD(2) [OF assms(2)] by blast
  qed
qed

lemma st_hoare_weaken:
  assumes "st_hoare P m Q R" "\<And>s. P' s \<Longrightarrow> P s" "\<And>x s. Q x s \<Longrightarrow> Q' x s" "\<And>s. R s \<Longrightarrow> R' s"
  shows "st_hoare P' m Q' R'"
  using assms by (intro st_hoareI) (blast dest: st_hoareD)+

lemma st_hoare_each: "(\<And>m. st_hoare P (f m) (\<lambda>_. P) P) \<Longrightarrow> st_hoare P (st_each f ms) (\<lambda>_. P) P"
  by (induction ms) (auto intro: st_hoare_ret st_hoare_then)

end
