(* ===== verification/LocalFiles.thy ===== *)
theory LocalFiles
  imports PyLib Stateful
begin

text \<open>
  Durable files below one root directory, as the file sink and the spool use them
  (\<open>file/sink.py\<close>, \<open>spool/sink.py\<close>): a document is written to a temporary file, synced, placed
  under its final name by a link or a rename, and the directory is synced.  The file system keeps for
  every name the file that is visible and the states a crash may leave: a file whose content was not
  synced may come back torn, a directory entry that was not synced may be lost or be an older one,
  and the same goes for the entry of a directory itself.  The root directory is taken to exist on disk.

  Every operation may raise instead of having its effect, at the environment's choice, and another
  process may create a file at any moment before a link.
\<close>

section \<open>The file system\<close>

text \<open>A file below the root: its subdirectory, if any, and its name.\<close>

datatype path = File (path_dir: "string option") (path_name: string)

datatype on_disk = Absent | Whole bytes | Torn

datatype fs_op =
    Exists path | Mkdir "string option" | Mkstemp | Write bytes | Fsync | Link path | Replace path
  | Fsync_dir "string option" | Unlink_temp | Unlink path | Read path | Stat path

type_synonym fs_log = "(fs_op \<times> exn option) list"

text \<open>
  \<open>fs_files\<close>: the visible files, each with whether its content was synced; \<open>fs_disk\<close>: what a crash may
  leave under a name; \<open>fs_dirs\<close>: the subdirectories, each with whether its own entry was synced;
  \<open>fs_temp\<close>: the temporary file in use.
\<close>

record fs =
  fs_files :: "path \<Rightarrow> (bytes \<times> bool) option"
  fs_disk :: "path \<Rightarrow> on_disk list"
  fs_dirs :: "string \<Rightarrow> bool option"
  fs_temp :: "(bytes \<times> bool) option"
  fs_log :: fs_log

text \<open>
  The environment: which operation raises what, what another process has placed before a link, which
  paths resolve, through symbolic links, to a place outside the root, and the order in which names
  come up when a directory is listed.
\<close>

record fs_env =
  fo_fails :: "fs_log \<Rightarrow> fs_op \<Rightarrow> exn option"
  fo_rival :: "fs_log \<Rightarrow> path \<Rightarrow> bytes option"
  fo_outside :: "fs_log \<Rightarrow> path \<Rightarrow> bool"
  fo_names :: "fs_log \<Rightarrow> path list"

type_synonym 'a fsm = "(fs, 'a) stm"

definition disk_of :: "(bytes \<times> bool) option \<Rightarrow> on_disk" where
  "disk_of f = (case f of None \<Rightarrow> Absent | Some (b, synced) \<Rightarrow> if synced then Whole b else Torn)"

text \<open>What a crash at this moment may leave under a name.\<close>

definition crash_states :: "fs \<Rightarrow> path \<Rightarrow> on_disk list" where
  "crash_states s d =
     (case path_dir d of
        None \<Rightarrow> fs_disk s d
      | Some p \<Rightarrow> if fs_dirs s p = Some True then fs_disk s d else Absent # fs_disk s d)"

section \<open>Operations\<close>

definition logged :: "fs_op \<Rightarrow> exn option \<Rightarrow> fs \<Rightarrow> fs" where
  "logged op out s = s\<lparr>fs_log := fs_log s @ [(op, out)]\<rparr>"

definition fs_step :: "fs_env \<Rightarrow> fs_op \<Rightarrow> (fs \<Rightarrow> fs) \<Rightarrow> unit fsm" where
  "fs_step X op effect s =
     (case fo_fails X (fs_log s) op of
        Some err \<Rightarrow> (Inl err, logged op (Some err) s)
      | None \<Rightarrow> (Inr (), logged op None (effect s)))"

definition visible :: "fs \<Rightarrow> path \<Rightarrow> bool" where
  "visible s d \<longleftrightarrow> fs_files s d \<noteq> None"

definition path_exists :: "fs_env \<Rightarrow> path \<Rightarrow> bool fsm" where
  "path_exists X d = st_then (fs_step X (Exists d) (\<lambda>s. s)) (\<lambda>s. (Inr (visible s d), s))"

definition make_directory :: "fs_env \<Rightarrow> string option \<Rightarrow> unit fsm" where
  "make_directory X p = fs_step X (Mkdir p) (\<lambda>s.
     case p of
       None \<Rightarrow> s
     | Some q \<Rightarrow> if fs_dirs s q = None then s\<lparr>fs_dirs := (fs_dirs s)(q := Some False)\<rparr> else s)"

definition make_temp :: "fs_env \<Rightarrow> unit fsm" where
  "make_temp X = fs_step X Mkstemp (\<lambda>s. s\<lparr>fs_temp := Some ([], False)\<rparr>)"

definition write_temp :: "fs_env \<Rightarrow> bytes \<Rightarrow> unit fsm" where
  "write_temp X b = fs_step X (Write b) (\<lambda>s. s\<lparr>fs_temp := Some (b, False)\<rparr>)"

definition sync_temp :: "fs_env \<Rightarrow> unit fsm" where
  "sync_temp X = fs_step X Fsync (\<lambda>s. s\<lparr>fs_temp := map_option (\<lambda>(b, _). (b, True)) (fs_temp s)\<rparr>)"

definition place :: "path \<Rightarrow> (bytes \<times> bool) option \<Rightarrow> fs \<Rightarrow> fs" where
  "place d f s = s\<lparr>fs_files := (fs_files s)(d := f), fs_disk := (fs_disk s)(d := disk_of f # fs_disk s d)\<rparr>"

text \<open>Another process that uses the same names has synced the content of what it places.\<close>

definition let_rival :: "fs_env \<Rightarrow> path \<Rightarrow> fs \<Rightarrow> fs" where
  "let_rival X d s =
     (case fo_rival X (fs_log s) d of
        Some b \<Rightarrow> if visible s d then s else place d (Some (b, True)) s
      | None \<Rightarrow> s)"

definition link_temp :: "fs_env \<Rightarrow> path \<Rightarrow> unit fsm" where
  "link_temp X d s =
     (let s1 = let_rival X d s in
      if visible s1 d then (Inl (Exn FileExistsError []), logged (Link d) (Some (Exn FileExistsError [])) s1)
      else fs_step X (Link d) (\<lambda>s. place d (fs_temp s) s) s1)"

definition replace_temp :: "fs_env \<Rightarrow> path \<Rightarrow> unit fsm" where
  "replace_temp X d = fs_step X (Replace d) (\<lambda>s. (place d (fs_temp s) s)\<lparr>fs_temp := None\<rparr>)"

text \<open>The effect of syncing a directory.\<close>

definition synced_directory :: "string option \<Rightarrow> fs \<Rightarrow> fs" where
  "synced_directory p s =
     s\<lparr>fs_disk := (\<lambda>d. if path_dir d = p then [disk_of (fs_files s d)] else fs_disk s d),
       fs_dirs := (if p = None then (\<lambda>q. map_option (\<lambda>_. True) (fs_dirs s q)) else fs_dirs s)\<rparr>"

definition sync_directory :: "fs_env \<Rightarrow> string option \<Rightarrow> unit fsm" where
  "sync_directory X p = fs_step X (Fsync_dir p) (synced_directory p)"

definition drop_temp :: "fs_env \<Rightarrow> unit fsm" where
  "drop_temp X = st_catch (fs_step X Unlink_temp (\<lambda>s. s\<lparr>fs_temp := None\<rparr>))
     (\<lambda>err. if isinstance err OSError then st_ret () else st_throw err)"

text \<open>Reading and measuring a file; it may have gone since it was listed.\<close>

definition missing_file :: exn where
  "missing_file = Exn OSError ''No such file or directory''"

definition read_file :: "fs_env \<Rightarrow> path \<Rightarrow> bytes fsm" where
  "read_file X d = st_then (fs_step X (Read d) (\<lambda>s. s)) (\<lambda>s.
     case fs_files s d of Some (b, _) \<Rightarrow> (Inr b, s) | None \<Rightarrow> (Inl missing_file, s))"

definition file_size :: "fs_env \<Rightarrow> path \<Rightarrow> nat fsm" where
  "file_size X d = st_then (fs_step X (Stat d) (\<lambda>s. s)) (\<lambda>s.
     case fs_files s d of Some (b, _) \<Rightarrow> (Inr (length b), s) | None \<Rightarrow> (Inl missing_file, s))"

definition remove_file :: "fs_env \<Rightarrow> path \<Rightarrow> unit fsm" where
  "remove_file X d s =
     (if visible s d then fs_step X (Unlink d) (place d None) s
      else (Inl missing_file, logged (Unlink d) (Some missing_file) s))"

text \<open>\<open>root.glob("*suffix")\<close> of regular files.\<close>

definition list_root :: "fs_env \<Rightarrow> string \<Rightarrow> path list fsm" where
  "list_root X suffix s =
     (Inr (filter (\<lambda>d. visible s d \<and> path_dir d = None
        \<and> drop (length (path_name d) - length suffix) (path_name d) = suffix) (fo_names X (fs_log s))), s)"

text \<open>The check both sinks make on the resolved destination.\<close>

definition check_inside :: "fs_env \<Rightarrow> path \<Rightarrow> unit fsm" where
  "check_inside X d s =
     (if fo_outside X (fs_log s) d
      then (Inl (Exn DestinationUnavailableError ''sink destination resolved outside the configured directory''), s)
      else (Inr (), s))"

text \<open>What is found under the configured directory name, and what \<open>mkdir\<close> answers.\<close>

datatype root_kind = Root_missing | Root_other | Root_directory

definition prepare_directory :: "bool \<Rightarrow> root_kind \<Rightarrow> unit res \<Rightarrow> unit res" where
  "prepare_directory create_directory kind mkdir =
     (case kind of
        Root_other \<Rightarrow> raise ConfigurationError ''sink directory is not a directory''
      | Root_directory \<Rightarrow> Inr ()
      | Root_missing \<Rightarrow>
          if \<not> create_directory then raise ConfigurationError ''sink directory does not exist''
          else (case mkdir of
              Inl err \<Rightarrow> if isinstance err OSError
                then raise DestinationUnavailableError ''failed to create sink directory'' else Inl err
            | Inr _ \<Rightarrow> Inr ()))"

definition healthcheck :: "fs_env \<Rightarrow> bool \<Rightarrow> unit fsm" where
  "healthcheck X sync =
     (let failed = (\<lambda>err. st_throw (if isinstance err OSError
            then Exn DestinationUnavailableError ''sink healthcheck failed'' else err)) in
      st_then (st_catch (make_temp X) failed)
        (st_finally
          (st_catch
            (st_then (write_temp X [])
            (st_then (if sync then sync_temp X else st_ret ())
              (if sync then sync_directory X None else st_ret ())))
            failed)
          (drop_temp X)))"

section \<open>Placing one document\<close>

datatype duplicate_policy = Skip_existing | Overwrite | Fail_existing

definition commit_temp_file :: "fs_env \<Rightarrow> duplicate_policy \<Rightarrow> path \<Rightarrow> unit fsm" where
  "commit_temp_file X policy d =
     (if policy = Overwrite then replace_temp X d
      else st_catch (link_temp X d) (\<lambda>err.
        if isinstance err FileExistsError
        then if policy = Skip_existing then st_ret ()
          else st_throw (Exn PermanentSinkError ''sink destination already exists'')
        else if isinstance err OSError \<and> exn_msg err = ''EEXIST'' \<and> policy = Skip_existing then st_ret ()
        else st_throw err))"

text \<open>
  The part both sinks share.  \<open>document\<close> is the serialised record, or the exception of serialising it,
  which happens while the temporary file is open.
\<close>

definition place_errors :: "exn \<Rightarrow> exn" where
  "place_errors err =
     (if isinstance err PermanentSinkError then err
      else if isinstance err TypeError then Exn PermanentSinkError ''sink record is not JSON serializable''
      else if isinstance err OSError then Exn DestinationUnavailableError ''sink failed to write destination file''
      else err)"

definition place_document :: "fs_env \<Rightarrow> duplicate_policy \<Rightarrow> bool \<Rightarrow> path \<Rightarrow> bytes res \<Rightarrow> unit fsm" where
  "place_document X policy sync d document =
     st_then (st_catch (make_temp X) (\<lambda>err. st_throw (place_errors err)))
       (st_finally
         (st_catch
           (st_bind (st_lift document) (\<lambda>b.
             st_then (write_temp X b)
             (st_then (if sync then sync_temp X else st_ret ())
             (st_then (commit_temp_file X policy d)
               (if sync then sync_directory X (path_dir d) else st_ret ())))))
           (\<lambda>err. st_throw (place_errors err)))
         (drop_temp X))"

section \<open>Reasoning about file operations\<close>

text \<open>Predicates that do not look at the log.\<close>

definition log_free :: "(fs \<Rightarrow> bool) \<Rightarrow> bool" where
  "log_free P \<longleftrightarrow> (\<forall>op out s. P s \<longrightarrow> P (logged op out s))"

lemma fs_hoare_step:
  assumes "log_free Q" "log_free R" "\<And>s. P s \<Longrightarrow> Q (effect s)" "\<And>s. P s \<Longrightarrow> R s"
  shows "st_hoare P (fs_step X op effect) (\<lambda>_. Q) R"
  using assms by (auto simp: st_hoare_def fs_step_def log_free_def split: option.splits)

lemma logged_simps [simp]:
  "fs_files (logged op out s) = fs_files s" "fs_disk (logged op out s) = fs_disk s"
  "fs_dirs (logged op out s) = fs_dirs s" "fs_temp (logged op out s) = fs_temp s"
  by (simp_all add: logged_def)

lemma place_simps [simp]:
  "fs_files (place d f s) = (fs_files s)(d := f)" "fs_disk (place d f s) = (fs_disk s)(d := disk_of f # fs_disk s d)"
  "fs_dirs (place d f s) = fs_dirs s" "fs_temp (place d f s) = fs_temp s" "fs_log (place d f s) = fs_log s"
  by (simp_all add: place_def)

section \<open>What placing a document can do\<close>

text \<open>All visible files have synced content, and what is visible is among what a crash may leave.\<close>

definition sound :: "fs \<Rightarrow> bool" where
  "sound s \<longleftrightarrow> (\<forall>d. pred_option snd (fs_files s d) \<and> disk_of (fs_files s d) \<in> set (fs_disk s d))"

text \<open>
  Between \<open>s0\<close> and \<open>s\<close> only \<open>d\<close> has changed, to one of the documents \<open>V\<close>; nothing new is possible after
  a crash but one of these as a whole, and no directory has become less durable.
\<close>

definition tracks :: "fs \<Rightarrow> path \<Rightarrow> bytes set \<Rightarrow> fs \<Rightarrow> bool" where
  "tracks s0 d V s \<longleftrightarrow> sound s
     \<and> (\<forall>d'. d' \<noteq> d \<longrightarrow> fs_files s d' = fs_files s0 d' \<and> set (fs_disk s d') \<subseteq> set (fs_disk s0 d'))
     \<and> (fs_files s d = fs_files s0 d \<or> (\<exists>b\<in>V. fs_files s d = Some (b, True)))
     \<and> set (fs_disk s d) \<subseteq> set (fs_disk s0 d) \<union> Whole ` V
     \<and> (\<forall>q. fs_dirs s0 q = Some True \<longrightarrow> fs_dirs s q = Some True)"

lemma tracks_refl: "sound s \<Longrightarrow> tracks s d V s"
  by (simp add: tracks_def)

lemma sound_logged [simp]: "sound (logged op out s) \<longleftrightarrow> sound s"
  by (simp add: sound_def)

lemma tracks_logged [simp]: "tracks s0 d V (logged op out s) \<longleftrightarrow> tracks s0 d V s"
  by (simp add: tracks_def)

lemma tracks_temp [simp]: "tracks s0 d V (s\<lparr>fs_temp := t\<rparr>) \<longleftrightarrow> tracks s0 d V s"
  by (simp add: tracks_def sound_def)

lemma tracksI:
  assumes "sound s" "\<And>d'. d' \<noteq> d \<Longrightarrow> fs_files s d' = fs_files s0 d'"
    "\<And>d'. d' \<noteq> d \<Longrightarrow> set (fs_disk s d') \<subseteq> set (fs_disk s0 d')"
    "fs_files s d = fs_files s0 d \<or> (\<exists>b\<in>V. fs_files s d = Some (b, True))"
    "set (fs_disk s d) \<subseteq> set (fs_disk s0 d) \<union> Whole ` V"
    "\<And>q. fs_dirs s0 q = Some True \<Longrightarrow> fs_dirs s q = Some True"
  shows "tracks s0 d V s"
  using assms unfolding tracks_def by blast

lemma tracksD:
  assumes "tracks s0 d V s"
  shows "sound s" "d' \<noteq> d \<Longrightarrow> fs_files s d' = fs_files s0 d'" "d' \<noteq> d \<Longrightarrow> set (fs_disk s d') \<subseteq> set (fs_disk s0 d')"
    "fs_files s d = fs_files s0 d \<or> (\<exists>b\<in>V. fs_files s d = Some (b, True))"
    "set (fs_disk s d) \<subseteq> set (fs_disk s0 d) \<union> Whole ` V" "fs_dirs s0 q = Some True \<Longrightarrow> fs_dirs s q = Some True"
  using assms unfolding tracks_def by blast+

lemma soundD: "sound s \<Longrightarrow> pred_option snd (fs_files s d)" "sound s \<Longrightarrow> disk_of (fs_files s d) \<in> set (fs_disk s d)"
  by (simp_all add: sound_def)

lemma sound_place: "sound s \<Longrightarrow> sound (place d (Some (b, True)) s)"
  by (simp add: sound_def)

lemma tracks_place:
  assumes "tracks s0 d V s" "b \<in> V" shows "tracks s0 d V (place d (Some (b, True)) s)"
  using tracksD(5) [OF assms(1)] assms(2)
  by (intro tracksI sound_place tracksD [OF assms(1)])
    (auto simp: disk_of_def dest: tracksD(2,3,6) [OF assms(1)])

lemma synced_directory_simps [simp]:
  "fs_files (synced_directory p s) = fs_files s" "fs_temp (synced_directory p s) = fs_temp s"
  "fs_disk (synced_directory p s) d = (if path_dir d = p then [disk_of (fs_files s d)] else fs_disk s d)"
  by (simp_all add: synced_directory_def)

lemma synced_directory_shrinks: "sound s \<Longrightarrow> set (fs_disk (synced_directory p s) d) \<subseteq> set (fs_disk s d)"
  by (simp add: soundD)

lemma tracks_sync_directory:
  assumes "tracks s0 d V s" shows "tracks s0 d V (synced_directory p s)"
proof (rule tracksI)
  note s = tracksD(1) [OF assms]
  show "sound (synced_directory p s)" using s by (simp add: sound_def)
  show "set (fs_disk (synced_directory p s) d) \<subseteq> set (fs_disk s0 d) \<union> Whole ` V"
    using synced_directory_shrinks [OF s, of p d] tracksD(5) [OF assms] by blast
  show "set (fs_disk (synced_directory p s) d') \<subseteq> set (fs_disk s0 d')" if "d' \<noteq> d" for d'
    using synced_directory_shrinks [OF s, of p d'] tracksD(3) [OF assms that] by blast
  show "fs_dirs (synced_directory p s) q = Some True" if "fs_dirs s0 q = Some True" for q
    using tracksD(6) [OF assms that] by (simp add: synced_directory_def)
qed (use tracksD [OF assms] in auto)

text \<open>A link reports an existing file only when there is one.\<close>

definition truthful_links :: "fs_env \<Rightarrow> bool" where
  "truthful_links X \<longleftrightarrow>
     (\<forall>log d. pred_option (\<lambda>err. \<not> isinstance err FileExistsError \<and> exn_msg err \<noteq> ''EEXIST'') (fo_fails X log (Link d)))"

definition rivals_in :: "fs_env \<Rightarrow> path \<Rightarrow> bytes set \<Rightarrow> bool" where
  "rivals_in X d V \<longleftrightarrow> (\<forall>history. pred_option (\<lambda>r. r \<in> V) (fo_rival X history d))"

text \<open>No other process writes into the directory.\<close>

definition alone :: "fs_env \<Rightarrow> bool" where
  "alone X \<longleftrightarrow> (\<forall>history d. fo_rival X history d = None)"

lemma alone_rivals_in: "alone X \<Longrightarrow> rivals_in X d V"
  by (simp add: alone_def rivals_in_def)

lemma rivals_inD: "rivals_in X d V \<Longrightarrow> fo_rival X history d = Some r \<Longrightarrow> r \<in> V"
  unfolding rivals_in_def by (metis option.pred_inject(2))

definition settled :: "path \<Rightarrow> fs \<Rightarrow> bool" where
  "settled d s \<longleftrightarrow> visible s d \<and> set (fs_disk s d) = {disk_of (fs_files s d)}"

lemma log_free_tracks [simp]:
  "log_free (tracks s0 d V)" "log_free (\<lambda>s. tracks s0 d V s \<and> fs_temp s = t)"
  "log_free (\<lambda>s. tracks s0 d V s \<and> visible s d)" "log_free (\<lambda>s. tracks s0 d V s \<and> settled d s)"
  "log_free (\<lambda>s. tracks s0 d V s \<and> fs_files s d = f)"
  by (simp_all add: log_free_def visible_def settled_def)

lemma fs_hoare_link:
  assumes "b \<in> V" "rivals_in X d V" "truthful_links X"
  shows "st_hoare (\<lambda>s. tracks s0 d V s \<and> fs_temp s = Some (b, True)) (link_temp X d)
    (\<lambda>_ s. tracks s0 d V s \<and> fs_files s d = Some (b, True)) (tracks s0 d V)"
    "st_hoare (\<lambda>s. tracks s0 d V s \<and> fs_temp s = Some (b, True))
      (st_catch (link_temp X d) (\<lambda>err. if isinstance err FileExistsError then st_ret ()
         else if isinstance err OSError \<and> exn_msg err = ''EEXIST'' then st_ret () else st_throw err))
      (\<lambda>_ s. tracks s0 d V s \<and> visible s d) (tracks s0 d V)"
proof -
  have rival: "tracks s0 d V (let_rival X d s)" "fs_temp (let_rival X d s) = fs_temp s" if "tracks s0 d V s" for s
    
  proof -
    show "tracks s0 d V (let_rival X d s)"
    proof (cases "fo_rival X (fs_log s) d")
      case (Some r)
      from tracks_place [OF that rivals_inD [OF assms(2) Some]] that Some show ?thesis by (simp add: let_rival_def)
    qed (simp add: let_rival_def that)
    show "fs_temp (let_rival X d s) = fs_temp s" by (simp add: let_rival_def split: option.split)
  qed
  have cases: "tracks s0 d V s'
      \<and> (case r of Inr _ \<Rightarrow> fs_files s' d = Some (b, True)
         | Inl err \<Rightarrow> isinstance err FileExistsError \<or> exn_msg err = ''EEXIST'' \<longrightarrow> visible s' d)"
    if pre: "tracks s0 d V s \<and> fs_temp s = Some (b, True)" and run: "link_temp X d s = (r, s')" for s r s'
  proof (cases "visible (let_rival X d s) d")
    case True
    with run have "r = Inl (Exn FileExistsError [])" "s' = logged (Link d) (Some (Exn FileExistsError [])) (let_rival X d s)"
      by (simp_all add: link_temp_def Let_def)
    with rival [of s] pre True show ?thesis by (simp add: visible_def)
  next
    case False
    show ?thesis
    proof (cases "fo_fails X (fs_log (let_rival X d s)) (Link d)")
      case None
      with run False have "r = Inr ()" "s' = logged (Link d) None (place d (fs_temp (let_rival X d s)) (let_rival X d s))"
        by (simp_all add: link_temp_def fs_step_def Let_def)
      moreover have "tracks s0 d V (place d (Some (b, True)) (let_rival X d s))"
        using pre by (intro tracks_place rival assms) simp
      ultimately show ?thesis using rival(2) [of s] pre by simp
    next
      case (Some err)
      with assms(3) have "\<not> isinstance err FileExistsError \<and> exn_msg err \<noteq> ''EEXIST''"
      proof -
        have "pred_option (\<lambda>err. \<not> isinstance err FileExistsError \<and> exn_msg err \<noteq> ''EEXIST'')
            (fo_fails X (fs_log (let_rival X d s)) (Link d))"
          using assms(3) unfolding truthful_links_def by blast
        with Some show ?thesis by simp
      qed
      moreover from Some run False have "r = Inl err" "s' = logged (Link d) (Some err) (let_rival X d s)"
        by (simp_all add: link_temp_def fs_step_def Let_def)
      ultimately show ?thesis using rival [of s] pre by simp
    qed
  qed
  have link: "st_hoare (\<lambda>s. tracks s0 d V s \<and> fs_temp s = Some (b, True)) (link_temp X d)
    (\<lambda>_ s. tracks s0 d V s \<and> fs_files s d = Some (b, True)) (tracks s0 d V)"
  proof (rule st_hoareI)
    fix s x s' assume "tracks s0 d V s \<and> fs_temp s = Some (b, True)" "link_temp X d s = (Inr x, s')"
    from cases [OF this] show "tracks s0 d V s' \<and> fs_files s' d = Some (b, True)" by simp
  next
    fix s err s' assume "tracks s0 d V s \<and> fs_temp s = Some (b, True)" "link_temp X d s = (Inl err, s')"
    from cases [OF this] show "tracks s0 d V s'" by simp
  qed
  then show "st_hoare (\<lambda>s. tracks s0 d V s \<and> fs_temp s = Some (b, True)) (link_temp X d)
    (\<lambda>_ s. tracks s0 d V s \<and> fs_files s d = Some (b, True)) (tracks s0 d V)" .
  show "st_hoare (\<lambda>s. tracks s0 d V s \<and> fs_temp s = Some (b, True))
      (st_catch (link_temp X d) (\<lambda>err. if isinstance err FileExistsError then st_ret ()
         else if isinstance err OSError \<and> exn_msg err = ''EEXIST'' then st_ret () else st_throw err))
      (\<lambda>_ s. tracks s0 d V s \<and> visible s d) (tracks s0 d V)" (is "st_hoare ?P ?m _ _")
    unfolding st_hoare_def
  proof (intro allI impI)
    fix s assume pre: "?P s"
    obtain r s' where run: "link_temp X d s = (r, s')" by fastforce
    from cases [OF pre run] run show "case ?m s of (Inr x, s') \<Rightarrow> tracks s0 d V s' \<and> visible s' d | (Inl err, s') \<Rightarrow> tracks s0 d V s'"
      by (cases r) (auto simp: st_catch_def st_ret_def st_throw_def visible_def)
  qed
qed

lemma fs_hoare_commit:
  assumes "b \<in> V" "rivals_in X d V" "truthful_links X"
  shows "st_hoare (\<lambda>s. tracks s0 d V s \<and> fs_temp s = Some (b, True)) (commit_temp_file X policy d)
    (\<lambda>_ s. tracks s0 d V s \<and> visible s d \<and> (policy \<noteq> Skip_existing \<longrightarrow> fs_files s d = Some (b, True))) (tracks s0 d V)"
proof (cases policy)
  case Overwrite
  have "st_hoare (\<lambda>s. tracks s0 d V s \<and> fs_temp s = Some (b, True)) (replace_temp X d)
    (\<lambda>_ s. tracks s0 d V s \<and> fs_files s d = Some (b, True)) (tracks s0 d V)"
    unfolding replace_temp_def by (rule fs_hoare_step) (auto intro: tracks_place assms(1))
  then show ?thesis unfolding commit_temp_file_def using Overwrite
    by (auto intro: st_hoare_weaken simp: visible_def)
next
  case Skip_existing
  with fs_hoare_link(2) [where b = b and V = V and X = X and d = d, OF assms] show ?thesis
    by (simp add: commit_temp_file_def cong: if_cong)
next
  case Fail_existing
  have "st_hoare (\<lambda>s. tracks s0 d V s \<and> fs_temp s = Some (b, True))
      (st_catch (link_temp X d) (\<lambda>err. if isinstance err FileExistsError
        then st_throw (Exn PermanentSinkError ''sink destination already exists'') else st_throw err))
      (\<lambda>_ s. tracks s0 d V s \<and> fs_files s d = Some (b, True)) (tracks s0 d V)"
    by (rule st_hoare_catch [OF fs_hoare_link(1) [OF assms]]) (auto intro: st_hoare_throw)
  then have "st_hoare (\<lambda>s. tracks s0 d V s \<and> fs_temp s = Some (b, True)) (commit_temp_file X policy d)
      (\<lambda>_ s. tracks s0 d V s \<and> fs_files s d = Some (b, True)) (tracks s0 d V)"
    by (simp add: commit_temp_file_def Fail_existing cong: if_cong)
  then show ?thesis by (rule st_hoare_weaken) (simp_all add: visible_def)
qed

lemma fs_hoare_place_document:
  assumes "\<And>b. document = Inr b \<Longrightarrow> b \<in> V" "rivals_in X d V" "truthful_links X"
  shows "st_hoare (tracks s0 d V) (place_document X policy True d document)
    (\<lambda>_ s. tracks s0 d V s \<and> settled d s
       \<and> (policy \<noteq> Skip_existing \<longrightarrow> (\<exists>b. document = Inr b \<and> fs_files s d = Some (b, True)))) (tracks s0 d V)"
proof -
  let ?T = "tracks s0 d V"
  let ?F = "\<lambda>b s. policy \<noteq> Skip_existing \<longrightarrow> fs_files s d = Some (b, True)"
  have temp: "st_hoare ?T (make_temp X) (\<lambda>_. ?T) ?T"
    unfolding make_temp_def by (rule fs_hoare_step) auto
  have drop: "st_hoare P (drop_temp X) (\<lambda>_. P) P"
    if "log_free P" "\<And>s. P s \<Longrightarrow> P (s\<lparr>fs_temp := None\<rparr>)" for P
  proof -
    have "st_hoare P (fs_step X Unlink_temp (\<lambda>s. s\<lparr>fs_temp := None\<rparr>)) (\<lambda>_. P) P" by (rule fs_hoare_step) (auto intro: that)
    then show ?thesis unfolding drop_temp_def
      by (rule st_hoare_catch) (auto intro: st_hoare_ret st_hoare_throw)
  qed
  have wr: "st_hoare ?T (write_temp X b) (\<lambda>_ s. ?T s \<and> fs_temp s = Some (b, False)) ?T" for b
    unfolding write_temp_def by (rule fs_hoare_step) auto
  have sync: "st_hoare (\<lambda>s. ?T s \<and> fs_temp s = Some (b, False)) (sync_temp X) (\<lambda>_ s. ?T s \<and> fs_temp s = Some (b, True)) ?T" for b
    unfolding sync_temp_def by (rule fs_hoare_step) auto
  have dir: "st_hoare (\<lambda>s. ?T s \<and> visible s d \<and> ?F b s) (sync_directory X (path_dir d))
      (\<lambda>_ s. ?T s \<and> settled d s \<and> ?F b s) ?T" for b
    unfolding sync_directory_def
    by (rule fs_hoare_step) (auto simp: log_free_def settled_def visible_def intro: tracks_sync_directory)
  have body: "st_hoare (\<lambda>s. ?T s \<and> document = Inr b)
      (st_then (write_temp X b) (st_then (sync_temp X) (st_then (commit_temp_file X policy d) (sync_directory X (path_dir d)))))
      (\<lambda>_ s. ?T s \<and> settled d s \<and> (policy \<noteq> Skip_existing \<longrightarrow> (\<exists>b. document = Inr b \<and> fs_files s d = Some (b, True)))) ?T" for b
  proof (cases "document = Inr b")
    case True
    note commit = fs_hoare_commit [where b = b and V = V and X = X and d = d and policy = policy and ?s0.0 = s0,
      OF assms(1) [OF True] assms(2,3)]
    have "st_hoare ?T (st_then (write_temp X b) (st_then (sync_temp X) (st_then (commit_temp_file X policy d)
        (sync_directory X (path_dir d))))) (\<lambda>_ s. ?T s \<and> settled d s \<and> ?F b s) ?T"
      by (rule st_hoare_then [OF wr st_hoare_then [OF sync st_hoare_then [OF commit dir]]])
    then show ?thesis by (rule st_hoare_weaken) (auto simp: True)
  qed (simp add: st_hoare_def)
  show ?thesis
    unfolding place_document_def if_True
  proof (rule st_hoare_then)
    show "st_hoare ?T (st_catch (make_temp X) (\<lambda>err. st_throw (place_errors err))) (\<lambda>_. ?T) ?T"
      by (rule st_hoare_catch [OF temp]) (auto intro: st_hoare_throw)
    let ?Q = "\<lambda>s. ?T s \<and> settled d s \<and> (policy \<noteq> Skip_existing \<longrightarrow> (\<exists>b. document = Inr b \<and> fs_files s d = Some (b, True)))"
    have free: "log_free ?Q" by (simp add: log_free_def settled_def visible_def)
    show "st_hoare ?T
        (st_finally
          (st_catch
            (st_bind (st_lift document) (\<lambda>b. st_then (write_temp X b) (st_then (sync_temp X)
              (st_then (commit_temp_file X policy d) (sync_directory X (path_dir d))))))
            (\<lambda>err. st_throw (place_errors err)))
          (drop_temp X)) (\<lambda>_. ?Q) ?T"
    proof (rule st_hoare_finally)
      show "st_hoare ?T
          (st_catch
            (st_bind (st_lift document) (\<lambda>b. st_then (write_temp X b) (st_then (sync_temp X)
              (st_then (commit_temp_file X policy d) (sync_directory X (path_dir d))))))
            (\<lambda>err. st_throw (place_errors err))) (\<lambda>_. ?Q) ?T"
        by (rule st_hoare_catch [where H = ?T], rule st_hoare_bind [OF st_hoare_lift [where Q = "\<lambda>b s. ?T s \<and> document = Inr b"] body])
          (auto intro: st_hoare_throw)
      show "st_hoare ?Q (drop_temp X) (\<lambda>_. ?Q) ?T"
        by (rule st_hoare_weaken [OF drop [OF free]]) (auto simp: settled_def visible_def)
      show "st_hoare ?T (drop_temp X) (\<lambda>_. ?T) ?T" by (rule drop) auto
    qed
  qed
qed

section \<open>Sinks that place one document per item\<close>

text \<open>Nothing half-written can come back after a crash, and what is visible has been synced.\<close>

definition untorn :: "fs \<Rightarrow> bool" where
  "untorn s \<longleftrightarrow> sound s \<and> (\<forall>d. Torn \<notin> set (fs_disk s d))"

text \<open>A name is fresh when what is visible there, if anything, is settled.\<close>

definition fresh :: "path \<Rightarrow> fs \<Rightarrow> bool" where
  "fresh d s \<longleftrightarrow> visible s d \<longrightarrow> settled d s"

text \<open>Writing another file leaves a fresh name fresh, with its content.\<close>

lemma tracks_other:
  assumes "tracks s d' V s'" "d' \<noteq> d"
  shows "fs_files s' d = fs_files s d" "fresh d s \<Longrightarrow> fresh d s'"
proof -
  show same: "fs_files s' d = fs_files s d" using tracksD(2) [OF assms(1)] assms(2) by metis
  show "fresh d s'" if "fresh d s"
    unfolding fresh_def
  proof
    assume vis: "visible s' d"
    with that same have "settled d s" by (simp add: fresh_def visible_def)
    then have "set (fs_disk s' d) \<subseteq> {disk_of (fs_files s' d)}"
      using tracksD(3) [OF assms(1), of d] assms(2) same by (simp add: settled_def)
    moreover have "disk_of (fs_files s' d) \<in> set (fs_disk s' d)" by (rule soundD(2) [OF tracksD(1) [OF assms(1)]])
    ultimately show "settled d s'" using vis by (auto simp: settled_def)
  qed
qed

lemma tracks_visible: "tracks s d' V s' \<Longrightarrow> visible s d \<Longrightarrow> visible s' d"
  using tracksD(2) [of s d' V s' d] tracksD(4) [of s d' V s'] by (cases "d = d'") (auto simp: visible_def)

lemma tracks_untorn:
  assumes "tracks s d V s'" "untorn s" shows "untorn s'"
proof -
  from assms(2) have old: "Torn \<notin> set (fs_disk s d)" for d by (simp add: untorn_def)
  have "Torn \<notin> set (fs_disk s' d')" for d'
  proof (cases "d' = d")
    case True
    with tracksD(5) [OF assms(1)] old [of d] show ?thesis by blast
  next
    case False
    from tracksD(3) [OF assms(1) False] old [of d'] show ?thesis by blast
  qed
  with tracksD(1) [OF assms(1)] show ?thesis by (simp add: untorn_def)
qed

text \<open>
  The contract of one write in a context \<open>c\<close> (configuration and environment): a write whose target
  cannot be determined does nothing; any other touches its target only, as \<open>tracks\<close> says; and when it
  returns, its target is settled or was visible before and has not been touched.
\<close>

locale document_sink =
  fixes write_one :: "'c \<Rightarrow> 'm \<Rightarrow> unit fsm"
    and target :: "'c \<Rightarrow> 'm \<Rightarrow> path res"
    and documents :: "'c \<Rightarrow> path \<Rightarrow> bytes set"
    and fits :: "'c \<Rightarrow> bool"
  assumes write_refused: "target c m = Inl err \<Longrightarrow> \<exists>err'. write_one c m s = (Inl err', s)"
    and write_tracks: "fits c \<Longrightarrow> sound s \<Longrightarrow> target c m = Inr d \<Longrightarrow> write_one c m s = (r, s')
      \<Longrightarrow> tracks s d (documents c d) s'"
    and write_done: "fits c \<Longrightarrow> sound s \<Longrightarrow> target c m = Inr d \<Longrightarrow> write_one c m s = (Inr u, s')
      \<Longrightarrow> settled d s' \<or> visible s d \<and> fs_files s' d = fs_files s d \<and> fs_disk s' d = fs_disk s d"
begin

lemma write_cases:
  assumes "fits c" "sound s" "write_one c m s = (r, s')"
  obtains err where "r = Inl err" "s' = s" | d where "target c m = Inr d" "tracks s d (documents c d) s'"
proof (cases "target c m")
  case (Inl err)
  with write_refused [of c m err s] assms(3) that(1) show thesis by auto
next
  case (Inr d)
  with write_tracks [OF assms(1,2) Inr assms(3)] that(2) show thesis by blast
qed

lemma write_keeps:
  assumes "fits c" "write_one c m s = (r, s')"
  shows "sound s \<Longrightarrow> sound s'" "untorn s \<Longrightarrow> untorn s'" "sound s \<Longrightarrow> visible s d \<Longrightarrow> visible s' d"
    "sound s \<Longrightarrow> fs_dirs s q = Some True \<Longrightarrow> fs_dirs s' q = Some True"
proof -
  note cases = write_cases [OF assms(1) _ assms(2)]
  show "sound s'" if "sound s" using cases [OF that] that tracksD(1) by metis
  show "untorn s'" if "untorn s"
  proof -
    from that have "sound s" by (simp add: untorn_def)
    from cases [OF this] that tracks_untorn show ?thesis by metis
  qed
  show "visible s' d" if "sound s" "visible s d" using cases [OF that(1)] that(2) tracks_visible by metis
  show "fs_dirs s' q = Some True" if "sound s" "fs_dirs s q = Some True"
    using cases [OF that(1)] that(2) tracksD(6) by metis
qed

lemma batch_keeps:
  assumes "fits c" "st_each (write_one c) ms s = (r, s')"
  shows "sound s \<Longrightarrow> sound s'" "untorn s \<Longrightarrow> untorn s'" "sound s \<Longrightarrow> visible s d \<Longrightarrow> visible s' d"
    "sound s \<Longrightarrow> fs_dirs s q = Some True \<Longrightarrow> fs_dirs s' q = Some True"
proof -
  have "(sound s \<longrightarrow> sound s' \<and> (visible s d \<longrightarrow> visible s' d) \<and> (fs_dirs s q = Some True \<longrightarrow> fs_dirs s' q = Some True))
      \<and> (untorn s \<longrightarrow> untorn s')"
    using assms(2)
  proof (induction ms arbitrary: s)
    case (Cons m ms)
    obtain r1 s1 where one: "write_one c m s = (r1, s1)" by fastforce
    note keeps = write_keeps [OF assms(1) one]
    show ?case
    proof (cases r1)
      case (Inl err)
      with Cons.prems one have "s' = s1" by (simp add: st_each_Cons_run del: st_each.simps)
      with keeps show ?thesis by metis
    next
      case (Inr u)
      with Cons.prems one have "st_each (write_one c) ms s1 = (r, s')"
        by (simp add: st_each_Cons_run del: st_each.simps)
      from Cons.IH [OF this] keeps show ?thesis by metis
    qed
  qed (simp add: st_ret_def)
  then show "sound s \<Longrightarrow> sound s'" "untorn s \<Longrightarrow> untorn s'" "sound s \<Longrightarrow> visible s d \<Longrightarrow> visible s' d"
    "sound s \<Longrightarrow> fs_dirs s q = Some True \<Longrightarrow> fs_dirs s' q = Some True" by simp_all
qed

lemma write_fresh:
  assumes "fits c" "sound s" "fresh d s" "write_one c m s = (Inr u, s')"
  shows "fresh d s'" "target c m = Inr d \<Longrightarrow> settled d s'"
proof -
  obtain d' where t: "target c m = Inr d'" "tracks s d' (documents c d') s'"
    using write_cases [OF assms(1,2,4)] by auto
  have hit: "settled d s'" if "d' = d"
    using write_done [OF assms(1,2) t(1) assms(4)] assms(3) that by (auto simp: fresh_def settled_def visible_def)
  then show "fresh d s'" using tracks_other(2) [OF t(2) _ assms(3)] by (cases "d' = d") (simp_all add: fresh_def)
  show "settled d s'" if "target c m = Inr d" using hit that t(1) by simp
qed

text \<open>A file that a batch has created or changed holds a document of the sink.\<close>

lemma write_contents:
  assumes "fits c" "sound s" "write_one c m s = (r, s')"
  shows "fs_files s' d = fs_files s d \<or> (\<exists>b\<in>documents c d. fs_files s' d = Some (b, True))"
proof (rule write_cases [OF assms])
  show ?thesis if "tracks s d' (documents c d') s'" for d'
    using tracksD(2) [OF that, of d] tracksD(4) [OF that] by (cases "d = d'") auto
qed simp

lemma batch_contents:
  assumes "fits c"
  shows "sound s \<Longrightarrow> st_each (write_one c) ms s = (r, s')
    \<Longrightarrow> fs_files s' d = fs_files s d \<or> (\<exists>b\<in>documents c d. fs_files s' d = Some (b, True))"
proof (induction ms arbitrary: s)
  case (Cons m ms)
  obtain r1 s1 where one: "write_one c m s = (r1, s1)" by fastforce
  note s1 = write_keeps(1) [OF assms one Cons.prems(1)] and here = write_contents [OF assms Cons.prems(1) one, of d]
  show ?case
  proof (cases r1)
    case (Inl err)
    with Cons.prems(2) one have "s' = s1" by (simp add: st_each_Cons_run del: st_each.simps)
    with here show ?thesis by simp
  next
    case (Inr u)
    with Cons.prems(2) one have rest: "st_each (write_one c) ms s1 = (r, s')"
      by (simp add: st_each_Cons_run del: st_each.simps)
    from Cons.IH [OF s1 rest] here show ?thesis by auto
  qed
qed (simp add: st_ret_def)

text \<open>When the batch returns, every message has its target visible, and settled unless it was there before.\<close>

lemma batch_done:
  assumes "fits c" "sound s" "st_each (write_one c) ms s = (Inr u, s')"
  shows "m \<in> set ms \<Longrightarrow> \<exists>d. target c m = Inr d \<and> visible s' d"
    "fresh d s \<Longrightarrow> fresh d s'" "fresh d s \<Longrightarrow> m \<in> set ms \<Longrightarrow> target c m = Inr d \<Longrightarrow> settled d s'"
proof -
  have "(m \<in> set ms \<longrightarrow> (\<exists>d. target c m = Inr d \<and> visible s' d))
      \<and> (fresh d s \<longrightarrow> fresh d s' \<and> (m \<in> set ms \<longrightarrow> target c m = Inr d \<longrightarrow> settled d s'))"
    using assms(2,3)
  proof (induction ms arbitrary: s)
    case (Cons m' ms)
    then obtain s1 where one: "write_one c m' s = (Inr (), s1)" and rest: "st_each (write_one c) ms s1 = (Inr u, s')"
      by (auto simp: st_each_Cons_run simp del: st_each.simps split: prod.splits sum.splits)
    note s1 = write_keeps(1) [OF assms(1) one Cons.prems(1)]
    note IH = Cons.IH [OF s1 rest]
    have seen: "\<exists>d. target c m' = Inr d \<and> visible s' d"
    proof -
      obtain d' where t: "target c m' = Inr d'" using write_cases [OF assms(1) Cons.prems(1) one] by auto
      have "visible s1 d'"
        using write_done [OF assms(1) Cons.prems(1) t one] by (auto simp: settled_def visible_def)
      with batch_keeps(3) [OF assms(1) rest s1] t show ?thesis by blast
    qed
    have late: "settled d s'" if "settled d s1"
    proof -
      from that have "fresh d s1" "visible s1 d" by (simp_all add: fresh_def settled_def)
      with IH batch_keeps(3) [OF assms(1) rest s1] have "fresh d s'" "visible s' d" by blast+
      then show ?thesis by (simp add: fresh_def)
    qed
    from seen late IH write_fresh [OF assms(1) Cons.prems(1) _ one] show ?case by auto
  qed (simp add: st_ret_def)
  then show "m \<in> set ms \<Longrightarrow> \<exists>d. target c m = Inr d \<and> visible s' d"
    "fresh d s \<Longrightarrow> fresh d s'" "fresh d s \<Longrightarrow> m \<in> set ms \<Longrightarrow> target c m = Inr d \<Longrightarrow> settled d s'" by blast+
qed

end

text \<open>Sinks that, in the contexts \<open>once\<close>, never replace a file.\<close>

locale write_once_sink = document_sink write_one target documents fits
  for write_one :: "'c \<Rightarrow> 'm \<Rightarrow> unit fsm" and target documents fits +
  fixes once :: "'c \<Rightarrow> bool"
  assumes write_preserves: "once c \<Longrightarrow> fs_files s d = Some f \<Longrightarrow> write_one c m s = (r, s') \<Longrightarrow> fs_files s' d = Some f"
begin

lemma batch_preserves:
  assumes "once c"
  shows "fs_files s d = Some f \<Longrightarrow> st_each (write_one c) ms s = (r, s') \<Longrightarrow> fs_files s' d = Some f"
proof (induction ms arbitrary: s)
  case (Cons m ms)
  obtain r1 s1 where one: "write_one c m s = (r1, s1)" by fastforce
  from write_preserves [OF assms Cons.prems(1) one] Cons.IH [of s1] Cons.prems(2) one show ?case
    by (cases r1) (auto simp: st_each_Cons_run simp del: st_each.simps)
qed (simp add: st_ret_def)

end

section \<open>Invariants of placing a document\<close>

text \<open>What has to be shown of a predicate so that no placing of a document can break it.\<close>

definition placing_keeps :: "(fs \<Rightarrow> bool) \<Rightarrow> fs_env \<Rightarrow> duplicate_policy \<Rightarrow> path \<Rightarrow> bool" where
  "placing_keeps P X policy d \<longleftrightarrow> log_free P \<and> (\<forall>s t. P s \<longrightarrow> P (s\<lparr>fs_temp := t\<rparr>))
     \<and> (\<forall>s. P s \<longrightarrow> P (synced_directory (path_dir d) s))
     \<and> st_hoare P (if policy = Overwrite then replace_temp X d else link_temp X d) (\<lambda>_. P) P"

lemma fs_hoare_place_invariant:
  assumes "placing_keeps P X policy d"
  shows "st_hoare P (place_document X policy sync d document) (\<lambda>_. P) P"
proof -
  from assms have free: "log_free P" and keeps: "\<And>s t. P s \<Longrightarrow> P (s\<lparr>fs_temp := t\<rparr>)"
      "\<And>s. P s \<Longrightarrow> P (synced_directory (path_dir d) s)"
    and placed: "st_hoare P (if policy = Overwrite then replace_temp X d else link_temp X d) (\<lambda>_. P) P"
    by (simp_all add: placing_keeps_def)
  have step: "st_hoare P (fs_step X op effect) (\<lambda>_. P) P" if "\<And>s. P s \<Longrightarrow> P (effect s)" for op effect
    by (rule fs_hoare_step [OF free free that])
  have drop: "st_hoare P (drop_temp X) (\<lambda>_. P) P"
    unfolding drop_temp_def by (rule st_hoare_catch [OF step]) (auto intro: st_hoare_ret st_hoare_throw keeps)
  have commit: "st_hoare P (commit_temp_file X policy d) (\<lambda>_. P) P"
  proof (cases "policy = Overwrite")
    case False
    with placed have "st_hoare P (link_temp X d) (\<lambda>_. P) P" by simp
    from st_hoare_catch [OF this] False show ?thesis
      by (auto simp: commit_temp_file_def intro!: st_hoare_ret st_hoare_throw st_hoare_catch [OF \<open>st_hoare P (link_temp X d) (\<lambda>_. P) P\<close>])
  qed (use placed in \<open>simp add: commit_temp_file_def\<close>)
  have temp: "st_hoare P (make_temp X) (\<lambda>_. P) P" "st_hoare P (write_temp X b) (\<lambda>_. P) P"
      "st_hoare P (sync_temp X) (\<lambda>_. P) P" "st_hoare P (sync_directory X (path_dir d)) (\<lambda>_. P) P" for b
    unfolding make_temp_def write_temp_def sync_temp_def sync_directory_def by (rule step, erule keeps)+
  have opt: "st_hoare P (if sync then m else st_ret ()) (\<lambda>_. P) P" if "st_hoare P m (\<lambda>_. P) P" for m
    using that by (auto intro: st_hoare_ret)
  have lift: "st_hoare P (st_lift document) (\<lambda>_. P) P" by (rule st_hoare_lift)
  note body = st_hoare_bind [OF lift st_hoare_then [OF temp(2) st_hoare_then [OF opt [OF temp(3)]
        st_hoare_then [OF commit opt [OF temp(4)]]]]]
  show ?thesis
    unfolding place_document_def
    by (rule st_hoare_then [OF st_hoare_catch [OF temp(1)] st_hoare_finally [OF st_hoare_catch [OF body] drop drop]])
      (rule st_hoare_throw, assumption)+
qed

text \<open>Without \<open>Overwrite\<close> no file is replaced.\<close>

lemma placing_keeps_file:
  assumes "policy \<noteq> Overwrite" shows "placing_keeps (\<lambda>s. fs_files s d' = Some f) X policy d"
proof -
  let ?P = "\<lambda>s :: fs. fs_files s d' = Some f"
  have rival: "?P (let_rival X d s)" if "?P s" for s
    using that by (cases f) (auto simp: let_rival_def visible_def split: option.split)
  have "st_hoare ?P (link_temp X d) (\<lambda>_. ?P) ?P"
    unfolding st_hoare_def
  proof (intro allI impI)
    fix s assume "?P s"
    then have now: "?P (let_rival X d s)" by (rule rival)
    show "case link_temp X d s of (Inr x, s') \<Rightarrow> ?P s' | (Inl err, s') \<Rightarrow> ?P s'"
    proof (cases "visible (let_rival X d s) d")
      case False
      with now have "d' \<noteq> d" by (cases f) (auto simp: visible_def)
      with False now show ?thesis by (simp add: link_temp_def fs_step_def Let_def split: option.split)
    qed (simp add: link_temp_def Let_def now)
  qed
  with assms show ?thesis by (simp add: placing_keeps_def log_free_def)
qed

text \<open>Only syncing the root makes the entry of a directory durable.\<close>

definition unsynced_directory :: "string \<Rightarrow> fs \<Rightarrow> bool" where
  "unsynced_directory q s \<longleftrightarrow> fs_dirs s q \<noteq> Some True"

lemma placing_keeps_directory:
  assumes "path_dir d \<noteq> None" shows "placing_keeps (unsynced_directory q) X policy d"
proof -
  let ?P = "unsynced_directory q"
  have same: "?P (place d f s) = ?P s" "?P (let_rival X d s) = ?P s" "?P (logged op out s) = ?P s" for d f s X op out
    by (simp_all add: unsynced_directory_def let_rival_def split: option.split)
  have "st_hoare ?P (link_temp X d) (\<lambda>_. ?P) ?P" "st_hoare ?P (replace_temp X d) (\<lambda>_. ?P) ?P"
    by (auto simp: st_hoare_def link_temp_def replace_temp_def Let_def fs_step_def same split: option.split)
      (simp add: unsynced_directory_def)
  with assms show ?thesis
    by (auto simp: placing_keeps_def log_free_def unsynced_directory_def synced_directory_def)
qed

section \<open>Concrete environments\<close>

text \<open>Nothing fails and nobody else writes.\<close>

definition calm :: fs_env where
  "calm = \<lparr>fo_fails = (\<lambda>_ _. None), fo_rival = (\<lambda>_ _. None), fo_outside = (\<lambda>_ _. False), fo_names = (\<lambda>_. [])\<rparr>"

definition empty_fs :: fs where
  "empty_fs = \<lparr>fs_files = (\<lambda>_. None), fs_disk = (\<lambda>_. [Absent]), fs_dirs = (\<lambda>_. None), fs_temp = None, fs_log = []\<rparr>"

lemma empty_untorn: "untorn empty_fs" "sound empty_fs" "fresh d empty_fs"
  by (simp_all add: untorn_def sound_def fresh_def empty_fs_def disk_of_def visible_def)

lemmas fs_run_defs = st_then_def st_bind_def st_catch_def st_finally_def st_ret_def st_throw_def st_lift_def fs_step_def
  check_inside_def make_directory_def path_exists_def place_document_def make_temp_def write_temp_def sync_temp_def
  commit_temp_file_def link_temp_def let_rival_def sync_directory_def drop_temp_def

end
