(* ===== verification/JsonFiles.thy ===== *)
theory JsonFiles
  imports JsonText
begin

text \<open>
  JSON documents as the file sink and the spool write them: one object per file, rendered compactly
  or with an indent of two, with a final newline, encoded as UTF-8 (\<open>_json_bytes\<close> of
  \<open>file/sink.py\<close>, \<open>canonical_json_bytes\<close> of \<open>spool/record.py\<close>).
\<close>

section \<open>Indented rendering\<close>

definition json_newline :: "nat \<Rightarrow> string" where
  "json_newline level = char_of (10::nat) # replicate (2 * level) (CHR '' '')"

text \<open>The items of a container at a level, between its brackets; an empty container stays on one line.\<close>

definition json_block :: "char \<Rightarrow> char \<Rightarrow> nat \<Rightarrow> string list \<Rightarrow> string" where
  "json_block left right level items =
     (if items = [] then [left, right]
      else left # json_newline (Suc level) @ join_with (CHR '','' # json_newline (Suc level)) items
             @ json_newline level @ [right])"

fun json_pretty :: "float_text \<Rightarrow> nat \<Rightarrow> pyval \<Rightarrow> string res" where
  "json_pretty ft level PNone = Inr ''null''"
| "json_pretty ft level (PBool b) = Inr (if b then ''true'' else ''false'')"
| "json_pretty ft level (PInt i) = Inr (render_int i)"
| "json_pretty ft level (PStr s) = Inr (json_string s)"
| "json_pretty ft level (PFloat f) =
     (case f of FFin r \<Rightarrow> Inr (ft r) | _ \<Rightarrow> raise ValueError ''Out of range float values are not JSON compliant'')"
| "json_pretty ft level (PList xs) =
     rmap (json_block (CHR ''['') (CHR '']'') level) (rmapM (json_pretty ft (Suc level)) xs)"
| "json_pretty ft level (PTuple xs) =
     rmap (json_block (CHR ''['') (CHR '']'') level) (rmapM (json_pretty ft (Suc level)) xs)"
| "json_pretty ft level (PDict kvs) =
     rmap (\<lambda>ps. json_block (CHR ''{'') (CHR ''}'') level
         (map (\<lambda>(k, t). json_string k @ '': '' @ t) (sort_key fst ps)))
       (rmapM (\<lambda>(k, v). rbind (text_key k) (\<lambda>k'. rmap (Pair k') (json_pretty ft (Suc level) v))) kvs)"
| "json_pretty ft level _ = raise TypeError ''object is not JSON serializable''"

definition json_line :: "float_text \<Rightarrow> bool \<Rightarrow> pyval \<Rightarrow> bytes res" where
  "json_line ft pretty record =
     rmap (\<lambda>rendered. utf8_encode (rendered @ [char_of (10::nat)]))
       (if pretty then json_pretty ft 0 record else json_dumps ft record)"

section \<open>Indentation does not decide what can be written\<close>

text \<open>The outcome of a list of computations, without the values.\<close>

definition outcome :: "'a res \<Rightarrow> unit res" where
  "outcome r = rmap (\<lambda>_. ()) r"

lemma outcome_simps [simp]:
  "outcome (Inl err) = Inl err" "outcome (Inr x) = Inr ()" "outcome (rmap f r) = outcome r"
  by (cases r; simp add: outcome_def)+

lemma outcome_rmapM:
  "(\<And>x. x \<in> set xs \<Longrightarrow> outcome (f x) = outcome (g x)) \<Longrightarrow> outcome (rmapM f xs) = outcome (rmapM g xs)"
proof (induction xs)
  case (Cons x xs)
  then have "outcome (f x) = outcome (g x)" "outcome (rmapM f xs) = outcome (rmapM g xs)" by simp_all
  then show ?case by (cases "f x"; cases "g x") simp_all
qed simp

lemma outcome_json_pretty: "outcome (json_pretty ft level v) = outcome (json_render q ft v)"
proof (induction v arbitrary: level)
  case (PDict kvs)
  have "outcome (case kv of (k, v) \<Rightarrow> rbind (text_key k) (\<lambda>k'. rmap (Pair k') (json_pretty ft (Suc level) v)))
      = outcome (case kv of (k, v) \<Rightarrow> rbind (text_key k) (\<lambda>k'. rmap (Pair k') (json_render q ft v)))"
    if "kv \<in> set kvs" for kv
  proof -
    obtain k v where kv: "kv = (k, v)" by fastforce
    with PDict.IH [OF that, of v "Suc level"] show ?thesis by (cases "text_key k") simp_all
  qed
  from outcome_rmapM [OF this] show ?case by simp
next
  case (PFloat f)
  then show ?case by (cases f) simp_all
next
  case (PList xs)
  have "outcome (json_pretty ft (Suc level) x) = outcome (json_render q ft x)" if "x \<in> set xs" for x
    by (rule PList.IH [OF that])
  from outcome_rmapM [OF this] show ?case by simp
next
  case (PTuple xs)
  have "outcome (json_pretty ft (Suc level) x) = outcome (json_render q ft x)" if "x \<in> set xs" for x
    by (rule PTuple.IH [OF that])
  from outcome_rmapM [OF this] show ?case by simp
qed simp_all

text \<open>A record is writable in both forms or in neither, with the same error.\<close>

lemma json_line_outcome: "outcome (json_line ft pretty record) = outcome (json_line ft pretty' record)"
  by (cases pretty; cases pretty') (simp_all add: json_line_def json_dumps_def outcome_json_pretty [where q = json_string])

lemma json_pretty_sample:
  "json_pretty (\<lambda>_. []) 0 (PDict [(PStr ''b'', PList [PInt 1, PNone]), (PStr ''a'', PDict [])])
     = Inr (''{'' @ json_newline 1 @ json_string ''a'' @ '': {},'' @ json_newline 1 @ json_string ''b'' @ '': [''
         @ json_newline 2 @ ''1,'' @ json_newline 2 @ ''null'' @ json_newline 1 @ '']'' @ json_newline 0 @ ''}'')"
  by code_simp

end
