(* ===== verification/StoredValues.thy ===== *)
theory StoredValues
  imports Metadata
begin

text \<open>
  The description of a normalised payload that every destination stores beside the payload
  (\<open>payload_info\<close> in the mappings of the sinks).
\<close>

primrec format_text :: "original_format \<Rightarrow> string" where
  "format_text Format_json = ''json''"
| "format_text Format_text = ''text''"
| "format_text Format_bytes = ''bytes''"

definition payload_info :: "normalized_payload \<Rightarrow> (pyval \<times> pyval) list" where
  "payload_info np =
     [K ''original_format'' (PStr (format_text (np_original_format np))),
      K ''wrapped'' (PBool (np_wrapped np)),
      K ''sha256'' (PStr (np_sha256 np)),
      K ''size_bytes'' (PInt (int (np_size_bytes np)))]"

end
