(* ===== verification/FileSink.thy ===== *)
theory FileSink
  imports LocalFiles JsonFiles StoredValues
begin

text \<open>
  The local file sink (\<open>file/config.py\<close>, \<open>file/mapping.py\<close>, \<open>file/sink.py\<close>): one JSON document per
  message under a sanitised, deterministic path.  \<open>gzip.compress\<close> is a parameter.
\<close>

section \<open>Configuration\<close>

datatype filename_strategy = Stream_sequence | Message_id | Payload_sha256
datatype compression = No_compression | Gzip

record file_config =
  fc_directory :: string
  fc_filename_strategy :: filename_strategy
  fc_duplicate_policy :: duplicate_policy
  fc_payload_mode :: storage_mode
  fc_extension :: string
  fc_compression :: compression
  fc_compression_level :: int
  fc_include_metadata :: bool
  fc_partition_by_subject :: bool
  fc_create_directory :: bool
  fc_fsync :: bool
  fc_pretty :: bool

definition validate_extension :: "string \<Rightarrow> string res" where
  "validate_extension value =
     (if value = [] then raise ValueError ''sink.extension must not be empty''
      else if \<not> startswith value ''.'' then raise ValueError ''sink.extension must start with dot''
      else if CHR ''/'' \<in> set value \<or> CHR 0x5C \<in> set value
      then raise ValueError ''sink.extension must not contain path separators''
      else if value \<in> {''.'', ''..''} then raise ValueError ''sink.extension must include a suffix''
      else Inr value)"

definition default_gzip_extension :: "compression \<Rightarrow> string option \<Rightarrow> string \<Rightarrow> string" where
  "default_gzip_extension compression given extension =
     (if compression = Gzip \<and> given = None then ''.json.gz'' else extension)"

text \<open>The validated configuration; \<open>given\<close> is the extension the operator has set, if any.\<close>

definition make_file_config :: "file_config \<Rightarrow> string option \<Rightarrow> file_config res" where
  "make_file_config c given =
     (if strip (fc_directory c) = [] then raise ValueError ''sink.directory must not be empty''
      else if \<not> (1 \<le> fc_compression_level c \<and> fc_compression_level c \<le> 9)
      then raise ValueError ''compression_level out of range''
      else rmap (\<lambda>ext. c\<lparr>fc_extension := default_gzip_extension (fc_compression c) given ext\<rparr>)
        (case given of None \<Rightarrow> Inr ''.json'' | Some ext \<Rightarrow> validate_extension ext))"

section \<open>Names\<close>

definition safe_char :: "char \<Rightarrow> bool" where
  "safe_char c \<longleftrightarrow> (let n = of_char c :: nat in
     (65 \<le> n \<and> n \<le> 90) \<or> (97 \<le> n \<and> n \<le> 122) \<or> (48 \<le> n \<and> n \<le> 57) \<or> c \<in> {CHR ''.'', CHR ''_'', CHR ''-''})"

text \<open>\<open>SAFE_COMPONENT_RE.sub("_", text)\<close>: every maximal run of other characters becomes one \<open>_\<close>.\<close>

function replace_unsafe :: "string \<Rightarrow> string" where
  "replace_unsafe [] = []"
| "replace_unsafe (c # cs) =
     (if safe_char c then c # replace_unsafe cs
      else CHR ''_'' # replace_unsafe (dropWhile (\<lambda>c. \<not> safe_char c) cs))"
  by pat_completeness auto

termination
  by (relation "measure length") (simp_all add: length_dropWhile_le le_imp_less_Suc)

definition punctuation :: "char \<Rightarrow> bool" where
  "punctuation c \<longleftrightarrow> c \<in> {CHR ''.'', CHR ''_'', CHR ''-''}"

definition strip_punctuation :: "string \<Rightarrow> string" where
  "strip_punctuation s = rev (dropWhile punctuation (rev (dropWhile punctuation s)))"

definition safe_path_component :: "pylib \<Rightarrow> string \<Rightarrow> pyval \<Rightarrow> string \<Rightarrow> string" where
  "safe_path_component L type_name value fallback =
     (let rendered = (case py_str (l_str L) value of Some t \<Rightarrow> t
            | None \<Rightarrow> fallback @ ''-unrenderable-'' @ type_name);
          digest = l_sha256 L (utf8_encode rendered);
          cleaned0 = strip_punctuation (replace_unsafe rendered);
          cleaned = (if cleaned0 = [] \<or> cleaned0 \<in> {''.'', ''..''} then fallback @ ''-'' @ take 16 digest else cleaned0)
      in (if 120 < length cleaned then take 80 cleaned @ ''-'' @ take 32 digest else cleaned))"

text \<open>\<open>format(n, "020d")\<close>: the sign counts towards the width.\<close>

definition zero_padded :: "nat \<Rightarrow> int \<Rightarrow> string" where
  "zero_padded width i =
     (if i < 0 then (let ds = render_nat (nat (- i)) in CHR ''-'' # replicate (width - 1 - length ds) (CHR ''0'') @ ds)
      else (let ds = render_nat (nat i) in replicate (width - length ds) (CHR ''0'') @ ds))"

definition file_stem_for_envelope :: "pylib \<Rightarrow> file_config \<Rightarrow> nats_envelope \<Rightarrow> string res" where
  "file_stem_for_envelope L c e =
     (case fc_filename_strategy c of
        Stream_sequence \<Rightarrow>
          (case (env_stream e, env_stream_sequence e) of
             (Some (s # ss), Some n) \<Rightarrow>
               Inr (safe_path_component L ''builtins.str'' (PStr (s # ss)) ''stream'' @ ''-'' @ zero_padded 20 n)
           | _ \<Rightarrow> raise PermanentSinkError ''file sink filename_strategy=stream_sequence requires stream metadata'')
      | Message_id \<Rightarrow>
          (case env_message_id e of
             Some (m # ms) \<Rightarrow>
               Inr (safe_path_component L ''builtins.str'' (PStr (m # ms)) ''message'' @ ''-''
                 @ take 16 (l_sha256 L (utf8_encode (m # ms))))
           | _ \<Rightarrow> raise PermanentSinkError ''file sink filename_strategy=message_id requires a message ID'')
      | Payload_sha256 \<Rightarrow>
          Inr (safe_path_component L ''builtins.str'' (PStr (env_subject e)) ''subject'' @ ''-'' @ l_sha256 L (env_data e)))"

definition relative_path_for_envelope :: "pylib \<Rightarrow> file_config \<Rightarrow> nats_envelope \<Rightarrow> path res" where
  "relative_path_for_envelope L c e =
     rmap (\<lambda>stem.
         File (if fc_partition_by_subject c
               then Some (safe_path_component L ''builtins.str'' (PStr (env_subject e)) ''subject'') else None)
           (stem @ fc_extension c))
       (file_stem_for_envelope L c e)"

section \<open>Records\<close>

definition file_record_for_envelope :: "pylib \<Rightarrow> file_config \<Rightarrow> nats_envelope \<Rightarrow> datetime \<Rightarrow> pyval res" where
  "file_record_for_envelope L c e stored_at =
     rbind (payload_for_json_storage L e (fc_payload_mode c)) (\<lambda>np.
     rbind (thaw_metadata (l_str L) (env_mission_metadata e)) (\<lambda>mission.
     rbind (thaw_metadata (l_str L) (env_security_labels e)) (\<lambda>security.
     rbind (thaw_metadata (l_str L) (env_custody e)) (\<lambda>custody.
     rbind (if fc_include_metadata c
            then rmap (\<lambda>m. [K ''metadata'' m]) (build_nats_metadata_snapshot L e stored_at) else Inr []) (\<lambda>metadata.
       Inr (PDict
         ([K ''schema'' (PStr ''nats_sinks.file.message.v1''),
           K ''schema_version'' (PInt 1),
           K ''subject'' (PStr (env_subject e)),
           K ''stream'' (opt_str (env_stream e)),
           K ''stream_sequence'' (opt_int (env_stream_sequence e)),
           K ''consumer'' (opt_str (env_consumer e)),
           K ''consumer_sequence'' (opt_int (env_consumer_sequence e)),
           K ''message_id'' (opt_str (env_message_id e)),
           K ''priority'' (opt_str (env_priority e)),
           K ''classification'' (opt_str (env_classification e)),
           K ''labels'' (opt_str (labels_to_storage_string (l_str L) (PTuple (map PStr (env_labels e))))),
           K ''labels_list'' (PList (map PStr (env_labels e))),
           K ''mission_metadata'' mission,
           K ''security_labels'' security,
           K ''custody'' custody,
           K ''payload'' (np_value np),
           K ''payload_info'' (PDict (payload_info np))] @ metadata)))))))"

type_synonym gzip = "int \<Rightarrow> bytes \<Rightarrow> bytes"

definition record_bytes :: "pylib \<Rightarrow> gzip \<Rightarrow> file_config \<Rightarrow> pyval \<Rightarrow> bytes res" where
  "record_bytes L gz c record =
     rmap (\<lambda>payload. if fc_compression c = No_compression then payload else gz (fc_compression_level c) payload)
       (json_line (l_float_text L) (fc_pretty c) record)"

section \<open>Writing\<close>

text \<open>What one sink object works with, and one message together with the time its record gets.\<close>

record file_sink =
  fk_lib :: pylib
  fk_gzip :: gzip
  fk_config :: file_config
  fk_env :: fs_env

type_synonym timed = "datetime \<times> nats_envelope"

definition safe_destination :: "fs_env \<Rightarrow> path \<Rightarrow> unit fsm" where
  "safe_destination X d =
     st_then (st_catch (make_directory X (path_dir d)) (\<lambda>err. st_throw
         (if isinstance err OSError
          then Exn DestinationUnavailableError ''failed to create file sink output directory'' else err)))
       (check_inside X d)"

definition write_record :: "fs_env \<Rightarrow> duplicate_policy \<Rightarrow> bool \<Rightarrow> path \<Rightarrow> bytes res \<Rightarrow> unit fsm" where
  "write_record X policy sync d document =
     st_bind (path_exists X d) (\<lambda>found.
       if found \<and> policy = Skip_existing then st_ret ()
       else st_bind (path_exists X d) (\<lambda>found.
         if found \<and> policy = Fail_existing
         then st_throw (Exn PermanentSinkError ''file sink destination already exists'')
         else place_document X policy sync d document))"

definition write_message :: "file_sink \<Rightarrow> timed \<Rightarrow> unit fsm" where
  "write_message F = (\<lambda>(now, e).
     st_bind (st_lift (file_record_for_envelope (fk_lib F) (fk_config F) e now)) (\<lambda>record.
     st_bind (st_lift (relative_path_for_envelope (fk_lib F) (fk_config F) e)) (\<lambda>d.
     st_then (safe_destination (fk_env F) d)
       (write_record (fk_env F) (fc_duplicate_policy (fk_config F)) (fc_fsync (fk_config F)) d
         (record_bytes (fk_lib F) (fk_gzip F) (fk_config F) record)))))"

definition file_write_batch :: "file_sink \<Rightarrow> timed list \<Rightarrow> unit fsm" where
  "file_write_batch F messages = st_each (write_message F) messages"

text \<open>What a message has to be stored as, and where.\<close>

definition file_target :: "file_sink \<Rightarrow> timed \<Rightarrow> path res" where
  "file_target F = (\<lambda>(now, e).
     rbind (file_record_for_envelope (fk_lib F) (fk_config F) e now) (\<lambda>_.
       relative_path_for_envelope (fk_lib F) (fk_config F) e))"

definition file_document :: "file_sink \<Rightarrow> timed \<Rightarrow> bytes res" where
  "file_document F = (\<lambda>(now, e).
     rbind (file_record_for_envelope (fk_lib F) (fk_config F) e now) (\<lambda>record.
       record_bytes (fk_lib F) (fk_gzip F) (fk_config F) record))"

definition file_documents :: "file_sink \<Rightarrow> path \<Rightarrow> bytes set" where
  "file_documents F d = {b. \<exists>m. file_target F m = Inr d \<and> file_document F m = Inr b}"

text \<open>Content is synced, links tell the truth, and other processes write documents of the same kind.\<close>

definition file_fits :: "file_sink \<Rightarrow> bool" where
  "file_fits F \<longleftrightarrow> fc_fsync (fk_config F) \<and> truthful_links (fk_env F)
     \<and> (\<forall>d. rivals_in (fk_env F) d (file_documents F d))"

section \<open>Component names are safe\<close>

text \<open>\<open>hashlib.sha256(...).hexdigest()\<close>: 64 lower-case hexadecimal digits.\<close>

definition hex_char :: "char \<Rightarrow> bool" where
  "hex_char c \<longleftrightarrow> (let n = of_char c :: nat in (48 \<le> n \<and> n \<le> 57) \<or> (97 \<le> n \<and> n \<le> 102))"

definition hex_sha256 :: "pylib \<Rightarrow> bool" where
  "hex_sha256 L \<longleftrightarrow> (\<forall>b. length (l_sha256 L b) = 64 \<and> list_all hex_char (l_sha256 L b))"

lemma hex_char_safe: "hex_char c \<Longrightarrow> safe_char c"
  by (auto simp: hex_char_def safe_char_def Let_def)

lemma replace_unsafe_safe: "list_all safe_char (replace_unsafe s)"
proof (induction s rule: replace_unsafe.induct)
  case (2 c cs)
  have "safe_char (CHR ''_'')" by code_simp
  with 2 show ?case by simp
qed simp

lemma list_all_dropWhile: "list_all P xs \<Longrightarrow> list_all P (dropWhile Q xs)"
  by (induction xs) auto

lemma strip_punctuation_safe: "list_all safe_char s \<Longrightarrow> list_all safe_char (strip_punctuation s)"
  by (simp add: strip_punctuation_def list_all_dropWhile list_all_rev)

lemma hd_strip_punctuation:
  assumes "strip_punctuation s \<noteq> []" shows "\<not> punctuation (hd (strip_punctuation s))"
proof -
  let ?t = "dropWhile punctuation s"
  have "?t \<noteq> []"
  proof
    assume "?t = []"
    then have "strip_punctuation s = []" by (simp only: strip_punctuation_def dropWhile.simps rev.simps)
    with assms show False ..
  qed
  then have "\<not> punctuation (hd ?t)" by (rule hd_dropWhile)
  with \<open>?t \<noteq> []\<close> rev_dropWhile_hd [of ?t punctuation] have "dropWhile punctuation (strip_punctuation s) = strip_punctuation s"
    unfolding strip_punctuation_def by blast
  with assms show ?thesis using hd_dropWhile [of punctuation "strip_punctuation s"] by metis
qed

text \<open>A name no operating system gives a meaning of its own, and that fits in a directory entry.\<close>

definition safe_name :: "string \<Rightarrow> bool" where
  "safe_name s \<longleftrightarrow> s \<noteq> [] \<and> length s \<le> 120 \<and> list_all safe_char s \<and> hd s \<noteq> CHR ''.''"

lemma safe_component:
  assumes "hex_sha256 L" "safe_name fallback" "length fallback \<le> 100" "\<not> punctuation (hd fallback)"
  shows "safe_name (safe_path_component L type_name value fallback)"
proof -
  define rendered where "rendered = (case py_str (l_str L) value of Some t \<Rightarrow> t
      | None \<Rightarrow> fallback @ ''-unrenderable-'' @ type_name)"
  define digest where "digest = l_sha256 L (utf8_encode rendered)"
  define cleaned0 where "cleaned0 = strip_punctuation (replace_unsafe rendered)"
  define cleaned where "cleaned = (if cleaned0 = [] \<or> cleaned0 \<in> {''.'', ''..''}
      then fallback @ ''-'' @ take 16 digest else cleaned0)"
  have dash: "safe_char (CHR ''-'')" by code_simp
  have digest: "list_all safe_char digest" "length digest = 64"
    using assms(1) hex_char_safe unfolding hex_sha256_def digest_def by (auto simp: list_all_iff)
  then have prefix: "list_all safe_char (take n digest)" for n by (auto simp: list_all_iff dest: in_set_takeD)
  from assms(2) have fallback: "fallback \<noteq> []" "list_all safe_char fallback" by (simp_all add: safe_name_def)
  have "list_all safe_char cleaned0"
    unfolding cleaned0_def by (rule strip_punctuation_safe [OF replace_unsafe_safe])
  moreover have "\<not> punctuation (hd cleaned0)" if "cleaned0 \<noteq> []"
    using that unfolding cleaned0_def by (rule hd_strip_punctuation)
  ultimately have cleaned: "cleaned \<noteq> []" "list_all safe_char cleaned" "\<not> punctuation (hd cleaned)"
    using fallback assms(4) prefix dash by (auto simp: cleaned_def)
  from cleaned have start: "hd (take 80 cleaned @ xs) \<noteq> CHR ''.''" "hd cleaned \<noteq> CHR ''.''" for xs
    by (cases cleaned; simp add: punctuation_def)+
  have "safe_path_component L type_name value fallback
      = (if 120 < length cleaned then take 80 cleaned @ ''-'' @ take 32 digest else cleaned)"
    by (simp add: safe_path_component_def Let_def rendered_def digest_def cleaned0_def cleaned_def)
  moreover have "safe_name (take 80 cleaned @ ''-'' @ take 32 digest)"
    using cleaned prefix dash digest start by (auto simp: safe_name_def list_all_iff dest: in_set_takeD)
  moreover have "safe_name cleaned" if "\<not> 120 < length cleaned"
    using cleaned that start by (simp add: safe_name_def)
  ultimately show ?thesis by simp
qed

lemma safe_char_no_separator: "list_all safe_char s \<Longrightarrow> CHR ''/'' \<notin> set s \<and> CHR 0x5C \<notin> set s"
proof -
  have "\<not> safe_char (CHR ''/'')" "\<not> safe_char (CHR 0x5C)" by code_simp+
  then show "list_all safe_char s \<Longrightarrow> ?thesis" by (auto simp: list_all_iff)
qed

lemma fallbacks_safe:
  "safe_name ''stream'' \<and> \<not> punctuation (hd ''stream'')" "safe_name ''message'' \<and> \<not> punctuation (hd ''message'')"
  "safe_name ''subject'' \<and> \<not> punctuation (hd ''subject'')"
  by code_simp+

lemma digit_char_safe: "d < 10 \<Longrightarrow> safe_char (digit_char d)"
  by (simp add: safe_char_def digit_char_def)

lemma zero_padded_safe: "list_all safe_char (zero_padded w i)"
proof -
  have "safe_char (CHR ''0'')" "safe_char (CHR ''-'')" by code_simp+
  moreover have "list_all safe_char (render_nat n)" for n
    using render_nat_digits digit_char_safe by (metis list_all_iff)
  ultimately show ?thesis by (auto simp: zero_padded_def Let_def list_all_iff)
qed

text \<open>The stem: safe characters only, and not hidden.\<close>

lemma file_stem_safe:
  assumes "hex_sha256 L" "file_stem_for_envelope L c e = Inr stem"
  shows "stem \<noteq> [] \<and> list_all safe_char stem \<and> hd stem \<noteq> CHR ''.''"
proof -
  have part: "safe_name (safe_path_component L tn v ''stream'')" "safe_name (safe_path_component L tn v ''message'')"
    "safe_name (safe_path_component L tn v ''subject'')" for tn v
    using fallbacks_safe by (auto intro!: safe_component assms(1))
  have dash: "safe_char (CHR ''-'')" by code_simp
  have digest: "list_all safe_char (l_sha256 L b)" for b
    using assms(1) hex_char_safe unfolding hex_sha256_def by (auto simp: list_all_iff)
  then have prefix: "list_all safe_char (take n (l_sha256 L b))" for n b
    by (auto simp: list_all_iff dest: in_set_takeD)
  have join: "s @ ''-'' @ u \<noteq> [] \<and> list_all safe_char (s @ ''-'' @ u) \<and> hd (s @ ''-'' @ u) \<noteq> CHR ''.''"
    if "safe_name s" "list_all safe_char u" for s u
    using that dash by (cases s) (simp_all add: safe_name_def)
  show ?thesis
  proof (cases "fc_filename_strategy c")
    case Stream_sequence
    with assms(2) obtain v n where "stem = safe_path_component L ''builtins.str'' v ''stream'' @ ''-'' @ zero_padded 20 n"
      by (auto simp: file_stem_for_envelope_def raise_def split: option.splits list.splits)
    with join [OF part(1) zero_padded_safe] show ?thesis by simp
  next
    case Message_id
    with assms(2) obtain v b where "stem = safe_path_component L ''builtins.str'' v ''message'' @ ''-'' @ take 16 (l_sha256 L b)"
      by (auto simp: file_stem_for_envelope_def raise_def split: option.splits list.splits)
    with join [OF part(2) prefix] show ?thesis by simp
  next
    case Payload_sha256
    with assms(2) have "stem = safe_path_component L ''builtins.str'' (PStr (env_subject e)) ''subject'' @ ''-'' @ l_sha256 L (env_data e)"
      by (simp add: file_stem_for_envelope_def)
    with join [OF part(3) digest] show ?thesis by simp
  qed
qed

lemma make_file_config_extension:
  assumes "make_file_config c0 given = Inr c"
  shows "fc_extension c \<noteq> [] \<and> CHR ''/'' \<notin> set (fc_extension c) \<and> CHR 0x5C \<notin> set (fc_extension c)"
  using assms
  by (auto simp: make_file_config_def validate_extension_def default_gzip_extension_def raise_def
      split: if_splits option.splits)

text \<open>C7: a message can only be written inside the configured directory.  Whatever subject, stream name,
  message id or payload a sender chooses, an accepted configuration gives it a path of at most one
  directory and one file name; the directory is at most 120 characters of letters, digits, dots, dashes and
  underscores, neither name holds a path separator, and none begins with a dot, so that neither
  \<open>.\<close>, \<open>..\<close> nor the name of a temporary file can come out.\<close>

theorem relative_path_inside:
  assumes "hex_sha256 L" "make_file_config c0 given = Inr c" "relative_path_for_envelope L c e = Inr d"
  shows "pred_option safe_name (path_dir d) \<and> path_name d \<noteq> [] \<and> hd (path_name d) \<noteq> CHR ''.''
    \<and> CHR ''/'' \<notin> set (path_name d) \<and> CHR 0x5C \<notin> set (path_name d)"
proof -
  from assms(3) obtain stem where stem: "file_stem_for_envelope L c e = Inr stem"
    and d: "path_name d = stem @ fc_extension c"
    and dir: "path_dir d = (if fc_partition_by_subject c
       then Some (safe_path_component L ''builtins.str'' (PStr (env_subject e)) ''subject'') else None)"
    by (cases "file_stem_for_envelope L c e") (auto simp: relative_path_for_envelope_def)
  note safe = file_stem_safe [OF assms(1) stem]
  have "safe_name (safe_path_component L tn v ''subject'')" for tn v
    using fallbacks_safe by (auto intro!: safe_component assms(1))
  then have "pred_option safe_name (path_dir d)" by (simp add: dir)
  moreover have "hd (path_name d) \<noteq> CHR ''.''" using safe d by (cases stem) simp_all
  ultimately show ?thesis
    using safe safe_char_no_separator [of stem] make_file_config_extension [OF assms(2)] by (simp add: d)
qed

section \<open>What one write does\<close>

text \<open>Nothing but the log and the directories has changed.\<close>

definition untouched :: "fs \<Rightarrow> path \<Rightarrow> bytes set \<Rightarrow> fs \<Rightarrow> bool" where
  "untouched s0 d V s \<longleftrightarrow> tracks s0 d V s \<and> fs_files s = fs_files s0 \<and> fs_disk s = fs_disk s0"

lemma log_free_untouched [simp]: "log_free (untouched s0 d V)"
  by (simp add: log_free_def untouched_def)

lemma tracks_make_directory:
  assumes "tracks s0 d V s" "fs_dirs s q = None" shows "tracks s0 d V (s\<lparr>fs_dirs := (fs_dirs s)(q := v)\<rparr>)"
proof (rule tracksI)
  show "sound (s\<lparr>fs_dirs := (fs_dirs s)(q := v)\<rparr>)" using tracksD(1) [OF assms(1)] by (simp add: sound_def)
  show "fs_dirs (s\<lparr>fs_dirs := (fs_dirs s)(q := v)\<rparr>) q' = Some True" if "fs_dirs s0 q' = Some True" for q'
    using tracksD(6) [OF assms(1) that] assms(2) by auto
qed (use tracksD [OF assms(1)] in auto)

lemma fs_hoare_safe_destination:
  "st_hoare (untouched s0 d V) (safe_destination X d) (\<lambda>_. untouched s0 d V) (untouched s0 d V)"
proof -
  have "st_hoare (untouched s0 d V) (make_directory X (path_dir d)) (\<lambda>_. untouched s0 d V) (untouched s0 d V)"
    unfolding make_directory_def
    by (rule fs_hoare_step) (auto simp: untouched_def intro: tracks_make_directory split: option.split)
  then have mkdir: "st_hoare (untouched s0 d V) (st_catch (make_directory X (path_dir d)) (\<lambda>err. st_throw
      (if isinstance err OSError
       then Exn DestinationUnavailableError ''failed to create file sink output directory'' else err)))
      (\<lambda>_. untouched s0 d V) (untouched s0 d V)"
    by (rule st_hoare_catch) (auto intro: st_hoare_throw)
  have "st_hoare (untouched s0 d V) (check_inside X d) (\<lambda>_. untouched s0 d V) (untouched s0 d V)"
    by (simp add: st_hoare_def check_inside_def)
  with mkdir show ?thesis unfolding safe_destination_def by (rule st_hoare_then)
qed

lemma fs_hoare_path_exists:
  "st_hoare (untouched s0 d V) (path_exists X d) (\<lambda>found s. untouched s0 d V s \<and> (found \<longrightarrow> visible s0 d)) (untouched s0 d V)"
  by (auto simp: st_hoare_def path_exists_def st_then_def st_bind_def fs_step_def untouched_def visible_def split: option.split)

text \<open>How a write that returns leaves its target.\<close>

definition write_effect :: "duplicate_policy \<Rightarrow> bytes res \<Rightarrow> path \<Rightarrow> fs \<Rightarrow> fs \<Rightarrow> bool" where
  "write_effect policy document d s0 s \<longleftrightarrow>
     settled d s \<and> (policy \<noteq> Skip_existing \<longrightarrow> (\<exists>b. document = Inr b \<and> fs_files s d = Some (b, True)))
     \<or> policy = Skip_existing \<and> visible s0 d \<and> fs_files s d = fs_files s0 d \<and> fs_disk s d = fs_disk s0 d"

lemma fs_hoare_write_record:
  assumes "\<And>b. document = Inr b \<Longrightarrow> b \<in> V" "rivals_in X d V" "truthful_links X"
  shows "st_hoare (untouched s0 d V) (write_record X policy True d document)
    (\<lambda>_ s. tracks s0 d V s \<and> write_effect policy document d s0 s) (tracks s0 d V)"
proof -
  note place = fs_hoare_place_document [where V = V and X = X and d = d and document = document and policy = policy
      and ?s0.0 = s0, OF assms]
  have look: "st_hoare (untouched s0 d V) (path_exists X d) (\<lambda>found s. untouched s0 d V s \<and> (found \<longrightarrow> visible s0 d)) (tracks s0 d V)"
    by (rule st_hoare_weaken [OF fs_hoare_path_exists [where ?s0.0 = s0 and V = V]]) (simp_all add: untouched_def)
  have last: "st_hoare (\<lambda>s. untouched s0 d V s \<and> (found \<longrightarrow> visible s0 d))
      (if found \<and> policy = Fail_existing then st_throw (Exn PermanentSinkError ''file sink destination already exists'')
       else place_document X policy True d document)
      (\<lambda>_ s. tracks s0 d V s \<and> write_effect policy document d s0 s) (tracks s0 d V)" for found
  proof (cases "found \<and> policy = Fail_existing")
    case True
    then show ?thesis by (auto simp: untouched_def intro: st_hoare_throw)
  next
    case False
    have "st_hoare (\<lambda>s. untouched s0 d V s \<and> (found \<longrightarrow> visible s0 d)) (place_document X policy True d document)
        (\<lambda>_ s. tracks s0 d V s \<and> write_effect policy document d s0 s) (tracks s0 d V)"
      by (rule st_hoare_weaken [OF place]) (auto simp: untouched_def write_effect_def)
    then show ?thesis by (subst if_not_P [OF False])
  qed
  have rest: "st_hoare (\<lambda>s. untouched s0 d V s \<and> (found \<longrightarrow> visible s0 d))
      (if found \<and> policy = Skip_existing then st_ret ()
       else st_bind (path_exists X d) (\<lambda>found. if found \<and> policy = Fail_existing
           then st_throw (Exn PermanentSinkError ''file sink destination already exists'')
           else place_document X policy True d document))
      (\<lambda>_ s. tracks s0 d V s \<and> write_effect policy document d s0 s) (tracks s0 d V)" for found
  proof (cases "found \<and> policy = Skip_existing")
    case True
    then show ?thesis by (auto simp: untouched_def write_effect_def intro: st_hoare_ret)
  next
    case False
    have "st_hoare (\<lambda>s. untouched s0 d V s \<and> (found \<longrightarrow> visible s0 d)) (st_bind (path_exists X d) (\<lambda>found.
          if found \<and> policy = Fail_existing
           then st_throw (Exn PermanentSinkError ''file sink destination already exists'')
           else place_document X policy True d document))
        (\<lambda>_ s. tracks s0 d V s \<and> write_effect policy document d s0 s) (tracks s0 d V)"
      by (rule st_hoare_bind [OF st_hoare_weaken [OF look] last]) simp_all
    then show ?thesis by (subst if_not_P [OF False])
  qed
  show ?thesis unfolding write_record_def by (rule st_hoare_bind [OF look rest])
qed

lemma write_message_eq:
  assumes "file_target F m = Inr d"
  shows "write_message F m = st_then (safe_destination (fk_env F) d)
    (write_record (fk_env F) (fc_duplicate_policy (fk_config F)) (fc_fsync (fk_config F)) d (file_document F m))"
proof -
  obtain now e where m: "m = (now, e)" by fastforce
  with assms obtain fields where "file_record_for_envelope (fk_lib F) (fk_config F) e now = Inr fields"
    "relative_path_for_envelope (fk_lib F) (fk_config F) e = Inr d"
    by (auto simp: file_target_def elim!: rbindE)
  with m show ?thesis by (auto simp: file_document_def write_message_def st_bind_def st_lift_def fun_eq_iff)
qed

lemma fs_hoare_write_message:
  assumes "fc_fsync (fk_config F)" "truthful_links (fk_env F)" "rivals_in (fk_env F) d V"
    and "sound s0" "file_target F m = Inr d" "\<And>b. file_document F m = Inr b \<Longrightarrow> b \<in> V"
  shows "st_hoare (\<lambda>s. s = s0) (write_message F m)
    (\<lambda>_ s. tracks s0 d V s \<and> write_effect (fc_duplicate_policy (fk_config F)) (file_document F m) d s0 s) (tracks s0 d V)"
proof -
  note run = write_message_eq [OF assms(5)] and V = assms(6)
  have pre: "st_hoare (\<lambda>s. s = s0) (safe_destination (fk_env F) d) (\<lambda>_. untouched s0 d V) (tracks s0 d V)"
    by (rule st_hoare_weaken [OF fs_hoare_safe_destination [where ?s0.0 = s0 and V = V]])
      (auto simp: untouched_def tracks_refl assms(4))
  from st_hoare_then [OF pre fs_hoare_write_record [OF V assms(3,2)]] assms(1) show ?thesis unfolding run by simp
qed

lemma write_message_refused: "file_target F m = Inl err \<Longrightarrow> \<exists>err'. write_message F m s = (Inl err', s)"
  by (cases m) (auto simp: file_target_def write_message_def st_bind_def st_lift_def rbind_Inl_iff)

text \<open>The file sink fulfils the contract of a document sink.\<close>

interpretation fsink: document_sink write_message file_target file_documents file_fits
proof
  fix F :: file_sink and m :: timed and s s' :: fs and d :: path and r :: "unit res" and u :: unit and err :: exn
  show "file_target F m = Inl err \<Longrightarrow> \<exists>err'. write_message F m s = (Inl err', s)" by (rule write_message_refused)
  assume fits: "file_fits F" and s: "sound s" and d: "file_target F m = Inr d"
  have own: "b \<in> file_documents F d" if "file_document F m = Inr b" for b
    using that d unfolding file_documents_def by blast
  from fits have env: "fc_fsync (fk_config F)" "truthful_links (fk_env F)" "rivals_in (fk_env F) d (file_documents F d)"
    by (simp_all add: file_fits_def)
  note effect = fs_hoare_write_message [OF env s d own]
  show "write_message F m s = (r, s') \<Longrightarrow> tracks s d (file_documents F d) s'"
    using st_hoareD [OF effect refl] by (cases r) blast+
  show "write_message F m s = (Inr u, s')
      \<Longrightarrow> settled d s' \<or> visible s d \<and> fs_files s' d = fs_files s d \<and> fs_disk s' d = fs_disk s d"
    using st_hoareD(1) [OF effect refl] by (auto simp: write_effect_def)
qed

text \<open>Without \<open>Overwrite\<close> it replaces nothing.\<close>

lemma fs_hoare_write_message_invariant:
  assumes "\<And>d. file_target F m = Inr d \<Longrightarrow> placing_keeps P (fk_env F) (fc_duplicate_policy (fk_config F)) d"
    and "log_free P" "\<And>s q. P s \<Longrightarrow> P (s\<lparr>fs_dirs := (fs_dirs s)(q := Some False)\<rparr>)"
  shows "st_hoare P (write_message F m) (\<lambda>_. P) P"
proof (cases "file_target F m")
  case (Inl err)
  have "\<exists>err'. write_message F m s = (Inl err', s)" for s by (rule write_message_refused [OF Inl])
  then show ?thesis by (metis st_hoareI old.prod.inject sum.distinct(1))
next
  case (Inr d)
  let ?X = "fk_env F" and ?policy = "fc_duplicate_policy (fk_config F)"
  have look: "st_hoare P (path_exists ?X d) (\<lambda>_. P) P"
    using assms(2) by (auto simp: st_hoare_def path_exists_def st_then_def st_bind_def fs_step_def log_free_def split: option.split)
  have mkdir: "st_hoare P (make_directory ?X (path_dir d)) (\<lambda>_. P) P"
    unfolding make_directory_def by (rule fs_hoare_step) (auto intro: assms(2,3) split: option.split)
  have inside: "st_hoare P (check_inside ?X d) (\<lambda>_. P) P" by (simp add: st_hoare_def check_inside_def)
  have dest: "st_hoare P (safe_destination ?X d) (\<lambda>_. P) P"
    unfolding safe_destination_def
    by (rule st_hoare_then [OF st_hoare_catch [OF mkdir] inside]) (rule st_hoare_throw)
  note place = fs_hoare_place_invariant [OF assms(1) [OF Inr]]
  have last: "st_hoare P (if b then st_throw err else place_document ?X ?policy sync d doc) (\<lambda>_. P) P" for b err sync doc
    using place by (cases b) (simp_all add: st_hoare_throw)
  have first: "st_hoare P (if b then st_ret () else st_bind (path_exists ?X d)
      (\<lambda>found. if found \<and> a then st_throw err else place_document ?X ?policy sync d doc)) (\<lambda>_. P) P" for a b err sync doc
    using st_hoare_bind [OF look last] by (cases b) (simp_all add: st_hoare_ret)
  have rec: "st_hoare P (write_record ?X ?policy sync d doc) (\<lambda>_. P) P" for sync doc
    unfolding write_record_def by (rule st_hoare_bind [OF look first])
  from st_hoare_then [OF dest rec] show ?thesis unfolding write_message_eq [OF Inr] .
qed

lemma fs_hoare_write_message_keeps:
  assumes "fc_duplicate_policy (fk_config F) \<noteq> Overwrite"
  shows "st_hoare (\<lambda>s. fs_files s d' = Some f) (write_message F m) (\<lambda>_ s. fs_files s d' = Some f) (\<lambda>s. fs_files s d' = Some f)"
  by (rule fs_hoare_write_message_invariant) (simp_all add: placing_keeps_file [OF assms] log_free_def)

interpretation fonce: write_once_sink write_message file_target file_documents file_fits
  "\<lambda>F. fc_duplicate_policy (fk_config F) \<noteq> Overwrite"
proof
  fix F :: file_sink and m :: timed and s s' :: fs and d :: path and r :: "unit res" and f :: "bytes \<times> bool"
  assume "fc_duplicate_policy (fk_config F) \<noteq> Overwrite" "fs_files s d = Some f" "write_message F m s = (r, s')"
  with st_hoareD [OF fs_hoare_write_message_keeps] show "fs_files s' d = Some f" by (cases r) blast+
qed

section \<open>The sink as a store of documents\<close>

text \<open>The abstract view: which documents are stored under which names.\<close>

type_synonym store = "path \<Rightarrow> bytes option"

definition contents :: "fs \<Rightarrow> store" where
  "contents s = (\<lambda>d. map_option fst (fs_files s d))"

text \<open>Storing one document; \<open>None\<close> where the store refuses.\<close>

definition put :: "duplicate_policy \<Rightarrow> path \<Rightarrow> bytes res \<Rightarrow> store \<Rightarrow> store option" where
  "put policy d document m =
     (case m d of
        Some old \<Rightarrow>
          (case policy of
             Skip_existing \<Rightarrow> Some m
           | Fail_existing \<Rightarrow> None
           | Overwrite \<Rightarrow> (case document of Inr b \<Rightarrow> Some (m(d \<mapsto> b)) | Inl _ \<Rightarrow> None))
      | None \<Rightarrow> (case document of Inr b \<Rightarrow> Some (m(d \<mapsto> b)) | Inl _ \<Rightarrow> None))"

fun put_all :: "duplicate_policy \<Rightarrow> (path res \<times> bytes res) list \<Rightarrow> store \<Rightarrow> store option" where
  "put_all policy [] m = Some m"
| "put_all policy ((Inl err, document) # items) m = None"
| "put_all policy ((Inr d, document) # items) m = Option.bind (put policy d document m) (put_all policy items)"

lemma write_record_refuses_existing:
  "st_hoare (\<lambda>s. visible s d) (write_record X Fail_existing sync d document) (\<lambda>_ _. False) (\<lambda>_. True)"
proof -
  have look: "st_hoare (\<lambda>s. visible s d) (path_exists X d) (\<lambda>found s. found \<and> visible s d) (\<lambda>_. True)"
    by (auto simp: st_hoare_def path_exists_def st_then_def st_bind_def fs_step_def visible_def split: option.split)
  have "st_hoare (\<lambda>s. found \<and> visible s d) (if found \<and> Fail_existing = Skip_existing then st_ret ()
      else st_bind (path_exists X d) (\<lambda>found. if found \<and> Fail_existing = Fail_existing
        then st_throw (Exn PermanentSinkError ''file sink destination already exists'')
        else place_document X Fail_existing sync d document)) (\<lambda>_ _. False) (\<lambda>_. True)" for found
  proof -
    have "st_hoare (\<lambda>s. found' \<and> visible s d) (if found' \<and> Fail_existing = Fail_existing
        then st_throw (Exn PermanentSinkError ''file sink destination already exists'')
        else place_document X Fail_existing sync d document) (\<lambda>_ _. False) (\<lambda>_. True)" for found'
      by (cases found') (auto simp: st_hoare_def st_throw_def)
    from st_hoare_bind [OF look this] show ?thesis by (auto simp: st_hoare_def)
  qed
  with look show ?thesis unfolding write_record_def by (rule st_hoare_bind)
qed

lemma write_message_refuses_existing:
  assumes "fc_duplicate_policy (fk_config F) = Fail_existing" "file_target F m = Inr d" "write_message F m s = (Inr u, s')"
  shows "\<not> visible s d"
proof
  assume vis: "visible s d"
  note run = write_message_eq [OF assms(2), unfolded assms(1)]
  have "st_hoare (\<lambda>s. visible s d) (safe_destination (fk_env F) d) (\<lambda>_ s. visible s d) (\<lambda>_. True)"
  proof -
    have mkdir: "st_hoare (\<lambda>s. visible s d) (make_directory (fk_env F) (path_dir d)) (\<lambda>_ s. visible s d) (\<lambda>_. True)"
      unfolding make_directory_def by (rule fs_hoare_step) (auto simp: log_free_def visible_def split: option.split)
    have inside: "st_hoare (\<lambda>s. visible s d) (check_inside (fk_env F) d) (\<lambda>_ s. visible s d) (\<lambda>_. True)"
      by (simp add: st_hoare_def check_inside_def)
    show ?thesis unfolding safe_destination_def
      by (rule st_hoare_then [OF st_hoare_catch [OF mkdir] inside]) (simp add: st_hoare_throw)
  qed
  from st_hoare_then [OF this write_record_refuses_existing] have "st_hoare (\<lambda>s. visible s d) (write_message F m) (\<lambda>_ _. False) (\<lambda>_. True)"
    unfolding run .
  from st_hoareD(1) [OF this vis assms(3)] show False .
qed

text \<open>One write that returns is one \<open>put\<close>.\<close>

lemma write_message_put:
  assumes "file_fits F" "alone (fk_env F)" "sound s" "write_message F m s = (Inr u, s')"
  shows "\<exists>d. file_target F m = Inr d
    \<and> put (fc_duplicate_policy (fk_config F)) d (file_document F m) (contents s) = Some (contents s')"
proof -
  let ?policy = "fc_duplicate_policy (fk_config F)" and ?doc = "file_document F m"
  obtain d where d: "file_target F m = Inr d" using write_message_refused [of F m _ s] assms(4) by (cases "file_target F m") auto
  from assms(1) have env: "fc_fsync (fk_config F)" "truthful_links (fk_env F)" by (simp_all add: file_fits_def)
  define V where "V = {b. ?doc = Inr b}"
  have "st_hoare (\<lambda>s'. s' = s) (write_message F m) (\<lambda>_ s'. tracks s d V s' \<and> write_effect ?policy ?doc d s s') (tracks s d V)"
    by (rule fs_hoare_write_message [OF env alone_rivals_in [OF assms(2)] assms(3) d]) (simp add: V_def)
  from st_hoareD(1) [OF this refl assms(4)] have t: "tracks s d V s'" and e: "write_effect ?policy ?doc d s s'" by blast+
  have others: "contents s' = (contents s)(d := contents s' d)"
    using tracksD(2) [OF t] by (auto simp: contents_def fun_eq_iff)
  have kept: "fs_files s' d = fs_files s d" if "?policy \<noteq> Overwrite" "visible s d"
  proof -
    from that(2) obtain f where "fs_files s d = Some f" by (auto simp: visible_def)
    with fonce.write_preserves [OF that(1) this assms(4)] show ?thesis by simp
  qed
  have new: "\<exists>b. ?doc = Inr b \<and> fs_files s' d = Some (b, True)" if "\<not> visible s d"
    using e tracksD(4) [OF t] that by (auto simp: write_effect_def settled_def visible_def V_def)
  have "put ?policy d ?doc (contents s) = Some (contents s')"
  proof (cases "visible s d")
    case False
    from new [OF False] obtain b where "?doc = Inr b" "fs_files s' d = Some (b, True)" by blast
    moreover from False have "fs_files s d = None" unfolding visible_def by blast
    ultimately have "put ?policy d ?doc (contents s) = Some ((contents s)(d \<mapsto> b))" "contents s' d = Some b"
      by (simp_all add: put_def contents_def)
    with others show ?thesis by simp
  next
    case True
    then obtain f where f: "fs_files s d = Some f" by (auto simp: visible_def)
    show ?thesis
    proof (cases ?policy)
      case Skip_existing
      with kept True have "contents s' d = contents s d" by (simp add: contents_def)
      with others have "contents s' = contents s" by simp
      with Skip_existing f show ?thesis by (simp add: put_def contents_def [of s])
    next
      case Fail_existing
      with write_message_refuses_existing [OF _ d assms(4)] True show ?thesis by simp
    next
      case Overwrite
      with e obtain b where "?doc = Inr b" "fs_files s' d = Some (b, True)" by (auto simp: write_effect_def)
      with f Overwrite have "put ?policy d ?doc (contents s) = Some ((contents s)(d \<mapsto> b))" "contents s' d = Some b"
        by (simp_all add: put_def contents_def)
      with others show ?thesis by simp
    qed
  qed
  with d show ?thesis by blast
qed

text \<open>No write makes the entry of a partition directory durable: the root is never synced.\<close>

lemma fs_hoare_write_message_directory:
  assumes "fc_partition_by_subject (fk_config F)"
  shows "st_hoare (unsynced_directory q) (write_message F m) (\<lambda>_. unsynced_directory q) (unsynced_directory q)"
proof (rule fs_hoare_write_message_invariant)
  fix d assume "file_target F m = Inr d"
  with assms have "path_dir d \<noteq> None"
    by (cases m) (auto simp: file_target_def relative_path_for_envelope_def rmap_Inr_iff elim!: rbindE)
  then show "placing_keeps (unsynced_directory q) (fk_env F) (fc_duplicate_policy (fk_config F)) d"
    by (rule placing_keeps_directory)
qed (simp_all add: log_free_def unsynced_directory_def)

section \<open>Properties of the sink\<close>


text \<open>what acknowledging a batch promises.  When \<open>write_batch\<close> returns, every message of the batch has a
  visible document at its path; one that was not there before is a complete document of a message with
  that path; and where the name was fresh before the batch (nothing there, or a file whose directory entry
  was synced), the file outlives a crash unless its directory entry is lost.\<close>

theorem file_batch_acknowledged:
  assumes "file_fits F" "sound s" "file_write_batch F ms s = (Inr u, s')" "m \<in> set ms"
  shows "\<exists>d b. file_target F m = Inr d \<and> fs_files s' d = Some (b, True)
    \<and> (visible s d \<or> b \<in> file_documents F d)
    \<and> (fresh d s \<longrightarrow> set (crash_states s' d) \<subseteq> {Whole b, Absent})
    \<and> (fresh d s \<longrightarrow> path_dir d = None \<longrightarrow> set (crash_states s' d) = {Whole b})"
proof -
  note run = assms(3) [unfolded file_write_batch_def]
  note fin = fsink.batch_done [OF assms(1,2) run]
  from fin(1) [OF assms(4)] obtain d where d: "file_target F m = Inr d" and vis: "visible s' d" by blast
  have "sound s'" using fsink.batch_keeps(1) [OF assms(1) run assms(2)] .
  with vis obtain b where b: "fs_files s' d = Some (b, True)"
    using soundD(1) [of s' d] by (auto simp: visible_def)
  have doc: "visible s d \<or> b \<in> file_documents F d" using fsink.batch_contents [OF assms(1,2) run, of d] b
    by (cases "fs_files s d") (auto simp: visible_def)
  have safe: "set (fs_disk s' d) = {Whole b}" if "fresh d s"
    using fin(3) [OF that assms(4) d] b by (simp add: settled_def disk_of_def)
  have "fresh d s \<longrightarrow> set (crash_states s' d) \<subseteq> {Whole b, Absent}"
    using safe by (auto simp: crash_states_def split: option.split)
  moreover have "fresh d s \<longrightarrow> path_dir d = None \<longrightarrow> set (crash_states s' d) = {Whole b}"
    using safe by (simp add: crash_states_def)
  ultimately show ?thesis by (intro exI [of _ d] exI [of _ b] conjI d b doc)
qed

text \<open>Redelivery is idempotent.  Unless the operator chose \<open>overwrite\<close>, no batch, whatever its outcome,
  changes a file that is there: the first copy of a message is the one that is kept, and it is not
  written twice.\<close>

theorem file_redelivery_keeps_first:
  assumes "fc_duplicate_policy (fk_config F) \<noteq> Overwrite" "fs_files s d = Some f" "file_write_batch F ms s = (r, s')"
  shows "fs_files s' d = Some f"
  using fonce.batch_preserves [OF assms(1,2) assms(3) [unfolded file_write_batch_def]] .


text \<open>With the default layout, one directory per subject, acknowledging never makes a new directory
  durable.  Only the directory that holds a file is synced, never the root that holds the directory, so
  after any number of successful batches a crash may still take the directory and every message in it.\<close>

theorem partition_entry_never_synced:
  assumes "fc_partition_by_subject (fk_config F)" "fs_dirs s q \<noteq> Some True" "file_write_batch F ms s = (r, s')"
  shows "Absent \<in> set (crash_states s' (File (Some q) n))"
proof -
  have "st_hoare (unsynced_directory q) (file_write_batch F ms) (\<lambda>_. unsynced_directory q) (unsynced_directory q)"
    unfolding file_write_batch_def by (rule st_hoare_each) (rule fs_hoare_write_message_directory [OF assms(1)])
  moreover have "unsynced_directory q s" using assms(2) by (simp add: unsynced_directory_def)
  ultimately have "unsynced_directory q s'" by (cases r) (use assms(3) in \<open>auto dest: st_hoareD\<close>)
  then show ?thesis by (simp add: crash_states_def unsynced_directory_def)
qed

section \<open>Concrete runs\<close>

text \<open>The first attempt to sync the root fails.\<close>

definition first_sync_fails :: fs_env where
  "first_sync_fails = calm\<lparr>fo_fails := (\<lambda>history op.
     if op = Fsync_dir None \<and> list_all (\<lambda>(op', out). op' \<noteq> Fsync_dir None) history then Some (Exn OSError ''EIO'') else None)\<rparr>"

definition sample_file_sink :: "fs_env \<Rightarrow> duplicate_policy \<Rightarrow> bool \<Rightarrow> file_sink" where
  "sample_file_sink X policy parted =
     \<lparr>fk_lib = plain_lib, fk_gzip = (\<lambda>_ b. b),
      fk_config = \<lparr>fc_directory = ''out'', fc_filename_strategy = Stream_sequence, fc_duplicate_policy = policy,
        fc_payload_mode = Json_or_envelope, fc_extension = ''.json'', fc_compression = No_compression,
        fc_compression_level = 6, fc_include_metadata = False, fc_partition_by_subject = parted,
        fc_create_directory = True, fc_fsync = True, fc_pretty = False\<rparr>,
      fk_env = X\<rparr>"

definition sample_message :: "string \<Rightarrow> bytes \<Rightarrow> timed" where
  "sample_message strm body = (Aware 0 0, (sample_envelope ''orders.new'' 1 body)\<lparr>env_stream := Some strm\<rparr>)"

definition sample_path :: path where
  "sample_path = File None ''ORDERS-00000000000000000001.json''"

lemma sample_path: "file_target (sample_file_sink X policy False) (sample_message ''ORDERS'' [65]) = Inr sample_path"
  by code_simp

lemma sample_document:
  "\<exists>b. file_document (sample_file_sink X policy parted) (sample_message strm [65]) = Inr b"
  by (simp add: file_document_def sample_message_def sample_file_sink_def file_record_for_envelope_def
     payload_for_json_storage_def sample_envelope_def thaw_metadata_def normalize_payload_for_json_storage_def
     text_payload_def plain_lib_def load_standard_json_def raise_def payload_envelope_def record_bytes_def json_line_def
     json_dumps_def payload_info_def opt_str_def opt_int_def labels_to_storage_string_def text_key_def
     Let_def PAYLOAD_ENVELOPE_KEY_def PAYLOAD_VALUE_KEY_def PAYLOAD_ENVELOPE_VERSION_def normalise_labels_value_def)

text \<open>One write in an environment that lets everything pass, and one that fails to sync the root once.\<close>

lemmas run_defs = fs_run_defs safe_destination_def write_record_def

lemma calm_write:
  assumes "file_target F m = Inr d" "file_document F m = Inr b" "fk_env F = calm" "path_dir d = None"
    "fc_duplicate_policy (fk_config F) = Skip_existing" "fc_fsync (fk_config F)" "\<not> visible s d"
  shows "\<exists>s'. write_message F m s = (Inr (), s') \<and> fs_files s' = (fs_files s)(d := Some (b, True))"
proof -
  have "fs_files s d = None" using assms(7) unfolding visible_def by blast
  with assms show ?thesis by (simp add: write_message_eq run_defs calm_def visible_def Let_def)
qed

lemma skip_write:
  assumes "file_target F m = Inr d" "\<And>history op. op \<noteq> Fsync_dir None \<Longrightarrow> fo_fails (fk_env F) history op = None"
    "fo_outside (fk_env F) = (\<lambda>_ _. False)" "path_dir d = None"
    "fc_duplicate_policy (fk_config F) = Skip_existing" "fs_files s d = Some f"
  shows "\<exists>s'. write_message F m s = (Inr (), s') \<and> fs_files s' = fs_files s \<and> fs_disk s' = fs_disk s"
proof -
  from assms show ?thesis by (cases f) (simp add: write_message_eq run_defs visible_def Let_def)
qed

lemma first_sync_write:
  assumes "file_target F m = Inr d" "file_document F m = Inr b" "fk_env F = first_sync_fails" "path_dir d = None"
    "fc_duplicate_policy (fk_config F) = Skip_existing" "fc_fsync (fk_config F)"
  shows "\<exists>s'. write_message F m empty_fs
      = (Inl (Exn DestinationUnavailableError ''sink failed to write destination file''), s')
    \<and> fs_files s' d = Some (b, True) \<and> Absent \<in> set (fs_disk s' d)"
  using assms
  by (simp add: write_message_eq run_defs calm_def first_sync_fails_def empty_fs_def visible_def Let_def logged_def place_errors_def)

text \<open>
  A redelivered message is acknowledged although its file is not durable: the first attempt has linked
  the file and then failed to sync the directory; the second finds the file and returns at once.
\<close>

theorem redelivery_acknowledged_unsynced:
  "\<exists>s1 s2.
     file_write_batch (sample_file_sink first_sync_fails Skip_existing False) [sample_message ''ORDERS'' [65]] empty_fs
       = (Inl (Exn DestinationUnavailableError ''sink failed to write destination file''), s1)
     \<and> file_write_batch (sample_file_sink first_sync_fails Skip_existing False) [sample_message ''ORDERS'' [65]] s1 = (Inr (), s2)
     \<and> Absent \<in> set (crash_states s2 sample_path)"
proof -
  let ?F = "sample_file_sink first_sync_fails Skip_existing False" and ?m = "sample_message ''ORDERS'' [65]"
  obtain b where b: "file_document ?F ?m = Inr b" using sample_document by blast
  have "\<exists>s'. write_message ?F ?m empty_fs = (Inl (Exn DestinationUnavailableError ''sink failed to write destination file''), s')
      \<and> fs_files s' sample_path = Some (b, True) \<and> Absent \<in> set (fs_disk s' sample_path)"
    by (rule first_sync_write [OF sample_path b]) (simp_all add: sample_file_sink_def sample_path_def)
  then obtain s1 where first: "write_message ?F ?m empty_fs
      = (Inl (Exn DestinationUnavailableError ''sink failed to write destination file''), s1)"
    "fs_files s1 sample_path = Some (b, True)" "Absent \<in> set (fs_disk s1 sample_path)" by blast
  have "\<exists>s'. write_message ?F ?m s1 = (Inr (), s') \<and> fs_files s' = fs_files s1 \<and> fs_disk s' = fs_disk s1"
    by (rule skip_write [OF sample_path _ _ _ _ first(2)]) (simp_all add: sample_file_sink_def first_sync_fails_def calm_def sample_path_def)
  then obtain s2 where second: "write_message ?F ?m s1 = (Inr (), s2)" "fs_disk s2 = fs_disk s1" by blast
  from first second have "Absent \<in> set (crash_states s2 sample_path)" by (simp add: crash_states_def sample_path_def)
  with first(1) second(1) show ?thesis
    by (auto simp: file_write_batch_def st_then_def st_bind_def st_ret_def intro!: exI [of _ s1] exI [of _ s2])
qed

text \<open>
  Two streams whose names differ only in trailing punctuation share their files: the second message,
  whatever it holds, is skipped as a duplicate and acknowledged, and only the first is stored.
\<close>

theorem stream_names_collide:
  "\<exists>s. file_write_batch (sample_file_sink calm Skip_existing False)
        [sample_message ''ORDERS'' [65], sample_message ''ORDERS-'' [66]] empty_fs = (Inr (), s)
    \<and> file_target (sample_file_sink calm Skip_existing False) (sample_message ''ORDERS-'' [66]) = Inr sample_path
    \<and> {d. visible s d} = {sample_path}
    \<and> map_option Inr (contents s sample_path)
        = Some (file_document (sample_file_sink calm Skip_existing False) (sample_message ''ORDERS'' [65]))"
proof -
  let ?F = "sample_file_sink calm Skip_existing False" and ?m = "sample_message ''ORDERS'' [65]" and ?m' = "sample_message ''ORDERS-'' [66]"
  obtain b where b: "file_document ?F ?m = Inr b" using sample_document by blast
  have "\<exists>s'. write_message ?F ?m empty_fs = (Inr (), s') \<and> fs_files s' = (fs_files empty_fs)(sample_path := Some (b, True))"
    by (rule calm_write [OF sample_path b]) (simp_all add: sample_file_sink_def sample_path_def empty_fs_def visible_def)
  then obtain s1 where first: "write_message ?F ?m empty_fs = (Inr (), s1)"
    "fs_files s1 = (fs_files empty_fs)(sample_path := Some (b, True))" by blast
  have target: "file_target ?F ?m' = Inr sample_path" by code_simp
  have "\<exists>s'. write_message ?F ?m' s1 = (Inr (), s') \<and> fs_files s' = fs_files s1 \<and> fs_disk s' = fs_disk s1"
    by (rule skip_write [OF target, where f = "(b, True)"]) (simp_all add: sample_file_sink_def calm_def sample_path_def first(2))
  then obtain s2 where second: "write_message ?F ?m' s1 = (Inr (), s2)" "fs_files s2 = fs_files s1" by blast
  have "file_write_batch ?F [?m, ?m'] empty_fs = (Inr (), s2)"
    using first(1) second(1) by (simp add: file_write_batch_def st_then_def st_bind_def st_ret_def)
  moreover have "{d. visible s2 d} = {sample_path}" "map_option Inr (contents s2 sample_path) = Some (file_document ?F ?m)"
    using first(2) second(2) b by (auto simp: visible_def contents_def empty_fs_def split: if_splits)
  ultimately show ?thesis using target by blast
qed

section \<open>Witnesses\<close>

lemma calm_fits: "file_fits (sample_file_sink calm policy parted)"
  by (simp add: file_fits_def sample_file_sink_def truthful_links_def calm_def rivals_in_def)

lemma calm_run:
  "\<exists>s'. file_write_batch (sample_file_sink calm Skip_existing False) [sample_message ''ORDERS'' [65]] empty_fs = (Inr (), s')"
proof -
  obtain b where b: "file_document (sample_file_sink calm Skip_existing False) (sample_message ''ORDERS'' [65]) = Inr b"
    using sample_document by blast
  have "\<exists>s'. write_message (sample_file_sink calm Skip_existing False) (sample_message ''ORDERS'' [65]) empty_fs = (Inr (), s')
      \<and> fs_files s' = (fs_files empty_fs)(sample_path := Some (b, True))"
    by (rule calm_write [OF sample_path b]) (simp_all add: sample_file_sink_def sample_path_def empty_fs_def visible_def)
  then show ?thesis by (auto simp: file_write_batch_def st_then_def st_bind_def st_ret_def)
qed


lemma file_batch_acknowledged_witness:
  "\<exists>s' b. file_write_batch (sample_file_sink calm Skip_existing False) [sample_message ''ORDERS'' [65]] empty_fs = (Inr (), s')
    \<and> set (crash_states s' sample_path) = {Whole b}"
proof -
  obtain s' where run: "file_write_batch (sample_file_sink calm Skip_existing False) [sample_message ''ORDERS'' [65]] empty_fs = (Inr (), s')"
    using calm_run by blast
  from file_batch_acknowledged [OF calm_fits empty_untorn(2) run, of "sample_message ''ORDERS'' [65]"]
  obtain d b where "file_target (sample_file_sink calm Skip_existing False) (sample_message ''ORDERS'' [65]) = Inr d"
    "path_dir d = None \<longrightarrow> set (crash_states s' d) = {Whole b}"
    using empty_untorn(3) by auto
  with sample_path [of calm Skip_existing] have "d = sample_path" by simp
  with \<open>path_dir d = None \<longrightarrow> set (crash_states s' d) = {Whole b}\<close> have "set (crash_states s' sample_path) = {Whole b}"
    by (simp add: sample_path_def)
  with run show ?thesis by blast
qed

lemma file_redelivery_keeps_first_witness:
  "\<exists>r s'. file_write_batch (sample_file_sink calm Skip_existing False) [sample_message ''ORDERS'' [65]]
      (place sample_path (Some ([9], True)) empty_fs) = (r, s') \<and> fs_files s' sample_path = Some ([9], True)"
proof -
  obtain r s' where run: "file_write_batch (sample_file_sink calm Skip_existing False) [sample_message ''ORDERS'' [65]]
      (place sample_path (Some ([9], True)) empty_fs) = (r, s')" by fastforce
  from file_redelivery_keeps_first [OF _ _ run, of sample_path "([9], True)"] run show ?thesis
    by (auto simp: sample_file_sink_def)
qed


lemma partition_entry_never_synced_witness:
  "\<exists>r s'. file_write_batch (sample_file_sink calm Overwrite True) [sample_message ''ORDERS'' [65]] empty_fs = (r, s')
    \<and> Absent \<in> set (crash_states s' (File (Some ''orders.new'') (path_name sample_path)))"
proof -
  obtain r s' where run: "file_write_batch (sample_file_sink calm Overwrite True) [sample_message ''ORDERS'' [65]] empty_fs = (r, s')"
    by fastforce
  from partition_entry_never_synced [OF _ _ run, of "''orders.new''"] run show ?thesis
    by (auto simp: sample_file_sink_def empty_fs_def)
qed

text \<open>A library whose digest has the right shape.\<close>

definition hex_lib :: pylib where
  "hex_lib = plain_lib\<lparr>l_sha256 := (\<lambda>_. replicate 64 (CHR ''0''))\<rparr>"

definition hostile_subject :: nats_envelope where
  "hostile_subject = (sample_envelope ''../../etc/passwd'' 1 [65])\<lparr>env_stream := Some ''..''\<rparr>"

lemma relative_path_inside_witness:
  "\<exists>d. relative_path_for_envelope hex_lib (fk_config (sample_file_sink calm Overwrite True)) hostile_subject = Inr d
    \<and> CHR ''/'' \<notin> set (path_name d) \<and> path_dir d = Some ''etc_passwd''"
proof -
  have config: "make_file_config (fk_config (sample_file_sink calm Overwrite True)) None
      = Inr (fk_config (sample_file_sink calm Overwrite True))" by code_simp
  have "hex_char (CHR ''0'')" by code_simp
  then have sha: "hex_sha256 hex_lib" by (simp add: hex_sha256_def hex_lib_def list_all_iff)
  have d: "relative_path_for_envelope hex_lib (fk_config (sample_file_sink calm Overwrite True)) hostile_subject
      = Inr (File (Some ''etc_passwd'') (''stream-0000000000000000-00000000000000000001.json''))" by code_simp
  from relative_path_inside [OF sha config d] d show ?thesis by auto
qed

end
