(* ===== verification/Spool.thy ===== *)
theory Spool
  imports LocalFiles JsonFiles Metadata Encryption
begin

text \<open>
  The encrypted edge spool: its records (\<open>spool/record.py\<close>), configuration (\<open>spool/config.py\<close>) and
  sink (\<open>spool/sink.py\<close>).

  The conversions between timestamps and nanoseconds go through double-precision floats in the code;
  they are the functions \<open>sl_epoch_ns\<close> (\<open>int(value.timestamp() * 1_000_000_000)\<close>) and \<open>sl_from_ns\<close>
  (\<open>datetime.fromtimestamp(value / 1_000_000_000, tz=UTC)\<close>) of the library record below.
\<close>

record spool_lib =
  sl_lib :: pylib
  sl_epoch_ns :: "datetime \<Rightarrow> int"
  sl_from_ns :: "int \<Rightarrow> datetime res"
  sl_getenv :: getenv

section \<open>Configuration\<close>

datatype spool_duplicates = Spool_skip | Spool_fail
datatype drain_ordering = Drain_priority | Drain_fifo

record spool_config =
  sc_directory :: string
  sc_max_records :: int
  sc_max_bytes :: int
  sc_duplicate_policy :: spool_duplicates
  sc_payload_mode :: storage_mode
  sc_include_metadata :: bool
  sc_create_directory :: bool
  sc_fsync :: bool
  sc_pretty :: bool
  sc_drain_ordering :: drain_ordering
  sc_delete_after_replay :: bool
  sc_encryption :: encryption_config
  sc_allow_unencrypted :: bool

definition validate_spool_config :: "spool_config \<Rightarrow> unit res" where
  "validate_spool_config c =
     (if strip (sc_directory c) = [] then raise ValueError ''sink.directory must not be empty''
      else if \<not> (1 \<le> sc_max_records c \<and> sc_max_records c \<le> 10000000) then raise ValueError ''max_records out of range''
      else if \<not> (1048576 \<le> sc_max_bytes c \<and> sc_max_bytes c \<le> 1099511627776) then raise ValueError ''max_bytes out of range''
      else rbind (validate_key_sources (sc_encryption c)) (\<lambda>_.
        if \<not> ec_enabled (sc_encryption c) \<and> \<not> sc_allow_unencrypted c
        then raise ValueError ''spool sink requires sink.encryption.enabled=true'' else Inr ()))"

section \<open>Records\<close>

definition SPOOL_RECORD_SCHEMA :: string where "SPOOL_RECORD_SCHEMA = ''nats_sinks.spool.record.v1''"
definition SPOOL_WRAPPER_SCHEMA :: string where "SPOOL_WRAPPER_SCHEMA = ''nats_sinks.spool.wrapper.v1''"

definition PRIORITY_RANKS :: "(string \<times> int) list" where
  "PRIORITY_RANKS = [(''flash'', 0), (''immediate'', 1), (''urgent'', 2), (''high'', 3), (''routine'', 5),
     (''normal'', 5), (''medium'', 5), (''low'', 7), (''deferred'', 9)]"

definition DEFAULT_PRIORITY_RANK :: int where "DEFAULT_PRIORITY_RANK = 6"

definition priority_rank :: "string option \<Rightarrow> int" where
  "priority_rank priority =
     (case priority of
        None \<Rightarrow> DEFAULT_PRIORITY_RANK
      | Some p \<Rightarrow> (case map_of PRIORITY_RANKS (casefold (strip p)) of Some r \<Rightarrow> r | None \<Rightarrow> DEFAULT_PRIORITY_RANK))"

definition spool_b64_decode :: "pyval \<Rightarrow> bytes res" where
  "spool_b64_decode value =
     (case value of
        PStr s \<Rightarrow>
          (case ascii_b64decode s of
             Some bs \<Rightarrow> Inr bs
           | None \<Rightarrow> raise SerializationError ''spool record field is not valid base64'')
      | _ \<Rightarrow> raise SerializationError ''spool record field must be a base64 string'')"

definition epoch_ns :: "spool_lib \<Rightarrow> datetime option \<Rightarrow> int option" where
  "epoch_ns SL value = map_option (\<lambda>t. sl_epoch_ns SL (case t of Naive us \<Rightarrow> Aware us 0 | Aware us off \<Rightarrow> t)) value"

text \<open>\<open>isinstance(value, int)\<close>: \<open>bool\<close> is a subclass.\<close>

definition as_python_int :: "pyval \<Rightarrow> int option" where
  "as_python_int value = (case value of PInt i \<Rightarrow> Some i | PBool b \<Rightarrow> Some (if b then 1 else 0) | _ \<Rightarrow> None)"

definition epoch_ns_to_datetime :: "spool_lib \<Rightarrow> pyval \<Rightarrow> datetime option res" where
  "epoch_ns_to_datetime SL value =
     (if value = PNone then Inr None
      else (case as_python_int value of
          None \<Rightarrow> raise SerializationError ''spool record field must be an integer or null''
        | Some n \<Rightarrow> rmap Some (sl_from_ns SL n)))"

definition spool_filename_for_envelope :: "pylib \<Rightarrow> nats_envelope \<Rightarrow> string res" where
  "spool_filename_for_envelope L e =
     rmap (\<lambda>key. l_sha256 L (utf8_encode key) @ ''.spool.json'') (idempotency_key (l_sha256 L) e)"

primrec spool_format_text :: "original_format \<Rightarrow> string" where
  "spool_format_text Format_json = ''json''"
| "spool_format_text Format_text = ''text''"
| "spool_format_text Format_bytes = ''bytes''"

definition envelope_section :: "spool_lib \<Rightarrow> nats_envelope \<Rightarrow> pyval \<Rightarrow> pyval \<Rightarrow> pyval" where
  "envelope_section SL e mission custody =
     PDict [K ''subject'' (PStr (env_subject e)),
       K ''data_b64'' (PStr (b64encode (env_data e))),
       K ''headers'' (str_dict (env_headers e)),
       K ''stream'' (opt_str (env_stream e)),
       K ''consumer'' (opt_str (env_consumer e)),
       K ''stream_sequence'' (opt_int (env_stream_sequence e)),
       K ''consumer_sequence'' (opt_int (env_consumer_sequence e)),
       K ''timestamp_epoch_ns'' (opt_int (epoch_ns SL (env_timestamp e))),
       K ''message_id'' (opt_str (env_message_id e)),
       K ''redelivered'' (opt_bool (env_redelivered e)),
       K ''pending'' (opt_int (env_pending e)),
       K ''priority'' (opt_str (env_priority e)),
       K ''classification'' (opt_str (env_classification e)),
       K ''labels'' (PList (map PStr (env_labels e))),
       K ''labels_string'' (opt_str (labels_to_storage_string (l_str (sl_lib SL)) (PTuple (map PStr (env_labels e))))),
       K ''mission_metadata'' mission,
       K ''custody'' custody,
       K ''reply'' (opt_str (env_reply e)),
       K ''domain'' (opt_str (env_domain e)),
       K ''received_at_epoch_ns'' (opt_int (epoch_ns SL (Some (env_received_at e))))]"

definition build_plain_record :: "spool_lib \<Rightarrow> spool_config \<Rightarrow> nats_envelope \<Rightarrow> datetime \<Rightarrow> pyval res" where
  "build_plain_record SL c e spooled_at =
     (let L = sl_lib SL in
      rbind (payload_for_json_storage L e (sc_payload_mode c)) (\<lambda>np.
      rbind (idempotency_key (l_sha256 L) e) (\<lambda>key.
      rbind (thaw_metadata (l_str L) (env_mission_metadata e)) (\<lambda>mission.
      rbind (thaw_metadata (l_str L) (env_custody e)) (\<lambda>custody.
      rbind (if sc_include_metadata c then build_nats_metadata_snapshot L e spooled_at else Inr PNone) (\<lambda>metadata.
        Inr (PDict
          [K ''schema'' (PStr SPOOL_RECORD_SCHEMA),
           K ''schema_version'' (PInt 1),
           K ''spooled_at_epoch_ns'' (opt_int (epoch_ns SL (Some spooled_at))),
           K ''idempotency_key'' (PStr key),
           K ''envelope'' (envelope_section SL e mission custody),
           K ''payload_preview''
             (PDict [K ''value'' (np_value np),
               K ''original_format'' (PStr (spool_format_text (np_original_format np))),
               K ''wrapped'' (PBool (np_wrapped np)),
               K ''sha256'' (PStr (np_sha256 np)),
               K ''size_bytes'' (PInt (int (np_size_bytes np)))]),
           K ''metadata'' metadata])))))))"

text \<open>\<open>json.loads\<close> without hooks: a later duplicate of a key wins, and the non-standard constants pass.\<close>

fun plain_objects :: "pyval \<Rightarrow> pyval" where
  "plain_objects (PDict kvs) = PDict (dict_of_pairs (map (\<lambda>(k, v). (k, plain_objects v)) kvs))"
| "plain_objects (PList xs) = PList (map plain_objects xs)"
| "plain_objects v = v"

definition load_plain_json :: "json_scan \<Rightarrow> string \<Rightarrow> pyval res" where
  "load_plain_json scan text =
     (case scan text of
        None \<Rightarrow> raise (Subclass ''JSONDecodeError'' ValueError) ''invalid JSON''
      | Some v \<Rightarrow> Inr (plain_objects v))"

definition decode_text :: "pylib \<Rightarrow> bytes \<Rightarrow> string res" where
  "decode_text L b =
     (case l_decode L b of Some t \<Rightarrow> Inr t | None \<Rightarrow> raise (Subclass ''UnicodeDecodeError'' ValueError) ''invalid UTF-8'')"

text \<open>\<open>encryptor\<close>: the cached one the sink passes, present when encryption is enabled.\<close>

definition wrap_record :: "spool_lib \<Rightarrow> spool_config \<Rightarrow> payload_encryptor option \<Rightarrow> bytes \<Rightarrow> pyval \<Rightarrow> pyval res" where
  "wrap_record SL c encryptor nonce plain =
     (let L = sl_lib SL in
      case py_get plain ''idempotency_key'' of
        PStr (k # ks) \<Rightarrow>
          (let envelope = py_get plain ''envelope'';
               priority = (if is_mapping envelope then (case py_get envelope ''priority'' of PStr p \<Rightarrow> Some p | _ \<Rightarrow> None) else None);
               enabled = ec_enabled (sc_encryption c);
               common = [K ''schema'' (PStr SPOOL_WRAPPER_SCHEMA),
                 K ''schema_version'' (PInt 1),
                 K ''encrypted'' (PBool enabled),
                 K ''idempotency_key_sha256'' (PStr (l_sha256 L (utf8_encode (k # ks)))),
                 K ''priority_rank'' (PInt (priority_rank priority)),
                 K ''spooled_at_epoch_ns'' (py_get plain ''spooled_at_epoch_ns'')]
           in rbind (json_line (l_float_text L) False plain) (\<lambda>plain_bytes.
                if enabled
                then rbind (case encryptor of Some pe \<Rightarrow> Inr pe
                       | None \<Rightarrow> make_payload_encryptor (sl_getenv SL) (sc_encryption c)) (\<lambda>pe.
                     rbind (encrypt_bytes L pe nonce plain_bytes) (\<lambda>encrypted_bytes.
                     rbind (decode_text L encrypted_bytes) (\<lambda>text.
                     rbind (load_plain_json (l_scan L) text) (\<lambda>encrypted.
                       Inr (PDict (common @ [K ''encrypted_record'' encrypted]))))))
                else Inr (PDict (common @ [K ''record'' plain]))))
      | _ \<Rightarrow> raise SerializationError ''spool record idempotency key is missing'')"

definition loads_record_json :: "pylib \<Rightarrow> bytes \<Rightarrow> pyval res" where
  "loads_record_json L value =
     (case rbind (decode_text L value) (load_standard_json (l_scan L)) of
        Inl err \<Rightarrow> if isinstance err ValueError then raise SerializationError ''spool record is not valid JSON'' else Inl err
      | Inr loaded \<Rightarrow>
          (case loaded of PDict kvs \<Rightarrow> Inr loaded
             | _ \<Rightarrow> raise SerializationError ''spool record root must be a JSON object''))"

definition unwrap_record :: "spool_lib \<Rightarrow> encryption_config \<Rightarrow> pyval \<Rightarrow> pyval res" where
  "unwrap_record SL encryption wrapper =
     (let L = sl_lib SL in
      if py_get wrapper ''schema'' \<noteq> PStr SPOOL_WRAPPER_SCHEMA
      then raise SerializationError ''spool wrapper schema is not supported''
      else if \<not> equals_int (py_get wrapper ''schema_version'') 1
      then raise SerializationError ''spool wrapper version is not supported''
      else rbind
        (if py_get wrapper ''encrypted'' = PBool True
         then (if \<not> is_mapping (py_get wrapper ''encrypted_record'')
               then raise SerializationError ''encrypted spool wrapper is missing encrypted_record''
               else rbind (make_payload_encryptor (sl_getenv SL) encryption) (\<lambda>pe.
                 rbind (decrypt_payload L pe (py_get wrapper ''encrypted_record'')) (loads_record_json L)))
         else if py_get wrapper ''encrypted'' = PBool False
         then (if \<not> is_mapping (py_get wrapper ''record'')
               then raise SerializationError ''plaintext spool wrapper is missing record''
               else Inr (py_get wrapper ''record''))
         else raise SerializationError ''spool wrapper encrypted flag must be true or false'')
        (\<lambda>loaded.
          let restored = PDict (mapping_items loaded) in
          if py_get restored ''schema'' \<noteq> PStr SPOOL_RECORD_SCHEMA
          then raise SerializationError ''spool record schema is not supported''
          else if \<not> equals_int (py_get restored ''schema_version'') 1
          then raise SerializationError ''spool record version is not supported''
          else Inr restored))"

definition optional_str :: "pyval \<Rightarrow> string option res" where
  "optional_str value =
     (case value of PNone \<Rightarrow> Inr None | PStr s \<Rightarrow> Inr (Some s)
      | _ \<Rightarrow> raise SerializationError ''spool record field must be a string or null'')"

definition optional_int :: "pyval \<Rightarrow> int option res" where
  "optional_int value =
     (if value = PNone then Inr None
      else (case as_python_int value of Some i \<Rightarrow> Inr (Some i)
          | None \<Rightarrow> raise SerializationError ''spool record field must be an integer or null''))"

definition optional_bool :: "pyval \<Rightarrow> bool option res" where
  "optional_bool value =
     (case value of PNone \<Rightarrow> Inr None | PBool b \<Rightarrow> Inr (Some b)
      | _ \<Rightarrow> raise SerializationError ''spool record field must be a boolean or null'')"

definition optional_mapping :: "pyval \<Rightarrow> pyval res" where
  "optional_mapping value =
     (if value = PNone then Inr PNone
      else if is_mapping value then Inr (PDict (mapping_items value))
      else raise SerializationError ''spool record field must be an object or null'')"

text \<open>The keyword arguments of the rebuilt envelope, evaluated in the order of the call; \<open>now\<close> is \<open>datetime.now(UTC)\<close>.\<close>

definition envelope_from_plain_record :: "spool_lib \<Rightarrow> datetime \<Rightarrow> pyval \<Rightarrow> nats_envelope res" where
  "envelope_from_plain_record SL now plain =
     (let st = l_str (sl_lib SL); envelope = py_get plain ''envelope''; get = py_get envelope in
      if \<not> is_mapping envelope then raise SerializationError ''spool record envelope must be an object''
      else if (case get ''subject'' of PStr (c # cs) \<Rightarrow> False | _ \<Rightarrow> True)
      then raise SerializationError ''spool record envelope.subject must be a non-empty string''
      else if \<not> is_mapping (get ''headers'') then raise SerializationError ''spool record envelope.headers must be an object''
      else rbind (case get ''labels'' of PNone \<Rightarrow> Inr [] | PList xs \<Rightarrow> Inr xs | PTuple xs \<Rightarrow> Inr xs
               | _ \<Rightarrow> raise SerializationError ''spool record envelope.labels must be a list'') (\<lambda>labels.
        rbind (spool_b64_decode (get ''data_b64'')) (\<lambda>data.
        rbind (rmapM (\<lambda>(k, v). rbind (str_or_raise st k) (\<lambda>k'. rmap (Pair k') (str_or_raise st v))) (mapping_items (get ''headers''))) (\<lambda>headers.
        rbind (optional_str (get ''stream'')) (\<lambda>strm.
        rbind (optional_str (get ''consumer'')) (\<lambda>consumer.
        rbind (optional_int (get ''stream_sequence'')) (\<lambda>stream_sequence.
        rbind (optional_int (get ''consumer_sequence'')) (\<lambda>consumer_sequence.
        rbind (epoch_ns_to_datetime SL (get ''timestamp_epoch_ns'')) (\<lambda>timestamp.
        rbind (optional_str (get ''message_id'')) (\<lambda>message_id.
        rbind (optional_bool (get ''redelivered'')) (\<lambda>redelivered.
        rbind (optional_int (get ''pending'')) (\<lambda>pending.
        rbind (optional_str (get ''priority'')) (\<lambda>priority.
        rbind (optional_str (get ''classification'')) (\<lambda>classification.
        rbind (rmapM (str_or_raise st) labels) (\<lambda>labels.
        rbind (optional_mapping (get ''mission_metadata'')) (\<lambda>mission.
        rbind (optional_mapping (get ''custody'')) (\<lambda>custody.
        rbind (optional_str (get ''reply'')) (\<lambda>reply.
        rbind (optional_str (get ''domain'')) (\<lambda>domain.
        rbind (epoch_ns_to_datetime SL (get ''received_at_epoch_ns'')) (\<lambda>received_at.
          post_init st (header_items (dict_of_pairs headers))
            \<lparr>env_subject = (case get ''subject'' of PStr s \<Rightarrow> s | _ \<Rightarrow> []), env_data = data,
             env_headers = dict_of_pairs headers, env_stream = strm, env_consumer = consumer,
             env_stream_sequence = stream_sequence, env_consumer_sequence = consumer_sequence,
             env_timestamp = timestamp, env_message_id = message_id, env_redelivered = redelivered,
             env_pending = pending, env_priority = priority, env_classification = classification,
             env_labels = labels, env_mission_metadata = mission, env_security_labels = PNone, env_custody = custody,
             env_reply = reply, env_domain = domain, env_payload_present = True, env_payload_omitted = False,
             env_payload_omitted_reason = None, env_original_payload_size_bytes = None,
             env_payload_size_header_malformed = False,
             env_received_at = (case received_at of Some t \<Rightarrow> t | None \<Rightarrow> now),
             env_raw_metadata = PNone\<rparr>))))))))))))))))))))"

section \<open>The sink\<close>

record spool_sink =
  sk_lib :: spool_lib
  sk_config :: spool_config
  sk_env :: fs_env

text \<open>One message of a batch, with the time of its record and the nonce its encryption draws.\<close>

datatype spool_item = Item (it_now: datetime) (it_nonce: bytes) (it_envelope: nats_envelope)

definition spool_placing :: "spool_config \<Rightarrow> duplicate_policy" where
  "spool_placing c = (case sc_duplicate_policy c of Spool_skip \<Rightarrow> Skip_existing | Spool_fail \<Rightarrow> Fail_existing)"

definition spool_target :: "spool_sink \<Rightarrow> spool_item \<Rightarrow> path res" where
  "spool_target S m = rmap (File None) (spool_filename_for_envelope (sl_lib (sk_lib S)) (it_envelope m))"

text \<open>\<open>_encryptor()\<close>: built once; the environment variable it may read is taken not to change.\<close>

definition spool_encryptor :: "spool_sink \<Rightarrow> payload_encryptor option res" where
  "spool_encryptor S =
     (if \<not> ec_enabled (sc_encryption (sk_config S)) then Inr None
      else rmap Some (make_payload_encryptor (sl_getenv (sk_lib S)) (sc_encryption (sk_config S))))"

definition spool_wrapper :: "spool_sink \<Rightarrow> spool_item \<Rightarrow> pyval res" where
  "spool_wrapper S m =
     rbind (build_plain_record (sk_lib S) (sk_config S) (it_envelope m) (it_now m)) (\<lambda>plain.
     rbind (spool_encryptor S) (\<lambda>encryptor.
       wrap_record (sk_lib S) (sk_config S) encryptor (it_nonce m) plain))"

definition canonical_json_bytes :: "spool_sink \<Rightarrow> pyval \<Rightarrow> bytes res" where
  "canonical_json_bytes S wrapper = json_line (l_float_text (sl_lib (sk_lib S))) (sc_pretty (sk_config S)) wrapper"

text \<open>The first pass over a batch: nothing is written; duplicates are dropped or refused.\<close>

definition plan_message :: "spool_sink \<Rightarrow> spool_item \<Rightarrow> (path \<times> pyval \<times> nat) option fsm" where
  "plan_message S m =
     st_bind (st_lift (spool_target S m)) (\<lambda>d.
     st_then (check_inside (sk_env S) d)
     (st_bind (path_exists (sk_env S) d) (\<lambda>found.
       if found
       then (if sc_duplicate_policy (sk_config S) = Spool_skip then st_ret None
             else st_throw (Exn PermanentSinkError ''spool sink destination already exists''))
       else st_bind (st_lift (spool_wrapper S m)) (\<lambda>wrapper.
            st_bind (st_lift (canonical_json_bytes S wrapper)) (\<lambda>record_bytes.
              st_ret (Some (d, wrapper, length record_bytes)))))))"

fun plan_batch :: "spool_sink \<Rightarrow> spool_item list \<Rightarrow> (path \<times> pyval \<times> nat) list fsm" where
  "plan_batch S [] = st_ret []"
| "plan_batch S (m # ms) =
     st_bind (plan_message S m) (\<lambda>planned.
     st_bind (plan_batch S ms) (\<lambda>rest.
       st_ret (case planned of None \<Rightarrow> rest | Some p \<Rightarrow> p # rest)))"

fun sum_sizes :: "fs_env \<Rightarrow> path list \<Rightarrow> nat \<Rightarrow> nat \<Rightarrow> (nat \<times> nat) fsm" where
  "sum_sizes X [] records total_bytes = st_ret (records, total_bytes)"
| "sum_sizes X (d # ds) records total_bytes =
     st_bind (st_catch (file_size X d) (\<lambda>err. st_throw (if isinstance err OSError
         then Exn DestinationUnavailableError ''failed to inspect spool usage'' else err)))
       (\<lambda>n. sum_sizes X ds (records + 1) (total_bytes + n))"

definition SPOOL_SUFFIX :: string where "SPOOL_SUFFIX = ''.spool.json''"

definition spool_usage :: "fs_env \<Rightarrow> (nat \<times> nat) fsm" where
  "spool_usage X = st_bind (list_root X SPOOL_SUFFIX) (\<lambda>names. sum_sizes X names 0 0)"

definition write_wrapper :: "spool_sink \<Rightarrow> path \<times> pyval \<times> nat \<Rightarrow> unit fsm" where
  "write_wrapper S = (\<lambda>(d, wrapper, n).
     place_document (sk_env S) (spool_placing (sk_config S)) (sc_fsync (sk_config S)) d (canonical_json_bytes S wrapper))"

definition check_limits :: "spool_config \<Rightarrow> nat \<times> nat \<Rightarrow> (path \<times> pyval \<times> nat) list \<Rightarrow> unit res" where
  "check_limits c = (\<lambda>(records, total_bytes) planned.
     if sc_max_records c < int (records + length planned)
     then raise DestinationUnavailableError ''spool sink record limit has been reached''
     else if sc_max_bytes c < int (total_bytes + sum_list (map (\<lambda>(d, w, n). n) planned))
     then raise DestinationUnavailableError ''spool sink byte limit has been reached''
     else Inr ())"

definition spool_write_batch :: "spool_sink \<Rightarrow> spool_item list \<Rightarrow> unit fsm" where
  "spool_write_batch S messages =
     st_bind (plan_batch S messages) (\<lambda>planned.
       if planned = [] then st_ret ()
       else st_bind (spool_usage (sk_env S)) (\<lambda>usage.
         st_then (st_lift (check_limits (sk_config S) usage planned))
           (st_each (write_wrapper S) planned)))"

section \<open>The contract of a document sink\<close>

text \<open>What the second pass does for one planned message.\<close>

definition spool_commit :: "spool_sink \<Rightarrow> spool_item \<Rightarrow> unit fsm" where
  "spool_commit S m =
     st_bind (st_lift (spool_target S m)) (\<lambda>d.
     st_bind (st_lift (spool_wrapper S m)) (\<lambda>wrapper. write_wrapper S (d, wrapper, 0)))"

definition committed_target :: "spool_sink \<Rightarrow> spool_item \<Rightarrow> path res" where
  "committed_target S m = rbind (spool_target S m) (\<lambda>d. rmap (\<lambda>_. d) (spool_wrapper S m))"

definition spool_document :: "spool_sink \<Rightarrow> spool_item \<Rightarrow> bytes res" where
  "spool_document S m = rbind (spool_wrapper S m) (canonical_json_bytes S)"

definition spool_documents :: "spool_sink \<Rightarrow> path \<Rightarrow> bytes set" where
  "spool_documents S d = {b. \<exists>m. spool_target S m = Inr d \<and> spool_document S m = Inr b}"

definition spool_fits :: "spool_sink \<Rightarrow> bool" where
  "spool_fits S \<longleftrightarrow> sc_fsync (sk_config S) \<and> truthful_links (sk_env S)
     \<and> (\<forall>d. rivals_in (sk_env S) d (spool_documents S d))"

lemma spool_placing_once [simp]: "spool_placing c \<noteq> Overwrite"
  by (simp add: spool_placing_def split: spool_duplicates.split)

lemma spool_commit_eq:
  assumes "committed_target S m = Inr d"
  obtains wrapper where "spool_target S m = Inr d" "spool_wrapper S m = Inr wrapper"
    "spool_commit S m = place_document (sk_env S) (spool_placing (sk_config S)) (sc_fsync (sk_config S)) d (spool_document S m)"
proof -
  from assms obtain wrapper where "spool_target S m = Inr d" "spool_wrapper S m = Inr wrapper"
    by (auto simp: committed_target_def rmap_Inr_iff elim!: rbindE)
  with that show thesis
    by (simp add: spool_commit_def write_wrapper_def spool_document_def st_bind_def st_lift_def fun_eq_iff)
qed

lemma fs_hoare_spool_commit:
  assumes "sc_fsync (sk_config S)" "truthful_links (sk_env S)" "rivals_in (sk_env S) d V"
    and "sound s0" "committed_target S m = Inr d" "\<And>b. spool_document S m = Inr b \<Longrightarrow> b \<in> V"
  shows "st_hoare (\<lambda>s. s = s0) (spool_commit S m) (\<lambda>_ s. tracks s0 d V s \<and> settled d s) (tracks s0 d V)"
proof (rule spool_commit_eq [OF assms(5)])
  assume run: "spool_commit S m = place_document (sk_env S) (spool_placing (sk_config S)) (sc_fsync (sk_config S)) d (spool_document S m)"
  have "st_hoare (\<lambda>s. s = s0) (place_document (sk_env S) (spool_placing (sk_config S)) True d (spool_document S m))
      (\<lambda>_ s. tracks s0 d V s \<and> settled d s) (tracks s0 d V)"
    by (rule st_hoare_weaken [OF fs_hoare_place_document [where ?s0.0 = s0 and V = V, OF assms(6,3,2)]])
      (auto simp: tracks_refl assms(4))
  with assms(1) show ?thesis unfolding run by simp
qed

lemma spool_commit_refused: "committed_target S m = Inl err \<Longrightarrow> \<exists>err'. spool_commit S m s = (Inl err', s)"
  by (cases "spool_target S m"; cases "spool_wrapper S m")
    (auto simp: committed_target_def spool_commit_def st_bind_def st_lift_def)

interpretation spl: document_sink spool_commit committed_target spool_documents spool_fits
proof
  fix S :: spool_sink and m :: spool_item and s s' :: fs and d :: path and r :: "unit res" and u :: unit and err :: exn
  show "committed_target S m = Inl err \<Longrightarrow> \<exists>err'. spool_commit S m s = (Inl err', s)" by (rule spool_commit_refused)
  assume fits: "spool_fits S" and s: "sound s" and d: "committed_target S m = Inr d"
  have own: "b \<in> spool_documents S d" if "spool_document S m = Inr b" for b
    using that spool_commit_eq [OF d] unfolding spool_documents_def by blast
  from fits have env: "sc_fsync (sk_config S)" "truthful_links (sk_env S)" "rivals_in (sk_env S) d (spool_documents S d)"
    by (simp_all add: spool_fits_def)
  note effect = fs_hoare_spool_commit [OF env s d own]
  show "spool_commit S m s = (r, s') \<Longrightarrow> tracks s d (spool_documents S d) s'"
    using st_hoareD [OF effect refl] by (cases r) blast+
  show "spool_commit S m s = (Inr u, s')
      \<Longrightarrow> settled d s' \<or> visible s d \<and> fs_files s' d = fs_files s d \<and> fs_disk s' d = fs_disk s d"
    using st_hoareD(1) [OF effect refl] by blast
qed

interpretation sonce: write_once_sink spool_commit committed_target spool_documents spool_fits "\<lambda>S. True"
proof
  fix S :: spool_sink and m :: spool_item and s s' :: fs and d :: path and r :: "unit res" and f :: "bytes \<times> bool"
  assume pre: "fs_files s d = Some f" and run: "spool_commit S m s = (r, s')"
  show "fs_files s' d = Some f"
  proof (cases "committed_target S m")
    case (Inl err)
    with spool_commit_refused [of S m err s] run pre show ?thesis by auto
  next
    case (Inr d')
    have "st_hoare (\<lambda>s. fs_files s d = Some f) (spool_commit S m) (\<lambda>_ s. fs_files s d = Some f) (\<lambda>s. fs_files s d = Some f)"
    proof (rule spool_commit_eq [OF Inr])
      assume eq: "spool_commit S m = place_document (sk_env S) (spool_placing (sk_config S)) (sc_fsync (sk_config S)) d' (spool_document S m)"
      show ?thesis
        unfolding eq by (rule fs_hoare_place_invariant [OF placing_keeps_file [OF spool_placing_once]])
    qed
    from st_hoareD [OF this pre] run show ?thesis by (cases r) blast+
  qed
qed

section \<open>The two passes\<close>

text \<open>Planning reads only.\<close>

definition same_files :: "fs \<Rightarrow> fs \<Rightarrow> bool" where
  "same_files s s' \<longleftrightarrow> fs_files s' = fs_files s \<and> fs_disk s' = fs_disk s \<and> fs_dirs s' = fs_dirs s"

lemma same_filesD:
  "same_files s s' \<Longrightarrow> visible s' d \<longleftrightarrow> visible s d" "same_files s s' \<Longrightarrow> sound s' \<longleftrightarrow> sound s"
  "same_files s s' \<Longrightarrow> settled d s' \<longleftrightarrow> settled d s" "same_files s s' \<Longrightarrow> fresh d s' \<longleftrightarrow> fresh d s"
  "same_files s s' \<Longrightarrow> untorn s' \<longleftrightarrow> untorn s"
  by (simp_all add: same_files_def visible_def sound_def settled_def fresh_def untorn_def)

lemma same_files_trans: "same_files s s' \<Longrightarrow> same_files s' s'' \<Longrightarrow> same_files s s''"
  by (simp add: same_files_def)

lemma same_files_refl [simp]: "same_files s s" "same_files s (logged op out s') \<longleftrightarrow> same_files s s'"
  by (simp_all add: same_files_def)

definition planned_as :: "spool_sink \<Rightarrow> fs \<Rightarrow> spool_item \<Rightarrow> path \<times> pyval \<times> nat \<Rightarrow> bool" where
  "planned_as S s m = (\<lambda>(d, wrapper, n). spool_target S m = Inr d \<and> \<not> visible s d \<and> spool_wrapper S m = Inr wrapper
     \<and> (\<exists>b. canonical_json_bytes S wrapper = Inr b \<and> n = length b))"

lemma plan_message_run:
  assumes "plan_message S m s = (r, s')"
  shows "same_files s s'" "r = Inr None \<Longrightarrow> \<exists>d. spool_target S m = Inr d \<and> visible s d" "r = Inr (Some p) \<Longrightarrow> planned_as S s m p"
proof -
  show "same_files s s'"
    using assms
    by (auto simp: plan_message_def st_then_def st_bind_def st_lift_def st_ret_def st_throw_def check_inside_def
        path_exists_def fs_step_def split: sum.splits option.splits if_splits)
  show "\<exists>d. spool_target S m = Inr d \<and> visible s d" if "r = Inr None"
    using assms that
    by (auto simp: plan_message_def st_then_def st_bind_def st_lift_def st_ret_def st_throw_def check_inside_def
        path_exists_def fs_step_def visible_def split: sum.splits option.splits if_splits)
  show "planned_as S s m p" if "r = Inr (Some p)"
    using assms that
    by (auto simp: plan_message_def st_then_def st_bind_def st_lift_def st_ret_def st_throw_def check_inside_def
        path_exists_def fs_step_def visible_def planned_as_def split: sum.splits option.splits if_splits)
qed

lemma planned_as_same: "same_files s s' \<Longrightarrow> planned_as S s' m p \<longleftrightarrow> planned_as S s m p"
  by (simp add: planned_as_def same_filesD)

lemma plan_batch_run:
  assumes "plan_batch S ms s = (r, s')"
  shows "same_files s s' \<and> (\<forall>planned. r = Inr planned \<longrightarrow>
    (\<exists>ms'. set ms' \<subseteq> set ms \<and> list_all2 (planned_as S s) ms' planned
       \<and> (\<forall>m\<in>set ms. m \<in> set ms' \<or> (\<exists>d. spool_target S m = Inr d \<and> visible s d))))"
  using assms
proof (induction ms arbitrary: s r s')
  case Nil
  then show ?case by (auto simp: st_ret_def intro: exI [of _ "[]"])
next
  case (Cons m ms)
  obtain r1 s1 where one: "plan_message S m s = (r1, s1)" by fastforce
  note first = plan_message_run [OF one]
  show ?case
  proof (cases r1)
    case (Inl err)
    with one Cons.prems first(1) show ?thesis by (auto simp: st_bind_def)
  next
    case (Inr p)
    obtain r2 s2 where two: "plan_batch S ms s1 = (r2, s2)" by fastforce
    note rest = Cons.IH [OF two]
    have same: "same_files s s2" using same_files_trans [OF first(1)] rest by blast
    from one two Inr Cons.prems have s': "s' = s2" by (cases r2) (simp_all add: st_bind_def st_ret_def)
    show ?thesis
    proof (intro conjI allI impI)
      show "same_files s s'" using same s' by simp
      fix planned assume r: "r = Inr planned"
      with one two Inr Cons.prems obtain more where more: "r2 = Inr more"
        and planned: "planned = (case p of None \<Rightarrow> more | Some q \<Rightarrow> q # more)"
        by (cases r2) (simp_all add: st_bind_def st_ret_def)
      from rest more obtain ms' where ms': "set ms' \<subseteq> set ms" "list_all2 (planned_as S s) ms' more"
        and all: "\<forall>m\<in>set ms. m \<in> set ms' \<or> (\<exists>d. spool_target S m = Inr d \<and> visible s d)"
        using planned_as_same [OF first(1)] same_filesD(1) [OF first(1)] by (auto simp: list_all2_conv_all_nth)
      show "\<exists>ms'. set ms' \<subseteq> set (m # ms) \<and> list_all2 (planned_as S s) ms' planned
          \<and> (\<forall>m\<in>set (m # ms). m \<in> set ms' \<or> (\<exists>d. spool_target S m = Inr d \<and> visible s d))"
      proof (cases p)
        case None
        with ms' all planned first(2) Inr show ?thesis by (intro exI [of _ ms']) auto
      next
        case (Some q)
        with ms' all planned first(3) [of q] Inr show ?thesis by (intro exI [of _ "m # ms'"]) auto
      qed
    qed
  qed
qed

lemma write_wrapper_planned:
  assumes "planned_as S s m p" shows "write_wrapper S p = spool_commit S m" "committed_target S m = Inr (fst p)"
  using assms
  by (auto simp: planned_as_def write_wrapper_def spool_commit_def committed_target_def st_bind_def st_lift_def fun_eq_iff)

lemma write_planned:
  "list_all2 (planned_as S s) ms planned \<Longrightarrow> st_each (write_wrapper S) planned = st_each (spool_commit S) ms"
  by (induction ms planned rule: list_all2_induct) (simp_all add: write_wrapper_planned)

definition file_length :: "fs \<Rightarrow> path \<Rightarrow> nat" where
  "file_length s d = (case fs_files s d of Some (b, sync) \<Rightarrow> length b | None \<Rightarrow> 0)"

lemma sum_sizes_run:
  assumes "sum_sizes X ds k n s = (r, s')"
  shows "same_files s s' \<and> (\<forall>k' n'. r = Inr (k', n') \<longrightarrow> k' = k + length ds \<and> n' = n + sum_list (map (file_length s) ds))"
  using assms
proof (induction ds arbitrary: s k n)
  case (Cons d ds)
  obtain r1 s1 where one: "file_size X d s = (r1, s1)" by fastforce
  then have same: "same_files s s1" and len: "r1 = Inr l \<Longrightarrow> l = file_length s d" for l
    by (auto simp: file_size_def st_then_def st_bind_def fs_step_def file_length_def split: option.splits)
  show ?case
  proof (cases r1)
    case (Inl err)
    with one Cons.prems same show ?thesis by (auto simp: st_bind_def st_catch_def st_throw_def)
  next
    case (Inr l)
    with one Cons.prems have "sum_sizes X ds (k + 1) (n + l) s1 = (r, s')" by (simp add: st_bind_def st_catch_def)
    note rest = Cons.IH [OF this]
    have "file_length s1 = file_length s" using same by (simp add: file_length_def same_files_def fun_eq_iff)
    with rest same_files_trans [OF same] len [OF Inr] show ?thesis by auto
  qed
qed (auto simp: st_ret_def)

text \<open>The files the spool counts, and what they add up to.\<close>

definition spool_file :: "path \<Rightarrow> bool" where
  "spool_file d \<longleftrightarrow> path_dir d = None \<and> drop (length (path_name d) - length SPOOL_SUFFIX) (path_name d) = SPOOL_SUFFIX"

definition spool_files :: "fs \<Rightarrow> path set" where
  "spool_files s = {d. visible s d \<and> spool_file d}"

definition spool_bytes :: "fs \<Rightarrow> nat" where
  "spool_bytes s = (\<Sum>d\<in>spool_files s. file_length s d)"

text \<open>A directory listing comes up with every spool file, each once.\<close>

definition lists_all :: "fs_env \<Rightarrow> fs \<Rightarrow> bool" where
  "lists_all X s \<longleftrightarrow> (\<forall>history. distinct (fo_names X history) \<and> spool_files s \<subseteq> set (fo_names X history))"

lemma list_root_run:
  "list_root X SPOOL_SUFFIX s = (Inr (filter (\<lambda>d. d \<in> spool_files s) (fo_names X (fs_log s))), s)"
  by (simp add: list_root_def spool_files_def spool_file_def conj_ac)

lemma spool_usage_run:
  assumes "lists_all X s" "spool_usage X s = (Inr (k, n), s')"
  shows "k = card (spool_files s) \<and> n = spool_bytes s"
proof -
  let ?names = "filter (\<lambda>d. d \<in> spool_files s) (fo_names X (fs_log s))"
  have names: "distinct ?names" "set ?names = spool_files s"
    using assms(1) unfolding lists_all_def by auto
  from assms(2) have "sum_sizes X ?names 0 0 s = (Inr (k, n), s')" by (simp add: spool_usage_def st_bind_def list_root_run)
  from sum_sizes_run [OF this] have "k = length ?names" "n = sum_list (map (file_length s) ?names)" by auto
  with names show ?thesis
    unfolding spool_bytes_def by (metis distinct_card sum.distinct_set_conv_list)
qed

lemma spool_usage_same: "spool_usage X s = (r, s') \<Longrightarrow> same_files s s'"
  using sum_sizes_run [of X _ 0 0 s r s'] by (simp add: spool_usage_def st_bind_def list_root_run)

text \<open>One commit adds at most the planned document.\<close>

lemma spool_commit_growth:
  assumes "spool_fits S" "alone (sk_env S)" "sound s" "finite (spool_files s)" "planned_as S s0 m p"
    "spool_commit S m s = (r, s')"
  shows "finite (spool_files s') \<and> card (spool_files s') \<le> card (spool_files s) + 1
    \<and> spool_bytes s' \<le> spool_bytes s + snd (snd p)"
proof -
  obtain d w n where p: "p = (d, w, n)" by (cases p)
  from assms(5) obtain b where b: "spool_document S m = Inr b" "n = length b"
    by (auto simp: planned_as_def p spool_document_def)
  note d = write_wrapper_planned(2) [OF assms(5), unfolded p fst_conv]
  from assms(1) have env: "sc_fsync (sk_config S)" "truthful_links (sk_env S)" by (simp_all add: spool_fits_def)
  have "st_hoare (\<lambda>s1. s1 = s) (spool_commit S m) (\<lambda>_ s1. tracks s d {b} s1 \<and> settled d s1) (tracks s d {b})"
    by (rule fs_hoare_spool_commit [OF env alone_rivals_in [OF assms(2)] assms(3) d]) (simp add: b)
  from st_hoareD [OF this refl] assms(6) have t: "tracks s d {b} s'" by (cases r) blast+
  show ?thesis
  proof (cases "fs_files s' d = fs_files s d")
    case True
    with tracksD(2) [OF t] have "fs_files s' = fs_files s" by (metis ext)
    then have "spool_files s' = spool_files s" "file_length s' = file_length s"
      by (simp_all add: spool_files_def visible_def file_length_def fun_eq_iff)
    with assms(4) show ?thesis by (simp add: spool_bytes_def)
  next
    case False
    with tracksD(4) [OF t] have new: "fs_files s' d = Some (b, True)" by blast
    have "\<not> visible s d"
    proof
      assume "visible s d"
      then obtain f where "fs_files s d = Some f" by (auto simp: visible_def)
      with sonce.write_preserves [OF _ this assms(6)] False show False by simp
    qed
    then have out: "d \<notin> spool_files s" by (simp add: spool_files_def)
    have files: "spool_files s' \<subseteq> insert d (spool_files s)"
      using tracksD(2) [OF t] by (force simp: spool_files_def visible_def)
    have same: "file_length s' d' = file_length s d'" if "d' \<noteq> d" for d'
      using tracksD(2) [OF t that] by (simp add: file_length_def)
    have "spool_bytes s' \<le> (\<Sum>d'\<in>insert d (spool_files s). file_length s' d')"
      unfolding spool_bytes_def by (rule sum_mono2) (use files assms(4) in auto)
    also have "\<dots> = n + spool_bytes s"
    proof -
      have "(\<Sum>d'\<in>spool_files s. file_length s' d') = spool_bytes s"
        unfolding spool_bytes_def
      proof (rule sum.cong)
        fix d' assume "d' \<in> spool_files s"
        with out have "d' \<noteq> d" by blast
        then show "file_length s' d' = file_length s d'" by (rule same)
      qed simp
      with out assms(4) new b(2) show ?thesis by (simp add: file_length_def [of s' d])
    qed
    finally have "spool_bytes s' \<le> spool_bytes s + n" by simp
    moreover have "card (spool_files s') \<le> card (spool_files s) + 1"
      using card_mono [OF _ files] assms(4) out by simp
    moreover have "finite (spool_files s')" using files assms(4) finite_subset by blast
    ultimately show ?thesis by (simp add: p)
  qed
qed

lemma spool_commits_growth:
  assumes "spool_fits S" "alone (sk_env S)" "list_all2 (planned_as S s0) ms planned"
  shows "sound s \<Longrightarrow> finite (spool_files s) \<Longrightarrow> st_each (spool_commit S) ms s = (r, s') \<Longrightarrow>
    card (spool_files s') \<le> card (spool_files s) + length planned
    \<and> spool_bytes s' \<le> spool_bytes s + sum_list (map (\<lambda>(d, w, n). n) planned)"
  using assms(3)
proof (induction ms planned arbitrary: s rule: list_all2_induct)
  case (Cons m ms p planned)
  obtain r1 s1 where one: "spool_commit S m s = (r1, s1)" by fastforce
  note grow = spool_commit_growth [OF assms(1,2) Cons.prems(1,2) Cons.hyps(1) one]
  note s1 = spl.write_keeps(1) [OF assms(1) one Cons.prems(1)]
  have size: "snd (snd p) = (case p of (d, w, n) \<Rightarrow> n)" by (simp add: case_prod_beta)
  show ?case
  proof (cases r1)
    case (Inl err)
    with one Cons.prems(3) have "s' = s1" by (simp add: st_each_Cons_run del: st_each.simps)
    with grow size show ?thesis by simp
  next
    case (Inr u)
    with one Cons.prems(3) have "st_each (spool_commit S) ms s1 = (r, s')" by (simp add: st_each_Cons_run del: st_each.simps)
    from Cons.IH [OF s1 _ this] grow size show ?thesis by simp
  qed
qed (simp add: st_ret_def)

text \<open>A batch in one piece: planning, then either nothing, a refusal, or the commits.\<close>

lemma spool_write_batch_cases:
  assumes "spool_write_batch S ms s = (r, s')"
  obtains "same_files s s'" "r = Inr ()" "\<And>m. m \<in> set ms \<Longrightarrow> \<exists>d. spool_target S m = Inr d \<and> visible s d"
  | err where "same_files s s'" "r = Inl err"
  | ms' planned usage s1 where "same_files s s1" "list_all2 (planned_as S s) ms' planned"
      "\<And>m. m \<in> set ms \<Longrightarrow> m \<in> set ms' \<or> (\<exists>d. spool_target S m = Inr d \<and> visible s d)"
      "lists_all (sk_env S) s \<Longrightarrow> usage = (card (spool_files s), spool_bytes s)" "check_limits (sk_config S) usage planned = Inr ()"
      "st_each (spool_commit S) ms' s1 = (r, s')"
proof -
  obtain r0 s0 where plan: "plan_batch S ms s = (r0, s0)" by fastforce
  note run = plan_batch_run [OF plan]
  show thesis
  proof (cases r0)
    case (Inl err)
    with plan assms run that(2) [of err] show thesis by (simp add: spool_write_batch_def st_bind_def)
  next
    case (Inr planned)
    with run obtain ms' where ms': "list_all2 (planned_as S s) ms' planned"
      and all: "\<forall>m\<in>set ms. m \<in> set ms' \<or> (\<exists>d. spool_target S m = Inr d \<and> visible s d)" by blast
    show thesis
    proof (cases "planned = []")
      case True
      with ms' have "ms' = []" by simp
      with True plan Inr assms run all that(1) show thesis by (simp add: spool_write_batch_def st_bind_def st_ret_def)
    next
      case False
      obtain ru s1 where usage: "spool_usage (sk_env S) s0 = (ru, s1)" by fastforce
      have same: "same_files s s1" using run spool_usage_same [OF usage] same_files_trans by blast
      show thesis
      proof (cases ru)
        case (Inl err)
        with plan Inr False usage assms same that(2) [of err] show thesis by (simp add: spool_write_batch_def st_bind_def)
      next
        case inr: (Inr u)
        show thesis
        proof (cases "check_limits (sk_config S) u planned")
          case (Inl err)
          with plan Inr False usage inr assms same that(2) [of err] show thesis
            by (simp add: spool_write_batch_def st_bind_def st_then_def st_lift_def)
        next
          case ok: (Inr x)
          with plan Inr False usage inr assms have "st_each (write_wrapper S) planned s1 = (r, s')"
            by (simp add: spool_write_batch_def st_bind_def st_then_def st_lift_def)
          then have commits: "st_each (spool_commit S) ms' s1 = (r, s')" unfolding write_planned [OF ms'] .
          have "u = (card (spool_files s), spool_bytes s)" if "lists_all (sk_env S) s"
          proof -
            have eq: "spool_files s0 = spool_files s" "spool_bytes s0 = spool_bytes s"
              using run by (simp_all add: spool_files_def spool_bytes_def file_length_def visible_def same_files_def)
            with that have "lists_all (sk_env S) s0" by (simp add: lists_all_def)
            from spool_usage_run [OF this, of "fst u" "snd u"] usage inr eq show ?thesis by (cases u) simp
          qed
          show thesis
          proof (rule that(3) [OF same ms' _ _ _ commits])
            show "m \<in> set ms' \<or> (\<exists>d. spool_target S m = Inr d \<and> visible s d)" if "m \<in> set ms" for m
              using all that by blast
            show "u = (card (spool_files s), spool_bytes s)" if "lists_all (sk_env S) s"
              by (rule \<open>lists_all (sk_env S) s \<Longrightarrow> u = (card (spool_files s), spool_bytes s)\<close>) (rule that)
            show "check_limits (sk_config S) u planned = Inr ()" using ok by simp
          qed
        qed
      qed
    qed
  qed
qed

section \<open>Properties of the sink\<close>

text \<open>C9: the spool stays within its configured limits.  Whatever a batch holds and however its write ends,
  with duplicates, a failure half way or an exception, a spool within its record and byte limits is within
  them afterwards, provided directory listings are complete and no other process writes to the spool.\<close>

theorem spool_within_limits:
  assumes "spool_fits S" "alone (sk_env S)" "lists_all (sk_env S) s" "sound s" "finite (spool_files s)"
    and "int (card (spool_files s)) \<le> sc_max_records (sk_config S)" "int (spool_bytes s) \<le> sc_max_bytes (sk_config S)"
    and "spool_write_batch S ms s = (r, s')"
  shows "int (card (spool_files s')) \<le> sc_max_records (sk_config S) \<and> int (spool_bytes s') \<le> sc_max_bytes (sk_config S)"
proof -
  have same: "spool_files s1 = spool_files s \<and> spool_bytes s1 = spool_bytes s" if "same_files s s1" for s1
    using that by (simp add: spool_files_def spool_bytes_def file_length_def visible_def same_files_def)
  show ?thesis
  proof (rule spool_write_batch_cases [OF assms(8)])
    fix ms' planned usage s1
    assume s1: "same_files s s1" and planned: "list_all2 (planned_as S s) ms' planned"
      and usage: "lists_all (sk_env S) s \<Longrightarrow> usage = (card (spool_files s), spool_bytes s)"
      and limits: "check_limits (sk_config S) usage planned = Inr ()" and run: "st_each (spool_commit S) ms' s1 = (r, s')"
    from limits usage [OF assms(3)]
    have "int (card (spool_files s) + length planned) \<le> sc_max_records (sk_config S)"
      "int (spool_bytes s + sum_list (map (\<lambda>(d, w, n). n) planned)) \<le> sc_max_bytes (sk_config S)"
      by (auto simp: check_limits_def raise_def split: if_splits)
    moreover have "sound s1" "finite (spool_files s1)" using same_filesD(2) [OF s1] assms(4,5) same [OF s1] by simp_all
    note grow = spool_commits_growth [OF assms(1,2) planned this run]
    from grow same [OF s1] have "card (spool_files s') \<le> card (spool_files s) + length planned"
      "spool_bytes s' \<le> spool_bytes s + sum_list (map (\<lambda>(d, w, n). n) planned)" by simp_all
    ultimately show ?thesis by (meson of_nat_mono order.trans)
  next
    assume "same_files s s'"
    from same [OF this] assms(6,7) show ?thesis by simp
  next
    assume "same_files s s'"
    from same [OF this] assms(6,7) show ?thesis by simp
  qed
qed


section \<open>Witnesses\<close>

definition plain_spool_lib :: spool_lib where
  "plain_spool_lib = \<lparr>sl_lib = plain_lib, sl_epoch_ns = (\<lambda>t. case t of Naive us \<Rightarrow> us * 1000 | Aware us off \<Rightarrow> us * 1000),
     sl_from_ns = (\<lambda>n. Inr (Aware (n div 1000) 0)), sl_getenv = (\<lambda>_. None)\<rparr>"

definition no_encryption :: encryption_config where
  "no_encryption = gcm_config\<lparr>ec_enabled := False, ec_rules := []\<rparr>"

definition sample_spool :: "int \<Rightarrow> spool_sink" where
  "sample_spool max_bytes = \<lparr>sk_lib = plain_spool_lib,
     sk_config = \<lparr>sc_directory = ''spool'', sc_max_records = 1, sc_max_bytes = max_bytes, sc_duplicate_policy = Spool_skip,
       sc_payload_mode = Json_or_envelope, sc_include_metadata = False, sc_create_directory = True, sc_fsync = True,
       sc_pretty = False, sc_drain_ordering = Drain_priority, sc_delete_after_replay = True,
       sc_encryption = no_encryption, sc_allow_unencrypted = True\<rparr>,
     sk_env = calm\<rparr>"

definition spooled :: spool_item where
  "spooled = Item (Aware 7 0) [1] (sample_envelope ''orders.new'' 1 [65])"

lemma sample_spool_fits: "spool_fits (sample_spool n)" "alone (sk_env (sample_spool n))"
  by (simp_all add: spool_fits_def sample_spool_def truthful_links_def calm_def rivals_in_def alone_def)

lemma empty_spool_files: "spool_files empty_fs = {}" "spool_bytes empty_fs = 0" "lists_all (sk_env (sample_spool n)) empty_fs"
  by (simp_all add: spool_files_def visible_def empty_fs_def spool_bytes_def lists_all_def sample_spool_def calm_def)

lemma spool_within_limits_witness:
  "\<exists>r s'. spool_write_batch (sample_spool 1048576) [spooled, spooled] empty_fs = (r, s') \<and> card (spool_files s') \<le> 1"
proof -
  obtain r s' where run: "spool_write_batch (sample_spool 1048576) [spooled, spooled] empty_fs = (r, s')" by fastforce
  have "sc_max_records (sk_config (sample_spool 1048576)) = 1" "sc_max_bytes (sk_config (sample_spool 1048576)) = 1048576"
    by (simp_all add: sample_spool_def)
  with spool_within_limits [OF sample_spool_fits empty_spool_files(3) empty_untorn(2) _ _ _ run] run show ?thesis
    by (auto simp: empty_spool_files)
qed

lemma sample_wrapper: "\<exists>w b. \<forall>n. spool_wrapper (sample_spool n) spooled = Inr w \<and> canonical_json_bytes (sample_spool n) w = Inr b"
  by (simp add: spool_wrapper_def canonical_json_bytes_def sample_spool_def spooled_def build_plain_record_def plain_spool_lib_def
     payload_for_json_storage_def sample_envelope_def thaw_metadata_def normalize_payload_for_json_storage_def idempotency_key_def
     text_payload_def plain_lib_def load_standard_json_def raise_def payload_envelope_def json_line_def envelope_section_def
     json_dumps_def opt_str_def opt_int_def opt_bool_def labels_to_storage_string_def text_key_def epoch_ns_def str_dict_def
     header_items_def spool_encryptor_def no_encryption_def gcm_config_def wrap_record_def py_get_def
     Let_def PAYLOAD_ENVELOPE_KEY_def PAYLOAD_VALUE_KEY_def PAYLOAD_ENVELOPE_VERSION_def normalise_labels_value_def)

lemma sample_spool_target: "spool_target (sample_spool n) spooled = Inr (File None ''24.spool.json'')"
  by code_simp

text \<open>A spool whose byte limit is just met takes the message.\<close>

lemma sample_spool_run: "\<exists>n s'. spool_write_batch (sample_spool n) [spooled] empty_fs = (Inr (), s')"
proof -
  obtain w b where wb: "\<And>n. spool_wrapper (sample_spool n) spooled = Inr w" "\<And>n. canonical_json_bytes (sample_spool n) w = Inr b"
    using sample_wrapper by blast
  let ?S = "sample_spool (int (length b))"
  have fields: "sk_env ?S = calm" "sc_max_records (sk_config ?S) = 1" "sc_max_bytes (sk_config ?S) = int (length b)"
    "sc_fsync (sk_config ?S)" "spool_placing (sk_config ?S) = Skip_existing"
    by (simp_all add: sample_spool_def spool_placing_def)
  have "\<exists>s'. spool_write_batch ?S [spooled] empty_fs = (Inr (), s')"
    by (simp add: spool_write_batch_def plan_message_def sample_spool_target wb fields fs_run_defs calm_def empty_fs_def
        visible_def spool_usage_def list_root_def check_limits_def write_wrapper_def Let_def)
  then show ?thesis by blast
qed


end
