(* ===== verification/SpoolRoundtrip.thy ===== *)
theory SpoolRoundtrip
  imports Spool
begin

text \<open>
  What a spooled message is when it is read back (\<open>unwrap_record\<close>, \<open>envelope_from_plain_record\<close> of
  \<open>spool/record.py\<close>).  Files are written with sorted keys, so a reader gets every object with its
  members in key order.
\<close>

section \<open>Objects with sorted keys\<close>

lemma distinct_same_pairs:
  assumes "distinct (map fst xs)" "mset ys = mset xs" shows "distinct (map fst ys)"
  using assms by (metis mset_eq_imp_distinct_iff mset_map)

lemma map_of_same_pairs:
  assumes "distinct (map fst xs)" "mset ys = mset xs" shows "map_of ys = map_of xs"
proof
  fix k
  have set: "set ys = set xs" using assms(2) by (rule mset_eq_setD)
  note dist = distinct_same_pairs [OF assms]
  show "map_of ys k = map_of xs k"
  proof (cases "map_of xs k")
    case None
    then have "map_of ys k = None" using set by (simp add: map_of_eq_None_iff)
    with None show ?thesis by simp
  next
    case (Some v)
    then have "(k, v) \<in> set ys" using set map_of_SomeD by fastforce
    with dist Some show ?thesis by simp
  qed
qed

lemma py_get_sort_keys:
  assumes "distinct (map fst kvs)" shows "py_get (sort_keys (PDict kvs)) k = sort_keys (py_get (PDict kvs) k)"
proof -
  let ?f = "\<lambda>(k, v). case k of PStr s \<Rightarrow> s | _ \<Rightarrow> []" and ?g = "\<lambda>(k, v). (k, sort_keys v)"
  have "map_of (sort_key ?f (map ?g kvs)) = map_of (map ?g kvs)"
    by (rule map_of_same_pairs) (simp_all only: map_fst_pairs assms mset_sort)
  also have "\<dots> = (\<lambda>k. map_option sort_keys (map_of kvs k))" by (simp add: map_of_map fun_eq_iff)
  finally show ?thesis by (simp add: py_get_def split: option.split)
qed

lemma py_get_PDict: "py_get (PDict kvs) k = (case map_of kvs (PStr k) of None \<Rightarrow> PNone | Some v \<Rightarrow> v)"
  by (simp add: py_get_def)

lemma is_mapping_sort_keys [simp]: "is_mapping (sort_keys (PDict kvs))" "mapping_items (PDict kvs) = kvs"
  by simp_all

lemma sort_keys_atoms [simp]:
  "sort_keys (opt_str x) = opt_str x" "sort_keys (opt_int i) = opt_int i" "sort_keys (opt_bool b) = opt_bool b"
  "sort_keys (PList (map PStr ls)) = PList (map PStr ls)"
  by (simp_all add: opt_str_def opt_int_def opt_bool_def split: option.split)

lemma map_insort_key: "map g (insort_key (\<lambda>x. f (g x)) x xs) = insort_key f (g x) (map g xs)"
  by (induction xs) simp_all

lemma map_sort_key: "map g (sort_key (\<lambda>x. f (g x)) xs) = sort_key f (map g xs)"
  by (induction xs) (simp_all add: map_insort_key)

definition sorted_headers :: "headers \<Rightarrow> headers" where
  "sorted_headers hs = sort_key fst hs"

lemma sort_keys_headers: "sort_keys (str_dict hs) = str_dict (sorted_headers hs)"
proof -
  let ?f = "\<lambda>(k, v). case k of PStr s \<Rightarrow> s | _ \<Rightarrow> []" and ?g = "\<lambda>(k, v). (PStr k, PStr v)"
  have same: "(\<lambda>(k, v). (k, sort_keys v)) \<circ> ?g = ?g" by (auto simp: fun_eq_iff)
  have "map ?g (sort_key (\<lambda>x. ?f (?g x)) hs) = sort_key ?f (map ?g hs)" by (rule map_sort_key)
  moreover have "(\<lambda>x. ?f (?g x)) = fst" by (auto simp: fun_eq_iff)
  ultimately have "map ?g (sort_key fst hs) = sort_key ?f (map ?g hs)" by (simp only:)
  then show ?thesis by (simp add: str_dict_def header_items_def sorted_headers_def same)
qed

text \<open>No two headers differ only in case, so every lookup is independent of their order.\<close>

definition names_distinct :: "headers \<Rightarrow> bool" where
  "names_distinct hs \<longleftrightarrow> distinct (map (\<lambda>(k, v). lower k) hs) \<and> distinct (map (\<lambda>(k, v). casefold k) hs)"

lemma header_lookups:
  "case_insensitive_header hs name = map_of (map (\<lambda>(k, v). (lower k, v)) hs) (lower name)"
  "casefold_header hs name = map_of (map (\<lambda>(k, v). (casefold k, v)) hs) (casefold name)"
  by (induction hs) (auto split: if_splits)

lemma sorted_header_lookups:
  assumes "names_distinct hs"
  shows "case_insensitive_header (sorted_headers hs) name = case_insensitive_header hs name"
    "casefold_header (sorted_headers hs) name = casefold_header hs name"
proof -
  have "map_of (map (\<lambda>(k, v). (f k, v)) (sorted_headers hs)) = map_of (map (\<lambda>(k, v). (f k, v)) hs)"
    if "distinct (map (\<lambda>(k, v). f k) hs)" for f :: "string \<Rightarrow> string"
    by (rule map_of_same_pairs) (use that in \<open>simp_all add: sorted_headers_def comp_def case_prod_unfold\<close>)
  with assms show "case_insensitive_header (sorted_headers hs) name = case_insensitive_header hs name"
    "casefold_header (sorted_headers hs) name = casefold_header hs name"
    by (simp_all add: header_lookups names_distinct_def)
qed

lemma sorted_headers_normal: "headers_normal hs \<Longrightarrow> headers_normal (sorted_headers hs)"
  by (auto simp: headers_normal_def sorted_headers_def distinct_map)

lemma map_of_sorted_headers: "distinct (map fst hs) \<Longrightarrow> map_of (sorted_headers hs) = map_of hs"
  by (rule map_of_same_pairs) (simp_all add: sorted_headers_def)

text \<open>A JSON object kept frozen on the envelope, and what it is after sorting.\<close>

lemma thawed_sort_keys: "thawed v \<Longrightarrow> thawed (sort_keys v)"
proof (induction v)
  case (PDict kvs)
  let ?f = "\<lambda>(k, v). case k of PStr s \<Rightarrow> s | _ \<Rightarrow> []" and ?g = "\<lambda>(k, v). (k, sort_keys v)"
  have "distinct (map fst (sort_key ?f (map ?g kvs)))"
    by (rule distinct_same_pairs [of "map ?g kvs"]) (use PDict.prems in \<open>simp_all only: map_fst_pairs mset_sort thawed.simps\<close>)
  moreover have "\<forall>(k, v)\<in>set kvs. (\<exists>s. k = PStr s) \<and> thawed (sort_keys v)"
    using PDict by (fastforce simp: list_all_iff)
  ultimately show ?case by (auto simp: list_all_iff)
next
  case (PList xs)
  then show ?case by (auto simp: list_all_iff)
qed simp_all

definition metadata_object :: "pyval \<Rightarrow> bool" where
  "metadata_object v \<longleftrightarrow> v = PNone \<or> (\<exists>kvs. thawed (PDict kvs) \<and> v = frozen_of (PDict kvs))"

lemma metadata_object_cases:
  assumes "metadata_object v"
  obtains "v = PNone" "thaw_metadata st v = Inr PNone"
  | kvs where "thaw_metadata st v = Inr (PDict kvs)" "thawed (PDict kvs)" "v = frozen_of (PDict kvs)"
proof -
  from assms consider "v = PNone" | kvs where "thawed (PDict kvs)" "v = frozen_of (PDict kvs)"
    unfolding metadata_object_def by blast
  then show thesis
  proof cases
    case 1
    with that(1) show thesis by (simp add: thaw_metadata_def)
  next
    case 2
    with thaw_frozen_of [OF 2(1), of st] that(2) show thesis by (simp add: thaw_metadata_def)
  qed
qed

lemma restore_metadata:
  assumes "metadata_object v" "thaw_metadata st v = Inr w"
  shows "\<exists>u. optional_mapping (sort_keys w) = Inr u \<and> (\<exists>x. freeze_metadata st u = Inr x)"
proof (rule metadata_object_cases [OF assms(1), of st])
  assume "thaw_metadata st v = Inr PNone"
  with assms(2) show ?thesis by (simp add: optional_mapping_def freeze_metadata_def)
next
  fix kvs assume kvs: "thaw_metadata st v = Inr (PDict kvs)" "thawed (PDict kvs)"
  with assms(2) have "w = PDict kvs" by simp
  moreover have "optional_mapping (sort_keys (PDict kvs)) = Inr (sort_keys (PDict kvs))" by (simp add: optional_mapping_def)
  moreover have "freeze_metadata st (sort_keys (PDict kvs)) = Inr (frozen_of (sort_keys (PDict kvs)))"
    using freeze_thawed [OF thawed_sort_keys [OF kvs(2)], of st] by (simp add: freeze_metadata_def)
  ultimately show ?thesis by blast
qed

section \<open>Reading an envelope back\<close>

lemma section_distinct: "\<exists>kvs. envelope_section SL e mission custody = PDict kvs \<and> distinct (map fst kvs)"
  by (simp add: envelope_section_def)

lemma section_get: "py_get (sort_keys (envelope_section SL e mission custody)) k = sort_keys (py_get (envelope_section SL e mission custody) k)"
  using section_distinct [of SL e mission custody] py_get_sort_keys by metis

lemma section_mapping: "is_mapping (sort_keys (envelope_section SL e mission custody))"
  using section_distinct [of SL e mission custody] is_mapping_sort_keys by metis

lemma section_fields:
  "py_get (envelope_section SL e mission custody) ''subject'' = PStr (env_subject e)"
  "py_get (envelope_section SL e mission custody) ''data_b64'' = PStr (b64encode (env_data e))"
  "py_get (envelope_section SL e mission custody) ''headers'' = str_dict (env_headers e)"
  "py_get (envelope_section SL e mission custody) ''stream'' = opt_str (env_stream e)"
  "py_get (envelope_section SL e mission custody) ''consumer'' = opt_str (env_consumer e)"
  "py_get (envelope_section SL e mission custody) ''stream_sequence'' = opt_int (env_stream_sequence e)"
  "py_get (envelope_section SL e mission custody) ''consumer_sequence'' = opt_int (env_consumer_sequence e)"
  "py_get (envelope_section SL e mission custody) ''timestamp_epoch_ns'' = opt_int (epoch_ns SL (env_timestamp e))"
  "py_get (envelope_section SL e mission custody) ''message_id'' = opt_str (env_message_id e)"
  "py_get (envelope_section SL e mission custody) ''redelivered'' = opt_bool (env_redelivered e)"
  "py_get (envelope_section SL e mission custody) ''pending'' = opt_int (env_pending e)"
  "py_get (envelope_section SL e mission custody) ''priority'' = opt_str (env_priority e)"
  "py_get (envelope_section SL e mission custody) ''classification'' = opt_str (env_classification e)"
  "py_get (envelope_section SL e mission custody) ''labels'' = PList (map PStr (env_labels e))"
  "py_get (envelope_section SL e mission custody) ''mission_metadata'' = mission"
  "py_get (envelope_section SL e mission custody) ''custody'' = custody"
  "py_get (envelope_section SL e mission custody) ''reply'' = opt_str (env_reply e)"
  "py_get (envelope_section SL e mission custody) ''domain'' = opt_str (env_domain e)"
  "py_get (envelope_section SL e mission custody) ''received_at_epoch_ns'' = opt_int (epoch_ns SL (Some (env_received_at e)))"
  by (simp_all add: envelope_section_def py_get_def)

lemma optional_roundtrip [simp]:
  "optional_str (opt_str x) = Inr x" "optional_int (opt_int i) = Inr i" "optional_bool (opt_bool b) = Inr b"
  by (simp_all add: optional_str_def opt_str_def optional_int_def opt_int_def as_python_int_def optional_bool_def opt_bool_def
      split: option.split)

text \<open>The float conversions give the timestamps of this message back.\<close>

definition clock_exact :: "spool_lib \<Rightarrow> nats_envelope \<Rightarrow> bool" where
  "clock_exact SL e \<longleftrightarrow> (\<forall>t\<in>insert (env_received_at e) (set_option (env_timestamp e)).
     sl_from_ns SL (sl_epoch_ns SL t) = Inr t \<and> (\<exists>us off. t = Aware us off))"

lemma clock_roundtrip:
  assumes "clock_exact SL e"
  shows "epoch_ns_to_datetime SL (opt_int (epoch_ns SL (env_timestamp e))) = Inr (env_timestamp e)"
    "epoch_ns_to_datetime SL (opt_int (epoch_ns SL (Some (env_received_at e)))) = Inr (Some (env_received_at e))"
  using assms
  by (cases "env_timestamp e"; auto simp: clock_exact_def epoch_ns_to_datetime_def epoch_ns_def opt_int_def as_python_int_def)+

lemma headers_read_back:
  "rmapM (\<lambda>(k, v). rbind (str_or_raise st k) (\<lambda>k'. rmap (Pair k') (str_or_raise st v))) (header_items hs) = Inr hs"
  by (induction hs) (auto simp: header_items_def)

lemma labels_read_back: "rmapM (str_or_raise st) (map PStr ls) = Inr ls"
  by (induction ls) simp_all

text \<open>Whether the payload counts as omitted.\<close>

lemma presence_omitted:
  assumes "payload_presence st hs x = (p, om, r, orig, m)"
  shows "om = (env_payload_omitted x
    \<or> casefold_header hs ''Nats-Msg-Size'' \<noteq> None \<and> \<not> snd (parse_nats_msg_size (casefold_header hs ''Nats-Msg-Size'')) \<and> env_data x = [])"
  using assms
  by (auto simp: payload_presence_def presence_fields_def Let_def split: prod.splits if_splits)

text \<open>What a replayed message has in common with the spooled one: everything but the security labels.\<close>

definition restored :: "digest \<Rightarrow> nats_envelope \<Rightarrow> nats_envelope \<Rightarrow> bool" where
  "restored sha e e' \<longleftrightarrow> delivery e' = delivery e \<and> env_data e' = env_data e
     \<and> map_of (env_headers e') = map_of (env_headers e)
     \<and> env_timestamp e' = env_timestamp e \<and> env_received_at e' = env_received_at e
     \<and> env_message_id e' = env_message_id e \<and> env_redelivered e' = env_redelivered e \<and> env_pending e' = env_pending e
     \<and> env_priority e' = env_priority e \<and> env_classification e' = env_classification e \<and> env_labels e' = env_labels e
     \<and> env_reply e' = env_reply e \<and> env_domain e' = env_domain e
     \<and> (\<forall>key. idempotency_key sha e = Inr key \<longrightarrow> idempotency_key sha e' = Inr key)
     \<and> env_security_labels e' = PNone"

text \<open>Messages the spool can restore: in normal form, with metadata objects as the adapter builds them.\<close>

definition spoolable :: "spool_lib \<Rightarrow> nats_envelope \<Rightarrow> bool" where
  "spoolable SL e \<longleftrightarrow> normal_envelope (l_str (sl_lib SL)) e \<and> headers_normal (env_headers e) \<and> names_distinct (env_headers e)
     \<and> env_subject e \<noteq> [] \<and> metadata_object (env_mission_metadata e) \<and> metadata_object (env_custody e) \<and> clock_exact SL e"

lemma restored_key:
  assumes "delivery e' = delivery e" "env_data e' = env_data e" "env_message_id e' = env_message_id e"
    and "env_payload_omitted e' \<Longrightarrow> env_payload_omitted e" "idempotency_key sha e = Inr key"
  shows "idempotency_key sha e' = Inr key"
proof -
  have same: "env_stream e' = env_stream e" "env_stream_sequence e' = env_stream_sequence e" "env_subject e' = env_subject e"
    using assms(1) by (simp_all add: delivery_def)
  have "env_payload_omitted e' \<longrightarrow> env_payload_omitted e" using assms(4) by blast
  with assms(5) show ?thesis
    by (auto simp: idempotency_key_def same assms(2,3) raise_def split: option.splits list.splits if_splits)
qed

lemma restore_envelope:
  assumes "spoolable SL e"
    and "thaw_metadata (l_str (sl_lib SL)) (env_mission_metadata e) = Inr mission"
    and "thaw_metadata (l_str (sl_lib SL)) (env_custody e) = Inr custody"
    and "py_get plain ''envelope'' = sort_keys (envelope_section SL e mission custody)"
  shows "\<exists>e'. envelope_from_plain_record SL now plain = Inr e' \<and> restored sha e e'"
proof -
  let ?st = "l_str (sl_lib SL)" and ?hs = "sorted_headers (env_headers e)"
  from assms(1) have normal: "normal_envelope ?st e" and heads: "headers_normal (env_headers e)" "names_distinct (env_headers e)"
    and subj: "env_subject e \<noteq> []" and meta: "metadata_object (env_mission_metadata e)" "metadata_object (env_custody e)"
    and clock: "clock_exact SL e" by (simp_all add: spoolable_def)
  note fixed = normal_envelopeD [OF normal]
  have hs: "headers_normal ?hs" by (rule sorted_headers_normal [OF heads(1)])
  have dist: "dict_of_pairs ?hs = ?hs" using hs by (simp add: headers_normal_def dict_of_pairs_distinct)
  obtain u x where u: "optional_mapping (sort_keys mission) = Inr u" "freeze_metadata ?st u = Inr x"
    using restore_metadata [OF meta(1) assms(2)] by blast
  obtain v y where v: "optional_mapping (sort_keys custody) = Inr v" "freeze_metadata ?st v = Inr y"
    using restore_metadata [OF meta(2) assms(3)] by blast
  define base where "base = \<lparr>env_subject = env_subject e, env_data = env_data e, env_headers = ?hs, env_stream = env_stream e,
      env_consumer = env_consumer e, env_stream_sequence = env_stream_sequence e, env_consumer_sequence = env_consumer_sequence e,
      env_timestamp = env_timestamp e, env_message_id = env_message_id e, env_redelivered = env_redelivered e,
      env_pending = env_pending e, env_priority = env_priority e, env_classification = env_classification e,
      env_labels = env_labels e, env_mission_metadata = u, env_security_labels = PNone, env_custody = v,
      env_reply = env_reply e, env_domain = env_domain e, env_payload_present = True, env_payload_omitted = False,
      env_payload_omitted_reason = None, env_original_payload_size_bytes = None, env_payload_size_header_malformed = False,
      env_received_at = env_received_at e, env_raw_metadata = PNone\<rparr>"
  have "envelope_from_plain_record SL now plain = post_init ?st (header_items ?hs) base"
  proof -
    have labels: "map sort_keys (map PStr ls) = map PStr ls" for ls by simp
    have nonempty: "(case env_subject e of [] \<Rightarrow> True | c # cs \<Rightarrow> False) = False"
      using subj by (cases "env_subject e") simp_all
    have data: "spool_b64_decode (PStr (b64encode (env_data e))) = Inr (env_data e)"
      by (simp add: spool_b64_decode_def ascii_b64decode_def b64encode_ascii b64_roundtrip)
    have items: "is_mapping (str_dict hs) = True" "mapping_items (str_dict hs) = header_items hs" for hs
      by (simp_all add: str_dict_def)
    show ?thesis
      by (simp only: envelope_from_plain_record_def Let_def assms(4) section_mapping section_get section_fields sort_keys.simps
          sort_keys_atoms sort_keys_headers nonempty items headers_read_back labels labels_read_back data optional_roundtrip
          clock_roundtrip [OF clock] u(1) v(1) rbind_simps dist pyval.case option.case if_True if_False not_True_eq_False base_def)
  qed
  moreover obtain p om r orig m where pp: "payload_presence ?st ?hs base = (p, om, r, orig, m)"
    by (cases "payload_presence ?st ?hs base")
  moreover have "resolved_message_id ?hs (env_message_id e) = env_message_id e"
    using fixed(3) sorted_header_lookups(1) [OF heads(2)]
    by (cases "env_message_id e") (simp_all add: resolved_message_id_def)
  ultimately have run: "envelope_from_plain_record SL now plain = Inr (base\<lparr>env_payload_present := p, env_payload_omitted := om,
      env_payload_omitted_reason := r, env_original_payload_size_bytes := orig, env_payload_size_header_malformed := m,
      env_mission_metadata := x, env_custody := y\<rparr>)" (is "_ = Inr ?e'")
    using fixed(4-6) u(2) v(2) normalise_headers_fixed [OF hs]
    by (simp add: post_init_def base_def freeze_metadata_def [of _ PNone])
  have omitted: "env_payload_omitted e" if "om"
  proof -
    have "env_payload_omitted e = (env_payload_omitted e \<or> casefold_header (env_headers e) ''Nats-Msg-Size'' \<noteq> None
        \<and> \<not> snd (parse_nats_msg_size (casefold_header (env_headers e) ''Nats-Msg-Size'')) \<and> env_data e = [])"
      by (rule presence_omitted [OF fixed(2) [unfolded presence_of_def]])
    with presence_omitted [OF pp] that show ?thesis
      by (simp add: base_def sorted_header_lookups(2) [OF heads(2)])
  qed
  have "restored sha e ?e'"
  proof -
    have "delivery ?e' = delivery e" by (simp add: delivery_def base_def)
    moreover have "idempotency_key sha ?e' = Inr key" if "idempotency_key sha e = Inr key" for key
      by (rule restored_key [OF _ _ _ _ that]) (use omitted in \<open>simp_all add: base_def delivery_def\<close>)
    moreover have "map_of ?hs = map_of (env_headers e)"
      using heads(1) by (simp add: headers_normal_def map_of_sorted_headers)
    ultimately show ?thesis by (simp add: restored_def base_def)
  qed
  with run show ?thesis by blast
qed

section \<open>Loading a file\<close>

definition parse_wrapper :: "pylib \<Rightarrow> bytes \<Rightarrow> pyval res" where
  "parse_wrapper L b =
     (case rbind (decode_text L b) (load_plain_json (l_scan L)) of
        Inl err \<Rightarrow> if isinstance err ValueError then raise SerializationError ''spool file is not a valid wrapper'' else Inl err
      | Inr loaded \<Rightarrow> (case loaded of PDict kvs \<Rightarrow> Inr loaded
          | _ \<Rightarrow> raise SerializationError ''spool file wrapper must be a JSON object''))"

definition decode_envelope :: "spool_sink \<Rightarrow> datetime \<Rightarrow> bytes \<Rightarrow> nats_envelope res" where
  "decode_envelope S now b =
     rbind (parse_wrapper (sl_lib (sk_lib S)) b) (\<lambda>wrapper.
     rbind (unwrap_record (sk_lib S) (sc_encryption (sk_config S)) wrapper) (envelope_from_plain_record (sk_lib S) now))"

text \<open>The JSON reader gives back what was written, with the members of every object in key order.\<close>

definition reads_back :: "(string \<Rightarrow> pyval res) \<Rightarrow> pylib \<Rightarrow> pyval \<Rightarrow> bytes \<Rightarrow> bool" where
  "reads_back load L v b \<longleftrightarrow> rbind (decode_text L b) load = Inr (sort_keys v)"

text \<open>The cipher inverts itself on the record of this message, and the reader gives back both documents it sees.\<close>

definition cipher_reads_back :: "spool_sink \<Rightarrow> spool_item \<Rightarrow> bool" where
  "cipher_reads_back S m \<longleftrightarrow>
     (let L = sl_lib (sk_lib S) in
      \<forall>plain pe plain_bytes.
        build_plain_record (sk_lib S) (sk_config S) (it_envelope m) (it_now m) = Inr plain
        \<longrightarrow> make_payload_encryptor (sl_getenv (sk_lib S)) (sc_encryption (sk_config S)) = Inr pe
        \<longrightarrow> json_line (l_float_text L) False plain = Inr plain_bytes
        \<longrightarrow> aead_inverts L pe (it_nonce m) plain_bytes \<and> reads_back (load_standard_json (l_scan L)) L plain plain_bytes
          \<and> (\<forall>data c tag. encrypt_raw L pe (it_nonce m) plain_bytes = Inr (c, tag)
               \<longrightarrow> encrypt_bytes L pe (it_nonce m) plain_bytes = Inr data
               \<longrightarrow> reads_back (load_plain_json (l_scan L)) L
                     (encrypted_document (pe_config pe) (it_nonce m) c tag (l_sha256 L plain_bytes) (length plain_bytes)) data))"

lemma build_plain_record_cases:
  assumes "build_plain_record SL c e spooled_at = Inr plain"
  obtains kvs key mission custody where "plain = PDict kvs" "distinct (map fst kvs)"
    "py_get plain ''schema'' = PStr SPOOL_RECORD_SCHEMA" "py_get plain ''schema_version'' = PInt 1"
    "py_get plain ''envelope'' = envelope_section SL e mission custody"
    "thaw_metadata (l_str (sl_lib SL)) (env_mission_metadata e) = Inr mission"
    "thaw_metadata (l_str (sl_lib SL)) (env_custody e) = Inr custody"
proof -
  from assms obtain preview key mission custody metadata where
    parts: "thaw_metadata (l_str (sl_lib SL)) (env_mission_metadata e) = Inr mission"
      "thaw_metadata (l_str (sl_lib SL)) (env_custody e) = Inr custody"
    and plain: "plain = PDict
          [K ''schema'' (PStr SPOOL_RECORD_SCHEMA), K ''schema_version'' (PInt 1),
           K ''spooled_at_epoch_ns'' (opt_int (epoch_ns SL (Some spooled_at))), K ''idempotency_key'' (PStr key),
           K ''envelope'' (envelope_section SL e mission custody),
           K ''payload_preview'' preview, K ''metadata'' metadata]"
    by (auto simp: build_plain_record_def Let_def elim!: rbindE)
  show thesis by (rule that [OF plain _ _ _ _ parts]) (simp_all add: plain py_get_def)
qed

text \<open>Unwrapping the sorted form of a wrapper gives the sorted form of the record it was made from.\<close>

lemma unwrap_record_restores:
  assumes "build_plain_record SL c e now = Inr plain" "py_get wrapper ''schema'' = PStr SPOOL_WRAPPER_SCHEMA"
    and "py_get wrapper ''schema_version'' = PInt 1"
    and "py_get wrapper ''encrypted'' = PBool True \<and> is_mapping (py_get wrapper ''encrypted_record'')
        \<and> rbind (make_payload_encryptor (sl_getenv SL) enc) (\<lambda>pe. rbind (decrypt_payload (sl_lib SL) pe
            (py_get wrapper ''encrypted_record'')) (loads_record_json (sl_lib SL))) = Inr (sort_keys plain)
      \<or> py_get wrapper ''encrypted'' = PBool False \<and> py_get wrapper ''record'' = sort_keys plain"
  shows "unwrap_record SL enc wrapper = Inr (sort_keys plain)"
proof -
  obtain kvs where plain: "plain = PDict kvs" "distinct (map fst kvs)"
    "py_get plain ''schema'' = PStr SPOOL_RECORD_SCHEMA" "py_get plain ''schema_version'' = PInt 1"
    using build_plain_record_cases [OF assms(1)] by metis
  have gets: "py_get (sort_keys plain) ''schema'' = PStr SPOOL_RECORD_SCHEMA"
    "py_get (sort_keys plain) ''schema_version'' = PInt 1" "is_mapping (sort_keys plain)"
    "PDict (mapping_items (sort_keys plain)) = sort_keys plain"
    using plain py_get_sort_keys [OF plain(2)] by simp_all
  from assms(4) show ?thesis
    by (elim disjE) (simp_all add: unwrap_record_def Let_def assms(2,3) gets equals_int_def)
qed

lemma encrypted_members_sorted:
  "sort_keys (PDict [(PStr ENCRYPTED_PAYLOAD_KEY, PDict (encrypted_members c nonce ciphertext tag sha n))])
     = PDict [(PStr ENCRYPTED_PAYLOAD_KEY, PDict (encrypted_members c nonce ciphertext tag sha n))]"
proof -
  have "sort_key (\<lambda>(k, v). case k of PStr s \<Rightarrow> s | _ \<Rightarrow> [])
     [(PStr ''algorithm'', t3), (PStr ''ciphertext'', t7), (PStr ''ciphertext_encoding'', t8),
      (PStr ''key_id'', t4), (PStr ''nonce'', t5), (PStr ''nonce_size_bytes'', t6),
      (PStr ''plaintext_sha256'', t10), (PStr ''plaintext_size_bytes'', t11), (PStr ''schema'', t1),
      (PStr ''tag_length'', t9), (PStr ''version'', t2)]
   = [(PStr ''algorithm'', t3), (PStr ''ciphertext'', t7), (PStr ''ciphertext_encoding'', t8),
      (PStr ''key_id'', t4), (PStr ''nonce'', t5), (PStr ''nonce_size_bytes'', t6),
      (PStr ''plaintext_sha256'', t10), (PStr ''plaintext_size_bytes'', t11), (PStr ''schema'', t1),
      (PStr ''tag_length'', t9), (PStr ''version'', t2 :: pyval)]"
    for t1 t2 t3 t4 t5 t6 t7 t8 t9 t10 t11 by code_simp
  then show ?thesis by (simp add: encrypted_members_def)
qed

text \<open>The members a wrapper has beside the record.\<close>

lemma wrap_record_cases:
  assumes "wrap_record SL c encryptor nonce plain = Inr w"
  obtains "\<not> ec_enabled (sc_encryption c)" "py_get (sort_keys w) ''schema'' = PStr SPOOL_WRAPPER_SCHEMA"
      "py_get (sort_keys w) ''schema_version'' = PInt 1" "py_get (sort_keys w) ''encrypted'' = PBool False"
      "py_get (sort_keys w) ''record'' = sort_keys plain" "\<exists>kvs. sort_keys w = PDict kvs"
  | plain_bytes pe data written encrypted where "ec_enabled (sc_encryption c)"
      "py_get (sort_keys w) ''schema'' = PStr SPOOL_WRAPPER_SCHEMA"
      "py_get (sort_keys w) ''schema_version'' = PInt 1" "py_get (sort_keys w) ''encrypted'' = PBool True"
      "py_get (sort_keys w) ''encrypted_record'' = sort_keys encrypted" "\<exists>kvs. sort_keys w = PDict kvs"
      "json_line (l_float_text (sl_lib SL)) False plain = Inr plain_bytes"
      "(case encryptor of Some pe \<Rightarrow> Inr pe | None \<Rightarrow> make_payload_encryptor (sl_getenv SL) (sc_encryption c)) = Inr pe"
      "encrypt_bytes (sl_lib SL) pe nonce plain_bytes = Inr data" "decode_text (sl_lib SL) data = Inr written"
      "load_plain_json (l_scan (sl_lib SL)) written = Inr encrypted"
proof -
  obtain k ks where key: "py_get plain ''idempotency_key'' = PStr (k # ks)"
  proof (cases "py_get plain ''idempotency_key''")
    case (PStr s)
    with assms that show ?thesis by (cases s) (simp_all add: wrap_record_def raise_def Let_def)
  qed (use assms in \<open>simp_all add: wrap_record_def raise_def Let_def\<close>)
  have sorted: "py_get (sort_keys (PDict kvs)) n = sort_keys (py_get (PDict kvs) n)" if "distinct (map fst kvs)" for kvs n
    using py_get_sort_keys [OF that] .
  show thesis
  proof (cases "ec_enabled (sc_encryption c)")
    case False
    with assms obtain sha rank spt where w: "w = PDict [K ''schema'' (PStr SPOOL_WRAPPER_SCHEMA), K ''schema_version'' (PInt 1),
        K ''encrypted'' (PBool False), K ''idempotency_key_sha256'' sha, K ''priority_rank'' rank, K ''spooled_at_epoch_ns'' spt,
        K ''record'' plain]"
      by (auto simp: wrap_record_def key Let_def elim!: rbindE)
    show thesis
      by (rule that(1) [OF False]) (unfold w, simp_all add: sorted py_get_PDict del: sort_keys.simps(1), simp?)
  next
    case True
    with assms obtain sha rank spt plain_bytes pe data written encrypted where parts:
        "json_line (l_float_text (sl_lib SL)) False plain = Inr plain_bytes"
        "(case encryptor of Some pe \<Rightarrow> Inr pe | None \<Rightarrow> make_payload_encryptor (sl_getenv SL) (sc_encryption c)) = Inr pe"
        "encrypt_bytes (sl_lib SL) pe nonce plain_bytes = Inr data" "decode_text (sl_lib SL) data = Inr written"
        "load_plain_json (l_scan (sl_lib SL)) written = Inr encrypted"
      and w: "w = PDict [K ''schema'' (PStr SPOOL_WRAPPER_SCHEMA), K ''schema_version'' (PInt 1),
        K ''encrypted'' (PBool True), K ''idempotency_key_sha256'' sha, K ''priority_rank'' rank, K ''spooled_at_epoch_ns'' spt,
        K ''encrypted_record'' encrypted]"
      by (auto simp: wrap_record_def key Let_def elim!: rbindE)
    show thesis
      by (rule that(2) [OF True _ _ _ _ _ parts])
        (unfold w, simp_all add: sorted py_get_PDict del: sort_keys.simps(1), simp?)
  qed
qed

text \<open>What the spool wrote is read back as the record it was made from.\<close>

lemma spool_unwraps:
  assumes "spool_wrapper S m = Inr w"
    and "reads_back (load_plain_json (l_scan (sl_lib (sk_lib S)))) (sl_lib (sk_lib S)) w b"
    and "ec_enabled (sc_encryption (sk_config S)) \<Longrightarrow> cipher_reads_back S m"
  shows "\<exists>plain. build_plain_record (sk_lib S) (sk_config S) (it_envelope m) (it_now m) = Inr plain
    \<and> unwrap_record (sk_lib S) (sc_encryption (sk_config S)) (sort_keys w) = Inr (sort_keys plain)
    \<and> parse_wrapper (sl_lib (sk_lib S)) b = Inr (sort_keys w)"
proof -
  let ?SL = "sk_lib S" and ?L = "sl_lib (sk_lib S)" and ?enc = "sc_encryption (sk_config S)"
  from assms(1) obtain plain encryptor where
    plain: "build_plain_record ?SL (sk_config S) (it_envelope m) (it_now m) = Inr plain"
    and encryptor: "spool_encryptor S = Inr encryptor"
    and w: "wrap_record ?SL (sk_config S) encryptor (it_nonce m) plain = Inr w"
    by (auto simp: spool_wrapper_def elim!: rbindE)
  have unwrapped: "unwrap_record ?SL ?enc (sort_keys w) = Inr (sort_keys plain) \<and> (\<exists>kvs. sort_keys w = PDict kvs)"
  proof (rule wrap_record_cases [OF w])
    assume "py_get (sort_keys w) ''schema'' = PStr SPOOL_WRAPPER_SCHEMA" "py_get (sort_keys w) ''schema_version'' = PInt 1"
      "py_get (sort_keys w) ''encrypted'' = PBool False" "py_get (sort_keys w) ''record'' = sort_keys plain" "\<exists>kvs. sort_keys w = PDict kvs"
    then show ?thesis using unwrap_record_restores [OF plain] by blast
  next
    fix plain_bytes pe data written encrypted
    assume on: "ec_enabled ?enc" and head: "py_get (sort_keys w) ''schema'' = PStr SPOOL_WRAPPER_SCHEMA"
        "py_get (sort_keys w) ''schema_version'' = PInt 1" "py_get (sort_keys w) ''encrypted'' = PBool True"
      and enc: "py_get (sort_keys w) ''encrypted_record'' = sort_keys encrypted" and map: "\<exists>kvs. sort_keys w = PDict kvs"
      and bytes: "json_line (l_float_text ?L) False plain = Inr plain_bytes"
      and pe: "(case encryptor of Some pe \<Rightarrow> Inr pe | None \<Rightarrow> make_payload_encryptor (sl_getenv ?SL) ?enc) = Inr pe"
      and data: "encrypt_bytes ?L pe (it_nonce m) plain_bytes = Inr data" "decode_text ?L data = Inr written"
        "load_plain_json (l_scan ?L) written = Inr encrypted"
    from encryptor on pe have made: "make_payload_encryptor (sl_getenv ?SL) ?enc = Inr pe"
      by (auto simp: spool_encryptor_def rmap_Inr_iff)
    from data(1) obtain c tag where raw: "encrypt_raw ?L pe (it_nonce m) plain_bytes = Inr (c, tag)"
      by (auto simp: encrypt_bytes_def elim!: rbindE)
    let ?doc = "encrypted_document (pe_config pe) (it_nonce m) c tag (l_sha256 ?L plain_bytes) (length plain_bytes)"
    from assms(3) [OF on] plain made bytes raw data(1)
    have inv: "aead_inverts ?L pe (it_nonce m) plain_bytes" "reads_back (load_standard_json (l_scan ?L)) ?L plain plain_bytes"
      "reads_back (load_plain_json (l_scan ?L)) ?L ?doc data"
      unfolding cipher_reads_back_def Let_def by blast+
    from inv(3) data have "encrypted = sort_keys ?doc" by (simp add: reads_back_def)
    then have doc: "sort_keys encrypted = PDict [(PStr ENCRYPTED_PAYLOAD_KEY,
        PDict (encrypted_members (pe_config pe) (it_nonce m) c tag (l_sha256 ?L plain_bytes) (length plain_bytes)))]"
      using encrypted_members_sorted by (simp add: sort_keys_encrypted)
    have "load_encrypted_payload ?L (sort_keys encrypted) = Inr (PDict (encrypted_members (pe_config pe) (it_nonce m) c tag
        (l_sha256 ?L plain_bytes) (length plain_bytes)))"
      by (simp add: load_encrypted_payload_def doc py_get_def)
    from decrypt_members [OF this raw inv(1)] have "decrypt_payload ?L pe (sort_keys encrypted) = Inr plain_bytes" .
    moreover have "loads_record_json ?L plain_bytes = Inr (sort_keys plain)"
    proof -
      obtain kvs where "plain = PDict kvs" using build_plain_record_cases [OF plain] by metis
      with inv(2) show ?thesis by (simp add: loads_record_json_def reads_back_def)
    qed
    moreover have "is_mapping (sort_keys encrypted)" by (simp add: doc)
    ultimately show ?thesis using unwrap_record_restores [OF plain head(1,2), of ?enc] head(3) enc made map by simp
  qed
  have parsed: "parse_wrapper ?L b = Inr (sort_keys w)"
    using assms(2) unwrapped by (auto simp: parse_wrapper_def reads_back_def)
  with plain unwrapped show ?thesis by blast
qed

lemma restore_spooled:
  assumes "spoolable (sk_lib S) (it_envelope m)" "spool_wrapper S m = Inr w"
    and "reads_back (load_plain_json (l_scan (sl_lib (sk_lib S)))) (sl_lib (sk_lib S)) w b"
    and "ec_enabled (sc_encryption (sk_config S)) \<Longrightarrow> cipher_reads_back S m"
  shows "\<exists>e'. decode_envelope S now b = Inr e' \<and> restored (l_sha256 (sl_lib (sk_lib S))) (it_envelope m) e'"
proof -
  let ?SL = "sk_lib S" and ?L = "sl_lib (sk_lib S)"
  from spool_unwraps [OF assms(2-4)] obtain plain where
    plain: "build_plain_record ?SL (sk_config S) (it_envelope m) (it_now m) = Inr plain"
    and unwrapped: "unwrap_record ?SL (sc_encryption (sk_config S)) (sort_keys w) = Inr (sort_keys plain)"
    and parsed: "parse_wrapper ?L b = Inr (sort_keys w)" by blast
  obtain mission custody where parted: "py_get (sort_keys plain) ''envelope'' = sort_keys (envelope_section ?SL (it_envelope m) mission custody)"
    and meta: "thaw_metadata (l_str ?L) (env_mission_metadata (it_envelope m)) = Inr mission"
      "thaw_metadata (l_str ?L) (env_custody (it_envelope m)) = Inr custody"
    using build_plain_record_cases [OF plain] py_get_sort_keys by metis
  from restore_envelope [OF assms(1) meta parted, of now] parsed unwrapped show ?thesis
    by (simp add: decode_envelope_def)
qed


section \<open>Witness\<close>

text \<open>Reading without hooks changes nothing where no key occurs twice.\<close>

lemma plain_objects_thawed: "thawed v \<Longrightarrow> plain_objects v = v"
proof (induction v)
  case (PDict kvs)
  then have "map (\<lambda>(k, v). (k, plain_objects v)) kvs = kvs"
    by (auto simp: list_all_iff intro!: map_idI)
  with PDict.prems show ?case by (simp add: dict_of_pairs_distinct)
next
  case (PList xs)
  then show ?case by (auto simp: list_all_iff intro!: map_idI)
qed simp_all

definition restoring_spool :: "json_scan \<Rightarrow> spool_sink" where
  "restoring_spool scan = (let S = sample_spool 1048576 in
     S\<lparr>sk_lib := plain_spool_lib\<lparr>sl_lib := plain_lib\<lparr>l_scan := scan\<rparr>\<rparr>,
       sk_config := sk_config S\<lparr>sc_payload_mode := Bytes_envelope\<rparr>\<rparr>)"

definition normal_item :: spool_item where
  "normal_item = Item (Aware 7 0) [1] ((sample_envelope ''orders.new'' 1 [65])\<lparr>env_original_payload_size_bytes := Some 1\<rparr>)"

lemma restoring_wrapper: "\<exists>w. thawed w \<and> (\<forall>scan. spool_wrapper (restoring_spool scan) normal_item = Inr w)"
  by (simp add: spool_wrapper_def restoring_spool_def sample_spool_def normal_item_def build_plain_record_def plain_spool_lib_def
     payload_for_json_storage_def sample_envelope_def thaw_metadata_def normalize_payload_for_json_storage_def idempotency_key_def
     bytes_payload_def plain_lib_def payload_envelope_def json_line_def envelope_section_def
     json_dumps_def opt_str_def opt_int_def opt_bool_def labels_to_storage_string_def text_key_def epoch_ns_def str_dict_def
     header_items_def spool_encryptor_def no_encryption_def gcm_config_def wrap_record_def py_get_def
     Let_def PAYLOAD_ENVELOPE_KEY_def PAYLOAD_VALUE_KEY_def PAYLOAD_ENVELOPE_VERSION_def normalise_labels_value_def)

lemma normal_item_spoolable: "spoolable (sk_lib (restoring_spool scan)) (it_envelope normal_item)"
proof -
  have "normal_envelope st (it_envelope normal_item)" for st
    by (simp add: normal_envelope_def replace_envelope_def post_init_def normal_item_def sample_envelope_def header_items_def
        normalise_headers_def payload_presence_def parse_nats_msg_size_def presence_fields_def resolved_message_id_def
        normalise_metadata_value_def normalise_labels_value_def freeze_metadata_def opt_str_def str_or_def)
  then show ?thesis
    by (simp add: spoolable_def normal_item_def sample_envelope_def headers_normal_def names_distinct_def metadata_object_def
        clock_exact_def restoring_spool_def plain_spool_lib_def Let_def)
qed


end
