(* ===== verification/SpoolReplay.thy ===== *)
theory SpoolReplay
  imports SpoolRoundtrip
begin

text \<open>
  Replaying the spool into another sink (\<open>committed_entries\<close>, \<open>load_envelope\<close> and
  \<open>replay_spool_to_sink\<close> of \<open>spool/sink.py\<close>).  The target sink is the environment: what it raises, if
  anything, for the batch of one message it is offered, given what has happened before.
\<close>

section \<open>Committed entries\<close>

definition read_spool_file :: "spool_sink \<Rightarrow> path \<Rightarrow> bytes fsm" where
  "read_spool_file S d =
     st_catch (read_file (sk_env S) d) (\<lambda>err. st_throw (if isinstance err OSError
       then Exn SerializationError ''spool file is not a valid wrapper'' else err))"

definition load_wrapper :: "spool_sink \<Rightarrow> path \<Rightarrow> pyval fsm" where
  "load_wrapper S d = st_bind (read_spool_file S d) (\<lambda>b. st_lift (parse_wrapper (sl_lib (sk_lib S)) b))"

definition load_envelope :: "spool_sink \<Rightarrow> datetime \<Rightarrow> path \<Rightarrow> nats_envelope fsm" where
  "load_envelope S now d = st_bind (read_spool_file S d) (\<lambda>b. st_lift (decode_envelope S now b))"

record spool_entry =
  se_path :: path
  se_rank :: int
  se_at :: int

definition entry_of :: "path \<Rightarrow> pyval \<Rightarrow> spool_entry" where
  "entry_of d wrapper =
     \<lparr>se_path = d,
      se_rank = (case as_python_int (py_get wrapper ''priority_rank'') of Some i \<Rightarrow> i | None \<Rightarrow> 999),
      se_at = (case as_python_int (py_get wrapper ''spooled_at_epoch_ns'') of Some i \<Rightarrow> i | None \<Rightarrow> 0)\<rparr>"

text \<open>Sort keys are tuples, compared from the left; a key of two components has a constant third one.\<close>

datatype drain_key = Drain_key (dk_first: int) (dk_second: int) (dk_name: string)

instantiation drain_key :: linorder
begin

definition less_eq_drain_key :: "drain_key \<Rightarrow> drain_key \<Rightarrow> bool" where
  "less_eq_drain_key a b \<longleftrightarrow> dk_first a < dk_first b
     \<or> dk_first a = dk_first b \<and> (dk_second a < dk_second b \<or> dk_second a = dk_second b \<and> dk_name a \<le> dk_name b)"

definition less_drain_key :: "drain_key \<Rightarrow> drain_key \<Rightarrow> bool" where
  "less_drain_key a b \<longleftrightarrow> a \<le> b \<and> \<not> b \<le> a"

instance
  by standard (auto simp: less_eq_drain_key_def less_drain_key_def intro: drain_key.expand)

end

definition entry_key :: "drain_ordering \<Rightarrow> spool_entry \<Rightarrow> drain_key" where
  "entry_key drain e =
     (case drain of
        Drain_priority \<Rightarrow> Drain_key (se_rank e) (se_at e) []
      | Drain_fifo \<Rightarrow> Drain_key (se_at e) 0 (path_name (se_path e)))"

fun load_entries :: "spool_sink \<Rightarrow> path list \<Rightarrow> spool_entry list fsm" where
  "load_entries S [] = st_ret []"
| "load_entries S (d # ds) =
     st_bind (load_wrapper S d) (\<lambda>wrapper. st_bind (load_entries S ds) (\<lambda>entries. st_ret (entry_of d wrapper # entries)))"

definition committed_entries :: "spool_sink \<Rightarrow> spool_entry list fsm" where
  "committed_entries S =
     st_bind (list_root (sk_env S) SPOOL_SUFFIX) (\<lambda>names.
     st_bind (load_entries S names) (\<lambda>entries.
       st_ret (sort_key (entry_key (sc_drain_ordering (sk_config S))) entries)))"

section \<open>Replay\<close>

datatype replay_event = Offered path nats_envelope "exn option" | Removed path

record replay =
  rp_fs :: fs
  rp_events :: "replay_event list"

type_synonym replay_target = "replay_event list \<Rightarrow> nats_envelope \<Rightarrow> exn option"

record replay_result =
  rr_scanned :: nat
  rr_replayed :: nat
  rr_deleted :: nat
  rr_failed :: nat

text \<open>One round of the loop; the result is whether the file was deleted.\<close>

definition replay_entry ::
  "spool_sink \<Rightarrow> replay_target \<Rightarrow> (path \<Rightarrow> datetime) \<Rightarrow> path \<Rightarrow> replay \<Rightarrow> bool res \<times> replay" where
  "replay_entry S sink now d st =
     (case load_envelope S (now d) d (rp_fs st) of
        (Inl err, s1) \<Rightarrow> (Inl err, st\<lparr>rp_fs := s1\<rparr>)
      | (Inr e, s1) \<Rightarrow>
          (let answer = sink (rp_events st) e;
               st1 = \<lparr>rp_fs = s1, rp_events = rp_events st @ [Offered d e answer]\<rparr>
           in case answer of
                Some err \<Rightarrow> (Inl err, st1)
              | None \<Rightarrow>
                  if sc_delete_after_replay (sk_config S)
                  then (case remove_file (sk_env S) d s1 of
                      (Inl err, s2) \<Rightarrow> (Inl err, st1\<lparr>rp_fs := s2\<rparr>)
                    | (Inr _, s2) \<Rightarrow> (Inr True, \<lparr>rp_fs = s2, rp_events = rp_events st1 @ [Removed d]\<rparr>))
                  else (Inr False, st1)))"

fun replay_entries ::
  "spool_sink \<Rightarrow> replay_target \<Rightarrow> (path \<Rightarrow> datetime) \<Rightarrow> path list \<Rightarrow> nat \<Rightarrow> nat \<Rightarrow> replay \<Rightarrow> (nat \<times> nat) res \<times> replay" where
  "replay_entries S sink now [] replayed deleted st = (Inr (replayed, deleted), st)"
| "replay_entries S sink now (d # ds) replayed deleted st =
     (case replay_entry S sink now d st of
        (Inl err, st1) \<Rightarrow> (Inl err, st1)
      | (Inr gone, st1) \<Rightarrow>
          replay_entries S sink now ds (replayed + 1) (if gone then deleted + 1 else deleted) st1)"

text \<open>\<open>entries[:n]\<close>: a negative bound counts from the end.\<close>

definition py_prefix :: "int option \<Rightarrow> 'a list \<Rightarrow> 'a list" where
  "py_prefix limit xs =
     (case limit of
        None \<Rightarrow> xs
      | Some n \<Rightarrow> if n < 0 then take (length xs - nat (- n)) xs else take (nat n) xs)"

definition replay_spool_to_sink ::
  "spool_sink \<Rightarrow> replay_target \<Rightarrow> (path \<Rightarrow> datetime) \<Rightarrow> int option \<Rightarrow> replay \<Rightarrow> replay_result res \<times> replay" where
  "replay_spool_to_sink S sink now max_records st =
     (case committed_entries S (rp_fs st) of
        (Inl err, s1) \<Rightarrow> (Inl err, st\<lparr>rp_fs := s1\<rparr>)
      | (Inr entries, s1) \<Rightarrow>
          (let chosen = py_prefix max_records entries in
           case replay_entries S sink now (map se_path chosen) 0 0 (st\<lparr>rp_fs := s1\<rparr>) of
             (Inl err, st2) \<Rightarrow> (Inl err, st2)
           | (Inr (replayed, deleted), st2) \<Rightarrow>
               (Inr \<lparr>rr_scanned = length chosen, rr_replayed = replayed, rr_deleted = deleted, rr_failed = 0\<rparr>, st2)))"

section \<open>What a replay does to the spool\<close>

lemma read_spool_file_run:
  assumes "read_spool_file S d s = (r, s')"
  shows "same_files s s'" "r = Inr b \<Longrightarrow> \<exists>sync. fs_files s d = Some (b, sync)"
  using assms
  by (auto simp: read_spool_file_def read_file_def st_catch_def st_then_def st_bind_def fs_step_def st_throw_def
      split: option.splits prod.splits sum.splits)

lemma load_run:
  "load_wrapper S d s = (r, s') \<Longrightarrow> same_files s s' \<and> (\<forall>w. r = Inr w \<longrightarrow>
     (\<exists>b sync. fs_files s d = Some (b, sync) \<and> parse_wrapper (sl_lib (sk_lib S)) b = Inr w))"
  "load_envelope S now d s = (r', s') \<Longrightarrow> same_files s s' \<and> (\<forall>e. r' = Inr e \<longrightarrow>
     (\<exists>b sync. fs_files s d = Some (b, sync) \<and> decode_envelope S now b = Inr e))"
  by (auto simp: load_wrapper_def load_envelope_def st_bind_def st_lift_def dest: read_spool_file_run
      split: prod.splits sum.splits)

text \<open>The events a run adds, the files offered in them, and how the files change.\<close>

definition offered :: "replay_event list \<Rightarrow> path list" where
  "offered evs = List.map_filter (\<lambda>ev. case ev of Offered d e out \<Rightarrow> Some d | _ \<Rightarrow> None) evs"

lemma offered_simps [simp]:
  "offered [] = []" "offered (evs @ evs') = offered evs @ offered evs'"
  "offered (Offered d e out # evs) = d # offered evs" "offered (Removed d # evs) = offered evs"
  by (simp_all add: offered_def map_filter_def)

definition delivered_file :: "spool_sink \<Rightarrow> (path \<Rightarrow> datetime) \<Rightarrow> replay_event list \<Rightarrow> path \<Rightarrow> (bytes \<times> bool) option \<Rightarrow> bool" where
  "delivered_file S now evs d f \<longleftrightarrow> sc_delete_after_replay (sk_config S)
     \<and> (\<exists>b sync e. f = Some (b, sync) \<and> decode_envelope S (now d) b = Inr e \<and> Offered d e None \<in> set evs)"

definition drained :: "spool_sink \<Rightarrow> (path \<Rightarrow> datetime) \<Rightarrow> replay_event list \<Rightarrow> fs \<Rightarrow> fs \<Rightarrow> bool" where
  "drained S now evs s s' \<longleftrightarrow> (\<forall>d. fs_files s' d = fs_files s d
     \<or> fs_files s' d = None \<and> delivered_file S now evs d (fs_files s d))"

lemma drained_same: "same_files s s' \<Longrightarrow> drained S now evs s s'"
  by (simp add: drained_def same_files_def)

lemma delivered_file_mono: "delivered_file S now evs d f \<Longrightarrow> set evs \<subseteq> set evs' \<Longrightarrow> delivered_file S now evs' d f"
  unfolding delivered_file_def by blast

lemma drained_trans:
  assumes "drained S now evs s s1" "drained S now evs' s1 s2" shows "drained S now (evs @ evs') s s2"
proof -
  have "fs_files s2 d = fs_files s d \<or> fs_files s2 d = None \<and> delivered_file S now (evs @ evs') d (fs_files s d)" for d
  proof -
    from assms(1) have one: "fs_files s1 d = fs_files s d \<or> fs_files s1 d = None \<and> delivered_file S now evs d (fs_files s d)"
      unfolding drained_def by blast
    from assms(2) have two: "fs_files s2 d = fs_files s1 d \<or> fs_files s2 d = None \<and> delivered_file S now evs' d (fs_files s1 d)"
      unfolding drained_def by blast
    from one two show ?thesis
      using delivered_file_mono [of S now evs d "fs_files s d" "evs @ evs'"] delivered_file_mono [of S now evs' d "fs_files s d" "evs @ evs'"]
      by auto
  qed
  then show ?thesis by (simp add: drained_def)
qed

lemma remove_file_run:
  assumes "remove_file X d s = (r, s')"
  shows "r = Inr u \<Longrightarrow> fs_files s' = (fs_files s)(d := None)" "r = Inl err \<Longrightarrow> same_files s s'"
  using assms by (auto simp: remove_file_def fs_step_def split: option.splits if_splits)

lemma replay_entry_run:
  assumes "replay_entry S sink now d st = (r, st')"
  shows "\<exists>evs. rp_events st' = rp_events st @ evs \<and> drained S now evs (rp_fs st) (rp_fs st')
    \<and> (offered evs = [d] \<or> offered evs = [] \<and> (\<exists>err. r = Inl err))"
proof -
  obtain rl s1 where load: "load_envelope S (now d) d (rp_fs st) = (rl, s1)" by fastforce
  note loaded = load_run(2) [OF load]
  show ?thesis
  proof (cases rl)
    case (Inl err)
    with assms load loaded show ?thesis
      by (intro exI [of _ "[]"]) (auto simp: replay_entry_def intro: drained_same)
  next
    case (Inr e)
    with loaded obtain b sync where e: "fs_files (rp_fs st) d = Some (b, sync)" "decode_envelope S (now d) b = Inr e" by blast
    from loaded have same: "same_files (rp_fs st) s1" by blast
    show ?thesis
    proof (cases "sink (rp_events st) e = None \<and> sc_delete_after_replay (sk_config S)")
      case False
      with assms load Inr have "rp_fs st' = s1" "rp_events st' = rp_events st @ [Offered d e (sink (rp_events st) e)]"
        by (auto simp: replay_entry_def Let_def split: option.splits)
      with drained_same [OF same] show ?thesis by (intro exI [of _ "[Offered d e (sink (rp_events st) e)]"]) simp
    next
      case True
      obtain rd s2 where rm: "remove_file (sk_env S) d s1 = (rd, s2)" by fastforce
      show ?thesis
      proof (cases rd)
        case inl: (Inl err)
        with rm have "same_files s1 s2" by (rule remove_file_run(2))
        with same have "same_files (rp_fs st) s2" by (rule same_files_trans)
        with assms load Inr True rm inl show ?thesis
          by (intro exI [of _ "[Offered d e None]"]) (auto simp: replay_entry_def Let_def intro: drained_same)
      next
        case inr: (Inr u)
        with rm have gone: "fs_files s2 = (fs_files s1)(d := None)" by (rule remove_file_run(1))
        from assms load Inr True rm inr have st': "rp_fs st' = s2" "rp_events st' = rp_events st @ [Offered d e None, Removed d]"
          by (auto simp: replay_entry_def Let_def)
        have "drained S now [Offered d e None, Removed d] (rp_fs st) s2"
          using gone same e True by (auto simp: drained_def delivered_file_def same_files_def)
        with st' show ?thesis by (intro exI [of _ "[Offered d e None, Removed d]"]) simp
      qed
    qed
  qed
qed

lemma replay_entries_run:
  assumes "replay_entries S sink now ds replayed deleted st = (r, st')"
  shows "\<exists>evs. rp_events st' = rp_events st @ evs \<and> drained S now evs (rp_fs st) (rp_fs st')
    \<and> (\<exists>n. offered evs = take n ds)"
  using assms
proof (induction ds arbitrary: replayed deleted st)
  case Nil
  then show ?case by (intro exI [of _ "[]"]) (auto simp: drained_def)
next
  case (Cons d ds)
  obtain r1 st1 where one: "replay_entry S sink now d st = (r1, st1)" by fastforce
  from replay_entry_run [OF one] obtain evs where evs: "rp_events st1 = rp_events st @ evs"
    "drained S now evs (rp_fs st) (rp_fs st1)" "offered evs = [d] \<or> offered evs = [] \<and> (\<exists>err. r1 = Inl err)" by blast
  show ?case
  proof (cases r1)
    case (Inl err)
    with one Cons.prems have "st' = st1" by simp
    moreover have "\<exists>n. offered evs = take n (d # ds)"
      using evs(3) by (elim disjE) (simp_all, metis take_Suc_Cons take0)
    ultimately show ?thesis using evs by blast
  next
    case (Inr gone)
    with one Cons.prems have "replay_entries S sink now ds (replayed + 1) (if gone then deleted + 1 else deleted) st1 = (r, st')" by simp
    from Cons.IH [OF this] obtain evs' n where evs': "rp_events st' = rp_events st1 @ evs'"
      "drained S now evs' (rp_fs st1) (rp_fs st')" "offered evs' = take n ds" by blast
    have "offered (evs @ evs') = take (Suc n) (d # ds)" using evs(3) evs'(3) Inr by simp
    with evs evs' drained_trans [OF evs(2) evs'(2)] show ?thesis by (metis append.assoc)
  qed
qed

text \<open>The entries: one per listed file, read from its content.\<close>

definition entry_in :: "spool_sink \<Rightarrow> fs \<Rightarrow> spool_entry \<Rightarrow> bool" where
  "entry_in S s x \<longleftrightarrow> (\<exists>b sync w. fs_files s (se_path x) = Some (b, sync) \<and> parse_wrapper (sl_lib (sk_lib S)) b = Inr w
     \<and> x = entry_of (se_path x) w)"

lemma load_entries_run:
  assumes "load_entries S ds s = (r, s')"
  shows "same_files s s' \<and> (\<forall>entries. r = Inr entries \<longrightarrow> map se_path entries = ds \<and> list_all (entry_in S s) entries)"
  using assms
proof (induction ds arbitrary: s r s')
  case Nil
  then show ?case by (auto simp: st_ret_def)
next
  case (Cons d ds)
  obtain r1 s1 where one: "load_wrapper S d s = (r1, s1)" by fastforce
  note loaded = load_run(1) [OF one]
  show ?case
  proof (cases r1)
    case (Inl err)
    with one Cons.prems loaded show ?thesis by (auto simp: st_bind_def)
  next
    case (Inr w)
    obtain r2 s2 where two: "load_entries S ds s1 = (r2, s2)" by fastforce
    note rest = Cons.IH [OF two]
    from loaded have same: "same_files s s1" by blast
    from loaded Inr have "entry_in S s (entry_of d w)" by (auto simp: entry_in_def entry_of_def)
    moreover have "entry_in S s1 = entry_in S s" using same by (simp add: entry_in_def same_files_def fun_eq_iff)
    moreover have "se_path (entry_of d w) = d" by (simp add: entry_of_def)
    ultimately show ?thesis
      using one two Inr Cons.prems rest same_files_trans [OF same] by (cases r2) (auto simp: st_bind_def st_ret_def)
  qed
qed

lemma committed_entries_run:
  assumes "committed_entries S s = (r, s')"
  shows "same_files s s' \<and> (\<forall>entries. r = Inr entries \<longrightarrow>
    sorted (map (entry_key (sc_drain_ordering (sk_config S))) entries) \<and> list_all (entry_in S s) entries
    \<and> mset (map se_path entries) = mset (filter (\<lambda>d. d \<in> spool_files s) (fo_names (sk_env S) (fs_log s))))"
proof -
  let ?names = "filter (\<lambda>d. d \<in> spool_files s) (fo_names (sk_env S) (fs_log s))"
  obtain r1 s1 where load: "load_entries S ?names s = (r1, s1)" by fastforce
  note loaded = load_entries_run [OF load]
  show ?thesis
  proof (cases r1)
    case (Inl err)
    with assms load loaded show ?thesis by (auto simp: committed_entries_def st_bind_def list_root_run)
  next
    case (Inr entries)
    with assms load have eq: "r = Inr (sort_key (entry_key (sc_drain_ordering (sk_config S))) entries)" "s' = s1"
      by (auto simp: committed_entries_def st_bind_def list_root_run st_ret_def)
    have "mset (map se_path (sort_key (entry_key (sc_drain_ordering (sk_config S))) entries)) = mset ?names"
      using loaded Inr by (metis mset_map mset_sort)
    with loaded Inr eq show ?thesis by (auto simp: list_all_iff)
  qed
qed

text \<open>A whole replay in one step.\<close>

lemma py_prefix_take: "\<exists>k. py_prefix limit xs = take k xs"
proof (cases limit)
  case None
  then show ?thesis by (intro exI [of _ "length xs"]) (simp add: py_prefix_def)
next
  case (Some n)
  then show ?thesis by (cases "n < 0") (auto simp: py_prefix_def)
qed

lemma distinct_submset:
  assumes "mset xs \<subseteq># mset ys" "distinct ys" shows "distinct xs"
proof -
  obtain M where "mset ys = mset xs + M" using assms(1) by (auto simp: mset_subset_eq_exists_conv)
  moreover obtain zs where "mset zs = M" using ex_mset by blast
  ultimately have "mset ys = mset (xs @ zs)" by simp
  then have "distinct (xs @ zs)" using assms(2) mset_eq_imp_distinct_iff by blast
  then show ?thesis by simp
qed

lemma replay_run:
  assumes "replay_spool_to_sink S sink now limit st = (r, st')"
  shows "\<exists>evs. rp_events st' = rp_events st @ evs \<and> drained S now evs (rp_fs st) (rp_fs st')
    \<and> (\<exists>entries n. sorted (map (entry_key (sc_drain_ordering (sk_config S))) entries) \<and> list_all (entry_in S (rp_fs st)) entries
        \<and> mset (map se_path entries) \<subseteq># mset (filter (\<lambda>d. d \<in> spool_files (rp_fs st)) (fo_names (sk_env S) (fs_log (rp_fs st))))
        \<and> offered evs = map se_path (take n entries))"
proof -
  obtain rc s1 where com: "committed_entries S (rp_fs st) = (rc, s1)" by fastforce
  note committed = committed_entries_run [OF com]
  show ?thesis
  proof (cases rc)
    case (Inl err)
    with assms com committed drained_same show ?thesis
      by (intro exI [of _ "[]"]) (auto simp: replay_spool_to_sink_def intro: exI [of _ "[]"])
  next
    case (Inr entries)
    obtain k where k: "py_prefix limit entries = take k entries" using py_prefix_take by blast
    obtain r2 st2 where run: "replay_entries S sink now (map se_path (take k entries)) 0 0 (st\<lparr>rp_fs := s1\<rparr>) = (r2, st2)" by fastforce
    with assms com Inr k have st': "st' = st2" by (auto simp: replay_spool_to_sink_def Let_def split: sum.splits prod.splits)
    from replay_entries_run [OF run] obtain evs n where evs: "rp_events st2 = rp_events st @ evs"
      "drained S now evs s1 (rp_fs st2)" "offered evs = take n (map se_path (take k entries))" by auto
    have "offered evs = map se_path (take (min n k) entries)" using evs(3) by (simp add: take_map)
    moreover have "drained S now evs (rp_fs st) (rp_fs st2)"
      using drained_trans [OF drained_same [of "rp_fs st" s1 S now "[]"] evs(2)] committed by simp
    ultimately show ?thesis using st' evs(1) committed Inr
      by (intro exI [of _ evs] exI [of _ entries] exI [of _ "min n k"] conjI) auto
  qed
qed

section \<open>Properties of replay\<close>

text \<open>C11: replay gives up local custody only for what the destination has taken.  Whatever happens during a
  replay, a spool file that is gone afterwards was read, and the very message it holds was offered to the
  destination, whose write returned; every other file is unchanged, and without \<open>delete_after_replay\<close> all are.\<close>

theorem replay_deletes_only_delivered:
  assumes "replay_spool_to_sink S sink now limit st = (r, st')"
  shows "\<exists>evs. rp_events st' = rp_events st @ evs
    \<and> (\<forall>d. fs_files (rp_fs st') d = fs_files (rp_fs st) d
        \<or> fs_files (rp_fs st') d = None \<and> delivered_file S now evs d (fs_files (rp_fs st) d))"
  using replay_run [OF assms] unfolding drained_def by blast

text \<open>Replay respects the configured order.  The files are offered one by one in the order of their keys,
  by priority rank and then age or by age and then name, read from their own wrappers; no file is offered
  twice, and only committed files are.\<close>

theorem replay_in_drain_order:
  assumes "replay_spool_to_sink S sink now limit st = (r, st')" "lists_all (sk_env S) (rp_fs st)"
  shows "\<exists>evs xs. rp_events st' = rp_events st @ evs \<and> offered evs = map se_path xs
    \<and> sorted (map (entry_key (sc_drain_ordering (sk_config S))) xs) \<and> list_all (entry_in S (rp_fs st)) xs
    \<and> distinct (offered evs) \<and> set (offered evs) \<subseteq> spool_files (rp_fs st)"
proof -
  from replay_run [OF assms(1)] obtain evs entries n where evs: "rp_events st' = rp_events st @ evs"
    and entries: "sorted (map (entry_key (sc_drain_ordering (sk_config S))) entries)" "list_all (entry_in S (rp_fs st)) entries"
    and listed: "mset (map se_path entries) \<subseteq># mset (filter (\<lambda>d. d \<in> spool_files (rp_fs st)) (fo_names (sk_env S) (fs_log (rp_fs st))))"
    and off: "offered evs = map se_path (take n entries)" by blast
  have names: "distinct (filter (\<lambda>d. d \<in> spool_files (rp_fs st)) (fo_names (sk_env S) (fs_log (rp_fs st))))"
    using assms(2) by (simp add: lists_all_def)
  have "set (map se_path entries) \<subseteq> spool_files (rp_fs st)"
    using set_mset_mono [OF listed] by auto
  moreover have "distinct (map se_path entries)"
    using listed names by (rule distinct_submset)
  ultimately have "distinct (offered evs)" "set (offered evs) \<subseteq> spool_files (rp_fs st)"
    using off by (auto simp flip: take_map dest!: in_set_takeD)
  moreover have "sorted (map (entry_key (sc_drain_ordering (sk_config S))) (take n entries))"
    using entries(1) by (metis sorted_wrt_take take_map)
  moreover have "list_all (entry_in S (rp_fs st)) (take n entries)"
    using entries(2) by (auto simp: list_all_iff dest: in_set_takeD)
  ultimately show ?thesis using evs off by blast
qed

section \<open>Witnesses\<close>

definition kept_path :: path where
  "kept_path = File None ''0.spool.json''"

definition kept_spool :: "bytes \<Rightarrow> fs" where
  "kept_spool b = empty_fs\<lparr>fs_files := (\<lambda>d. if d = kept_path then Some (b, True) else None)\<rparr>"

definition replaying_spool :: "json_scan \<Rightarrow> spool_sink" where
  "replaying_spool scan = (restoring_spool scan)\<lparr>sk_env := calm\<lparr>fo_names := (\<lambda>_. [kept_path])\<rparr>\<rparr>"

lemma read_calm:
  assumes "\<And>l op. fo_fails (sk_env S) l op = None" "fs_files s d = Some (b, sync)"
  shows "read_spool_file S d s = (Inr b, logged (Read d) None s)"
  using assms by (simp add: read_spool_file_def read_file_def fs_run_defs logged_def)

lemma committed_one:
  assumes "\<And>l op. fo_fails (sk_env S) l op = None" "\<And>l. fo_names (sk_env S) l = [kept_path]"
    and "parse_wrapper (sl_lib (sk_lib S)) b = Inr w"
  shows "committed_entries S (kept_spool b) = (Inr [entry_of kept_path w], logged (Read kept_path) None (kept_spool b))"
proof -
  have kept: "fs_files (kept_spool b) kept_path = Some (b, True)" by (simp add: kept_spool_def)
  have name: "path_dir kept_path = None"
    "drop (length (path_name kept_path) - length SPOOL_SUFFIX) (path_name kept_path) = SPOOL_SUFFIX"
    by (simp_all add: kept_path_def SPOOL_SUFFIX_def)
  show ?thesis
    using assms(2,3) name kept
    by (simp add: committed_entries_def list_root_def st_bind_def st_ret_def st_lift_def load_wrapper_def visible_def
        read_calm [OF assms(1) kept] del: not_None_eq)
qed

lemma replay_one:
  assumes calm: "\<And>l op. fo_fails (sk_env S) l op = None" and names: "\<And>l. fo_names (sk_env S) l = [kept_path]"
    and delete: "sc_delete_after_replay (sk_config S)"
    and good: "parse_wrapper (sl_lib (sk_lib S)) b = Inr w" "decode_envelope S (now kept_path) b = Inr e"
  shows "\<exists>r st'. replay_spool_to_sink S (\<lambda>_ _. None) now None \<lparr>rp_fs = kept_spool b, rp_events = []\<rparr> = (r, st')
    \<and> rp_events st' = [Offered kept_path e None, Removed kept_path] \<and> fs_files (rp_fs st') kept_path = None"
proof -
  let ?s1 = "logged (Read kept_path) None (kept_spool b)"
  have kept: "fs_files ?s1 kept_path = Some (b, True)" by (simp add: kept_spool_def logged_def)
  have load: "load_envelope S (now kept_path) kept_path ?s1 = (Inr e, logged (Read kept_path) None ?s1)"
    using good by (simp add: load_envelope_def st_bind_def st_lift_def read_calm [OF calm kept])
  have gone: "\<exists>s2. remove_file (sk_env S) kept_path (logged (Read kept_path) None ?s1) = (Inr (), s2) \<and> fs_files s2 kept_path = None"
    using kept calm by (simp add: remove_file_def visible_def fs_step_def logged_def place_def)
  have path: "se_path (entry_of kept_path w) = kept_path" by (simp add: entry_of_def)
  from gone delete load show ?thesis
    by (auto simp: replay_spool_to_sink_def committed_one [OF calm names good(1)] py_prefix_def replay_entry_def path Let_def)
qed

lemma replaying_reads:
  "\<exists>scan b w e. parse_wrapper (sl_lib (sk_lib (replaying_spool scan))) b = Inr w
    \<and> decode_envelope (replaying_spool scan) (Aware 9 0) b = Inr e"
proof -
  obtain w where w: "thawed w" "\<And>scan. spool_wrapper (restoring_spool scan) normal_item = Inr w" using restoring_wrapper by blast
  let ?S = "replaying_spool (\<lambda>_. Some (sort_keys w))"
  have lib: "sl_lib (sk_lib ?S) = plain_lib\<lparr>l_scan := \<lambda>_. Some (sort_keys w)\<rparr>" and plain: "\<not> ec_enabled (sc_encryption (sk_config ?S))"
    and same: "sk_lib ?S = sk_lib (restoring_spool (\<lambda>_. Some (sort_keys w)))" "sk_config ?S = sk_config (restoring_spool (\<lambda>_. Some (sort_keys w)))"
    by (simp_all add: replaying_spool_def restoring_spool_def sample_spool_def no_encryption_def Let_def)
  have reads: "reads_back (load_plain_json (l_scan (sl_lib (sk_lib ?S)))) (sl_lib (sk_lib ?S)) w [123, 125]"
    by (simp add: reads_back_def lib decode_text_def plain_lib_def load_plain_json_def
        plain_objects_thawed [OF thawed_sort_keys [OF w(1)]])
  have wrapper: "spool_wrapper ?S normal_item = Inr w"
    using w(2) [of "\<lambda>_. Some (sort_keys w)"] unfolding spool_wrapper_def spool_encryptor_def same .
  from spool_unwraps [OF wrapper reads] plain restore_spooled [OF _ wrapper reads, of "Aware 9 0"] normal_item_spoolable
  show ?thesis by (metis same(1))
qed

lemma replay_runs:
  "\<exists>scan b r st' e. replay_spool_to_sink (replaying_spool scan) (\<lambda>_ _. None) (\<lambda>_. Aware 9 0) None \<lparr>rp_fs = kept_spool b, rp_events = []\<rparr> = (r, st')
    \<and> rp_events st' = [Offered kept_path e None, Removed kept_path] \<and> fs_files (rp_fs st') kept_path = None"
proof -
  obtain scan b w e where "parse_wrapper (sl_lib (sk_lib (replaying_spool scan))) b = Inr w"
    "decode_envelope (replaying_spool scan) (Aware 9 0) b = Inr e" using replaying_reads by blast
  from replay_one [OF _ _ _ this(1), of "\<lambda>_. Aware 9 0", OF _ _ _ this(2)] show ?thesis
    by (fastforce simp: replaying_spool_def calm_def restoring_spool_def sample_spool_def Let_def)
qed

lemma replay_deletes_only_delivered_witness:
  "\<exists>scan b (st' :: replay) evs. rp_events st' = evs \<and> fs_files (rp_fs st') kept_path = None
    \<and> delivered_file (replaying_spool scan) (\<lambda>_. Aware 9 0) evs kept_path (Some (b, True))"
proof -
  obtain scan b r st' e where run: "replay_spool_to_sink (replaying_spool scan) (\<lambda>_ _. None) (\<lambda>_. Aware 9 0) None
      \<lparr>rp_fs = kept_spool b, rp_events = []\<rparr> = (r, st')" and gone: "fs_files (rp_fs st') kept_path = None"
    using replay_runs by blast
  have kept: "fs_files (kept_spool b) kept_path = Some (b, True)" by (simp add: kept_spool_def)
  from replay_deletes_only_delivered [OF run] obtain evs where evs: "rp_events st' = evs"
    "fs_files (rp_fs st') kept_path = fs_files (kept_spool b) kept_path
      \<or> delivered_file (replaying_spool scan) (\<lambda>_. Aware 9 0) evs kept_path (fs_files (kept_spool b) kept_path)" by auto
  show ?thesis
    using evs gone kept by (intro exI [of _ scan] exI [of _ b] exI [of _ st'] exI [of _ evs]) simp
qed

lemma replay_in_drain_order_witness:
  "\<exists>scan (st' :: replay) xs. rp_events st' \<noteq> [] \<and> offered (rp_events st') = [kept_path] \<and> map se_path xs = [kept_path]
    \<and> sorted (map (entry_key (sc_drain_ordering (sk_config (replaying_spool scan)))) xs)"
proof -
  obtain scan b r st' e where run: "replay_spool_to_sink (replaying_spool scan) (\<lambda>_ _. None) (\<lambda>_. Aware 9 0) None
      \<lparr>rp_fs = kept_spool b, rp_events = []\<rparr> = (r, st')" and evs: "rp_events st' = [Offered kept_path e None, Removed kept_path]"
    using replay_runs by blast
  have "lists_all (sk_env (replaying_spool scan)) (kept_spool b)"
    by (auto simp: lists_all_def replaying_spool_def kept_spool_def empty_fs_def spool_files_def visible_def split: if_splits)
  then have listed: "lists_all (sk_env (replaying_spool scan)) (rp_fs \<lparr>rp_fs = kept_spool b, rp_events = []\<rparr>)" by simp
  from replay_in_drain_order [OF run listed] obtain evs' xs where xs: "rp_events st' = evs'" "offered evs' = map se_path xs"
    "sorted (map (entry_key (sc_drain_ordering (sk_config (replaying_spool scan)))) xs)" by auto
  show ?thesis
    using evs xs by (intro exI [of _ scan] exI [of _ st'] exI [of _ xs]) simp
qed

end
