(* ===== verification/Transactions.thy ===== *)
theory Transactions
  imports Stateful PyLib
begin

text \<open>
  A database connection as the relational sinks use it (\<open>mysql/sink.py\<close>, \<open>oracle/sink.py\<close>): statements
  collect in an open transaction, \<open>commit\<close> makes them durable together, \<open>rollback\<close> and the return of the
  connection to its pool drop them.  Every call may raise, at the environment's choice; a statement that
  raises may have worked on some of its rows, and a \<open>commit\<close> that raises may have taken effect or not.
  Metric updates are calls of the same kind, since a recorder may raise.
\<close>

section \<open>Connections\<close>

text \<open>SQL text with the values bound for each row.\<close>

type_synonym statement = "string \<times> pyval list"

datatype db_op =
    Create_pool "(string \<times> pyval) list" | Acquire | Open_cursor | Execute statement | Commit | Rollback | Close_cursor | Release
  | Close_pool bool | Session string | Observed string | Counted string int

type_synonym db_log = "(db_op \<times> exn option) list"

record db =
  db_open :: "statement list"
  db_committed :: "statement list list"
  db_log :: db_log

text \<open>
  The environment: which call raises what, how many rows of a failing statement were worked on, whether a
  failing commit took effect, the row count a cursor reports (\<open>None\<close> where there is none), and the
  numbers found in the attributes \<open>errno\<close> and \<open>code\<close> of an exception.
\<close>

record db_env =
  de_fails :: "db_log \<Rightarrow> db_op \<Rightarrow> exn option"
  de_partial :: "db_log \<Rightarrow> nat"
  de_took :: "db_log \<Rightarrow> bool"
  de_rowcount :: "db_log \<Rightarrow> int option"
  de_number :: "exn \<Rightarrow> string \<Rightarrow> int option"

type_synonym 'a dbm = "(db, 'a) stm"

definition noted :: "db_op \<Rightarrow> exn option \<Rightarrow> db \<Rightarrow> db" where
  "noted op out s = s\<lparr>db_log := db_log s @ [(op, out)]\<rparr>"

text \<open>One call, with its effect where it returns and where it raises.\<close>

definition db_step :: "db_env \<Rightarrow> db_op \<Rightarrow> (db \<Rightarrow> db) \<Rightarrow> (db \<Rightarrow> db) \<Rightarrow> unit dbm" where
  "db_step X op effect failed s =
     (case de_fails X (db_log s) op of
        Some err \<Rightarrow> (Inl err, noted op (Some err) (failed s))
      | None \<Rightarrow> (Inr (), noted op None (effect s)))"

definition db_call :: "db_env \<Rightarrow> db_op \<Rightarrow> unit dbm" where
  "db_call X op = db_step X op (\<lambda>s. s) (\<lambda>s. s)"

definition add_statement :: "statement \<Rightarrow> db \<Rightarrow> db" where
  "add_statement st s = s\<lparr>db_open := db_open s @ [st]\<rparr>"

definition end_transaction :: "db \<Rightarrow> db" where
  "end_transaction s = s\<lparr>db_committed := db_committed s @ [db_open s], db_open := []\<rparr>"

definition drop_transaction :: "db \<Rightarrow> db" where
  "drop_transaction s = s\<lparr>db_open := []\<rparr>"

definition execute_many :: "db_env \<Rightarrow> statement \<Rightarrow> unit dbm" where
  "execute_many X st = db_step X (Execute st) (add_statement st)
     (\<lambda>s. add_statement (fst st, take (de_partial X (db_log s)) (snd st)) s)"

definition commit :: "db_env \<Rightarrow> unit dbm" where
  "commit X = db_step X Commit end_transaction (\<lambda>s. if de_took X (db_log s) then end_transaction s else s)"

definition rollback :: "db_env \<Rightarrow> unit dbm" where
  "rollback X = db_step X Rollback drop_transaction (\<lambda>s. s)"

definition release_connection :: "db_env \<Rightarrow> unit dbm" where
  "release_connection X = db_step X Release drop_transaction drop_transaction"

text \<open>\<open>except Exception\<close>, and calls whose exceptions are only logged.\<close>

definition st_except :: "('s, 'a) stm \<Rightarrow> (exn \<Rightarrow> ('s, 'a) stm) \<Rightarrow> ('s, 'a) stm" where
  "st_except m h = st_catch m (\<lambda>err. if isinstance err PyException then h err else st_throw err)"

definition quietly :: "('s, unit) stm \<Rightarrow> ('s, unit) stm" where
  "quietly m = st_except m (\<lambda>_. st_ret ())"

section \<open>The write of a batch\<close>

text \<open>
  \<open>_write_rows_sync\<close>: \<open>stage\<close> opens a cursor and executes the statements; \<open>close\<close> gives the connection back.
  An exception of the stage rolls back and goes on; one of the commit is reported as an unavailable destination.
\<close>

definition write_rows_sync :: "db_env \<Rightarrow> string \<Rightarrow> string \<Rightarrow> unit dbm \<Rightarrow> 'st dbm \<Rightarrow> 'st dbm" where
  "write_rows_sync X commit_metric commit_message close stage =
     st_then (db_call X Acquire)
       (st_finally
         (st_bind (st_except stage (\<lambda>err. st_then (quietly (rollback X)) (st_throw err))) (\<lambda>stats.
            st_then (st_except (commit X) (\<lambda>_.
                st_then (db_call X (Observed commit_metric))
                (st_then (quietly (rollback X)) (st_throw (Exn DestinationUnavailableError commit_message)))))
              (st_then (db_call X (Observed commit_metric)) (st_ret stats))))
         close)"

section \<open>Reasoning about transactions\<close>

lemma noted_simps [simp]:
  "db_open (noted op out s) = db_open s" "db_committed (noted op out s) = db_committed s"
  "db_log (noted op out s) = db_log s @ [(op, out)]"
  by (simp_all add: noted_def)

lemma transaction_simps [simp]:
  "db_open (add_statement st s) = db_open s @ [st]" "db_committed (add_statement st s) = db_committed s"
  "db_open (end_transaction s) = []" "db_committed (end_transaction s) = db_committed s @ [db_open s]"
  "db_open (drop_transaction s) = []" "db_committed (drop_transaction s) = db_committed s"
  by (simp_all add: add_statement_def end_transaction_def drop_transaction_def)

text \<open>Predicates that do not look at the log, and calls that leave the transactions as they are.\<close>

definition log_blind :: "(db \<Rightarrow> bool) \<Rightarrow> bool" where
  "log_blind P \<longleftrightarrow> (\<forall>op out s. P s \<longrightarrow> P (noted op out s))"

lemma st_hoare_db_step:
  assumes "log_blind Q" "log_blind R" "\<And>s. P s \<Longrightarrow> Q (effect s)" "\<And>s. P s \<Longrightarrow> R (failed s)"
  shows "st_hoare P (db_step X op effect failed) (\<lambda>_. Q) R"
  using assms by (auto simp: st_hoare_def db_step_def log_blind_def split: option.splits)

lemma st_hoare_call: "log_blind P \<Longrightarrow> st_hoare P (db_call X op) (\<lambda>_. P) P"
  unfolding db_call_def by (rule st_hoare_db_step) auto

lemma st_hoare_except:
  assumes "st_hoare P m Q H" "\<And>err. st_hoare H (h err) Q R" "\<And>s. H s \<Longrightarrow> R s"
  shows "st_hoare P (st_except m h) Q R"
  unfolding st_except_def
proof (rule st_hoare_catch [OF assms(1)])
  fix err
  show "st_hoare H (if isinstance err PyException then h err else st_throw err) Q R"
    using assms(2,3) by (auto intro: st_hoare_throw)
qed

lemma st_hoare_quietly:
  "st_hoare P m (\<lambda>_. Q) Q \<Longrightarrow> st_hoare P (quietly m) (\<lambda>_. Q) Q"
  unfolding quietly_def by (rule st_hoare_except) (auto intro: st_hoare_ret)

definition closes_connection :: "unit dbm \<Rightarrow> bool" where
  "closes_connection close \<longleftrightarrow> (\<forall>C. st_hoare (\<lambda>s. db_committed s = C) close
     (\<lambda>_ s. db_committed s = C \<and> db_open s = []) (\<lambda>s. db_committed s = C \<and> db_open s = []))"

lemma closes_release: "closes_connection (release_connection X)" "closes_connection (quietly (release_connection X))"
proof -
  have one: "st_hoare (\<lambda>s. db_committed s = C) (release_connection X) (\<lambda>_ s. db_committed s = C \<and> db_open s = [])
      (\<lambda>s. db_committed s = C \<and> db_open s = [])" for C
    unfolding release_connection_def by (rule st_hoare_db_step) (auto simp: log_blind_def)
  then show "closes_connection (release_connection X)" "closes_connection (quietly (release_connection X))"
    unfolding closes_connection_def by (blast intro: st_hoare_quietly)+
qed

text \<open>
  A stage is transactional when, begun on an empty transaction, it leaves exactly its statements in it
  where it returns and commits nothing in any case.
\<close>

definition in_transaction :: "statement list list \<Rightarrow> statement list \<Rightarrow> db \<Rightarrow> bool" where
  "in_transaction C V s \<longleftrightarrow> db_committed s = C \<and> db_open s = V"

definition committed_is :: "statement list list \<Rightarrow> db \<Rightarrow> bool" where
  "committed_is C s \<longleftrightarrow> db_committed s = C"

lemma log_blind_transaction: "log_blind (in_transaction C V)" "log_blind (committed_is C)"
  by (auto simp: log_blind_def in_transaction_def committed_is_def)

lemma st_hoare_committed: "(\<And>V. st_hoare (in_transaction C V) m (\<lambda>_. P) P) \<Longrightarrow> st_hoare (committed_is C) m (\<lambda>_. P) P"
  by (auto simp: st_hoare_def in_transaction_def committed_is_def)

lemma st_hoare_execute: "st_hoare (in_transaction C V) (execute_many X st) (\<lambda>_. in_transaction C (V @ [st])) (committed_is C)"
  unfolding execute_many_def
  by (rule st_hoare_db_step [OF log_blind_transaction]) (auto simp: in_transaction_def committed_is_def)

lemma st_hoare_transaction_call: "st_hoare (in_transaction C V) (db_call X op) (\<lambda>_. in_transaction C V) (committed_is C)"
  by (rule st_hoare_weaken [OF st_hoare_call [OF log_blind_transaction(1)]]) (auto simp: in_transaction_def committed_is_def)

lemma st_hoare_committed_call: "st_hoare (committed_is C) (db_call X op) (\<lambda>_. committed_is C) (committed_is C)"
  by (rule st_hoare_call [OF log_blind_transaction(2)])

text \<open>Work with one cursor that is closed whatever happens.\<close>

lemma st_hoare_cursor:
  assumes "st_hoare (in_transaction C V) m (\<lambda>_. in_transaction C W) (committed_is C)"
  shows "st_hoare (in_transaction C V) (st_then (db_call X Open_cursor) (st_finally m (db_call X Close_cursor)))
      (\<lambda>_. in_transaction C W) (committed_is C)"
    and "st_hoare (in_transaction C V) (st_then (db_call X Open_cursor) (st_finally m (quietly (db_call X Close_cursor))))
      (\<lambda>_. in_transaction C W) (committed_is C)"
proof -
  have quiet: "st_hoare P (quietly (db_call X Close_cursor)) (\<lambda>_. P) R" if "log_blind P" "\<And>s. P s \<Longrightarrow> R s" for P R
    by (rule st_hoare_weaken [OF st_hoare_quietly [OF st_hoare_call [OF that(1)]]]) (use that(2) in auto)
  have sub: "in_transaction C W s \<Longrightarrow> committed_is C s" for W s by (simp add: in_transaction_def committed_is_def)
  show "st_hoare (in_transaction C V) (st_then (db_call X Open_cursor) (st_finally m (db_call X Close_cursor)))
      (\<lambda>_. in_transaction C W) (committed_is C)"
    by (rule st_hoare_then [OF st_hoare_transaction_call st_hoare_finally [OF assms st_hoare_transaction_call st_hoare_committed_call]])
  show "st_hoare (in_transaction C V) (st_then (db_call X Open_cursor) (st_finally m (quietly (db_call X Close_cursor))))
      (\<lambda>_. in_transaction C W) (committed_is C)"
    by (rule st_hoare_then [OF st_hoare_transaction_call st_hoare_finally [OF assms quiet quiet]])
      (auto intro: log_blind_transaction sub)
qed

lemmas transaction_rules = st_hoare_execute st_hoare_transaction_call st_hoare_committed_call

locale transactional_stage =
  fixes stage :: "'c \<Rightarrow> 'm \<Rightarrow> 'st dbm" and statements :: "'c \<Rightarrow> 'm \<Rightarrow> statement list"
  assumes stage_hoare: "st_hoare (in_transaction C []) (stage c m) (\<lambda>_. in_transaction C (statements c m)) (committed_is C)"
begin

lemma commit_hoare:
  "st_hoare (\<lambda>s. db_open s = V \<and> db_committed s = C) (commit X)
     (\<lambda>_ s. db_committed s = C @ [V]) (\<lambda>s. db_committed s = C \<or> db_committed s = C @ [V])"
  unfolding commit_def by (rule st_hoare_db_step) (auto simp: log_blind_def)

lemma rollback_hoare:
  "st_hoare (\<lambda>s. db_committed s \<in> Cs) (quietly (rollback X)) (\<lambda>_ s. db_committed s \<in> Cs) (\<lambda>s. db_committed s \<in> Cs)"
  unfolding rollback_def by (rule st_hoare_quietly, rule st_hoare_db_step) (auto simp: log_blind_def)

text \<open>The batch is committed as a whole or not at all, and a return means that it was.\<close>

lemma write_rows_hoare:
  assumes "closes_connection close"
  shows "st_hoare (\<lambda>s. db_open s = [] \<and> db_committed s = C) (write_rows_sync X metric message close (stage c m))
     (\<lambda>_ s. db_committed s = C @ [statements c m] \<and> db_open s = [])
     (\<lambda>s. db_committed s \<in> {C, C @ [statements c m]} \<and> db_open s = [])"
proof -
  let ?V = "statements c m" and ?E = "\<lambda>s. db_committed s \<in> {C, C @ [statements c m]}"
  have observe: "st_hoare P (db_call X (Observed metric)) (\<lambda>_. P) P" if "log_blind P" for P
    using that by (rule st_hoare_call)
  have blind: "log_blind ?E" "log_blind (\<lambda>s. db_committed s = C @ [?V])" "log_blind (\<lambda>s. db_open s = [] \<and> db_committed s = C)"
    by (auto simp: log_blind_def)
  have staged: "st_hoare (\<lambda>s. db_open s = [] \<and> db_committed s = C) (stage c m)
      (\<lambda>_ s. db_open s = ?V \<and> db_committed s = C) (\<lambda>s. db_committed s = C)"
    by (rule st_hoare_weaken [OF stage_hoare [of C c m]]) (auto simp: in_transaction_def committed_is_def)
  have stage: "st_hoare (\<lambda>s. db_open s = [] \<and> db_committed s = C)
      (st_except (stage c m) (\<lambda>err. st_then (quietly (rollback X)) (st_throw err)))
      (\<lambda>_ s. db_open s = ?V \<and> db_committed s = C) ?E"
  proof (rule st_hoare_except [OF staged])
    have undo: "st_hoare (\<lambda>s. db_committed s = C) (quietly (rollback X)) (\<lambda>_ s. db_committed s = C) ?E"
      by (rule st_hoare_weaken [OF rollback_hoare [of "{C}"]]) auto
    show "st_hoare (\<lambda>s. db_committed s = C) (st_then (quietly (rollback X)) (st_throw err))
        (\<lambda>_ s. db_open s = ?V \<and> db_committed s = C) ?E" for err
      by (rule st_hoare_then [OF undo]) (rule st_hoare_throw, simp)
  qed simp
  have failing: "st_hoare ?E (st_then (db_call X (Observed metric)) (st_then (quietly (rollback X)) (st_throw err)))
      (\<lambda>_ s. db_committed s = C @ [?V]) ?E" for err
    by (rule st_hoare_then [OF observe [OF blind(1)]], rule st_hoare_then [OF rollback_hoare]) (rule st_hoare_throw)
  have after: "st_hoare (\<lambda>s. db_committed s = C @ [?V]) (st_then (db_call X (Observed metric)) (st_ret stats))
      (\<lambda>_ s. db_committed s = C @ [?V]) ?E" for stats :: 'st
  proof -
    have "st_hoare (\<lambda>s. db_committed s = C @ [?V]) (db_call X (Observed metric)) (\<lambda>_ s. db_committed s = C @ [?V]) ?E"
      by (rule st_hoare_weaken [OF observe [OF blind(2)]]) auto
    then show ?thesis by (rule st_hoare_then) (rule st_hoare_ret)
  qed
  have commit: "st_hoare (\<lambda>s. db_open s = ?V \<and> db_committed s = C)
      (st_then (st_except (commit X) (\<lambda>_. st_then (db_call X (Observed metric))
          (st_then (quietly (rollback X)) (st_throw (Exn DestinationUnavailableError message)))))
        (st_then (db_call X (Observed metric)) (st_ret stats))) (\<lambda>_ s. db_committed s = C @ [?V]) ?E" for stats :: 'st
    by (rule st_hoare_then [OF st_hoare_except [OF st_hoare_weaken [OF commit_hoare] failing] after]) auto
  have close: "st_hoare (\<lambda>s. db_committed s = C @ [?V]) close (\<lambda>_ s. db_committed s = C @ [?V] \<and> db_open s = []) (\<lambda>s. ?E s \<and> db_open s = [])"
    by (rule st_hoare_weaken [OF assms [unfolded closes_connection_def, THEN spec]]) auto
  have close_failed: "st_hoare ?E close (\<lambda>_ s. ?E s \<and> db_open s = []) (\<lambda>s. ?E s \<and> db_open s = [])"
    using assms unfolding closes_connection_def st_hoare_def by (auto split: prod.splits sum.splits)
  have acquire: "st_hoare (\<lambda>s. db_open s = [] \<and> db_committed s = C) (db_call X Acquire)
      (\<lambda>_ s. db_open s = [] \<and> db_committed s = C) (\<lambda>s. ?E s \<and> db_open s = [])"
    by (rule st_hoare_weaken [OF st_hoare_call [OF blind(3)]]) auto
  show ?thesis
    unfolding write_rows_sync_def
    by (rule st_hoare_then [OF acquire st_hoare_finally [OF st_hoare_bind [OF stage commit] close close_failed]])
qed

end

end
