(* ===== verification/RelationalRow.thy ===== *)
theory RelationalRow
  imports Metadata Subjects
begin

text \<open>
  The part the two relational sinks have in common, line by line: idempotency strategies
  (\<open>mysql/idempotency.py\<close>, \<open>oracle/idempotency.py\<close>), the mapping of an envelope to bind values
  (\<open>mysql/mapping.py\<close>, \<open>oracle/mapping.py\<close>) and the choice of a table by subject
  (\<open>mysql/routing.py\<close>, \<open>oracle/routing.py\<close>).
\<close>

section \<open>Idempotency\<close>

datatype idempotency_strategy = Use_stream_sequence | Use_message_id | Use_payload_field

record idempotency_config =
  ic_strategy :: idempotency_strategy
  ic_columns :: "string list"
  ic_payload_field :: "string option"

definition validate_payload_field :: "string option \<Rightarrow> string option res" where
  "validate_payload_field value =
     (case value of
        None \<Rightarrow> Inr None
      | Some text \<Rightarrow>
          (let rendered = strip text in
           if rendered = [] then raise ValueError ''idempotency.payload_field must not be empty''
           else if \<exists>c\<in>set rendered. c \<in> {char_of (0::nat), char_of (10::nat), char_of (13::nat)}
           then raise ValueError ''idempotency.payload_field must not contain control characters''
           else if \<exists>part\<in>set (split_on (CHR ''.'') rendered). part = []
           then raise ValueError ''idempotency.payload_field must not contain empty path segments''
           else Inr (Some rendered)))"

definition validate_payload_strategy :: "idempotency_config \<Rightarrow> idempotency_config res" where
  "validate_payload_strategy c =
     (if ic_strategy c = Use_payload_field \<and> ic_payload_field c \<in> {None, Some []}
      then raise ValueError ''idempotency.payload_field is required for payload_field strategy''
      else if ic_strategy c \<in> {Use_message_id, Use_payload_field} \<and> ic_columns c = [''STREAM_NAME'', ''STREAM_SEQUENCE'']
      then Inr (c\<lparr>ic_columns := [''MESSAGE_ID'']\<rparr>)
      else Inr c)"

definition make_idempotency_config :: "idempotency_config \<Rightarrow> idempotency_config res" where
  "make_idempotency_config c =
     rbind (validate_payload_field (ic_payload_field c)) (\<lambda>f. validate_payload_strategy (c\<lparr>ic_payload_field := f\<rparr>))"

text \<open>The path is followed through JSON objects; the value at its end must be a scalar.\<close>

fun follow_path :: "pyval \<Rightarrow> string list \<Rightarrow> pyval res" where
  "follow_path current [] = Inr current"
| "follow_path (PDict kvs) (part # parts) =
     (case map_of kvs (PStr part) of
        Some v \<Rightarrow> follow_path v parts
      | None \<Rightarrow> raise ValidationError ''idempotency payload field is missing'')"
| "follow_path _ (part # parts) = raise ValidationError ''idempotency payload field is missing''"

definition scalar_key :: "render \<Rightarrow> pyval \<Rightarrow> string res" where
  "scalar_key st v =
     (case v of
        PNone \<Rightarrow> raise ValidationError ''idempotency payload field is null''
      | PDict _ \<Rightarrow> raise ValidationError ''idempotency payload field must resolve to a scalar''
      | PProxy _ \<Rightarrow> raise ValidationError ''idempotency payload field must resolve to a scalar''
      | PList _ \<Rightarrow> raise ValidationError ''idempotency payload field must resolve to a scalar''
      | PTuple _ \<Rightarrow> raise ValidationError ''idempotency payload field must resolve to a scalar''
      | _ \<Rightarrow>
          if v \<in> {PFloat FPosInf, PFloat FNegInf, PFloat FNaN}
          then raise ValidationError ''idempotency payload field must be finite''
          else (case py_str st v of
              None \<Rightarrow> raise ValidationError ''idempotency payload field cannot be rendered''
            | Some text \<Rightarrow> if strip text = [] then raise ValidationError ''idempotency payload field is empty'' else Inr (strip text)))"

definition extract_payload_field :: "render \<Rightarrow> pyval \<Rightarrow> string \<Rightarrow> string res" where
  "extract_payload_field st payload path = rbind (follow_path payload (split_on (CHR ''.'') path)) (scalar_key st)"

definition validate_envelope_idempotency :: "render \<Rightarrow> nats_envelope \<Rightarrow> idempotency_config \<Rightarrow> pyval \<Rightarrow> string option res" where
  "validate_envelope_idempotency st e c payload =
     (case ic_strategy c of
        Use_stream_sequence \<Rightarrow>
          if env_stream e = None \<or> env_stream_sequence e = None
          then raise ValidationError ''stream_sequence idempotency requires JetStream stream metadata'' else Inr None
      | Use_message_id \<Rightarrow>
          if env_message_id e \<in> {None, Some []}
          then raise ValidationError ''message_id idempotency requires a NATS message ID header'' else Inr None
      | Use_payload_field \<Rightarrow>
          (case ic_payload_field c of
             Some (p # ps) \<Rightarrow> rmap Some (extract_payload_field st payload (p # ps))
           | _ \<Rightarrow> raise ValidationError ''payload_field idempotency requires a configured payload field''))"

section \<open>Rows\<close>

type_synonym row = "(string \<times> pyval) list"

text \<open>\<open>json.dumps\<close> of a value, and of frozen metadata that is thawed first.\<close>

definition dumped :: "pylib \<Rightarrow> pyval \<Rightarrow> pyval res" where
  "dumped L v = rmap PStr (json_dumps_ascii (l_float_text L) v)"

definition dumped_metadata :: "pylib \<Rightarrow> pyval \<Rightarrow> pyval res" where
  "dumped_metadata L v = rbind (thaw_metadata (l_str L) v) (dumped L)"

definition envelope_to_row :: "pylib \<Rightarrow> idempotency_config \<Rightarrow> storage_mode \<Rightarrow> datetime \<Rightarrow> nats_envelope \<Rightarrow> row res" where
  "envelope_to_row L c mode stored_at e =
     rbind (payload_for_json_storage L e mode) (\<lambda>np.
     rbind (build_nats_metadata_snapshot L e stored_at) (\<lambda>snapshot.
     rbind (thaw_metadata (l_str L) (env_custody e)) (\<lambda>custody.
     let metadata = PDict (mapping_items snapshot @ [K ''custody'' custody]);
         timestamps = py_get metadata ''timestamps'' in
     rbind (validate_envelope_idempotency (l_str L) e c (np_value np)) (\<lambda>derived.
     rbind (datetime_to_epoch_ns (Some (env_received_at e))) (\<lambda>received_ns.
     rbind (datetime_to_epoch_ns (Some stored_at)) (\<lambda>stored_ns.
     rbind (dumped L (np_value np)) (\<lambda>payload_json.
     rbind (dumped L (str_dict (env_headers e))) (\<lambda>headers_json.
     rbind (dumped L metadata) (\<lambda>metadata_json.
     rbind (dumped_metadata L (env_mission_metadata e)) (\<lambda>mission_json.
     rbind (dumped_metadata L (env_security_labels e)) (\<lambda>security_json.
       Inr [(''stream_name'', opt_str (env_stream e)),
         (''stream_sequence'', opt_int (env_stream_sequence e)),
         (''subject'', PStr (env_subject e)),
         (''message_id'', opt_str (str_or derived (env_message_id e))),
         (''priority'', opt_str (env_priority e)),
         (''classification'', opt_str (env_classification e)),
         (''labels'', opt_str (labels_to_storage_string (l_str L) (PTuple (map PStr (env_labels e))))),
         (''message_created_at_epoch_ns'', py_get timestamps ''message_created_at_epoch_ns''),
         (''jetstream_timestamp_epoch_ns'', py_get timestamps ''jetstream_timestamp_epoch_ns''),
         (''received_at_epoch_ns'', opt_int received_ns),
         (''stored_at_epoch_ns'', opt_int stored_ns),
         (''payload_json'', payload_json),
         (''headers_json'', headers_json),
         (''metadata_json'', metadata_json),
         (''mission_metadata_json'', mission_json),
         (''security_labels_json'', security_json)])))))))))))"

section \<open>Tables by subject\<close>

text \<open>A route: the pattern, the table, its own idempotency and the columns it updates, if any.\<close>

record table_route =
  tr_subject :: string
  tr_table :: string
  tr_idempotency :: "idempotency_config option"
  tr_update_columns :: "string list option"

text \<open>
  \<open>validate_subject_pattern\<close> of the routing modules: the error of a misplaced tail wildcard keeps its
  message, any other is reported as an invalid route pattern.
\<close>

definition validate_route_pattern :: "string \<Rightarrow> string res" where
  "validate_route_pattern pattern =
     (case validate_subject_pattern (PStr pattern) of
        Inr p \<Rightarrow> Inr p
      | Inl err \<Rightarrow>
          if isinstance err ConfigurationError
          then (if exn_msg err = ''NATS '>' wildcard is only valid as the final token'' then Inl (Exn ConfigurationError (exn_msg err))
                else raise ConfigurationError ''invalid NATS subject route pattern'')
          else Inl err)"

fun resolve_route :: "string \<Rightarrow> table_route list \<Rightarrow> table_route option res" where
  "resolve_route subject [] = Inr None"
| "resolve_route subject (r # rs) =
     rbind (validate_route_pattern (tr_subject r)) (\<lambda>pattern.
       if matches_text pattern subject then Inr (Some r) else resolve_route subject rs)"

lemma validate_route_pattern_Inr: "validate_route_pattern p = Inr q \<Longrightarrow> q = p"
  by (auto simp: validate_route_pattern_def raise_def split: sum.splits if_splits dest: validate_subject_pattern_cases(1))

text \<open>Once every route has been checked, the first matching route is chosen and nothing is raised.\<close>

lemma resolve_route_find:
  "list_all (\<lambda>r. \<exists>p. validate_route_pattern (tr_subject r) = Inr p) rs
    \<Longrightarrow> resolve_route subject rs = Inr (find (\<lambda>r. matches_text (tr_subject r) subject) rs)"
proof (induction rs)
  case (Cons r rs)
  then obtain p where "validate_route_pattern (tr_subject r) = Inr p" by auto
  with Cons validate_route_pattern_Inr [OF this] show ?case by simp
qed simp

section \<open>Rows of a redelivered message\<close>

text \<open>What a redelivery may change of an envelope.\<close>

definition redelivered_as :: "nats_envelope \<Rightarrow> nats_envelope \<Rightarrow> bool" where
  "redelivered_as e e' \<longleftrightarrow>
     e' = e\<lparr>env_consumer := env_consumer e', env_consumer_sequence := env_consumer_sequence e',
       env_redelivered := env_redelivered e', env_pending := env_pending e',
       env_reply := env_reply e', env_received_at := env_received_at e', env_raw_metadata := env_raw_metadata e'\<rparr>"

definition delivery_columns :: "string list" where
  "delivery_columns = [''received_at_epoch_ns'', ''stored_at_epoch_ns'', ''metadata_json'']"


lemma snapshot_timestamps:
  assumes "build_nats_metadata_snapshot L e now = Inr snapshot"
  obtains ct ts kvs where "resolve_message_created_timestamp L e = Inr ct" "datetime_to_epoch_ns (env_timestamp e) = Inr ts"
    "snapshot = PDict kvs"
    "\<And>more. py_get (py_get (PDict (kvs @ more)) ''timestamps'') ''message_created_at_epoch_ns'' = opt_int (ct_epoch_ns ct)"
    "\<And>more. py_get (py_get (PDict (kvs @ more)) ''timestamps'') ''jetstream_timestamp_epoch_ns'' = opt_int ts"
proof -
  from assms show thesis
    unfolding build_nats_metadata_snapshot_def Let_def
    by (elim rbindE) (rule that, assumption, assumption, erule sym [THEN iffD1 [OF sum.inject(2)]], simp_all add: py_get_def)
qed

lemma envelope_to_row_Inr:
  assumes "envelope_to_row L c mode now e = Inr row"
  obtains np ct ts derived received stored metadata_json payload_json headers_json mission_json security_json where
    "payload_for_json_storage L e mode = Inr np" "resolve_message_created_timestamp L e = Inr ct"
    "datetime_to_epoch_ns (env_timestamp e) = Inr ts"
    "validate_envelope_idempotency (l_str L) e c (np_value np) = Inr derived"
    "dumped L (np_value np) = Inr payload_json" "dumped L (str_dict (env_headers e)) = Inr headers_json"
    "dumped_metadata L (env_mission_metadata e) = Inr mission_json" "dumped_metadata L (env_security_labels e) = Inr security_json"
    "row = [(''stream_name'', opt_str (env_stream e)),
         (''stream_sequence'', opt_int (env_stream_sequence e)),
         (''subject'', PStr (env_subject e)),
         (''message_id'', opt_str (str_or derived (env_message_id e))),
         (''priority'', opt_str (env_priority e)),
         (''classification'', opt_str (env_classification e)),
         (''labels'', opt_str (labels_to_storage_string (l_str L) (PTuple (map PStr (env_labels e))))),
         (''message_created_at_epoch_ns'', opt_int (ct_epoch_ns ct)),
         (''jetstream_timestamp_epoch_ns'', opt_int ts),
         (''received_at_epoch_ns'', opt_int received),
         (''stored_at_epoch_ns'', opt_int stored),
         (''payload_json'', payload_json),
         (''headers_json'', headers_json),
         (''metadata_json'', metadata_json),
         (''mission_metadata_json'', mission_json),
         (''security_labels_json'', security_json)]"
proof -
  from assms obtain snapshot where snap: "build_nats_metadata_snapshot L e now = Inr snapshot"
    by (auto simp: envelope_to_row_def Let_def elim!: rbindE)
  show thesis
  proof (rule snapshot_timestamps [OF snap])
    fix ct ts kvs
    assume parts: "resolve_message_created_timestamp L e = Inr ct" "datetime_to_epoch_ns (env_timestamp e) = Inr ts" "snapshot = PDict kvs"
      "\<And>more. py_get (py_get (PDict (kvs @ more)) ''timestamps'') ''message_created_at_epoch_ns'' = opt_int (ct_epoch_ns ct)"
      "\<And>more. py_get (py_get (PDict (kvs @ more)) ''timestamps'') ''jetstream_timestamp_epoch_ns'' = opt_int ts"
    from assms show thesis
      unfolding envelope_to_row_def Let_def snap rbind_simps parts(3) mapping_items.simps parts(4,5)
      by (elim rbindE) (rule that, assumption, rule parts(1), rule parts(2), assumption+, drule sum.inject(2) [THEN iffD1], erule sym)
  qed
qed

text \<open>a redelivered message makes the same row.  Whatever changes between two deliveries of a message (consumer
  and delivery sequence, reply subject, redelivery count, time of receipt, time of storage), the bound values of all
  columns but the two delivery times and the metadata document are the same, so that a key over them finds the
  row of the first delivery.\<close>

theorem redelivered_row_stable:
  assumes "redelivered_as e e'" "envelope_to_row L c mode now e = Inr row" "envelope_to_row L c mode now' e' = Inr row'"
  shows "map fst row' = map fst row \<and> length row = 16
    \<and> (\<forall>name. name \<notin> set delivery_columns \<longrightarrow> map_of row' name = map_of row name)"
proof -
  have same: "env_subject e' = env_subject e" "env_data e' = env_data e" "env_headers e' = env_headers e" "env_stream e' = env_stream e"
    "env_stream_sequence e' = env_stream_sequence e" "env_timestamp e' = env_timestamp e" "env_message_id e' = env_message_id e"
    "env_priority e' = env_priority e" "env_classification e' = env_classification e" "env_labels e' = env_labels e"
    "env_mission_metadata e' = env_mission_metadata e" "env_security_labels e' = env_security_labels e"
    by (subst assms(1) [unfolded redelivered_as_def], simp)+
  have fixed: "payload_for_json_storage L e' mode = payload_for_json_storage L e mode"
    "resolve_message_created_timestamp L e' = resolve_message_created_timestamp L e"
    "validate_envelope_idempotency st e' c v = validate_envelope_idempotency st e c v" for st v
    unfolding payload_for_json_storage_def resolve_message_created_timestamp_def validate_envelope_idempotency_def same
    by (rule refl)+
  show ?thesis
    by (rule envelope_to_row_Inr [OF assms(2)], rule envelope_to_row_Inr [OF assms(3)])
      (simp add: fixed same delivery_columns_def)
qed

definition plain_idempotency :: idempotency_config where
  "plain_idempotency = \<lparr>ic_strategy = Use_stream_sequence, ic_columns = [''STREAM_NAME'', ''STREAM_SEQUENCE''], ic_payload_field = None\<rparr>"

lemma dumped_renderable: "renderable v \<Longrightarrow> \<exists>s. dumped L v = Inr s"
proof -
  assume "renderable v"
  then obtain s where "json_render json_string_ascii (l_float_text L) v = Inr s" using renderable_text by blast
  then show ?thesis by (simp add: dumped_def json_dumps_ascii_def)
qed

lemma renderable_headers: "renderable (str_dict hs)" "renderable (PList (map PStr xs))" "renderable (PList [])"
  by (auto simp: str_dict_def header_items_def list_all_iff)

lemma sample_snapshot:
  "\<exists>kvs. build_nats_metadata_snapshot plain_lib ((sample_envelope ''orders.new'' 1 [65])\<lparr>env_received_at := Aware u 0\<rparr>) (Aware t 0) = Inr (PDict kvs)
    \<and> renderable (PDict kvs)" if "t \<in> {0, 5}" "u \<in> {0, 3}"
  using that
  by (auto simp: build_nats_metadata_snapshot_def resolve_message_created_timestamp_def sample_envelope_def thaw_metadata_def
      datetime_to_epoch_ns_def in_utc_def datetime_min_us_def datetime_max_us_def standard_headers_def payload_section_def
      jetstream_section_def freshness_section_def renderable_headers age_seconds_def future_skew_seconds_def
      opt_str_def opt_int_def opt_bool_def opt_float_def Let_def simp del: renderable.simps(2))

definition sample_redelivery :: "int \<Rightarrow> nats_envelope" where
  "sample_redelivery u = (sample_envelope ''orders.new'' 1 [65])\<lparr>env_received_at := Aware u 0\<rparr>"

lemma sample_payload:
  "\<exists>np. payload_for_json_storage plain_lib (sample_redelivery u) Json_or_envelope = Inr np \<and> renderable (np_value np)"
  by (simp add: sample_redelivery_def payload_for_json_storage_def sample_envelope_def normalize_payload_for_json_storage_def
      text_payload_def plain_lib_def load_standard_json_def raise_def payload_envelope_def Let_def)

lemma sample_parts:
  "env_custody (sample_redelivery u) = PNone" "env_mission_metadata (sample_redelivery u) = PNone"
  "env_security_labels (sample_redelivery u) = PNone" "env_received_at (sample_redelivery u) = Aware u 0"
  "validate_envelope_idempotency st (sample_redelivery u) plain_idempotency v = Inr None"
  by (simp_all add: sample_redelivery_def sample_envelope_def validate_envelope_idempotency_def plain_idempotency_def)

lemma sample_times: "t \<in> {0, 3, 5} \<Longrightarrow> datetime_to_epoch_ns (Some (Aware t 0)) = Inr (Some (t * 1000))"
  by (auto simp: datetime_to_epoch_ns_def in_utc_def datetime_min_us_def datetime_max_us_def)

lemma sample_row:
  assumes "t \<in> {0, 5}" "u \<in> {0, 3}"
  shows "\<exists>row. envelope_to_row plain_lib plain_idempotency Json_or_envelope (Aware t 0) (sample_redelivery u) = Inr row"
proof -
  obtain kvs where snap: "build_nats_metadata_snapshot plain_lib (sample_redelivery u) (Aware t 0) = Inr (PDict kvs)" "renderable (PDict kvs)"
    using sample_snapshot [OF assms] unfolding sample_redelivery_def by blast
  obtain np where np: "payload_for_json_storage plain_lib (sample_redelivery u) Json_or_envelope = Inr np" "renderable (np_value np)"
    using sample_payload by blast
  have times: "datetime_to_epoch_ns (Some (Aware u 0)) = Inr (Some (u * 1000))" "datetime_to_epoch_ns (Some (Aware t 0)) = Inr (Some (t * 1000))"
    using assms by (auto intro: sample_times)
  have none: "thaw_metadata st PNone = Inr PNone" for st by (simp add: thaw_metadata_def)
  have "renderable (PDict (kvs @ [K ''custody'' PNone]))" using snap(2) by simp
  from dumped_renderable [OF this, of plain_lib] obtain s1 where s1: "dumped plain_lib (PDict (kvs @ [K ''custody'' PNone])) = Inr s1" by blast
  from dumped_renderable [OF np(2), of plain_lib] obtain s2 where s2: "dumped plain_lib (np_value np) = Inr s2" by blast
  from dumped_renderable [OF renderable_headers(1), of plain_lib] obtain s3
    where s3: "dumped plain_lib (str_dict (env_headers (sample_redelivery u))) = Inr s3" by blast
  from dumped_renderable [of PNone plain_lib] obtain s4 where s4: "dumped plain_lib PNone = Inr s4" by auto
  show ?thesis
    unfolding envelope_to_row_def np(1) snap(1) sample_parts none rbind_simps times mapping_items.simps Let_def s1 s2 s3 dumped_metadata_def s4
    by blast
qed

lemma redelivered_row_stable_witness:
  "\<exists>row row' :: row. length row = 16 \<and> map_of row' ''stream_sequence'' = map_of row ''stream_sequence''"
proof -
  have again: "redelivered_as (sample_redelivery 0) (sample_redelivery 3)" by (simp add: redelivered_as_def sample_redelivery_def sample_envelope_def)
  obtain row row' where rows: "envelope_to_row plain_lib plain_idempotency Json_or_envelope (Aware 0 0) (sample_redelivery 0) = Inr row"
    "envelope_to_row plain_lib plain_idempotency Json_or_envelope (Aware 5 0) (sample_redelivery 3) = Inr row'"
    using sample_row by (metis insertCI)
  from redelivered_row_stable [OF again rows] have "length row = 16" "map_of row' ''stream_sequence'' = map_of row ''stream_sequence''"
    by (auto simp: delivery_columns_def)
  then show ?thesis by blast
qed

end
