(* ===== verification/TablePolicies.thy ===== *)
theory TablePolicies
  imports RelationalRow
begin

text \<open>
  Tables and their write policies, as \<open>mysql/sink.py\<close> and \<open>oracle/sink.py\<close> have them line by line: the default
  table and every route register a policy under the validated name of their table, and a subject chooses a table by
  the first matching route.  How a name is validated is the parameter \<open>validate\<close>.
\<close>

section \<open>Registration\<close>

record table_policy =
  tp_table_name :: string
  tp_idempotency :: idempotency_config
  tp_update_columns :: "string list option"

type_synonym policy_signature = "idempotency_strategy \<times> string list \<times> string option \<times> string list option"

type_synonym policies = "(string \<times> table_policy) list"

definition policy_signature :: "(string \<Rightarrow> string res) \<Rightarrow> table_policy \<Rightarrow> policy_signature res" where
  "policy_signature validate p =
     rbind (case tp_update_columns p of None \<Rightarrow> Inr None | Some cs \<Rightarrow> rmap Some (rmapM validate cs)) (\<lambda>updates.
     rbind (rmapM validate (ic_columns (tp_idempotency p))) (\<lambda>keys.
       Inr (ic_strategy (tp_idempotency p), keys, ic_payload_field (tp_idempotency p), updates)))"

definition register_policy ::
  "(string \<Rightarrow> string res) \<Rightarrow> string \<Rightarrow> string \<Rightarrow> idempotency_config \<Rightarrow> string list option \<Rightarrow> policies \<Rightarrow> policies res" where
  "register_policy validate conflict table idempotency updates policies =
     rbind (validate table) (\<lambda>table_name.
     let policy = \<lparr>tp_table_name = table_name, tp_idempotency = idempotency, tp_update_columns = updates\<rparr> in
     rbind (case map_of policies table_name of
          None \<Rightarrow> Inr ()
        | Some existing \<Rightarrow>
            rbind (policy_signature validate existing) (\<lambda>old. rbind (policy_signature validate policy) (\<lambda>new.
              if old \<noteq> new then raise ConfigurationError conflict else Inr ())))
       (\<lambda>_. Inr (AList.update table_name policy policies)))"

fun register_routes ::
  "(string \<Rightarrow> string res) \<Rightarrow> string \<Rightarrow> idempotency_config \<Rightarrow> string list option \<Rightarrow> table_route list \<Rightarrow> policies \<Rightarrow> policies res" where
  "register_routes validate conflict idempotency updates [] policies = Inr policies"
| "register_routes validate conflict idempotency updates (r # rs) policies =
     rbind (validate_route_pattern (tr_subject r)) (\<lambda>_.
     rbind (register_policy validate conflict (tr_table r)
         (case tr_idempotency r of Some i \<Rightarrow> i | None \<Rightarrow> idempotency)
         (case tr_update_columns r of Some cs \<Rightarrow> Some cs | None \<Rightarrow> updates) policies)
       (register_routes validate conflict idempotency updates rs))"

text \<open>A statement for every policy, kept under the name of its table.\<close>

fun prepare_statements ::
  "(table_policy \<Rightarrow> 'q res) \<Rightarrow> ('q \<Rightarrow> string) \<Rightarrow> table_policy list \<Rightarrow> (string \<times> 'q) list \<Rightarrow> (string \<times> 'q) list res" where
  "prepare_statements sql_of name_of [] cache = Inr cache"
| "prepare_statements sql_of name_of (p # ps) cache =
     rbind (sql_of p) (\<lambda>sql. prepare_statements sql_of name_of ps (AList.update (name_of sql) sql cache))"

section \<open>Choosing a table\<close>

definition policy_for_table :: "string \<Rightarrow> policies \<Rightarrow> string \<Rightarrow> table_policy res" where
  "policy_for_table missing policies table_name =
     (case map_of policies table_name of Some p \<Rightarrow> Inr p | None \<Rightarrow> raise ConfigurationError missing)"

definition table_for_subject :: "(string \<Rightarrow> string res) \<Rightarrow> table_route list \<Rightarrow> string \<Rightarrow> string \<Rightarrow> string res" where
  "table_for_subject validate routes default_table subject =
     rbind (resolve_route subject routes) (\<lambda>route.
       validate (case route of Some r \<Rightarrow> tr_table r | None \<Rightarrow> default_table))"

section \<open>Registered policies are complete\<close>

text \<open>What a sink relies on of its identifier check: a validated name is validated to itself.\<close>

locale table_names =
  fixes validate :: "string \<Rightarrow> string res"
  assumes validated_again: "validate s = Inr v \<Longrightarrow> validate v = Inr v"
begin

lemma register_policy_Inr:
  assumes "register_policy validate conflict table i u ps = Inr ps'"
  obtains name where "validate table = Inr name"
    "ps' = AList.update name \<lparr>tp_table_name = name, tp_idempotency = i, tp_update_columns = u\<rparr> ps"
  using assms by (auto simp: register_policy_def Let_def elim!: rbindE)

definition own_names :: "policies \<Rightarrow> bool" where
  "own_names ps \<longleftrightarrow> list_all (\<lambda>(t, p). tp_table_name p = t \<and> validate t = Inr t) ps"

lemma own_names_update:
  assumes "own_names ps" "validate table = Inr name"
  shows "own_names (AList.update name \<lparr>tp_table_name = name, tp_idempotency = i, tp_update_columns = u\<rparr> ps)"
proof -
  have "validate name = Inr name" using assms(2) by (rule validated_again)
  with assms(1) show ?thesis unfolding own_names_def by (induction ps) auto
qed

lemma own_namesD: "own_names ps \<Longrightarrow> map_of ps t = Some p \<Longrightarrow> tp_table_name p = t \<and> validate t = Inr t"
  by (auto simp: own_names_def list_all_iff dest!: map_of_SomeD)

lemma register_routes_Inr:
  assumes "register_routes validate conflict i u rs ps = Inr ps'" "own_names ps"
  shows "own_names ps' \<and> dom (map_of ps) \<subseteq> dom (map_of ps')
    \<and> list_all (\<lambda>r. (\<exists>p. validate_route_pattern (tr_subject r) = Inr p)
        \<and> (\<exists>name. validate (tr_table r) = Inr name \<and> name \<in> dom (map_of ps'))) rs"
  using assms
proof (induction rs arbitrary: ps)
  case (Cons r rs)
  then obtain p ps1 where one: "validate_route_pattern (tr_subject r) = Inr p"
    "register_policy validate conflict (tr_table r) (case tr_idempotency r of Some i \<Rightarrow> i | None \<Rightarrow> i)
         (case tr_update_columns r of Some cs \<Rightarrow> Some cs | None \<Rightarrow> u) ps = Inr ps1"
    "register_routes validate conflict i u rs ps1 = Inr ps'" by (auto elim!: rbindE)
  from register_policy_Inr [OF one(2)] obtain name where name: "validate (tr_table r) = Inr name"
    "ps1 = AList.update name \<lparr>tp_table_name = name, tp_idempotency = (case tr_idempotency r of Some i \<Rightarrow> i | None \<Rightarrow> i),
       tp_update_columns = (case tr_update_columns r of Some cs \<Rightarrow> Some cs | None \<Rightarrow> u)\<rparr> ps" .
  have ps1: "own_names ps1" unfolding name(2) using Cons.prems(2) name(1) by (rule own_names_update)
  have "dom (map_of ps) \<union> {name} = dom (map_of ps1)" by (auto simp: name(2) update_conv)
  with Cons.IH [OF one(3) ps1] one(1) name(1) show ?case by auto
qed simp

text \<open>Whatever the subject, the first matching route or the default table gives a table that has been checked, with a
  policy registered for exactly that table.\<close>

lemma policies_complete:
  assumes "register_policy validate conflict default_table i u [] = Inr ps1" "register_routes validate conflict i u routes ps1 = Inr ps"
  shows "\<exists>name p. table_for_subject validate routes default_table subject = Inr name \<and> map_of ps name = Some p
    \<and> tp_table_name p = name \<and> validate name = Inr name"
proof -
  from register_policy_Inr [OF assms(1)] obtain name where name: "validate default_table = Inr name"
    "ps1 = AList.update name \<lparr>tp_table_name = name, tp_idempotency = i, tp_update_columns = u\<rparr> []" .
  have "own_names []" by (simp add: own_names_def)
  then have ps1: "own_names ps1" unfolding name(2) using name(1) by (rule own_names_update)
  note routes = register_routes_Inr [OF assms(2) ps1]
  let ?route = "find (\<lambda>r. matches_text (tr_subject r) subject) routes"
  let ?table = "case ?route of Some r \<Rightarrow> tr_table r | None \<Rightarrow> default_table"
  have found: "resolve_route subject routes = Inr ?route"
    by (rule resolve_route_find) (use routes in \<open>auto simp: list_all_iff\<close>)
  have "\<exists>n. validate ?table = Inr n \<and> n \<in> dom (map_of ps)"
  proof (cases ?route)
    case None
    have "name \<in> dom (map_of ps1)" by (simp add: name(2))
    with None name(1) routes show ?thesis by auto
  next
    case (Some r)
    then have "r \<in> set routes" by (auto simp: find_Some_iff)
    with Some routes show ?thesis by (auto simp: list_all_iff)
  qed
  then obtain n p where n: "validate ?table = Inr n" "map_of ps n = Some p" by auto
  with routes have "tp_table_name p = n" "validate n = Inr n" by (auto dest: own_namesD)
  with n found show ?thesis by (simp add: table_for_subject_def)
qed

lemma registered_names:
  assumes "register_policy validate conflict default_table i u [] = Inr ps1" "register_routes validate conflict i u routes ps1 = Inr ps"
    and "p \<in> set (map snd ps)"
  shows "validate (tp_table_name p) = Inr (tp_table_name p)"
proof -
  from register_policy_Inr [OF assms(1)] obtain name where name: "validate default_table = Inr name"
    "ps1 = AList.update name \<lparr>tp_table_name = name, tp_idempotency = i, tp_update_columns = u\<rparr> []" .
  have "own_names []" by (simp add: own_names_def)
  then have "own_names ps1" unfolding name(2) using name(1) by (rule own_names_update)
  from register_routes_Inr [OF assms(2) this] assms(3) show ?thesis
    by (auto simp: own_names_def list_all_iff)
qed

end

text \<open>Every prepared policy finds its statement.\<close>

lemma prepare_statements_Inr:
  assumes "prepare_statements sql_of name_of ps cache = Inr cache'"
    and "\<And>p sql. p \<in> set ps \<Longrightarrow> sql_of p = Inr sql \<Longrightarrow> name_of sql = tp_table_name p"
  shows "(\<forall>p\<in>set ps. map_of cache' (tp_table_name p) \<noteq> None) \<and> dom (map_of cache) \<subseteq> dom (map_of cache')"
  using assms
proof (induction ps arbitrary: cache)
  case (Cons q qs)
  then obtain sql where sql: "sql_of q = Inr sql" "prepare_statements sql_of name_of qs (AList.update (name_of sql) sql cache) = Inr cache'"
    by (auto elim!: rbindE)
  have "dom (map_of (AList.update (name_of sql) sql cache)) = insert (tp_table_name q) (dom (map_of cache))"
    using Cons.prems(2) [of q sql] sql(1) by (auto simp: update_conv split: if_splits)
  with Cons.IH [OF sql(2) Cons.prems(2)] show ?case by auto
qed simp

end
