(* ===== verification/TableBatches.thy ===== *)
theory TableBatches
  imports Transactions TablePolicies
begin

text \<open>
  The batch of a relational sink, as far as \<open>mysql/sink.py\<close> and \<open>oracle/sink.py\<close> have it in common line by
  line: rows grouped by table, write statistics and their metrics, the handlers around the write, and the proof,
  as a locale over the parts that differ, that a batch is committed as a whole or not at all.
\<close>

section \<open>Rows by table\<close>

text \<open>A message with the time its row is made at.\<close>

type_synonym timed = "datetime \<times> nats_envelope"

text \<open>\<open>dict.fromkeys(...)\<close>.\<close>

definition first_occurrences :: "'a list \<Rightarrow> 'a list" where
  "first_occurrences xs = rev (remdups (rev xs))"

text \<open>\<open>rows_by_table.setdefault(table, []).append(row)\<close>.\<close>

fun add_row :: "string \<Rightarrow> 'r \<Rightarrow> (string \<times> 'r list) list \<Rightarrow> (string \<times> 'r list) list" where
  "add_row table row [] = [(table, [row])]"
| "add_row table row ((t, rows) # groups) =
     (if t = table then (t, rows @ [row]) # groups else (t, rows) # add_row table row groups)"

fun rows_by_table :: "('m \<Rightarrow> (string \<times> 'r) res) \<Rightarrow> 'm list \<Rightarrow> (string \<times> 'r list) list \<Rightarrow> (string \<times> 'r list) list res" where
  "rows_by_table row_of [] groups = Inr groups"
| "rows_by_table row_of (m # ms) groups =
     rbind (row_of m) (\<lambda>(table, row). rows_by_table row_of ms (add_row table row groups))"

text \<open>The groups a list of rows gives: the tables in the order of their first rows, each with its rows in order.\<close>

definition group_rows :: "(string \<times> 'r) list \<Rightarrow> (string \<times> 'r list) list" where
  "group_rows trs = map (\<lambda>t. (t, map snd (filter (\<lambda>tr. fst tr = t) trs))) (first_occurrences (map fst trs))"

lemma first_occurrences_snoc:
  "first_occurrences (xs @ [x]) = (if x \<in> set xs then first_occurrences xs else first_occurrences xs @ [x])"
  "set (first_occurrences xs) = set xs" "distinct (first_occurrences xs)"
  by (simp_all add: first_occurrences_def)

lemma add_row_map:
  "distinct ts \<Longrightarrow> f table = [] \<or> table \<in> set ts \<Longrightarrow>
     add_row table row (map (\<lambda>t. (t, f t)) ts)
     = map (\<lambda>t. (t, (f(table := f table @ [row])) t)) (if table \<in> set ts then ts else ts @ [table])"
  by (induction ts) auto

lemma add_row_group_rows: "add_row table row (group_rows trs) = group_rows (trs @ [(table, row)])"
proof -
  let ?f = "\<lambda>t. map snd (filter (\<lambda>tr. fst tr = t) trs)" and ?ts = "first_occurrences (map fst trs)"
  have "?f table = [] \<or> table \<in> set ?ts" by (auto simp: first_occurrences_snoc(2) filter_empty_conv)
  from add_row_map [of ?ts ?f, OF first_occurrences_snoc(3) this] show ?thesis
    by (auto simp: group_rows_def first_occurrences_snoc)
qed

lemma rows_by_table_from:
  assumes "rows_by_table row_of ms (group_rows trs) = Inr groups"
  shows "\<exists>trs'. rmapM row_of ms = Inr trs' \<and> groups = group_rows (trs @ trs')"
  using assms
proof (induction ms arbitrary: trs)
  case (Cons m ms)
  then obtain table row where row: "row_of m = Inr (table, row)" "rows_by_table row_of ms (group_rows (trs @ [(table, row)])) = Inr groups"
    by (auto simp: add_row_group_rows elim!: rbindE)
  from Cons.IH [OF row(2)] row(1) show ?case by auto
qed simp

lemma rows_by_table_Inr:
  assumes "rows_by_table row_of ms [] = Inr groups"
  obtains trs where "rmapM row_of ms = Inr trs" "groups = group_rows trs"
proof -
  have empty: "group_rows [] = []" by (simp add: group_rows_def first_occurrences_def)
  from rows_by_table_from [of row_of ms "[]" groups] assms that show thesis by (auto simp: empty)
qed

lemma group_rows_elem:
  assumes "(table, rows) \<in> set (group_rows trs)"
  shows "rows = map snd (filter (\<lambda>tr. fst tr = table) trs)" "rows \<noteq> []" "\<exists>row. (table, row) \<in> set trs"
proof -
  from assms show rows: "rows = map snd (filter (\<lambda>tr. fst tr = table) trs)" by (auto simp: group_rows_def)
  from assms obtain row where row: "(table, row) \<in> set trs" by (auto simp: group_rows_def first_occurrences_snoc(2))
  then show "\<exists>row. (table, row) \<in> set trs" ..
  from row show "rows \<noteq> []" by (force simp: rows filter_empty_conv)
qed

lemma row_of_group:
  assumes "rmapM row_of ms = Inr trs" "(table, row) \<in> set trs"
  shows "\<exists>m\<in>set ms. row_of m = Inr (table, row)"
  using assms by (auto simp: rmapM_Inr_iff list_all2_conv_all_nth in_set_conv_nth) (metis nth_mem)

text \<open>The groups of a batch that has messages: a first table with a first row.\<close>

lemma rows_by_table_nonempty:
  assumes "rows_by_table row_of ms [] = Inr groups" "ms \<noteq> []"
  shows "\<exists>table row rows rest. groups = (table, row # rows) # rest \<and> (\<exists>m\<in>set ms. \<exists>row. row_of m = Inr (table, row))"
proof -
  from rows_by_table_Inr [OF assms(1)] obtain trs where trs: "rmapM row_of ms = Inr trs" "groups = group_rows trs" .
  from trs(1) assms(2) have "trs \<noteq> []" by (auto simp: rmapM_Inr_iff)
  then have "set (first_occurrences (map fst trs)) \<noteq> {}" by (simp add: first_occurrences_snoc(2))
  then have "groups \<noteq> []" using trs(2) by (auto simp: group_rows_def)
  then obtain table rows rest where groups: "groups = (table, rows) # rest" by (cases groups) auto
  with trs(2) have "(table, rows) \<in> set (group_rows trs)" by (metis list.set_intros(1))
  from group_rows_elem [OF this] row_of_group [OF trs(1), of table] obtain r where "rows \<noteq> []" "\<exists>m\<in>set ms. row_of m = Inr (table, r)"
    by blast
  with groups show ?thesis by (cases rows) auto
qed

lemma map_filter_group_rows:
  assumes "\<And>table rows. (table, rows) \<in> set (group_rows trs) \<Longrightarrow> f (table, rows) = Some (g table rows)"
  shows "List.map_filter f (group_rows trs)
    = map (\<lambda>table. g table (map snd (filter (\<lambda>tr. fst tr = table) trs))) (first_occurrences (map fst trs))"
proof -
  have "List.map_filter f gs = map (\<lambda>(table, rows). g table rows) gs"
    if "\<And>table rows. (table, rows) \<in> set gs \<Longrightarrow> f (table, rows) = Some (g table rows)" for gs
    using that by (induction gs) (auto simp: map_filter_def)
  from this [of "group_rows trs", OF assms] show ?thesis
    unfolding group_rows_def by (simp add: comp_def)
qed

section \<open>Statistics and metrics\<close>

text \<open>What a batch did, as far as the database tells.  The counters of updating writes are called upserts in one
  sink and merges in the other.\<close>

record write_stats =
  ws_duplicates :: int
  ws_duplicate_ignored :: int
  ws_duplicate_noop :: int
  ws_keyed_rows :: int
  ws_outcome_unknown :: int

definition no_stats :: write_stats where
  "no_stats = \<lparr>ws_duplicates = 0, ws_duplicate_ignored = 0, ws_duplicate_noop = 0, ws_keyed_rows = 0, ws_outcome_unknown = 0\<rparr>"

definition combine_write_stats :: "write_stats \<Rightarrow> write_stats \<Rightarrow> write_stats" where
  "combine_write_stats l r =
     \<lparr>ws_duplicates = ws_duplicates l + ws_duplicates r, ws_duplicate_ignored = ws_duplicate_ignored l + ws_duplicate_ignored r,
      ws_duplicate_noop = ws_duplicate_noop l + ws_duplicate_noop r, ws_keyed_rows = ws_keyed_rows l + ws_keyed_rows r,
      ws_outcome_unknown = ws_outcome_unknown l + ws_outcome_unknown r\<rparr>"

definition rowcount_no_change_count :: "int option \<Rightarrow> nat \<Rightarrow> int" where
  "rowcount_no_change_count reported rows =
     (case reported of
        None \<Rightarrow> 0
      | Some n \<Rightarrow> if n < 0 then 0 else max (int rows - min n (int rows)) 0)"

definition reported_rows :: "db_env \<Rightarrow> int option dbm" where
  "reported_rows X s = (Inr (de_rowcount X (db_log s)), s)"

record batch_metrics =
  bm_execute :: string
  bm_commit :: string
  bm_conflicts :: string
  bm_keyed :: string
  bm_unknown :: string
  bm_duplicates :: string
  bm_ignored :: string
  bm_noop :: string

definition counted :: "db_env \<Rightarrow> string \<Rightarrow> int \<Rightarrow> unit dbm" where
  "counted X name n = db_call X (Counted name n)"

definition record_duplicates :: "db_env \<Rightarrow> batch_metrics \<Rightarrow> string \<Rightarrow> int \<Rightarrow> unit dbm" where
  "record_duplicates X B name n =
     (if n \<le> 0 then st_ret () else st_then (counted X (bm_duplicates B) n) (counted X name n))"

definition record_write_stats :: "db_env \<Rightarrow> batch_metrics \<Rightarrow> write_stats \<Rightarrow> unit dbm" where
  "record_write_stats X B w =
     st_then (if ws_keyed_rows w \<noteq> 0 then counted X (bm_keyed B) (ws_keyed_rows w) else st_ret ())
     (st_then (if ws_outcome_unknown w \<noteq> 0 then counted X (bm_unknown B) (ws_outcome_unknown w) else st_ret ())
     (st_then (if ws_duplicate_ignored w \<noteq> 0 then record_duplicates X B (bm_ignored B) (ws_duplicate_ignored w) else st_ret ())
              (if ws_duplicate_noop w \<noteq> 0 then record_duplicates X B (bm_noop B) (ws_duplicate_noop w) else st_ret ())))"

section \<open>Around the write\<close>

text \<open>\<open>write_batch\<close>: an empty batch is done; otherwise rows, transaction and metrics under the handlers.\<close>

definition write_batch_with ::
  "bool \<Rightarrow> string \<Rightarrow> 'm list \<Rightarrow> 'g res \<Rightarrow> ('g \<Rightarrow> write_stats dbm) \<Rightarrow> (write_stats \<Rightarrow> unit dbm) \<Rightarrow> (exn \<Rightarrow> unit dbm) \<Rightarrow> unit dbm" where
  "write_batch_with started not_started messages groups write tally failed =
     (if messages = [] then st_ret ()
      else if \<not> started then st_throw (Exn ConfigurationError not_started)
      else st_catch (st_bind (st_lift groups) (\<lambda>g. st_bind (write g) tally)) failed)"

text \<open>The handlers: exceptions that go \<open>through\<close> stay as they are; of the others, a duplicate is taken for success
  in \<open>insert_ignore\<close> mode and any other is translated.\<close>

definition batch_write_failed ::
  "db_env \<Rightarrow> batch_metrics \<Rightarrow> bool \<Rightarrow> (exn \<Rightarrow> bool) \<Rightarrow> (exn \<Rightarrow> bool) \<Rightarrow> (exn \<Rightarrow> exn) \<Rightarrow> int \<Rightarrow> exn \<Rightarrow> unit dbm" where
  "batch_write_failed X B ignoring through duplicate translate n err =
     (if through err then st_throw err
      else st_then (if duplicate err then counted X (bm_conflicts B) n else st_ret ())
        (if ignoring \<and> duplicate err then record_duplicates X B (bm_ignored B) n else st_throw (translate err)))"

lemma st_hoare_if: "st_hoare P m Q R \<Longrightarrow> st_hoare P n Q R \<Longrightarrow> st_hoare P (if b then m else n) Q R"
  by simp

lemma st_hoare_counted: "log_blind P \<Longrightarrow> st_hoare P (counted X name n) (\<lambda>_. P) P"
  unfolding counted_def by (rule st_hoare_call)

lemma st_hoare_skip: "st_hoare P (st_ret x) (\<lambda>_. P) P"
  by (rule st_hoare_ret)

lemma st_hoare_duplicates: "log_blind P \<Longrightarrow> st_hoare P (record_duplicates X B name n) (\<lambda>_. P) P"
  unfolding record_duplicates_def
  by (cases "n \<le> 0") (simp_all add: st_hoare_skip st_hoare_then [OF st_hoare_counted st_hoare_counted])

lemma st_hoare_write_stats: "log_blind P \<Longrightarrow> st_hoare P (record_write_stats X B w) (\<lambda>_. P) P"
  unfolding record_write_stats_def
  by (intro st_hoare_then [where M = P] st_hoare_if st_hoare_skip st_hoare_counted st_hoare_duplicates)

lemma st_hoare_reported: "log_blind P \<Longrightarrow> st_hoare P (reported_rows X) (\<lambda>_. P) R"
  by (simp add: st_hoare_def reported_rows_def)

lemma st_lift_Inr: "st_bind (st_lift (Inr x)) f = f x"
  by (simp add: fun_eq_iff st_bind_def st_lift_def)

lemma batch_write_failed_hoare:
  assumes "log_blind P"
  shows "st_hoare P (batch_write_failed X B ignoring through duplicate translate n err) (\<lambda>_ s. P s \<and> ignoring \<and> duplicate err) P"
proof (cases "\<not> through err \<and> ignoring \<and> duplicate err")
  case True
  then have "batch_write_failed X B ignoring through duplicate translate n err
      = st_then (counted X (bm_conflicts B) n) (record_duplicates X B (bm_ignored B) n)"
    by (simp add: batch_write_failed_def)
  with st_hoare_then [OF st_hoare_counted st_hoare_duplicates, OF assms assms] True show ?thesis by simp
next
  case False
  have quiet: "st_hoare P (if duplicate err then counted X (bm_conflicts B) n else st_ret ()) (\<lambda>_. P) P"
    using assms by (intro st_hoare_if st_hoare_skip st_hoare_counted)
  have raised: "st_hoare P (st_throw e :: unit dbm) Q P" for e and Q :: "unit \<Rightarrow> db \<Rightarrow> bool" by (rule st_hoare_throw)
  show ?thesis
  proof (cases "through err")
    case True
    then show ?thesis by (simp add: batch_write_failed_def raised)
  next
    case go: False
    with False have "\<not> (ignoring \<and> duplicate err)" by simp
    then show ?thesis
      unfolding batch_write_failed_def if_not_P [OF go] if_not_P [OF \<open>\<not> (ignoring \<and> duplicate err)\<close>]
      by - (rule st_hoare_then [OF quiet raised])
  qed
qed

section \<open>Batches are committed as a whole\<close>

text \<open>The parts of a sink: the rows of a batch, the write of them in one transaction, and the handlers, which
  count calls only and return only where the sink takes an error for success.\<close>

locale relational_batches =
  fixes groups_of :: "'c \<Rightarrow> 'm list \<Rightarrow> 'g res" and store :: "'c \<Rightarrow> 'g \<Rightarrow> write_stats dbm"
    and tally :: "'c \<Rightarrow> write_stats \<Rightarrow> unit dbm" and failed :: "'c \<Rightarrow> int \<Rightarrow> exn \<Rightarrow> unit dbm"
    and statements :: "'c \<Rightarrow> 'g \<Rightarrow> statement list" and ignores :: "'c \<Rightarrow> bool"
  assumes store_hoare: "st_hoare (\<lambda>s. db_open s = [] \<and> db_committed s = C) (store c g)
      (\<lambda>_ s. db_committed s = C @ [statements c g] \<and> db_open s = [])
      (\<lambda>s. db_committed s \<in> {C, C @ [statements c g]} \<and> db_open s = [])"
    and tally_hoare: "log_blind P \<Longrightarrow> st_hoare P (tally c w) (\<lambda>_. P) P"
    and failed_hoare: "log_blind P \<Longrightarrow> st_hoare P (failed c n err) (\<lambda>_ s. P s \<and> ignores c) P"
begin

definition expected :: "'c \<Rightarrow> 'm list \<Rightarrow> statement list list" where
  "expected c ms = (case groups_of c ms of Inr g \<Rightarrow> [statements c g] | Inl err \<Rightarrow> [])"

lemma batch_hoare:
  assumes "ms \<noteq> []"
  shows "st_hoare (\<lambda>s. db_open s = [] \<and> db_committed s = C)
     (write_batch_with started what ms (groups_of c ms) (store c) (tally c) (failed c n))
     (\<lambda>_ s. db_open s = [] \<and> (expected c ms \<noteq> [] \<and> db_committed s = C @ expected c ms
        \<or> db_committed s \<in> {C, C @ expected c ms} \<and> ignores c))
     (\<lambda>s. db_committed s \<in> {C, C @ expected c ms} \<and> db_open s = [])"
    (is "st_hoare ?P _ ?Q ?R")
proof -
  have blind: "log_blind ?R" by (auto simp: log_blind_def)
  have handled: "st_hoare ?R (failed c n err) ?Q ?R" for err
    by (rule st_hoare_weaken [OF failed_hoare [OF blind]]) auto
  have body: "st_hoare ?P (st_bind (st_lift (groups_of c ms)) (\<lambda>g. st_bind (store c g) (tally c)))
       (\<lambda>_ s. db_open s = [] \<and> expected c ms \<noteq> [] \<and> db_committed s = C @ expected c ms) ?R"
  proof (cases "groups_of c ms")
    case (Inl err)
    then show ?thesis by (auto simp: st_hoare_def st_bind_def st_lift_def)
  next
    case (Inr g)
    then have V: "expected c ms = [statements c g]" by (simp add: expected_def)
    have blind': "log_blind (\<lambda>s. db_committed s = C @ [statements c g] \<and> db_open s = [])" by (auto simp: log_blind_def)
    have "st_hoare (\<lambda>s. db_committed s = C @ [statements c g] \<and> db_open s = []) (tally c w)
        (\<lambda>_ s. db_committed s = C @ [statements c g] \<and> db_open s = []) ?R" for w
      by (rule st_hoare_weaken [OF tally_hoare [OF blind']]) (auto simp: V)
    moreover have "st_hoare ?P (store c g) (\<lambda>_ s. db_committed s = C @ [statements c g] \<and> db_open s = []) ?R"
      unfolding V by (rule store_hoare)
    ultimately have "st_hoare ?P (st_bind (store c g) (tally c)) (\<lambda>_ s. db_committed s = C @ [statements c g] \<and> db_open s = []) ?R"
      by (rule st_hoare_bind [rotated])
    then show ?thesis
      unfolding Inr st_lift_Inr by (rule st_hoare_weaken) (auto simp: V)
  qed
  have "st_hoare ?P (st_catch (st_bind (st_lift (groups_of c ms)) (\<lambda>g. st_bind (store c g) (tally c))) (failed c n)) ?Q ?R"
    by (rule st_hoare_catch [OF st_hoare_weaken [OF body] handled]) auto
  moreover have "st_hoare ?P (st_throw err :: unit dbm) ?Q ?R" for err by (rule st_hoare_throw) simp
  ultimately show ?thesis
    unfolding write_batch_with_def if_not_P [OF assms] by (rule st_hoare_if [rotated])
qed

lemma acknowledged:
  assumes "write_batch_with started what ms (groups_of c ms) (store c) (tally c) (failed c n) s = (Inr u, s')"
    and "ms \<noteq> []" "db_open s = []" "\<not> ignores c"
  obtains g where "groups_of c ms = Inr g" "db_committed s' = db_committed s @ [statements c g]" "db_open s' = []"
proof -
  have "db_open s = [] \<and> db_committed s = db_committed s" using assms(3) by simp
  from st_hoareD(1) [OF batch_hoare [OF assms(2)] this assms(1)] assms(4)
  have "expected c ms \<noteq> []" "db_committed s' = db_committed s @ expected c ms" "db_open s' = []" by auto
  with that show thesis by (auto simp: expected_def split: sum.splits)
qed

lemma all_or_nothing:
  assumes "write_batch_with started what ms (groups_of c ms) (store c) (tally c) (failed c n) s = (r, s')"
    and "ms \<noteq> []" "db_open s = []"
  shows "db_open s' = [] \<and> (db_committed s' = db_committed s
    \<or> (\<exists>g. groups_of c ms = Inr g \<and> db_committed s' = db_committed s @ [statements c g]))"
proof -
  have "db_open s = [] \<and> db_committed s = db_committed s" using assms(3) by simp
  note run = st_hoareD [OF batch_hoare [OF assms(2)] this]
  have "db_open s' = [] \<and> db_committed s' \<in> {db_committed s, db_committed s @ expected c ms}"
  proof (cases r)
    case (Inl err)
    with assms(1) show ?thesis using run(2) by blast
  next
    case (Inr u)
    from run(1) [OF assms(1) [unfolded Inr]] show ?thesis by auto
  qed
  then show ?thesis by (auto simp: expected_def split: sum.splits)
qed

end

section \<open>Runs for the witnesses\<close>

text \<open>A database that does what it is told.\<close>

definition calm_db :: db_env where
  "calm_db = \<lparr>de_fails = (\<lambda>_ _. None), de_partial = (\<lambda>_. 0), de_took = (\<lambda>_. False), de_rowcount = (\<lambda>_. None), de_number = (\<lambda>_ _. None)\<rparr>"

definition empty_db :: db where
  "empty_db = \<lparr>db_open = [], db_committed = [], db_log = []\<rparr>"

lemmas db_run_defs = st_catch_def st_bind_def st_then_def st_lift_def st_ret_def st_throw_def st_finally_def st_except_def quietly_def
  write_rows_sync_def db_call_def db_step_def execute_many_def commit_def rollback_def release_connection_def
  record_write_stats_def record_duplicates_def counted_def batch_write_failed_def write_batch_with_def reported_rows_def

end
