(* ===== verification/MySqlText.thy ===== *)
theory MySqlText
  imports PyLib
begin

text \<open>
  SQL text of the Oracle MySQL sink (\<open>mysql/sql.py\<close>, \<open>mysql/ddl.py\<close>): identifiers are checked against an
  allow-list before they are put, in backticks, into a statement; row values are placeholders.  The
  digest of a long primary-key name is a parameter.
\<close>

section \<open>Identifiers\<close>

definition ascii_letter :: "char \<Rightarrow> bool" where
  "ascii_letter c \<longleftrightarrow> (let n = of_char c :: nat in (65 \<le> n \<and> n \<le> 90) \<or> (97 \<le> n \<and> n \<le> 122))"

definition ascii_digit :: "char \<Rightarrow> bool" where
  "ascii_digit c \<longleftrightarrow> (let n = of_char c :: nat in 48 \<le> n \<and> n \<le> 57)"

text \<open>\<open>^[A-Za-z_][A-Za-z0-9_$]{0,63}$\<close>, matched against the whole text.\<close>

definition mysql_name :: "string \<Rightarrow> bool" where
  "mysql_name s \<longleftrightarrow> (case s of
      [] \<Rightarrow> False
    | c # cs \<Rightarrow> (ascii_letter c \<or> c = CHR ''_'') \<and> length cs \<le> 63
        \<and> list_all (\<lambda>c. ascii_letter c \<or> ascii_digit c \<or> c \<in> {CHR ''_'', CHR ''$''}) cs)"

abbreviation invalid_identifier :: "'a res" where
  "invalid_identifier \<equiv> raise ConfigurationError ''invalid Oracle MySQL identifier''"

definition mysql_validate_identifier :: "string \<Rightarrow> string res" where
  "mysql_validate_identifier identifier =
     (let parts = split_on (CHR ''.'') identifier in
      if (\<exists>p\<in>set parts. p = []) \<or> 2 < length parts then invalid_identifier
      else if \<exists>p\<in>set parts. \<not> mysql_name p then invalid_identifier
      else Inr (join_with ''.'' parts))"

definition mysql_validate_column :: "string \<Rightarrow> string res" where
  "mysql_validate_column identifier =
     rbind (mysql_validate_identifier identifier) (\<lambda>validated.
       if CHR ''.'' \<in> set validated
       then raise ConfigurationError ''column mappings must not include schema or table qualifiers''
       else Inr validated)"

definition BACKTICK :: char where
  "BACKTICK = CHR 0x60"

definition backticked :: "string \<Rightarrow> string" where
  "backticked part = BACKTICK # part @ [BACKTICK]"

definition mysql_quote_identifier :: "string \<Rightarrow> string res" where
  "mysql_quote_identifier identifier =
     rmap (\<lambda>validated. join_with ''.'' (map backticked (split_on (CHR ''.'') validated)))
       (mysql_validate_identifier identifier)"

section \<open>Columns\<close>

record column_mapping =
  cm_stream_name :: string
  cm_stream_sequence :: string
  cm_subject :: string
  cm_message_id :: string
  cm_priority :: string
  cm_classification :: string
  cm_labels :: string
  cm_message_created_at_epoch_ns :: string
  cm_jetstream_timestamp_epoch_ns :: string
  cm_received_at_epoch_ns :: string
  cm_stored_at_epoch_ns :: string
  cm_payload :: string
  cm_headers :: string
  cm_metadata :: string
  cm_mission_metadata :: string
  cm_security_labels :: string

definition default_columns :: column_mapping where
  "default_columns = \<lparr>cm_stream_name = ''STREAM_NAME'', cm_stream_sequence = ''STREAM_SEQUENCE'', cm_subject = ''SUBJECT'',
     cm_message_id = ''MESSAGE_ID'', cm_priority = ''PRIORITY'', cm_classification = ''CLASSIFICATION'', cm_labels = ''LABELS'',
     cm_message_created_at_epoch_ns = ''MESSAGE_CREATED_AT_EPOCH_NS'',
     cm_jetstream_timestamp_epoch_ns = ''JETSTREAM_TIMESTAMP_EPOCH_NS'', cm_received_at_epoch_ns = ''RECEIVED_AT_EPOCH_NS'',
     cm_stored_at_epoch_ns = ''STORED_AT_EPOCH_NS'', cm_payload = ''PAYLOAD_JSON'', cm_headers = ''HEADERS_JSON'',
     cm_metadata = ''METADATA_JSON'', cm_mission_metadata = ''MISSION_METADATA_JSON'',
     cm_security_labels = ''SECURITY_LABELS_JSON''\<rparr>"

text \<open>\<open>FIELD_TO_BIND\<close> applied to the fields of a mapping, in the order of \<open>model_dump()\<close>.\<close>

definition bound_columns :: "column_mapping \<Rightarrow> (string \<times> string) list" where
  "bound_columns c =
     [(''stream_name'', cm_stream_name c), (''stream_sequence'', cm_stream_sequence c), (''subject'', cm_subject c),
      (''message_id'', cm_message_id c), (''priority'', cm_priority c), (''classification'', cm_classification c),
      (''labels'', cm_labels c), (''message_created_at_epoch_ns'', cm_message_created_at_epoch_ns c),
      (''jetstream_timestamp_epoch_ns'', cm_jetstream_timestamp_epoch_ns c),
      (''received_at_epoch_ns'', cm_received_at_epoch_ns c), (''stored_at_epoch_ns'', cm_stored_at_epoch_ns c),
      (''payload_json'', cm_payload c), (''headers_json'', cm_headers c), (''metadata_json'', cm_metadata c),
      (''mission_metadata_json'', cm_mission_metadata c), (''security_labels_json'', cm_security_labels c)]"

definition mysql_validated_columns :: "column_mapping \<Rightarrow> (string \<times> string) list res" where
  "mysql_validated_columns c =
     rbind (rmapM (\<lambda>(bind, column). rmap (Pair bind) (mysql_validate_column column)) (bound_columns c)) (\<lambda>validated.
       if distinct (map (casefold \<circ> snd) validated) then Inr validated
       else raise ConfigurationError ''Oracle MySQL column mapping contains duplicate mapped columns'')"

datatype column_context = Key_columns | Update_columns

definition mysql_canonical_columns :: "string list \<Rightarrow> string list \<Rightarrow> column_context \<Rightarrow> string list res" where
  "mysql_canonical_columns configured column_names context_of =
     rbind (rmapM mysql_validate_column configured) (\<lambda>requested.
       let lookup = map_of (rev (map (\<lambda>column. (casefold column, column)) column_names)) in
       if \<not> distinct (map casefold requested)
       then raise ConfigurationError (case context_of of
             Key_columns \<Rightarrow> ''duplicate idempotency key columns are not allowed''
           | Update_columns \<Rightarrow> ''upsert_update_columns contains duplicate columns'')
       else rmapM (\<lambda>column. case lookup (casefold column) of
           Some canonical \<Rightarrow> Inr canonical
         | None \<Rightarrow> raise ConfigurationError (case context_of of
               Key_columns \<Rightarrow> ''idempotency key columns must reference columns present in the Oracle MySQL column mapping''
             | Update_columns \<Rightarrow> ''upsert_update_columns contains columns that are not present in the column mapping'')) requested)"

definition mysql_update_columns :: "string list \<Rightarrow> string list \<Rightarrow> string list option \<Rightarrow> string list res" where
  "mysql_update_columns column_names key_columns configured =
     (case configured of
        None \<Rightarrow> Inr (filter (\<lambda>column. column \<notin> set key_columns) column_names)
      | Some cs \<Rightarrow>
          rbind (mysql_canonical_columns cs column_names Update_columns) (\<lambda>requested.
            if \<not> distinct requested then raise ConfigurationError ''upsert_update_columns must not contain duplicate columns''
            else if \<exists>column\<in>set requested. column \<notin> set column_names
            then raise ConfigurationError ''upsert_update_columns contains columns that are not present''
            else if \<exists>column\<in>set requested. column \<in> set key_columns
            then raise ConfigurationError ''upsert_update_columns must not include idempotency key columns''
            else Inr requested))"

section \<open>Statements\<close>

datatype mysql_mode = Mysql_insert | Mysql_insert_ignore | Mysql_upsert | Mysql_append

record mysql_write_sql =
  mw_table_name :: string
  mw_quoted_table_name :: string
  mw_sql :: string
  mw_bind_names :: "string list"
  mw_columns :: "string list"
  mw_quoted_columns :: "string list"
  mw_key_columns :: "string list"
  mw_update_columns :: "string list"

definition insert_text :: "string \<Rightarrow> string \<Rightarrow> string list \<Rightarrow> string list \<Rightarrow> string" where
  "insert_text verb quoted_table quoted_columns bind_names =
     verb @ quoted_table @ '' ('' @ join_with '', '' quoted_columns @ '') values (''
       @ join_with '', '' (map (\<lambda>_. ''%s'') bind_names) @ '')''"

definition assignment :: "string \<Rightarrow> string res" where
  "assignment column =
     rbind (mysql_quote_identifier column) (\<lambda>left. rbind (mysql_quote_identifier column) (\<lambda>right.
       Inr (left @ '' = values('' @ right @ '')'')))"

definition mysql_build_write_sql ::
  "string \<Rightarrow> column_mapping \<Rightarrow> mysql_mode \<Rightarrow> string list \<Rightarrow> string list option \<Rightarrow> mysql_write_sql res" where
  "mysql_build_write_sql table columns mode key_columns upsert_update_columns =
     rbind (mysql_validate_identifier table) (\<lambda>table_name.
     rbind (mysql_quote_identifier table_name) (\<lambda>quoted_table.
     rbind (mysql_validated_columns columns) (\<lambda>write_columns.
     let bind_names = map fst write_columns; column_names = map snd write_columns in
     rbind (rmapM mysql_quote_identifier column_names) (\<lambda>quoted_columns.
     rbind (mysql_canonical_columns key_columns column_names Key_columns) (\<lambda>keys.
     let made = (\<lambda>sql ks us. \<lparr>mw_table_name = table_name, mw_quoted_table_name = quoted_table, mw_sql = sql,
           mw_bind_names = bind_names, mw_columns = column_names, mw_quoted_columns = quoted_columns,
           mw_key_columns = ks, mw_update_columns = us\<rparr>) in
     if \<not> distinct keys then raise ConfigurationError ''duplicate idempotency key columns are not allowed''
     else if keys = [] \<and> mode \<in> {Mysql_upsert, Mysql_insert_ignore}
     then raise ConfigurationError ''mode requires at least one idempotency key column''
     else case mode of
       Mysql_insert \<Rightarrow> Inr (made (insert_text ''insert into '' quoted_table quoted_columns bind_names) [] [])
     | Mysql_append \<Rightarrow> Inr (made (insert_text ''insert into '' quoted_table quoted_columns bind_names) [] [])
     | Mysql_insert_ignore \<Rightarrow>
         Inr (made (insert_text ''insert ignore into '' quoted_table quoted_columns bind_names) keys [])
     | Mysql_upsert \<Rightarrow>
         rbind (mysql_update_columns column_names keys upsert_update_columns) (\<lambda>updates.
         rbind (if updates \<noteq> [] then rmap (join_with '', '') (rmapM assignment updates)
                else rmap (\<lambda>first. first @ '' = '' @ first) (mysql_quote_identifier (hd keys))) (\<lambda>assignments.
           Inr (made (insert_text ''insert into '' quoted_table quoted_columns bind_names
             @ '' on duplicate key update '' @ assignments) keys updates))))))))"


section \<open>Recommended table\<close>

definition primary_key_name :: "pylib \<Rightarrow> string \<Rightarrow> string res" where
  "primary_key_name L table =
     rbind (mysql_validate_identifier table) (\<lambda>validated.
     let base = last (split_on (CHR ''.'') validated) in
     if length (base @ ''_pk'') \<le> 64 then mysql_validate_identifier (base @ ''_pk'')
     else (let digest = take 8 (l_sha256 L (utf8_encode base)) in
       mysql_validate_identifier (take (64 - length digest - 1) base @ ''_'' @ digest)))"

definition ddl_line :: "string \<Rightarrow> string" where
  "ddl_line s = char_of (10::nat) # s"

definition mysql_ddl_columns :: "string list" where
  "mysql_ddl_columns =
     [''    `STREAM_NAME` varchar(255) not null,'', ''    `STREAM_SEQUENCE` bigint not null,'', ''    `SUBJECT` text not null,'',
      ''    `MESSAGE_ID` varchar(512),'', ''    `PRIORITY` text,'', ''    `CLASSIFICATION` text,'', ''    `LABELS` text,'',
      ''    `RECEIVED_AT` timestamp(6) not null default current_timestamp(6),'',
      ''    `MESSAGE_CREATED_AT_EPOCH_NS` bigint,'', ''    `JETSTREAM_TIMESTAMP_EPOCH_NS` bigint,'',
      ''    `RECEIVED_AT_EPOCH_NS` bigint not null,'', ''    `STORED_AT_EPOCH_NS` bigint not null,'',
      ''    `PAYLOAD_JSON` json,'', ''    `HEADERS_JSON` json,'', ''    `METADATA_JSON` json,'',
      ''    `MISSION_METADATA_JSON` json,'', ''    `SECURITY_LABELS_JSON` json,'']"

definition mysql_create_table_ddl :: "pylib \<Rightarrow> string \<Rightarrow> string res" where
  "mysql_create_table_ddl L table =
     rbind (rbind (mysql_validate_identifier table) mysql_quote_identifier) (\<lambda>table_name.
     rbind (primary_key_name L table) (\<lambda>constraint_name.
       Inr (''create table if not exists '' @ table_name @ '' (''
         @ concat (map ddl_line mysql_ddl_columns)
         @ ddl_line (''    constraint `'' @ constraint_name @ ''` primary key (`STREAM_NAME`, `STREAM_SEQUENCE`)'')
         @ ddl_line '')'')))"

section \<open>Valid names\<close>

lemma mysql_name_chars:
  assumes "mysql_name s" shows "s \<noteq> []" "length s \<le> 64" "CHR ''.'' \<notin> set s" "BACKTICK \<notin> set s"
  using assms
  by (auto simp: mysql_name_def list_all_iff ascii_letter_def ascii_digit_def BACKTICK_def Let_def split: list.splits)

lemma mysql_validate_identifier_Inr:
  assumes "mysql_validate_identifier s = Inr v"
  shows "v = s" "list_all mysql_name (split_on (CHR ''.'') s)" "length (split_on (CHR ''.'') s) \<le> 2"
  using assms join_split [of "CHR ''.''" s]
  by (auto simp: mysql_validate_identifier_def raise_def Let_def list_all_iff split: if_splits)

lemma mysql_validate_column_Inr:
  assumes "mysql_validate_column s = Inr v" shows "v = s" "mysql_name s" "split_on (CHR ''.'') s = [s]"
proof -
  from assms have v: "mysql_validate_identifier s = Inr v" "CHR ''.'' \<notin> set v"
    by (auto simp: mysql_validate_column_def raise_def split: if_splits elim!: rbindE)
  note valid = mysql_validate_identifier_Inr [OF v(1)]
  from valid(1) show "v = s" .
  with v(2) show one: "split_on (CHR ''.'') s = [s]" by (intro split_on_single) simp
  with valid(2) show "mysql_name s" by simp
qed

lemma mysql_validate_name: "mysql_name s \<Longrightarrow> mysql_validate_identifier s = Inr s"
  using mysql_name_chars [of s] by (simp add: mysql_validate_identifier_def split_on_single Let_def)

lemma mysql_quote_name: "mysql_name s \<Longrightarrow> mysql_quote_identifier s = Inr (backticked s)"
  using mysql_name_chars [of s] by (simp add: mysql_quote_identifier_def mysql_validate_name split_on_single)

section \<open>What a statement is made of\<close>

text \<open>A statement read from the left: the text with every backticked name left out, and the names.\<close>

function scan_sql :: "string \<Rightarrow> string \<times> string list" where
  "scan_sql [] = ([], [])"
| "scan_sql (c # cs) =
     (if c = BACKTICK
      then (case scan_sql (tl (dropWhile (\<lambda>d. d \<noteq> BACKTICK) cs)) of (u, ns) \<Rightarrow>
          (BACKTICK # BACKTICK # u, takeWhile (\<lambda>d. d \<noteq> BACKTICK) cs # ns))
      else (case scan_sql cs of (u, ns) \<Rightarrow> (c # u, ns)))"
  by pat_completeness auto

termination
proof (relation "measure length")
  fix c :: char and cs
  have "length (tl (dropWhile (\<lambda>d. d \<noteq> BACKTICK) cs)) \<le> length cs"
    using length_dropWhile_le [of "\<lambda>d. d \<noteq> BACKTICK" cs] by simp
  then show "(tl (dropWhile (\<lambda>d. d \<noteq> BACKTICK) cs), c # cs) \<in> measure length" by simp
qed simp_all

definition reads_as :: "string \<Rightarrow> string \<Rightarrow> string list \<Rightarrow> bool" where
  "reads_as s u ns \<longleftrightarrow> (\<forall>rest. scan_sql (s @ rest) = (case scan_sql rest of (u', ns') \<Rightarrow> (u @ u', ns @ ns')))"

lemma reads_as_whole: "reads_as s u ns \<Longrightarrow> scan_sql s = (u, ns)"
  by (auto simp: reads_as_def dest: spec [of _ "[]"])

lemma reads_as_append: "reads_as s u ns \<Longrightarrow> reads_as s' u' ns' \<Longrightarrow> reads_as (s @ s') (u @ u') (ns @ ns')"
  by (auto simp: reads_as_def split: prod.splits)

lemma reads_as_plain: "BACKTICK \<notin> set s \<Longrightarrow> reads_as s s []"
  unfolding reads_as_def by (induction s) (auto split: prod.splits)

lemma reads_as_name:
  assumes "BACKTICK \<notin> set s" shows "reads_as (backticked s) (backticked []) [s]"
proof -
  have "takeWhile (\<lambda>d. d \<noteq> BACKTICK) (s @ BACKTICK # rest) = s" "dropWhile (\<lambda>d. d \<noteq> BACKTICK) (s @ BACKTICK # rest) = BACKTICK # rest" for rest
    using assms by (induction s) auto
  then show ?thesis by (simp add: reads_as_def backticked_def split: prod.splits)
qed

lemma reads_as_join:
  assumes "list_all2 (\<lambda>s (u, ns). reads_as s u ns) ss rs" "BACKTICK \<notin> set d"
  shows "reads_as (join_with d ss) (join_with d (map fst rs)) (concat (map snd rs))"
  using assms
proof (induction d ss arbitrary: rs rule: join_with.induct)
  case (3 d s t ss)
  then obtain r rs' where rs: "rs = r # rs'" "reads_as s (fst r) (snd r)" "list_all2 (\<lambda>s (u, ns). reads_as s u ns) (t # ss) rs'"
    by (auto simp: list_all2_Cons1 split: prod.splits)
  from reads_as_append [OF reads_as_append [OF rs(2) reads_as_plain [OF 3(3)]] 3(1) [OF rs(3) 3(3)]]
  show ?case using rs by (cases rs') (auto simp: list_all2_Cons1)
qed (auto simp: list_all2_Cons1 intro: reads_as_plain split: prod.splits)

lemma reads_as_names:
  assumes "list_all mysql_name ns" "BACKTICK \<notin> set d"
  shows "reads_as (join_with d (map backticked ns)) (join_with d (replicate (length ns) (backticked []))) ns"
proof -
  have "list_all2 (\<lambda>s (u, ms). reads_as s u ms) (map backticked ns) (map (\<lambda>n. (backticked [], [n])) ns)"
    using assms(1) by (auto simp: list_all2_conv_all_nth list_all_length intro!: reads_as_name dest: mysql_name_chars(4))
  from reads_as_join [OF this assms(2)] show ?thesis
    by (simp add: comp_def map_replicate_const concat_map_singleton)
qed

text \<open>The text of a statement with the names left out: it depends on the write mode, on whether the table is
  qualified and on how many columns are updated, not on any configured name.\<close>

definition mysql_insert_skeleton :: "mysql_mode \<Rightarrow> nat \<Rightarrow> nat \<Rightarrow> string" where
  "mysql_insert_skeleton mode parts columns =
     insert_text (if mode = Mysql_insert_ignore then ''insert ignore into '' else ''insert into '')
       (join_with ''.'' (replicate parts (backticked []))) (replicate columns (backticked [])) (replicate columns [])"

definition mysql_skeleton :: "mysql_mode \<Rightarrow> nat \<Rightarrow> nat \<Rightarrow> nat \<Rightarrow> string" where
  "mysql_skeleton mode parts columns updates =
     mysql_insert_skeleton mode parts columns @
     (if mode = Mysql_upsert
      then '' on duplicate key update '' @
        (if updates = 0 then backticked [] @ '' = '' @ backticked []
         else join_with '', '' (replicate updates (backticked [] @ '' = values('' @ backticked [] @ '')'')))
      else [])"

definition mysql_names_in :: "mysql_mode \<Rightarrow> mysql_write_sql \<Rightarrow> string list" where
  "mysql_names_in mode w =
     split_on (CHR ''.'') (mw_table_name w) @ mw_columns w
     @ (if mode = Mysql_upsert
        then (if mw_update_columns w = [] then [hd (mw_key_columns w), hd (mw_key_columns w)]
              else concat (map (\<lambda>c. [c, c]) (mw_update_columns w)))
        else [])"

lemma mysql_quote_Inr:
  assumes "mysql_quote_identifier s = Inr q"
  shows "list_all mysql_name (split_on (CHR ''.'') s)" "q = join_with ''.'' (map backticked (split_on (CHR ''.'') s))"
  using assms mysql_validate_identifier_Inr [of s] by (auto simp: mysql_quote_identifier_def rmap_Inr_iff)

lemma mysql_validated_columns_Inr:
  assumes "mysql_validated_columns c = Inr wc"
  shows "wc = bound_columns c" "list_all (mysql_name \<circ> snd) wc" "distinct (map (casefold \<circ> snd) wc)"
proof -
  from assms have wc: "rmapM (\<lambda>(bind, column). rmap (Pair bind) (mysql_validate_column column)) (bound_columns c) = Inr wc"
    and "distinct (map (casefold \<circ> snd) wc)"
    by (auto simp: mysql_validated_columns_def raise_def split: if_splits elim!: rbindE)
  then show "distinct (map (casefold \<circ> snd) wc)" by simp
  show "wc = bound_columns c"
    using wc by (rule rmapM_fixed) (auto simp: rmap_Inr_iff dest: mysql_validate_column_Inr(1))
  show "list_all (mysql_name \<circ> snd) wc"
    using wc
  proof (rule rmapM_all)
    fix bc r assume "(case bc of (bind, column) \<Rightarrow> rmap (Pair bind) (mysql_validate_column column)) = Inr r"
    then show "(mysql_name \<circ> snd) r"
      using mysql_validate_column_Inr [of "snd bc" "snd r"] by (auto simp: rmap_Inr_iff split: prod.splits)
  qed
qed

lemma mysql_canonical_columns_Inr:
  assumes "mysql_canonical_columns cs names ctx = Inr ks"
  shows "set ks \<subseteq> set names" "length ks = length cs" "map casefold ks = map casefold cs"
proof -
  let ?lookup = "map_of (rev (map (\<lambda>column. (casefold column, column)) names))"
  from assms obtain req where req: "rmapM mysql_validate_column cs = Inr req"
    and ks: "rmapM (\<lambda>column. case ?lookup (casefold column) of Some k \<Rightarrow> Inr k
        | None \<Rightarrow> raise ConfigurationError (case ctx of
               Key_columns \<Rightarrow> ''idempotency key columns must reference columns present in the Oracle MySQL column mapping''
             | Update_columns \<Rightarrow> ''upsert_update_columns contains columns that are not present in the column mapping'')) req = Inr ks"
    by (auto simp: mysql_canonical_columns_def raise_def Let_def split: if_splits elim!: rbindE)
  have same: "req = cs" using req by (rule rmapM_fixed) (rule mysql_validate_column_Inr(1))
  have "?lookup x = Some k \<Longrightarrow> k \<in> set names \<and> casefold k = x" for x k
    by (auto dest: map_of_SomeD)
  then have each: "list_all2 (\<lambda>c k. k \<in> set names \<and> casefold k = casefold c) cs ks"
    using ks unfolding same rmapM_Inr_iff by (rule list_all2_mono [rotated]) (auto simp: raise_def split: option.splits)
  then show "set ks \<subseteq> set names" "length ks = length cs" "map casefold ks = map casefold cs"
    by (auto simp: list_all2_conv_all_nth in_set_conv_nth intro!: nth_equalityI)
qed

lemma mysql_update_columns_Inr:
  assumes "mysql_update_columns names ks upd = Inr us" shows "set us \<subseteq> set names" "set us \<inter> set ks = {}"
  using assms
  by (auto simp: mysql_update_columns_def raise_def split: option.splits if_splits elim!: rbindE
      dest: mysql_canonical_columns_Inr(1))

lemma reads_as_assignments:
  assumes "list_all mysql_name us" "rmapM assignment us = Inr as"
  shows "reads_as (join_with '', '' as)
      (join_with '', '' (replicate (length us) (backticked [] @ '' = values('' @ backticked [] @ '')'')))
      (concat (map (\<lambda>c. [c, c]) us))"
proof -
  have one: "reads_as (backticked c @ '' = values('' @ backticked c @ '')'') (backticked [] @ '' = values('' @ backticked [] @ '')'') [c, c]"
    if "mysql_name c" for c
  proof -
    from that have n: "reads_as (backticked c) (backticked []) [c]" by (intro reads_as_name) (rule mysql_name_chars)
    have "BACKTICK \<notin> set '' = values(''" "BACKTICK \<notin> set '')''" by (simp_all add: BACKTICK_def)
    then have p: "reads_as '' = values('' '' = values('' []" "reads_as '')'' '')'' []" by (auto intro: reads_as_plain)
    from reads_as_append [OF n reads_as_append [OF p(1) reads_as_append [OF n p(2)]]] show ?thesis by simp
  qed
  have "as = map (\<lambda>c. backticked c @ '' = values('' @ backticked c @ '')'') us"
  proof -
    have "list_all2 (\<lambda>c a. assignment c = Inr a) us as" using assms(2) by (simp add: rmapM_Inr_iff)
    then have "list_all2 (\<lambda>c a. a = backticked c @ '' = values('' @ backticked c @ '')'') us as"
      using assms(1) by (auto simp: list_all2_conv_all_nth list_all_length assignment_def mysql_quote_name)
    then show ?thesis by (auto simp: list_all2_conv_all_nth intro!: nth_equalityI)
  qed
  moreover have "list_all2 (\<lambda>s (u, ns). reads_as s u ns) (map (\<lambda>c. backticked c @ '' = values('' @ backticked c @ '')'') us)
      (map (\<lambda>c. (backticked [] @ '' = values('' @ backticked [] @ '')'', [c, c])) us)"
    using assms(1) one by (auto simp: list_all2_conv_all_nth list_all_length)
  moreover have "BACKTICK \<notin> set '', ''" by (simp add: BACKTICK_def)
  ultimately show ?thesis
    using reads_as_join by (fastforce simp: comp_def map_replicate_const)
qed

text \<open>What a built statement consists of.\<close>

definition mysql_built ::
  "string \<Rightarrow> column_mapping \<Rightarrow> mysql_mode \<Rightarrow> string list \<Rightarrow> string list option \<Rightarrow> mysql_write_sql \<Rightarrow> string list \<Rightarrow> string \<Rightarrow> bool" where
  "mysql_built table columns mode keys updates w ks tail \<longleftrightarrow>
     mw_table_name w = table \<and> mysql_validate_identifier table = Inr table
     \<and> mysql_quote_identifier table = Inr (mw_quoted_table_name w)
     \<and> mysql_validated_columns columns = Inr (bound_columns columns)
     \<and> mw_bind_names w = map fst (bound_columns columns) \<and> mw_columns w = map snd (bound_columns columns)
     \<and> rmapM mysql_quote_identifier (mw_columns w) = Inr (mw_quoted_columns w)
     \<and> mysql_canonical_columns keys (mw_columns w) Key_columns = Inr ks
     \<and> mw_key_columns w = (if mode \<in> {Mysql_insert, Mysql_append} then [] else ks)
     \<and> mw_sql w = insert_text (if mode = Mysql_insert_ignore then ''insert ignore into '' else ''insert into '')
         (mw_quoted_table_name w) (mw_quoted_columns w) (mw_bind_names w) @ tail"

lemma mysql_build_Inr:
  assumes "mysql_build_write_sql table columns mode keys updates = Inr w"
  obtains ks tail where "mysql_built table columns mode keys updates w ks tail"
    "mode \<noteq> Mysql_upsert \<Longrightarrow> tail = [] \<and> mw_update_columns w = []" "mode \<in> {Mysql_upsert, Mysql_insert_ignore} \<Longrightarrow> ks \<noteq> []"
    "mode = Mysql_upsert \<Longrightarrow> mysql_update_columns (mw_columns w) ks updates = Inr (mw_update_columns w)
       \<and> (\<exists>assignments. tail = '' on duplicate key update '' @ assignments
         \<and> (if mw_update_columns w \<noteq> [] then rmap (join_with '', '') (rmapM assignment (mw_update_columns w))
            else rmap (\<lambda>first. first @ '' = '' @ first) (mysql_quote_identifier (hd ks))) = Inr assignments)"
proof -
  from assms obtain t qt wc qcs ks where t: "mysql_validate_identifier table = Inr t" "mysql_quote_identifier t = Inr qt"
    and wc: "mysql_validated_columns columns = Inr wc" and qcs: "rmapM mysql_quote_identifier (map snd wc) = Inr qcs"
    and ks: "mysql_canonical_columns keys (map snd wc) Key_columns = Inr ks"
    unfolding mysql_build_write_sql_def Let_def by (auto simp only: rbind_Inr_iff)
  have same: "t = table" "wc = bound_columns columns"
    using mysql_validate_identifier_Inr(1) [OF t(1)] mysql_validated_columns_Inr(1) [OF wc] by simp_all
  note run = assms [unfolded mysql_build_write_sql_def Let_def, simplified t(1) t(2) wc qcs ks rbind_simps]
  have keys: "distinct ks" "mode \<in> {Mysql_upsert, Mysql_insert_ignore} \<Longrightarrow> ks \<noteq> []"
    using run by (auto simp: raise_def split: if_splits)
  show thesis
  proof (cases "mode = Mysql_upsert")
    case False
    show thesis
      by (rule that [of ks "[]"], unfold mysql_built_def)
        (use run False keys t wc qcs ks same in \<open>cases mode; force simp: raise_def split: if_splits\<close>)+
  next
    case True
    from True run keys obtain us where us: "mysql_update_columns (map snd wc) ks updates = Inr us"
      by (auto simp: rbind_Inr_iff)
    from True run keys us obtain assignments where as: "(if us \<noteq> [] then rmap (join_with '', '') (rmapM assignment us)
            else rmap (\<lambda>first. first @ '' = '' @ first) (mysql_quote_identifier (hd ks))) = Inr assignments"
      by (auto simp: rbind_Inr_iff)
    from True run keys us as have w: "w = \<lparr>mw_table_name = t, mw_quoted_table_name = qt,
        mw_sql = insert_text ''insert into '' qt qcs (map fst wc) @ '' on duplicate key update '' @ assignments,
        mw_bind_names = map fst wc, mw_columns = map snd wc, mw_quoted_columns = qcs, mw_key_columns = ks, mw_update_columns = us\<rparr>"
      by simp
    show thesis
      by (rule that [of ks "'' on duplicate key update '' @ assignments"])
        (use True keys t wc qcs ks us as same in \<open>simp_all add: w mysql_built_def split: if_splits\<close>)
  qed
qed

lemma reads_as_insert:
  assumes "list_all mysql_name parts" "list_all mysql_name cols" "BACKTICK \<notin> set verb"
  shows "reads_as (insert_text verb (join_with ''.'' (map backticked parts)) (map backticked cols) binds)
      (insert_text verb (join_with ''.'' (replicate (length parts) (backticked []))) (replicate (length cols) (backticked [])) binds)
      (parts @ cols)"
proof -
  have lits: "BACKTICK \<notin> set '' (''" "BACKTICK \<notin> set '') values (''" "BACKTICK \<notin> set '')''" "BACKTICK \<notin> set '', ''" "BACKTICK \<notin> set ''.''"
    by (simp_all add: BACKTICK_def)
  have "BACKTICK \<notin> set (join_with '', '' (map (\<lambda>_. ''%s'') binds))"
    by (induction binds rule: induct_list012) (simp_all add: BACKTICK_def)
  from reads_as_append [OF reads_as_plain [OF assms(3)] reads_as_append [OF reads_as_names [OF assms(1) lits(5)]
      reads_as_append [OF reads_as_plain [OF lits(1)] reads_as_append [OF reads_as_names [OF assms(2) lits(4)]
      reads_as_append [OF reads_as_plain [OF lits(2)] reads_as_append [OF reads_as_plain [OF this] reads_as_plain [OF lits(3)]]]]]]]
  show ?thesis by (simp add: insert_text_def)
qed

lemma reads_as_updates:
  assumes "list_all mysql_name us" "mysql_name key"
    and "(if us \<noteq> [] then rmap (join_with '', '') (rmapM assignment us)
          else rmap (\<lambda>first. first @ '' = '' @ first) (mysql_quote_identifier key)) = Inr assignments"
  shows "reads_as ('' on duplicate key update '' @ assignments)
      ('' on duplicate key update '' @ (if us = [] then backticked [] @ '' = '' @ backticked []
         else join_with '', '' (replicate (length us) (backticked [] @ '' = values('' @ backticked [] @ '')''))))
      (if us = [] then [key, key] else concat (map (\<lambda>c. [c, c]) us))"
proof -
  have lits: "BACKTICK \<notin> set '' on duplicate key update ''" "BACKTICK \<notin> set '' = ''" by (simp_all add: BACKTICK_def)
  have "reads_as assignments (if us = [] then backticked [] @ '' = '' @ backticked []
         else join_with '', '' (replicate (length us) (backticked [] @ '' = values('' @ backticked [] @ '')'')))
      (if us = [] then [key, key] else concat (map (\<lambda>c. [c, c]) us))"
  proof (cases "us = []")
    case True
    have n: "reads_as (backticked key) (backticked []) [key]" using assms(2) by (intro reads_as_name) (rule mysql_name_chars)
    from reads_as_append [OF n reads_as_append [OF reads_as_plain [OF lits(2)] n]] assms True
    show ?thesis by (simp add: mysql_quote_name)
  next
    case False
    with assms reads_as_assignments [OF assms(1)] show ?thesis by (auto simp: rmap_Inr_iff)
  qed
  from reads_as_append [OF reads_as_plain [OF lits(1)] this] show ?thesis by simp
qed

text \<open>C34: configuration cannot change what a statement does.  Outside the backticked names, a generated
  statement is a fixed text that depends only on the write mode, on whether the table is qualified and on the
  number of updated columns, with one placeholder for each of the sixteen bound values; the names are those of
  the table, the columns and the updated columns, each of at most 64 letters, digits, \<open>_\<close> and \<open>$\<close>.\<close>

theorem mysql_statement_text_fixed:
  assumes "mysql_build_write_sql table columns mode keys updates = Inr w"
  shows "scan_sql (mw_sql w) =
        (mysql_skeleton mode (length (split_on (CHR ''.'') table)) 16 (length (mw_update_columns w)), mysql_names_in mode w)
      \<and> list_all mysql_name (mysql_names_in mode w)"
proof (rule mysql_build_Inr [OF assms])
  fix ks tail
  assume "mysql_built table columns mode keys updates w ks tail"
    and plain: "mode \<noteq> Mysql_upsert \<Longrightarrow> tail = [] \<and> mw_update_columns w = []"
    and some: "mode \<in> {Mysql_upsert, Mysql_insert_ignore} \<Longrightarrow> ks \<noteq> []"
    and upsert: "mode = Mysql_upsert \<Longrightarrow> mysql_update_columns (mw_columns w) ks updates = Inr (mw_update_columns w)
       \<and> (\<exists>assignments. tail = '' on duplicate key update '' @ assignments
         \<and> (if mw_update_columns w \<noteq> [] then rmap (join_with '', '') (rmapM assignment (mw_update_columns w))
            else rmap (\<lambda>first. first @ '' = '' @ first) (mysql_quote_identifier (hd ks))) = Inr assignments)"
  then have b: "mw_table_name w = table" "mysql_quote_identifier table = Inr (mw_quoted_table_name w)"
    "mysql_validated_columns columns = Inr (bound_columns columns)" "mw_bind_names w = map fst (bound_columns columns)"
    "mw_columns w = map snd (bound_columns columns)" "rmapM mysql_quote_identifier (mw_columns w) = Inr (mw_quoted_columns w)"
    "mysql_canonical_columns keys (mw_columns w) Key_columns = Inr ks"
    "mw_key_columns w = (if mode \<in> {Mysql_insert, Mysql_append} then [] else ks)"
    "mw_sql w = insert_text (if mode = Mysql_insert_ignore then ''insert ignore into '' else ''insert into '')
         (mw_quoted_table_name w) (mw_quoted_columns w) (mw_bind_names w) @ tail"
    unfolding mysql_built_def by blast+
  let ?parts = "split_on (CHR ''.'') table"
  note parts = mysql_quote_Inr [OF b(2)]
  have columns: "list_all mysql_name (mw_columns w)"
    using mysql_validated_columns_Inr(2) [OF b(3)] b(5) by (simp add: list.pred_map)
  have counts: "length (mw_bind_names w) = 16" "length (mw_columns w) = 16" using b(4,5) by (simp_all add: bound_columns_def)
  have quoted: "mw_quoted_columns w = map backticked (mw_columns w)"
    using b(6) columns by (auto simp: rmapM_Inr_iff list_all2_conv_all_nth list_all_length mysql_quote_name intro!: nth_equalityI)
  have verb: "BACKTICK \<notin> set (if mode = Mysql_insert_ignore then ''insert ignore into '' else ''insert into '')"
    by (simp add: BACKTICK_def)
  have head: "reads_as (insert_text (if mode = Mysql_insert_ignore then ''insert ignore into '' else ''insert into '')
        (mw_quoted_table_name w) (mw_quoted_columns w) (mw_bind_names w))
      (mysql_insert_skeleton mode (length ?parts) 16) (?parts @ mw_columns w)"
    using reads_as_insert [OF parts(1) columns verb, of "mw_bind_names w"] counts
    by (simp add: mysql_insert_skeleton_def parts(2) quoted insert_text_def map_replicate_const)
  show ?thesis
  proof (cases "mode = Mysql_upsert")
    case False
    with plain head b(9) show ?thesis
      using columns parts b(1) by (simp add: reads_as_whole mysql_skeleton_def mysql_names_in_def)
  next
    case True
    from upsert [OF True] obtain assignments where us: "mysql_update_columns (mw_columns w) ks updates = Inr (mw_update_columns w)"
      and tail: "tail = '' on duplicate key update '' @ assignments"
      and as: "(if mw_update_columns w \<noteq> [] then rmap (join_with '', '') (rmapM assignment (mw_update_columns w))
            else rmap (\<lambda>first. first @ '' = '' @ first) (mysql_quote_identifier (hd ks))) = Inr assignments" by blast
    have names: "list_all mysql_name (mw_update_columns w)" "mysql_name (hd ks)"
      using mysql_update_columns_Inr(1) [OF us] columns mysql_canonical_columns_Inr(1) [OF b(7)] some True
      by (auto simp: list_all_iff dest: hd_in_set)
    from reads_as_whole [OF reads_as_append [OF head reads_as_updates [OF names as]]] b(9) tail True b(8)
    have "scan_sql (mw_sql w) = (mysql_skeleton mode (length ?parts) 16 (length (mw_update_columns w)), mysql_names_in mode w)"
      by (simp add: mysql_skeleton_def mysql_names_in_def b(1))
    with True columns parts names b(1,8) show ?thesis
      by (auto simp: mysql_names_in_def list_all_iff)
  qed
qed

definition short_columns :: column_mapping where
  "short_columns = \<lparr>cm_stream_name = ''A'', cm_stream_sequence = ''B'', cm_subject = ''C'', cm_message_id = ''D'', cm_priority = ''E'',
     cm_classification = ''F'', cm_labels = ''G'', cm_message_created_at_epoch_ns = ''H'', cm_jetstream_timestamp_epoch_ns = ''I'',
     cm_received_at_epoch_ns = ''J'', cm_stored_at_epoch_ns = ''K'', cm_payload = ''L'', cm_headers = ''M'', cm_metadata = ''N'',
     cm_mission_metadata = ''O'', cm_security_labels = ''P''\<rparr>"

lemma mysql_statement_text_fixed_witness:
  "\<exists>w. mysql_build_write_sql ''s.T'' short_columns Mysql_upsert [''A'', ''b''] (Some []) = Inr w
    \<and> fst (scan_sql (mw_sql w)) = mysql_skeleton Mysql_upsert 2 16 0"
proof -
  have "case mysql_build_write_sql ''s.T'' short_columns Mysql_upsert [''A'', ''b''] (Some []) of
      Inr w \<Rightarrow> mw_update_columns w = [] | Inl err \<Rightarrow> False" by code_simp
  then obtain w where w: "mysql_build_write_sql ''s.T'' short_columns Mysql_upsert [''A'', ''b''] (Some []) = Inr w"
    "mw_update_columns w = []" by (auto split: sum.splits)
  have "length (split_on (CHR ''.'') ''s.T'') = 2" by simp
  with mysql_statement_text_fixed [OF w(1)] w show ?thesis by (metis fst_conv list.size(3))
qed

text \<open>The recommended DDL can be made for every table that passes the checks.  Whatever the length of its
  name, the primary key gets a valid name of at most 64 characters, so that schema creation never fails on it.\<close>

theorem primary_key_name_total:
  assumes "mysql_validate_identifier table = Inr t" "\<And>b. length (l_sha256 L b) = 64 \<and> list_all (\<lambda>c. ascii_letter c \<or> ascii_digit c) (l_sha256 L b)"
  shows "\<exists>name. primary_key_name L table = Inr name \<and> mysql_name name"
proof -
  let ?base = "last (split_on (CHR ''.'') table)" and ?digest = "take 8 (l_sha256 L (utf8_encode (last (split_on (CHR ''.'') table))))"
  note valid = mysql_validate_identifier_Inr [OF assms(1)]
  have base: "mysql_name ?base" using valid(2) by (simp add: list_all_iff)
  then obtain c cs where b: "?base = c # cs" "ascii_letter c \<or> c = CHR ''_''" "length cs \<le> 63"
    "list_all (\<lambda>c. ascii_letter c \<or> ascii_digit c \<or> c \<in> {CHR ''_'', CHR ''$''}) cs"
    by (auto simp: mysql_name_def split: list.splits)
  have d: "length ?digest = 8" "list_all (\<lambda>c. ascii_letter c \<or> ascii_digit c) ?digest"
    using assms(2) [of "utf8_encode ?base"] by (auto simp: list_all_iff dest!: in_set_takeD)
  show ?thesis
  proof (cases "length (?base @ ''_pk'') \<le> 64")
    case True
    then have "mysql_name (?base @ ''_pk'')" using b by (simp add: mysql_name_def ascii_letter_def)
    with True show ?thesis using assms(1) valid(1) by (simp add: primary_key_name_def Let_def mysql_validate_name)
  next
    case False
    have "mysql_name (take 55 ?base @ ''_'' @ ?digest)"
      using b d by (auto simp: mysql_name_def list_all_iff dest: in_set_takeD)
    with False show ?thesis using assms(1) valid(1) d(1) by (simp add: primary_key_name_def Let_def mysql_validate_name)
  qed
qed

lemma primary_key_name_total_witness:
  "\<exists>name. primary_key_name (plain_lib\<lparr>l_sha256 := \<lambda>_. replicate 64 (CHR ''a'')\<rparr>) (replicate 64 (CHR ''T'')) = Inr name \<and> mysql_name name"
proof -
  have "mysql_validate_identifier (replicate 64 (CHR ''T'')) = Inr (replicate 64 (CHR ''T''))" by code_simp
  then show ?thesis by (rule primary_key_name_total) (simp add: list_all_iff ascii_letter_def)
qed

end
