(* ===== verification/MySqlConfig.thy ===== *)
theory MySqlConfig
  imports MySqlText RelationalRow
begin

text \<open>
  The configuration of the Oracle MySQL sink (\<open>mysql/config.py\<close>): the field validators, the checks across
  fields, and the resolution of the password.  Types and defaults of fields are those of the records; the
  environment of the process is a parameter.
\<close>

section \<open>Text fields\<close>

definition config_control_characters :: "string \<Rightarrow> bool" where
  "config_control_characters value \<longleftrightarrow> (\<exists>c\<in>set value. of_char c < (32::nat) \<or> of_char c = (127::nat))"

definition non_empty_public_text :: "string \<Rightarrow> string res" where
  "non_empty_public_text value =
     (if strip value = [] then raise ValueError ''Oracle MySQL connection field must not be empty''
      else if config_control_characters (strip value)
      then raise ValueError ''Oracle MySQL connection field must not contain control characters''
      else Inr (strip value))"

definition optional_secret_value :: "string option \<Rightarrow> string option res" where
  "optional_secret_value value =
     (case value of
        None \<Rightarrow> Inr None
      | Some v \<Rightarrow>
          if strip v = [] then raise ValueError ''sink.password must not be empty''
          else if config_control_characters v then raise ValueError ''sink.password must not contain control characters''
          else Inr (Some v))"

text \<open>\<open>^[A-Z_][A-Z0-9_]{0,127}$\<close>, matched against the whole text.\<close>

definition ascii_upper :: "char \<Rightarrow> bool" where
  "ascii_upper c \<longleftrightarrow> (let n = of_char c :: nat in 65 \<le> n \<and> n \<le> 90)"

definition env_name :: "string \<Rightarrow> bool" where
  "env_name s \<longleftrightarrow> (case s of
      [] \<Rightarrow> False
    | c # cs \<Rightarrow> (ascii_upper c \<or> c = CHR ''_'') \<and> length cs \<le> 127
        \<and> list_all (\<lambda>c. ascii_upper c \<or> ascii_digit c \<or> c = CHR ''_'') cs)"

definition optional_env_name :: "string option \<Rightarrow> string option res" where
  "optional_env_name value =
     (case value of
        None \<Rightarrow> Inr None
      | Some v \<Rightarrow>
          if v \<noteq> strip v \<or> \<not> env_name v
          then raise ValueError ''sink.password_env must be an uppercase environment variable name'' else Inr (Some v))"

definition optional_path :: "string option \<Rightarrow> string option res" where
  "optional_path value =
     (case value of
        None \<Rightarrow> Inr None
      | Some v \<Rightarrow>
          if strip v = [] then raise ValueError ''TLS path must not be empty''
          else if strip v \<noteq> v \<or> config_control_characters v
          then raise ValueError ''TLS path must not contain whitespace padding or control characters''
          else Inr (Some v))"

text \<open>\<open>^[A-Za-z][A-Za-z0-9_.:-]{0,127}$\<close>, matched against the whole text.\<close>

definition pool_name_text :: "string \<Rightarrow> bool" where
  "pool_name_text s \<longleftrightarrow> (case s of
      [] \<Rightarrow> False
    | c # cs \<Rightarrow> ascii_letter c \<and> length cs \<le> 127
        \<and> list_all (\<lambda>c. ascii_letter c \<or> ascii_digit c \<or> c \<in> {CHR ''_'', CHR ''.'', CHR '':'', CHR ''-''}) cs)"

definition optional_pool_name :: "string option \<Rightarrow> string option res" where
  "optional_pool_name value =
     (case value of
        None \<Rightarrow> Inr None
      | Some v \<Rightarrow>
          if v \<noteq> strip v \<or> \<not> pool_name_text v then raise ValueError ''sink.pool_name must start with a letter'' else Inr (Some v))"

section \<open>The sink configuration\<close>

record mysql_config =
  my_host :: string
  my_port :: int
  my_database :: string
  my_user :: string
  my_password :: "string option"
  my_password_env :: "string option"
  my_connection_timeout :: rat
  my_ssl_ca :: "string option"
  my_ssl_cert :: "string option"
  my_ssl_key :: "string option"
  my_ssl_verify_identity :: bool
  my_ssl_disabled :: bool
  my_table :: string
  my_table_routes :: "table_route list"
  my_mode :: mysql_mode
  my_upsert_update_columns :: "string list option"
  my_auto_create :: bool
  my_payload_mode :: storage_mode
  my_payload_column :: "string option"
  my_headers_column :: "string option"
  my_columns :: column_mapping
  my_idempotency :: idempotency_config
  my_pool_name :: "string option"
  my_pool_size :: int

definition make_table_route :: "table_route \<Rightarrow> table_route res" where
  "make_table_route r =
     rmap (\<lambda>i. r\<lparr>tr_idempotency := i\<rparr>)
       (case tr_idempotency r of None \<Rightarrow> Inr None | Some c \<Rightarrow> rmap Some (make_idempotency_config c))"

definition present :: "string option \<Rightarrow> bool" where
  "present v \<longleftrightarrow> v \<noteq> None \<and> v \<noteq> Some []"

definition validate_secret_and_mode :: "mysql_config \<Rightarrow> mysql_config res" where
  "validate_secret_and_mode c =
     (if my_password c = None \<and> my_password_env c = None
      then raise ValueError ''either sink.password or sink.password_env must be configured''
      else if my_password c \<noteq> None \<and> my_password_env c \<noteq> None
      then raise ValueError ''sink.password and sink.password_env cannot both be configured''
      else if my_ssl_disabled c \<and> (present (my_ssl_ca c) \<or> present (my_ssl_cert c) \<or> present (my_ssl_key c))
      then raise ValueError ''sink.ssl_disabled cannot be combined with TLS certificate options''
      else if present (my_ssl_cert c) \<and> \<not> present (my_ssl_key c) then raise ValueError ''sink.ssl_cert requires sink.ssl_key''
      else if present (my_ssl_key c) \<and> \<not> present (my_ssl_cert c) then raise ValueError ''sink.ssl_key requires sink.ssl_cert''
      else
        let columns1 = (if present (my_payload_column c) then (my_columns c)\<lparr>cm_payload := the (my_payload_column c)\<rparr> else my_columns c);
            columns2 = (if present (my_headers_column c) then columns1\<lparr>cm_headers := the (my_headers_column c)\<rparr> else columns1)
        in if my_upsert_update_columns c \<noteq> None \<and> my_mode c \<noteq> Mysql_upsert
           then raise ValueError ''sink.upsert_update_columns applies only when sink.mode is upsert''
           else if \<exists>r\<in>set (my_table_routes c). tr_update_columns r \<noteq> None \<and> my_mode c \<noteq> Mysql_upsert
           then raise ValueError ''sink.table_routes[].upsert_update_columns applies only when sink.mode is upsert''
           else Inr (c\<lparr>my_columns := columns2\<rparr>))"

definition make_mysql_config :: "mysql_config \<Rightarrow> mysql_config res" where
  "make_mysql_config c =
     rbind (non_empty_public_text (my_host c)) (\<lambda>host.
     rbind (if 1 \<le> my_port c \<and> my_port c \<le> 65535 then Inr () else raise ValueError ''port out of range'') (\<lambda>_.
     rbind (non_empty_public_text (my_database c)) (\<lambda>database.
     rbind (non_empty_public_text (my_user c)) (\<lambda>user.
     rbind (optional_secret_value (my_password c)) (\<lambda>password.
     rbind (optional_env_name (my_password_env c)) (\<lambda>password_env.
     rbind (if 0 < my_connection_timeout c then Inr () else raise ValueError ''connection_timeout out of range'') (\<lambda>_.
     rbind (optional_path (my_ssl_ca c)) (\<lambda>ca.
     rbind (optional_path (my_ssl_cert c)) (\<lambda>cert.
     rbind (optional_path (my_ssl_key c)) (\<lambda>key.
     rbind (rmapM make_table_route (my_table_routes c)) (\<lambda>routes.
     rbind (make_idempotency_config (my_idempotency c)) (\<lambda>idempotency.
     rbind (optional_pool_name (my_pool_name c)) (\<lambda>pool.
     rbind (if 1 \<le> my_pool_size c \<and> my_pool_size c \<le> 32 then Inr () else raise ValueError ''pool_size out of range'') (\<lambda>_.
       validate_secret_and_mode (c\<lparr>my_host := host, my_database := database, my_user := user, my_password := password,
         my_password_env := password_env, my_ssl_ca := ca, my_ssl_cert := cert, my_ssl_key := key,
         my_table_routes := routes, my_idempotency := idempotency, my_pool_name := pool\<rparr>)))))))))))))))"

definition mysql_resolve_password :: "(string \<Rightarrow> string option) \<Rightarrow> mysql_config \<Rightarrow> string res" where
  "mysql_resolve_password getenv c =
     (case my_password c of
        Some p \<Rightarrow> Inr p
      | None \<Rightarrow>
          if \<not> present (my_password_env c) then raise ConfigurationError ''Oracle MySQL password_env is not configured''
          else (case getenv (the (my_password_env c)) of
              None \<Rightarrow> raise ConfigurationError ''environment variable is not set''
            | Some p \<Rightarrow>
                if strip p = [] then raise ConfigurationError ''environment variable must not be empty''
                else if config_control_characters p
                then raise ConfigurationError ''environment variable must not contain control characters''
                else Inr p))"

text \<open>\<open>max(1, math.ceil(timeout))\<close>.\<close>

definition driver_connection_timeout_seconds :: "mysql_config \<Rightarrow> int" where
  "driver_connection_timeout_seconds c = max 1 (ceiling (my_connection_timeout c))"

definition mysql_pool_options :: "(string \<Rightarrow> string option) \<Rightarrow> mysql_config \<Rightarrow> (string \<times> pyval) list res" where
  "mysql_pool_options getenv c =
     rmap (\<lambda>password.
         [(''pool_size'', PInt (my_pool_size c)), (''host'', PStr (my_host c)), (''port'', PInt (my_port c)),
          (''database'', PStr (my_database c)), (''user'', PStr (my_user c)), (''password'', PStr password),
          (''connection_timeout'', PInt (driver_connection_timeout_seconds c)), (''autocommit'', PBool False)]
         @ (if present (my_pool_name c) then [(''pool_name'', opt_str (my_pool_name c))] else [])
         @ (if my_ssl_disabled c then [(''ssl_disabled'', PBool True)]
            else (if present (my_ssl_ca c)
                  then [(''ssl_ca'', opt_str (my_ssl_ca c)), (''ssl_verify_identity'', PBool (my_ssl_verify_identity c))] else [])
              @ (if present (my_ssl_cert c) then [(''ssl_cert'', opt_str (my_ssl_cert c))] else [])
              @ (if present (my_ssl_key c) then [(''ssl_key'', opt_str (my_ssl_key c))] else [])))
       (mysql_resolve_password getenv c)"

end
