(* ===== verification/MySqlSink.thy ===== *)
theory MySqlSink
  imports TableBatches MySqlConfig
begin

text \<open>
  The Oracle MySQL sink (\<open>mysql/sink.py\<close>, \<open>mysql/errors.py\<close>): one policy and one statement per table,
  rows grouped by table, one transaction per batch, and the translation of driver errors.
\<close>

section \<open>Errors\<close>

text \<open>Word characters of a pattern on text: letters, digits, numeric signs and the underscore.\<close>

definition word_char :: "char \<Rightarrow> bool" where
  "word_char c \<longleftrightarrow> (let n = of_char c :: nat in
     ascii_letter c \<or> ascii_digit c \<or> c = CHR ''_'' \<or> n \<in> {170, 178, 179, 181, 185, 186, 188, 189, 190}
     \<or> (192 \<le> n \<and> n \<noteq> 215 \<and> n \<noteq> 247))"

definition digits_value :: "string \<Rightarrow> int" where
  "digits_value ds = int (foldl (\<lambda>n c. 10 * n + (of_char c - 48)) 0 ds)"

text \<open>\<open>\b(\d{4})\b\<close>: the first run of exactly four digits that no other word character touches.\<close>

fun four_digit_code :: "bool \<Rightarrow> string \<Rightarrow> int option" where
  "four_digit_code after_word [] = None"
| "four_digit_code after_word (c # cs) =
     (if \<not> after_word \<and> length (c # cs) \<ge> 4 \<and> list_all ascii_digit (take 4 (c # cs))
        \<and> (drop 4 (c # cs) = [] \<or> \<not> word_char (hd (drop 4 (c # cs))))
      then Some (digits_value (take 4 (c # cs))) else four_digit_code (word_char c) cs)"

definition mysql_error_code :: "db_env \<Rightarrow> exn \<Rightarrow> int option" where
  "mysql_error_code X err =
     (case de_number X err ''errno'' of
        Some n \<Rightarrow> Some n
      | None \<Rightarrow> (case de_number X err ''code'' of Some n \<Rightarrow> Some n | None \<Rightarrow> four_digit_code False (exn_msg err)))"

definition mysql_is_duplicate_error :: "db_env \<Rightarrow> exn \<Rightarrow> bool" where
  "mysql_is_duplicate_error X err \<longleftrightarrow> mysql_error_code X err = Some 1062"

definition MYSQL_SCHEMA_MISMATCH_HINT :: string where
  "MYSQL_SCHEMA_MISMATCH_HINT =
     ''The configured Oracle MySQL table may be missing columns expected by nats-sinks, or the ''
     @ ''configured column mapping may not match the table shape. Verify the target table, configured ''
     @ ''column names, idempotency key columns, and current recommended Oracle MySQL DDL. If this is a ''
     @ ''retained test table from an older release, migrate it or recreate it with the current schema.''"

definition mysql_permanent_error_message :: "int option \<Rightarrow> string \<Rightarrow> string option" where
  "mysql_permanent_error_message code what =
     (if code = Some 1045
      then Some (what @ '': Oracle MySQL authentication failed. Verify the runtime user, ''
        @ ''password environment variable, TLS settings, and database name. Resolved secrets are intentionally not logged.'')
      else if code = Some 1049
      then Some (what @ '': Oracle MySQL database is not available to the runtime user. Verify the database name and grants.'')
      else if code = Some 1146
      then Some (what @ '': Oracle MySQL table is not available to the runtime user. ''
        @ ''The configured table may not exist, may be in a different database, or ''
        @ ''the runtime account may be missing required table privileges.'')
      else if code = Some 1054 then Some (what @ '': Oracle MySQL reported an unknown column. '' @ MYSQL_SCHEMA_MISMATCH_HINT)
      else if code = Some 1064 then Some (what @ '': Oracle MySQL reported a SQL syntax error. '' @ MYSQL_SCHEMA_MISMATCH_HINT)
      else if code \<in> {Some 1406, Some 3140}
      then Some (what @ '': Oracle MySQL rejected row content for the configured schema. '' @ MYSQL_SCHEMA_MISMATCH_HINT)
      else None)"

definition mysql_translate_exception :: "db_env \<Rightarrow> exn \<Rightarrow> string \<Rightarrow> exn" where
  "mysql_translate_exception X err what =
     (let code = mysql_error_code X err in
      case mysql_permanent_error_message code what of
        Some message \<Rightarrow> Exn PermanentSinkError message
      | None \<Rightarrow>
          if code = Some 1062 then Exn PermanentSinkError (what @ '': duplicate key'')
          else Exn DestinationUnavailableError (what @ '': Oracle MySQL error ''
            @ (if code = None \<or> code = Some 0 then class_name (exn_cls err) else render_int (the code))))"

section \<open>Construction\<close>

definition mysql_sql_for_policy :: "mysql_config \<Rightarrow> table_policy \<Rightarrow> mysql_write_sql res" where
  "mysql_sql_for_policy c p =
     mysql_build_write_sql (tp_table_name p) (my_columns c) (my_mode c) (ic_columns (tp_idempotency p)) (tp_update_columns p)"

record mysql_sink =
  ms_lib :: pylib
  ms_env :: db_env
  ms_config :: mysql_config
  ms_started :: bool
  ms_policies :: "(string \<times> table_policy) list"
  ms_cache :: "(string \<times> mysql_write_sql) list"

abbreviation mysql_conflict :: string where
  "mysql_conflict \<equiv> ''conflicting Oracle MySQL idempotency policy configured''"

definition make_mysql_sink :: "pylib \<Rightarrow> db_env \<Rightarrow> mysql_config \<Rightarrow> mysql_sink res" where
  "make_mysql_sink L X c =
     rbind (register_policy mysql_validate_identifier mysql_conflict (my_table c) (my_idempotency c) (my_upsert_update_columns c) []) (\<lambda>first.
     rbind (register_routes mysql_validate_identifier mysql_conflict (my_idempotency c) (my_upsert_update_columns c)
         (my_table_routes c) first) (\<lambda>policies.
     rbind (prepare_statements (mysql_sql_for_policy c) mw_table_name (map snd policies) []) (\<lambda>cache.
       Inr \<lparr>ms_lib = L, ms_env = X, ms_config = c, ms_started = False, ms_policies = policies, ms_cache = cache\<rparr>)))"

section \<open>Rows by table\<close>

definition mysql_policy_for_table :: "mysql_sink \<Rightarrow> string \<Rightarrow> table_policy res" where
  "mysql_policy_for_table S table_name =
     policy_for_table ''Oracle MySQL policy for the table is not configured'' (ms_policies S) table_name"

definition mysql_table_for_subject :: "mysql_sink \<Rightarrow> string \<Rightarrow> string res" where
  "mysql_table_for_subject S =
     table_for_subject mysql_validate_identifier (my_table_routes (ms_config S)) (my_table (ms_config S))"

definition mysql_policy_for_subject :: "mysql_sink \<Rightarrow> string \<Rightarrow> table_policy res" where
  "mysql_policy_for_subject S subject = rbind (mysql_table_for_subject S subject) (mysql_policy_for_table S)"

definition mysql_row :: "mysql_sink \<Rightarrow> timed \<Rightarrow> (string \<times> row) res" where
  "mysql_row S = (\<lambda>(now, e).
     rbind (mysql_table_for_subject S (env_subject e)) (\<lambda>table.
     rbind (mysql_policy_for_subject S (env_subject e)) (\<lambda>policy.
     rbind (envelope_to_row (ms_lib S) (tp_idempotency policy) (my_payload_mode (ms_config S)) now e) (\<lambda>row.
       Inr (table, row)))))"

definition mysql_rows_by_table :: "mysql_sink \<Rightarrow> timed list \<Rightarrow> (string \<times> row list) list res" where
  "mysql_rows_by_table S messages = rows_by_table (mysql_row S) messages []"

section \<open>Writing\<close>

definition mysql_write_stats :: "mysql_mode \<Rightarrow> mysql_write_sql \<Rightarrow> int option \<Rightarrow> nat \<Rightarrow> write_stats" where
  "mysql_write_stats mode sql reported rows =
     (let same = rowcount_no_change_count reported rows in
      case mode of
        Mysql_insert_ignore \<Rightarrow> no_stats\<lparr>ws_duplicates := same, ws_duplicate_ignored := same\<rparr>
      | Mysql_upsert \<Rightarrow>
          if mw_update_columns sql = []
          then no_stats\<lparr>ws_duplicates := same, ws_duplicate_noop := same, ws_keyed_rows := int rows\<rparr>
          else no_stats\<lparr>ws_keyed_rows := int rows, ws_outcome_unknown := int rows\<rparr>
      | _ \<Rightarrow> no_stats)"

text \<open>\<open>_bind_tuple\<close>: the values of a row in the order of the statement.\<close>

definition bind_tuple :: "string list \<Rightarrow> row \<Rightarrow> pyval" where
  "bind_tuple names row = PTuple (map (\<lambda>name. the (map_of row name)) names)"

definition mysql_statement_for :: "mysql_write_sql \<Rightarrow> row list \<Rightarrow> statement" where
  "mysql_statement_for sql rows = (mw_sql sql, map (bind_tuple (mw_bind_names sql)) rows)"

definition mysql_cached_sql :: "mysql_sink \<Rightarrow> string \<Rightarrow> mysql_write_sql res" where
  "mysql_cached_sql S table =
     (case map_of (ms_cache S) table of
        Some sql \<Rightarrow> Inr sql
      | None \<Rightarrow> rbind (mysql_policy_for_table S table) (mysql_sql_for_policy (ms_config S)))"

fun mysql_write_direct_rows :: "mysql_sink \<Rightarrow> (string \<times> row list) list \<Rightarrow> write_stats \<Rightarrow> write_stats dbm" where
  "mysql_write_direct_rows S [] stats = st_ret stats"
| "mysql_write_direct_rows S ((table, rows) # groups) stats =
     (if rows = [] then mysql_write_direct_rows S groups stats
      else st_bind (st_lift (mysql_cached_sql S table)) (\<lambda>sql.
        st_then (execute_many (ms_env S) (mysql_statement_for sql rows))
        (st_then (db_call (ms_env S) (Observed ''mysql_execute_seconds''))
        (st_bind (reported_rows (ms_env S)) (\<lambda>reported.
          mysql_write_direct_rows S groups
            (combine_write_stats stats (mysql_write_stats (my_mode (ms_config S)) sql reported (length rows))))))))"

text \<open>The statements of a batch, executed with one cursor that is closed whatever happens.\<close>

definition mysql_stage :: "mysql_sink \<Rightarrow> (string \<times> row list) list \<Rightarrow> write_stats dbm" where
  "mysql_stage S groups =
     st_then (db_call (ms_env S) Open_cursor)
       (st_finally (mysql_write_direct_rows S groups no_stats) (quietly (db_call (ms_env S) Close_cursor)))"

definition mysql_write_rows :: "mysql_sink \<Rightarrow> (string \<times> row list) list \<Rightarrow> write_stats dbm" where
  "mysql_write_rows S groups =
     write_rows_sync (ms_env S) ''mysql_commit_seconds'' ''Oracle MySQL commit failed''
       (quietly (release_connection (ms_env S))) (mysql_stage S groups)"

definition mysql_metrics :: batch_metrics where
  "mysql_metrics = \<lparr>bm_execute = ''mysql_execute_seconds'', bm_commit = ''mysql_commit_seconds'', bm_conflicts = ''mysql_conflicts_total'',
     bm_keyed = ''mysql_upsert_rows_total'', bm_unknown = ''mysql_upsert_outcome_unknown_total'', bm_duplicates = ''mysql_duplicates_total'',
     bm_ignored = ''mysql_duplicate_ignored_total'', bm_noop = ''mysql_duplicate_noop_total''\<rparr>"

definition mysql_write_failed :: "mysql_sink \<Rightarrow> int \<Rightarrow> exn \<Rightarrow> unit dbm" where
  "mysql_write_failed S =
     batch_write_failed (ms_env S) mysql_metrics (my_mode (ms_config S) = Mysql_insert_ignore)
       (\<lambda>err. isinstance err TemporarySinkError \<or> isinstance err PermanentSinkError \<or> \<not> isinstance err PyException)
       (mysql_is_duplicate_error (ms_env S))
       (\<lambda>err. mysql_translate_exception (ms_env S) err ''Oracle MySQL batch write failed'')"

definition mysql_write_batch :: "mysql_sink \<Rightarrow> timed list \<Rightarrow> unit dbm" where
  "mysql_write_batch S messages =
     write_batch_with (ms_started S) ''MySqlSink has not been started'' messages (mysql_rows_by_table S messages)
       (mysql_write_rows S) (record_write_stats (ms_env S) mysql_metrics) (mysql_write_failed S (int (length messages)))"

section \<open>Life cycle\<close>

text \<open>\<open>create_pool\<close> is the driver's.\<close>

definition mysql_execute_ddl :: "db_env \<Rightarrow> string \<Rightarrow> unit dbm" where
  "mysql_execute_ddl X ddl =
     st_then (db_call X Acquire)
       (st_finally
         (st_except
           (st_then (st_then (db_call X Open_cursor)
              (st_finally (execute_many X (ddl, [])) (quietly (db_call X Close_cursor))))
              (commit X))
           (\<lambda>err. st_then (quietly (rollback X)) (st_throw err)))
         (quietly (release_connection X)))"

definition translated :: "db_env \<Rightarrow> string \<Rightarrow> 'a dbm \<Rightarrow> 'a dbm" where
  "translated X what m = st_except m (\<lambda>err. st_throw (mysql_translate_exception X err what))"

definition mysql_ensure_schema :: "mysql_sink \<Rightarrow> unit dbm" where
  "mysql_ensure_schema S =
     (if \<not> ms_started S then st_throw (Exn ConfigurationError ''MySqlSink has not been started'')
      else st_each (\<lambda>table.
          st_bind (st_lift (mysql_create_table_ddl (ms_lib S) table)) (\<lambda>ddl.
            translated (ms_env S) ''Oracle MySQL schema creation failed'' (mysql_execute_ddl (ms_env S) ddl)))
        (first_occurrences (my_table (ms_config S) # map tr_table (my_table_routes (ms_config S)))))"

definition mysql_healthcheck :: "mysql_sink \<Rightarrow> unit dbm" where
  "mysql_healthcheck S =
     (if \<not> ms_started S then st_throw (Exn ConfigurationError ''MySqlSink has not been started'')
      else translated (ms_env S) ''Oracle MySQL healthcheck failed''
        (st_then (db_call (ms_env S) Acquire)
          (st_finally
            (st_then (db_call (ms_env S) Open_cursor)
              (st_finally (execute_many (ms_env S) (''select 1'', [])) (quietly (db_call (ms_env S) Close_cursor))))
            (quietly (release_connection (ms_env S))))))"

text \<open>\<open>start\<close> and \<open>stop\<close>; the import of the driver is left out.  A failure leaves the sink as it was.\<close>

definition mysql_start :: "(string \<Rightarrow> string option) \<Rightarrow> mysql_sink \<Rightarrow> mysql_sink dbm" where
  "mysql_start getenv S =
     (if ms_started S then st_ret S
      else st_bind (st_lift (mysql_pool_options getenv (ms_config S))) (\<lambda>options.
        st_then (translated (ms_env S) ''failed to create Oracle MySQL connection pool'' (db_call (ms_env S) (Create_pool options)))
          (let S' = S\<lparr>ms_started := True\<rparr> in
           st_then (if my_auto_create (ms_config S) then mysql_ensure_schema S' else st_ret ()) (st_ret S'))))"

definition mysql_stop :: "mysql_sink \<Rightarrow> mysql_sink" where
  "mysql_stop S = S\<lparr>ms_started := False\<rparr>"

section \<open>A constructed sink is complete\<close>

interpretation mysql_names: table_names mysql_validate_identifier
  by unfold_locales (frule mysql_validate_identifier_Inr(1), simp)

text \<open>A constructed sink always knows what to do with a message.  Whatever the subject, it has a policy registered
  for exactly the chosen table and a statement prepared for it, so that no lookup fails while messages are written.\<close>

lemma mysql_sink_ready:
  assumes "make_mysql_sink L X c = Inr S"
  shows "\<exists>table policy sql. mysql_table_for_subject S subject = Inr table \<and> mysql_policy_for_subject S subject = Inr policy
    \<and> tp_table_name policy = table \<and> map_of (ms_cache S) table = Some sql"
proof -
  from assms obtain ps1 ps cache where made:
    "register_policy mysql_validate_identifier mysql_conflict (my_table c) (my_idempotency c) (my_upsert_update_columns c) [] = Inr ps1"
    "register_routes mysql_validate_identifier mysql_conflict (my_idempotency c) (my_upsert_update_columns c) (my_table_routes c) ps1 = Inr ps"
    "prepare_statements (mysql_sql_for_policy c) mw_table_name (map snd ps) [] = Inr cache"
    and S: "S = \<lparr>ms_lib = L, ms_env = X, ms_config = c, ms_started = False, ms_policies = ps, ms_cache = cache\<rparr>"
    by (auto simp: make_mysql_sink_def elim!: rbindE)
  from mysql_names.policies_complete [OF made(1,2), of subject] obtain name p where
    name: "mysql_table_for_subject S subject = Inr name" "map_of ps name = Some p" "tp_table_name p = name"
    by (fastforce simp: mysql_table_for_subject_def S)
  have "mw_table_name sql = tp_table_name q" if "mysql_sql_for_policy c q = Inr sql" for q sql
    using that unfolding mysql_sql_for_policy_def by (elim mysql_build_Inr) (simp add: mysql_built_def)
  moreover have "p \<in> set (map snd ps)" using name(2) by (force dest: map_of_SomeD)
  ultimately obtain sql where "map_of cache name = Some sql"
    using prepare_statements_Inr [OF made(3)] name(3) by blast
  with name show ?thesis
    by (simp add: mysql_policy_for_subject_def mysql_policy_for_table_def policy_for_table_def S)
qed

section \<open>The statements of a batch\<close>

definition mysql_statements :: "mysql_sink \<Rightarrow> (string \<times> row list) list \<Rightarrow> statement list" where
  "mysql_statements S groups = List.map_filter (\<lambda>(table, rows).
     if rows = [] then None
     else (case mysql_cached_sql S table of Inr sql \<Rightarrow> Some (mysql_statement_for sql rows) | Inl err \<Rightarrow> None)) groups"

lemma mysql_write_direct_rows_hoare:
  "st_hoare (in_transaction C V) (mysql_write_direct_rows S groups stats) (\<lambda>_. in_transaction C (V @ mysql_statements S groups)) (committed_is C)"
proof (induction S groups stats arbitrary: V rule: mysql_write_direct_rows.induct)
  case (1 S stats)
  then show ?case by (auto simp: mysql_statements_def map_filter_def intro: st_hoare_ret)
next
  case (2 S table rows groups stats)
  show ?case
  proof (cases "rows = []")
    case True
    with 2(1) show ?thesis by (simp add: mysql_statements_def map_filter_def)
  next
    case False
    show ?thesis
    proof (cases "mysql_cached_sql S table")
      case (Inl err)
      with False show ?thesis
        by (auto simp: st_hoare_def st_bind_def st_lift_def in_transaction_def committed_is_def)
    next
      case (Inr sql)
      then have "mysql_statements S ((table, rows) # groups) = mysql_statement_for sql rows # mysql_statements S groups"
        using False by (simp add: mysql_statements_def map_filter_def)
      moreover have "st_hoare (in_transaction C (V @ [mysql_statement_for sql rows]))
          (mysql_write_direct_rows S groups (combine_write_stats stats (mysql_write_stats (my_mode (ms_config S)) sql x (length rows))))
          (\<lambda>_. in_transaction C (V @ mysql_statement_for sql rows # mysql_statements S groups)) (committed_is C)" for x
        using 2(2) [OF False, of "V @ [mysql_statement_for sql rows]"] by simp
      ultimately show ?thesis
        using False Inr by (auto simp: st_lift_Inr intro!: st_hoare_then st_hoare_bind transaction_rules st_hoare_reported log_blind_transaction)
    qed
  qed
qed

lemma mysql_stage_hoare:
  "st_hoare (in_transaction C []) (mysql_stage S groups) (\<lambda>_. in_transaction C (mysql_statements S groups)) (committed_is C)"
  unfolding mysql_stage_def
  by (rule st_hoare_cursor(2)) (use mysql_write_direct_rows_hoare [of C "[]"] in simp)

interpretation mysql_stage: transactional_stage mysql_stage mysql_statements
  by unfold_locales (rule mysql_stage_hoare)

section \<open>Acknowledged means committed\<close>

text \<open>What the sink takes for success although the database refused it.\<close>

definition mysql_ignores :: "mysql_sink \<Rightarrow> bool" where
  "mysql_ignores S \<longleftrightarrow> my_mode (ms_config S) = Mysql_insert_ignore \<and> (\<exists>err. mysql_is_duplicate_error (ms_env S) err)"

interpretation mysql: relational_batches mysql_rows_by_table mysql_write_rows "\<lambda>S. record_write_stats (ms_env S) mysql_metrics"
  mysql_write_failed mysql_statements mysql_ignores
proof
  fix C S groups n err w and P :: "db \<Rightarrow> bool"
  show "st_hoare (\<lambda>s. db_open s = [] \<and> db_committed s = C) (mysql_write_rows S groups)
      (\<lambda>_ s. db_committed s = C @ [mysql_statements S groups] \<and> db_open s = [])
      (\<lambda>s. db_committed s \<in> {C, C @ [mysql_statements S groups]} \<and> db_open s = [])"
    unfolding mysql_write_rows_def by (rule mysql_stage.write_rows_hoare [OF closes_release(2)])
  assume P: "log_blind P"
  then show "st_hoare P (record_write_stats (ms_env S) mysql_metrics w) (\<lambda>_. P) P" by (rule st_hoare_write_stats)
  from P show "st_hoare P (mysql_write_failed S n err) (\<lambda>_ s. P s \<and> mysql_ignores S) P"
    unfolding mysql_write_failed_def
    by (rule st_hoare_weaken [OF batch_write_failed_hoare]) (auto simp: mysql_ignores_def)
qed



section \<open>Witnesses\<close>

definition short_idempotency :: idempotency_config where
  "short_idempotency = \<lparr>ic_strategy = Use_stream_sequence, ic_columns = [''A'', ''B''], ic_payload_field = None\<rparr>"

definition sample_mysql_config :: "mysql_mode \<Rightarrow> mysql_config" where
  "sample_mysql_config mode =
     \<lparr>my_host = ''h'', my_port = 3306, my_database = ''d'', my_user = ''u'', my_password = Some ''p'', my_password_env = None,
      my_connection_timeout = 10, my_ssl_ca = None, my_ssl_cert = None, my_ssl_key = None, my_ssl_verify_identity = True,
      my_ssl_disabled = False, my_table = ''T'', my_table_routes = [], my_mode = mode, my_upsert_update_columns = None,
      my_auto_create = False, my_payload_mode = Json_or_envelope, my_payload_column = None, my_headers_column = None,
      my_columns = short_columns, my_idempotency = short_idempotency, my_pool_name = None, my_pool_size = 4\<rparr>"

definition short_policy :: table_policy where
  "short_policy = \<lparr>tp_table_name = ''T'', tp_idempotency = short_idempotency, tp_update_columns = None\<rparr>"

lemma sample_sql:
  assumes "mode \<in> {Mysql_upsert, Mysql_insert_ignore}"
  shows "\<exists>sql. mysql_sql_for_policy (sample_mysql_config mode) short_policy = Inr sql \<and> mw_table_name sql = ''T''"
proof -
  have "case mysql_sql_for_policy (sample_mysql_config Mysql_upsert) short_policy of Inr sql \<Rightarrow> mw_table_name sql = ''T'' | Inl err \<Rightarrow> False"
    "case mysql_sql_for_policy (sample_mysql_config Mysql_insert_ignore) short_policy of Inr sql \<Rightarrow> mw_table_name sql = ''T'' | Inl err \<Rightarrow> False"
    by code_simp+
  then show ?thesis using assms by (auto split: sum.splits)
qed

lemma sample_mysql_sink:
  assumes "mode \<in> {Mysql_upsert, Mysql_insert_ignore}"
  shows "\<exists>S sql. make_mysql_sink plain_lib X (sample_mysql_config mode) = Inr S \<and> ms_env S = X \<and> ms_config S = sample_mysql_config mode
    \<and> ms_lib S = plain_lib \<and> ms_policies S = [(''T'', short_policy)] \<and> ms_cache S = [(''T'', sql)]"
proof -
  obtain sql where sql: "mysql_sql_for_policy (sample_mysql_config mode) short_policy = Inr sql" "mw_table_name sql = ''T''"
    using sample_sql [OF assms] by blast
  have "register_policy mysql_validate_identifier mysql_conflict ''T'' short_idempotency None [] = Inr [(''T'', short_policy)]" by code_simp
  then have reg: "register_policy mysql_validate_identifier mysql_conflict (my_table (sample_mysql_config mode)) (my_idempotency (sample_mysql_config mode))
      (my_upsert_update_columns (sample_mysql_config mode)) [] = Inr [(''T'', short_policy)]"
    by (simp add: sample_mysql_config_def)
  have routes: "my_table_routes (sample_mysql_config mode) = []" by (simp add: sample_mysql_config_def)
  show ?thesis by (simp add: make_mysql_sink_def reg routes sql)
qed

text \<open>The row of the sample message under the sample sink.\<close>

lemma sample_mysql_row:
  assumes "ms_config S = sample_mysql_config mode" "ms_lib S = plain_lib" "ms_policies S = [(''T'', short_policy)]"
  shows "\<exists>row. mysql_row S (Aware 0 0, sample_redelivery 0) = Inr (''T'', row)"
proof -
  have same: "validate_envelope_idempotency st e short_idempotency v = validate_envelope_idempotency st e plain_idempotency v" for st e v
    by (simp add: validate_envelope_idempotency_def short_idempotency_def plain_idempotency_def)
  have "envelope_to_row plain_lib short_idempotency Json_or_envelope (Aware 0 0) (sample_redelivery 0)
      = envelope_to_row plain_lib plain_idempotency Json_or_envelope (Aware 0 0) (sample_redelivery 0)"
    unfolding envelope_to_row_def same ..
  then obtain row where row: "envelope_to_row plain_lib short_idempotency Json_or_envelope (Aware 0 0) (sample_redelivery 0) = Inr row"
    using sample_row [of 0 0] by auto
  have "mysql_validate_identifier ''T'' = Inr ''T''" by code_simp
  then have table: "mysql_table_for_subject S subject = Inr ''T''" for subject
    by (simp add: mysql_table_for_subject_def table_for_subject_def assms(1) sample_mysql_config_def)
  show ?thesis
    by (simp add: mysql_row_def mysql_policy_for_subject_def table mysql_policy_for_table_def policy_for_table_def assms short_policy_def row)
      (simp add: sample_mysql_config_def row)
qed

lemma sample_mysql_write:
  assumes "ms_config S = sample_mysql_config Mysql_upsert" "ms_env S = calm_db" "ms_cache S = [(''T'', sql)]" "ms_started S"
    "mysql_row S m = Inr (''T'', row)"
  shows "\<exists>s'. mysql_write_batch S [m] empty_db = (Inr (), s')"
  using assms
  by (simp add: mysql_write_batch_def mysql_rows_by_table_def mysql_write_rows_def mysql_stage_def db_run_defs calm_db_def empty_db_def
      mysql_cached_sql_def)


lemma not_ignoring: "my_mode (ms_config S) \<noteq> Mysql_insert_ignore \<Longrightarrow> \<not> mysql_ignores S"
  by (simp add: mysql_ignores_def)

lemma sample_mysql_run:
  "\<exists>S (s' :: db). make_mysql_sink plain_lib calm_db (sample_mysql_config Mysql_upsert) = Inr S \<and> \<not> mysql_ignores S
     \<and> mysql_write_batch (S\<lparr>ms_started := True\<rparr>) [(Aware 0 0, sample_redelivery 0)] empty_db = (Inr (), s')"
proof -
  from sample_mysql_sink [of Mysql_upsert calm_db] obtain S sql where S: "make_mysql_sink plain_lib calm_db (sample_mysql_config Mysql_upsert) = Inr S"
    "ms_env S = calm_db" "ms_config S = sample_mysql_config Mysql_upsert" "ms_lib S = plain_lib" "ms_policies S = [(''T'', short_policy)]"
    "ms_cache S = [(''T'', sql)]" by blast
  let ?S = "S\<lparr>ms_started := True\<rparr>"
  from sample_mysql_row [of ?S Mysql_upsert] S obtain row where row: "mysql_row ?S (Aware 0 0, sample_redelivery 0) = Inr (''T'', row)"
    by auto
  have "\<not> mysql_ignores S" by (rule not_ignoring) (simp add: S sample_mysql_config_def)
  with sample_mysql_write [OF _ _ _ _ row] S show ?thesis by auto
qed



section \<open>A duplicate reported by the driver\<close>

text \<open>An environment in which every statement is refused as a duplicate key.\<close>

definition duplicate_error :: exn where
  "duplicate_error = Exn (Subclass ''IntegrityError'' PyException) ''1062 duplicate''"

definition refusing_db :: db_env where
  "refusing_db = calm_db\<lparr>de_fails := (\<lambda>_ op. case op of Execute st \<Rightarrow> Some duplicate_error | _ \<Rightarrow> None)\<rparr>"

lemma refusing_duplicate: "mysql_is_duplicate_error refusing_db duplicate_error"
  by code_simp

lemma refused_statement:
  "execute_many refusing_db st s = (Inl duplicate_error, noted (Execute st) (Some duplicate_error) (add_statement (fst st, []) s))"
  "db_call refusing_db op s = (if \<exists>st. op = Execute st then (Inl duplicate_error, noted op (Some duplicate_error) s) else (Inr (), noted op None s))"
  "de_fails refusing_db es op = (if \<exists>st. op = Execute st then Some duplicate_error else None)"
  by (auto simp: execute_many_def db_call_def db_step_def refusing_db_def calm_db_def split: db_op.splits)

lemma duplicate_error_class: "isinstance duplicate_error PyException"
  "\<not> isinstance duplicate_error TemporarySinkError" "\<not> isinstance duplicate_error PermanentSinkError"
  by (simp_all add: duplicate_error_def)

text \<open>C37: in \<open>insert_ignore\<close> mode a duplicate key error that the driver raises rolls the whole batch back, and the
  batch is then reported as written: none of its rows is in the database.\<close>

theorem mysql_ignored_duplicate_loses_batch:
  assumes "make_mysql_sink L refusing_db c = Inr S" "my_mode c = Mysql_insert_ignore" "messages \<noteq> []"
    and "mysql_rows_by_table (S\<lparr>ms_started := True\<rparr>) messages = Inr groups"
  shows "\<exists>s'. mysql_write_batch (S\<lparr>ms_started := True\<rparr>) messages empty_db = (Inr (), s') \<and> db_committed s' = []"
proof -
  let ?S = "S\<lparr>ms_started := True\<rparr>"
  have S: "ms_env ?S = refusing_db" "ms_config ?S = c" "ms_started ?S" "ms_env S = refusing_db" "ms_config S = c"
    using assms(1) by (auto simp: make_mysql_sink_def elim!: rbindE)
  from rows_by_table_nonempty [OF assms(4) [unfolded mysql_rows_by_table_def] assms(3)] obtain table row rows rest m r where
    groups: "groups = (table, row # rows) # rest" "mysql_row ?S m = Inr (table, r)" by blast
  then obtain sql where sql: "mysql_cached_sql ?S table = Inr sql"
    using mysql_sink_ready [OF assms(1), of "env_subject (snd m)"]
    by (cases m) (auto simp: mysql_row_def mysql_cached_sql_def mysql_table_for_subject_def elim!: rbindE cong: option.case_cong)
  have "mysql_write_rows ?S groups empty_db = (Inl duplicate_error, s')
    \<longrightarrow> db_committed s' = [] \<longrightarrow> ?thesis" for s'
    using assms(2,3,4) S sql
    by (auto simp: mysql_write_batch_def db_run_defs mysql_write_failed_def refusing_duplicate duplicate_error_class refused_statement)
  moreover have "\<exists>s'. mysql_write_rows ?S groups empty_db = (Inl duplicate_error, s') \<and> db_committed s' = []"
    using sql S
    by (auto simp: groups mysql_write_rows_def mysql_stage_def db_run_defs duplicate_error_class refused_statement empty_db_def)
  ultimately show ?thesis by blast
qed

theorem mysql_ignored_duplicate_loses_batch_witness:
  "\<exists>S (s' :: db). make_mysql_sink plain_lib refusing_db (sample_mysql_config Mysql_insert_ignore) = Inr S
     \<and> mysql_write_batch (S\<lparr>ms_started := True\<rparr>) [(Aware 0 0, sample_redelivery 0)] empty_db = (Inr (), s') \<and> db_committed s' = []"
proof -
  from sample_mysql_sink [of Mysql_insert_ignore refusing_db] obtain S sql where
    S: "make_mysql_sink plain_lib refusing_db (sample_mysql_config Mysql_insert_ignore) = Inr S"
    "ms_config S = sample_mysql_config Mysql_insert_ignore" "ms_lib S = plain_lib" "ms_policies S = [(''T'', short_policy)]" by blast
  from sample_mysql_row [of "S\<lparr>ms_started := True\<rparr>" Mysql_insert_ignore] S
  obtain row where row: "mysql_row (S\<lparr>ms_started := True\<rparr>) (Aware 0 0, sample_redelivery 0) = Inr (''T'', row)"
    by auto
  then have "mysql_rows_by_table (S\<lparr>ms_started := True\<rparr>) [(Aware 0 0, sample_redelivery 0)] = Inr [(''T'', [row])]"
    by (simp add: mysql_rows_by_table_def)
  from mysql_ignored_duplicate_loses_batch [OF S(1) _ _ this] S(1) show ?thesis
    by (auto simp: sample_mysql_config_def)
qed

end
