(* ===== verification/OracleText.thy ===== *)
theory OracleText
  imports MySqlText
begin

text \<open>
  SQL text of the Oracle sink (\<open>oracle/sql.py\<close>, \<open>oracle/ddl.py\<close>): identifiers are checked against an allow-list
  and put in upper case; row values are named binds.  The column mapping is the one of the MySQL sink, field by field.
\<close>

section \<open>Identifiers\<close>

definition oracle_name_char :: "char \<Rightarrow> bool" where
  "oracle_name_char c \<longleftrightarrow> ascii_letter c \<or> ascii_digit c \<or> c \<in> {CHR ''_'', CHR ''$'', CHR ''#''}"

text \<open>\<open>^[A-Za-z][A-Za-z0-9_$#]{0,127}$\<close>, matched against the whole text.\<close>

definition oracle_name :: "string \<Rightarrow> bool" where
  "oracle_name s \<longleftrightarrow> (case s of
      [] \<Rightarrow> False
    | c # cs \<Rightarrow> ascii_letter c \<and> length cs \<le> 127 \<and> list_all oracle_name_char cs)"

text \<open>\<open>str.upper()\<close> on the characters of a name.\<close>

definition upper_char :: "char \<Rightarrow> char" where
  "upper_char c = (let n = of_char c :: nat in if 97 \<le> n \<and> n \<le> 122 then char_of (n - 32) else c)"

abbreviation invalid_oracle_identifier :: "'a res" where
  "invalid_oracle_identifier \<equiv> raise ConfigurationError ''invalid Oracle identifier''"

definition oracle_validate_identifier :: "string \<Rightarrow> string res" where
  "oracle_validate_identifier identifier =
     (let parts = split_on (CHR ''.'') identifier in
      if \<exists>p\<in>set parts. p = [] then invalid_oracle_identifier
      else if \<exists>p\<in>set parts. \<not> oracle_name p then invalid_oracle_identifier
      else Inr (join_with ''.'' (map (map upper_char) parts)))"

section \<open>Statements\<close>

datatype oracle_mode = Oracle_insert | Oracle_insert_ignore | Oracle_merge | Oracle_append

text \<open>\<open>_write_columns\<close>: bind names with validated columns.\<close>

definition oracle_write_columns :: "column_mapping \<Rightarrow> (string \<times> string) list res" where
  "oracle_write_columns c = rmapM (\<lambda>(bind, column). rmap (Pair bind) (oracle_validate_identifier column)) (bound_columns c)"

definition oracle_update_columns :: "string list \<Rightarrow> string list \<Rightarrow> string list option \<Rightarrow> string list res" where
  "oracle_update_columns column_names key_columns configured =
     (case configured of
        None \<Rightarrow> Inr (filter (\<lambda>column. column \<notin> set key_columns) column_names)
      | Some cs \<Rightarrow>
          rbind (rmapM oracle_validate_identifier cs) (\<lambda>requested.
            if \<not> distinct requested then raise ConfigurationError ''merge_update_columns must not contain duplicate columns''
            else if \<exists>column\<in>set requested. column \<notin> set column_names
            then raise ConfigurationError ''merge_update_columns contains columns that are not present in the Oracle column mapping''
            else if \<exists>column\<in>set requested. column \<in> set key_columns
            then raise ConfigurationError ''merge_update_columns must not include idempotency key columns''
            else Inr requested))"

record oracle_write_sql =
  ow_table_name :: string
  ow_sql :: string
  ow_bind_names :: "string list"
  ow_columns :: "string list"
  ow_key_columns :: "string list"
  ow_update_columns :: "string list"

definition comma_list :: "string list \<Rightarrow> string" where
  "comma_list = join_with '', ''"

definition target_is_source :: "string \<Rightarrow> string" where
  "target_is_source column = ''target.'' @ column @ '' = source.'' @ column"

definition on_clause :: "string list \<Rightarrow> string" where
  "on_clause keys = join_with '' and '' (map target_is_source keys)"

definition matched_clause :: "string list \<Rightarrow> string" where
  "matched_clause updates =
     (if updates = [] then []
      else ''when matched then update set '' @ comma_list (map target_is_source updates) @ '' '')"

text \<open>\<open>when not matched then insert (...) values (...)\<close>.\<close>

definition not_matched_clause :: "string list \<Rightarrow> string" where
  "not_matched_clause columns =
     ''when not matched then insert ('' @ comma_list columns @ '') values ('' @ comma_list (map (append ''source.'') columns) @ '')''"

definition merge_text :: "string \<Rightarrow> string \<Rightarrow> string list \<Rightarrow> string list \<Rightarrow> string list \<Rightarrow> string" where
  "merge_text table source keys updates columns =
     ''merge into '' @ table @ '' target using ('' @ source @ '') source on ('' @ on_clause keys @ '') ''
     @ matched_clause updates @ not_matched_clause columns"

definition oracle_insert_text :: "string \<Rightarrow> string \<Rightarrow> string list \<Rightarrow> string list \<Rightarrow> string" where
  "oracle_insert_text hint table columns binds =
     ''insert'' @ hint @ '' into '' @ table @ '' ('' @ comma_list columns @ '') values ('' @ comma_list (map (Cons (CHR '':'')) binds) @ '')''"

definition dual_source :: "(string \<times> string) list \<Rightarrow> string" where
  "dual_source write_columns =
     ''select '' @ comma_list (map (\<lambda>(bind, column). CHR '':'' # bind @ '' as '' @ column) write_columns) @ '' from dual''"

definition oracle_build_write_sql ::
  "string \<Rightarrow> column_mapping \<Rightarrow> oracle_mode \<Rightarrow> string list \<Rightarrow> string list option \<Rightarrow> oracle_write_sql res" where
  "oracle_build_write_sql table columns mode key_columns merge_update_columns =
     rbind (oracle_validate_identifier table) (\<lambda>table_name.
     rbind (oracle_write_columns columns) (\<lambda>write_columns.
     let bind_names = map fst write_columns; column_names = map snd write_columns in
     rbind (rmapM oracle_validate_identifier key_columns) (\<lambda>keys.
     let made = (\<lambda>sql ks us. \<lparr>ow_table_name = table_name, ow_sql = sql, ow_bind_names = bind_names, ow_columns = column_names,
           ow_key_columns = ks, ow_update_columns = us\<rparr>) in
     if keys = [] \<and> mode \<in> {Oracle_merge, Oracle_insert_ignore}
     then raise ConfigurationError ''mode requires at least one idempotency key column''
     else case mode of
       Oracle_insert \<Rightarrow> Inr (made (oracle_insert_text [] table_name column_names bind_names) [] [])
     | Oracle_append \<Rightarrow> Inr (made (oracle_insert_text '' /*+ append */'' table_name column_names bind_names) [] [])
     | Oracle_insert_ignore \<Rightarrow> Inr (made (merge_text table_name (dual_source write_columns) keys [] column_names) keys [])
     | Oracle_merge \<Rightarrow>
         rbind (oracle_update_columns column_names keys merge_update_columns) (\<lambda>updates.
           Inr (made (merge_text table_name (dual_source write_columns) keys updates column_names) keys updates)))))"

section \<open>Staging\<close>

datatype staging_cleanup = Delete_on_success | Keep_rows

record oracle_staging_sql =
  os_target_table_name :: string
  os_staging_table_name :: string
  os_batch_id_column :: string
  os_batch_bind_name :: string
  os_insert_sql :: string
  os_merge_sql :: string
  os_cleanup_sql :: "string option"
  os_bind_names :: "string list"
  os_columns :: "string list"
  os_key_columns :: "string list"
  os_update_columns :: "string list"

definition batch_bind :: string where
  "batch_bind = ''nats_sinks_batch_id''"

definition batch_condition :: "string \<Rightarrow> string \<Rightarrow> string" where
  "batch_condition staging_table batch_column = '' from '' @ staging_table @ '' where '' @ batch_column @ '' = :'' @ batch_bind"

definition oracle_build_staging_sql ::
  "string \<Rightarrow> string \<Rightarrow> string \<Rightarrow> column_mapping \<Rightarrow> oracle_mode \<Rightarrow> string list \<Rightarrow> string list option \<Rightarrow> staging_cleanup
    \<Rightarrow> oracle_staging_sql res" where
  "oracle_build_staging_sql target_table staging_table batch_id_column columns mode key_columns merge_update_columns cleanup =
     (if mode \<notin> {Oracle_merge, Oracle_insert_ignore}
      then raise ConfigurationError ''staging merge SQL requires mode merge or insert_ignore''
      else
     rbind (oracle_validate_identifier target_table) (\<lambda>target.
     rbind (oracle_validate_identifier staging_table) (\<lambda>staging.
     rbind (oracle_validate_identifier batch_id_column) (\<lambda>batch_column.
     rbind (oracle_write_columns columns) (\<lambda>write_columns.
     let bind_names = map fst write_columns; column_names = map snd write_columns in
     rbind (rmapM oracle_validate_identifier key_columns) (\<lambda>keys.
     if keys = [] then raise ConfigurationError ''staging merge requires at least one idempotency key column''
     else
     rbind (if mode = Oracle_insert_ignore then Inr [] else oracle_update_columns column_names keys merge_update_columns) (\<lambda>updates.
       Inr \<lparr>os_target_table_name = target, os_staging_table_name = staging, os_batch_id_column = batch_column,
         os_batch_bind_name = batch_bind,
         os_insert_sql = oracle_insert_text [] staging (batch_column # column_names) (batch_bind # bind_names),
         os_merge_sql = merge_text target (''select '' @ comma_list column_names @ batch_condition staging batch_column) keys updates column_names,
         os_cleanup_sql = (if cleanup = Delete_on_success then Some (''delete'' @ batch_condition staging batch_column) else None),
         os_bind_names = batch_bind # bind_names, os_columns = column_names, os_key_columns = keys, os_update_columns = updates\<rparr>)))))))"

section \<open>Recommended tables\<close>

definition oracle_ddl_columns :: "string list" where
  "oracle_ddl_columns =
     [''    stream_name       varchar2(255) not null,'', ''    stream_sequence   number not null,'', ''    subject           clob not null,'',
      ''    message_id        varchar2(512),'', ''    priority          clob,'', ''    classification    clob,'', ''    labels            clob,'',
      ''    received_at       timestamp default systimestamp not null,'', ''    message_created_at_epoch_ns number(19),'',
      ''    jetstream_timestamp_epoch_ns number(19),'', ''    received_at_epoch_ns number(19) not null,'',
      ''    stored_at_epoch_ns number(19) not null,'', ''    payload_json      json,'', ''    headers_json      json,'',
      ''    metadata_json     json,'', ''    mission_metadata_json json,'']"

definition oracle_create_table_ddl :: "string \<Rightarrow> string res" where
  "oracle_create_table_ddl table =
     rbind (oracle_validate_identifier table) (\<lambda>table_name.
       Inr (''create table '' @ table_name @ '' ('' @ concat (map ddl_line oracle_ddl_columns)
         @ ddl_line ''    security_labels_json json,''
         @ ddl_line (''    constraint '' @ last (split_on (CHR ''.'') table_name) @ ''_pk'')
         @ ddl_line ''        primary key (stream_name, stream_sequence)'' @ ddl_line '')''))"

definition oracle_create_staging_ddl :: "string \<Rightarrow> string \<Rightarrow> string res" where
  "oracle_create_staging_ddl staging_table batch_id_column =
     rbind (oracle_validate_identifier staging_table) (\<lambda>table_name.
     rbind (oracle_validate_identifier batch_id_column) (\<lambda>batch_column.
       Inr (''create table '' @ table_name @ '' ('' @ ddl_line (''    '' @ batch_column @ '' varchar2(64) not null,'')
         @ concat (map ddl_line oracle_ddl_columns) @ ddl_line ''    security_labels_json json'' @ ddl_line '')'')))"

section \<open>Validated names\<close>

definition upper_name :: "string \<Rightarrow> bool" where
  "upper_name s \<longleftrightarrow> oracle_name s \<and> map upper_char s = s"

lemma upper_char_idem: "upper_char (upper_char c) = upper_char c"
  by (auto simp: upper_char_def Let_def)

lemma of_char_upper:
  "(of_char (upper_char c) :: nat) = (let n = of_char c in if 97 \<le> n \<and> n \<le> 122 then n - 32 else n)"
proof -
  have "(of_char c :: nat) - 32 < 256" using nat_of_char_less_256 [of c] by linarith
  then show ?thesis by (simp add: upper_char_def Let_def)
qed

lemma upper_char_eq:
  assumes "\<not> ascii_letter d" shows "upper_char c = d \<longleftrightarrow> c = d"
proof -
  have "upper_char c = d \<longleftrightarrow> (of_char (upper_char c) :: nat) = of_char d" by simp
  also have "\<dots> \<longleftrightarrow> (of_char c :: nat) = of_char d"
    using assms unfolding of_char_upper ascii_letter_def Let_def by presburger
  finally show ?thesis by simp
qed

lemma upper_char_kinds:
  "ascii_letter (upper_char c) = ascii_letter c" "ascii_digit (upper_char c) = ascii_digit c"
  "oracle_name_char (upper_char c) = oracle_name_char c" "upper_char c = CHR ''.'' \<longleftrightarrow> c = CHR ''.''"
proof -
  show letter: "ascii_letter (upper_char c) = ascii_letter c" and digit: "ascii_digit (upper_char c) = ascii_digit c"
    unfolding ascii_letter_def ascii_digit_def of_char_upper Let_def by presburger+
  have "\<not> ascii_letter d" if "d \<in> {CHR ''_'', CHR ''$'', CHR ''#'', CHR ''.''}" for d
    using that by (auto simp: ascii_letter_def)
  then show "oracle_name_char (upper_char c) = oracle_name_char c" "upper_char c = CHR ''.'' \<longleftrightarrow> c = CHR ''.''"
    by (simp_all add: oracle_name_char_def letter digit upper_char_eq)
qed

lemma upper_name_map: "oracle_name s \<Longrightarrow> upper_name (map upper_char s)"
  by (cases s) (auto simp: upper_name_def oracle_name_def upper_char_kinds upper_char_idem list_all_iff)

lemma oracle_name_chars: "oracle_name s \<Longrightarrow> list_all oracle_name_char s" "oracle_name s \<Longrightarrow> CHR ''.'' \<notin> set s"
  by (auto simp: oracle_name_def oracle_name_char_def list_all_iff ascii_letter_def ascii_digit_def Let_def split: list.splits)

text \<open>A validated identifier consists of upper-case names and is validated again to itself.\<close>

lemma oracle_validate_identifier_Inr:
  assumes "oracle_validate_identifier s = Inr v"
  shows "list_all upper_name (split_on (CHR ''.'') v)" "oracle_validate_identifier v = Inr v"
    "v = join_with ''.'' (map (map upper_char) (split_on (CHR ''.'') s))"
proof -
  let ?ps = "map (map upper_char) (split_on (CHR ''.'') s)"
  from assms have names: "list_all oracle_name (split_on (CHR ''.'') s)" and v: "v = join_with ''.'' ?ps"
    by (auto simp: oracle_validate_identifier_def raise_def Let_def list_all_iff split: if_splits)
  then show "v = join_with ''.'' ?ps" by simp
  from names have uppers: "list_all upper_name ?ps" by (auto simp: list_all_iff intro: upper_name_map)
  then have "\<forall>p\<in>set ?ps. CHR ''.'' \<notin> set p" unfolding list_all_iff upper_name_def by (blast dest: oracle_name_chars(2))
  then have split: "split_on (CHR ''.'') v = ?ps"
    unfolding v using split_on_nonempty [of "CHR ''.''" s] by (intro split_join) simp_all
  with uppers show "list_all upper_name (split_on (CHR ''.'') v)" by simp
  have "map (map upper_char) ?ps = ?ps"
    by (rule map_idI) (use uppers in \<open>unfold list_all_iff upper_name_def, blast\<close>)
  moreover have "\<forall>p\<in>set ?ps. oracle_name p" using uppers unfolding list_all_iff upper_name_def by blast
  moreover have "\<not> oracle_name []" by (simp add: oracle_name_def)
  ultimately show "oracle_validate_identifier v = Inr v"
    unfolding oracle_validate_identifier_def split Let_def by (metis v)
qed

section \<open>What a statement can contain\<close>

definition sql_char :: "char \<Rightarrow> bool" where
  "sql_char c \<longleftrightarrow> oracle_name_char c \<or> c \<in> set '' .,:()=/*+''"

definition sql_text :: "string \<Rightarrow> bool" where
  "sql_text s \<longleftrightarrow> list_all sql_char s"

lemma sql_text_append [simp]: "sql_text (s @ t) \<longleftrightarrow> sql_text s \<and> sql_text t" "sql_text []"
  by (simp_all add: sql_text_def)

lemma sql_text_Cons [simp]: "sql_text (c # s) \<longleftrightarrow> sql_char c \<and> sql_text s"
  by (simp add: sql_text_def)

lemma sql_text_join: "sql_text d \<Longrightarrow> list_all sql_text ss \<Longrightarrow> sql_text (join_with d ss)"
  by (induction d ss rule: join_with.induct) simp_all

lemma sql_text_map: "(\<And>x. x \<in> set xs \<Longrightarrow> sql_text (f x)) \<Longrightarrow> sql_text d \<Longrightarrow> sql_text (join_with d (map f xs))"
  by (rule sql_text_join) (auto simp: list_all_iff)

lemma sql_text_identifier:
  assumes "oracle_validate_identifier s = Inr v" shows "sql_text v"
proof -
  have "sql_text (join_with ''.'' (split_on (CHR ''.'') v))"
  proof (rule sql_text_join)
    show "list_all sql_text (split_on (CHR ''.'') v)"
      using oracle_validate_identifier_Inr(1) [OF assms]
      by (auto simp: list_all_iff upper_name_def sql_text_def sql_char_def dest!: oracle_name_chars(1))
  qed (simp add: sql_char_def)
  then show ?thesis by (simp add: join_split)
qed

lemma sql_text_binds: "(b, c) \<in> set (bound_columns columns) \<Longrightarrow> sql_text b"
  by (auto simp: bound_columns_def sql_char_def oracle_name_char_def ascii_letter_def)

lemma oracle_write_columns_Inr:
  assumes "oracle_write_columns columns = Inr wc"
  shows "map fst wc = map fst (bound_columns columns)"
    "list_all (\<lambda>(b, c). sql_text b \<and> sql_text c \<and> oracle_validate_identifier c = Inr c) wc"
proof -
  let ?f = "\<lambda>(bind, column). rmap (Pair bind) (oracle_validate_identifier column)"
  have run: "rmapM ?f (bound_columns columns) = Inr wc" using assms by (simp only: oracle_write_columns_def)
  have firsts: "map fst wc = map fst cs" if "rmapM ?f cs = Inr wc" for cs
    using that unfolding rmapM_Inr_iff by (induction rule: list_all2_induct) (auto simp: rmap_Inr_iff split: prod.splits)
  show "map fst wc = map fst (bound_columns columns)" by (rule firsts [OF run])
  show "list_all (\<lambda>(b, c). sql_text b \<and> sql_text c \<and> oracle_validate_identifier c = Inr c) wc"
  proof (rule rmapM_all [OF run])
    fix bc r assume bc: "bc \<in> set (bound_columns columns)" and r: "?f bc = Inr r"
    from r obtain b c v where "bc = (b, c)" "oracle_validate_identifier c = Inr v" "r = (b, v)"
      by (cases bc) (auto simp: rmap_Inr_iff)
    with sql_text_binds [of b c columns] sql_text_identifier oracle_validate_identifier_Inr(2) bc
    show "case r of (b, c) \<Rightarrow> sql_text b \<and> sql_text c \<and> oracle_validate_identifier c = Inr c" by simp
  qed
qed

lemma oracle_update_columns_Inr:
  assumes "oracle_update_columns names ks upd = Inr us" shows "set us \<subseteq> set names" "set us \<inter> set ks = {}"
  using assms by (auto simp: oracle_update_columns_def raise_def split: option.splits if_splits elim!: rbindE)

lemma oracle_keys_text: "rmapM oracle_validate_identifier cs = Inr ks \<Longrightarrow> list_all sql_text ks"
  by (erule rmapM_all) (rule sql_text_identifier)

lemma sql_text_clauses:
  assumes "list_all sql_text keys" "list_all sql_text updates" "list_all sql_text columns" "sql_text table" "sql_text source"
  shows "sql_text (merge_text table source keys updates columns)"
proof -
  have lits: "sql_text '', ''" "sql_text '' and ''" "sql_text ''target.''" "sql_text '' = source.''" "sql_text ''source.''"
    "sql_text ''when matched then update set ''" "sql_text ''when not matched then insert (''" "sql_text '') values (''"
    "sql_text ''merge into ''" "sql_text '' target using (''" "sql_text '') source on (''" "sql_text '') ''" "sql_text '')''" "sql_text '' ''"
    by (simp_all add: sql_char_def oracle_name_char_def ascii_letter_def)
  have "sql_text (target_is_source c)" if "sql_text c" for c
    unfolding target_is_source_def sql_text_append using that lits by blast
  moreover have "sql_text (''source.'' @ c)" if "sql_text c" for c
    unfolding sql_text_append using that lits by blast
  ultimately show ?thesis
    using assms lits unfolding merge_text_def on_clause_def matched_clause_def not_matched_clause_def comma_list_def list_all_iff
    by (simp only: sql_text_append if_split) (intro conjI impI sql_text_map sql_text_join; simp add: list_all_iff)
qed

lemma sql_text_insert:
  assumes "sql_text hint" "sql_text table" "list_all sql_text columns" "list_all sql_text binds"
  shows "sql_text (oracle_insert_text hint table columns binds)"
proof -
  have lits: "sql_text '', ''" "sql_text ''insert''" "sql_text '' into ''" "sql_text '' (''" "sql_text '') values (''" "sql_text '')''" "sql_char (CHR '':'')"
    by (simp_all add: sql_char_def oracle_name_char_def ascii_letter_def)
  then show ?thesis
    using assms unfolding oracle_insert_text_def comma_list_def list_all_iff
    by (simp only: sql_text_append) (intro conjI sql_text_map sql_text_join; simp add: list_all_iff)
qed

text \<open>Whatever is configured, a statement has no quote, semicolon or dash in it, so no configured name ends a
  string, a statement or a line of it; its values are the sixteen binds.\<close>

theorem oracle_statement_text_safe:
  assumes "oracle_build_write_sql table columns mode keys updates = Inr w"
  shows "sql_text (ow_sql w) \<and> ow_bind_names w = map fst (bound_columns columns)"
proof -
  from assms obtain t wc ks where parts: "oracle_validate_identifier table = Inr t" "oracle_write_columns columns = Inr wc"
    "rmapM oracle_validate_identifier keys = Inr ks"
    unfolding oracle_build_write_sql_def Let_def by (auto simp only: rbind_Inr_iff)
  note run = assms [unfolded oracle_build_write_sql_def Let_def, simplified parts rbind_simps]
  note wc = oracle_write_columns_Inr [OF parts(2)]
  have texts: "sql_text t" "list_all sql_text ks" "list_all sql_text (map snd wc)" "list_all sql_text (map fst wc)"
    using sql_text_identifier [OF parts(1)] oracle_keys_text [OF parts(3)] wc(2) by (auto simp: list_all_iff)
  have lits: "sql_text ''select ''" "sql_text '' as ''" "sql_text '' from dual''" "sql_text '', ''" "sql_char (CHR '':'')" "sql_text '' /*+ append */''"
    by (simp_all add: sql_char_def oracle_name_char_def ascii_letter_def)
  have source: "sql_text (dual_source wc)"
    unfolding dual_source_def comma_list_def
    by (simp only: sql_text_append, intro conjI sql_text_map) (use wc(2) lits in \<open>auto simp del: sql_text_Cons(1) simp: list_all_iff sql_text_def\<close>)
  note merged = sql_text_clauses [OF texts(2) _ texts(3,1) source]
  note inserted = sql_text_insert [OF _ texts(1,3,4), unfolded wc(1)]
  have empty: "list_all sql_text []" by simp
  show ?thesis
  proof (cases mode)
    case Oracle_merge
    with run obtain us where us: "oracle_update_columns (map snd wc) ks updates = Inr us"
      by (auto simp: raise_def rbind_Inr_iff split: if_splits)
    have "list_all sql_text us" using oracle_update_columns_Inr(1) [OF us] texts(3) by (auto simp: list_all_iff)
    from merged [OF this] us run Oracle_merge wc(1) show ?thesis
      by (auto simp: raise_def split: if_splits)
  next
    case Oracle_append
    with run inserted [OF lits(6)] wc(1) show ?thesis by auto
  next
    case Oracle_insert
    with run inserted [OF sql_text_append(2)] wc(1) show ?thesis by auto
  next
    case Oracle_insert_ignore
    with run merged [OF empty] wc(1) show ?thesis by (auto simp: raise_def split: if_splits)
  qed
qed

end
