(* ===== verification/OracleConfig.thy ===== *)
theory OracleConfig
  imports OracleText MySqlConfig
begin

text \<open>
  The configuration of the Oracle sink (\<open>oracle/config.py\<close>): the checks across fields, the resolution of the two
  secrets, and the pool options made of them (\<open>oracle/connection.py\<close>).  Idempotency and routes are those of
  \<open>RelationalRow\<close>; the environment of the process is a parameter.
\<close>

record staging_config =
  st_enabled :: bool
  st_table :: "string option"
  st_batch_id_column :: string
  st_cleanup :: staging_cleanup

definition make_staging_config :: "staging_config \<Rightarrow> staging_config res" where
  "make_staging_config c =
     (if st_enabled c \<and> \<not> present (st_table c)
      then raise ValueError ''sink.staging.table is required when sink.staging.enabled is true'' else Inr c)"

record oracle_config =
  oc_dsn :: string
  oc_user :: string
  oc_password :: "string option"
  oc_password_env :: "string option"
  oc_config_dir :: "string option"
  oc_wallet_location :: "string option"
  oc_wallet_password :: "string option"
  oc_wallet_password_env :: "string option"
  oc_ssl_server_dn_match :: "bool option"
  oc_ssl_server_cert_dn :: "string option"
  oc_disable_parallel_dml :: bool
  oc_tcp_connect_timeout :: "pyfloat option"
  oc_retry_count :: "int option"
  oc_retry_delay :: "int option"
  oc_https_proxy :: "string option"
  oc_https_proxy_port :: "int option"
  oc_table :: string
  oc_table_routes :: "table_route list"
  oc_mode :: oracle_mode
  oc_merge_update_columns :: "string list option"
  oc_auto_create :: bool
  oc_payload_mode :: storage_mode
  oc_payload_column :: "string option"
  oc_headers_column :: "string option"
  oc_columns :: column_mapping
  oc_idempotency :: idempotency_config
  oc_staging :: staging_config
  oc_pool_min :: int
  oc_pool_max :: int
  oc_pool_increment :: int

definition validate_password_source :: "oracle_config \<Rightarrow> oracle_config res" where
  "validate_password_source c =
     (if \<not> present (oc_password c) \<and> \<not> present (oc_password_env c)
      then raise ValueError ''either sink.password or sink.password_env must be configured''
      else if oc_wallet_password c \<noteq> None \<and> oc_wallet_password_env c \<noteq> None
      then raise ValueError ''configure either sink.wallet_password or sink.wallet_password_env, not both''
      else if oc_wallet_password c \<noteq> None \<and> oc_wallet_location c = None
      then raise ValueError ''sink.wallet_password requires sink.wallet_location''
      else if oc_wallet_password_env c \<noteq> None \<and> oc_wallet_location c = None
      then raise ValueError ''sink.wallet_password_env requires sink.wallet_location''
      else if oc_https_proxy_port c \<noteq> None \<and> oc_https_proxy c = None
      then raise ValueError ''sink.https_proxy_port requires sink.https_proxy''
      else
        let columns1 = (if present (oc_payload_column c) then (oc_columns c)\<lparr>cm_payload := the (oc_payload_column c)\<rparr> else oc_columns c);
            columns2 = (if present (oc_headers_column c) then columns1\<lparr>cm_headers := the (oc_headers_column c)\<rparr> else columns1)
        in if oc_merge_update_columns c \<noteq> None \<and> oc_mode c \<noteq> Oracle_merge
           then raise ValueError ''sink.merge_update_columns applies only when sink.mode is merge''
           else if \<exists>r\<in>set (oc_table_routes c). tr_update_columns r \<noteq> None \<and> oc_mode c \<noteq> Oracle_merge
           then raise ValueError ''sink.table_routes[].merge_update_columns applies only when sink.mode is merge''
           else if st_enabled (oc_staging c) \<and> oc_mode c \<notin> {Oracle_merge, Oracle_insert_ignore}
           then raise ValueError ''sink.staging.enabled requires sink.mode to be merge or insert_ignore''
           else Inr (c\<lparr>oc_columns := columns2\<rparr>))"

text \<open>\<open>Field(ge=..., le=...)\<close> and \<open>Field(gt=0)\<close>, with \<open>None\<close> passing.\<close>

definition in_range :: "int \<Rightarrow> int option \<Rightarrow> int \<Rightarrow> unit res" where
  "in_range lo hi n = (if lo \<le> n \<and> (case hi of None \<Rightarrow> True | Some h \<Rightarrow> n \<le> h) then Inr () else raise ValueError ''value out of range'')"

definition optionally :: "('a \<Rightarrow> unit res) \<Rightarrow> 'a option \<Rightarrow> unit res" where
  "optionally f x = (case x of None \<Rightarrow> Inr () | Some v \<Rightarrow> f v)"

definition positive_float :: "pyfloat \<Rightarrow> unit res" where
  "positive_float x =
     (if (case x of FFin q \<Rightarrow> 0 < q | FPosInf \<Rightarrow> True | _ \<Rightarrow> False) then Inr () else raise ValueError ''value out of range'')"

definition make_oracle_config :: "oracle_config \<Rightarrow> oracle_config res" where
  "make_oracle_config c =
     rbind (optionally positive_float (oc_tcp_connect_timeout c)) (\<lambda>_.
     rbind (optionally (in_range 0 None) (oc_retry_count c)) (\<lambda>_.
     rbind (optionally (in_range 0 None) (oc_retry_delay c)) (\<lambda>_.
     rbind (optionally (in_range 1 (Some 65535)) (oc_https_proxy_port c)) (\<lambda>_.
     rbind (rmapM make_table_route (oc_table_routes c)) (\<lambda>routes.
     rbind (make_idempotency_config (oc_idempotency c)) (\<lambda>idempotency.
     rbind (make_staging_config (oc_staging c)) (\<lambda>staging.
     rbind (in_range 1 None (oc_pool_min c)) (\<lambda>_.
     rbind (in_range 1 None (oc_pool_max c)) (\<lambda>_.
     rbind (in_range 1 None (oc_pool_increment c)) (\<lambda>_.
       validate_password_source (c\<lparr>oc_table_routes := routes, oc_idempotency := idempotency, oc_staging := staging\<rparr>)))))))))))"

section \<open>Secrets\<close>

definition oracle_resolve_password :: "(string \<Rightarrow> string option) \<Rightarrow> oracle_config \<Rightarrow> string res" where
  "oracle_resolve_password getenv c =
     (case oc_password c of
        Some p \<Rightarrow> Inr p
      | None \<Rightarrow>
          if \<not> present (oc_password_env c) then raise ConfigurationError ''Oracle password_env is not configured''
          else (case getenv (the (oc_password_env c)) of
              None \<Rightarrow> raise ConfigurationError ''environment variable is not set''
            | Some p \<Rightarrow> Inr p))"

definition oracle_resolve_wallet_password :: "(string \<Rightarrow> string option) \<Rightarrow> oracle_config \<Rightarrow> string option res" where
  "oracle_resolve_wallet_password getenv c =
     (case oc_wallet_password c of
        Some p \<Rightarrow> Inr (Some p)
      | None \<Rightarrow>
          if \<not> present (oc_wallet_password_env c) then Inr None
          else (case getenv (the (oc_wallet_password_env c)) of
              None \<Rightarrow> raise ConfigurationError ''environment variable is not set''
            | Some p \<Rightarrow> Inr (Some p)))"

definition opt_float :: "pyfloat option \<Rightarrow> pyval" where
  "opt_float x = (case x of None \<Rightarrow> PNone | Some f \<Rightarrow> PFloat f)"

definition oracle_pool_options :: "(string \<Rightarrow> string option) \<Rightarrow> oracle_config \<Rightarrow> (string \<times> pyval) list res" where
  "oracle_pool_options getenv c =
     rbind (oracle_resolve_wallet_password getenv c) (\<lambda>wallet_password.
     rbind (oracle_resolve_password getenv c) (\<lambda>password.
       Inr (filter (\<lambda>(name, v). v \<noteq> PNone)
         [(''user'', PStr (oc_user c)), (''password'', PStr password), (''dsn'', PStr (oc_dsn c)), (''min'', PInt (oc_pool_min c)),
          (''max'', PInt (oc_pool_max c)), (''increment'', PInt (oc_pool_increment c)), (''config_dir'', opt_str (oc_config_dir c)),
          (''wallet_location'', opt_str (oc_wallet_location c)), (''wallet_password'', opt_str wallet_password),
          (''ssl_server_dn_match'', opt_bool (oc_ssl_server_dn_match c)), (''ssl_server_cert_dn'', opt_str (oc_ssl_server_cert_dn c)),
          (''tcp_connect_timeout'', opt_float (oc_tcp_connect_timeout c)), (''retry_count'', opt_int (oc_retry_count c)),
          (''retry_delay'', opt_int (oc_retry_delay c)), (''https_proxy'', opt_str (oc_https_proxy c)),
          (''https_proxy_port'', opt_int (oc_https_proxy_port c))])))"

section \<open>What a validated configuration is\<close>

lemma raise_unless: "(if b then raise cls message else r) = Inr x \<longleftrightarrow> \<not> b \<and> r = Inr x"
  by (simp add: raise_def)

lemma validate_password_source_Inr:
  assumes "validate_password_source c = Inr c'"
  shows "\<exists>columns. c' = c\<lparr>oc_columns := columns\<rparr>" "present (oc_password c) \<or> present (oc_password_env c)"
    "st_enabled (oc_staging c) \<longrightarrow> oc_mode c \<in> {Oracle_merge, Oracle_insert_ignore}"
proof -
  note checked = assms [unfolded validate_password_source_def Let_def raise_unless sum.inject]
  from checked show "present (oc_password c) \<or> present (oc_password_env c)" by blast
  from checked show "st_enabled (oc_staging c) \<longrightarrow> oc_mode c \<in> {Oracle_merge, Oracle_insert_ignore}" by blast
  from checked show "\<exists>columns. c' = c\<lparr>oc_columns := columns\<rparr>" by (elim conjE) (rule exI, erule sym)
qed

lemma make_oracle_config_Inr:
  assumes "make_oracle_config c = Inr c'"
  shows "present (oc_password c') \<or> present (oc_password_env c')"
    "st_enabled (oc_staging c') \<Longrightarrow> present (st_table (oc_staging c')) \<and> oc_mode c' \<in> {Oracle_merge, Oracle_insert_ignore}"
proof -
  from assms obtain routes idempotency staging where staging: "make_staging_config (oc_staging c) = Inr staging"
    and c': "validate_password_source (c\<lparr>oc_table_routes := routes, oc_idempotency := idempotency, oc_staging := staging\<rparr>) = Inr c'"
    unfolding make_oracle_config_def by (auto simp only: rbind_Inr_iff)
  let ?c = "c\<lparr>oc_table_routes := routes, oc_idempotency := idempotency, oc_staging := staging\<rparr>"
  note checked = validate_password_source_Inr [OF c']
  from checked(1) obtain columns where columns: "c' = ?c\<lparr>oc_columns := columns\<rparr>" ..
  with checked(2) show "present (oc_password c') \<or> present (oc_password_env c')" by simp
  have "st_enabled staging \<Longrightarrow> present (st_table staging)"
    using staging by (auto simp: make_staging_config_def raise_def split: if_splits)
  with columns checked(3) show "st_enabled (oc_staging c') \<Longrightarrow> present (st_table (oc_staging c')) \<and> oc_mode c' \<in> {Oracle_merge, Oracle_insert_ignore}"
    by simp
qed

text \<open>An empty password passes when an environment variable is configured beside it, and is then used instead of
  the variable.\<close>

lemma empty_password_shadows_environment:
  assumes "oc_password c = Some []" "present (oc_password_env c)"
  shows "\<not> (\<exists>err. validate_password_source c = Inl err \<and> exn_msg err = ''either sink.password or sink.password_env must be configured'')"
    and "oracle_resolve_password getenv c = Inr []"
proof -
  have step: "(\<exists>err. (if b then Inl e else r) = Inl err \<and> exn_msg err = m) \<longleftrightarrow> (if b then exn_msg e = m else \<exists>err. r = Inl err \<and> exn_msg err = m)"
    for b e m and r :: "oracle_config res" by simp
  show "\<not> (\<exists>err. validate_password_source c = Inl err \<and> exn_msg err = ''either sink.password or sink.password_env must be configured'')"
    using assms unfolding validate_password_source_def raise_def Let_def step by (simp add: present_def)
  show "oracle_resolve_password getenv c = Inr []"
    using assms by (simp add: oracle_resolve_password_def)
qed

end
