(* ===== verification/OracleSink.thy ===== *)
theory OracleSink
  imports TableBatches OracleConfig
begin

text \<open>
  The Oracle sink (\<open>oracle/sink.py\<close>, \<open>oracle/errors.py\<close>): direct writes and writes through a staging table, one
  transaction per batch, the translation of driver errors, and the life of the sink.
\<close>

section \<open>Errors\<close>

text \<open>\<open>ORA-(\d{5})\<close>: the first match with its five digits.\<close>

fun ora_code :: "string \<Rightarrow> string option" where
  "ora_code [] = None"
| "ora_code (c # cs) =
     (if take 4 (c # cs) = ''ORA-'' \<and> 9 \<le> length (c # cs) \<and> list_all ascii_digit (take 5 (drop 4 (c # cs)))
      then Some (take 9 (c # cs)) else ora_code cs)"

text \<open>\<open>format(code, '05d')\<close>.\<close>

definition five_digits :: "int \<Rightarrow> string" where
  "five_digits n =
     (let digits = render_nat (nat \<bar>n\<bar>) in
      if n < 0 then CHR ''-'' # replicate (4 - length digits) (CHR ''0'') @ digits
      else replicate (5 - length digits) (CHR ''0'') @ digits)"

text \<open>An attribute \<open>code\<close> that is there is a number.\<close>

definition oracle_error_code :: "db_env \<Rightarrow> exn \<Rightarrow> string option" where
  "oracle_error_code X err =
     (case de_number X err ''code'' of Some n \<Rightarrow> Some (''ORA-'' @ five_digits n) | None \<Rightarrow> ora_code (exn_msg err))"

definition oracle_is_duplicate_error :: "db_env \<Rightarrow> exn \<Rightarrow> bool" where
  "oracle_is_duplicate_error X err \<longleftrightarrow> oracle_error_code X err = Some ''ORA-00001''"

definition ORACLE_SCHEMA_MISMATCH_HINT :: string where
  "ORACLE_SCHEMA_MISMATCH_HINT =
     ''The configured Oracle table may be missing columns expected by nats-sinks, ''
     @ ''or the configured column mapping may not match the table shape. Verify the ''
     @ ''target table, configured column names, idempotency key columns, and current ''
     @ ''recommended Oracle DDL. If this is a retained test table from an older ''
     @ ''release, migrate it or recreate it with the current schema.''"

definition oracle_translate_exception :: "db_env \<Rightarrow> exn \<Rightarrow> string \<Rightarrow> exn" where
  "oracle_translate_exception X err what =
     (let code = oracle_error_code X err in
      if code = Some ''ORA-01017''
      then Exn PermanentSinkError (what @ '': ORA-01017 authentication failed. Verify the Oracle user, ''
        @ ''password environment variable, wallet settings, and database service name. ''
        @ ''Resolved secrets are intentionally not logged.'')
      else if code = Some ''ORA-00942''
      then Exn PermanentSinkError (what @ '': ORA-00942 table or view is not available to the runtime user. ''
        @ ''The configured table may not exist, may be in a different schema, or the ''
        @ ''runtime account may be missing required table privileges. Verify the table ''
        @ ''name, schema owner, grants, migrations, and auto_create setting.'')
      else if code = Some ''ORA-00904''
      then Exn PermanentSinkError (what @ '': ORA-00904 invalid Oracle identifier. '' @ ORACLE_SCHEMA_MISMATCH_HINT)
      else if code = Some ''ORA-00001'' then Exn PermanentSinkError (what @ '': duplicate key'')
      else Exn DestinationUnavailableError (what @ '': '' @ (case code of Some c \<Rightarrow> c | None \<Rightarrow> class_name (exn_cls err))))"

section \<open>Construction\<close>

type_synonym oracle_statements = "oracle_write_sql \<times> oracle_staging_sql option"

record oracle_sink =
  or_lib :: pylib
  or_env :: db_env
  or_config :: oracle_config
  or_started :: bool
  or_policies :: policies
  or_cache :: "(string \<times> oracle_statements) list"

abbreviation oracle_conflict :: string where
  "oracle_conflict \<equiv> ''conflicting Oracle idempotency policy configured''"

definition oracle_write_sql_for_policy :: "oracle_config \<Rightarrow> table_policy \<Rightarrow> oracle_write_sql res" where
  "oracle_write_sql_for_policy c p =
     oracle_build_write_sql (tp_table_name p) (oc_columns c) (oc_mode c) (ic_columns (tp_idempotency p)) (tp_update_columns p)"

definition oracle_staging_sql_for_policy :: "oracle_config \<Rightarrow> table_policy \<Rightarrow> oracle_staging_sql res" where
  "oracle_staging_sql_for_policy c p =
     (if \<not> present (st_table (oc_staging c)) then raise ConfigurationError ''Oracle staging table is not configured''
      else oracle_build_staging_sql (tp_table_name p) (the (st_table (oc_staging c))) (st_batch_id_column (oc_staging c))
        (oc_columns c) (oc_mode c) (ic_columns (tp_idempotency p)) (tp_update_columns p) (st_cleanup (oc_staging c)))"

definition oracle_sql_for_policy :: "oracle_config \<Rightarrow> table_policy \<Rightarrow> oracle_statements res" where
  "oracle_sql_for_policy c p =
     rbind (oracle_write_sql_for_policy c p) (\<lambda>sql.
     rbind (if st_enabled (oc_staging c) then rmap Some (oracle_staging_sql_for_policy c p) else Inr None) (\<lambda>staging.
       Inr (sql, staging)))"

definition make_oracle_sink :: "pylib \<Rightarrow> db_env \<Rightarrow> oracle_config \<Rightarrow> oracle_sink res" where
  "make_oracle_sink L X c =
     rbind (register_policy oracle_validate_identifier oracle_conflict (oc_table c) (oc_idempotency c) (oc_merge_update_columns c) []) (\<lambda>first.
     rbind (register_routes oracle_validate_identifier oracle_conflict (oc_idempotency c) (oc_merge_update_columns c)
         (oc_table_routes c) first) (\<lambda>policies.
     rbind (prepare_statements (oracle_sql_for_policy c) (\<lambda>(sql, staging). ow_table_name sql) (map snd policies) []) (\<lambda>cache.
       Inr \<lparr>or_lib = L, or_env = X, or_config = c, or_started = False, or_policies = policies, or_cache = cache\<rparr>)))"

section \<open>Rows by table\<close>

definition oracle_policy_for_table :: "oracle_sink \<Rightarrow> string \<Rightarrow> table_policy res" where
  "oracle_policy_for_table S = policy_for_table ''Oracle policy for the table is not configured'' (or_policies S)"

definition oracle_table_for_subject :: "oracle_sink \<Rightarrow> string \<Rightarrow> string res" where
  "oracle_table_for_subject S =
     table_for_subject oracle_validate_identifier (oc_table_routes (or_config S)) (oc_table (or_config S))"

definition oracle_policy_for_subject :: "oracle_sink \<Rightarrow> string \<Rightarrow> table_policy res" where
  "oracle_policy_for_subject S subject = rbind (oracle_table_for_subject S subject) (oracle_policy_for_table S)"

definition oracle_row :: "oracle_sink \<Rightarrow> timed \<Rightarrow> (string \<times> row) res" where
  "oracle_row S = (\<lambda>(now, e).
     rbind (oracle_table_for_subject S (env_subject e)) (\<lambda>table.
     rbind (oracle_policy_for_subject S (env_subject e)) (\<lambda>policy.
     rbind (envelope_to_row (or_lib S) (tp_idempotency policy) (oc_payload_mode (or_config S)) now e) (\<lambda>row.
       Inr (table, row)))))"

definition oracle_rows_by_table :: "oracle_sink \<Rightarrow> timed list \<Rightarrow> (string \<times> row list) list res" where
  "oracle_rows_by_table S messages = rows_by_table (oracle_row S) messages []"

section \<open>Writing\<close>

definition oracle_write_stats :: "oracle_config \<Rightarrow> int option \<Rightarrow> nat \<Rightarrow> write_stats" where
  "oracle_write_stats c reported rows =
     (let same = rowcount_no_change_count reported rows in
      case oc_mode c of
        Oracle_insert_ignore \<Rightarrow> no_stats\<lparr>ws_duplicates := same, ws_duplicate_ignored := same\<rparr>
      | Oracle_merge \<Rightarrow>
          if oc_merge_update_columns c = Some []
          then no_stats\<lparr>ws_duplicates := same, ws_duplicate_noop := same, ws_keyed_rows := int rows\<rparr>
          else no_stats\<lparr>ws_keyed_rows := int rows, ws_outcome_unknown := int rows\<rparr>
      | _ \<Rightarrow> no_stats)"

text \<open>A dictionary of named binds.\<close>

definition bind_dict :: "row \<Rightarrow> pyval" where
  "bind_dict row = PDict (map (\<lambda>(name, v). (PStr name, v)) row)"

definition oracle_cached_sql :: "oracle_sink \<Rightarrow> string \<Rightarrow> oracle_write_sql res" where
  "oracle_cached_sql S table =
     (case map_of (or_cache S) table of
        Some (sql, staging) \<Rightarrow> Inr sql
      | None \<Rightarrow> rbind (oracle_policy_for_table S table) (oracle_write_sql_for_policy (or_config S)))"

definition oracle_cached_staging :: "oracle_sink \<Rightarrow> string \<Rightarrow> oracle_staging_sql res" where
  "oracle_cached_staging S table =
     (case map_of (or_cache S) table of
        Some (sql, Some staging) \<Rightarrow> Inr staging
      | _ \<Rightarrow> rbind (oracle_policy_for_table S table) (oracle_staging_sql_for_policy (or_config S)))"

fun oracle_write_direct_rows :: "oracle_sink \<Rightarrow> (string \<times> row list) list \<Rightarrow> write_stats \<Rightarrow> write_stats dbm" where
  "oracle_write_direct_rows S [] stats = st_ret stats"
| "oracle_write_direct_rows S ((table, rows) # groups) stats =
     (if rows = [] then oracle_write_direct_rows S groups stats
      else st_bind (st_lift (oracle_cached_sql S table)) (\<lambda>sql.
        st_then (execute_many (or_env S) (ow_sql sql, map bind_dict rows))
        (st_then (db_call (or_env S) (Observed ''oracle_execute_seconds''))
        (st_bind (reported_rows (or_env S)) (\<lambda>reported.
          oracle_write_direct_rows S groups
            (combine_write_stats stats (oracle_write_stats (or_config S) reported (length rows))))))))"

text \<open>\<open>ids\<close> gives the identifier drawn for each table of the batch.\<close>

definition staging_row :: "string \<Rightarrow> string \<Rightarrow> row \<Rightarrow> pyval" where
  "staging_row bind batch_id row = bind_dict ((bind, PStr batch_id) # row)"

definition batch_only :: "string \<Rightarrow> string \<Rightarrow> pyval list" where
  "batch_only bind batch_id = [bind_dict [(bind, PStr batch_id)]]"

fun oracle_write_staging_rows ::
  "oracle_sink \<Rightarrow> (string \<Rightarrow> string) \<Rightarrow> (string \<times> row list) list \<Rightarrow> write_stats \<Rightarrow> write_stats dbm" where
  "oracle_write_staging_rows S ids [] stats = st_ret stats"
| "oracle_write_staging_rows S ids ((table, rows) # groups) stats =
     (if rows = [] then oracle_write_staging_rows S ids groups stats
      else st_bind (st_lift (oracle_cached_staging S table)) (\<lambda>sql.
        let bind = os_batch_bind_name sql; batch_id = ids table in
        st_then (execute_many (or_env S) (os_insert_sql sql, map (staging_row bind batch_id) rows))
        (st_then (execute_many (or_env S) (os_merge_sql sql, batch_only bind batch_id))
        (st_bind (reported_rows (or_env S)) (\<lambda>reported.
        st_then (case os_cleanup_sql sql of
            Some cleanup \<Rightarrow> execute_many (or_env S) (cleanup, batch_only bind batch_id)
          | None \<Rightarrow> st_ret ())
        (st_then (db_call (or_env S) (Observed ''oracle_execute_seconds''))
          (oracle_write_staging_rows S ids groups
            (combine_write_stats stats (oracle_write_stats (or_config S) reported (length rows))))))))))"

definition with_cursor :: "db_env \<Rightarrow> 'a dbm \<Rightarrow> 'a dbm" where
  "with_cursor X m = st_then (db_call X Open_cursor) (st_finally m (db_call X Close_cursor))"

definition oracle_prepare_connection :: "oracle_sink \<Rightarrow> unit dbm" where
  "oracle_prepare_connection S =
     (if \<not> oc_disable_parallel_dml (or_config S) then st_ret ()
      else with_cursor (or_env S) (db_call (or_env S) (Session ''alter session disable parallel dml'')))"

definition oracle_stage :: "oracle_sink \<times> (string \<Rightarrow> string) \<Rightarrow> (string \<times> row list) list \<Rightarrow> write_stats dbm" where
  "oracle_stage = (\<lambda>(S, ids) groups.
     st_then (oracle_prepare_connection S)
       (with_cursor (or_env S)
         (st_bind (if st_enabled (oc_staging (or_config S)) then oracle_write_staging_rows S ids groups no_stats
                   else oracle_write_direct_rows S groups no_stats)
           (\<lambda>w. st_ret (combine_write_stats no_stats w)))))"

definition oracle_write_rows :: "oracle_sink \<times> (string \<Rightarrow> string) \<Rightarrow> (string \<times> row list) list \<Rightarrow> write_stats dbm" where
  "oracle_write_rows Si groups =
     write_rows_sync (or_env (fst Si)) ''oracle_commit_seconds'' ''Oracle commit failed'' (release_connection (or_env (fst Si)))
       (oracle_stage Si groups)"

definition oracle_metrics :: batch_metrics where
  "oracle_metrics = \<lparr>bm_execute = ''oracle_execute_seconds'', bm_commit = ''oracle_commit_seconds'', bm_conflicts = ''oracle_conflicts_total'',
     bm_keyed = ''oracle_merge_rows_total'', bm_unknown = ''oracle_merge_outcome_unknown_total'', bm_duplicates = ''oracle_duplicates_total'',
     bm_ignored = ''oracle_duplicate_ignored_total'', bm_noop = ''oracle_duplicate_noop_total''\<rparr>"

text \<open>The handlers of \<open>write_batch\<close>; temporary framework errors are not passed through but translated.\<close>

definition oracle_write_failed :: "oracle_sink \<Rightarrow> int \<Rightarrow> exn \<Rightarrow> unit dbm" where
  "oracle_write_failed S =
     batch_write_failed (or_env S) oracle_metrics (oc_mode (or_config S) = Oracle_insert_ignore)
       (\<lambda>err. isinstance err PermanentSinkError \<or> \<not> isinstance err PyException)
       (oracle_is_duplicate_error (or_env S))
       (\<lambda>err. oracle_translate_exception (or_env S) err ''Oracle batch write failed'')"

definition oracle_write_batch :: "oracle_sink \<Rightarrow> (string \<Rightarrow> string) \<Rightarrow> timed list \<Rightarrow> unit dbm" where
  "oracle_write_batch S ids messages =
     write_batch_with (or_started S) ''OracleSink has not been started'' messages (oracle_rows_by_table S messages)
       (oracle_write_rows (S, ids)) (record_write_stats (or_env S) oracle_metrics) (oracle_write_failed S (int (length messages)))"

section \<open>Life cycle\<close>

definition oracle_execute_ddl :: "oracle_sink \<Rightarrow> string \<Rightarrow> unit dbm" where
  "oracle_execute_ddl S ddl =
     st_then (db_call (or_env S) Acquire)
       (st_finally
         (st_then (oracle_prepare_connection S)
           (st_then (with_cursor (or_env S) (execute_many (or_env S) (ddl, []))) (commit (or_env S))))
         (release_connection (or_env S)))"

text \<open>A table that is there already (\<open>ORA-00955\<close>) counts as created.\<close>

definition oracle_create :: "oracle_sink \<Rightarrow> string \<Rightarrow> string res \<Rightarrow> unit dbm" where
  "oracle_create S what ddl =
     st_bind (st_lift ddl) (\<lambda>text.
       st_except (oracle_execute_ddl S text) (\<lambda>err.
         if oracle_error_code (or_env S) err = Some ''ORA-00955'' then st_ret ()
         else st_throw (oracle_translate_exception (or_env S) err what)))"

definition oracle_ensure_schema :: "oracle_sink \<Rightarrow> unit dbm" where
  "oracle_ensure_schema S =
     (if \<not> or_started S then st_throw (Exn ConfigurationError ''OracleSink has not been started'')
      else st_then
        (st_each (\<lambda>table. oracle_create S ''Oracle schema creation failed'' (oracle_create_table_ddl table))
          (first_occurrences (oc_table (or_config S) # map tr_table (oc_table_routes (or_config S)))))
        (let staging = oc_staging (or_config S) in
         if st_enabled staging \<and> present (st_table staging)
         then oracle_create S ''Oracle staging schema creation failed''
           (oracle_create_staging_ddl (the (st_table staging)) (st_batch_id_column staging))
         else st_ret ()))"

definition oracle_healthcheck :: "oracle_sink \<Rightarrow> unit dbm" where
  "oracle_healthcheck S =
     (if \<not> or_started S then st_throw (Exn ConfigurationError ''OracleSink has not been started'')
      else st_except
        (st_then (db_call (or_env S) Acquire)
          (st_finally (with_cursor (or_env S) (execute_many (or_env S) (''select 1 from dual'', []))) (release_connection (or_env S))))
        (\<lambda>err. st_throw (oracle_translate_exception (or_env S) err ''Oracle healthcheck failed'')))"

text \<open>\<open>start\<close>: the outcome, and the sink after it.  The options are made inside the \<open>try\<close>; a schema that
  cannot be created leaves the pool in place.\<close>

definition oracle_start :: "(string \<Rightarrow> string option) \<Rightarrow> oracle_sink \<Rightarrow> (unit res \<times> oracle_sink) dbm" where
  "oracle_start getenv S =
     (if or_started S then st_ret (Inr (), S)
      else st_catch
        (st_bind
          (st_except (st_bind (st_lift (oracle_pool_options getenv (or_config S))) (\<lambda>options. db_call (or_env S) (Create_pool options)))
            (\<lambda>err. st_throw (oracle_translate_exception (or_env S) err ''failed to create Oracle connection pool'')))
          (\<lambda>_. let S' = S\<lparr>or_started := True\<rparr> in
            if oc_auto_create (or_config S)
            then st_catch (st_then (oracle_ensure_schema S') (st_ret (Inr (), S'))) (\<lambda>err. st_ret (Inl err, S'))
            else st_ret (Inr (), S')))
        (\<lambda>err. st_ret (Inl err, S)))"

text \<open>\<open>stop\<close>: the pool is forgotten before it is closed.\<close>

definition oracle_stopped :: "oracle_sink \<Rightarrow> oracle_sink" where
  "oracle_stopped S = S\<lparr>or_started := False\<rparr>"

definition oracle_stop :: "oracle_sink \<Rightarrow> unit dbm" where
  "oracle_stop S =
     (if \<not> or_started S then st_ret ()
      else st_catch (db_call (or_env S) (Close_pool False))
        (\<lambda>err. if isinstance err TypeError then db_call (or_env S) (Close_pool True) else st_throw err))"

section \<open>A constructed sink is complete\<close>

interpretation oracle_names: table_names oracle_validate_identifier
  by unfold_locales (rule oracle_validate_identifier_Inr(2))

lemma oracle_build_table:
  "oracle_build_write_sql table columns mode keys updates = Inr w \<Longrightarrow> oracle_validate_identifier table = Inr (ow_table_name w)"
  by (cases mode) (auto simp: oracle_build_write_sql_def Let_def raise_def split: if_splits elim!: rbindE)

lemma oracle_sink_ready:
  assumes "make_oracle_sink L X c = Inr S"
  shows "\<exists>table policy sql staging. oracle_table_for_subject S subject = Inr table \<and> oracle_policy_for_subject S subject = Inr policy
    \<and> tp_table_name policy = table \<and> map_of (or_cache S) table = Some (sql, staging)
    \<and> (st_enabled (oc_staging c) \<longrightarrow> staging \<noteq> None)"
proof -
  from assms obtain ps1 ps cache where made:
    "register_policy oracle_validate_identifier oracle_conflict (oc_table c) (oc_idempotency c) (oc_merge_update_columns c) [] = Inr ps1"
    "register_routes oracle_validate_identifier oracle_conflict (oc_idempotency c) (oc_merge_update_columns c) (oc_table_routes c) ps1 = Inr ps"
    "prepare_statements (oracle_sql_for_policy c) (\<lambda>(sql, staging). ow_table_name sql) (map snd ps) [] = Inr cache"
    and S: "S = \<lparr>or_lib = L, or_env = X, or_config = c, or_started = False, or_policies = ps, or_cache = cache\<rparr>"
    by (auto simp: make_oracle_sink_def elim!: rbindE)
  from oracle_names.policies_complete [OF made(1,2), of subject] obtain name p where
    name: "oracle_table_for_subject S subject = Inr name" "map_of ps name = Some p" "tp_table_name p = name"
    by (fastforce simp: oracle_table_for_subject_def S)
  have sql: "(case w of (sql, staging) \<Rightarrow> ow_table_name sql) = tp_table_name q"
    if "q \<in> set (map snd ps)" "oracle_sql_for_policy c q = Inr w" for q w
    using that(2) oracle_names.registered_names [OF made(1,2) that(1)] oracle_build_table
    by (fastforce simp: oracle_sql_for_policy_def oracle_write_sql_for_policy_def elim!: rbindE)
  have "p \<in> set (map snd ps)" using name(2) by (force dest: map_of_SomeD)
  with prepare_statements_Inr [OF made(3) sql] name(3) obtain w where w: "map_of cache name = Some w" by blast
  have kept: "\<forall>v\<in>snd ` set cache'. st_enabled (oc_staging c) \<longrightarrow> snd v \<noteq> None"
    if "prepare_statements (oracle_sql_for_policy c) f qs cache0 = Inr cache'"
      "\<forall>v\<in>snd ` set cache0. st_enabled (oc_staging c) \<longrightarrow> snd v \<noteq> None" for f qs cache0 cache'
    using that
  proof (induction qs arbitrary: cache0)
    case (Cons q qs)
    then obtain v where v: "oracle_sql_for_policy c q = Inr v"
      "prepare_statements (oracle_sql_for_policy c) f qs (AList.update (f v) v cache0) = Inr cache'"
      by (auto elim!: rbindE)
    have "st_enabled (oc_staging c) \<longrightarrow> snd v \<noteq> None"
      using v(1) by (auto simp: oracle_sql_for_policy_def rmap_Inr_iff split: if_splits elim!: rbindE)
    moreover have "snd ` set (AList.update k v cs) \<subseteq> insert v (snd ` set cs)" for k and cs :: "(string \<times> oracle_statements) list"
      by (induction cs) auto
    ultimately show ?case using Cons.IH [OF v(2)] Cons.prems(2) by blast
  qed simp
  from kept [OF made(3)] w have "st_enabled (oc_staging c) \<longrightarrow> snd w \<noteq> None" by (force dest: map_of_SomeD)
  with name w show ?thesis
    by (cases w) (simp add: oracle_policy_for_subject_def oracle_policy_for_table_def policy_for_table_def S)
qed

section \<open>The statements of a batch\<close>

definition staging_statements :: "oracle_staging_sql \<Rightarrow> string \<Rightarrow> row list \<Rightarrow> statement list" where
  "staging_statements sql batch_id rows =
     [(os_insert_sql sql, map (staging_row (os_batch_bind_name sql) batch_id) rows), (os_merge_sql sql, batch_only (os_batch_bind_name sql) batch_id)]
     @ (case os_cleanup_sql sql of Some cleanup \<Rightarrow> [(cleanup, batch_only (os_batch_bind_name sql) batch_id)] | None \<Rightarrow> [])"

definition oracle_table_statements :: "oracle_sink \<Rightarrow> (string \<Rightarrow> string) \<Rightarrow> string \<Rightarrow> row list \<Rightarrow> statement list" where
  "oracle_table_statements S ids table rows =
     (if rows = [] then []
      else if st_enabled (oc_staging (or_config S))
      then (case oracle_cached_staging S table of Inr sql \<Rightarrow> staging_statements sql (ids table) rows | Inl err \<Rightarrow> [])
      else (case oracle_cached_sql S table of Inr sql \<Rightarrow> [(ow_sql sql, map bind_dict rows)] | Inl err \<Rightarrow> []))"

definition oracle_statements_of :: "oracle_sink \<times> (string \<Rightarrow> string) \<Rightarrow> (string \<times> row list) list \<Rightarrow> statement list" where
  "oracle_statements_of = (\<lambda>(S, ids) groups. concat (map (\<lambda>(table, rows). oracle_table_statements S ids table rows) groups))"

lemma oracle_write_direct_rows_hoare:
  "\<not> st_enabled (oc_staging (or_config S)) \<Longrightarrow>
   st_hoare (in_transaction C V) (oracle_write_direct_rows S groups stats) (\<lambda>_. in_transaction C (V @ oracle_statements_of (S, ids) groups)) (committed_is C)"
proof (induction S groups stats arbitrary: V rule: oracle_write_direct_rows.induct)
  case (1 S stats)
  then show ?case by (auto simp: oracle_statements_of_def intro: st_hoare_ret)
next
  case (2 S table rows groups stats)
  show ?case
  proof (cases "rows = []")
    case True
    with 2 show ?thesis by (simp add: oracle_statements_of_def oracle_table_statements_def)
  next
    case False
    show ?thesis
    proof (cases "oracle_cached_sql S table")
      case (Inl err)
      with False show ?thesis
        by (auto simp: st_hoare_def st_bind_def st_lift_def in_transaction_def committed_is_def)
    next
      case (Inr sql)
      then have "oracle_statements_of (S, ids) ((table, rows) # groups) = (ow_sql sql, map bind_dict rows) # oracle_statements_of (S, ids) groups"
        using False 2(3) by (simp add: oracle_statements_of_def oracle_table_statements_def)
      moreover have "st_hoare (in_transaction C (V @ [(ow_sql sql, map bind_dict rows)]))
          (oracle_write_direct_rows S groups (combine_write_stats stats (oracle_write_stats (or_config S) x (length rows))))
          (\<lambda>_. in_transaction C (V @ (ow_sql sql, map bind_dict rows) # oracle_statements_of (S, ids) groups)) (committed_is C)" for x
        using 2(2) [OF False 2(3), of "V @ [(ow_sql sql, map bind_dict rows)]"] by simp
      ultimately show ?thesis
        using False Inr by (auto simp: st_lift_Inr intro!: st_hoare_then st_hoare_bind transaction_rules st_hoare_reported log_blind_transaction)
    qed
  qed
qed

lemma oracle_write_staging_rows_hoare:
  "st_enabled (oc_staging (or_config S)) \<Longrightarrow>
   st_hoare (in_transaction C V) (oracle_write_staging_rows S ids groups stats) (\<lambda>_. in_transaction C (V @ oracle_statements_of (S, ids) groups)) (committed_is C)"
proof (induction S ids groups stats arbitrary: V rule: oracle_write_staging_rows.induct)
  case (1 S ids stats)
  then show ?case by (auto simp: oracle_statements_of_def intro: st_hoare_ret)
next
  case (2 S ids table rows groups stats)
  show ?case
  proof (cases "rows = []")
    case True
    with 2 show ?thesis by (simp add: oracle_statements_of_def oracle_table_statements_def)
  next
    case False
    show ?thesis
    proof (cases "oracle_cached_staging S table")
      case (Inl err)
      with False show ?thesis
        by (auto simp: st_hoare_def st_bind_def st_lift_def in_transaction_def committed_is_def)
    next
      case (Inr sql)
      let ?bind = "os_batch_bind_name sql" and ?id = "ids table"
      let ?ins = "(os_insert_sql sql, map (staging_row ?bind ?id) rows)" and ?mrg = "(os_merge_sql sql, batch_only ?bind ?id)"
      let ?cln = "case os_cleanup_sql sql of Some cleanup \<Rightarrow> [(cleanup, batch_only ?bind ?id)] | None \<Rightarrow> []"
      let ?cleanup = "case os_cleanup_sql sql of Some cleanup \<Rightarrow> execute_many (or_env S) (cleanup, batch_only ?bind ?id) | None \<Rightarrow> st_ret ()"
      have V: "V @ oracle_statements_of (S, ids) ((table, rows) # groups) = (((V @ [?ins]) @ [?mrg]) @ ?cln) @ oracle_statements_of (S, ids) groups"
        using False Inr 2(3) by (simp add: oracle_statements_of_def oracle_table_statements_def staging_statements_def)
      have cleaned: "st_hoare (in_transaction C W) ?cleanup (\<lambda>_. in_transaction C (W @ ?cln)) (committed_is C)" for W
        by (auto split: option.splits intro: st_hoare_execute st_hoare_ret)
      note later = 2(2) [OF False refl refl 2(3)]
      have run: "oracle_write_staging_rows S ids ((table, rows) # groups) stats
         = st_then (execute_many (or_env S) ?ins) (st_then (execute_many (or_env S) ?mrg)
            (st_bind (reported_rows (or_env S)) (\<lambda>reported. st_then ?cleanup (st_then (db_call (or_env S) (Observed ''oracle_execute_seconds''))
              (oracle_write_staging_rows S ids groups
                (combine_write_stats stats (oracle_write_stats (or_config S) reported (length rows))))))))"
        using False Inr by (simp add: st_lift_Inr Let_def)
      show ?thesis
        unfolding run V
        by (rule st_hoare_then [OF st_hoare_execute], rule st_hoare_then [OF st_hoare_execute],
          rule st_hoare_bind [OF st_hoare_reported [OF log_blind_transaction(1)]],
          rule st_hoare_then [OF cleaned], rule st_hoare_then [OF st_hoare_transaction_call], rule later)
    qed
  qed
qed

lemma oracle_stage_hoare:
  "st_hoare (in_transaction C []) (oracle_stage Si groups) (\<lambda>_. in_transaction C (oracle_statements_of Si groups)) (committed_is C)"
proof (cases Si)
  case (Pair S ids)
  have rows: "st_hoare (in_transaction C []) (if st_enabled (oc_staging (or_config S)) then oracle_write_staging_rows S ids groups no_stats
        else oracle_write_direct_rows S groups no_stats) (\<lambda>_. in_transaction C (oracle_statements_of (S, ids) groups)) (committed_is C)"
    using oracle_write_staging_rows_hoare [of S C "[]" ids groups no_stats] oracle_write_direct_rows_hoare [of S C "[]" groups no_stats ids] by simp
  have prepared: "st_hoare (in_transaction C []) (oracle_prepare_connection S) (\<lambda>_. in_transaction C []) (committed_is C)"
    unfolding oracle_prepare_connection_def with_cursor_def
    by (intro st_hoare_if st_hoare_ret st_hoare_cursor(1) st_hoare_transaction_call)
  show ?thesis
    unfolding Pair oracle_stage_def case_prod_conv with_cursor_def
    by (rule st_hoare_then [OF prepared], rule st_hoare_cursor(1), rule st_hoare_bind [OF rows]) (rule st_hoare_ret)
qed

interpretation oracle_stage: transactional_stage oracle_stage oracle_statements_of
  by unfold_locales (rule oracle_stage_hoare)

section \<open>Acknowledged means committed\<close>

text \<open>What the sink takes for success although the database refused it.\<close>

definition oracle_ignores :: "oracle_sink \<times> (string \<Rightarrow> string) \<Rightarrow> bool" where
  "oracle_ignores = (\<lambda>(S, ids). oc_mode (or_config S) = Oracle_insert_ignore \<and> (\<exists>err. oracle_is_duplicate_error (or_env S) err))"

interpretation oracle_batch: relational_batches "\<lambda>Si. oracle_rows_by_table (fst Si)" oracle_write_rows
  "\<lambda>Si. record_write_stats (or_env (fst Si)) oracle_metrics" "\<lambda>Si. oracle_write_failed (fst Si)" oracle_statements_of oracle_ignores
proof
  fix C Si groups n err w and P :: "db \<Rightarrow> bool"
  show "st_hoare (\<lambda>s. db_open s = [] \<and> db_committed s = C) (oracle_write_rows Si groups)
      (\<lambda>_ s. db_committed s = C @ [oracle_statements_of Si groups] \<and> db_open s = [])
      (\<lambda>s. db_committed s \<in> {C, C @ [oracle_statements_of Si groups]} \<and> db_open s = [])"
    unfolding oracle_write_rows_def by (rule oracle_stage.write_rows_hoare [OF closes_release(1)])
  assume P: "log_blind P"
  then show "st_hoare P (record_write_stats (or_env (fst Si)) oracle_metrics w) (\<lambda>_. P) P" by (rule st_hoare_write_stats)
  from P show "st_hoare P (oracle_write_failed (fst Si) n err) (\<lambda>_ s. P s \<and> oracle_ignores Si) P"
    unfolding oracle_write_failed_def
    by (rule st_hoare_weaken [OF batch_write_failed_hoare]) (auto simp: oracle_ignores_def split: prod.splits)
qed


text \<open>However a batch ends, no statement stays in an open transaction, and the database has either nothing new or
  the complete transaction of the batch.\<close>

theorem oracle_batch_all_or_nothing:
  assumes "messages \<noteq> []" "db_open s = []" "oracle_write_batch S ids messages s = (r, s')"
  shows "db_open s' = [] \<and> (db_committed s' = db_committed s
    \<or> (\<exists>groups. oracle_rows_by_table S messages = Inr groups \<and> db_committed s' = db_committed s @ [oracle_statements_of (S, ids) groups]))"
  using oracle_batch.all_or_nothing [of _ _ _ "(S, ids)", unfolded fst_conv, OF assms(3) [unfolded oracle_write_batch_def] assms(1,2)] .

section \<open>Errors at the start\<close>

text \<open>A password variable that is not set is reported as an unavailable destination, hence as a temporary
  failure, since the options are made inside the handler that translates driver errors.\<close>

theorem oracle_start_hides_configuration_error:
  assumes "\<not> or_started S" "oracle_pool_options getenv (or_config S) = Inl err" "exn_cls err = ConfigurationError"
    and "oracle_error_code (or_env S) err = None"
  shows "fst (oracle_start getenv S s) = Inr (Inl (Exn DestinationUnavailableError
      ''failed to create Oracle connection pool: ConfigurationError''), S)"
proof -
  have "isinstance err PyException" using assms(3) by (simp add: isinstance_def)
  with assms show ?thesis
    by (simp add: oracle_start_def st_catch_def st_bind_def st_except_def st_lift_def st_throw_def st_ret_def oracle_translate_exception_def)
qed

section \<open>Witnesses\<close>

definition sample_oracle_config :: oracle_config where
  "sample_oracle_config =
     \<lparr>oc_dsn = ''d'', oc_user = ''u'', oc_password = Some ''p'', oc_password_env = None, oc_config_dir = None, oc_wallet_location = None,
      oc_wallet_password = None, oc_wallet_password_env = None, oc_ssl_server_dn_match = None, oc_ssl_server_cert_dn = None,
      oc_disable_parallel_dml = True, oc_tcp_connect_timeout = None, oc_retry_count = None, oc_retry_delay = None, oc_https_proxy = None,
      oc_https_proxy_port = None, oc_table = ''t'', oc_table_routes = [], oc_mode = Oracle_merge, oc_merge_update_columns = None,
      oc_auto_create = False, oc_payload_mode = Json_or_envelope, oc_payload_column = None, oc_headers_column = None,
      oc_columns = short_columns, oc_idempotency = \<lparr>ic_strategy = Use_stream_sequence, ic_columns = [''A'', ''B''], ic_payload_field = None\<rparr>,
      oc_staging = \<lparr>st_enabled = True, st_table = Some ''S'', st_batch_id_column = ''I'', st_cleanup = Delete_on_success\<rparr>,
      oc_pool_min = 1, oc_pool_max = 4, oc_pool_increment = 1\<rparr>"

definition oracle_sample_policy :: table_policy where
  "oracle_sample_policy = \<lparr>tp_table_name = ''T'', tp_idempotency = oc_idempotency sample_oracle_config, tp_update_columns = None\<rparr>"

lemma oracle_sample_sql:
  "\<exists>sql staging. oracle_sql_for_policy sample_oracle_config oracle_sample_policy = Inr (sql, Some staging) \<and> ow_table_name sql = ''T''"
proof -
  have "case oracle_sql_for_policy sample_oracle_config oracle_sample_policy of
      Inr (sql, Some staging) \<Rightarrow> ow_table_name sql = ''T'' | _ \<Rightarrow> False"
    by code_simp
  then show ?thesis by (auto split: sum.splits prod.splits option.splits)
qed

lemma oracle_sample_sink:
  "\<exists>S sql staging. make_oracle_sink plain_lib calm_db sample_oracle_config = Inr S \<and> or_env S = calm_db \<and> or_config S = sample_oracle_config
    \<and> or_lib S = plain_lib \<and> or_policies S = [(''T'', oracle_sample_policy)] \<and> or_cache S = [(''T'', (sql, Some staging))]"
proof -
  obtain sql staging where sql: "oracle_sql_for_policy sample_oracle_config oracle_sample_policy = Inr (sql, Some staging)" "ow_table_name sql = ''T''"
    using oracle_sample_sql by blast
  have "register_policy oracle_validate_identifier oracle_conflict ''t'' (oc_idempotency sample_oracle_config) None [] = Inr [(''T'', oracle_sample_policy)]"
    by code_simp
  then have reg: "register_policy oracle_validate_identifier oracle_conflict (oc_table sample_oracle_config) (oc_idempotency sample_oracle_config)
      (oc_merge_update_columns sample_oracle_config) [] = Inr [(''T'', oracle_sample_policy)]"
    by (simp add: sample_oracle_config_def)
  have routes: "oc_table_routes sample_oracle_config = []" by (simp add: sample_oracle_config_def)
  show ?thesis by (simp add: make_oracle_sink_def reg routes sql)
qed

lemma oracle_sample_row:
  assumes "or_config S = sample_oracle_config" "or_lib S = plain_lib" "or_policies S = [(''T'', oracle_sample_policy)]"
  shows "\<exists>row. oracle_row S (Aware 0 0, sample_redelivery 0) = Inr (''T'', row)"
proof -
  let ?i = "oc_idempotency sample_oracle_config"
  have same: "validate_envelope_idempotency st e ?i v = validate_envelope_idempotency st e plain_idempotency v" for st e v
    by (simp add: validate_envelope_idempotency_def sample_oracle_config_def plain_idempotency_def)
  have "envelope_to_row plain_lib ?i Json_or_envelope (Aware 0 0) (sample_redelivery 0)
      = envelope_to_row plain_lib plain_idempotency Json_or_envelope (Aware 0 0) (sample_redelivery 0)"
    unfolding envelope_to_row_def same ..
  then obtain row where row: "envelope_to_row plain_lib ?i Json_or_envelope (Aware 0 0) (sample_redelivery 0) = Inr row"
    using sample_row [of 0 0] by auto
  have "oracle_validate_identifier ''t'' = Inr ''T''" by code_simp
  then have table: "oracle_table_for_subject S subject = Inr ''T''" for subject
    by (simp add: oracle_table_for_subject_def table_for_subject_def assms(1) sample_oracle_config_def)
  have mode: "oc_payload_mode sample_oracle_config = Json_or_envelope" by (simp add: sample_oracle_config_def)
  show ?thesis
    by (simp add: oracle_row_def oracle_policy_for_subject_def table oracle_policy_for_table_def policy_for_table_def assms mode
        oracle_sample_policy_def row)
qed

lemma oracle_sample_run:
  "\<exists>S (s' :: db). make_oracle_sink plain_lib calm_db sample_oracle_config = Inr S \<and> \<not> oracle_ignores (S, ids)
     \<and> oracle_write_batch (S\<lparr>or_started := True\<rparr>) ids [(Aware 0 0, sample_redelivery 0)] empty_db = (Inr (), s')"
proof -
  from oracle_sample_sink obtain S sql staging where S: "make_oracle_sink plain_lib calm_db sample_oracle_config = Inr S"
    "or_env S = calm_db" "or_config S = sample_oracle_config" "or_lib S = plain_lib" "or_policies S = [(''T'', oracle_sample_policy)]"
    "or_cache S = [(''T'', (sql, Some staging))]" by blast
  let ?S = "S\<lparr>or_started := True\<rparr>"
  from oracle_sample_row [of ?S] S obtain row where row: "oracle_row ?S (Aware 0 0, sample_redelivery 0) = Inr (''T'', row)" by auto
  have config: "oc_mode sample_oracle_config = Oracle_merge" "st_enabled (oc_staging sample_oracle_config)"
    by (simp_all add: sample_oracle_config_def)
  have "\<exists>s'. oracle_write_batch ?S ids [(Aware 0 0, sample_redelivery 0)] empty_db = (Inr (), s')"
    by (cases "os_cleanup_sql staging")
      (simp_all add: oracle_write_batch_def oracle_rows_by_table_def row oracle_write_rows_def oracle_stage_def with_cursor_def
        oracle_prepare_connection_def db_run_defs calm_db_def empty_db_def oracle_cached_staging_def S config Let_def)
  then show ?thesis using S config by (auto simp: oracle_ignores_def)
qed


end
