(* ===== verification/Endpoints.thy ===== *)
theory Endpoints
  imports PyLib
begin

text \<open>
  What the configurations of the network sinks share (\<open>http/config.py\<close>, \<open>s3/config.py\<close>): the checks of
  characters and names, and addresses as \<open>urllib.parse.urlsplit\<close> takes them apart, which is a parameter.
\<close>

section \<open>Characters and names\<close>

definition control_characters :: "string \<Rightarrow> bool" where
  "control_characters value \<longleftrightarrow> (\<exists>c\<in>set value. of_char c < (32::nat) \<or> of_char c = (127::nat))"

definition ascii_alnum :: "char \<Rightarrow> bool" where
  "ascii_alnum c \<longleftrightarrow> (let n = of_char c :: nat in (48 \<le> n \<and> n \<le> 57) \<or> (65 \<le> n \<and> n \<le> 90) \<or> (97 \<le> n \<and> n \<le> 122))"

text \<open>\<open>^[A-Z_][A-Z0-9_]{0,127}$\<close>, matched against the whole text.\<close>

definition env_name_text :: "string \<Rightarrow> bool" where
  "env_name_text s \<longleftrightarrow> (case s of
      [] \<Rightarrow> False
    | c # cs \<Rightarrow> (let first = (\<lambda>c. (65 \<le> (of_char c :: nat) \<and> of_char c \<le> (90 :: nat)) \<or> c = CHR ''_'') in
        first c \<and> length cs \<le> 127 \<and> list_all (\<lambda>c. first c \<or> (48 \<le> (of_char c :: nat) \<and> of_char c \<le> (57 :: nat))) cs))"

section \<open>Addresses\<close>

record url_parts =
  up_scheme :: string
  up_netloc :: string
  up_hostname :: "string option"
  up_username :: "string option"
  up_password :: "string option"
  up_port :: "int option res"
  up_path :: string
  up_query :: string
  up_fragment :: string

text \<open>\<open>urlsplit\<close> itself checks no port: the attribute \<open>port\<close> raises \<open>ValueError\<close> when it is read.\<close>

type_synonym url_split = "string \<Rightarrow> url_parts res"

definition present_text :: "string option \<Rightarrow> bool" where
  "present_text v \<longleftrightarrow> v \<noteq> None \<and> v \<noteq> Some []"

definition LOOPBACK_HOSTS :: "string list" where
  "LOOPBACK_HOSTS = [''localhost'', ''127.0.0.1'', ''::1'']"

end
