(* ===== verification/S3Config.thy ===== *)
theory S3Config
  imports Endpoints Retry
begin

text \<open>
  The configuration of the S3 sink (\<open>s3/config.py\<close>).  Reading an IP address (\<open>ipaddress.ip_address\<close>) and splitting
  an address are parameters: the first answers whether a text is an address, and whether that is a loopback address.
\<close>

section \<open>Texts\<close>

definition s3_plain_text :: "nat \<Rightarrow> string \<Rightarrow> string res" where
  "s3_plain_text maximum value =
     (let rendered = strip value in
      if rendered \<noteq> value then raise ValueError ''must not contain surrounding whitespace''
      else if rendered = [] then raise ValueError ''must not be empty''
      else if maximum < length rendered then raise ValueError ''must be at most maximum characters''
      else if control_characters rendered then raise ValueError ''must not contain control characters''
      else Inr rendered)"

definition s3_optional :: "('a \<Rightarrow> 'b res) \<Rightarrow> 'a option \<Rightarrow> 'b option res" where
  "s3_optional f value = (case value of None \<Rightarrow> Inr None | Some v \<Rightarrow> rmap Some (f v))"

definition s3_checked_text :: "nat \<Rightarrow> (string \<Rightarrow> bool) \<Rightarrow> string \<Rightarrow> string \<Rightarrow> string res" where
  "s3_checked_text maximum ok msg value =
     rbind (s3_plain_text maximum value) (\<lambda>rendered. if ok rendered then Inr rendered else raise ValueError msg)"

text \<open>The expressions \<open>^first rest{0,n}$\<close> of the module, matched against the whole text.\<close>

definition shaped :: "(char \<Rightarrow> bool) \<Rightarrow> (char \<Rightarrow> bool) \<Rightarrow> nat \<Rightarrow> string \<Rightarrow> bool" where
  "shaped first rest n s \<longleftrightarrow> (case s of [] \<Rightarrow> False | c # cs \<Rightarrow> first c \<and> length cs \<le> n \<and> list_all rest cs)"

definition ascii_letter :: "char \<Rightarrow> bool" where
  "ascii_letter c \<longleftrightarrow> ascii_alnum c \<and> 58 \<le> (of_char c :: nat)"

definition safe_segment :: "string \<Rightarrow> bool" where
  "safe_segment = shaped ascii_alnum (\<lambda>c. ascii_alnum c \<or> c \<in> set ''_.=-'') 127"

definition region_text :: "string \<Rightarrow> bool" where
  "region_text = shaped ascii_alnum (\<lambda>c. ascii_alnum c \<or> c \<in> set ''_.-'') 63"

definition profile_text :: "string \<Rightarrow> bool" where
  "profile_text = shaped ascii_letter (\<lambda>c. ascii_alnum c \<or> c \<in> set ''_.:-'') 127"

definition metadata_name_text :: "string \<Rightarrow> bool" where
  "metadata_name_text = shaped ascii_alnum (\<lambda>c. ascii_alnum c \<or> c \<in> set ''_.-'') 63"

definition suffix_text :: "string \<Rightarrow> bool" where
  "suffix_text s \<longleftrightarrow> (case s of [] \<Rightarrow> False
     | c # cs \<Rightarrow> c = CHR ''.'' \<and> shaped ascii_alnum (\<lambda>c. ascii_alnum c \<or> c \<in> set ''_.-'') 31 cs)"

definition lower_alnum :: "char \<Rightarrow> bool" where
  "lower_alnum c \<longleftrightarrow> ascii_alnum c \<and> \<not> (65 \<le> (of_char c :: nat) \<and> of_char c \<le> (90 :: nat))"

definition bucket_text :: "string \<Rightarrow> bool" where
  "bucket_text s \<longleftrightarrow> 3 \<le> length s \<and> length s \<le> 63 \<and> lower_alnum (hd s) \<and> lower_alnum (last s)
     \<and> list_all (\<lambda>c. lower_alnum c \<or> c \<in> set ''.-'') s"

text \<open>\<open>part in text\<close>.\<close>

fun contains_text :: "string \<Rightarrow> string \<Rightarrow> bool" where
  "contains_text part [] \<longleftrightarrow> part = []"
| "contains_text part (c # cs) \<longleftrightarrow> startswith (c # cs) part \<or> contains_text part cs"

section \<open>Fields\<close>

type_synonym ip_reader = "string \<Rightarrow> bool option"

definition s3_bucket :: "ip_reader \<Rightarrow> string \<Rightarrow> string res" where
  "s3_bucket ip value =
     rbind (s3_plain_text 63 value) (\<lambda>rendered.
       if length rendered < 3 \<or> \<not> bucket_text rendered then raise ValueError ''sink.bucket must be 3-63 lowercase DNS characters''
       else if contains_text ''..'' rendered \<or> contains_text ''.-'' rendered \<or> contains_text ''-.'' rendered
       then raise ValueError ''sink.bucket must not contain adjacent dot or hyphen separators''
       else if ip rendered \<noteq> None then raise ValueError ''sink.bucket must not be formatted as an IP address''
       else Inr rendered)"

definition s3_prefix :: "string \<Rightarrow> string res" where
  "s3_prefix value =
     rbind (s3_plain_text 1024 value) (\<lambda>rendered.
       if startswith rendered ''/'' \<or> last rendered = CHR ''/'' then raise ValueError ''sink.prefix must not start or end with a slash''
       else if contains_text ''//'' rendered then raise ValueError ''sink.prefix must not contain empty path segments''
       else if \<exists>segment\<in>set (split_on (CHR ''/'') rendered). segment \<in> {''.'', ''..''} \<or> \<not> safe_segment segment
       then raise ValueError ''sink.prefix segments must start with a letter or digit''
       else Inr rendered)"

definition s3_endpoint_url :: "url_split \<Rightarrow> string \<Rightarrow> string res" where
  "s3_endpoint_url split_url value =
     rbind (s3_plain_text 512 value) (\<lambda>rendered. rbind (split_url rendered) (\<lambda>parsed.
       if up_scheme parsed \<notin> {''http'', ''https''} then raise ValueError ''sink.endpoint_url scheme must be one of: http, https''
       else if up_username parsed \<noteq> None \<or> up_password parsed \<noteq> None
       then raise ValueError ''sink.endpoint_url must not include credentials''
       else if up_netloc parsed = [] \<or> up_hostname parsed = None then raise ValueError ''sink.endpoint_url must include a host''
       else if up_path parsed \<notin> {[], ''/''} \<or> up_query parsed \<noteq> [] \<or> up_fragment parsed \<noteq> []
       then raise ValueError ''sink.endpoint_url must not include path, query, or fragment''
       else rbind (up_port parsed) (\<lambda>port. case port of
           None \<Rightarrow> Inr rendered
         | Some n \<Rightarrow> if n < 1 \<or> 65535 < n then raise ValueError ''sink.endpoint_url port must be between 1 and 65535'' else Inr rendered)))"

definition is_loopback_host :: "ip_reader \<Rightarrow> string \<Rightarrow> bool" where
  "is_loopback_host ip host \<longleftrightarrow> casefold host \<in> set LOOPBACK_HOSTS
     \<or> ip (dropWhile (\<lambda>c. c \<in> set ''[]'') (rev (dropWhile (\<lambda>c. c \<in> set ''[]'') (rev host)))) = Some True"

fun s3_metadata_items :: "(string \<times> string) list \<Rightarrow> string list \<Rightarrow> (string \<times> string) list \<Rightarrow> (string \<times> string) list res" where
  "s3_metadata_items [] seen normalized = Inr normalized"
| "s3_metadata_items ((raw_name, raw_value) # items) seen normalized =
     rbind (s3_checked_text 64 metadata_name_text ''sink.object_metadata names must contain only letters, digits, _, ., or -'' raw_name) (\<lambda>name.
       if casefold name \<in> set seen then raise ValueError ''sink.object_metadata contains duplicate key''
       else if casefold name \<in> {''authorization'', ''cookie'', ''x-api-key'', ''x-auth-token''}
       then raise ValueError ''sink.object_metadata must not contain secret-bearing names''
       else rbind (s3_plain_text 256 raw_value) (\<lambda>value.
         s3_metadata_items items (casefold name # seen) (AList.update name value normalized)))"

definition s3_object_metadata_config :: "(string \<times> string) list \<Rightarrow> (string \<times> string) list res" where
  "s3_object_metadata_config value =
     (if 32 < length value then raise ValueError ''sink.object_metadata supports at most 32 items'' else s3_metadata_items value [] [])"

section \<open>The sink configuration\<close>

datatype s3_key_strategy = S3_idempotency_key | S3_stream_sequence | S3_message_id | S3_payload_sha256
datatype s3_duplicate_policy = S3_skip_existing | S3_replace | S3_fail_existing
datatype s3_object_format = S3_envelope | S3_payload
datatype s3_metadata_mode = No_metadata | Object_metadata | Sidecar
datatype s3_credentials = Chain_credentials | Environment_credentials | Profile_credentials

record s3_config =
  sc_bucket :: string
  sc_prefix :: "string option"
  sc_endpoint_url :: "string option"
  sc_allow_http :: bool
  sc_region_name :: "string option"
  sc_credential_mode :: s3_credentials
  sc_profile_name :: "string option"
  sc_access_key_env :: "string option"
  sc_secret_key_env :: "string option"
  sc_session_token_env :: "string option"
  sc_key_strategy :: s3_key_strategy
  sc_key_prefix :: "string option"
  sc_object_suffix :: string
  sc_duplicate_policy :: s3_duplicate_policy
  sc_object_format :: s3_object_format
  sc_metadata_mode :: s3_metadata_mode
  sc_sidecar_suffix :: string
  sc_payload_mode :: storage_mode
  sc_gzip :: bool
  sc_content_type :: string
  sc_object_metadata :: "(string \<times> string) list"
  sc_aes256 :: bool
  sc_max_key_bytes :: int
  sc_max_object_bytes :: int
  sc_max_metadata_bytes :: int
  sc_request_timeout :: rat
  sc_retry :: retry_policy

definition s3_within :: "int \<Rightarrow> int \<Rightarrow> int \<Rightarrow> unit res" where
  "s3_within lo hi n = (if lo \<le> n \<and> n \<le> hi then Inr () else raise ValueError ''value out of range'')"

definition s3_env_name :: "string \<Rightarrow> string res" where
  "s3_env_name = s3_checked_text 128 env_name_text ''must be an uppercase environment variable name''"

definition s3_suffix :: "string \<Rightarrow> string res" where
  "s3_suffix = s3_checked_text 32 (\<lambda>s. CHR ''/'' \<notin> set s \<and> CHR 0x5C \<notin> set s \<and> suffix_text s) ''must be a simple extension such as .json''"

definition validate_s3_fields :: "url_split \<Rightarrow> ip_reader \<Rightarrow> s3_config \<Rightarrow> s3_config res" where
  "validate_s3_fields split_url ip c =
     rbind (s3_bucket ip (sc_bucket c)) (\<lambda>bucket.
     rbind (s3_optional s3_prefix (sc_prefix c)) (\<lambda>prefix.
     rbind (s3_optional (s3_endpoint_url split_url) (sc_endpoint_url c)) (\<lambda>endpoint.
     rbind (s3_optional (s3_checked_text 64 region_text ''sink.region_name contains unsupported characters'') (sc_region_name c)) (\<lambda>region.
     rbind (s3_optional (s3_checked_text 128 profile_text ''sink.profile_name contains unsupported characters'') (sc_profile_name c)) (\<lambda>profile.
     rbind (s3_optional s3_env_name (sc_access_key_env c)) (\<lambda>access_key.
     rbind (s3_optional s3_env_name (sc_secret_key_env c)) (\<lambda>secret_key.
     rbind (s3_optional s3_env_name (sc_session_token_env c)) (\<lambda>session_token.
     rbind (s3_optional (s3_checked_text 128 safe_segment ''sink.key_prefix must start with a letter or digit'') (sc_key_prefix c)) (\<lambda>key_prefix.
     rbind (s3_suffix (sc_object_suffix c)) (\<lambda>object_suffix.
     rbind (s3_suffix (sc_sidecar_suffix c)) (\<lambda>sidecar_suffix.
     rbind (s3_checked_text 128 (\<lambda>s. s = ''application/json'') ''sink.content_type currently supports only application/json'' (sc_content_type c)) (\<lambda>content_type.
     rbind (s3_object_metadata_config (sc_object_metadata c)) (\<lambda>metadata.
     rbind (s3_within 64 1024 (sc_max_key_bytes c)) (\<lambda>_.
     rbind (s3_within 1 1073741824 (sc_max_object_bytes c)) (\<lambda>_.
     rbind (s3_within 128 65536 (sc_max_metadata_bytes c)) (\<lambda>_.
     rbind (if 0 < sc_request_timeout c \<and> sc_request_timeout c \<le> 300 then Inr () else raise ValueError ''value out of range'') (\<lambda>_.
       Inr (c\<lparr>sc_bucket := bucket, sc_prefix := prefix, sc_endpoint_url := endpoint, sc_region_name := region, sc_profile_name := profile,
         sc_access_key_env := access_key, sc_secret_key_env := secret_key, sc_session_token_env := session_token,
         sc_key_prefix := key_prefix, sc_object_suffix := object_suffix, sc_sidecar_suffix := sidecar_suffix,
         sc_content_type := content_type, sc_object_metadata := metadata\<rparr>))))))))))))))))))"

text \<open>The retry fields, which \<open>S3Sink\<close> hands to a \<open>RetryPolicy\<close>, with the check between its two delays last.\<close>

definition validate_s3_retry :: "retry_policy \<Rightarrow> unit res" where
  "validate_s3_retry p =
     rbind (s3_within 0 10 (max_retries p)) (\<lambda>_.
     rbind (s3_within 0 60000 (backoff_ms p)) (\<lambda>_.
     rbind (s3_within 0 300000 (max_backoff_ms p)) (\<lambda>_.
       if backoff_mode p \<notin> {Fixed, Linear, Exponential} \<or> jitter p \<notin> {NoJitter, FullJitter, EqualJitter}
       then raise ValueError ''not a retry mode''
       else case finite_value (backoff_multiplier p) of
           Some q \<Rightarrow> if 1 \<le> q \<and> q \<le> 10 then Inr () else raise ValueError ''value out of range''
         | None \<Rightarrow> raise ValueError ''value out of range'')))"

definition validate_s3_cross_fields :: "url_split \<Rightarrow> ip_reader \<Rightarrow> s3_config \<Rightarrow> s3_config res" where
  "validate_s3_cross_fields split_url ip c =
     rbind (case sc_endpoint_url c of
         None \<Rightarrow> Inr ()
       | Some url \<Rightarrow> rbind (split_url url) (\<lambda>parsed.
           if up_scheme parsed = ''http''
             \<and> \<not> (sc_allow_http c \<and> (case up_hostname parsed of None \<Rightarrow> False | Some host \<Rightarrow> is_loopback_host ip host))
           then raise ValueError ''sink.endpoint_url must use https unless allow_http_for_local_testing is true and the host is loopback''
           else Inr ())) (\<lambda>_.
       let env_credentials = (present_text (sc_access_key_env c) \<or> present_text (sc_secret_key_env c) \<or> present_text (sc_session_token_env c));
           by_env = (sc_credential_mode c = Environment_credentials);
           by_profile = (sc_credential_mode c = Profile_credentials)
       in if by_env \<and> (\<not> present_text (sc_access_key_env c) \<or> \<not> present_text (sc_secret_key_env c))
          then raise ValueError ''environment credentials require aws_access_key_id_env and aws_secret_access_key_env''
          else if by_env \<and> sc_profile_name c \<noteq> None
          then raise ValueError ''sink.profile_name is not valid with environment credentials''
          else if \<not> by_env \<and> env_credentials
          then raise ValueError ''aws credential environment references require environment credentials''
          else if by_profile \<and> sc_profile_name c = None
          then raise ValueError ''profile credentials require sink.profile_name''
          else if \<not> by_profile \<and> sc_profile_name c \<noteq> None
          then raise ValueError ''sink.profile_name requires profile credentials''
          else if sc_metadata_mode c = Sidecar \<and> sc_sidecar_suffix c = sc_object_suffix c
          then raise ValueError ''sink.sidecar_suffix must differ from sink.object_suffix''
          else if sc_metadata_mode c = Sidecar \<and> sc_duplicate_policy c = S3_fail_existing
          then raise ValueError ''sidecar metadata is not safe with fail_existing''
          else if sc_gzip c \<and> sc_object_suffix c = ''.json''
          then raise ValueError ''gzip requires a compressed object suffix''
          else if max_backoff_ms (sc_retry c) < backoff_ms (sc_retry c)
          then raise ValueError ''sink.retry_max_backoff_ms must be greater than retry_backoff_ms''
          else Inr c)"

definition make_s3_config :: "url_split \<Rightarrow> ip_reader \<Rightarrow> s3_config \<Rightarrow> s3_config res" where
  "make_s3_config split_url ip c =
     rbind (validate_s3_fields split_url ip c) (\<lambda>c'.
     rbind (validate_s3_retry (sc_retry c')) (\<lambda>_. validate_s3_cross_fields split_url ip c'))"

end
