(* ===== verification/Attempts.thy ===== *)
theory Attempts
  imports Stateful Retry
begin

text \<open>
  The bounded retry loop inside one write of the network sinks (\<open>_send_with_retries\<close> of \<open>http/sink.py\<close>,
  \<open>_write_message_with_retries\<close> of \<open>s3/sink.py\<close>): which exceptions are tried again is the parameter
  \<open>judge\<close>, the pause before the next attempt the parameter \<open>pause\<close>.
\<close>

datatype verdict = Try_again exn | Give_up exn

fun attempt_loop ::
  "(exn \<Rightarrow> verdict) \<Rightarrow> (int \<Rightarrow> ('s, unit) stm) \<Rightarrow> ('s, unit) stm \<Rightarrow> nat \<Rightarrow> int \<Rightarrow> exn \<Rightarrow> ('s, unit) stm" where
  "attempt_loop judge pause once 0 attempt last_error = st_throw last_error"
| "attempt_loop judge pause once (Suc left) attempt last_error =
     st_catch once (\<lambda>err. case judge err of
         Give_up e \<Rightarrow> st_throw e
       | Try_again e \<Rightarrow> if left = 0 then st_throw e
           else st_then (pause attempt) (attempt_loop judge pause once left (attempt + 1) e))"

text \<open>
  \<open>P n\<close> is what holds while \<open>n\<close> attempts are left: an attempt that fails uses one up, a pause none; the loop
  returns only right after an attempt that did.
\<close>

lemma attempt_loop_hoare:
  assumes attempt: "\<And>n. st_hoare (P (Suc n)) once (\<lambda>_. Q) (P n)"
    and pause: "\<And>n a. st_hoare (P n) (pause a) (\<lambda>_. P n) (P n)"
    and over: "\<And>n s. P n s \<Longrightarrow> R s"
  shows "st_hoare (P n) (attempt_loop judge pause once n a e) (\<lambda>_. Q) R"
proof (induction n arbitrary: a e)
  case 0
  show ?case by (auto intro: st_hoare_throw over)
next
  case (Suc n)
  have pause': "st_hoare (P n) (pause a) (\<lambda>_. P n) R"
    using pause by (rule st_hoare_weaken) (auto intro: over)
  show ?case
    unfolding attempt_loop.simps
  proof (rule st_hoare_catch [OF attempt])
    fix err
    show "st_hoare (P n) (case judge err of Give_up e \<Rightarrow> st_throw e | Try_again e \<Rightarrow> if n = 0 then st_throw e
        else st_then (pause a) (attempt_loop judge pause once n (a + 1) e)) (\<lambda>_. Q) R"
      by (cases "judge err") (auto intro!: st_hoare_throw st_hoare_then [OF pause'] Suc over)
  qed
qed

text \<open>An exception that leaves the loop is the one it started with or a judgement of some attempt.\<close>

lemma attempt_loop_error:
  assumes "attempt_loop judge pause once n a e s = (Inl err, s')" "\<And>a s. fst (pause a s) = Inr ()"
  shows "err = e \<or> (\<exists>raised. judge raised = Give_up err \<or> judge raised = Try_again err)"
  using assms(1)
proof (induction n arbitrary: a e s)
  case 0
  then show ?case by (simp add: st_throw_def)
next
  case (Suc n)
  obtain r s1 where run: "once s = (r, s1)" by fastforce
  with Suc.prems obtain raised where raised: "r = Inl raised" by (auto simp: st_catch_def split: sum.splits)
  have go: "pause a s1 = (Inr (), snd (pause a s1))" using assms(2) [of a s1] by (simp add: prod_eq_iff)
  show ?case
  proof (cases "judge raised")
    case (Give_up e')
    with Suc.prems run raised show ?thesis by (auto simp: st_catch_def st_throw_def)
  next
    case (Try_again e')
    show ?thesis
    proof (cases "n = 0")
      case True
      with Suc.prems run raised Try_again show ?thesis by (auto simp: st_catch_def st_throw_def)
    next
      case False
      with Suc.prems run raised Try_again
      have "st_then (pause a) (attempt_loop judge pause once n (a + 1) e') s1 = (Inl err, s')" by (simp add: st_catch_def)
      with go have "attempt_loop judge pause once n (a + 1) e' (snd (pause a s1)) = (Inl err, s')"
        unfolding st_then_def st_bind_def by (metis (mono_tags, lifting) case_prod_conv sum.case(2))
      from Suc.IH [OF this] Try_again show ?thesis by blast
    qed
  qed
qed

text \<open>A computation lifted into the state, with the equation of its result for what follows.\<close>

lemma st_hoare_lift_then:
  assumes "\<And>x. r = Inr x \<Longrightarrow> st_hoare P (f x) Q R" "\<And>s. P s \<Longrightarrow> R s"
  shows "st_hoare P (st_bind (st_lift r) f) Q R"
  using assms by (cases r) (auto simp: st_hoare_def st_bind_def st_lift_def)

text \<open>What every step of a loop adds for its element, the loop adds for all of them.\<close>

lemma st_hoare_each_collect:
  assumes "\<And>m D. m \<in> set ms \<Longrightarrow> st_hoare (P D) (f m) (\<lambda>_. P (insert m D)) R" "\<And>D s. P D s \<Longrightarrow> R s"
  shows "st_hoare (P D) (st_each f ms) (\<lambda>_. P (D \<union> set ms)) R"
  using assms(1)
proof (induction ms arbitrary: D)
  case Nil
  show ?case by (simp add: st_hoare_ret)
next
  case (Cons m ms)
  have "st_hoare (P (insert m D)) (st_each f ms) (\<lambda>_. P (insert m D \<union> set ms)) R"
    by (rule Cons.IH) (simp add: Cons.prems)
  then show ?case using Cons.prems [of m D] by (auto intro!: st_hoare_then)
qed

section \<open>Batches on a growing list of events\<close>

lemma st_each_segments:
  assumes one: "\<And>m h r h'. f m h = (r, h') \<Longrightarrow> \<exists>seg. h' = h @ seg \<and> (case r of Inr _ \<Rightarrow> A m seg | Inl _ \<Rightarrow> B m seg)"
    and run: "st_each f ms h = (r, h')"
  shows "\<exists>segs. h' = h @ concat segs \<and> (case r of
      Inr _ \<Rightarrow> list_all2 A ms segs
    | Inl _ \<Rightarrow> \<exists>finished m rest. ms = finished @ m # rest \<and> segs \<noteq> [] \<and> list_all2 A finished (butlast segs) \<and> B m (last segs))"
  using run
proof (induction ms arbitrary: h)
  case Nil
  then show ?case by (auto simp: st_ret_def)
next
  case (Cons m ms)
  obtain r1 h1 where step: "f m h = (r1, h1)" by fastforce
  from one [OF step] obtain seg where seg: "h1 = h @ seg" "case r1 of Inr _ \<Rightarrow> A m seg | Inl _ \<Rightarrow> B m seg" by blast
  show ?case
  proof (cases r1)
    case (Inl err)
    with Cons.prems step have "r = Inl err" "h' = h1" by (auto simp: st_then_def st_bind_def)
    with seg Inl show ?thesis by (intro exI [of _ "[seg]"]) auto
  next
    case (Inr u)
    with Cons.prems step have "st_each f ms h1 = (r, h')" by (simp add: st_then_def st_bind_def)
    from Cons.IH [OF this] obtain segs where segs: "h' = h1 @ concat segs" "case r of
        Inr _ \<Rightarrow> list_all2 A ms segs
      | Inl _ \<Rightarrow> \<exists>finished m rest. ms = finished @ m # rest \<and> segs \<noteq> [] \<and> list_all2 A finished (butlast segs) \<and> B m (last segs)"
      by blast
    show ?thesis
    proof (cases r)
      case (Inl err)
      with segs obtain finished m' rest where "ms = finished @ m' # rest" "segs \<noteq> []" "list_all2 A finished (butlast segs)"
        "B m' (last segs)" by auto
      then have "m # ms = (m # finished) @ m' # rest" "seg # segs \<noteq> []" "list_all2 A (m # finished) (butlast (seg # segs))"
        "B m' (last (seg # segs))" using seg Inr by auto
      moreover have "h' = h @ concat (seg # segs)" using seg segs by simp
      ultimately show ?thesis unfolding Inl sum.case by blast
    next
      case (Inr v)
      with seg segs \<open>r1 = Inr u\<close> show ?thesis by (intro exI [of _ "seg # segs"]) auto
    qed
  qed
qed

end
