(* ===== verification/S3Sink.thy ===== *)
theory S3Sink
  imports S3Config Attempts StoredValues
begin

text \<open>
  The S3 sink (\<open>s3/mapping.py\<close>, \<open>s3/client.py\<close>, \<open>s3/sink.py\<close>): one object for every message under a key made of the
  message, and optionally a second object beside it.  The state is the bucket, whether the sink has a client, and the
  events so far; \<open>boto3\<close> is the environment, which decides of every put whether it fails, whether it times out, and
  whether a put that did so was stored all the same.  \<open>gzip.compress\<close> is a parameter.
\<close>

section \<open>Keys\<close>

text \<open>\<open>character.isalnum()\<close> for the characters below 256.\<close>

definition py_isalnum :: "char \<Rightarrow> bool" where
  "py_isalnum c \<longleftrightarrow> (let n = of_char c :: nat in
     ascii_alnum c \<or> n \<in> {170, 178, 179, 181, 185, 186, 188, 189, 190} \<or> (192 \<le> n \<and> n \<noteq> 215 \<and> n \<noteq> 247))"

definition safe_key_part :: "string \<Rightarrow> string" where
  "safe_key_part value =
     (let result = map (\<lambda>c. if py_isalnum c \<or> c \<in> set ''-_.'' then c else CHR ''_'') value;
          edge = (\<lambda>c. c \<in> set ''._-'');
          rendered = rev (dropWhile edge (rev (dropWhile edge result)))
      in if rendered = [] then ''value'' else rendered)"

definition raw_key_for_envelope :: "pylib \<Rightarrow> s3_key_strategy \<Rightarrow> nats_envelope \<Rightarrow> string res" where
  "raw_key_for_envelope L strategy e =
     (case strategy of
        S3_idempotency_key \<Rightarrow> rmap (\<lambda>key. ''idempotency-key/'' @ safe_key_part key) (idempotency_key (l_sha256 L) e)
      | S3_stream_sequence \<Rightarrow>
          (case (env_stream e, env_stream_sequence e) of
             (Some (x # xs), Some n) \<Rightarrow> Inr (''stream-sequence/'' @ safe_key_part (x # xs) @ ''/'' @ render_int n)
           | _ \<Rightarrow> raise SerializationError ''S3 key_strategy=stream_sequence requires stream metadata'')
      | S3_message_id \<Rightarrow>
          (case env_message_id e of
             Some (x # xs) \<Rightarrow> Inr (''message-id/'' @ safe_key_part (x # xs))
           | _ \<Rightarrow> raise SerializationError ''S3 key_strategy=message_id requires a message ID'')
      | S3_payload_sha256 \<Rightarrow> Inr (''payload-sha256/'' @ safe_key_part (env_subject e) @ ''/'' @ l_sha256 L (env_data e)))"

definition validate_object_key :: "int \<Rightarrow> string \<Rightarrow> string res" where
  "validate_object_key max_key_bytes key =
     (if startswith key ''/'' \<or> contains_text ''//'' key then raise SerializationError ''S3 object key contains unsafe path separators''
      else if \<exists>segment\<in>set (split_on (CHR ''/'') key). segment \<in> {[], ''.'', ''..''}
      then raise SerializationError ''S3 object key contains unsafe path segments''
      else if max_key_bytes < int (utf8_len key) then raise SerializationError ''S3 object key exceeds configured max_key_bytes''
      else Inr key)"

definition s3_key_for_envelope :: "pylib \<Rightarrow> s3_config \<Rightarrow> nats_envelope \<Rightarrow> string res" where
  "s3_key_for_envelope L c e =
     rbind (raw_key_for_envelope L (sc_key_strategy c) e) (\<lambda>raw.
       let raw = (if present_text (sc_key_prefix c) then the (sc_key_prefix c) @ '':'' @ raw else raw);
           name = raw @ sc_object_suffix c
       in validate_object_key (sc_max_key_bytes c) (if present_text (sc_prefix c) then the (sc_prefix c) @ ''/'' @ name else name))"

definition s3_sidecar_key_for_object :: "s3_config \<Rightarrow> string \<Rightarrow> string res" where
  "s3_sidecar_key_for_object c key =
     (let n = length key - length (sc_object_suffix c) in
      validate_object_key (sc_max_key_bytes c)
        (if drop n key = sc_object_suffix c then take n key @ sc_sidecar_suffix c else key @ sc_sidecar_suffix c))"

section \<open>Objects\<close>

definition s3_common_members :: "pylib \<Rightarrow> nats_envelope \<Rightarrow> (pyval \<times> pyval) list" where
  "s3_common_members L e =
     [K ''subject'' (PStr (env_subject e)),
      K ''stream'' (opt_str (env_stream e)),
      K ''stream_sequence'' (opt_int (env_stream_sequence e)),
      K ''consumer'' (opt_str (env_consumer e)),
      K ''consumer_sequence'' (opt_int (env_consumer_sequence e)),
      K ''message_id'' (opt_str (env_message_id e)),
      K ''priority'' (opt_str (env_priority e)),
      K ''classification'' (opt_str (env_classification e)),
      K ''labels'' (opt_str (labels_to_storage_string (l_str L) (PTuple (map PStr (env_labels e))))),
      K ''labels_list'' (PList (map PStr (env_labels e)))]"

definition s3_object_value_for_envelope :: "pylib \<Rightarrow> s3_config \<Rightarrow> nats_envelope \<Rightarrow> datetime \<Rightarrow> pyval res" where
  "s3_object_value_for_envelope L c e stored_at =
     rbind (payload_for_json_storage L e (sc_payload_mode c)) (\<lambda>np.
     if sc_object_format c = S3_payload then Inr (np_value np)
     else
     rbind (build_nats_metadata_snapshot L e stored_at) (\<lambda>snapshot.
     rbind (thaw_metadata (l_str L) (env_custody e)) (\<lambda>custody.
     let metadata = PDict (mapping_items snapshot @ [K ''custody'' custody]);
         timestamps = py_get metadata ''timestamps'' in
     rbind (datetime_to_epoch_ns (Some (env_received_at e))) (\<lambda>received_ns.
     rbind (datetime_to_epoch_ns (Some stored_at)) (\<lambda>stored_ns.
     rbind (thaw_metadata (l_str L) (env_mission_metadata e)) (\<lambda>mission.
     rbind (thaw_metadata (l_str L) (env_security_labels e)) (\<lambda>security.
       Inr (PDict
         ([K ''schema'' (PStr ''nats_sinks.s3.object.v1''), K ''schema_version'' (PInt 1)] @ s3_common_members L e @
          [K ''message_created_at_epoch_ns'' (py_get timestamps ''message_created_at_epoch_ns''),
           K ''jetstream_timestamp_epoch_ns'' (py_get timestamps ''jetstream_timestamp_epoch_ns''),
           K ''received_at_epoch_ns'' (opt_int received_ns),
           K ''stored_at_epoch_ns'' (opt_int stored_ns),
           K ''headers'' (str_dict (env_headers e)),
           K ''metadata'' metadata,
           K ''mission_metadata'' mission,
           K ''security_labels'' security,
           K ''custody'' custody,
           K ''payload'' (np_value np),
           K ''payload_info'' (PDict (payload_info np))])))))))))"

primrec s3_strategy_text :: "s3_key_strategy \<Rightarrow> string" where
  "s3_strategy_text S3_idempotency_key = ''idempotency_key''"
| "s3_strategy_text S3_stream_sequence = ''stream_sequence''"
| "s3_strategy_text S3_message_id = ''message_id''"
| "s3_strategy_text S3_payload_sha256 = ''payload_sha256''"

primrec s3_policy_text :: "s3_duplicate_policy \<Rightarrow> string" where
  "s3_policy_text S3_skip_existing = ''skip_existing''"
| "s3_policy_text S3_replace = ''replace''"
| "s3_policy_text S3_fail_existing = ''fail_existing''"

definition s3_sidecar_value_for_envelope :: "pylib \<Rightarrow> s3_config \<Rightarrow> nats_envelope \<Rightarrow> string \<Rightarrow> datetime \<Rightarrow> pyval res" where
  "s3_sidecar_value_for_envelope L c e object_key stored_at =
     rbind (payload_for_json_storage L e (sc_payload_mode c)) (\<lambda>np.
     rbind (datetime_to_epoch_ns (Some stored_at)) (\<lambda>stored_ns.
     rbind (build_nats_metadata_snapshot L e stored_at) (\<lambda>metadata.
     rbind (thaw_metadata (l_str L) (env_mission_metadata e)) (\<lambda>mission.
     rbind (thaw_metadata (l_str L) (env_security_labels e)) (\<lambda>security.
     rbind (thaw_metadata (l_str L) (env_custody e)) (\<lambda>custody.
       Inr (PDict
         ([K ''schema'' (PStr ''nats_sinks.s3.sidecar.v1''), K ''schema_version'' (PInt 1),
           K ''object_key'' (PStr object_key),
           K ''key_strategy'' (PStr (s3_strategy_text (sc_key_strategy c))),
           K ''duplicate_policy'' (PStr (s3_policy_text (sc_duplicate_policy c)))] @ s3_common_members L e @
          [K ''stored_at_epoch_ns'' (opt_int stored_ns),
           K ''metadata'' metadata,
           K ''mission_metadata'' mission,
           K ''security_labels'' security,
           K ''custody'' custody,
           K ''payload_info'' (PDict (payload_info np))]))))))))"

definition validate_body_size :: "int \<Rightarrow> bytes \<Rightarrow> bytes res" where
  "validate_body_size max_bytes body =
     (if max_bytes < int (length body) then raise SerializationError ''exceeds configured max_object_bytes'' else Inr body)"

definition s3_json_bytes :: "pylib \<Rightarrow> int \<Rightarrow> pyval \<Rightarrow> bytes res" where
  "s3_json_bytes L max_bytes value =
     rbind (case json_dumps (l_float_text L) value of
         Inr rendered \<Rightarrow> Inr (utf8_encode rendered)
       | Inl err \<Rightarrow> if isinstance err TypeError \<or> isinstance err ValueError
           then raise SerializationError ''S3 object is not JSON serializable'' else Inl err)
       (validate_body_size max_bytes)"

definition metadata_size :: "(string \<times> string) list \<Rightarrow> int" where
  "metadata_size metadata = int (sum_list (map (\<lambda>(key, value). utf8_len key + utf8_len value) metadata))"

definition validate_metadata_size :: "int \<Rightarrow> (string \<times> string) list \<Rightarrow> (string \<times> string) list res" where
  "validate_metadata_size max_bytes metadata =
     (if max_bytes < metadata_size metadata
      then raise SerializationError ''S3 object metadata exceeds configured max_metadata_bytes'' else Inr metadata)"

definition base_object_metadata :: "s3_config \<Rightarrow> string \<Rightarrow> (string \<times> string) list res" where
  "base_object_metadata c schema =
     validate_metadata_size (sc_max_metadata_bytes c)
       (fold (\<lambda>(name, value). AList.update name value) (sc_object_metadata c)
         [(''nats-sinks-schema'', schema), (''nats-sinks-schema-version'', ''1''),
          (''nats-sinks-key-strategy'', s3_strategy_text (sc_key_strategy c))])"

definition s3_object_metadata :: "pylib \<Rightarrow> s3_config \<Rightarrow> nats_envelope \<Rightarrow> (string \<times> string) list res" where
  "s3_object_metadata L c e =
     (if sc_metadata_mode c = No_metadata then Inr []
      else rbind (base_object_metadata c ''nats_sinks.s3.object.v1'') (\<lambda>metadata.
        validate_metadata_size (sc_max_metadata_bytes c)
          (if present_text (env_message_id e)
           then AList.update ''nats-sinks-message-id-sha256'' (l_sha256 L (utf8_encode (the (env_message_id e)))) metadata
           else metadata)))"

text \<open>\<open>S3PutObjectRequest\<close>, which holds the prepared object and the conditions of the put.\<close>

record s3_put =
  pu_bucket :: string
  pu_key :: string
  pu_body :: bytes
  pu_content_type :: string
  pu_gzip :: bool
  pu_metadata :: "(string \<times> string) list"
  pu_if_none_match :: bool
  pu_aes256 :: bool

definition uses_conditional_put :: "s3_config \<Rightarrow> bool" where
  "uses_conditional_put c \<longleftrightarrow> sc_duplicate_policy c \<noteq> S3_replace"

definition request_for_prepared ::
  "s3_config \<Rightarrow> string \<Rightarrow> bytes \<Rightarrow> string \<Rightarrow> bool \<Rightarrow> (string \<times> string) list \<Rightarrow> s3_put" where
  "request_for_prepared c key body content_type zipped metadata =
     \<lparr>pu_bucket = sc_bucket c, pu_key = key, pu_body = body, pu_content_type = content_type, pu_gzip = zipped,
      pu_metadata = metadata, pu_if_none_match = uses_conditional_put c, pu_aes256 = sc_aes256 c\<rparr>"

type_synonym s3_gzip = "bytes \<Rightarrow> bytes"

definition prepare_s3_object :: "pylib \<Rightarrow> s3_gzip \<Rightarrow> s3_config \<Rightarrow> nats_envelope \<Rightarrow> datetime \<Rightarrow> s3_put res" where
  "prepare_s3_object L gz c e stored_at =
     rbind (s3_key_for_envelope L c e) (\<lambda>key.
     rbind (s3_object_value_for_envelope L c e stored_at) (\<lambda>value.
     rbind (s3_json_bytes L (sc_max_object_bytes c) value) (\<lambda>body.
     rbind (validate_body_size (sc_max_object_bytes c) (if sc_gzip c then gz body else body)) (\<lambda>body.
     rbind (s3_object_metadata L c e) (\<lambda>metadata.
       Inr (request_for_prepared c key body (sc_content_type c) (sc_gzip c) metadata))))))"

definition prepare_s3_sidecar_object :: "pylib \<Rightarrow> s3_config \<Rightarrow> nats_envelope \<Rightarrow> string \<Rightarrow> datetime \<Rightarrow> s3_put res" where
  "prepare_s3_sidecar_object L c e object_key stored_at =
     rbind (s3_sidecar_key_for_object c object_key) (\<lambda>key.
     rbind (s3_sidecar_value_for_envelope L c e object_key stored_at) (\<lambda>value.
     rbind (s3_json_bytes L (sc_max_object_bytes c) value) (\<lambda>body.
     rbind (base_object_metadata c ''nats_sinks.s3.sidecar.v1'') (\<lambda>metadata.
       Inr (request_for_prepared c key body ''application/json'' False metadata)))))"

section \<open>The client\<close>

text \<open>An exception of \<open>boto3\<close>: its class name and, when it carries a response, the status and the error code.\<close>

datatype boto_error = Boto_error string "(int option \<times> string) option"

fun is_conditional_duplicate :: "boto_error \<Rightarrow> bool" where
  "is_conditional_duplicate (Boto_error name None) = False"
| "is_conditional_duplicate (Boto_error name (Some (status, code))) =
     (status = Some 412 \<or> code \<in> {''PreconditionFailed'', ''ConditionalRequestConflict''})"

fun translate_boto_exception :: "boto_error \<Rightarrow> exn" where
  "translate_boto_exception (Boto_error name response) =
     (if name \<in> {''NoCredentialsError'', ''PartialCredentialsError'', ''ProfileNotFound''}
      then Exn ConfigurationError ''S3 credentials are not available through the configured mode''
      else if name \<in> {''ConnectTimeoutError'', ''ConnectionClosedError'', ''EndpointConnectionError'', ''ReadTimeoutError''}
      then Exn DestinationUnavailableError ''S3 destination did not complete the request''
      else case response of
          Some (Some status, code) \<Rightarrow>
            if 500 \<le> status \<or> status \<in> {408, 409, 425, 429}
            then Exn DestinationUnavailableError ''S3 destination returned a retryable status''
            else Exn PermanentSinkError ''S3 destination rejected the object request''
        | _ \<Rightarrow> Exn DestinationUnavailableError ''S3 destination failed before durable success was confirmed'')"

datatype s3_event =
    Session_made "(string \<times> string) list"
  | Client_made "string option" rat
  | Put_sent s3_put
  | Clock_read
  | Slept_for rat
  | Client_closed

text \<open>
  What the environment decides, given the events so far: whether the package is there, what its calls raise, which puts
  time out, and whether a put that fails or times out is stored all the same.
\<close>

record s3_net =
  sn_installed :: bool
  sn_environ :: "string \<Rightarrow> string option"
  sn_session :: "s3_event list \<Rightarrow> exn option"
  sn_client :: "s3_event list \<Rightarrow> exn option"
  sn_put :: "s3_event list \<Rightarrow> s3_put \<Rightarrow> boto_error option"
  sn_stored :: "s3_event list \<Rightarrow> s3_put \<Rightarrow> bool"
  sn_times_out :: "s3_event list \<Rightarrow> s3_put \<Rightarrow> bool"
  sn_close :: "s3_event list \<Rightarrow> exn option"
  sn_clock :: "s3_event list \<Rightarrow> datetime"
  sn_random :: "s3_event list \<Rightarrow> pyfloat"

record s3_state =
  so_objects :: "string \<rightharpoonup> s3_put"
  so_client :: bool
  so_events :: "s3_event list"

type_synonym 'a s3m = "(s3_state, 'a) stm"

definition s3_log :: "s3_event \<Rightarrow> s3_state \<Rightarrow> s3_state" where
  "s3_log ev s = s\<lparr>so_events := so_events s @ [ev]\<rparr>"

text \<open>A put with \<open>If-None-Match: *\<close> never touches an existing object; a put that succeeds has stored its object.\<close>

definition boto_put :: "s3_net \<Rightarrow> s3_put \<Rightarrow> boto_error option s3m" where
  "boto_put X req s =
     (let blocked = (pu_if_none_match req \<and> so_objects s (pu_key req) \<noteq> None);
          s' = s3_log (Put_sent req) s;
          stored = s'\<lparr>so_objects := (so_objects s')(pu_key req \<mapsto> req)\<rparr>
      in case sn_put X (so_events s) req of
          Some err \<Rightarrow> (Inr (Some err), if sn_stored X (so_events s) req \<and> \<not> blocked then stored else s')
        | None \<Rightarrow> if blocked then (Inr (Some (Boto_error ''ClientError'' (Some (Some 412, ''PreconditionFailed'')))), s')
            else (Inr None, stored))"

definition put_object_sync :: "s3_net \<Rightarrow> s3_put \<Rightarrow> bool s3m" where
  "put_object_sync X req =
     st_bind (boto_put X req) (\<lambda>outcome. case outcome of
         None \<Rightarrow> st_ret True
       | Some err \<Rightarrow> if is_conditional_duplicate err then st_ret False else st_throw (translate_boto_exception err))"

text \<open>\<open>asyncio.wait_for\<close> around the put, which runs in a thread and is not stopped by the time-out.\<close>

definition put_prepared :: "s3_net \<Rightarrow> s3_put \<Rightarrow> bool s3m" where
  "put_prepared X req s =
     (if \<not> so_client s then (Inl (Exn DestinationUnavailableError ''S3 sink is not started''), s)
      else if sn_times_out X (so_events s) req then (Inl (Exn PyTimeoutError []), snd (put_object_sync X req s))
      else put_object_sync X req s)"

definition env_value :: "(string \<Rightarrow> string option) \<Rightarrow> string option \<Rightarrow> string res" where
  "env_value environ name =
     (case name of
        None \<Rightarrow> raise ConfigurationError ''required for environment credentials''
      | Some n \<Rightarrow> (case environ n of
            None \<Rightarrow> raise ConfigurationError ''references a missing or invalid value''
          | Some value \<Rightarrow> if strip value = [] \<or> strip value \<noteq> value
              then raise ConfigurationError ''references a missing or invalid value'' else Inr value))"

definition session_arguments :: "s3_net \<Rightarrow> s3_config \<Rightarrow> (string \<times> string) list res" where
  "session_arguments X c =
     (let region = (case sc_region_name c of None \<Rightarrow> [] | Some r \<Rightarrow> [(''region_name'', r)]) in
      case sc_credential_mode c of
        Profile_credentials \<Rightarrow> Inr (region @ [(''profile_name'', case sc_profile_name c of None \<Rightarrow> [] | Some p \<Rightarrow> p)])
      | Chain_credentials \<Rightarrow> Inr region
      | Environment_credentials \<Rightarrow>
          rbind (env_value (sn_environ X) (sc_access_key_env c)) (\<lambda>access_key.
          rbind (env_value (sn_environ X) (sc_secret_key_env c)) (\<lambda>secret_key.
          rbind (case sc_session_token_env c of
              None \<Rightarrow> Inr []
            | Some name \<Rightarrow> rmap (\<lambda>token. [(''aws_session_token'', token)]) (env_value (sn_environ X) (Some name))) (\<lambda>token.
            Inr (region @ [(''aws_access_key_id'', access_key), (''aws_secret_access_key'', secret_key)] @ token)))))"

definition s3_call :: "(s3_event list \<Rightarrow> exn option) \<Rightarrow> s3_event \<Rightarrow> unit s3m" where
  "s3_call fails ev s = (case fails (so_events s) of None \<Rightarrow> (Inr (), s3_log ev s) | Some err \<Rightarrow> (Inl err, s))"

definition build_boto3_client :: "s3_net \<Rightarrow> s3_config \<Rightarrow> unit s3m" where
  "build_boto3_client X c =
     (if \<not> sn_installed X then st_throw (Exn ConfigurationError ''install nats-sinks[s3] to use S3Sink'')
      else st_bind (st_lift (session_arguments X c)) (\<lambda>arguments.
        st_then (s3_call (sn_session X) (Session_made arguments))
          (s3_call (sn_client X) (Client_made (sc_endpoint_url c) (sc_request_timeout c)))))"

section \<open>The sink\<close>

record s3_sink =
  sk_lib :: pylib
  sk_gzip :: s3_gzip
  sk_config :: s3_config
  sk_net :: s3_net

definition s3_start :: "s3_sink \<Rightarrow> unit s3m" where
  "s3_start S s =
     (if so_client s then (Inr (), s)
      else case build_boto3_client (sk_net S) (sk_config S) s of
          (Inr _, s') \<Rightarrow> (Inr (), s'\<lparr>so_client := True\<rparr>)
        | (Inl err, s') \<Rightarrow>
            (if isinstance err ConfigurationError \<or> \<not> isinstance err PyException then Inl err
             else raise DestinationUnavailableError ''S3 sink startup failed'', s'))"

definition s3_healthcheck :: "unit s3m" where
  "s3_healthcheck s =
     (if so_client s then Inr () else raise DestinationUnavailableError ''S3 sink is not started'', s)"

definition s3_stop :: "s3_sink \<Rightarrow> unit s3m" where
  "s3_stop S s =
     (if so_client s then s3_call (sn_close (sk_net S)) Client_closed (s\<lparr>so_client := False\<rparr>) else (Inr (), s))"

definition read_clock :: "s3_sink \<Rightarrow> datetime s3m" where
  "read_clock S s = (Inr (sn_clock (sk_net S) (so_events s)), s3_log Clock_read s)"

definition write_sidecar :: "s3_sink \<Rightarrow> nats_envelope \<Rightarrow> string \<Rightarrow> unit s3m" where
  "write_sidecar S e object_key =
     st_bind (st_lift (s3_sidecar_key_for_object (sk_config S) object_key)) (\<lambda>_.
     st_bind (read_clock S) (\<lambda>stored_at.
     st_bind (st_lift (prepare_s3_sidecar_object (sk_lib S) (sk_config S) e object_key stored_at)) (\<lambda>sidecar.
     st_bind (put_prepared (sk_net S) sidecar) (\<lambda>_. st_ret ()))))"

text \<open>\<open>_write_message_once\<close>: the clock is read again in every attempt, after the key has been made.\<close>

definition write_message_once :: "s3_sink \<Rightarrow> nats_envelope \<Rightarrow> unit s3m" where
  "write_message_once S e =
     (let c = sk_config S in
      st_bind (st_lift (s3_key_for_envelope (sk_lib S) c e)) (\<lambda>_.
      st_bind (read_clock S) (\<lambda>stored_at.
      st_bind (st_lift (prepare_s3_object (sk_lib S) (sk_gzip S) c e stored_at)) (\<lambda>primary.
      st_bind (put_prepared (sk_net S) primary) (\<lambda>created.
        if \<not> created \<and> sc_duplicate_policy c = S3_fail_existing
        then st_throw (Exn PermanentSinkError ''S3 object key already exists'')
        else if sc_metadata_mode c \<noteq> Sidecar then st_ret ()
        else write_sidecar S e (pu_key primary))))))"

definition judge_put :: "exn \<Rightarrow> verdict" where
  "judge_put err =
     (if isinstance err DestinationUnavailableError then Try_again err
      else if isinstance err NatsSinksError then Give_up err
      else if isinstance err PyTimeoutError then Try_again (Exn DestinationUnavailableError ''S3 object write timed out'')
      else if isinstance err PyException
      then Give_up (Exn DestinationUnavailableError ''S3 object write failed before durable success was confirmed'')
      else Give_up err)"

definition s3_pause :: "s3_sink \<Rightarrow> int \<Rightarrow> unit s3m" where
  "s3_pause S attempt s =
     (let delay = backoff_seconds (sc_retry (sk_config S)) (sn_random (sk_net S) (so_events s)) attempt
      in (Inr (), if 0 < delay then s3_log (Slept_for delay) s else s))"

definition write_message_with_retries :: "s3_sink \<Rightarrow> nats_envelope \<Rightarrow> unit s3m" where
  "write_message_with_retries S e =
     attempt_loop judge_put (s3_pause S) (write_message_once S e) (nat (max_retries (sc_retry (sk_config S)) + 1)) 1
       (Exn DestinationUnavailableError ''S3 object write failed without a result'')"

definition s3_write_batch :: "s3_sink \<Rightarrow> nats_envelope list \<Rightarrow> unit s3m" where
  "s3_write_batch S es s =
     (if es = [] then (Inr (), s)
      else if \<not> so_client s then (Inl (Exn DestinationUnavailableError ''S3 sink is not started''), s)
      else st_each (write_message_with_retries S) es s)"

section \<open>What a batch leaves in the bucket\<close>

text \<open>The objects that the messages \<open>es\<close> may become: one put per message and time of writing, and its sidecar.\<close>

definition written_for :: "s3_sink \<Rightarrow> nats_envelope list \<Rightarrow> s3_put \<Rightarrow> bool" where
  "written_for S es req \<longleftrightarrow> (\<exists>e\<in>set es. \<exists>t.
      prepare_s3_object (sk_lib S) (sk_gzip S) (sk_config S) e t = Inr req
    \<or> (sc_metadata_mode (sk_config S) = Sidecar \<and> (\<exists>k. prepare_s3_sidecar_object (sk_lib S) (sk_config S) e k t = Inr req)))"

text \<open>Objects change only into objects of the batch, and with conditional puts only where there was none.\<close>

definition grows :: "s3_sink \<Rightarrow> nats_envelope list \<Rightarrow> s3_state \<Rightarrow> s3_state \<Rightarrow> bool" where
  "grows S es s s' \<longleftrightarrow> so_client s' = so_client s \<and> (\<forall>k. so_objects s' k = so_objects s k
     \<or> ((uses_conditional_put (sk_config S) \<longrightarrow> so_objects s k = None) \<and> (\<exists>req. so_objects s' k = Some req \<and> written_for S es req)))"

definition stored_in :: "s3_sink \<Rightarrow> nats_envelope list \<Rightarrow> s3_state \<Rightarrow> nats_envelope \<Rightarrow> bool" where
  "stored_in S es s e \<longleftrightarrow> (\<exists>k req. s3_key_for_envelope (sk_lib S) (sk_config S) e = Inr k \<and> so_objects s k = Some req
     \<and> (uses_conditional_put (sk_config S) \<or> written_for S es req))"

lemma grows_refl: "grows S es s s"
  by (simp add: grows_def)

lemma grows_trans: "grows S es s s' \<Longrightarrow> grows S es s' s'' \<Longrightarrow> grows S es s s''"
  unfolding grows_def by (metis option.distinct(1))

lemma grows_stored: "grows S es s s' \<Longrightarrow> stored_in S es s e \<Longrightarrow> stored_in S es s' e"
  unfolding grows_def stored_in_def by (metis option.distinct(1))

lemma grows_log [simp]: "grows S es s (s3_log ev s') \<longleftrightarrow> grows S es s s'"
  by (simp add: grows_def s3_log_def)

lemma stored_log [simp]: "stored_in S es (s3_log ev s) e \<longleftrightarrow> stored_in S es s e"
  by (simp add: stored_in_def s3_log_def)

lemma s3_log_objects [simp]: "so_objects (s3_log ev s) = so_objects s" "so_client (s3_log ev s) = so_client s"
  by (simp_all add: s3_log_def)

definition honest_conflicts :: "s3_net \<Rightarrow> bool" where
  "honest_conflicts X \<longleftrightarrow> (\<forall>events req err. sn_put X events req = Some err \<longrightarrow> \<not> is_conditional_duplicate err)"

lemma put_object_sync_outcome:
  assumes "put_object_sync X req s = (r, s')" "honest_conflicts X"
    "pu_if_none_match req = uses_conditional_put (sk_config S)" "written_for S es req"
  shows "grows S es s s'"
    "r = Inr created \<Longrightarrow> \<exists>req'. so_objects s' (pu_key req) = Some req' \<and> (uses_conditional_put (sk_config S) \<or> written_for S es req')"
proof -
  let ?stored = "(s3_log (Put_sent req) s)\<lparr>so_objects := (so_objects s)(pu_key req \<mapsto> req)\<rparr>"
  have fresh: "grows S es s ?stored" if "\<not> (pu_if_none_match req \<and> so_objects s (pu_key req) \<noteq> None)"
    using that assms(3,4) by (auto simp: grows_def)
  from assms(1) fresh show "grows S es s s'"
    by (auto simp: put_object_sync_def boto_put_def st_bind_def st_ret_def st_throw_def Let_def grows_refl
        split: option.splits if_splits)
  assume "r = Inr created"
  with assms show "\<exists>req'. so_objects s' (pu_key req) = Some req' \<and> (uses_conditional_put (sk_config S) \<or> written_for S es req')"
    by (auto simp: put_object_sync_def boto_put_def st_bind_def st_ret_def st_throw_def Let_def honest_conflicts_def
        split: option.splits if_splits)
qed

text \<open>The triples: from any state grown out of \<open>s0\<close> in which the messages \<open>D\<close> are stored.\<close>

definition progress :: "s3_sink \<Rightarrow> nats_envelope list \<Rightarrow> s3_state \<Rightarrow> nats_envelope set \<Rightarrow> s3_state \<Rightarrow> bool" where
  "progress S es s0 D s \<longleftrightarrow> grows S es s0 s \<and> (\<forall>e\<in>D. stored_in S es s e)"

lemma progress_grows: "progress S es s0 D s \<Longrightarrow> grows S es s s' \<Longrightarrow> progress S es s0 D s'"
  unfolding progress_def by (blast intro: grows_trans grows_stored)

lemma progress_log [simp]: "progress S es s0 D (s3_log ev s) \<longleftrightarrow> progress S es s0 D s"
  by (simp add: progress_def)

lemma put_prepared_progress:
  assumes "honest_conflicts (sk_net S)" "pu_if_none_match req = uses_conditional_put (sk_config S)" "written_for S es req"
  shows "st_hoare (progress S es s0 D) (put_prepared (sk_net S) req)
     (\<lambda>_ s. progress S es s0 D s \<and> (\<exists>req'. so_objects s (pu_key req) = Some req' \<and> (uses_conditional_put (sk_config S) \<or> written_for S es req')))
     (progress S es s0 D)"
proof (rule st_hoareI)
  fix s created s' assume s: "progress S es s0 D s" and "put_prepared (sk_net S) req s = (Inr created, s')"
  then have run: "put_object_sync (sk_net S) req s = (Inr created, s')" by (auto simp: put_prepared_def split: if_splits)
  from put_object_sync_outcome [OF run assms] s
  show "progress S es s0 D s' \<and> (\<exists>req'. so_objects s' (pu_key req) = Some req' \<and> (uses_conditional_put (sk_config S) \<or> written_for S es req'))"
    by (blast intro: progress_grows)
next
  fix s err s' assume s: "progress S es s0 D s" and run: "put_prepared (sk_net S) req s = (Inl err, s')"
  obtain r s1 where sync: "put_object_sync (sk_net S) req s = (r, s1)" by fastforce
  from run sync have "s' = s \<or> s' = s1" by (auto simp: put_prepared_def split: if_splits)
  with s put_object_sync_outcome(1) [OF sync assms] show "progress S es s0 D s'" by (blast intro: progress_grows)
qed

lemma read_clock_progress: "st_hoare (progress S es s0 D) (read_clock S) (\<lambda>_. progress S es s0 D) (progress S es s0 D)"
  by (simp add: st_hoare_def read_clock_def)

lemma prepared_request:
  assumes "prepare_s3_object L gz c e t = Inr req"
  shows "s3_key_for_envelope L c e = Inr (pu_key req)" "pu_if_none_match req = uses_conditional_put c"
  using assms by (auto simp: prepare_s3_object_def rbind_Inr_iff request_for_prepared_def)

lemma prepared_sidecar_request:
  assumes "prepare_s3_sidecar_object L c e k t = Inr req"
  shows "s3_sidecar_key_for_object c k = Inr (pu_key req)" "pu_if_none_match req = uses_conditional_put c"
  using assms by (auto simp: prepare_s3_sidecar_object_def rbind_Inr_iff request_for_prepared_def)

lemma write_sidecar_progress:
  assumes "honest_conflicts (sk_net S)" "e \<in> set es" "sc_metadata_mode (sk_config S) = Sidecar"
  shows "st_hoare (progress S es s0 D) (write_sidecar S e k) (\<lambda>_. progress S es s0 D) (progress S es s0 D)"
  unfolding write_sidecar_def
proof (rule st_hoare_lift_then, rule st_hoare_bind [OF read_clock_progress], rule st_hoare_lift_then)
  fix t req assume req: "prepare_s3_sidecar_object (sk_lib S) (sk_config S) e k t = Inr req"
  with assms(2,3) have "written_for S es req" by (auto simp: written_for_def)
  show "st_hoare (progress S es s0 D) (st_bind (put_prepared (sk_net S) req) (\<lambda>_. st_ret ())) (\<lambda>_. progress S es s0 D) (progress S es s0 D)"
    by (rule st_hoare_bind [OF put_prepared_progress [OF assms(1) prepared_sidecar_request(2) [OF req] \<open>written_for S es req\<close>]],
      rule st_hoare_ret) simp
qed simp_all

lemma write_message_once_progress:
  assumes "honest_conflicts (sk_net S)" "e \<in> set es"
  shows "st_hoare (progress S es s0 D) (write_message_once S e) (\<lambda>_. progress S es s0 (insert e D)) (progress S es s0 D)"
  unfolding write_message_once_def Let_def
proof (rule st_hoare_lift_then, rule st_hoare_bind [OF read_clock_progress], rule st_hoare_lift_then)
  fix t req assume req: "prepare_s3_object (sk_lib S) (sk_gzip S) (sk_config S) e t = Inr req"
  with assms(2) have written: "written_for S es req" by (auto simp: written_for_def)
  let ?stored = "\<lambda>s. \<exists>req'. so_objects s (pu_key req) = Some req' \<and> (uses_conditional_put (sk_config S) \<or> written_for S es req')"
  have complete: "progress S es s0 D s \<Longrightarrow> ?stored s \<Longrightarrow> progress S es s0 (insert e D) s" for s
    using prepared_request(1) [OF req] by (auto simp: progress_def stored_in_def)
  have less: "progress S es s0 (insert e D) s \<Longrightarrow> progress S es s0 D s" for s by (simp add: progress_def)
  have sidecar: "st_hoare (progress S es s0 (insert e D)) (write_sidecar S e (pu_key req)) (\<lambda>_. progress S es s0 (insert e D)) (progress S es s0 D)"
    if "sc_metadata_mode (sk_config S) = Sidecar"
    by (rule st_hoare_weaken [OF write_sidecar_progress [OF assms that, of s0 "insert e D"]]) (simp_all add: less)
  show "st_hoare (progress S es s0 D)
     (st_bind (put_prepared (sk_net S) req) (\<lambda>created.
        if \<not> created \<and> sc_duplicate_policy (sk_config S) = S3_fail_existing
        then st_throw (Exn PermanentSinkError ''S3 object key already exists'')
        else if sc_metadata_mode (sk_config S) \<noteq> Sidecar then st_ret () else write_sidecar S e (pu_key req)))
     (\<lambda>_. progress S es s0 (insert e D)) (progress S es s0 D)"
  proof (rule st_hoare_bind [OF put_prepared_progress [OF assms(1) prepared_request(2) [OF req] written]])
    fix created
    consider "\<not> created \<and> sc_duplicate_policy (sk_config S) = S3_fail_existing"
      | "\<not> (\<not> created \<and> sc_duplicate_policy (sk_config S) = S3_fail_existing)" "sc_metadata_mode (sk_config S) \<noteq> Sidecar"
      | "\<not> (\<not> created \<and> sc_duplicate_policy (sk_config S) = S3_fail_existing)" "sc_metadata_mode (sk_config S) = Sidecar" by blast
    then show "st_hoare (\<lambda>s. progress S es s0 D s \<and> ?stored s)
       (if \<not> created \<and> sc_duplicate_policy (sk_config S) = S3_fail_existing
        then st_throw (Exn PermanentSinkError ''S3 object key already exists'')
        else if sc_metadata_mode (sk_config S) \<noteq> Sidecar then st_ret () else write_sidecar S e (pu_key req))
       (\<lambda>_. progress S es s0 (insert e D)) (progress S es s0 D)"
    proof cases
      case 1
      then show ?thesis by (simp add: st_hoare_def st_throw_def)
    next
      case 2
      then show ?thesis by (auto simp: st_hoare_def st_ret_def intro: complete)
    next
      case 3
      from 3(2) have "st_hoare (\<lambda>s. progress S es s0 D s \<and> ?stored s) (write_sidecar S e (pu_key req))
          (\<lambda>_. progress S es s0 (insert e D)) (progress S es s0 D)"
        by (intro st_hoare_weaken [OF sidecar]) (simp_all add: complete)
      then show ?thesis by (simp only: if_not_P [OF 3(1)] 3(2) simp_thms if_False)
    qed
  qed
qed simp_all

lemma s3_pause_progress: "st_hoare (progress S es s0 D) (s3_pause S a) (\<lambda>_. progress S es s0 D) (progress S es s0 D)"
  by (simp add: st_hoare_def s3_pause_def Let_def)

lemma s3_write_batch_progress:
  assumes "honest_conflicts (sk_net S)"
  shows "st_hoare (grows S es s0) (s3_write_batch S es) (\<lambda>_ s. grows S es s0 s \<and> (\<forall>e\<in>set es. stored_in S es s e)) (grows S es s0)"
proof -
  have "st_hoare (progress S es s0 {}) (st_each (write_message_with_retries S) es) (\<lambda>_. progress S es s0 ({} \<union> set es)) (grows S es s0)"
  proof (rule st_hoare_each_collect)
    fix e D assume "e \<in> set es"
    from write_message_once_progress [OF assms this]
    show "st_hoare (progress S es s0 D) (write_message_with_retries S e) (\<lambda>_. progress S es s0 (insert e D)) (grows S es s0)"
      unfolding write_message_with_retries_def
      by (intro attempt_loop_hoare [where P = "\<lambda>_. progress S es s0 D"] s3_pause_progress) (auto simp: progress_def)
  qed (simp add: progress_def)
  then show ?thesis
    by (auto simp: st_hoare_def s3_write_batch_def progress_def split: prod.splits sum.splits)
qed

section \<open>Properties\<close>


text \<open>A sink that replaces objects, and the one message that it stores.\<close>

definition sample_s3_config :: s3_config where
  "sample_s3_config = \<lparr>sc_bucket = ''bkt'', sc_prefix = None, sc_endpoint_url = None, sc_allow_http = False, sc_region_name = None,
     sc_credential_mode = Chain_credentials, sc_profile_name = None, sc_access_key_env = None, sc_secret_key_env = None,
     sc_session_token_env = None, sc_key_strategy = S3_stream_sequence, sc_key_prefix = None, sc_object_suffix = ''.json'',
     sc_duplicate_policy = S3_replace, sc_object_format = S3_payload, sc_metadata_mode = No_metadata, sc_sidecar_suffix = ''.m.json'',
     sc_payload_mode = Json_or_envelope, sc_gzip = False, sc_content_type = ''application/json'', sc_object_metadata = [],
     sc_aes256 = False, sc_max_key_bytes = 1024, sc_max_object_bytes = 1000, sc_max_metadata_bytes = 4096, sc_request_timeout = 10,
     sc_retry = \<lparr>max_retries = 0, backoff_ms = 0, max_backoff_ms = 0, backoff_mode = Fixed, backoff_multiplier = FFin 1, jitter = NoJitter\<rparr>\<rparr>"

definition sample_s3 :: s3_sink where
  "sample_s3 = \<lparr>sk_lib = plain_lib, sk_gzip = (\<lambda>b. b), sk_config = sample_s3_config,
     sk_net = \<lparr>sn_installed = True, sn_environ = (\<lambda>_. None), sn_session = (\<lambda>_. None), sn_client = (\<lambda>_. None), sn_put = (\<lambda>_ _. None),
       sn_stored = (\<lambda>_ _. False), sn_times_out = (\<lambda>_ _. False), sn_close = (\<lambda>_. None), sn_clock = (\<lambda>_. Aware 0 0),
       sn_random = (\<lambda>_. FFin 0)\<rparr>\<rparr>"

lemma sample_s3_prepared:
  "\<exists>req. prepare_s3_object plain_lib (\<lambda>b. b) sample_s3_config (sample_envelope ''o'' 7 [1]) (Aware 0 0) = Inr req"
proof -
  let ?p = "prepare_s3_object plain_lib (\<lambda>b. b) sample_s3_config (sample_envelope ''o'' 7 [1]) (Aware 0 0)"
  have "case ?p of Inl _ \<Rightarrow> False | Inr _ \<Rightarrow> True" by code_simp
  then show ?thesis by (cases ?p) auto
qed

lemma sample_s3_run:
  "\<exists>s'. s3_write_batch sample_s3 [sample_envelope ''o'' 7 [1]] \<lparr>so_objects = Map.empty, so_client = True, so_events = []\<rparr> = (Inr (), s')"
proof -
  obtain req where req: "prepare_s3_object plain_lib (\<lambda>b. b) sample_s3_config (sample_envelope ''o'' 7 [1]) (Aware 0 0) = Inr req"
    using sample_s3_prepared by blast
  have "sc_metadata_mode sample_s3_config = No_metadata" "sc_duplicate_policy sample_s3_config = S3_replace"
    "max_retries (sc_retry sample_s3_config) = 0" by (simp_all add: sample_s3_config_def)
  then show ?thesis
    by (simp add: s3_write_batch_def write_message_with_retries_def write_message_once_def sample_s3_def Let_def st_bind_def st_then_def
      st_ret_def st_lift_def st_catch_def prepared_request(1) [OF req] req read_clock_def put_prepared_def put_object_sync_def
      boto_put_def prepared_request(2) [OF req] uses_conditional_put_def)
qed


text \<open>A prepared object for a message at every time, in a sink without sidecars that has started.\<close>

definition always_prepared :: "s3_sink \<Rightarrow> nats_envelope \<Rightarrow> s3_state \<Rightarrow> bool" where
  "always_prepared S e s \<longleftrightarrow> so_client s \<and> sc_metadata_mode (sk_config S) \<noteq> Sidecar
     \<and> (\<forall>t. \<exists>req. prepare_s3_object (sk_lib S) (sk_gzip S) (sk_config S) e t = Inr req)"

lemma write_message_once_eq:
  assumes "always_prepared S e s"
  obtains req where "prepare_s3_object (sk_lib S) (sk_gzip S) (sk_config S) e (sn_clock (sk_net S) (so_events s)) = Inr req"
    and "write_message_once S e s =
      st_bind (put_prepared (sk_net S) req) (\<lambda>created.
        if \<not> created \<and> sc_duplicate_policy (sk_config S) = S3_fail_existing
        then st_throw (Exn PermanentSinkError ''S3 object key already exists'') else st_ret ()) (s3_log Clock_read s)"
proof -
  from assms obtain req where req: "prepare_s3_object (sk_lib S) (sk_gzip S) (sk_config S) e (sn_clock (sk_net S) (so_events s)) = Inr req"
    by (auto simp: always_prepared_def)
  moreover have "write_message_once S e s =
      st_bind (put_prepared (sk_net S) req) (\<lambda>created.
        if \<not> created \<and> sc_duplicate_policy (sk_config S) = S3_fail_existing
        then st_throw (Exn PermanentSinkError ''S3 object key already exists'') else st_ret ()) (s3_log Clock_read s)"
    using assms prepared_request(1) [OF req] req
    by (simp add: write_message_once_def always_prepared_def st_bind_def [of "st_lift _"] st_bind_def [of "read_clock S"] st_lift_def
        read_clock_def Let_def cong: if_cong)
  ultimately show ?thesis by (rule that)
qed

text \<open>
  A conflict between two conditional requests (409 \<open>ConditionalRequestConflict\<close>), which stores nothing and asks for
  another try, is read as an object that exists: the message is acknowledged and no object changes.
\<close>

theorem s3_conflict_acknowledged_unstored:
  assumes "always_prepared S e s" "sc_duplicate_policy (sk_config S) = S3_skip_existing"
    "sn_put (sk_net S) = (\<lambda>_ _. Some (Boto_error ''ClientError'' (Some (Some 409, ''ConditionalRequestConflict''))))"
    "sn_stored (sk_net S) = (\<lambda>_ _. False)" "sn_times_out (sk_net S) = (\<lambda>_ _. False)" "0 \<le> max_retries (sc_retry (sk_config S))"
  shows "\<exists>s'. s3_write_batch S [e] s = (Inr (), s') \<and> so_objects s' = so_objects s"
proof -
  from assms(1) obtain req where once: "write_message_once S e s =
      st_bind (put_prepared (sk_net S) req) (\<lambda>created.
        if \<not> created \<and> sc_duplicate_policy (sk_config S) = S3_fail_existing
        then st_throw (Exn PermanentSinkError ''S3 object key already exists'') else st_ret ()) (s3_log Clock_read s)"
    by (rule write_message_once_eq)
  have client: "so_client s" using assms(1) by (simp add: always_prepared_def)
  have attempts: "nat (max_retries (sc_retry (sk_config S)) + 1) = Suc (nat (max_retries (sc_retry (sk_config S))))" using assms(6) by simp
  show ?thesis
    using assms(2-5) client
    by (simp add: s3_write_batch_def write_message_with_retries_def attempts st_catch_def once put_prepared_def put_object_sync_def
        boto_put_def Let_def st_bind_def st_then_def st_ret_def)
qed

text \<open>
  With \<open>fail_existing\<close> and retries, a first put that is stored but times out makes the second attempt find the sink's own
  object: the message fails permanently although it is stored.
\<close>

theorem s3_own_object_reported_existing:
  assumes "always_prepared S e s" "sc_duplicate_policy (sk_config S) = S3_fail_existing" "1 \<le> max_retries (sc_retry (sk_config S))"
    "s3_key_for_envelope (sk_lib S) (sk_config S) e = Inr k" "so_objects s k = None" "so_events s = []"
    "sn_put (sk_net S) = (\<lambda>_ _. None)" "sn_times_out (sk_net S) = (\<lambda>events _. \<not> (\<exists>r. Put_sent r \<in> set events))"
  shows "\<exists>s'. s3_write_batch S [e] s = (Inl (Exn PermanentSinkError ''S3 object key already exists''), s') \<and> so_objects s' k \<noteq> None"
proof -
  from assms(1) obtain req where req: "prepare_s3_object (sk_lib S) (sk_gzip S) (sk_config S) e (sn_clock (sk_net S) (so_events s)) = Inr req"
    and once: "write_message_once S e s =
      st_bind (put_prepared (sk_net S) req) (\<lambda>created.
        if \<not> created \<and> sc_duplicate_policy (sk_config S) = S3_fail_existing
        then st_throw (Exn PermanentSinkError ''S3 object key already exists'') else st_ret ()) (s3_log Clock_read s)"
    by (rule write_message_once_eq)
  have key: "pu_key req = k" using prepared_request(1) [OF req] assms(4) by simp
  define s1 where "s1 = (s3_log (Put_sent req) (s3_log Clock_read s))\<lparr>so_objects := (so_objects s)(k \<mapsto> req)\<rparr>"
  have client: "so_client s" using assms(1) by (simp add: always_prepared_def)
  have first: "write_message_once S e s = (Inl (Exn PyTimeoutError []), s1)"
    using assms(5-8) client
    by (auto simp: once key s1_def put_prepared_def put_object_sync_def boto_put_def Let_def st_bind_def st_ret_def s3_log_def)
  define s2 where "s2 = snd (s3_pause S 1 s1)"
  have pause: "s3_pause S 1 s1 = (Inr (), s2)" by (simp add: s2_def s3_pause_def Let_def)
  have s2: "so_objects s2 = so_objects s1" "so_client s2" "Put_sent req \<in> set (so_events s2)"
    using client by (simp_all add: s2_def s3_pause_def Let_def s1_def s3_log_def)
  have "always_prepared S e s2" using assms(1) s2(2) by (simp add: always_prepared_def)
  then obtain req' where req': "prepare_s3_object (sk_lib S) (sk_gzip S) (sk_config S) e (sn_clock (sk_net S) (so_events s2)) = Inr req'"
    and once': "write_message_once S e s2 =
      st_bind (put_prepared (sk_net S) req') (\<lambda>created.
        if \<not> created \<and> sc_duplicate_policy (sk_config S) = S3_fail_existing
        then st_throw (Exn PermanentSinkError ''S3 object key already exists'') else st_ret ()) (s3_log Clock_read s2)"
    by (rule write_message_once_eq)
  have key': "pu_key req' = k" "pu_if_none_match req'"
    using prepared_request [OF req'] assms(2,4) by (simp_all add: uses_conditional_put_def)
  have "\<exists>r. Put_sent r \<in> set (so_events s2)" using s2(3) by blast
  then have second: "\<exists>s'. write_message_once S e s2 = (Inl (Exn PermanentSinkError ''S3 object key already exists''), s') \<and> so_objects s' k = Some req"
    using assms(2,7,8) s2 key' unfolding once' s1_def
    by (simp add: put_prepared_def put_object_sync_def boto_put_def Let_def st_bind_def st_ret_def st_throw_def s3_log_def)
  have attempts: "nat (max_retries (sc_retry (sk_config S)) + 1) = Suc (Suc (nat (max_retries (sc_retry (sk_config S)) - 1)))"
    using assms(3) by simp
  from second show ?thesis
    using client pause
    by (auto simp: s3_write_batch_def write_message_with_retries_def attempts st_catch_def first judge_put_def st_then_def st_bind_def st_throw_def)
qed

text \<open>Message IDs that differ only in a character that a key does not keep have the same key.\<close>

theorem s3_message_ids_collide:
  assumes "env_message_id e = Some ''a/b''" "env_message_id e' = Some ''a:b''" "sc_key_strategy c = S3_message_id"
  shows "s3_key_for_envelope L c e = s3_key_for_envelope L c e'"
proof -
  have "safe_key_part ''a/b'' = safe_key_part ''a:b''" by code_simp
  with assms show ?thesis by (simp add: s3_key_for_envelope_def raw_key_for_envelope_def)
qed

text \<open>With the suffixes of the source, the sidecar of one message has the key of the object of another.\<close>

theorem s3_sidecar_collides:
  assumes "env_message_id e = Some ''x''" "env_message_id e' = Some ''x.metadata''" "sc_key_strategy c = S3_message_id"
    "sc_object_suffix c = ''.json''" "sc_sidecar_suffix c = ''.metadata.json''" "sc_prefix c = None" "sc_key_prefix c = None"
    "64 \<le> sc_max_key_bytes c"
  shows "\<exists>k k'. s3_key_for_envelope L c e = Inr k \<and> s3_sidecar_key_for_object c k = Inr k' \<and> s3_key_for_envelope L c e' = Inr k'"
proof -
  have parts: "safe_key_part ''x'' = ''x''" "safe_key_part ''x.metadata'' = ''x.metadata''" by code_simp+
  have "validate_object_key n ''message-id/x.json'' = Inr ''message-id/x.json''"
    "validate_object_key n ''message-id/x.metadata.json'' = Inr ''message-id/x.metadata.json''" if "64 \<le> n" for n
    using that by (simp_all add: validate_object_key_def startswith_def utf8_len_def)
  with assms parts show ?thesis
    by (simp add: s3_key_for_envelope_def raw_key_for_envelope_def s3_sidecar_key_for_object_def present_text_def Let_def)
qed

end
