(* ===== verification/HttpConfig.thy ===== *)
theory HttpConfig
  imports Endpoints Retry
begin

text \<open>
  The configuration of the HTTP sink (\<open>http/config.py\<close>): header names and values, host and status lists, the
  destination address, and the checks across fields.
\<close>

section \<open>Headers\<close>

text \<open>\<open>^[!#$%&'*+.^_`|~0-9A-Za-z-]{1,128}$\<close>, matched against the whole text; the last characters by their numbers.\<close>

definition header_name_text :: "string \<Rightarrow> bool" where
  "header_name_text s \<longleftrightarrow> s \<noteq> [] \<and> length s \<le> 128
     \<and> list_all (\<lambda>c. ascii_alnum c \<or> c \<in> set ''!#$%&*+.^_|~-'' \<or> of_char c \<in> {39, 96 :: nat}) s"

definition FORBIDDEN_HEADER_NAMES :: "string list" where
  "FORBIDDEN_HEADER_NAMES = [''accept'', ''connection'', ''content-length'', ''content-type'', ''host'', ''keep-alive'',
     ''proxy-connection'', ''transfer-encoding'', ''upgrade'', ''user-agent'']"

definition DIRECT_SECRET_HEADER_NAMES :: "string list" where
  "DIRECT_SECRET_HEADER_NAMES = [''authorization'', ''cookie'', ''proxy-authorization'', ''x-api-key'', ''x-auth-token'']"

definition http_header_name :: "pyval \<Rightarrow> string res" where
  "http_header_name name =
     (case name of
        PStr s \<Rightarrow>
          if strip s \<noteq> s \<or> \<not> header_name_text (strip s) then raise ValueError ''header names must be RFC token strings without padding''
          else if casefold (strip s) \<in> set FORBIDDEN_HEADER_NAMES then raise ValueError ''must not configure framework-owned header''
          else Inr (strip s)
      | _ \<Rightarrow> raise ValueError ''header names must be strings'')"

definition http_header_value :: "pyval \<Rightarrow> string res" where
  "http_header_value value =
     (case value of
        PStr s \<Rightarrow>
          if s \<noteq> strip s \<or> s = [] then raise ValueError ''header values must not be blank or padded''
          else if 2048 < length s then raise ValueError ''header values must be at most 2048 characters''
          else if control_characters s then raise ValueError ''header values must not contain control characters''
          else Inr s
      | _ \<Rightarrow> raise ValueError ''header values must be strings'')"

definition http_env_name :: "pyval \<Rightarrow> string res" where
  "http_env_name value =
     (case value of
        PStr s \<Rightarrow> if s \<noteq> strip s \<or> \<not> env_name_text s
          then raise ValueError ''environment variable names must use uppercase letters, numbers, and underscores'' else Inr s
      | _ \<Rightarrow> raise ValueError ''environment variable names must use uppercase letters, numbers, and underscores'')"

fun http_header_items ::
  "bool \<Rightarrow> (pyval \<times> pyval) list \<Rightarrow> string list \<Rightarrow> (string \<times> string) list \<Rightarrow> (string \<times> string) list res" where
  "http_header_items from_env [] seen rendered = Inr rendered"
| "http_header_items from_env ((raw_name, raw_value) # items) seen rendered =
     rbind (http_header_name raw_name) (\<lambda>name.
       if casefold name \<in> set seen then raise ValueError ''contains duplicate header''
       else if \<not> from_env \<and> casefold name \<in> set DIRECT_SECRET_HEADER_NAMES
       then raise ValueError ''must not contain sensitive header; use headers_env''
       else rbind (if from_env then http_env_name raw_value else http_header_value raw_value) (\<lambda>value.
         http_header_items from_env items (casefold name # seen) (AList.update name value rendered)))"

definition http_header_mapping :: "bool \<Rightarrow> pyval \<Rightarrow> (string \<times> string) list res" where
  "http_header_mapping from_env value =
     (case value of
        PNone \<Rightarrow> Inr []
      | PDict items \<Rightarrow>
          if 32 < length items then raise ValueError ''supports at most 32 entries'' else http_header_items from_env items [] []
      | _ \<Rightarrow> raise ValueError ''must be an object'')"

section \<open>Address, hosts and statuses\<close>

definition http_url :: "url_split \<Rightarrow> bool \<Rightarrow> string list \<Rightarrow> string \<Rightarrow> string res" where
  "http_url split_url allow_local allowed_hosts value =
     (let rendered = strip value in
      if rendered = [] then raise ValueError ''sink.url must not be empty''
      else if rendered \<noteq> value \<or> control_characters rendered
      then raise ValueError ''sink.url must not contain padding or control characters''
      else rbind (split_url rendered) (\<lambda>parsed.
        let scheme = casefold (up_scheme parsed);
            host = (if present_text (up_hostname parsed) then casefold (the (up_hostname parsed)) else [])
        in if scheme \<notin> {''https'', ''http''} then raise ValueError ''sink.url must use https''
           else if scheme = ''http'' \<and> \<not> (allow_local \<and> host \<in> set LOOPBACK_HOSTS)
           then raise ValueError ''sink.url must use https outside local loopback tests''
           else if host = [] then raise ValueError ''sink.url must include a host''
           else if present_text (up_username parsed) \<or> present_text (up_password parsed)
           then raise ValueError ''sink.url must not include userinfo''
           else if up_fragment parsed \<noteq> [] then raise ValueError ''sink.url must not include a fragment''
           else if up_query parsed \<noteq> [] then raise ValueError ''sink.url must not include a query string''
           else if 2048 < length (up_path parsed) then raise ValueError ''sink.url path is too long''
           else if allowed_hosts \<noteq> [] \<and> host \<notin> set allowed_hosts
           then raise ValueError ''sink.url host is not in endpoint_allowed_hosts''
           else Inr rendered))"

fun http_host_items :: "pyval list \<Rightarrow> string list \<Rightarrow> string list res" where
  "http_host_items [] normalized = Inr normalized"
| "http_host_items (item # items) normalized =
     (case item of
        PStr s \<Rightarrow>
          (let host = casefold (strip s) in
           if host = [] then raise ValueError ''endpoint_allowed_hosts entries must not be empty''
           else if host \<noteq> casefold s \<or> control_characters s
           then raise ValueError ''endpoint_allowed_hosts entries must not contain padding or control characters''
           else if CHR ''/'' \<in> set host \<or> CHR 0x40 \<in> set host
           then raise ValueError ''endpoint_allowed_hosts entries must be hostnames only''
           else if host \<in> set normalized then raise ValueError ''endpoint_allowed_hosts contains duplicate host''
           else http_host_items items (normalized @ [host]))
      | _ \<Rightarrow> raise ValueError ''endpoint_allowed_hosts entries must be strings'')"

definition http_allowed_hosts :: "pyval \<Rightarrow> string list res" where
  "http_allowed_hosts value =
     (case value of
        PNone \<Rightarrow> Inr []
      | PList items \<Rightarrow> http_host_items items []
      | PTuple items \<Rightarrow> http_host_items items []
      | _ \<Rightarrow> raise ValueError ''endpoint_allowed_hosts must be a list of hostnames'')"

fun http_status_items :: "pyval list \<Rightarrow> int list \<Rightarrow> int list res" where
  "http_status_items [] statuses = Inr statuses"
| "http_status_items (item # items) statuses =
     (case item of
        PInt n \<Rightarrow>
          if n < 100 \<or> 599 < n then raise ValueError ''entries must be HTTP status codes''
          else if n \<in> set statuses then raise ValueError ''contains duplicate status''
          else http_status_items items (statuses @ [n])
      | _ \<Rightarrow> raise ValueError ''entries must be integers'')"

definition http_statuses :: "pyval \<Rightarrow> int list res" where
  "http_statuses value =
     (case value of
        PList items \<Rightarrow>
          if items = [] then raise ValueError ''must not be empty''
          else if 64 < length items then raise ValueError ''supports at most 64 status codes'' else http_status_items items []
      | PTuple items \<Rightarrow>
          if items = [] then raise ValueError ''must not be empty''
          else if 64 < length items then raise ValueError ''supports at most 64 status codes'' else http_status_items items []
      | _ \<Rightarrow> raise ValueError ''must be a list of HTTP status codes'')"

section \<open>The sink configuration\<close>

datatype http_method = Post | Put | Patch
datatype http_body_format = Envelope_body | Payload_body
datatype http_strategy = Key_idempotency | Key_stream_sequence | Key_message_id | Key_payload_sha256

text \<open>\<open>value.strip().upper()\<close>; a character above 127 has no upper form that could complete one of the three names.\<close>

definition ascii_upper_text :: "string \<Rightarrow> string" where
  "ascii_upper_text s = map (\<lambda>c. let n = of_char c :: nat in if 97 \<le> n \<and> n \<le> 122 then char_of (n - 32) else c) s"

primrec method_text :: "http_method \<Rightarrow> string" where
  "method_text Post = ''POST''"
| "method_text Put = ''PUT''"
| "method_text Patch = ''PATCH''"

definition make_http_method :: "pyval \<Rightarrow> http_method res" where
  "make_http_method value =
     (case value of
        PStr s \<Rightarrow> (let name = ascii_upper_text (strip s) in
          if name = ''POST'' then Inr Post else if name = ''PUT'' then Inr Put else if name = ''PATCH'' then Inr Patch
          else raise ValueError ''sink.method is not supported'')
      | _ \<Rightarrow> raise ValueError ''sink.method must be a string'')"

record http_idempotency =
  hi_enabled :: bool
  hi_required :: bool
  hi_header :: string
  hi_strategy :: http_strategy

definition make_http_idempotency :: "http_idempotency \<Rightarrow> http_idempotency res" where
  "make_http_idempotency c =
     rbind (http_header_name (PStr (hi_header c))) (\<lambda>header.
       if \<not> hi_enabled c \<and> hi_required c then raise ValueError ''idempotency.required requires idempotency.enabled=true''
       else Inr (c\<lparr>hi_header := header\<rparr>))"

text \<open>\<open>HttpRetryConfig\<close>, from which the sink builds its \<open>RetryPolicy\<close> field by field.\<close>

definition make_http_retry :: "retry_policy \<Rightarrow> retry_policy res" where
  "make_http_retry p =
     (if \<not> (0 \<le> max_retries p \<and> max_retries p \<le> 10) then raise ValueError ''retry.max_retries out of range''
      else if \<not> (0 \<le> backoff_ms p \<and> backoff_ms p \<le> 60000) then raise ValueError ''retry.backoff_ms out of range''
      else if \<not> (0 \<le> max_backoff_ms p \<and> max_backoff_ms p \<le> 300000) then raise ValueError ''retry.max_backoff_ms out of range''
      else if backoff_mode p \<notin> {Fixed, Linear, Exponential} then raise ValueError ''retry.backoff_mode is not a mode''
      else if \<not> (case finite_value (backoff_multiplier p) of None \<Rightarrow> False | Some q \<Rightarrow> 1 \<le> q \<and> q \<le> 10)
      then raise ValueError ''retry.backoff_multiplier out of range''
      else if jitter p \<notin> {NoJitter, FullJitter, EqualJitter} then raise ValueError ''retry.jitter is not a mode''
      else if max_backoff_ms p < backoff_ms p then raise ValueError ''retry.max_backoff_ms must be at least retry.backoff_ms''
      else Inr p)"

record http_config =
  ht_url :: string
  ht_method :: http_method
  ht_body_format :: http_body_format
  ht_allowed_hosts :: "string list"
  ht_allow_local :: bool
  ht_headers :: "(string \<times> string) list"
  ht_headers_env :: "(string \<times> string) list"
  ht_user_agent :: string
  ht_request_timeout :: rat
  ht_max_request_bytes :: int
  ht_max_response_bytes :: int
  ht_success_statuses :: "int list"
  ht_retry_statuses :: "int list"
  ht_retry :: retry_policy
  ht_payload_mode :: storage_mode
  ht_include_metadata :: bool
  ht_include_mission_metadata :: bool
  ht_include_security_labels :: bool
  ht_include_custody :: bool
  ht_idempotency :: http_idempotency

definition http_user_agent :: "string \<Rightarrow> string res" where
  "http_user_agent value =
     (if value \<noteq> strip value \<or> value = [] then raise ValueError ''user_agent must not be blank or padded''
      else if 2048 < length value \<or> control_characters value
      then raise ValueError ''user_agent must be bounded text without control characters'' else Inr value)"

text \<open>The fields that the configuration arrives with untyped: the request method, hosts, both header mappings and both status lists.\<close>

record http_raw =
  hr_method :: pyval
  hr_allowed_hosts :: pyval
  hr_headers :: pyval
  hr_headers_env :: pyval
  hr_success_statuses :: pyval
  hr_retry_statuses :: pyval

definition make_http_config :: "url_split \<Rightarrow> http_raw \<Rightarrow> http_config \<Rightarrow> http_config res" where
  "make_http_config split_url raw c =
     rbind (make_http_method (hr_method raw)) (\<lambda>verb.
     rbind (http_allowed_hosts (hr_allowed_hosts raw)) (\<lambda>hosts.
     rbind (http_header_mapping False (hr_headers raw)) (\<lambda>headers.
     rbind (http_header_mapping True (hr_headers_env raw)) (\<lambda>headers_env.
     rbind (http_user_agent (ht_user_agent c)) (\<lambda>agent.
     rbind (if 0 < ht_request_timeout c \<and> ht_request_timeout c \<le> 120 then Inr () else raise ValueError ''out of range'') (\<lambda>_.
     rbind (if 128 \<le> ht_max_request_bytes c \<and> ht_max_request_bytes c \<le> 52428800 then Inr () else raise ValueError ''out of range'') (\<lambda>_.
     rbind (if 0 \<le> ht_max_response_bytes c \<and> ht_max_response_bytes c \<le> 1048576 then Inr () else raise ValueError ''out of range'') (\<lambda>_.
     rbind (http_statuses (hr_success_statuses raw)) (\<lambda>success.
     rbind (http_statuses (hr_retry_statuses raw)) (\<lambda>retry.
     rbind (make_http_retry (ht_retry c)) (\<lambda>_.
     rbind (make_http_idempotency (ht_idempotency c)) (\<lambda>idempotency.
     rbind (http_url split_url (ht_allow_local c) hosts (ht_url c)) (\<lambda>url.
       if \<exists>l\<in>set headers. \<exists>r\<in>set headers_env. casefold (fst l) = casefold (fst r)
       then raise ValueError ''headers and headers_env must not configure the same header''
       else if \<exists>status\<in>set success. status \<in> set retry
       then raise ValueError ''success_statuses and retry_statuses overlap''
       else Inr (c\<lparr>ht_url := url, ht_method := verb, ht_allowed_hosts := hosts, ht_headers := headers, ht_headers_env := headers_env, ht_user_agent := agent,
         ht_success_statuses := success, ht_retry_statuses := retry, ht_idempotency := idempotency\<rparr>))))))))))))))"

section \<open>What an accepted configuration promises\<close>

definition safe_header :: "string \<times> string \<Rightarrow> bool" where
  "safe_header h \<longleftrightarrow> header_name_text (fst h) \<and> casefold (fst h) \<notin> set FORBIDDEN_HEADER_NAMES
     \<and> casefold (fst h) \<notin> set DIRECT_SECRET_HEADER_NAMES \<and> snd h \<noteq> [] \<and> strip (snd h) = snd h \<and> \<not> control_characters (snd h)"

lemma http_header_name_Inr:
  "http_header_name v = Inr name \<Longrightarrow> v = PStr name \<and> header_name_text name \<and> casefold name \<notin> set FORBIDDEN_HEADER_NAMES"
  by (auto simp: http_header_name_def raise_def split: pyval.splits if_splits)

lemma http_header_value_Inr:
  "http_header_value v = Inr s \<Longrightarrow> v = PStr s \<and> s \<noteq> [] \<and> strip s = s \<and> length s \<le> 2048 \<and> \<not> control_characters s"
  by (auto simp: http_header_value_def raise_def split: pyval.splits if_splits)

lemma in_set_update: "x \<in> set (AList.update k v al) \<Longrightarrow> x = (k, v) \<or> x \<in> set al"
  by (induction al) (auto split: if_splits)

lemma http_header_items_safe:
  assumes "http_header_items False items seen rendered = Inr headers" "\<forall>h\<in>set rendered. safe_header h"
  shows "\<forall>h\<in>set headers. safe_header h"
  using assms
proof (induction items arbitrary: seen rendered)
  case (Cons item items)
  obtain raw_name raw_value where item: "item = (raw_name, raw_value)" by (cases item)
  with Cons.prems(1) obtain name where name: "http_header_name raw_name = Inr name" by (auto simp: rbind_Inr_iff)
  with Cons.prems(1) item have fine: "casefold name \<notin> set seen" "casefold name \<notin> set DIRECT_SECRET_HEADER_NAMES"
    by (auto simp: rbind_Inr_iff raise_def split: if_splits)
  with Cons.prems(1) item name obtain v where v: "http_header_value raw_value = Inr v"
    and rest: "http_header_items False items (casefold name # seen) (AList.update name v rendered) = Inr headers"
    by (auto simp: rbind_Inr_iff)
  have "safe_header (name, v)"
    using http_header_name_Inr [OF name] http_header_value_Inr [OF v] fine(2) by (simp add: safe_header_def)
  with Cons.prems(2) have "\<forall>h\<in>set (AList.update name v rendered). safe_header h" by (blast dest: in_set_update)
  then show ?case by (rule Cons.IH [OF rest])
qed simp

lemma http_header_mapping_safe:
  "http_header_mapping False v = Inr headers \<Longrightarrow> \<forall>h\<in>set headers. safe_header h"
  by (auto simp: http_header_mapping_def raise_def split: pyval.splits if_splits dest: http_header_items_safe)

lemma make_http_retry_ok: "make_http_retry p = Inr p' \<Longrightarrow> p' = p \<and> policy_ok p"
  by (cases "backoff_multiplier p") (auto simp: make_http_retry_def raise_def policy_ok_def split: if_splits)

text \<open>
  An accepted configuration sends no header that the sink owns, that names a secret, or that could break a header line;
  no status is both a success and a reason to try again; and the delays of its retries are bounded.
\<close>

theorem http_config_checked:
  assumes "make_http_config split_url raw c = Inr c'"
  shows "\<forall>h\<in>set (ht_headers c'). safe_header h"
    "set (ht_success_statuses c') \<inter> set (ht_retry_statuses c') = {}"
    "policy_ok (ht_retry c')"
proof -
  from assms obtain verb hosts headers headers_env agent success retry p idempotency url where
    headers: "http_header_mapping False (hr_headers raw) = Inr headers"
    and p: "make_http_retry (ht_retry c) = Inr p"
    and last: "(if \<exists>l\<in>set headers. \<exists>r\<in>set headers_env. casefold (fst l) = casefold (fst r)
       then raise ValueError ''headers and headers_env must not configure the same header''
       else if \<exists>status\<in>set success. status \<in> set retry
       then raise ValueError ''success_statuses and retry_statuses overlap''
       else Inr (c\<lparr>ht_url := url, ht_method := verb, ht_allowed_hosts := hosts, ht_headers := headers, ht_headers_env := headers_env,
         ht_user_agent := agent, ht_success_statuses := success, ht_retry_statuses := retry, ht_idempotency := idempotency\<rparr>)) = Inr c'"
    unfolding make_http_config_def rbind_Inr_iff by blast
  from last have c': "\<not> (\<exists>status\<in>set success. status \<in> set retry)"
    "c' = c\<lparr>ht_url := url, ht_method := verb, ht_allowed_hosts := hosts, ht_headers := headers, ht_headers_env := headers_env,
         ht_user_agent := agent, ht_success_statuses := success, ht_retry_statuses := retry, ht_idempotency := idempotency\<rparr>"
    by (simp_all add: raise_def split: if_splits)
  show "\<forall>h\<in>set (ht_headers c'). safe_header h" using http_header_mapping_safe [OF headers] c'(2) by simp
  show "set (ht_success_statuses c') \<inter> set (ht_retry_statuses c') = {}" using c' by auto
  show "policy_ok (ht_retry c')" using make_http_retry_ok [OF p] c'(2) by simp
qed

end
