(* ===== verification/HttpSink.thy ===== *)
theory HttpSink
  imports HttpConfig Attempts StoredValues
begin

text \<open>
  The HTTP sink (\<open>http/mapping.py\<close>, \<open>http/client.py\<close>, \<open>http/sink.py\<close>): every message of a batch becomes one
  JSON request to one configured address, sent again within the retry limit until a success status comes back.  The
  state is the list of events on the network so far; the network itself is the environment, asked before every call of
  \<open>http.client\<close> whether it raises, and for the status and the body of a response.
\<close>

section \<open>Request bodies\<close>

definition stream_sequence_key :: "http_config \<Rightarrow> nats_envelope \<Rightarrow> string option res" where
  "stream_sequence_key c e =
     (case (env_stream e, env_stream_sequence e) of
        (Some (x # xs), Some n) \<Rightarrow> Inr (Some (''stream-sequence:'' @ (x # xs) @ '':'' @ render_int n))
      | _ \<Rightarrow> if hi_required (ht_idempotency c)
          then raise PermanentSinkError ''HTTP idempotency strategy stream_sequence requires stream metadata'' else Inr None)"

definition message_id_key :: "http_config \<Rightarrow> nats_envelope \<Rightarrow> string option res" where
  "message_id_key c e =
     (case env_message_id e of
        Some (x # xs) \<Rightarrow> Inr (Some (''message-id:'' @ x # xs))
      | _ \<Rightarrow> if hi_required (ht_idempotency c)
          then raise PermanentSinkError ''HTTP idempotency strategy message_id requires a message ID'' else Inr None)"

definition payload_sha256_key :: "pylib \<Rightarrow> nats_envelope \<Rightarrow> string" where
  "payload_sha256_key L e = ''payload-sha256:'' @ env_subject e @ '':'' @ l_sha256 L (env_data e)"

definition http_idempotency_key :: "pylib \<Rightarrow> http_config \<Rightarrow> nats_envelope \<Rightarrow> string option res" where
  "http_idempotency_key L c e =
     (if \<not> hi_enabled (ht_idempotency c) then Inr None
      else case hi_strategy (ht_idempotency c) of
          Key_idempotency \<Rightarrow> rmap Some (idempotency_key (l_sha256 L) e)
        | Key_stream_sequence \<Rightarrow> stream_sequence_key c e
        | Key_message_id \<Rightarrow> message_id_key c e
        | Key_payload_sha256 \<Rightarrow> Inr (Some (payload_sha256_key L e)))"

text \<open>One message with the time that the metadata snapshot of its request reads from the clock.\<close>

type_synonym timed_envelope = "datetime \<times> nats_envelope"

definition optional_member :: "bool \<Rightarrow> string \<Rightarrow> pyval res \<Rightarrow> (pyval \<times> pyval) list res" where
  "optional_member wanted key value = (if wanted then rmap (\<lambda>v. [K key v]) value else Inr [])"

definition http_envelope_value :: "pylib \<Rightarrow> http_config \<Rightarrow> timed_envelope \<Rightarrow> pyval res" where
  "http_envelope_value L c m =
     (let e = snd m in
      rbind (payload_for_json_storage L e (ht_payload_mode c)) (\<lambda>np.
      rbind (http_idempotency_key L c e) (\<lambda>key.
      rbind (optional_member (ht_include_metadata c) ''metadata'' (build_nats_metadata_snapshot L e (fst m))) (\<lambda>metadata.
      rbind (optional_member (ht_include_mission_metadata c) ''mission_metadata'' (thaw_metadata (l_str L) (env_mission_metadata e))) (\<lambda>mission.
      rbind (optional_member (ht_include_security_labels c) ''security_labels'' (thaw_metadata (l_str L) (env_security_labels e))) (\<lambda>security.
      rbind (optional_member (ht_include_custody c) ''custody'' (thaw_metadata (l_str L) (env_custody e))) (\<lambda>custody.
        Inr (PDict
          ([K ''schema'' (PStr ''nats_sinks.http.message.v1''),
            K ''schema_version'' (PInt 1),
            K ''idempotency_key'' (opt_str key),
            K ''subject'' (PStr (env_subject e)),
            K ''stream'' (opt_str (env_stream e)),
            K ''stream_sequence'' (opt_int (env_stream_sequence e)),
            K ''consumer'' (opt_str (env_consumer e)),
            K ''consumer_sequence'' (opt_int (env_consumer_sequence e)),
            K ''message_id'' (opt_str (env_message_id e)),
            K ''priority'' (opt_str (env_priority e)),
            K ''classification'' (opt_str (env_classification e)),
            K ''labels'' (if env_labels e = [] then PNone else PStr (join_with '','' (env_labels e))),
            K ''labels_list'' (PList (map PStr (env_labels e))),
            K ''payload'' (np_value np),
            K ''payload_info'' (PDict (payload_info np))]
           @ metadata @ mission @ security @ custody)))))))))"

definition http_body_value :: "pylib \<Rightarrow> http_config \<Rightarrow> timed_envelope \<Rightarrow> pyval res" where
  "http_body_value L c m =
     (case ht_body_format c of
        Payload_body \<Rightarrow> rmap np_value (payload_for_json_storage L (snd m) (ht_payload_mode c))
      | Envelope_body \<Rightarrow> http_envelope_value L c m)"

definition prepare_http_body :: "pylib \<Rightarrow> http_config \<Rightarrow> timed_envelope \<Rightarrow> (bytes \<times> string option) res" where
  "prepare_http_body L c m =
     rbind (http_body_value L c m) (\<lambda>value.
     rbind (case json_dumps (l_float_text L) value of
         Inr rendered \<Rightarrow> Inr rendered
       | Inl err \<Rightarrow> if isinstance err TypeError \<or> isinstance err ValueError
           then raise SerializationError ''HTTP request body is not JSON serializable'' else Inl err) (\<lambda>rendered.
       let body = utf8_encode rendered in
       if ht_max_request_bytes c < int (length body) then raise PermanentSinkError ''HTTP request body exceeds max_request_bytes''
       else rmap (\<lambda>key. (body, key)) (http_idempotency_key L c (snd m))))"

section \<open>The client\<close>

record http_request =
  rq_method :: string
  rq_url :: string
  rq_headers :: "(string \<times> string) list"
  rq_body :: bytes

datatype http_call =
    Default_context
  | Open_connection bool string "int option" rat
  | Send_request string http_request
  | Get_response
  | Read_response int
  | Close_connection

datatype http_event =
    Called http_call
  | Call_failed http_call exn
  | Answered http_request int
  | Slept rat

text \<open>What the network does, given the events so far.  \<open>read(n)\<close> returns at most \<open>n\<close> bytes: only their number matters.\<close>

record http_net =
  hn_fails :: "http_event list \<Rightarrow> http_call \<Rightarrow> exn option"
  hn_status :: "http_event list \<Rightarrow> http_request \<Rightarrow> int"
  hn_read :: "http_event list \<Rightarrow> int"
  hn_random :: "http_event list \<Rightarrow> pyfloat"

type_synonym 'a netm = "(http_event list, 'a) stm"

definition net_call :: "http_net \<Rightarrow> http_call \<Rightarrow> unit netm" where
  "net_call N call h = (case hn_fails N h call of
       None \<Rightarrow> (Inr (), h @ [Called call])
     | Some err \<Rightarrow> (Inl err, h @ [Call_failed call err]))"

definition net_status :: "http_net \<Rightarrow> http_request \<Rightarrow> int netm" where
  "net_status N req h = (case hn_fails N h Get_response of
       None \<Rightarrow> (Inr (hn_status N h req), h @ [Answered req (hn_status N h req)])
     | Some err \<Rightarrow> (Inl err, h @ [Call_failed Get_response err]))"

definition net_read :: "http_net \<Rightarrow> int \<Rightarrow> int netm" where
  "net_read N n h = (case hn_fails N h (Read_response n) of
       None \<Rightarrow> (Inr (max 0 (min n (hn_read N h))), h @ [Called (Read_response n)])
     | Some err \<Rightarrow> (Inl err, h @ [Call_failed (Read_response n) err]))"

definition request_failure :: "exn \<Rightarrow> exn" where
  "request_failure err =
     (if isinstance err PyTimeoutError then Exn DestinationUnavailableError ''HTTP sink request timed out''
      else if isinstance err OSError then Exn DestinationUnavailableError ''HTTP sink request failed before response''
      else err)"

text \<open>\<open>StandardHttpClient._send_sync\<close>: the status of a response whose body fits.\<close>

definition send_sync :: "url_split \<Rightarrow> http_net \<Rightarrow> http_request \<Rightarrow> rat \<Rightarrow> int \<Rightarrow> int netm" where
  "send_sync split_url N req timeout max_response =
     st_bind (st_lift (split_url (rq_url req))) (\<lambda>parsed.
       case up_hostname parsed of
         None \<Rightarrow> st_throw (Exn DestinationUnavailableError ''HTTP sink URL has no host'')
       | Some host \<Rightarrow>
           (let path = (if up_path parsed = [] then ''/'' else up_path parsed);
                path = (if up_query parsed = [] then path else path @ ''?'' @ up_query parsed);
                secure = (up_scheme parsed = ''https'')
            in st_bind (st_lift (up_port parsed)) (\<lambda>port.
               st_then (if secure then net_call N Default_context else st_ret ())
              (st_then (net_call N (Open_connection secure host port timeout))
              (st_bind (st_finally
                  (st_catch
                    (st_then (net_call N (Send_request path req))
                      (st_bind (net_status N req) (\<lambda>status.
                       st_bind (net_read N (max_response + 1)) (\<lambda>body. st_ret (status, body)))))
                    (\<lambda>err. st_throw (request_failure err)))
                  (net_call N Close_connection))
                (\<lambda>(status, body). if max_response < body
                   then st_throw (Exn DestinationUnavailableError ''HTTP sink response exceeded size limit'')
                   else st_ret status))))))"

section \<open>The sink\<close>

record http_sink =
  hk_lib :: pylib
  hk_split :: url_split
  hk_environ :: "string \<Rightarrow> string option"
  hk_config :: http_config
  hk_net :: http_net

definition header_value_from_env :: "(string \<Rightarrow> string option) \<Rightarrow> string \<Rightarrow> string res" where
  "header_value_from_env environ name =
     (case environ name of
        None \<Rightarrow> raise ConfigurationError ''environment variable is not set''
      | Some value \<Rightarrow>
          if strip value = [] then raise ConfigurationError ''environment variable is not set''
          else if value \<noteq> strip value then raise ConfigurationError ''environment variable must not contain padding''
          else if control_characters value then raise ConfigurationError ''environment variable contains control characters''
          else Inr value)"

fun env_headers_into :: "(string \<Rightarrow> string option) \<Rightarrow> (string \<times> string) list \<Rightarrow> (string \<times> string) list \<Rightarrow> (string \<times> string) list res" where
  "env_headers_into environ [] headers = Inr headers"
| "env_headers_into environ ((name, env_name) # items) headers =
     rbind (header_value_from_env environ env_name) (\<lambda>value. env_headers_into environ items (AList.update name value headers))"

definition base_headers :: "http_sink \<Rightarrow> (string \<times> string) list res" where
  "base_headers S =
     env_headers_into (hk_environ S) (ht_headers_env (hk_config S))
       (fold (\<lambda>(name, value). AList.update name value) (ht_headers (hk_config S))
         [(''Accept'', ''application/json''), (''Content-Type'', ''application/json''),
          (''User-Agent'', ht_user_agent (hk_config S))])"

definition request_for_envelope :: "http_sink \<Rightarrow> timed_envelope \<Rightarrow> http_request res" where
  "request_for_envelope S m =
     (let c = hk_config S in
      rbind (prepare_http_body (hk_lib S) c m) (\<lambda>(body, key).
      rbind (base_headers S) (\<lambda>headers.
        Inr \<lparr>rq_method = method_text (ht_method c), rq_url = ht_url c,
             rq_headers = (case key of None \<Rightarrow> headers | Some k \<Rightarrow> AList.update (hi_header (ht_idempotency c)) k headers),
             rq_body = body\<rparr>)))"

definition classify_response :: "http_config \<Rightarrow> int \<Rightarrow> unit res" where
  "classify_response c status =
     (if status \<in> set (ht_success_statuses c) then Inr ()
      else if status \<in> set (ht_retry_statuses c) then raise DestinationUnavailableError ''HTTP sink returned retryable HTTP status''
      else raise PermanentSinkError ''HTTP sink returned non-success HTTP status'')"

text \<open>The handlers around one attempt.\<close>

definition judge_send :: "exn \<Rightarrow> verdict" where
  "judge_send err =
     (if isinstance err DestinationUnavailableError then Try_again err
      else if isinstance err NatsSinksError then Give_up err
      else if isinstance err PyTimeoutError then Try_again (Exn DestinationUnavailableError ''HTTP sink request timed out'')
      else if isinstance err OSError then Try_again (Exn DestinationUnavailableError ''HTTP sink request failed before response'')
      else if isinstance err PyException
      then Give_up (Exn DestinationUnavailableError ''HTTP sink client failed before endpoint success was confirmed'')
      else Give_up err)"

definition sleep_before_next_attempt :: "http_sink \<Rightarrow> int \<Rightarrow> unit netm" where
  "sleep_before_next_attempt S attempt h =
     (let delay = backoff_seconds (ht_retry (hk_config S)) (hn_random (hk_net S) h) attempt
      in (Inr (), if 0 < delay then h @ [Slept delay] else h))"

definition send_once :: "http_sink \<Rightarrow> http_request \<Rightarrow> unit netm" where
  "send_once S req =
     (let c = hk_config S in
      st_bind (send_sync (hk_split S) (hk_net S) req (ht_request_timeout c) (ht_max_response_bytes c)) (\<lambda>status.
        st_lift (classify_response c status)))"

definition send_with_retries :: "http_sink \<Rightarrow> http_request \<Rightarrow> unit netm" where
  "send_with_retries S req =
     attempt_loop judge_send (sleep_before_next_attempt S) (send_once S req) (nat (max_retries (ht_retry (hk_config S)) + 1)) 1
       (Exn DestinationUnavailableError ''HTTP sink request failed without a response'')"

definition http_write_message :: "http_sink \<Rightarrow> timed_envelope \<Rightarrow> unit netm" where
  "http_write_message S m = st_bind (st_lift (request_for_envelope S m)) (send_with_retries S)"

text \<open>\<open>write_batch\<close>.\<close>

definition http_write_batch :: "http_sink \<Rightarrow> timed_envelope list \<Rightarrow> unit netm" where
  "http_write_batch S ms = st_each (http_write_message S) ms"


section \<open>One message\<close>

text \<open>An attempt to put a request on the wire; one that raised may have arrived all the same.\<close>

fun sends_request :: "http_event \<Rightarrow> http_request option" where
  "sends_request (Called (Send_request path req)) = Some req"
| "sends_request (Call_failed (Send_request path req) err) = Some req"
| "sends_request event = None"

definition sent_requests :: "http_event list \<Rightarrow> http_request list" where
  "sent_requests events = List.map_filter sends_request events"

definition confirmed_by :: "http_config \<Rightarrow> http_request \<Rightarrow> http_event list \<Rightarrow> bool" where
  "confirmed_by c req events \<longleftrightarrow> (\<exists>status\<in>set (ht_success_statuses c). Answered req status \<in> set events)"

lemma sent_requests_append [simp]: "sent_requests (es @ fs) = sent_requests es @ sent_requests fs"
  by (simp add: sent_requests_def map_filter_def)

lemma sent_requests_simps [simp]:
  "sent_requests [] = []"
  "sent_requests (e # es) = (case sends_request e of None \<Rightarrow> [] | Some r \<Rightarrow> [r]) @ sent_requests es"
  by (auto simp: sent_requests_def map_filter_def split: option.splits)

text \<open>Since \<open>h0\<close>, only \<open>req\<close> was sent, at most \<open>k\<close> times.\<close>

definition since :: "http_event list \<Rightarrow> http_request \<Rightarrow> nat \<Rightarrow> (http_event list \<Rightarrow> bool) \<Rightarrow> http_event list \<Rightarrow> bool" where
  "since h0 req k T h \<longleftrightarrow>
     (\<exists>seg. h = h0 @ seg \<and> (\<forall>r\<in>set (sent_requests seg). r = req) \<and> length (sent_requests seg) \<le> k \<and> T seg)"

lemma since_append:
  assumes "since h0 req k T h" "sends_request ev = None" "\<And>seg. T seg \<Longrightarrow> T' (seg @ [ev])"
  shows "since h0 req k T' (h @ [ev])"
  using assms by (fastforce simp: since_def)

lemma since_send:
  assumes "since h0 req k T h" "sends_request ev = Some req"
  shows "since h0 req (Suc k) (\<lambda>_. True) (h @ [ev])"
  using assms by (fastforce simp: since_def)

lemma since_mono:
  assumes "since h0 req j T h" "j \<le> k" "\<And>seg. T seg \<Longrightarrow> T' seg"
  shows "since h0 req k T' h"
  using assms by (fastforce simp: since_def)

lemma net_call_since:
  assumes "\<And>path r. call \<noteq> Send_request path r" "\<And>seg ev. T seg \<Longrightarrow> T (seg @ [ev])"
  shows "st_hoare (since h0 req k T) (net_call N call) (\<lambda>_. since h0 req k T) (since h0 req k T)"
proof -
  have "sends_request (Called call) = None" "sends_request (Call_failed call err) = None" for err
    using assms(1) by (cases call; simp)+
  with assms(2) show ?thesis
    by (auto simp: st_hoare_def net_call_def intro: since_append split: option.splits)
qed

lemma net_send_since:
  "st_hoare (since h0 req k T) (net_call N (Send_request path req)) (\<lambda>_. since h0 req (Suc k) (\<lambda>_. True)) (since h0 req (Suc k) (\<lambda>_. True))"
  by (auto simp: st_hoare_def net_call_def intro: since_send split: option.splits)

lemma net_status_since:
  "st_hoare (since h0 req k (\<lambda>_. True)) (net_status N req)
     (\<lambda>status. since h0 req k (\<lambda>seg. Answered req status \<in> set seg)) (since h0 req k (\<lambda>_. True))"
  by (auto simp: st_hoare_def net_status_def intro: since_append split: option.splits)

lemma net_read_since:
  assumes "\<And>seg ev. T seg \<Longrightarrow> T (seg @ [ev])"
  shows "st_hoare (since h0 req k T) (net_read N n) (\<lambda>_. since h0 req k T) (since h0 req k (\<lambda>_. True))"
  using assms by (auto simp: st_hoare_def net_read_def intro: since_append split: option.splits)

text \<open>One call of the client sends the request at most once, and a status that it returns was answered to it.\<close>

lemma send_sync_since:
  "st_hoare (since h0 req k (\<lambda>_. True)) (send_sync split_url N req timeout n)
     (\<lambda>status. since h0 req (Suc k) (\<lambda>seg. Answered req status \<in> set seg)) (since h0 req (Suc k) (\<lambda>_. True))"
proof -
  let ?I = "\<lambda>k. since h0 req k (\<lambda>_. True)"
  let ?A = "\<lambda>k status. since h0 req k (\<lambda>seg. Answered req status \<in> set seg)"
  have more: "?I k h \<Longrightarrow> ?I (Suc k) h" for h by (erule since_mono) auto
  have less: "?A k status h \<Longrightarrow> ?I k h" for k status h by (erule since_mono) auto
  have quiet: "st_hoare (?I k) (net_call N call) (\<lambda>_. ?I k) (?I (Suc k))" if "\<And>path r. call \<noteq> Send_request path r" for call
    by (rule st_hoare_weaken [OF net_call_since [where k = k and T = "\<lambda>_. True"]]) (auto simp: that intro: more)
  have close: "st_hoare (?A (Suc k) status) (net_call N Close_connection) (\<lambda>_. ?A (Suc k) status) (?I (Suc k))" for status
    by (rule st_hoare_weaken [OF net_call_since [where k = "Suc k" and T = "\<lambda>seg. Answered req status \<in> set seg"]]) (auto intro: less)
  have close': "st_hoare (?I (Suc k)) (net_call N Close_connection) (\<lambda>_. ?I (Suc k)) (?I (Suc k))"
    by (rule net_call_since) auto
  have read: "st_hoare (?A (Suc k) status) (net_read N n) (\<lambda>_. ?A (Suc k) status) (?I (Suc k))" for status n
    by (rule net_read_since) auto
  have exchange: "st_hoare (?I k) (st_catch
        (st_then (net_call N (Send_request path req))
          (st_bind (net_status N req) (\<lambda>status. st_bind (net_read N (n + 1)) (\<lambda>body. st_ret (status, body)))))
        (\<lambda>err. st_throw (request_failure err)))
      (\<lambda>(status, body). ?A (Suc k) status) (?I (Suc k))" for path
    by (rule st_hoare_catch [where H = "?I (Suc k)"])
      (auto intro!: st_hoare_then [OF net_send_since] st_hoare_bind [OF net_status_since] st_hoare_bind [OF read]
        st_hoare_ret st_hoare_throw)
  have final: "st_hoare (?A (Suc k) status)
      (if n < body then st_throw (Exn DestinationUnavailableError ''HTTP sink response exceeded size limit'') else st_ret status)
      (\<lambda>status. ?A (Suc k) status) (?I (Suc k))" for status body
    by (auto intro: st_hoare_throw st_hoare_ret less)
  have connected: "st_hoare (?I k) (st_bind (st_finally (st_catch
        (st_then (net_call N (Send_request path req))
          (st_bind (net_status N req) (\<lambda>status. st_bind (net_read N (n + 1)) (\<lambda>body. st_ret (status, body)))))
        (\<lambda>err. st_throw (request_failure err))) (net_call N Close_connection))
      (\<lambda>(status, body). if n < body
         then st_throw (Exn DestinationUnavailableError ''HTTP sink response exceeded size limit'') else st_ret status))
      (\<lambda>status. ?A (Suc k) status) (?I (Suc k))" for path
    by (rule st_hoare_bind [OF st_hoare_finally [OF exchange], where M = "\<lambda>(status, body). ?A (Suc k) status"])
      (use close close' final in \<open>auto split: prod.split\<close>)
  have tls: "st_hoare (?I k) (if secure then net_call N Default_context else st_ret ()) (\<lambda>_. ?I k) (?I (Suc k))" for secure
    by (auto intro: quiet st_hoare_ret)
  show ?thesis
    unfolding send_sync_def
  proof (intro st_hoare_bind [where M = "\<lambda>_. ?I k"])
    show "st_hoare (?I k) (st_lift (split_url (rq_url req))) (\<lambda>_. ?I k) (?I (Suc k))"
      by (rule st_hoare_lift) (auto intro: more)
    fix parsed
    show "st_hoare (?I k) (case up_hostname parsed of
         None \<Rightarrow> st_throw (Exn DestinationUnavailableError ''HTTP sink URL has no host'')
       | Some host \<Rightarrow>
           (let path = (if up_path parsed = [] then ''/'' else up_path parsed);
                path = (if up_query parsed = [] then path else path @ ''?'' @ up_query parsed);
                secure = (up_scheme parsed = ''https'')
            in st_bind (st_lift (up_port parsed)) (\<lambda>port.
               st_then (if secure then net_call N Default_context else st_ret ())
              (st_then (net_call N (Open_connection secure host port timeout))
              (st_bind (st_finally
                  (st_catch
                    (st_then (net_call N (Send_request path req))
                      (st_bind (net_status N req) (\<lambda>status.
                       st_bind (net_read N (n + 1)) (\<lambda>body. st_ret (status, body)))))
                    (\<lambda>err. st_throw (request_failure err)))
                  (net_call N Close_connection))
                (\<lambda>(status, body). if n < body
                   then st_throw (Exn DestinationUnavailableError ''HTTP sink response exceeded size limit'')
                   else st_ret status))))))
      (\<lambda>status. ?A (Suc k) status) (?I (Suc k))"
    proof (cases "up_hostname parsed")
      case None
      then show ?thesis by (auto intro: st_hoare_throw more)
    next
      case (Some host)
      have port: "st_hoare (?I k) (st_lift (up_port parsed)) (\<lambda>_. ?I k) (?I (Suc k))"
        by (rule st_hoare_lift) (auto intro: more)
      show ?thesis
        unfolding Some option.case Let_def
        by (rule st_hoare_bind [OF port], rule st_hoare_then [OF tls], rule st_hoare_then [OF quiet], simp, rule connected)
    qed
  qed
qed

lemma send_once_since:
  "st_hoare (since h0 req k (\<lambda>_. True)) (send_once S req)
     (\<lambda>_. since h0 req (Suc k) (confirmed_by (hk_config S) req)) (since h0 req (Suc k) (\<lambda>_. True))"
  unfolding send_once_def Let_def
  by (rule st_hoare_bind [OF send_sync_since], rule st_hoare_lift)
    (auto simp: classify_response_def raise_def confirmed_by_def elim!: since_mono split: if_splits)

lemma sleep_since:
  "st_hoare (since h0 req k (\<lambda>_. True)) (sleep_before_next_attempt S attempt) (\<lambda>_. since h0 req k (\<lambda>_. True)) (since h0 req k (\<lambda>_. True))"
  by (auto simp: st_hoare_def sleep_before_next_attempt_def Let_def intro: since_append)

definition attempts_allowed :: "http_config \<Rightarrow> nat" where
  "attempts_allowed c = nat (max_retries (ht_retry c) + 1)"

lemma send_with_retries_since:
  "st_hoare (since h0 req 0 (\<lambda>_. True)) (send_with_retries S req)
     (\<lambda>_. since h0 req (attempts_allowed (hk_config S)) (confirmed_by (hk_config S) req))
     (since h0 req (attempts_allowed (hk_config S)) (\<lambda>_. True))"
proof -
  let ?m = "attempts_allowed (hk_config S)"
  define P where "P = (\<lambda>left h. left \<le> ?m \<and> since h0 req (?m - left) (\<lambda>_. True) h)"
  have "st_hoare (P ?m) (send_with_retries S req) (\<lambda>_. since h0 req ?m (confirmed_by (hk_config S) req)) (since h0 req ?m (\<lambda>_. True))"
    unfolding send_with_retries_def attempts_allowed_def [symmetric]
  proof (rule attempt_loop_hoare)
    fix left
    show "st_hoare (P (Suc left)) (send_once S req) (\<lambda>_. since h0 req ?m (confirmed_by (hk_config S) req)) (P left)"
    proof (cases "Suc left \<le> ?m")
      case True
      then have "Suc (?m - Suc left) = ?m - left" by simp
      with True show ?thesis
        by (intro st_hoare_weaken [OF send_once_since [where k = "?m - Suc left"]]) (auto simp: P_def elim: since_mono)
    qed (simp add: P_def st_hoare_def)
  next
    fix left a
    show "st_hoare (P left) (sleep_before_next_attempt S a) (\<lambda>_. P left) (P left)"
      using sleep_since [of h0 req "?m - left" S a] unfolding P_def
      by (cases "left \<le> ?m") (simp_all, simp add: st_hoare_def)
  next
    fix left h assume "P left h"
    then show "since h0 req ?m (\<lambda>_. True) h" by (auto simp: P_def elim: since_mono)
  qed
  then show ?thesis by (rule st_hoare_weaken) (auto simp: P_def)
qed

section \<open>Batches\<close>

definition delivered_by :: "http_sink \<Rightarrow> timed_envelope \<Rightarrow> http_event list \<Rightarrow> bool" where
  "delivered_by S m seg \<longleftrightarrow> (\<exists>req. request_for_envelope S m = Inr req \<and> (\<forall>r\<in>set (sent_requests seg). r = req)
     \<and> length (sent_requests seg) \<le> attempts_allowed (hk_config S) \<and> confirmed_by (hk_config S) req seg)"

definition offered_by :: "http_sink \<Rightarrow> timed_envelope \<Rightarrow> http_event list \<Rightarrow> bool" where
  "offered_by S m seg \<longleftrightarrow> (\<forall>r\<in>set (sent_requests seg). request_for_envelope S m = Inr r)
     \<and> length (sent_requests seg) \<le> attempts_allowed (hk_config S)"

lemma write_message_segment:
  assumes "http_write_message S m h = (r, h')"
  shows "\<exists>seg. h' = h @ seg \<and> (case r of Inr _ \<Rightarrow> delivered_by S m seg | Inl _ \<Rightarrow> offered_by S m seg)"
proof (cases "request_for_envelope S m")
  case (Inl err)
  with assms have "r = Inl err" "h' = h" by (auto simp: http_write_message_def st_bind_def st_lift_def)
  then show ?thesis by (auto simp: offered_by_def)
next
  case (Inr req)
  with assms have run: "send_with_retries S req h = (r, h')" by (simp add: http_write_message_def st_bind_def st_lift_def)
  have start: "since h req 0 (\<lambda>_. True) h" by (simp add: since_def)
  show ?thesis
  proof (cases r)
    case (Inl err)
    with run st_hoareD(2) [OF send_with_retries_since start] have "since h req (attempts_allowed (hk_config S)) (\<lambda>_. True) h'" by blast
    with Inr Inl show ?thesis by (auto simp: since_def offered_by_def)
  next
    case (Inr u)
    with run st_hoareD(1) [OF send_with_retries_since start]
    have "since h req (attempts_allowed (hk_config S)) (confirmed_by (hk_config S) req) h'" by blast
    with \<open>request_for_envelope S m = Inr req\<close> Inr show ?thesis by (auto simp: since_def delivered_by_def)
  qed
qed

text \<open>C40: When \<open>HttpSink.write_batch\<close> returns, the endpoint has answered a success status to every message of the batch,
  in batch order; each message was one fixed request, put on the wire at most \<open>max_retries + 1\<close> times.  When it raises,
  that holds for the messages before the one that failed, and nothing was sent for the messages behind it.\<close>

theorem http_batch_confirmed_in_order:
  assumes "http_write_batch S ms h = (r, h')"
  shows "\<exists>segs. h' = h @ concat segs \<and> (case r of
      Inr _ \<Rightarrow> list_all2 (delivered_by S) ms segs
    | Inl _ \<Rightarrow> \<exists>finished m rest. ms = finished @ m # rest \<and> segs \<noteq> []
        \<and> list_all2 (delivered_by S) finished (butlast segs) \<and> offered_by S m (last segs))"
  by (rule st_each_segments [OF write_message_segment assms [unfolded http_write_batch_def]])

text \<open>A sink whose first attempt times out on the wire and whose second is answered 200.\<close>

definition sample_http_config :: http_config where
  "sample_http_config = \<lparr>ht_url = ''u'', ht_method = Post, ht_body_format = Payload_body, ht_allowed_hosts = [], ht_allow_local = False,
     ht_headers = [], ht_headers_env = [], ht_user_agent = ''a'', ht_request_timeout = 1, ht_max_request_bytes = 1000,
     ht_max_response_bytes = 0, ht_success_statuses = [200], ht_retry_statuses = [503],
     ht_retry = \<lparr>max_retries = 1, backoff_ms = 0, max_backoff_ms = 0, backoff_mode = Fixed, backoff_multiplier = FFin 1, jitter = NoJitter\<rparr>,
     ht_payload_mode = Json_or_envelope, ht_include_metadata = False, ht_include_mission_metadata = False,
     ht_include_security_labels = False, ht_include_custody = False,
     ht_idempotency = \<lparr>hi_enabled = True, hi_required = True, hi_header = ''k'', hi_strategy = Key_stream_sequence\<rparr>\<rparr>"

definition sample_url :: url_parts where
  "sample_url = \<lparr>up_scheme = ''https'', up_netloc = ''h'', up_hostname = Some ''h'', up_username = None, up_password = None, up_port = Inr None,
     up_path = [], up_query = [], up_fragment = []\<rparr>"

definition sample_http :: http_sink where
  "sample_http = \<lparr>hk_lib = plain_lib, hk_split = (\<lambda>_. Inr sample_url), hk_environ = (\<lambda>_. None), hk_config = sample_http_config,
     hk_net = \<lparr>hn_fails = (\<lambda>h call. case call of
           Send_request path req \<Rightarrow> (if length h < 3 then Some (Exn PyTimeoutError []) else None) | _ \<Rightarrow> None),
       hn_status = (\<lambda>_ _. 200), hn_read = (\<lambda>_. 0), hn_random = (\<lambda>_. FFin 0)\<rparr>\<rparr>"

lemma sample_request: "\<exists>req. request_for_envelope sample_http (Aware 0 0, sample_envelope ''o'' 7 [1]) = Inr req"
proof -
  have "case request_for_envelope sample_http (Aware 0 0, sample_envelope ''o'' 7 [1]) of Inl _ \<Rightarrow> False | Inr _ \<Rightarrow> True"
    by code_simp
  then show ?thesis by (cases "request_for_envelope sample_http (Aware 0 0, sample_envelope ''o'' 7 [1])") auto
qed

lemma sample_run:
  "send_with_retries sample_http req [] = (Inr (),
     [Called Default_context, Called (Open_connection True ''h'' None 1), Call_failed (Send_request ''/'' req) (Exn PyTimeoutError []),
      Called Close_connection, Called Default_context, Called (Open_connection True ''h'' None 1), Called (Send_request ''/'' req),
      Answered req 200, Called (Read_response 1), Called Close_connection])"
  by (simp add: send_with_retries_def sample_http_def sample_http_config_def sample_url_def send_once_def send_sync_def Let_def
     st_bind_def st_then_def st_lift_def st_catch_def st_finally_def st_throw_def st_ret_def net_call_def net_status_def net_read_def
     request_failure_def judge_send_def sleep_before_next_attempt_def backoff_seconds_def raw_backoff_seconds_def
     classify_response_def eval_nat_numeral)

theorem http_batch_confirmed_in_order_witness:
  "\<exists>segs. length (sent_requests (concat segs)) = 2
     \<and> list_all2 (delivered_by sample_http) [(Aware 0 0, sample_envelope ''o'' 7 [1])] segs"
proof -
  obtain req where req: "request_for_envelope sample_http (Aware 0 0, sample_envelope ''o'' 7 [1]) = Inr req"
    using sample_request by blast
  obtain h' where h': "http_write_batch sample_http [(Aware 0 0, sample_envelope ''o'' 7 [1])] [] = (Inr (), h')"
      "length (sent_requests h') = 2"
    using sample_run [of req] by (simp add: http_write_batch_def http_write_message_def st_then_def st_bind_def st_lift_def st_ret_def req)
  from http_batch_confirmed_in_order [OF h'(1)] h'(2) show ?thesis by auto
qed

text \<open>Whatever the network raises, a send fails with an error of the framework, or with no \<open>Exception\<close> at all.\<close>

theorem http_send_error_class:
  assumes "send_with_retries S req h = (Inl err, h')"
  shows "isinstance err NatsSinksError \<or> \<not> isinstance err PyException"
proof -
  have "fst (sleep_before_next_attempt S a s) = Inr ()" for a s by (simp add: sleep_before_next_attempt_def Let_def)
  from attempt_loop_error [OF assms [unfolded send_with_retries_def] this]
  obtain raised where "err = Exn DestinationUnavailableError ''HTTP sink request failed without a response''
      \<or> judge_send raised = Give_up err \<or> judge_send raised = Try_again err" by blast
  moreover have "isinstance e DestinationUnavailableError \<Longrightarrow> isinstance e NatsSinksError" for e
    using ancestors_closed [of DestinationUnavailableError "exn_cls e"] by (auto simp: isinstance_def)
  ultimately show ?thesis by (auto simp: judge_send_def split: if_splits)
qed

text \<open>
  The address check never reads the port, and \<open>urlsplit\<close> does not either: with a port out of range the configuration is
  accepted, and then every message fails before anything is sent, with an error that counts as temporary.
\<close>

theorem http_bad_port_is_temporary:
  assumes "hk_split S (ht_url (hk_config S)) = Inr parsed" "up_hostname parsed = Some host" "up_port parsed = raise ValueError msg"
    "request_for_envelope S m = Inr req" "0 \<le> max_retries (ht_retry (hk_config S))"
  shows "http_url (hk_split S) allow hosts value = http_url (\<lambda>v. rmap (\<lambda>p. p\<lparr>up_port := Inr None\<rparr>) (hk_split S v)) allow hosts value"
    "http_write_message S m h = (Inl (Exn DestinationUnavailableError ''HTTP sink client failed before endpoint success was confirmed''), h)"
proof -
  show "http_url (hk_split S) allow hosts value = http_url (\<lambda>v. rmap (\<lambda>p. p\<lparr>up_port := Inr None\<rparr>) (hk_split S v)) allow hosts value"
  proof (cases "strip value = value")
    case True
    then show ?thesis by (cases "hk_split S value") (simp_all add: http_url_def rmap_def rbind_def Let_def)
  qed (simp add: http_url_def Let_def)
  have url: "rq_url req = ht_url (hk_config S)"
    using assms(4) by (auto simp: request_for_envelope_def Let_def rbind_Inr_iff)
  have once: "send_once S req h = (Inl (Exn ValueError msg), h)"
    using assms(1-3) by (simp add: send_once_def send_sync_def Let_def st_bind_def st_lift_def url raise_def)
  have "nat (max_retries (ht_retry (hk_config S)) + 1) = Suc (nat (max_retries (ht_retry (hk_config S))))" using assms(5) by simp
  then show "http_write_message S m h = (Inl (Exn DestinationUnavailableError ''HTTP sink client failed before endpoint success was confirmed''), h)"
    using assms(4) once by (simp add: http_write_message_def st_bind_def st_lift_def send_with_retries_def st_catch_def judge_send_def st_throw_def)
qed

end
