(* ===== verification/Spec2Isabelle.thy ===== *)
theory Spec2Isabelle
  imports Batching RunnerLoop FanoutDelivery FileSink SpoolReplay MySqlSink OracleSink S3Sink HttpSink
begin

text \<open>
  Verification library of the delivery core of nats-sinks.
\<close>

end
